(* ===== verification/Cxbx_Prelude.thy ===== *)
theory Cxbx_Prelude
  imports Main "HOL-Library.Word"
begin

text \<open>
  Shared vocabulary of the development.

  The emulator is C++ that mutates objects and guest memory, asserts and aborts. Every operation
  that can touch state is a function of type \<open>('a, 's) run\<close>: from a state to either a
  \<open>fault\<close> or a result with the next state. Pure arithmetic stays a plain function on
  \<open>w word\<close>.

  The theory holds: the machine integer types, the fault type, the four combinators of \<open>run\<close>
  and their rewrite rules (collection \<open>run_simps\<close>), byte-addressed little-endian memory with
  its read-after-write rules (collection \<open>mem_simps\<close>), \<open>std::map\<close> as a key-sorted
  association list, and generic word lemmas.
\<close>

unbundle bit_operations_syntax

named_theorems run_simps \<open>rewrite rules of the fault-and-state combinators\<close>
named_theorems mem_simps \<open>read-after-write rules of byte memory\<close>

type_synonym u8 = "8 word"
type_synonym u16 = "16 word"
type_synonym u32 = "32 word"
type_synonym u64 = "64 word"

section \<open>Faults and state passing\<close>

text \<open>
  \<open>AssertFailed\<close> is a failing \<open>assert\<close> of the source (the model is the build with assertions
  on), \<open>OutOfBounds\<close> an access outside a C++ array, \<open>Aborted\<close> a call of \<open>CxbxrAbort\<close>,
  \<open>ShutDown\<close> the end of the emulation by \<open>CxbxrShutDown\<close>, \<open>BadPointer\<close> a dereference of a null
  pointer and \<open>Raised\<close> a status raised to the guest by \<open>ExRaiseStatus\<close>.
\<close>

datatype fault = AssertFailed | OutOfBounds | Aborted | ShutDown | BadPointer | Raised u32

type_synonym ('a, 's) run = "'s \<Rightarrow> fault + ('a \<times> 's)"

definition ret :: "'a \<Rightarrow> ('a, 's) run" where
  "ret a s = Inr (a, s)"

definition fail :: "fault \<Rightarrow> ('a, 's) run" where
  "fail e s = Inl e"

definition bnd :: "('a, 's) run \<Rightarrow> ('a \<Rightarrow> ('b, 's) run) \<Rightarrow> ('b, 's) run" where
  "bnd m f s = (case m s of Inl e \<Rightarrow> Inl e | Inr (a, t) \<Rightarrow> f a t)"

definition get :: "('s \<Rightarrow> 'a) \<Rightarrow> ('a, 's) run" where
  "get f s = Inr (f s, s)"

definition modify :: "('s \<Rightarrow> 's) \<Rightarrow> (unit, 's) run" where
  "modify f s = Inr ((), f s)"

definition check :: "bool \<Rightarrow> (unit, 's) run" where
  "check b s = (if b then Inr ((), s) else Inl AssertFailed)"

lemma ret_apply [simp, run_simps]: "ret a s = Inr (a, s)"
  by (simp add: ret_def)

lemma fail_apply [simp, run_simps]: "fail e s = Inl e"
  by (simp add: fail_def)

lemma get_apply [simp, run_simps]: "get f s = Inr (f s, s)"
  by (simp add: get_def)

lemma modify_apply [simp, run_simps]: "modify f s = Inr ((), f s)"
  by (simp add: modify_def)

lemma check_apply [run_simps]: "check b s = (if b then Inr ((), s) else Inl AssertFailed)"
  by (simp add: check_def)

declare bnd_def [run_simps]

lemma bnd_Inr: "m s = Inr (a, t) \<Longrightarrow> bnd m f s = f a t"
  by (simp add: bnd_def)

lemma bnd_Inl: "m s = Inl e \<Longrightarrow> bnd m f s = Inl e"
  by (simp add: bnd_def)

lemma bnd_eq_Inr_iff:
  "bnd m f s = Inr (b, u) \<longleftrightarrow> (\<exists>a t. m s = Inr (a, t) \<and> f a t = Inr (b, u))"
  by (auto simp: bnd_def split: sum.splits)

lemma bnd_InrE:
  assumes "bnd m f s = Inr (b, u)"
  obtains a t where "m s = Inr (a, t)" and "f a t = Inr (b, u)"
  using assms by (auto simp: bnd_eq_Inr_iff)

lemma bnd_assoc: "bnd (bnd m f) g = bnd m (\<lambda>a. bnd (f a) g)"
  by (rule ext) (simp add: bnd_def split: sum.splits)

lemma bnd_ret_left: "bnd (ret a) f = f a"
  by (rule ext) (simp add: bnd_def)

lemma bnd_ret_right: "bnd m ret = m"
  by (rule ext) (simp add: bnd_def split: sum.splits)

text \<open>
  A fact that every successful outcome of an operation keeps: the invariant rule for \<open>run\<close>.
\<close>

definition keeps :: "('s \<Rightarrow> bool) \<Rightarrow> ('a, 's) run \<Rightarrow> bool" where
  "keeps P m \<longleftrightarrow> (\<forall>s a t. P s \<longrightarrow> m s = Inr (a, t) \<longrightarrow> P t)"

lemma keepsI: "(\<And>s a t. P s \<Longrightarrow> m s = Inr (a, t) \<Longrightarrow> P t) \<Longrightarrow> keeps P m"
  by (auto simp: keeps_def)

lemma keepsD: "keeps P m \<Longrightarrow> P s \<Longrightarrow> m s = Inr (a, t) \<Longrightarrow> P t"
  by (auto simp: keeps_def)

lemma keeps_ret [intro]: "keeps P (ret a)"
  by (auto simp: keeps_def)

lemma keeps_fail [intro]: "keeps P (fail e)"
  by (auto simp: keeps_def)

lemma keeps_get [intro]: "keeps P (get f)"
  by (auto simp: keeps_def)

lemma keeps_check [intro]: "keeps P (check b)"
  by (auto simp: keeps_def check_def)

lemma keeps_modify: "(\<And>s. P s \<Longrightarrow> P (f s)) \<Longrightarrow> keeps P (modify f)"
  by (auto simp: keeps_def)

lemma keeps_bnd [intro]: "keeps P m \<Longrightarrow> (\<And>a. keeps P (f a)) \<Longrightarrow> keeps P (bnd m f)"
  unfolding keeps_def bnd_eq_Inr_iff by blast

lemma keeps_if [intro]: "keeps P m \<Longrightarrow> keeps P n \<Longrightarrow> keeps P (if b then m else n)"
  by simp

section \<open>Masks\<close>

text \<open>The low-bit masks of the source as \<open>take_bit\<close>, for which \<open>bit_simps\<close> has rules.\<close>

named_theorems mask_simps \<open>low-bit masks as \<open>take_bit\<close>\<close>

lemma and_low_masks [mask_simps]:
  fixes x :: "'a::len word"
  shows "x AND 1 = take_bit 1 x" "x AND 3 = take_bit 2 x" "x AND 7 = take_bit 3 x"
    "x AND 15 = take_bit 4 x" "x AND 31 = take_bit 5 x" "x AND 63 = take_bit 6 x"
    "x AND 127 = take_bit 7 x" "x AND 255 = take_bit 8 x" "x AND 65535 = take_bit 16 x"
  by (simp_all add: take_bit_eq_mask mask_eq_exp_minus_1)

lemma ucast_up_down [simp]:
  "ucast (ucast (b :: u8) :: u16) = b" "ucast (ucast (b :: u8) :: u32) = b"
  "ucast (ucast (h :: u16) :: u32) = h" "ucast (ucast (d :: u32) :: u64) = d"
  by (rule bit_word_eqI, simp add: bit_simps)+

lemma u8_high: "8 \<le> n \<Longrightarrow> \<not> bit (b :: u8) n"
  using bit_imp_le_length [of b n] by auto

lemma ucast_down_up_8: "ucast (ucast (x :: u32) :: u8) = take_bit 8 x"
  by (rule bit_word_eqI) (auto simp: bit_simps)

lemma ucast_down_up_16: "ucast (ucast (x :: u32) :: u16) = take_bit 16 x"
  by (rule bit_word_eqI) (auto simp: bit_simps)

lemma unat_pow2: "k < 32 \<Longrightarrow> unat (2 ^ k :: u32) = 2 ^ k"
  using power_strict_increasing [of k 32 "2 :: int"]
  by transfer (simp add: take_bit_eq_mod nat_power_eq)

section \<open>Little-endian byte memory\<close>

type_synonym mem = "u32 \<Rightarrow> u8"

definition rd8 :: "mem \<Rightarrow> u32 \<Rightarrow> u32" where
  "rd8 m a = ucast (m a)"

definition rd16 :: "mem \<Rightarrow> u32 \<Rightarrow> u32" where
  "rd16 m a = ucast (m a) OR push_bit 8 (ucast (m (a + 1)))"

definition rd32 :: "mem \<Rightarrow> u32 \<Rightarrow> u32" where
  "rd32 m a = ucast (m a) OR push_bit 8 (ucast (m (a + 1)))
     OR push_bit 16 (ucast (m (a + 2))) OR push_bit 24 (ucast (m (a + 3)))"

definition wr8 :: "u32 \<Rightarrow> u32 \<Rightarrow> mem \<Rightarrow> mem" where
  "wr8 a v m = m(a := ucast v)"

definition wr16 :: "u32 \<Rightarrow> u32 \<Rightarrow> mem \<Rightarrow> mem" where
  "wr16 a v m = m(a := ucast v, a + 1 := ucast (drop_bit 8 v))"

definition wr32 :: "u32 \<Rightarrow> u32 \<Rightarrow> mem \<Rightarrow> mem" where
  "wr32 a v m = m(a := ucast v, a + 1 := ucast (drop_bit 8 v),
     a + 2 := ucast (drop_bit 16 v), a + 3 := ucast (drop_bit 24 v))"

lemma addr_offsets_distinct [simp]:
  fixes a :: u32
  shows "a + 1 \<noteq> a" "a + 2 \<noteq> a" "a + 3 \<noteq> a" "a + 1 \<noteq> a + 2" "a + 1 \<noteq> a + 3" "a + 2 \<noteq> a + 3"
    "a \<noteq> a + 1" "a \<noteq> a + 2" "a \<noteq> a + 3" "a + 2 \<noteq> a + 1" "a + 3 \<noteq> a + 1" "a + 3 \<noteq> a + 2"
  by simp_all

lemma rd8_wr8 [simp, mem_simps]: "rd8 (wr8 a v m) a = take_bit 8 v"
  by (rule bit_word_eqI) (auto simp: rd8_def wr8_def bit_simps)

lemma rd16_wr16 [simp, mem_simps]: "rd16 (wr16 a v m) a = take_bit 16 v"
  by (rule bit_word_eqI) (auto simp: rd16_def wr16_def bit_simps)

lemma rd32_wr32 [simp, mem_simps]: "rd32 (wr32 a v m) a = v"
proof (rule bit_word_eqI)
  fix n :: nat
  assume n: "n < LENGTH(32)"
  consider "n < 8" | "8 \<le> n \<and> n < 16" | "16 \<le> n \<and> n < 24" | "24 \<le> n"
    by linarith
  then show "bit (rd32 (wr32 a v m) a) n = bit v n"
    by cases (use n in \<open>auto simp: rd32_def wr32_def bit_simps\<close>)
qed

text \<open>A write of \<open>n\<close> bytes leaves every byte outside \<open>a, \<dots>, a + n - 1\<close> alone.\<close>

lemma wr8_other: "b - a \<ge> 1 \<Longrightarrow> wr8 a v m b = m b"
  by (auto simp: wr8_def)

lemma wr16_other: "b - a \<ge> 2 \<Longrightarrow> wr16 a v m b = m b"
  by (auto simp: wr16_def word_le_nat_alt)

lemma wr32_other: "b - a \<ge> 4 \<Longrightarrow> wr32 a v m b = m b"
  by (auto simp: wr32_def word_le_nat_alt)

section \<open>\<open>std::map\<close> with integer keys\<close>

text \<open>
  A \<open>std::map\<close> is iterated in ascending key order, so it is an association list sorted by key.
  \<open>omap_insert\<close> is \<open>m[k] = v\<close>; \<open>map_of\<close> is \<open>find\<close>.
\<close>

fun omap_insert :: "'k::linorder \<Rightarrow> 'v \<Rightarrow> ('k \<times> 'v) list \<Rightarrow> ('k \<times> 'v) list" where
  "omap_insert k v [] = [(k, v)]"
| "omap_insert k v ((k', v') # m) =
     (if k < k' then (k, v) # (k', v') # m
      else if k = k' then (k, v) # m
      else (k', v') # omap_insert k v m)"

definition omap_ok :: "('k::linorder \<times> 'v) list \<Rightarrow> bool" where
  "omap_ok m \<longleftrightarrow> sorted_wrt (<) (map fst m)"

lemma map_of_omap_insert [simp]: "map_of (omap_insert k v m) = (map_of m)(k \<mapsto> v)"
  by (induction k v m rule: omap_insert.induct) auto

lemma set_omap_insert: "set (map fst (omap_insert k v m)) = insert k (set (map fst m))"
  by (induction k v m rule: omap_insert.induct) auto

lemma omap_ok_Nil [simp]: "omap_ok []"
  by (simp add: omap_ok_def)

lemma omap_ok_insert [intro]: "omap_ok m \<Longrightarrow> omap_ok (omap_insert k v m)"
proof (induction k v m rule: omap_insert.induct)
  case (2 k v k' v' m)
  have "\<forall>x\<in>set (map fst (omap_insert k v m)). k' < x" if "k' < k"
    using 2(2) that unfolding set_omap_insert by (auto simp: omap_ok_def)
  with 2 show ?case by (auto simp: omap_ok_def)
qed (simp add: omap_ok_def)

lemma omap_ok_distinct: "omap_ok m \<Longrightarrow> distinct (map fst m)"
  by (auto simp: omap_ok_def strict_sorted_iff)

lemma omap_ok_Cons:
  "omap_ok ((k, v) # m) \<longleftrightarrow> omap_ok m \<and> (\<forall>k' v'. map_of m k' = Some v' \<longrightarrow> k < k')"
proof -
  have "set (map fst m) = dom (map_of m)" by (simp add: dom_map_of_conv_image_fst)
  then have "(\<forall>x\<in>set (map fst m). k < x) \<longleftrightarrow> (\<forall>k' v'. map_of m k' = Some v' \<longrightarrow> k < k')"
    by (auto simp: dom_def)
  then show ?thesis by (auto simp: omap_ok_def)
qed

text \<open>
  A loop \<open>for (it = m.begin(); ...) if (P(it->second)) { ...; return; }\<close> stops at the least key
  whose value satisfies \<open>P\<close>.
\<close>

lemma omap_find_Some:
  assumes "omap_ok m" and "List.find P (map snd m) = Some v"
  shows "\<exists>k. map_of m k = Some v \<and> P v \<and> (\<forall>k' v'. map_of m k' = Some v' \<longrightarrow> P v' \<longrightarrow> k \<le> k')"
  using assms
proof (induction m)
  case (Cons kv m)
  obtain k w where kv: "kv = (k, w)" by (cases kv)
  show ?case
  proof (cases "P w")
    case True
    with Cons.prems kv show ?thesis by (auto simp: omap_ok_Cons less_imp_le)
  next
    case False
    with Cons kv obtain k' where "map_of m k' = Some v" "P v"
      "\<forall>j v'. map_of m j = Some v' \<longrightarrow> P v' \<longrightarrow> k' \<le> j"
      by (auto simp: omap_ok_Cons)
    moreover from this Cons.prems kv have "k < k'" by (auto simp: omap_ok_Cons)
    ultimately show ?thesis using kv False by (intro exI [of _ k']) auto
  qed
qed simp

lemma omap_find_None:
  assumes "omap_ok m"
  shows "List.find P (map snd m) = None \<longleftrightarrow> (\<forall>k v. map_of m k = Some v \<longrightarrow> \<not> P v)"
proof -
  have "set (map snd m) = {v. \<exists>k. map_of m k = Some v}"
    using omap_ok_distinct [OF assms] by (force simp: map_of_eq_Some_iff)
  then show ?thesis by (auto simp: find_None_iff)
qed

end
