(* ===== verification/Pci_Device.thy ===== *)
theory Pci_Device
  imports Cxbx_Prelude
begin

text \<open>
  The part of a PCI device that every device inherits: \<open>class PCIDevice\<close> of
  \<open>src/devices/PCIDevice.{h,cpp}\<close>. A device keeps a map of base address registers (BARs);
  the bus asks it which BAR decodes a port (\<open>GetIOBar\<close>) or an address (\<open>GetMMIOBar\<close>) and
  reads and writes its configuration registers.

  The bit-fields of \<open>PCIBarRegister\<close> are projections of the 32-bit register value. The back
  pointer \<open>pDevice\<close> of a BAR is never read and is left out.
\<close>

section \<open>BAR registers\<close>

abbreviation (input) PCI_BAR_TYPE_IO :: u32 where "PCI_BAR_TYPE_IO \<equiv> 1"
abbreviation (input) PCI_BAR_TYPE_MEMORY :: u32 where "PCI_BAR_TYPE_MEMORY \<equiv> 0"
abbreviation (input) PCI_CONFIG_DEVICE :: u32 where "PCI_CONFIG_DEVICE \<equiv> 0x00"
abbreviation (input) PCI_CONFIG_BAR_0 :: u32 where "PCI_CONFIG_BAR_0 \<equiv> 0x10"
abbreviation (input) PCI_VENDOR_ID_NVIDIA :: u16 where "PCI_VENDOR_ID_NVIDIA \<equiv> 0x10DE"

text \<open>The union members \<open>Raw.type\<close>, \<open>IO.address\<close> (30 bits) and \<open>Memory.address\<close> (28 bits).\<close>

definition Raw_type :: "u32 \<Rightarrow> u32" where
  "Raw_type v = v AND 1"

definition IO_address :: "u32 \<Rightarrow> u32" where
  "IO_address v = drop_bit 2 v"

definition Memory_address :: "u32 \<Rightarrow> u32" where
  "Memory_address v = drop_bit 4 v"

text \<open>Assignments to the members leave the other bits of the union alone.\<close>

definition set_Raw_type :: "u32 \<Rightarrow> u32 \<Rightarrow> u32" where
  "set_Raw_type t v = (v AND NOT 1) OR (t AND 1)"

definition set_IO_address :: "u32 \<Rightarrow> u32 \<Rightarrow> u32" where
  "set_IO_address a v = (v AND 3) OR push_bit 2 a"

definition set_Memory_address :: "u32 \<Rightarrow> u32 \<Rightarrow> u32" where
  "set_Memory_address a v = (v AND 15) OR push_bit 4 a"

record pci_bar =
  bar_size :: u32
  bar_reg :: u32
  bar_index :: int

record pci_dev =
  m_BAR :: "(int \<times> pci_bar) list"
  m_DeviceId :: u16
  m_VendorId :: u16

section \<open>Operations\<close>

definition io_match :: "u32 \<Rightarrow> pci_bar \<Rightarrow> bool" where
  "io_match port b \<longleftrightarrow> Raw_type (bar_reg b) = PCI_BAR_TYPE_IO \<and> port \<ge> IO_address (bar_reg b)
     \<and> port < IO_address (bar_reg b) + bar_size b"

definition mmio_match :: "u32 \<Rightarrow> pci_bar \<Rightarrow> bool" where
  "mmio_match addr b \<longleftrightarrow> Raw_type (bar_reg b) = PCI_BAR_TYPE_MEMORY
     \<and> addr \<ge> push_bit 4 (Memory_address (bar_reg b))
     \<and> addr < push_bit 4 (Memory_address (bar_reg b)) + bar_size b"

definition GetIOBar :: "u32 \<Rightarrow> pci_dev \<Rightarrow> pci_bar option" where
  "GetIOBar port d = List.find (io_match port) (map snd (m_BAR d))"

definition GetMMIOBar :: "u32 \<Rightarrow> pci_dev \<Rightarrow> pci_bar option" where
  "GetMMIOBar addr d = List.find (mmio_match addr) (map snd (m_BAR d))"

definition RegisterBAR :: "int \<Rightarrow> u32 \<Rightarrow> u32 \<Rightarrow> pci_dev \<Rightarrow> bool \<times> pci_dev" where
  "RegisterBAR index bsize defaultValue d =
     (if map_of (m_BAR d) index \<noteq> None then (False, d)
      else (True, d\<lparr>m_BAR := omap_insert index
               \<lparr>bar_size = bsize, bar_reg = defaultValue, bar_index = index\<rparr> (m_BAR d)\<rparr>))"

definition UpdateBAR :: "int \<Rightarrow> u32 \<Rightarrow> pci_dev \<Rightarrow> bool \<times> pci_dev" where
  "UpdateBAR index newValue d =
     (case map_of (m_BAR d) index of
        None \<Rightarrow> (False, d)
      | Some b \<Rightarrow> (True, d\<lparr>m_BAR := omap_insert index (b\<lparr>bar_reg := newValue\<rparr>) (m_BAR d)\<rparr>))"

text \<open>The six BAR offsets of the two \<open>switch\<close> statements.\<close>

definition is_bar_reg :: "u32 \<Rightarrow> bool" where
  "is_bar_reg reg \<longleftrightarrow> reg \<in> {0x10, 0x14, 0x18, 0x1C, 0x20, 0x24}"

definition bar_of_reg :: "u32 \<Rightarrow> int" where
  "bar_of_reg reg = uint ((reg - PCI_CONFIG_BAR_0) div 4)"

definition ReadConfigRegister :: "u32 \<Rightarrow> pci_dev \<Rightarrow> u32" where
  "ReadConfigRegister reg d =
     (if reg = PCI_CONFIG_DEVICE then push_bit 16 (ucast (m_DeviceId d)) OR ucast (m_VendorId d)
      else if is_bar_reg reg then
        (case map_of (m_BAR d) (bar_of_reg reg) of
           None \<Rightarrow> 0xFFFFFFFF
         | Some b \<Rightarrow> bar_reg b)
      else 0)"

definition WriteConfigRegister :: "u32 \<Rightarrow> u32 \<Rightarrow> pci_dev \<Rightarrow> pci_dev" where
  "WriteConfigRegister reg v d =
     (if is_bar_reg reg then snd (UpdateBAR (bar_of_reg reg) v d) else d)"

section \<open>Well-formedness\<close>

text \<open>
  The BAR map is sorted by index without duplicates, and every BAR is stored under the index it
  carries. All operations keep this.
\<close>

definition bars_ok :: "pci_dev \<Rightarrow> bool" where
  "bars_ok d \<longleftrightarrow> omap_ok (m_BAR d) \<and> (\<forall>i b. map_of (m_BAR d) i = Some b \<longrightarrow> bar_index b = i)"

lemma bars_ok_RegisterBAR: "bars_ok d \<Longrightarrow> bars_ok (snd (RegisterBAR i n v d))"
  by (auto simp: bars_ok_def RegisterBAR_def)

lemma bars_ok_UpdateBAR: "bars_ok d \<Longrightarrow> bars_ok (snd (UpdateBAR i v d))"
  by (auto simp: bars_ok_def UpdateBAR_def split: option.splits)

lemma bars_ok_WriteConfig: "bars_ok d \<Longrightarrow> bars_ok (WriteConfigRegister reg v d)"
  by (auto simp: WriteConfigRegister_def bars_ok_UpdateBAR)

lemma RegisterBAR_taken: "map_of (m_BAR d) i = Some b \<Longrightarrow> RegisterBAR i n v d = (False, d)"
  by (simp add: RegisterBAR_def)

lemma IO_address_set [simp]: "IO_address (set_IO_address a v) = take_bit 30 a"
  by (rule bit_word_eqI) (auto simp: IO_address_def set_IO_address_def bit_simps)

lemma Memory_address_set [simp]: "Memory_address (set_Memory_address a v) = take_bit 28 a"
  by (rule bit_word_eqI) (auto simp: Memory_address_def set_Memory_address_def bit_simps)

section \<open>Decoding and configuration space\<close>

lemma GetIOBar_SomeD:
  assumes "bars_ok d" and "GetIOBar port d = Some b"
  shows "map_of (m_BAR d) (bar_index b) = Some b" and "io_match port b"
    and "map_of (m_BAR d) i = Some b' \<Longrightarrow> io_match port b' \<Longrightarrow> bar_index b \<le> i"
  using assms omap_find_Some [of "m_BAR d" "io_match port" b]
  by (auto simp: bars_ok_def GetIOBar_def)

lemma GetIOBar_None_iff:
  "bars_ok d \<Longrightarrow> GetIOBar port d = None \<longleftrightarrow> (\<forall>i b. map_of (m_BAR d) i = Some b \<longrightarrow> \<not> io_match port b)"
  by (simp add: bars_ok_def GetIOBar_def omap_find_None)

lemma GetMMIOBar_SomeD:
  assumes "bars_ok d" and "GetMMIOBar addr d = Some b"
  shows "map_of (m_BAR d) (bar_index b) = Some b" and "mmio_match addr b"
    and "map_of (m_BAR d) i = Some b' \<Longrightarrow> mmio_match addr b' \<Longrightarrow> bar_index b \<le> i"
  using assms omap_find_Some [of "m_BAR d" "mmio_match addr" b]
  by (auto simp: bars_ok_def GetMMIOBar_def)

lemma GetMMIOBar_None_iff:
  "bars_ok d \<Longrightarrow> GetMMIOBar addr d = None \<longleftrightarrow> (\<forall>i b. map_of (m_BAR d) i = Some b \<longrightarrow> \<not> mmio_match addr b)"
  by (simp add: bars_ok_def GetMMIOBar_def omap_find_None)

text \<open>Two different BAR offsets name two different BARs.\<close>

lemma bar_of_reg_inj: "is_bar_reg r \<Longrightarrow> is_bar_reg s \<Longrightarrow> bar_of_reg r = bar_of_reg s \<Longrightarrow> r = s"
  by (auto simp: is_bar_reg_def bar_of_reg_def)

lemma config_write_read:
  assumes "is_bar_reg reg" and "map_of (m_BAR d) (bar_of_reg reg) \<noteq> None"
  shows "ReadConfigRegister reg (WriteConfigRegister reg v d) = v"
  using assms
  by (auto simp: ReadConfigRegister_def WriteConfigRegister_def UpdateBAR_def is_bar_reg_def)

lemma config_write_read_other:
  assumes "reg' \<noteq> reg"
  shows "ReadConfigRegister reg' (WriteConfigRegister reg v d) = ReadConfigRegister reg' d"
  using assms bar_of_reg_inj [of reg' reg]
  by (auto simp: ReadConfigRegister_def WriteConfigRegister_def UpdateBAR_def split: option.splits)

text \<open>Once a device has the BAR that a configuration register names, writing that register
  and reading it back gives the written value, every other configuration register keeps its
  value, and the BAR map stays well-formed.\<close>

theorem pci_config_roundtrip:
  assumes "bars_ok d" and "is_bar_reg reg" and "map_of (m_BAR d) (bar_of_reg reg) \<noteq> None"
  shows "ReadConfigRegister reg (WriteConfigRegister reg v d) = v
    \<and> (\<forall>reg'. reg' \<noteq> reg \<longrightarrow>
         ReadConfigRegister reg' (WriteConfigRegister reg v d) = ReadConfigRegister reg' d)
    \<and> bars_ok (WriteConfigRegister reg v d)"
  using assms by (simp add: config_write_read config_write_read_other bars_ok_WriteConfig)

definition sample_dev :: pci_dev where
  "sample_dev = snd (RegisterBAR 1 32 0x30001 \<lparr>m_BAR = [], m_DeviceId = 0x01B4, m_VendorId = 0x10DE\<rparr>)"

lemma sample_dev_bars [simp]: "m_BAR sample_dev = [(1, \<lparr>bar_size = 32, bar_reg = 0x30001, bar_index = 1\<rparr>)]"
  by (simp add: sample_dev_def RegisterBAR_def)

lemma sample_dev_ok: "bars_ok sample_dev"
  by (simp add: bars_ok_def omap_ok_def)

theorem pci_config_roundtrip_witness:
  "ReadConfigRegister 0x14 (WriteConfigRegister 0x14 0xC001 sample_dev) = 0xC001"
proof -
  have "is_bar_reg 0x14" "map_of (m_BAR sample_dev) (bar_of_reg 0x14) \<noteq> None"
    by (simp_all add: is_bar_reg_def bar_of_reg_def)
  then show ?thesis using pci_config_roundtrip [OF sample_dev_ok] by blast
qed

text \<open>The decoder picks, of all I/O BARs whose window holds the port, the one with the least
  index; it reports a miss exactly when no window holds the port.\<close>

theorem pci_io_decode:
  assumes "bars_ok d"
  shows "(case GetIOBar port d of
       Some b \<Rightarrow> map_of (m_BAR d) (bar_index b) = Some b \<and> io_match port b
         \<and> (\<forall>i b'. map_of (m_BAR d) i = Some b' \<longrightarrow> io_match port b' \<longrightarrow> bar_index b \<le> i)
     | None \<Rightarrow> \<forall>i b. map_of (m_BAR d) i = Some b \<longrightarrow> \<not> io_match port b)"
  using GetIOBar_SomeD [OF assms] GetIOBar_None_iff [OF assms] by (auto split: option.split)

theorem pci_io_decode_witness:
  "GetIOBar 0xC010 sample_dev = Some \<lparr>bar_size = 32, bar_reg = 0x30001, bar_index = 1\<rparr>"
proof -
  have "io_match 0xC010 \<lparr>bar_size = 32, bar_reg = 0x30001, bar_index = 1\<rparr>"
    by (simp add: io_match_def Raw_type_def IO_address_def)
  then show ?thesis using pci_io_decode [OF sample_dev_ok, of "0xC010"]
    by (auto split: option.splits if_splits)
qed

text \<open>A guest that follows the PCI encoding writes \<open>p OR 1\<close> to move an I/O BAR to port \<open>p\<close>
  (a multiple of 4). The field \<open>IO.address\<close> is compared with ports without being scaled back, so
  the device then answers at \<open>p div 4\<close>, not at \<open>p\<close>.\<close>

theorem pci_guest_io_bar_scaled:
  assumes "map_of (m_BAR d) i = Some b" and "p AND 3 = 0"
  shows "\<exists>b'. map_of (m_BAR (snd (UpdateBAR i (p OR 1) d))) i = Some b' \<and> Raw_type (bar_reg b') = PCI_BAR_TYPE_IO
     \<and> IO_address (bar_reg b') = p div 4"
proof -
  have "drop_bit 2 (p OR 1) = drop_bit 2 p"
    by (rule bit_word_eqI) (auto simp: bit_simps bit_1_iff)
  moreover have "drop_bit 2 p = p div 4" by (simp add: drop_bit_eq_div)
  moreover have "(p OR 1) AND 1 = 1" by (rule bit_word_eqI) (auto simp: bit_simps)
  ultimately show ?thesis using assms
    by (auto simp: UpdateBAR_def IO_address_def Raw_type_def)
qed

theorem pci_guest_io_bar_scaled_witness:
  "\<exists>b'. map_of (m_BAR (snd (UpdateBAR 1 (0xC000 OR 1) sample_dev))) 1 = Some b'
     \<and> IO_address (bar_reg b') = 0x3000"
proof -
  have "map_of (m_BAR sample_dev) 1 = Some \<lparr>bar_size = 32, bar_reg = 0x30001, bar_index = 1\<rparr>"
    and "(0xC000 :: u32) AND 3 = 0" by simp_all
  from pci_guest_io_bar_scaled [OF this] show ?thesis by auto
qed

end
