(* ===== verification/Pci_Bus.thy ===== *)
theory Pci_Bus
  imports Pci_Device
begin

text \<open>
  \<open>class PCIBus\<close> of \<open>src/devices/PCIBus.{h,cpp}\<close>: the map from device identifiers to device
  objects, the configuration address latch, and the routing of port and memory accesses to the
  first device with a matching BAR.

  Device objects are reached through pointers \<open>'p\<close>; their states live in a world \<open>'w\<close>. The
  virtual functions of \<open>PCIDevice\<close> are a record of functions, the vtable, so that the bus is
  modelled once for every set of devices. The locale \<open>pci_devices\<close> states what the bus relies
  on: a pointer denotes one object, and device code never touches BARs behind the bus's back.
\<close>

section \<open>Virtual functions of a device\<close>

record ('p, 'w) pci_vtbl =
  dev_of :: "'p \<Rightarrow> 'w \<Rightarrow> pci_dev"
  set_dev :: "'p \<Rightarrow> pci_dev \<Rightarrow> 'w \<Rightarrow> 'w"
  vInit :: "'p \<Rightarrow> (unit, 'w) run"
  vReset :: "'p \<Rightarrow> (unit, 'w) run"
  vIORead :: "'p \<Rightarrow> int \<Rightarrow> u32 \<Rightarrow> nat \<Rightarrow> (u32, 'w) run"
  vIOWrite :: "'p \<Rightarrow> int \<Rightarrow> u32 \<Rightarrow> u32 \<Rightarrow> nat \<Rightarrow> (unit, 'w) run"
  vMMIORead :: "'p \<Rightarrow> int \<Rightarrow> u32 \<Rightarrow> nat \<Rightarrow> (u32, 'w) run"
  vMMIOWrite :: "'p \<Rightarrow> int \<Rightarrow> u32 \<Rightarrow> u32 \<Rightarrow> nat \<Rightarrow> (unit, 'w) run"

record ('p, 'w) pci_bus =
  bus_Devices :: "(u32 \<times> 'p) list"
  m_configAddressRegister :: u32
  pci_world :: 'w

abbreviation (input) PORT_PCI_CONFIG_ADDRESS :: u32 where "PORT_PCI_CONFIG_ADDRESS \<equiv> 0xCF8"
abbreviation (input) PORT_PCI_CONFIG_DATA :: u32 where "PORT_PCI_CONFIG_DATA \<equiv> 0xCFC"
abbreviation (input) PCI_CONFIG_REGISTER_MASK :: u32 where "PCI_CONFIG_REGISTER_MASK \<equiv> 0xFC"

definition PCI_DEVFN :: "u32 \<Rightarrow> u32 \<Rightarrow> u32" where
  "PCI_DEVFN slot func = push_bit 3 (slot AND 0x1F) OR (func AND 0x07)"

definition PCI_DEVID :: "u32 \<Rightarrow> u32 \<Rightarrow> u32" where
  "PCI_DEVID bus devfn = push_bit 8 (take_bit 16 bus) OR devfn"

text \<open>The bit-fields of \<open>PCIConfigAddressRegister\<close>, low byte first.\<close>

definition registerNumber :: "u32 \<Rightarrow> u32" where "registerNumber c = take_bit 8 c"
definition functionNumber :: "u32 \<Rightarrow> u32" where "functionNumber c = take_bit 3 (drop_bit 8 c)"
definition deviceNumber :: "u32 \<Rightarrow> u32" where "deviceNumber c = take_bit 5 (drop_bit 11 c)"
definition busNumber :: "u32 \<Rightarrow> u32" where "busNumber c = take_bit 8 (drop_bit 16 c)"

text \<open>A device operation as a bus operation.\<close>

definition on_world :: "('a, 'w) run \<Rightarrow> ('a, ('p, 'w) pci_bus) run" where
  "on_world m s = (case m (pci_world s) of Inl e \<Rightarrow> Inl e | Inr (a, w) \<Rightarrow> Inr (a, s\<lparr>pci_world := w\<rparr>))"

lemma on_world_Inr_iff:
  "on_world m s = Inr (a, t) \<longleftrightarrow> (\<exists>w. m (pci_world s) = Inr (a, w) \<and> t = s\<lparr>pci_world := w\<rparr>)"
  by (auto simp: on_world_def split: sum.splits)

section \<open>Bus operations\<close>

definition bus_ConnectDevice ::
  "('p, 'w) pci_vtbl \<Rightarrow> u32 \<Rightarrow> 'p \<Rightarrow> (unit, ('p, 'w) pci_bus) run" where
  "bus_ConnectDevice vt deviceId pDevice s =
     (if map_of (bus_Devices s) deviceId \<noteq> None then Inr ((), s)
      else bnd (modify (\<lambda>s. s\<lparr>bus_Devices := omap_insert deviceId pDevice (bus_Devices s)\<rparr>))
             (\<lambda>_. on_world (vInit vt pDevice)) s)"

definition IOWriteConfigAddress :: "u32 \<Rightarrow> (unit, ('p, 'w) pci_bus) run" where
  "IOWriteConfigAddress pData = modify (\<lambda>s. s\<lparr>m_configAddressRegister := pData\<rparr>)"

definition config_target :: "('p, 'w) pci_bus \<Rightarrow> 'p option" where
  "config_target s = map_of (bus_Devices s)
     (PCI_DEVID (busNumber (m_configAddressRegister s)) (deviceNumber (m_configAddressRegister s)))"

definition config_reg :: "('p, 'w) pci_bus \<Rightarrow> u32" where
  "config_reg s = registerNumber (m_configAddressRegister s) AND PCI_CONFIG_REGISTER_MASK"

definition IOReadConfigData :: "('p, 'w) pci_vtbl \<Rightarrow> (u32, ('p, 'w) pci_bus) run" where
  "IOReadConfigData vt s =
     (case config_target s of
        Some p \<Rightarrow> Inr (ReadConfigRegister (config_reg s) (dev_of vt p (pci_world s)), s)
      | None \<Rightarrow> Inr (0xFFFFFFFF, s))"

definition IOWriteConfigData :: "('p, 'w) pci_vtbl \<Rightarrow> u32 \<Rightarrow> (unit, ('p, 'w) pci_bus) run" where
  "IOWriteConfigData vt pData s =
     (case config_target s of
        Some p \<Rightarrow> Inr ((), s\<lparr>pci_world := set_dev vt p
             (WriteConfigRegister (config_reg s) pData (dev_of vt p (pci_world s))) (pci_world s)\<rparr>)
      | None \<Rightarrow> Inr ((), s))"

text \<open>The search loops of the four routing functions: the first device in key order whose
  decoder finds a BAR.\<close>

fun route :: "('p, 'w) pci_vtbl \<Rightarrow> (pci_dev \<Rightarrow> pci_bar option) \<Rightarrow> 'w \<Rightarrow> (u32 \<times> 'p) list
     \<Rightarrow> ('p \<times> pci_bar) option" where
  "route vt dec w [] = None"
| "route vt dec w ((k, p) # ds) =
     (case dec (dev_of vt p w) of Some b \<Rightarrow> Some (p, b) | None \<Rightarrow> route vt dec w ds)"

definition io_route :: "('p, 'w) pci_vtbl \<Rightarrow> u32 \<Rightarrow> ('p, 'w) pci_bus \<Rightarrow> ('p \<times> pci_bar) option" where
  "io_route vt addr s = route vt (GetIOBar addr) (pci_world s) (bus_Devices s)"

definition mmio_route :: "('p, 'w) pci_vtbl \<Rightarrow> u32 \<Rightarrow> ('p, 'w) pci_bus \<Rightarrow> ('p \<times> pci_bar) option" where
  "mmio_route vt addr s = route vt (GetMMIOBar addr) (pci_world s) (bus_Devices s)"

text \<open>
  The functions return \<open>false\<close>, here \<open>None\<close>, when the access is not handled, else \<open>true\<close>
  with the data in \<open>*data\<close>, here \<open>Some data\<close>.
\<close>

definition bus_IORead :: "('p, 'w) pci_vtbl \<Rightarrow> u32 \<Rightarrow> nat \<Rightarrow> (u32 option, ('p, 'w) pci_bus) run" where
  "bus_IORead vt addr n s =
     (if addr = PORT_PCI_CONFIG_DATA then
        (if n = 4 then bnd (IOReadConfigData vt) (\<lambda>v. ret (Some v)) s else Inr (None, s))
      else (case io_route vt addr s of
         Some (p, b) \<Rightarrow> bnd (on_world (vIORead vt p (bar_index b) (addr - IO_address (bar_reg b)) n))
                          (\<lambda>v. ret (Some v)) s
       | None \<Rightarrow> Inr (None, s)))"

definition bus_IOWrite :: "('p, 'w) pci_vtbl \<Rightarrow> u32 \<Rightarrow> u32 \<Rightarrow> nat \<Rightarrow> (bool, ('p, 'w) pci_bus) run" where
  "bus_IOWrite vt addr v n s =
     (if addr = PORT_PCI_CONFIG_ADDRESS then
        (if n = 4 then bnd (IOWriteConfigAddress v) (\<lambda>_. ret True) s else Inr (False, s))
      else if addr = PORT_PCI_CONFIG_DATA then
        (if n = 4 then bnd (IOWriteConfigData vt v) (\<lambda>_. ret True) s else Inr (False, s))
      else (case io_route vt addr s of
         Some (p, b) \<Rightarrow> bnd (on_world (vIOWrite vt p (bar_index b) (addr - IO_address (bar_reg b)) v n))
                          (\<lambda>_. ret True) s
       | None \<Rightarrow> Inr (False, s)))"

definition bus_MMIORead :: "('p, 'w) pci_vtbl \<Rightarrow> u32 \<Rightarrow> nat \<Rightarrow> (u32 option, ('p, 'w) pci_bus) run" where
  "bus_MMIORead vt addr n s =
     (case mmio_route vt addr s of
         Some (p, b) \<Rightarrow> bnd (on_world (vMMIORead vt p (bar_index b)
                            (addr - push_bit 4 (Memory_address (bar_reg b))) n)) (\<lambda>v. ret (Some v)) s
       | None \<Rightarrow> Inr (None, s))"

definition bus_MMIOWrite :: "('p, 'w) pci_vtbl \<Rightarrow> u32 \<Rightarrow> u32 \<Rightarrow> nat \<Rightarrow> (bool, ('p, 'w) pci_bus) run" where
  "bus_MMIOWrite vt addr v n s =
     (case mmio_route vt addr s of
         Some (p, b) \<Rightarrow> bnd (on_world (vMMIOWrite vt p (bar_index b)
                            (addr - push_bit 4 (Memory_address (bar_reg b))) v n)) (\<lambda>_. ret True) s
       | None \<Rightarrow> Inr (False, s))"

fun reset_all :: "('p, 'w) pci_vtbl \<Rightarrow> (u32 \<times> 'p) list \<Rightarrow> (unit, 'w) run" where
  "reset_all vt [] = ret ()"
| "reset_all vt ((k, p) # ds) = bnd (vReset vt p) (\<lambda>_. reset_all vt ds)"

definition bus_Reset :: "('p, 'w) pci_vtbl \<Rightarrow> (unit, ('p, 'w) pci_bus) run" where
  "bus_Reset vt s = on_world (reset_all vt (bus_Devices s)) s"

section \<open>The contract with the devices\<close>

locale pci_devices =
  fixes vt :: "('p, 'w) pci_vtbl"
  assumes dev_set_same: "dev_of vt p (set_dev vt p d w) = d"
    and dev_set_other: "q \<noteq> p \<Longrightarrow> dev_of vt q (set_dev vt p d w) = dev_of vt q w"
    and reset_dev: "vReset vt p w = Inr (u, w') \<Longrightarrow> dev_of vt q w' = dev_of vt q w"
    and io_read_dev: "vIORead vt p i a n w = Inr (v, w') \<Longrightarrow> dev_of vt q w' = dev_of vt q w"
    and io_write_dev: "vIOWrite vt p i a x n w = Inr (u, w') \<Longrightarrow> dev_of vt q w' = dev_of vt q w"
    and mmio_read_dev: "vMMIORead vt p i a n w = Inr (v, w') \<Longrightarrow> dev_of vt q w' = dev_of vt q w"
    and mmio_write_dev: "vMMIOWrite vt p i a x n w = Inr (u, w') \<Longrightarrow> dev_of vt q w' = dev_of vt q w"
begin

definition same_routing :: "('p, 'w) pci_bus \<Rightarrow> ('p, 'w) pci_bus \<Rightarrow> bool" where
  "same_routing s t \<longleftrightarrow> bus_Devices t = bus_Devices s
     \<and> (\<forall>q. dev_of vt q (pci_world t) = dev_of vt q (pci_world s))"

lemma route_cong:
  "(\<And>q. dev_of vt q w' = dev_of vt q w) \<Longrightarrow> route vt dec w' ds = route vt dec w ds"
  by (induction ds) (auto split: option.splits)

lemma same_routing_io: "same_routing s t \<Longrightarrow> io_route vt a t = io_route vt a s"
  unfolding io_route_def same_routing_def by (metis route_cong)

lemma same_routing_mmio: "same_routing s t \<Longrightarrow> mmio_route vt a t = mmio_route vt a s"
  unfolding mmio_route_def same_routing_def by (metis route_cong)

lemma IORead_routing:
  assumes "bus_IORead vt a n s = Inr (r, t)"
  shows "same_routing s t"
  using assms
  by (auto simp: bus_IORead_def same_routing_def IOReadConfigData_def bnd_eq_Inr_iff on_world_Inr_iff
      io_read_dev split: if_splits option.splits)

lemma MMIORead_routing:
  assumes "bus_MMIORead vt a n s = Inr (r, t)"
  shows "same_routing s t"
  using assms
  by (auto simp: bus_MMIORead_def same_routing_def bnd_eq_Inr_iff on_world_Inr_iff
      mmio_read_dev split: if_splits option.splits)

lemma MMIOWrite_routing:
  assumes "bus_MMIOWrite vt a v n s = Inr (r, t)"
  shows "same_routing s t"
  using assms
  by (auto simp: bus_MMIOWrite_def same_routing_def bnd_eq_Inr_iff on_world_Inr_iff
      mmio_write_dev split: if_splits option.splits)

lemma IOWrite_routing:
  assumes "bus_IOWrite vt a v n s = Inr (r, t)" and "a \<noteq> 0xCFC"
  shows "same_routing s t"
  using assms
  by (auto simp: bus_IOWrite_def same_routing_def IOWriteConfigAddress_def bnd_eq_Inr_iff
      on_world_Inr_iff io_write_dev split: if_splits option.splits)

lemma reset_all_dev: "reset_all vt ds w = Inr (u, w') \<Longrightarrow> dev_of vt q w' = dev_of vt q w"
  by (induction ds arbitrary: w) (auto simp: bnd_eq_Inr_iff reset_dev)

lemma Reset_routing: "bus_Reset vt s = Inr (u, t) \<Longrightarrow> same_routing s t"
  by (auto simp: bus_Reset_def same_routing_def on_world_Inr_iff reset_all_dev)

lemma config_data_roundtrip:
  assumes "config_target s = Some p"
    and "is_bar_reg (config_reg s)"
    and "map_of (m_BAR (dev_of vt p (pci_world s))) (bar_of_reg (config_reg s)) \<noteq> None"
    and "IOWriteConfigData vt v s = Inr (u, t)"
  shows "IOReadConfigData vt t = Inr (v, t)"
  using assms
  by (auto simp: IOWriteConfigData_def IOReadConfigData_def config_target_def config_reg_def
      dev_set_same config_write_read)

lemma config_data_other:
  assumes "config_target s = Some p" and "q \<noteq> p" and "IOWriteConfigData vt v s = Inr (u, t)"
  shows "dev_of vt q (pci_world t) = dev_of vt q (pci_world s)"
  using assms by (auto simp: IOWriteConfigData_def dev_set_other)

end

section \<open>Routing facts that need no contract\<close>

lemma word_window:
  fixes a s x :: "'a::len word"
  assumes "a \<le> x" and "x < a + s"
  shows "x - a < s"
proof -
  have le: "unat a \<le> unat x" using assms(1) by (simp add: word_le_nat_alt)
  have "unat x < unat (a + s)" using assms(2) by (simp add: word_less_nat_alt)
  also have "unat (a + s) \<le> unat a + unat s" by (rule unat_plus_if' [THEN ord_eq_le_trans]) simp
  finally have "unat x - unat a < unat s" using le by linarith
  then show ?thesis using assms(1) by (simp add: word_less_nat_alt unat_sub)
qed

lemma route_Some:
  assumes "route vt dec w ds = Some (p, b)"
  shows "\<exists>k. (k, p) \<in> set ds \<and> dec (dev_of vt p w) = Some b"
  using assms by (induction ds) (auto split: option.splits)

lemma io_offset_in_bar:
  assumes "io_route vt a s = Some (p, b)"
  shows "a - IO_address (bar_reg b) < bar_size b"
proof -
  from assms obtain d where "GetIOBar a d = Some b"
    by (auto simp: io_route_def dest: route_Some)
  then have "io_match a b" by (auto simp: GetIOBar_def find_Some_iff)
  then show ?thesis by (auto simp: io_match_def intro: word_window)
qed

lemma mmio_offset_in_bar:
  assumes "mmio_route vt a s = Some (p, b)"
  shows "a - push_bit 4 (Memory_address (bar_reg b)) < bar_size b"
proof -
  from assms obtain d where "GetMMIOBar a d = Some b"
    by (auto simp: mmio_route_def dest: route_Some)
  then have "mmio_match a b" by (auto simp: GetMMIOBar_def find_Some_iff)
  then show ?thesis by (auto simp: mmio_match_def intro: word_window)
qed

text \<open>
  The key that a configuration access looks up has the bus number above and only the five slot
  bits below: the function number takes no part.
\<close>

lemma config_key_low:
  "take_bit 8 (PCI_DEVID (busNumber c) (deviceNumber c)) = deviceNumber c"
  "deviceNumber c < 32"
proof -
  show "take_bit 8 (PCI_DEVID (busNumber c) (deviceNumber c)) = deviceNumber c"
    by (rule bit_word_eqI) (auto simp: PCI_DEVID_def busNumber_def deviceNumber_def bit_simps)
  have "deviceNumber c \<le> mask 5"
    unfolding deviceNumber_def by (simp add: word_and_le1 take_bit_eq_mask)
  also have "mask 5 < (32 :: u32)" by (simp add: mask_eq_exp_minus_1)
  finally show "deviceNumber c < 32" .
qed

end
