(* ===== verification/Sm_Devices.thy ===== *)
theory Sm_Devices
  imports Cxbx_Prelude
begin

text \<open>
  The devices on the system management bus: the PIC microcontroller (\<open>SMCDevice.cpp\<close>), the
  configuration EEPROM (\<open>EEPROMDevice.cpp\<close>) and the temperature monitor (\<open>ADM1032Device.cpp\<close>),
  all under \<open>src/devices/\<close>, with the LED sequence encoder of \<open>SetLEDSequence\<close>.

  The three objects are the fields of \<open>sm_world\<close>: the globals \<open>g_SMC\<close>, \<open>g_EEPROM\<close> and
  \<open>g_ADM1032\<close>. The virtual functions of \<open>SMDevice\<close> dispatch on a pointer \<open>sm_ptr\<close>. The GUI and
  the shared boot flags are outputs: a log of LED updates and one integer.
\<close>

section \<open>State\<close>

datatype SCMRevision = P01 | P05 | P11 | P2L | D01 | D05 | B11

datatype sm_ptr = P_SMC | P_EEPROM | P_ADM1032

record smc_device =
  m_revision :: SCMRevision
  m_PICVersionStringIndex :: nat
  smc_buffer :: "u8 \<Rightarrow> u8"

record adm_device =
  m_CPUTemperature :: u8
  m_MBTemperature :: u8

record sm_world =
  g_SMC :: smc_device
  m_pEEPROM :: "u8 list"
  g_ADM1032 :: adm_device
  gui_leds :: "u8 list list"
  boot_flags :: u32

text \<open>\<open>LED::GREEN\<close>: the green bit of all four phases; \<open>BOOT_FATAL_ERROR\<close> of \<open>EmuShared.h\<close>.\<close>

abbreviation (input) LED_GREEN :: u8 where "LED_GREEN \<equiv> 0x0F"
abbreviation (input) BOOT_FATAL_ERROR :: u32 where "BOOT_FATAL_ERROR \<equiv> 2"

section \<open>LED sequences\<close>

text \<open>Phase \<open>i\<close> of the block sent to the GUI: bit 1 is red, bit 0 is green.\<close>

definition led_block :: "u8 \<Rightarrow> u8 list" where
  "led_block s =
     [(drop_bit 6 s AND 2) OR (drop_bit 3 s AND 1),
      (drop_bit 5 s AND 2) OR (drop_bit 2 s AND 1),
      (drop_bit 4 s AND 2) OR (drop_bit 1 s AND 1),
      (drop_bit 3 s AND 2) OR (drop_bit 0 s AND 1)]"

definition SetLEDSequence :: "u8 \<Rightarrow> (unit, sm_world) run" where
  "SetLEDSequence s = modify (\<lambda>w. w\<lparr>gui_leds := led_block s # gui_leds w\<rparr>)"

section \<open>ADM1032\<close>

definition ADM_Init :: "(unit, sm_world) run" where
  "ADM_Init = modify (\<lambda>w. w\<lparr>g_ADM1032 := \<lparr>m_CPUTemperature = 45, m_MBTemperature = 40\<rparr>\<rparr>)"

definition ADM_ReadByte :: "u8 \<Rightarrow> (u8, sm_world) run" where
  "ADM_ReadByte command = get (\<lambda>w.
     if command = 0 then m_MBTemperature (g_ADM1032 w)
     else if command = 1 then m_CPUTemperature (g_ADM1032 w)
     else 0)"

section \<open>SMC\<close>

definition new_SMCDevice :: "SCMRevision \<Rightarrow> u8 \<Rightarrow> smc_device" where
  "new_SMCDevice revision av_pack =
     \<lparr>m_revision = revision, m_PICVersionStringIndex = 0, smc_buffer = (\<lambda>_. 0)(0x04 := av_pack)\<rparr>"

definition SMC_set :: "u8 \<Rightarrow> u8 \<Rightarrow> sm_world \<Rightarrow> sm_world" where
  "SMC_set i v w = w\<lparr>g_SMC := (g_SMC w)\<lparr>smc_buffer := (smc_buffer (g_SMC w))(i := v)\<rparr>\<rparr>"

definition SMC_set_index :: "nat \<Rightarrow> sm_world \<Rightarrow> sm_world" where
  "SMC_set_index i w = w\<lparr>g_SMC := (g_SMC w)\<lparr>m_PICVersionStringIndex := i\<rparr>\<rparr>"

definition SMC_Init :: "(unit, sm_world) run" where
  "SMC_Init = modify (\<lambda>w. SMC_set 0x1B 0 (SMC_set 0x08 LED_GREEN (SMC_set_index 0 w)))"

text \<open>The version string of each revision, as character codes.\<close>

fun pic_version :: "SCMRevision \<Rightarrow> u8 list" where
  "pic_version P01 = [0x50, 0x30, 0x31]"
| "pic_version P05 = [0x50, 0x30, 0x35]"
| "pic_version P11 = [0x50, 0x31, 0x31]"
| "pic_version P2L = [0x50, 0x32, 0x4C]"
| "pic_version D01 = [0x44, 0x58, 0x42]"
| "pic_version D05 = [0x44, 0x30, 0x35]"
| "pic_version B11 = [0x42, 0x31, 0x31]"

definition SMC_ReadByte :: "u8 \<Rightarrow> (u8, sm_world) run" where
  "SMC_ReadByte command =
     (if command = 0x01 then
        bnd (modify (\<lambda>w. SMC_set 1 (pic_version (m_revision (g_SMC w)) ! m_PICVersionStringIndex (g_SMC w)) w)) (\<lambda>_.
        bnd (modify (\<lambda>w. SMC_set_index ((m_PICVersionStringIndex (g_SMC w) + 1) mod 3) w)) (\<lambda>_.
        get (\<lambda>w. smc_buffer (g_SMC w) command)))
      else if command = 0x09 then ADM_ReadByte 0x1
      else if command = 0x0A then ADM_ReadByte 0x0
      else if command = 0x0F then get (\<lambda>w. smc_buffer (g_SMC w) 0x0E)
      else if command \<in> {0x1C, 0x1D, 0x1E, 0x1F} then
        get (\<lambda>w. if m_revision (g_SMC w) = D01 then 0 else smc_buffer (g_SMC w) command)
      else get (\<lambda>w. smc_buffer (g_SMC w) command))"

text \<open>The case \<open>SMC_COMMAND_LED_MODE\<close>, which every path of it leaves with \<open>return\<close>.\<close>

definition SMC_led_mode :: "u8 \<Rightarrow> (unit, sm_world) run" where
  "SMC_led_mode v =
     (if v = 0 then SetLEDSequence LED_GREEN
      else if v = 1 then bnd (get (\<lambda>w. smc_buffer (g_SMC w) 0x08)) SetLEDSequence
      else ret ())"

text \<open>
  The case \<open>SMC_COMMAND_RESET\<close> has no \<open>break\<close> after its inner \<open>switch\<close>: a value that the inner
  \<open>switch\<close> does not name falls into the case \<open>SMC_COMMAND_LED_MODE\<close>.
\<close>

definition SMC_WriteByte :: "u8 \<Rightarrow> u8 \<Rightarrow> (unit, sm_world) run" where
  "SMC_WriteByte command v =
     (if command = 0x01 then
        (if v = 0 then modify (SMC_set_index 0) else ret ())
      else if command = 0x02 then
        (if v = 0x01 then ret ()
         else if v = 0x40 then ret ()
         else if v = 0x80 then fail ShutDown
         else SMC_led_mode v)
      else if command = 0x07 then SMC_led_mode v
      else if command = 0x08 then modify (SMC_set command v)
      else if command = 0x1B then
        (if v = 0x01 then ret ()
         else if v = 0x02 then
           bnd (modify (\<lambda>w. w\<lparr>boot_flags := boot_flags w OR BOOT_FATAL_ERROR\<rparr>)) (\<lambda>_.
           modify (SMC_set command v))
         else if v = 0x04 then ret ()
         else if v = 0x08 then ret ()
         else modify (SMC_set command v))
      else modify (SMC_set command v))"

section \<open>EEPROM\<close>

text \<open>Byte and little-endian 16-bit accesses through \<open>m_pEEPROM\<close>; leaving the buffer is a fault.\<close>

definition EEPROM_ReadByte :: "u8 \<Rightarrow> (u8, sm_world) run" where
  "EEPROM_ReadByte command w =
     (if unat command < length (m_pEEPROM w) then Inr (m_pEEPROM w ! unat command, w) else Inl OutOfBounds)"

definition EEPROM_ReadWord :: "u8 \<Rightarrow> (u16, sm_world) run" where
  "EEPROM_ReadWord command w =
     (if unat command + 1 < length (m_pEEPROM w)
      then Inr (ucast (m_pEEPROM w ! unat command) OR push_bit 8 (ucast (m_pEEPROM w ! (unat command + 1))), w)
      else Inl OutOfBounds)"

definition EEPROM_WriteWord :: "u8 \<Rightarrow> u16 \<Rightarrow> (unit, sm_world) run" where
  "EEPROM_WriteWord command v w =
     (if unat command + 1 < length (m_pEEPROM w)
      then Inr ((), w\<lparr>m_pEEPROM := (m_pEEPROM w)[unat command := ucast v, unat command + 1 := ucast (drop_bit 8 v)]\<rparr>)
      else Inl OutOfBounds)"

text \<open>\<open>WriteByte\<close> stores through a \<open>uint16_t*\<close>: the byte is zero-extended to two bytes.\<close>

definition EEPROM_WriteByte :: "u8 \<Rightarrow> u8 \<Rightarrow> (unit, sm_world) run" where
  "EEPROM_WriteByte command v = EEPROM_WriteWord command (ucast v)"

definition EEPROM_WriteBlock :: "u8 \<Rightarrow> u8 list \<Rightarrow> nat \<Rightarrow> (unit, sm_world) run" where
  "EEPROM_WriteBlock command data n w =
     (if n \<le> length data \<and> unat command + n \<le> length (m_pEEPROM w)
      then Inr ((), w\<lparr>m_pEEPROM := take (unat command) (m_pEEPROM w) @ take n data
                        @ drop (unat command + n) (m_pEEPROM w)\<rparr>)
      else Inl OutOfBounds)"

section \<open>Virtual dispatch\<close>

fun sm_Init :: "sm_ptr \<Rightarrow> (unit, sm_world) run" where
  "sm_Init P_SMC = SMC_Init"
| "sm_Init P_EEPROM = ret ()"
| "sm_Init P_ADM1032 = ADM_Init"

definition sm_Reset :: "sm_ptr \<Rightarrow> (unit, sm_world) run" where
  "sm_Reset p = ret ()"

definition sm_QuickCommand :: "sm_ptr \<Rightarrow> bool \<Rightarrow> (unit, sm_world) run" where
  "sm_QuickCommand p r = ret ()"

definition sm_ReceiveByte :: "sm_ptr \<Rightarrow> (u8, sm_world) run" where
  "sm_ReceiveByte p = ret 0"

fun sm_ReadByte :: "sm_ptr \<Rightarrow> u8 \<Rightarrow> (u8, sm_world) run" where
  "sm_ReadByte P_SMC c = SMC_ReadByte c"
| "sm_ReadByte P_EEPROM c = EEPROM_ReadByte c"
| "sm_ReadByte P_ADM1032 c = ADM_ReadByte c"

fun sm_ReadWord :: "sm_ptr \<Rightarrow> u8 \<Rightarrow> (u16, sm_world) run" where
  "sm_ReadWord P_EEPROM c = EEPROM_ReadWord c"
| "sm_ReadWord _ c = ret 0"

definition sm_ReadBlock :: "sm_ptr \<Rightarrow> u8 \<Rightarrow> (nat, sm_world) run" where
  "sm_ReadBlock p c = ret 0"

definition sm_SendByte :: "sm_ptr \<Rightarrow> u8 \<Rightarrow> (unit, sm_world) run" where
  "sm_SendByte p v = ret ()"

fun sm_WriteByte :: "sm_ptr \<Rightarrow> u8 \<Rightarrow> u8 \<Rightarrow> (unit, sm_world) run" where
  "sm_WriteByte P_SMC c v = SMC_WriteByte c v"
| "sm_WriteByte P_EEPROM c v = EEPROM_WriteByte c v"
| "sm_WriteByte P_ADM1032 c v = ret ()"

fun sm_WriteWord :: "sm_ptr \<Rightarrow> u8 \<Rightarrow> u16 \<Rightarrow> (unit, sm_world) run" where
  "sm_WriteWord P_EEPROM c v = EEPROM_WriteWord c v"
| "sm_WriteWord _ c v = ret ()"

fun sm_WriteBlock :: "sm_ptr \<Rightarrow> u8 \<Rightarrow> u8 list \<Rightarrow> nat \<Rightarrow> (unit, sm_world) run" where
  "sm_WriteBlock P_EEPROM c data n = EEPROM_WriteBlock c data n"
| "sm_WriteBlock _ c data n = ret ()"

section \<open>Well-formedness\<close>

text \<open>
  The version cursor stays inside the three-character string and the EEPROM keeps its size. Every
  device operation keeps both.
\<close>

definition sm_ok :: "sm_world \<Rightarrow> bool" where
  "sm_ok w \<longleftrightarrow> m_PICVersionStringIndex (g_SMC w) < 3 \<and> length (m_pEEPROM w) = 256"

lemma sm_ok_simps [simp]:
  "sm_ok (SMC_set i v w) = sm_ok w"
  "sm_ok (SMC_set_index n w) = (n < 3 \<and> length (m_pEEPROM w) = 256)"
  "sm_ok (w\<lparr>gui_leds := l\<rparr>) = sm_ok w"
  "sm_ok (w\<lparr>boot_flags := b\<rparr>) = sm_ok w"
  "sm_ok (w\<lparr>g_ADM1032 := a\<rparr>) = sm_ok w"
  by (simp_all add: sm_ok_def SMC_set_def SMC_set_index_def)

lemma SMC_set_fields [simp]:
  "m_pEEPROM (SMC_set i v w) = m_pEEPROM w" "m_pEEPROM (SMC_set_index n w) = m_pEEPROM w"
  "m_revision (g_SMC (SMC_set i v w)) = m_revision (g_SMC w)"
  "m_revision (g_SMC (SMC_set_index n w)) = m_revision (g_SMC w)"
  "m_PICVersionStringIndex (g_SMC (SMC_set i v w)) = m_PICVersionStringIndex (g_SMC w)"
  "m_PICVersionStringIndex (g_SMC (SMC_set_index n w)) = n"
  "smc_buffer (g_SMC (SMC_set i v w)) = (smc_buffer (g_SMC w))(i := v)"
  "smc_buffer (g_SMC (SMC_set_index n w)) = smc_buffer (g_SMC w)"
  by (simp_all add: SMC_set_def SMC_set_index_def)

lemma sm_ok_size: "sm_ok w \<Longrightarrow> length (m_pEEPROM w) = 256"
  by (simp add: sm_ok_def)

lemma sm_ReadByte_ok: "sm_ok w \<Longrightarrow> sm_ReadByte p c w = Inr (v, w') \<Longrightarrow> sm_ok w'"
  by (cases p) (auto simp: SMC_ReadByte_def ADM_ReadByte_def EEPROM_ReadByte_def bnd_eq_Inr_iff
      sm_ok_size split: if_splits)

lemma sm_ReadByte_total: "sm_ok w \<Longrightarrow> \<exists>v w'. sm_ReadByte p c w = Inr (v, w')"
  using unsigned_less [where 'a = nat, of c]
  by (cases p) (auto simp: SMC_ReadByte_def ADM_ReadByte_def EEPROM_ReadByte_def sm_ok_size run_simps)

lemma sm_ReadWord_ok: "sm_ok w \<Longrightarrow> sm_ReadWord p c w = Inr (v, w') \<Longrightarrow> w' = w"
  by (cases p) (auto simp: EEPROM_ReadWord_def split: if_splits)

lemma SMC_WriteByte_ok: "sm_ok w \<Longrightarrow> SMC_WriteByte c v w = Inr (u, w') \<Longrightarrow> sm_ok w'"
  by (auto simp: SMC_WriteByte_def SMC_led_mode_def SetLEDSequence_def bnd_eq_Inr_iff sm_ok_size
      split: if_splits)

lemma EEPROM_WriteWord_ok: "sm_ok w \<Longrightarrow> EEPROM_WriteWord c v w = Inr (u, w') \<Longrightarrow> sm_ok w'"
  by (auto simp: EEPROM_WriteWord_def sm_ok_def split: if_splits)

lemma EEPROM_WriteBlock_ok: "sm_ok w \<Longrightarrow> EEPROM_WriteBlock c d n w = Inr (u, w') \<Longrightarrow> sm_ok w'"
  by (auto simp: EEPROM_WriteBlock_def sm_ok_def split: if_splits)

lemma sm_WriteByte_ok: "sm_ok w \<Longrightarrow> sm_WriteByte p c v w = Inr (u, w') \<Longrightarrow> sm_ok w'"
  by (cases p) (auto simp: EEPROM_WriteByte_def dest: SMC_WriteByte_ok EEPROM_WriteWord_ok)

lemma sm_WriteWord_ok: "sm_ok w \<Longrightarrow> sm_WriteWord p c v w = Inr (u, w') \<Longrightarrow> sm_ok w'"
  by (cases p) (auto dest: EEPROM_WriteWord_ok)

lemma sm_WriteBlock_ok: "sm_ok w \<Longrightarrow> sm_WriteBlock p c d n w = Inr (u, w') \<Longrightarrow> sm_ok w'"
  by (cases p) (auto dest: EEPROM_WriteBlock_ok)

lemma sm_Init_ok: "sm_ok w \<Longrightarrow> sm_Init p w = Inr (u, w') \<Longrightarrow> sm_ok w'"
  by (cases p) (auto simp: SMC_Init_def ADM_Init_def sm_ok_size)

section \<open>Behaviour\<close>

text \<open>The LED block sent to the GUI carries, for each of the four phases, exactly the red bit
  (upper nibble) and the green bit (lower nibble) of the sequence byte, so distinct sequences give
  distinct blocks.\<close>

theorem led_block_bits:
  "length (led_block s) = 4 \<and> (\<forall>i<4. \<forall>n. bit (led_block s ! i) n \<longleftrightarrow>
      n = 1 \<and> bit s (7 - i) \<or> n = 0 \<and> bit s (3 - i)) \<and> (led_block s = led_block t \<longrightarrow> s = t)"
proof -
  have bits: "bit (led_block x ! i) n \<longleftrightarrow> n = 1 \<and> bit x (7 - i) \<or> n = 0 \<and> bit x (3 - i)"
    if "i < 4" for x i n
  proof -
    from that consider "i = 0" | "i = 1" | "i = 2" | "i = 3" by linarith
    moreover have "bit (2 :: u8) n \<longleftrightarrow> n = 1"
      by (cases n) (auto simp: bit_simps bit_Suc gr0_conv_Suc)
    ultimately show ?thesis
      by cases (auto simp: led_block_def bit_simps bit_1_iff numeral_2_eq_2)
  qed
  have "s = t" if eq: "led_block s = led_block t"
  proof (rule bit_word_eqI)
    fix n :: nat
    assume n: "n < LENGTH(8)"
    show "bit s n = bit t n"
    proof (cases "n < 4")
      case True
      then show ?thesis using bits [of "3 - n" s 0] bits [of "3 - n" t 0] eq by simp
    next
      case False
      then show ?thesis using n bits [of "7 - n" s 1] bits [of "7 - n" t 1] eq by simp
    qed
  qed
  then show ?thesis using bits by (auto simp: led_block_def)
qed

theorem led_block_bits_witness:
  "bit (led_block 0xF0 ! 0) 1 \<and> \<not> bit (led_block 0xF0 ! 0) 0 \<and> led_block 0xF0 \<noteq> led_block 0x0F"
proof -
  have "bit (led_block 0xF0 ! 0) 1 \<and> \<not> bit (led_block 0xF0 ! 0) 0"
    using led_block_bits [of "0xF0" 0] by simp
  moreover have "led_block 0xF0 \<noteq> led_block 0x0F"
    using led_block_bits [of "0xF0" "0x0F"] by auto
  ultimately show ?thesis by blast
qed

definition read_version :: "(u8 list, sm_world) run" where
  "read_version = bnd (SMC_ReadByte 1) (\<lambda>a. bnd (SMC_ReadByte 1) (\<lambda>b.
     bnd (SMC_ReadByte 1) (\<lambda>c. ret [a, b, c])))"

lemma length_pic_version [simp]: "length (pic_version r) = 3"
  by (cases r) simp_all

lemma pic_version_nths: "[pic_version r ! 0, pic_version r ! Suc 0, pic_version r ! Suc (Suc 0)] = pic_version r"
  by (cases r) simp_all

text \<open>Three reads of command 1 with the cursor at the start return the three characters of the
  revision's PIC version string in order and bring the cursor back to the start, whatever the
  revision.\<close>

theorem pic_version_cycle:
  assumes "m_PICVersionStringIndex (g_SMC w) = 0"
  shows "\<exists>w'. read_version w = Inr (pic_version (m_revision (g_SMC w)), w')
    \<and> m_PICVersionStringIndex (g_SMC w') = 0 \<and> m_revision (g_SMC w') = m_revision (g_SMC w)
    \<and> m_pEEPROM w' = m_pEEPROM w"
  using assms by (simp add: read_version_def SMC_ReadByte_def pic_version_nths run_simps)

definition sample_world :: sm_world where
  "sample_world = \<lparr>g_SMC = new_SMCDevice P11 1, m_pEEPROM = replicate 256 0,
     g_ADM1032 = \<lparr>m_CPUTemperature = 45, m_MBTemperature = 40\<rparr>, gui_leds = [], boot_flags = 0\<rparr>"

lemma sample_world_ok: "sm_ok sample_world"
  by (simp add: sm_ok_def sample_world_def new_SMCDevice_def)

theorem pic_version_cycle_witness:
  "\<exists>w'. read_version sample_world = Inr ([0x50, 0x31, 0x31], w')"
proof -
  have "m_PICVersionStringIndex (g_SMC sample_world) = 0"
    by (simp add: sample_world_def new_SMCDevice_def)
  from pic_version_cycle [OF this] show ?thesis
    by (auto simp: sample_world_def new_SMCDevice_def)
qed

text \<open>The missing \<open>break\<close> after the reset command: writing 0 to the reset register changes no
  register but switches the console LED to solid green, as the LED mode command does; writing the
  power-off code ends the emulation, and the other two named codes do nothing.\<close>

theorem smc_reset_falls_into_led_mode:
  "SMC_WriteByte 0x02 0 w = SMC_WriteByte 0x07 0 w
   \<and> SMC_WriteByte 0x02 0 w = Inr ((), w\<lparr>gui_leds := [1, 1, 1, 1] # gui_leds w\<rparr>)
   \<and> SMC_WriteByte 0x02 0x80 w = Inl ShutDown
   \<and> SMC_WriteByte 0x02 0x01 w = Inr ((), w) \<and> SMC_WriteByte 0x02 0x40 w = Inr ((), w)"
  by (simp add: SMC_WriteByte_def SMC_led_mode_def SetLEDSequence_def led_block_def)

text \<open>A byte written to the EEPROM is read back, but the store is 16 bits wide: it also clears
  the following byte. Every other byte keeps its value, and at the last offset the store leaves
  the buffer.\<close>

theorem eeprom_write_byte_clobbers_next:
  assumes "sm_ok w"
  shows "if unat c < 255
    then \<exists>w'. EEPROM_WriteByte c v w = Inr ((), w') \<and> sm_ok w' \<and> EEPROM_ReadByte c w' = Inr (v, w')
      \<and> EEPROM_ReadByte (c + 1) w' = Inr (0, w')
      \<and> (\<forall>i<256. i \<noteq> unat c \<and> i \<noteq> unat c + 1 \<longrightarrow> m_pEEPROM w' ! i = m_pEEPROM w ! i)
    else EEPROM_WriteByte c v w = Inl OutOfBounds"
proof -
  have len: "length (m_pEEPROM w) = 256" using assms by (rule sm_ok_size)
  have "unat (c + 1) = unat c + 1" if "unat c < 255"
    using that by (simp add: unat_plus_if' unat_word_ariths)
  moreover have "ucast (drop_bit 8 (ucast v :: u16)) = (0 :: u8)"
    by (rule bit_word_eqI) (auto simp: bit_simps dest: bit_imp_le_length)
  ultimately show ?thesis
    using assms len by (auto simp: EEPROM_WriteByte_def EEPROM_WriteWord_def EEPROM_ReadByte_def sm_ok_def)
qed

theorem eeprom_write_byte_clobbers_next_witness:
  "\<exists>w'. EEPROM_WriteByte 0x10 0x5A sample_world = Inr ((), w') \<and> EEPROM_ReadByte 0x10 w' = Inr (0x5A, w')"
  using eeprom_write_byte_clobbers_next [OF sample_world_ok, of "0x10" "0x5A"] by auto

end
