(* ===== verification/Sm_Bus.thy ===== *)
theory Sm_Bus
  imports Sm_Devices Pci_Bus
begin

text \<open>
  \<open>class SMBus\<close> of \<open>src/devices/SMBus.{h,cpp}\<close>: the AMD756-style host controller. It is a PCI
  device with one I/O BAR whose registers hold a pending transaction; writing the start bit of
  the control register runs the transaction against the addressed SMBus device.

  The registers are bytes, the block buffer is the 32-byte array \<open>m_Data\<close> with its cursor
  \<open>m_Index\<close>. The object is created with \<open>new SMBus()\<close>, which zero-initialises it.
\<close>

section \<open>Registers and constants\<close>

record smbus =
  smb_pci :: pci_dev
  m_Status :: u8
  m_Control :: u8
  m_Command :: u8
  m_Address :: u8
  m_Data0 :: u8
  m_Data1 :: u8
  m_Data :: "u8 list"
  m_Index :: u8
  smb_Devices :: "(u8 \<times> sm_ptr) list"
  sm_world :: sm_world

abbreviation (input) GS_ABRT_STS :: u8 where "GS_ABRT_STS \<equiv> 0x01"
abbreviation (input) GS_PRERR_STS :: u8 where "GS_PRERR_STS \<equiv> 0x04"
abbreviation (input) GS_HCYC_STS :: u8 where "GS_HCYC_STS \<equiv> 0x10"
abbreviation (input) GS_CLEAR_STS :: u32 where "GS_CLEAR_STS \<equiv> 0x37"
abbreviation (input) GE_CYC_TYPE_MASK :: u8 where "GE_CYC_TYPE_MASK \<equiv> 0x07"
abbreviation (input) GE_HOST_STC :: u32 where "GE_HOST_STC \<equiv> 0x08"
abbreviation (input) GE_ABORT :: u32 where "GE_ABORT \<equiv> 0x20"

definition new_SMBus :: "sm_world \<Rightarrow> smbus" where
  "new_SMBus w = \<lparr>smb_pci = \<lparr>m_BAR = [], m_DeviceId = 0, m_VendorId = 0\<rparr>, m_Status = 0, m_Control = 0,
     m_Command = 0, m_Address = 0, m_Data0 = 0, m_Data1 = 0, m_Data = replicate 32 0, m_Index = 0,
     smb_Devices = [], sm_world = w\<rparr>"

definition on_sm :: "('a, sm_world) run \<Rightarrow> ('a, smbus) run" where
  "on_sm m s = (case m (sm_world s) of Inl e \<Rightarrow> Inl e | Inr (a, w) \<Rightarrow> Inr (a, s\<lparr>sm_world := w\<rparr>))"

lemma on_sm_Inr_iff:
  "on_sm m s = Inr (a, t) \<longleftrightarrow> (\<exists>w. m (sm_world s) = Inr (a, w) \<and> t = s\<lparr>sm_world := w\<rparr>)"
  by (auto simp: on_sm_def split: sum.splits)

section \<open>Operations\<close>

text \<open>
  \<open>r0\<close> is the uninitialised content of the local \<open>PCIBarRegister r\<close>, of which only the type and
  the address are assigned.
\<close>

definition SMBus_Init :: "u32 \<Rightarrow> (unit, smbus) run" where
  "SMBus_Init r0 = modify (\<lambda>s. s\<lparr>smb_pci :=
     (snd (RegisterBAR 1 32 (set_IO_address 0xC000 (set_Raw_type PCI_BAR_TYPE_IO r0)) (smb_pci s)))
       \<lparr>m_DeviceId := 0x01B4, m_VendorId := PCI_VENDOR_ID_NVIDIA\<rparr>\<rparr>)"

fun sm_reset_all :: "(u8 \<times> sm_ptr) list \<Rightarrow> (unit, sm_world) run" where
  "sm_reset_all [] = ret ()"
| "sm_reset_all ((a, p) # ds) = bnd (sm_Reset p) (\<lambda>_. sm_reset_all ds)"

definition SMBus_Reset :: "(unit, smbus) run" where
  "SMBus_Reset = bnd (modify (\<lambda>s. s\<lparr>m_Status := 0\<rparr>)) (\<lambda>_.
     bnd (get smb_Devices) (\<lambda>ds. on_sm (sm_reset_all ds)))"

definition dev_addr :: "u8 \<Rightarrow> u8" where
  "dev_addr addr = drop_bit 1 addr AND 0x7F"

definition SMBus_ConnectDevice :: "u8 \<Rightarrow> sm_ptr \<Rightarrow> (unit, smbus) run" where
  "SMBus_ConnectDevice addr pDevice s =
     (if map_of (smb_Devices s) (dev_addr addr) \<noteq> None then Inr ((), s)
      else bnd (modify (\<lambda>s. s\<lparr>smb_Devices := omap_insert (dev_addr addr) pDevice (smb_Devices s)\<rparr>))
             (\<lambda>_. on_sm (sm_Init pDevice)) s)"

definition or_Status :: "u8 \<Rightarrow> (unit, smbus) run" where
  "or_Status f = modify (\<lambda>s. s\<lparr>m_Status := m_Status s OR f\<rparr>)"

text \<open>The \<open>switch (prot)\<close> of \<open>ExecuteTransaction\<close> for a present device.\<close>

definition run_protocol :: "sm_ptr \<Rightarrow> u8 \<Rightarrow> bool \<Rightarrow> (unit, smbus) run" where
  "run_protocol p prot rd s =
     (if prot = 0 then
        bnd (on_sm (sm_QuickCommand p rd)) (\<lambda>_. or_Status GS_HCYC_STS) s
      else if prot = 1 then
        (if rd then bnd (on_sm (sm_ReceiveByte p)) (\<lambda>v.
                    bnd (modify (\<lambda>s. s\<lparr>m_Data0 := v\<rparr>)) (\<lambda>_. or_Status GS_HCYC_STS)) s
         else bnd (on_sm (sm_SendByte p (m_Data0 s))) (\<lambda>_. or_Status GS_HCYC_STS) s)
      else if prot = 2 then
        (if rd then bnd (on_sm (sm_ReadByte p (m_Command s))) (\<lambda>v.
                    bnd (modify (\<lambda>s. s\<lparr>m_Data0 := v\<rparr>)) (\<lambda>_. or_Status GS_HCYC_STS)) s
         else bnd (on_sm (sm_WriteByte p (m_Command s) (m_Data0 s))) (\<lambda>_. or_Status GS_HCYC_STS) s)
      else if prot = 3 then
        (if rd then bnd (on_sm (sm_ReadWord p (m_Command s))) (\<lambda>v.
                    bnd (modify (\<lambda>s. s\<lparr>m_Data0 := ucast (v AND 0xFF), m_Data1 := ucast (drop_bit 8 v)\<rparr>))
                      (\<lambda>_. or_Status GS_HCYC_STS)) s
         else bnd (on_sm (sm_WriteWord p (m_Command s) (ucast (m_Data0 s)))) (\<lambda>_. or_Status GS_HCYC_STS) s)
      else if prot = 5 then
        (if rd then bnd (on_sm (sm_ReadBlock p (m_Command s))) (\<lambda>n.
                    bnd (modify (\<lambda>s. s\<lparr>m_Data0 := of_nat n\<rparr>)) (\<lambda>_. or_Status GS_HCYC_STS)) s
         else bnd (on_sm (sm_WriteBlock p (m_Command s) (m_Data s) (unat (m_Data0 s))))
                (\<lambda>_. or_Status GS_HCYC_STS) s)
      else or_Status GS_PRERR_STS s)"

definition ExecuteTransaction :: "(unit, smbus) run" where
  "ExecuteTransaction s =
     (case map_of (smb_Devices s) (dev_addr (m_Address s)) of
        None \<Rightarrow> or_Status GS_PRERR_STS s
      | Some p \<Rightarrow> run_protocol p (m_Control s AND GE_CYC_TYPE_MASK) (bit (m_Address s) 0) s)"

text \<open>The cursor step \<open>m_Index++; if (m_Index > 31) m_Index = 0;\<close>.\<close>

definition next_Index :: "u8 \<Rightarrow> u8" where
  "next_Index i = (if i + 1 > 31 then 0 else i + 1)"

definition SMBus_IORead :: "int \<Rightarrow> u32 \<Rightarrow> nat \<Rightarrow> (u32, smbus) run" where
  "SMBus_IORead barIndex addr n s =
     (if barIndex \<noteq> 1 then Inr (0, s)
      else if n \<noteq> 1 then Inr (0, s)
      else let a = addr AND 0x3F in
        if a = 0x0 then Inr (ucast (m_Status s), s)
        else if a = 0x2 then Inr (ucast (m_Control s AND 0x1F), s)
        else if a = 0x8 then Inr (ucast (m_Command s), s)
        else if a = 0x4 then Inr (ucast (m_Address s), s)
        else if a = 0x6 then Inr (ucast (m_Data0 s), s)
        else if a = 0x7 then Inr (ucast (m_Data1 s), s)
        else if a = 0x9 then
          (if unat (m_Index s) < length (m_Data s)
           then Inr (ucast (m_Data s ! unat (m_Index s)), s\<lparr>m_Index := next_Index (m_Index s)\<rparr>)
           else Inl OutOfBounds)
        else Inr (0, s))"

definition SMBus_IOWrite :: "int \<Rightarrow> u32 \<Rightarrow> u32 \<Rightarrow> nat \<Rightarrow> (unit, smbus) run" where
  "SMBus_IOWrite barIndex addr v n s =
     (if barIndex \<noteq> 1 then Inr ((), s)
      else if n \<noteq> 1 then Inr ((), s)
      else let a = addr AND 0x3F in
        if a = 0x0 then
          (if v AND GS_CLEAR_STS \<noteq> 0 then Inr ((), s\<lparr>m_Status := 0, m_Index := 0\<rparr>)
           else Inr ((), s\<lparr>m_Status := GS_HCYC_STS, m_Index := 0\<rparr>))
        else if a = 0x2 then
          bnd (modify (\<lambda>s. s\<lparr>m_Control := ucast v\<rparr>)) (\<lambda>_.
          bnd (if v AND GE_ABORT \<noteq> 0 then or_Status GS_ABRT_STS else ret ()) (\<lambda>_.
          if v AND GE_HOST_STC \<noteq> 0 then ExecuteTransaction else ret ())) s
        else if a = 0x8 then Inr ((), s\<lparr>m_Command := ucast v\<rparr>)
        else if a = 0x4 then Inr ((), s\<lparr>m_Address := ucast v\<rparr>)
        else if a = 0x6 then Inr ((), s\<lparr>m_Data0 := ucast v\<rparr>)
        else if a = 0x7 then Inr ((), s\<lparr>m_Data1 := ucast v\<rparr>)
        else if a = 0x9 then
          (if unat (m_Index s) < length (m_Data s)
           then Inr ((), s\<lparr>m_Data := (m_Data s)[unat (m_Index s) := ucast v],
                           m_Index := next_Index (m_Index s)\<rparr>)
           else Inl OutOfBounds)
        else Inr ((), s))"

definition SMBus_MMIORead :: "int \<Rightarrow> u32 \<Rightarrow> nat \<Rightarrow> (u32, smbus) run" where
  "SMBus_MMIORead barIndex addr n = ret 0"

definition SMBus_MMIOWrite :: "int \<Rightarrow> u32 \<Rightarrow> u32 \<Rightarrow> nat \<Rightarrow> (unit, smbus) run" where
  "SMBus_MMIOWrite barIndex addr v n = ret ()"

section \<open>Invariant\<close>

definition smb_ok :: "smbus \<Rightarrow> bool" where
  "smb_ok s \<longleftrightarrow> length (m_Data s) = 32 \<and> unat (m_Index s) < 32 \<and> omap_ok (smb_Devices s)
     \<and> bars_ok (smb_pci s) \<and> sm_ok (sm_world s)"

lemma smb_ok_simps [simp]:
  "smb_ok (s\<lparr>m_Status := x\<rparr>) = smb_ok s" "smb_ok (s\<lparr>m_Control := x\<rparr>) = smb_ok s"
  "smb_ok (s\<lparr>m_Command := x\<rparr>) = smb_ok s" "smb_ok (s\<lparr>m_Address := x\<rparr>) = smb_ok s"
  "smb_ok (s\<lparr>m_Data0 := x\<rparr>) = smb_ok s" "smb_ok (s\<lparr>m_Data1 := x\<rparr>) = smb_ok s"
  by (auto simp: smb_ok_def)

lemma smb_okD:
  assumes "smb_ok s"
  shows "length (m_Data s) = 32" "unat (m_Index s) < 32" "omap_ok (smb_Devices s)"
    "bars_ok (smb_pci s)" "sm_ok (sm_world s)"
  using assms by (auto simp: smb_ok_def)

lemma smb_ok_world: "smb_ok s \<Longrightarrow> sm_ok w \<Longrightarrow> smb_ok (s\<lparr>sm_world := w\<rparr>)"
  by (auto simp: smb_ok_def)

lemma next_Index_bound: "unat (next_Index i) < 32"
proof (cases "i + 1 > 31")
  case False
  then have "unat (i + 1) \<le> 31" by (simp add: word_less_nat_alt not_less)
  with False show ?thesis by (simp add: next_Index_def)
qed (simp add: next_Index_def)

lemma new_SMBus_ok: "sm_ok w \<Longrightarrow> smb_ok (new_SMBus w)"
  by (simp add: smb_ok_def new_SMBus_def bars_ok_def)

lemma SMBus_Init_ok: "smb_ok s \<Longrightarrow> SMBus_Init r0 s = Inr (u, t) \<Longrightarrow> smb_ok t"
  using bars_ok_RegisterBAR [of "smb_pci s" 1 32]
  by (auto simp: SMBus_Init_def smb_ok_def bars_ok_def)

lemma on_sm_ok:
  assumes "smb_ok s" and "on_sm m s = Inr (a, t)"
    and "\<And>w w' a. sm_ok w \<Longrightarrow> m w = Inr (a, w') \<Longrightarrow> sm_ok w'"
  shows "smb_ok t"
  using assms by (auto simp: on_sm_Inr_iff intro!: smb_ok_world dest: smb_okD)

lemma SMBus_ConnectDevice_ok:
  assumes "smb_ok s" and "SMBus_ConnectDevice a p s = Inr (u, t)"
  shows "smb_ok t"
proof (cases "map_of (smb_Devices s) (dev_addr a)")
  case None
  let ?s = "s\<lparr>smb_Devices := omap_insert (dev_addr a) p (smb_Devices s)\<rparr>"
  have "smb_ok ?s" using assms(1) by (auto simp: smb_ok_def)
  moreover have "on_sm (sm_Init p) ?s = Inr (u, t)"
    using assms(2) None by (simp add: SMBus_ConnectDevice_def run_simps)
  ultimately show ?thesis by (rule on_sm_ok) (rule sm_Init_ok)
qed (use assms in \<open>simp add: SMBus_ConnectDevice_def\<close>)

lemma sm_reset_all_id: "sm_reset_all ds w = Inr ((), w)"
  by (induction ds) (auto simp: sm_Reset_def run_simps)

lemma SMBus_Reset_eq: "SMBus_Reset s = Inr ((), s\<lparr>m_Status := 0\<rparr>)"
  by (simp add: SMBus_Reset_def on_sm_def sm_reset_all_id run_simps)

lemma sm_quiet_ok:
  "sm_QuickCommand p r w = Inr (u, w') \<Longrightarrow> w' = w" "sm_ReceiveByte p w = Inr (v, w') \<Longrightarrow> w' = w"
  "sm_SendByte p x w = Inr (u, w') \<Longrightarrow> w' = w" "sm_ReadBlock p c w = Inr (n, w') \<Longrightarrow> w' = w"
  by (auto simp: sm_QuickCommand_def sm_ReceiveByte_def sm_SendByte_def sm_ReadBlock_def)

lemmas sm_keeps = sm_ReadByte_ok sm_WriteByte_ok sm_WriteWord_ok sm_WriteBlock_ok

lemma run_protocol_ok:
  assumes "smb_ok s" and "run_protocol p prot rd s = Inr (u, t)"
  shows "smb_ok t"
proof -
  have w: "sm_ok (sm_world s)" using assms(1) by (rule smb_okD)
  show ?thesis
    using assms(2) assms(1) w
    by (auto simp: run_protocol_def or_Status_def bnd_eq_Inr_iff on_sm_Inr_iff smb_ok_world
        dest: sm_quiet_ok sm_ReadWord_ok sm_keeps split: if_splits)
qed

lemma ExecuteTransaction_ok: "smb_ok s \<Longrightarrow> ExecuteTransaction s = Inr (u, t) \<Longrightarrow> smb_ok t"
  by (auto simp: ExecuteTransaction_def or_Status_def intro: run_protocol_ok split: option.splits)

lemma SMBus_IORead_total:
  assumes "smb_ok s"
  shows "\<exists>v t. SMBus_IORead i a n s = Inr (v, t) \<and> smb_ok t"
proof -
  have "smb_ok (s\<lparr>m_Index := next_Index (m_Index s)\<rparr>)"
    using assms next_Index_bound by (auto simp: smb_ok_def)
  then show ?thesis using assms smb_okD [OF assms] by (auto simp: SMBus_IORead_def Let_def)
qed

lemma SMBus_IOWrite_ok:
  assumes "smb_ok s" and "SMBus_IOWrite i a v n s = Inr (u, t)"
  shows "smb_ok t"
proof -
  have 1: "smb_ok (s\<lparr>m_Data := (m_Data s)[k := x], m_Index := next_Index (m_Index s)\<rparr>)" for k x
    using assms(1) next_Index_bound by (auto simp: smb_ok_def)
  have 2: "smb_ok (s\<lparr>m_Status := x, m_Index := 0\<rparr>)" for x
    using assms(1) by (auto simp: smb_ok_def)
  show ?thesis using assms 1 2
    by (auto simp: SMBus_IOWrite_def Let_def or_Status_def bnd_eq_Inr_iff
        dest!: ExecuteTransaction_ok [rotated] split: if_splits)
qed

section \<open>Reachable bus states\<close>

text \<open>
  Guest code reaches the controller only through its registers. \<open>smb_step\<close> is one completed
  access or reset; \<open>smb_reachable\<close> closes the initialised controller under device connection and
  accesses with arbitrary arguments.
\<close>

inductive smb_step :: "smbus \<Rightarrow> smbus \<Rightarrow> bool" where
  smb_rd: "SMBus_IORead i a n s = Inr (v, t) \<Longrightarrow> smb_step s t"
| smb_wr: "SMBus_IOWrite i a v n s = Inr (u, t) \<Longrightarrow> smb_step s t"
| smb_mmrd: "SMBus_MMIORead i a n s = Inr (v, t) \<Longrightarrow> smb_step s t"
| smb_mmwr: "SMBus_MMIOWrite i a v n s = Inr (u, t) \<Longrightarrow> smb_step s t"
| smb_conn: "SMBus_ConnectDevice d p s = Inr (u, t) \<Longrightarrow> smb_step s t"
| smb_reset: "SMBus_Reset s = Inr (u, t) \<Longrightarrow> smb_step s t"

inductive smb_reachable :: "smbus \<Rightarrow> bool" where
  smb_start: "sm_ok w \<Longrightarrow> SMBus_Init r0 (new_SMBus w) = Inr (u, s) \<Longrightarrow> smb_reachable s"
| smb_next: "smb_reachable s \<Longrightarrow> smb_step s t \<Longrightarrow> smb_reachable t"

lemma smb_step_ok: "smb_step s t \<Longrightarrow> smb_ok s \<Longrightarrow> smb_ok t"
proof (induction rule: smb_step.induct)
  case (smb_rd i a n s v t)
  with SMBus_IORead_total [of s i a n] show ?case by auto
qed (auto simp: SMBus_Reset_eq SMBus_MMIORead_def SMBus_MMIOWrite_def
       dest: SMBus_IOWrite_ok SMBus_ConnectDevice_ok)

lemma smb_reachable_ok: "smb_reachable s \<Longrightarrow> smb_ok s"
proof (induction rule: smb_reachable.induct)
  case (smb_start w r0 u s)
  then show ?case using SMBus_Init_ok [OF new_SMBus_ok] by blast
qed (rule smb_step_ok)

text \<open>C22: In every state the controller can reach through any sequence of register accesses with
  any arguments, the block cursor is inside the 32-byte buffer, the device map and the BAR map are
  well-formed, the PIC and EEPROM states are in range, and a register read of any address and size
  returns a value, never a fault.\<close>

theorem smbus_reachable_safe:
  assumes "smb_reachable s"
  shows "smb_ok s \<and> (\<exists>v t. SMBus_IORead i a n s = Inr (v, t) \<and> smb_reachable t)"
proof -
  have ok: "smb_ok s" using assms by (rule smb_reachable_ok)
  from SMBus_IORead_total [OF ok] obtain v t where "SMBus_IORead i a n s = Inr (v, t)" by blast
  then show ?thesis using ok assms by (blast intro: smb_next smb_rd)
qed

theorem smbus_reachable_safe_witness:
  "\<exists>s v t. SMBus_Init 0 (new_SMBus sample_world) = Inr ((), s) \<and> SMBus_IORead 1 9 1 s = Inr (v, t)"
proof -
  obtain s where s: "SMBus_Init 0 (new_SMBus sample_world) = Inr ((), s)"
    by (simp add: SMBus_Init_def)
  then have "smb_reachable s" by (rule smb_start [OF sample_world_ok])
  from smbus_reachable_safe [OF this, of 1 9 1] s show ?thesis by blast
qed

section \<open>Initialisation\<close>

text \<open>The BAR that \<open>SMBus::Init\<close> registers decodes exactly the 32 ports from 0xC000, whatever
  the uninitialised bits of the local register union were.\<close>

theorem smbus_init_window:
  "\<exists>s. SMBus_Init r0 (new_SMBus w) = Inr ((), s) \<and>
     (GetIOBar port (smb_pci s) \<noteq> None \<longleftrightarrow> 0xC000 \<le> port \<and> port < 0xC020)"
proof -
  have "Raw_type (set_IO_address 0xC000 (set_Raw_type 1 r0)) = 1"
    by (rule bit_word_eqI)
       (auto simp: Raw_type_def set_IO_address_def set_Raw_type_def mask_simps bit_simps bit_1_iff
         bit_numeral_rec)
  moreover have "IO_address (set_IO_address 0xC000 x) = 0xC000" for x
    by (simp add: take_bit_eq_mod)
  ultimately show ?thesis
    by (simp add: SMBus_Init_def new_SMBus_def RegisterBAR_def GetIOBar_def io_match_def)
qed

end
