(* ===== verification/Hal_Smbus.thy ===== *)
theory Hal_Smbus
  imports Sm_Bus
begin

text \<open>
  The kernel's access to the system management bus: \<open>HalReadSMBusValue\<close> and
  \<open>HalWriteSMBusValue\<close> of \<open>src/core/kernel/exports/EmuKrnlHal.cpp\<close>, which drive the host
  controller of \<open>Sm_Bus\<close> register by register, and the part of \<open>InitXboxHardware\<close>
  (\<open>src/devices/Xbox.cpp\<close>) that puts the three devices on the bus.
\<close>

section \<open>Hardware set-up\<close>

abbreviation (input) SMBUS_ADDRESS_SYSTEM_MICRO_CONTROLLER :: u8 where
  "SMBUS_ADDRESS_SYSTEM_MICRO_CONTROLLER \<equiv> 0x20"
abbreviation (input) SMBUS_ADDRESS_TEMPERATURE_MONITOR :: u8 where
  "SMBUS_ADDRESS_TEMPERATURE_MONITOR \<equiv> 0x98"
abbreviation (input) SMBUS_ADDRESS_EEPROM :: u8 where "SMBUS_ADDRESS_EEPROM \<equiv> 0xA8"

definition connect_sm_devices :: "(unit, smbus) run" where
  "connect_sm_devices =
     bnd (SMBus_ConnectDevice SMBUS_ADDRESS_SYSTEM_MICRO_CONTROLLER P_SMC) (\<lambda>_.
     bnd (SMBus_ConnectDevice SMBUS_ADDRESS_EEPROM P_EEPROM) (\<lambda>_.
     SMBus_ConnectDevice SMBUS_ADDRESS_TEMPERATURE_MONITOR P_ADM1032))"

section \<open>Kernel exports\<close>

abbreviation (input) X_STATUS_SUCCESS :: u32 where "X_STATUS_SUCCESS \<equiv> 0"
abbreviation (input) X_STATUS_UNSUCCESSFUL :: u32 where "X_STATUS_UNSUCCESSFUL \<equiv> 0xC0000001"

text \<open>The second result is what is stored to \<open>*DataValue\<close>; on failure it is not written.\<close>

definition HalReadSMBusValue :: "u8 \<Rightarrow> u8 \<Rightarrow> bool \<Rightarrow> (u32 \<times> u32 option, smbus) run" where
  "HalReadSMBusValue Address Command ReadWord =
     bnd (SMBus_IOWrite 1 0x4 (ucast Address OR 1) 1) (\<lambda>_.
     bnd (SMBus_IOWrite 1 0x8 (ucast Command) 1) (\<lambda>_.
     bnd (SMBus_IOWrite 1 0x2 ((if ReadWord then 0x03 else 0x02) OR GE_HOST_STC) 1) (\<lambda>_.
     bnd (SMBus_IORead 1 0x0 1) (\<lambda>st.
     if st AND 0x04 \<noteq> 0 then ret (X_STATUS_UNSUCCESSFUL, None)
     else bnd (SMBus_IORead 1 0x6 1) (\<lambda>lo.
       if ReadWord then bnd (SMBus_IORead 1 0x7 1) (\<lambda>hi. ret (X_STATUS_SUCCESS, Some (lo OR push_bit 8 hi)))
       else ret (X_STATUS_SUCCESS, Some lo))))))"

definition HalWriteSMBusValue :: "u8 \<Rightarrow> u8 \<Rightarrow> bool \<Rightarrow> u32 \<Rightarrow> (u32, smbus) run" where
  "HalWriteSMBusValue Address Command WriteWord DataValue =
     bnd (SMBus_IOWrite 1 0x4 (ucast Address) 1) (\<lambda>_.
     bnd (SMBus_IOWrite 1 0x8 (ucast Command) 1) (\<lambda>_.
     bnd (SMBus_IOWrite 1 0x6 (DataValue AND 0xFF) 1) (\<lambda>_.
     bnd (if WriteWord then
            bnd (SMBus_IOWrite 1 0x7 (drop_bit 8 DataValue AND 0xFF) 1) (\<lambda>_.
            SMBus_IOWrite 1 0x2 (0x03 OR GE_HOST_STC) 1)
          else SMBus_IOWrite 1 0x2 (0x02 OR GE_HOST_STC) 1) (\<lambda>_.
     bnd (SMBus_IORead 1 0x0 1) (\<lambda>st.
     ret (if st AND 0x04 \<noteq> 0 then X_STATUS_UNSUCCESSFUL else X_STATUS_SUCCESS))))))"

section \<open>Register-level rules\<close>

lemma smb_reg_access:
  "SMBus_IOWrite 1 4 v (Suc 0) s = Inr ((), s\<lparr>m_Address := ucast v\<rparr>)"
  "SMBus_IOWrite 1 8 v (Suc 0) s = Inr ((), s\<lparr>m_Command := ucast v\<rparr>)"
  "SMBus_IOWrite 1 6 v (Suc 0) s = Inr ((), s\<lparr>m_Data0 := ucast v\<rparr>)"
  "SMBus_IOWrite 1 7 v (Suc 0) s = Inr ((), s\<lparr>m_Data1 := ucast v\<rparr>)"
  "SMBus_IOWrite 1 2 10 (Suc 0) s = ExecuteTransaction (s\<lparr>m_Control := 10\<rparr>)"
  "SMBus_IOWrite 1 2 11 (Suc 0) s = ExecuteTransaction (s\<lparr>m_Control := 11\<rparr>)"
  "SMBus_IORead 1 0 (Suc 0) s = Inr (ucast (m_Status s), s)"
  "SMBus_IORead 1 6 (Suc 0) s = Inr (ucast (m_Data0 s), s)"
  "SMBus_IORead 1 7 (Suc 0) s = Inr (ucast (m_Data1 s), s)"
  by (simp_all add: SMBus_IOWrite_def SMBus_IORead_def Let_def run_simps)

lemma prerr_u32: "ucast (st :: u8) AND (4 :: u32) \<noteq> 0 \<longleftrightarrow> bit st 2"
  using and_exp_eq_0_iff_not_bit [of "ucast st :: u32" 2] by (auto simp: bit_simps)

lemma bit_or_16_2: "bit ((x :: u8) OR 16) 2 = bit x 2"
  by (simp add: bit_simps)

text \<open>The even (write) and odd (read) address of a device select the same bus address.\<close>

lemma dev_addr_read: "dev_addr (a OR 1) = dev_addr a"
  by (rule bit_word_eqI) (auto simp: dev_addr_def mask_simps bit_simps bit_1_iff)

lemma eeprom_pair:
  assumes "sm_ok w" and "unat c < 255"
  shows "\<exists>w'. EEPROM_WriteByte c v w = Inr ((), w') \<and> sm_ok w' \<and> EEPROM_ReadByte c w' = Inr (v, w')"
  using assms by (auto simp: EEPROM_WriteByte_def EEPROM_WriteWord_def EEPROM_ReadByte_def sm_ok_def)

definition prerr :: "smbus \<Rightarrow> bool" where
  "prerr s \<longleftrightarrow> bit (m_Status s) 2"

definition eeprom_at :: "u8 \<Rightarrow> smbus \<Rightarrow> bool" where
  "eeprom_at a s \<longleftrightarrow> map_of (smb_Devices s) (dev_addr a) = Some P_EEPROM \<and> \<not> bit a 0"

lemma HalWrite_eeprom_byte:
  assumes "eeprom_at a s" and "EEPROM_WriteByte c (ucast (v AND 0xFF)) (sm_world s) = Inr ((), w')"
  shows "HalWriteSMBusValue a c False v s =
    Inr (if prerr s then X_STATUS_UNSUCCESSFUL else X_STATUS_SUCCESS,
         s\<lparr>m_Address := a, m_Command := c, m_Data0 := ucast (v AND 0xFF), m_Control := 10,
           sm_world := w', m_Status := m_Status s OR 16\<rparr>)"
  using assms
  by (simp add: HalWriteSMBusValue_def smb_reg_access ExecuteTransaction_def run_protocol_def
      on_sm_def or_Status_def prerr_u32 bit_or_16_2 eeprom_at_def prerr_def run_simps)

lemma HalRead_eeprom_byte:
  assumes "eeprom_at a s" and "EEPROM_ReadByte c (sm_world s) = Inr (x, w')"
  shows "\<exists>t. HalReadSMBusValue a c False s =
    Inr (if prerr s then (X_STATUS_UNSUCCESSFUL, None) else (X_STATUS_SUCCESS, Some (ucast x)), t)"
proof -
  have "dev_addr (ucast (ucast a OR (1 :: u32))) = dev_addr a"
    by (rule bit_word_eqI) (auto simp: dev_addr_def mask_simps bit_simps bit_1_iff)
  moreover have "bit (ucast (ucast a OR (1 :: u32)) :: u8) 0"
    by (simp add: bit_simps)
  ultimately show ?thesis using assms
    by (simp add: HalReadSMBusValue_def smb_reg_access ExecuteTransaction_def run_protocol_def
        on_sm_def or_Status_def prerr_u32 bit_or_16_2 eeprom_at_def prerr_def run_simps)
qed

text \<open>C39: On a bus with the EEPROM present and no pending protocol error, the kernel's byte write
  followed by a byte read of the same offset below 255 both succeed, and the read returns the low
  byte of the written value.\<close>

theorem hal_eeprom_roundtrip:
  assumes "smb_ok s" and "eeprom_at a s" and "\<not> prerr s" and "unat c < 255"
  shows "\<exists>t u. HalWriteSMBusValue a c False v s = Inr (X_STATUS_SUCCESS, t)
    \<and> HalReadSMBusValue a c False t = Inr ((X_STATUS_SUCCESS, Some (v AND 0xFF)), u)"
proof -
  from eeprom_pair [OF smb_okD(5) [OF assms(1)] assms(4)] obtain w' where
    w': "EEPROM_WriteByte c (ucast (v AND 0xFF)) (sm_world s) = Inr ((), w')"
    "EEPROM_ReadByte c w' = Inr (ucast (v AND 0xFF), w')" by blast
  let ?t = "s\<lparr>m_Address := a, m_Command := c, m_Data0 := ucast (v AND 0xFF), m_Control := 10,
      sm_world := w', m_Status := m_Status s OR 16\<rparr>"
  have "(ucast (ucast (v AND 0xFF) :: u8) :: u32) = v AND 0xFF"
  by (simp add: ucast_down_up_8 mask_simps)
  moreover have "eeprom_at a ?t" "\<not> prerr ?t" "sm_world ?t = w'"
    using assms by (simp_all add: eeprom_at_def prerr_def bit_or_16_2)
  ultimately show ?thesis
    using HalWrite_eeprom_byte [OF assms(2) w'(1)] HalRead_eeprom_byte [of a ?t c] w'(2) assms(3)
    by auto
qed

definition sample_bus :: smbus where
  "sample_bus = (new_SMBus sample_world)\<lparr>smb_Devices := [(0x10, P_SMC), (0x4C, P_ADM1032), (0x54, P_EEPROM)]\<rparr>"

lemma sample_bus_ok: "smb_ok sample_bus"
  by (simp add: sample_bus_def smb_ok_def new_SMBus_def bars_ok_def omap_ok_def sample_world_ok)

lemma sample_bus_eeprom: "eeprom_at 0xA8 sample_bus" "\<not> prerr sample_bus"
  by (simp_all add: sample_bus_def eeprom_at_def dev_addr_def new_SMBus_def prerr_def bit_numeral_rec)

theorem hal_eeprom_roundtrip_witness:
  "\<exists>t u. HalWriteSMBusValue 0xA8 0x40 False 0x77 sample_bus = Inr (0, t)
    \<and> HalReadSMBusValue 0xA8 0x40 False t = Inr ((0, Some 0x77), u)"
  using hal_eeprom_roundtrip [OF sample_bus_ok sample_bus_eeprom, of "0x40" "0x77"] by simp

section \<open>The protocol error is sticky\<close>

lemma run_protocol_prerr: "run_protocol p prot rd s = Inr (u, t) \<Longrightarrow> prerr s \<Longrightarrow> prerr t"
  by (auto simp: run_protocol_def or_Status_def prerr_def bnd_eq_Inr_iff on_sm_Inr_iff bit_simps
      split: if_splits)

lemma ExecuteTransaction_prerr: "ExecuteTransaction s = Inr (u, t) \<Longrightarrow> prerr s \<Longrightarrow> prerr t"
  by (auto simp: ExecuteTransaction_def or_Status_def prerr_def bit_simps
      dest: run_protocol_prerr [unfolded prerr_def] split: option.splits)

lemma prerr_fields [simp]:
  "prerr (s\<lparr>m_Address := x\<rparr>) = prerr s" "prerr (s\<lparr>m_Command := x\<rparr>) = prerr s"
  "prerr (s\<lparr>m_Data0 := x\<rparr>) = prerr s" "prerr (s\<lparr>m_Data1 := x\<rparr>) = prerr s"
  "prerr (s\<lparr>m_Control := x\<rparr>) = prerr s"
  by (simp_all add: prerr_def)

lemma HalRead_prerr:
  assumes "HalReadSMBusValue a c rw s = Inr (r, t)" and "prerr s"
  shows "r = (X_STATUS_UNSUCCESSFUL, None) \<and> prerr t"
  using assms by (cases rw)
    (auto simp: HalReadSMBusValue_def smb_reg_access bnd_eq_Inr_iff prerr_u32
      dest!: ExecuteTransaction_prerr simp flip: prerr_def split: if_splits)

lemma HalWrite_prerr:
  assumes "HalWriteSMBusValue a c ww v s = Inr (r, t)" and "prerr s"
  shows "r = X_STATUS_UNSUCCESSFUL \<and> prerr t"
  using assms by (cases ww)
    (auto simp: HalWriteSMBusValue_def smb_reg_access bnd_eq_Inr_iff prerr_u32
      dest!: ExecuteTransaction_prerr simp flip: prerr_def split: if_splits)

lemma HalRead_absent:
  assumes "map_of (smb_Devices s) (dev_addr a) = None"
  shows "\<exists>t. HalReadSMBusValue a c False s = Inr ((X_STATUS_UNSUCCESSFUL, None), t) \<and> prerr t"
proof -
  have "dev_addr (ucast (ucast a OR (1 :: u32))) = dev_addr a"
    by (rule bit_word_eqI) (auto simp: dev_addr_def mask_simps bit_simps bit_1_iff)
  moreover have "bit (m_Status s OR 4) 2" by (simp add: bit_simps bit_numeral_rec)
  ultimately show ?thesis using assms
    by (simp add: HalReadSMBusValue_def smb_reg_access ExecuteTransaction_def or_Status_def
        prerr_u32 prerr_def run_simps)
qed

text \<open>A kernel read of an address with no device fails, and it leaves the controller's
  protocol error flag set: the flag is never cleared by a transaction or by the HAL, so every later
  HAL read or write that completes reports failure too, also one to a present device.\<close>

theorem hal_error_is_sticky:
  assumes "map_of (smb_Devices s) (dev_addr a) = None"
  shows "\<exists>t. HalReadSMBusValue a c False s = Inr ((X_STATUS_UNSUCCESSFUL, None), t)
    \<and> (\<forall>b d w r u. HalReadSMBusValue b d w t = Inr (r, u) \<longrightarrow> r = (X_STATUS_UNSUCCESSFUL, None) \<and> prerr u)
    \<and> (\<forall>b d w v r u. HalWriteSMBusValue b d w v t = Inr (r, u) \<longrightarrow> r = X_STATUS_UNSUCCESSFUL \<and> prerr u)"
proof -
  obtain t where t: "HalReadSMBusValue a c False s = Inr ((X_STATUS_UNSUCCESSFUL, None), t)" "prerr t"
    using HalRead_absent [OF assms] by auto
  show ?thesis
    by (intro exI [of _ t] conjI allI impI)
       (use t HalRead_prerr HalWrite_prerr in \<open>simp_all\<close>)
qed

theorem hal_error_is_sticky_witness:
  "\<exists>t. HalReadSMBusValue 0x88 0 False sample_bus = Inr ((X_STATUS_UNSUCCESSFUL, None), t)
    \<and> (\<forall>r u. HalReadSMBusValue 0xA8 0 False t = Inr (r, u) \<longrightarrow> r = (X_STATUS_UNSUCCESSFUL, None))"
proof -
  have "map_of (smb_Devices sample_bus) (dev_addr 0x88) = None"
    by (simp add: sample_bus_def dev_addr_def)
  from hal_error_is_sticky [OF this, of 0] show ?thesis
    by (elim exE conjE) (rule exI, rule conjI, assumption, metis)
qed

text \<open>A word write through the HAL stores only the low byte: the high byte goes to the second
  data register, which the word protocol of the controller does not pass on, so the word read back
  is the written value modulo 256.\<close>

theorem hal_word_write_drops_high_byte:
  assumes "smb_ok s" and "eeprom_at a s" and "\<not> prerr s" and "unat c < 255"
  shows "\<exists>t u. HalWriteSMBusValue a c True v s = Inr (X_STATUS_SUCCESS, t)
    \<and> HalReadSMBusValue a c True t = Inr ((X_STATUS_SUCCESS, Some (take_bit 8 v)), u)"
proof -
  have len: "length (m_pEEPROM (sm_world s)) = 256" using smb_okD(5) [OF assms(1)] by (rule sm_ok_size)
  have 1: "dev_addr (ucast (ucast a OR (1 :: u32))) = dev_addr a"
    by (rule bit_word_eqI) (auto simp: dev_addr_def mask_simps bit_simps bit_1_iff)
  have 2: "bit (ucast (ucast a OR (1 :: u32)) :: u8) 0" by (simp add: bit_simps)
  have 3: "ucast (drop_bit 8 (ucast x :: u16)) = (0 :: u8)" for x :: u8
    by (rule bit_word_eqI) (auto simp: bit_simps dest: bit_imp_le_length)
  have 4: "take_bit 8 (ucast x :: u16) = ucast x" "drop_bit 8 (ucast x :: u16) = 0" for x :: u8
    by (rule bit_word_eqI, auto simp: bit_simps dest: bit_imp_le_length)+
  show ?thesis
    using assms len
    by (simp add: HalWriteSMBusValue_def HalReadSMBusValue_def smb_reg_access ExecuteTransaction_def
        run_protocol_def on_sm_def or_Status_def prerr_u32 bit_or_16_2 eeprom_at_def prerr_def
        EEPROM_WriteWord_def EEPROM_ReadWord_def run_simps 1 2 3 4 mask_simps ucast_down_up_8)
qed

theorem hal_word_write_drops_high_byte_witness:
  "\<exists>t u. HalWriteSMBusValue 0xA8 0x40 True 0x1234 sample_bus = Inr (0, t)
    \<and> HalReadSMBusValue 0xA8 0x40 True t = Inr ((0, Some 0x34), u)"
  using hal_word_write_drops_high_byte [OF sample_bus_ok sample_bus_eeprom, of "0x40" "0x1234"] by simp

end
