(* ===== verification/X86_Cpu.thy ===== *)
theory X86_Cpu
  imports Pci_Bus
begin

text \<open>
  The processor of the instruction emulator \<open>src/devices/x86/EmuX86.cpp\<close>: register names, the
  context record that Windows hands to the exception handler, the decoded instruction, the
  register and memory accessors and the handlers for memory-mapped and port I/O.

  A pointer into the context record, the register map or the decoded instruction is a value of
  \<open>hptr\<close>. What the emulator takes from outside its sources is the record \<open>x86_env\<close>: the
  instruction decoder (distorm), the clocks, the flags of the host thread, and the numeric value
  of a host pointer. \<open>EmuX86_Mem_Read\<close> on a guest address reads the flat guest memory, which is
  total here: host page faults are not modelled. The model is the debug build, with every
  \<open>assert\<close> checked.
\<close>

section \<open>Registers\<close>

text \<open>
  distorm's \<open>_RegisterType\<close>. The registers that a 32-bit processor does not have are kept as
  numbered families: \<open>R_64 i\<close> is \<open>R_RAX\<close> to \<open>R_R15\<close>, \<open>R_32x i\<close>, \<open>R_16x i\<close> and \<open>R_8x i\<close> are the
  dword, word and byte parts of \<open>R_R8\<close> to \<open>R_R15\<close>.
\<close>

datatype x86_reg =
    R_NONE
  | R_EAX | R_ECX | R_EDX | R_EBX | R_ESP | R_EBP | R_ESI | R_EDI
  | R_AX | R_CX | R_DX | R_BX | R_SP | R_BP | R_SI | R_DI
  | R_AL | R_CL | R_DL | R_BL | R_AH | R_CH | R_DH | R_BH | R_SPL | R_BPL | R_SIL | R_DIL
  | R_ES | R_CS | R_SS | R_DS | R_FS | R_GS
  | R_DR0 | R_DR1 | R_DR2 | R_DR3 | R_DR6 | R_DR7
  | R_CR0 | R_CR2 | R_CR3 | R_CR4 | R_CR8
  | R_64 nat | R_32x nat | R_16x nat | R_8x nat | R_RIP
  | R_ST nat | R_MM nat | R_XMM nat | R_YMM nat | R_UNUSED nat

record CONTEXT =
  Dr0 :: u32
  Dr1 :: u32
  Dr2 :: u32
  Dr3 :: u32
  Dr6 :: u32
  Dr7 :: u32
  SegGs :: u32
  SegFs :: u32
  SegEs :: u32
  SegDs :: u32
  Edi :: u32
  Esi :: u32
  Ebx :: u32
  Edx :: u32
  Ecx :: u32
  Eax :: u32
  Ebp :: u32
  Eip :: u32
  SegCs :: u32
  EFlags :: u32
  Esp :: u32
  SegSs :: u32
  ExtendedRegisters :: "nat \<Rightarrow> u8"

text \<open>The 32-bit members, as the targets of a member pointer.\<close>

datatype ctx_field =
    F_Dr0 | F_Dr1 | F_Dr2 | F_Dr3 | F_Dr6 | F_Dr7 | F_SegGs | F_SegFs
  | F_SegEs | F_SegDs | F_Edi | F_Esi | F_Ebx | F_Edx | F_Ecx | F_Eax
  | F_Ebp | F_Eip | F_SegCs | F_EFlags | F_Esp | F_SegSs

primrec ctx_get :: "ctx_field \<Rightarrow> CONTEXT \<Rightarrow> u32" where
  "ctx_get F_Dr0 c = Dr0 c"
| "ctx_get F_Dr1 c = Dr1 c"
| "ctx_get F_Dr2 c = Dr2 c"
| "ctx_get F_Dr3 c = Dr3 c"
| "ctx_get F_Dr6 c = Dr6 c"
| "ctx_get F_Dr7 c = Dr7 c"
| "ctx_get F_SegGs c = SegGs c"
| "ctx_get F_SegFs c = SegFs c"
| "ctx_get F_SegEs c = SegEs c"
| "ctx_get F_SegDs c = SegDs c"
| "ctx_get F_Edi c = Edi c"
| "ctx_get F_Esi c = Esi c"
| "ctx_get F_Ebx c = Ebx c"
| "ctx_get F_Edx c = Edx c"
| "ctx_get F_Ecx c = Ecx c"
| "ctx_get F_Eax c = Eax c"
| "ctx_get F_Ebp c = Ebp c"
| "ctx_get F_Eip c = Eip c"
| "ctx_get F_SegCs c = SegCs c"
| "ctx_get F_EFlags c = EFlags c"
| "ctx_get F_Esp c = Esp c"
| "ctx_get F_SegSs c = SegSs c"

primrec ctx_put :: "ctx_field \<Rightarrow> u32 \<Rightarrow> CONTEXT \<Rightarrow> CONTEXT" where
  "ctx_put F_Dr0 v c = c\<lparr>Dr0 := v\<rparr>"
| "ctx_put F_Dr1 v c = c\<lparr>Dr1 := v\<rparr>"
| "ctx_put F_Dr2 v c = c\<lparr>Dr2 := v\<rparr>"
| "ctx_put F_Dr3 v c = c\<lparr>Dr3 := v\<rparr>"
| "ctx_put F_Dr6 v c = c\<lparr>Dr6 := v\<rparr>"
| "ctx_put F_Dr7 v c = c\<lparr>Dr7 := v\<rparr>"
| "ctx_put F_SegGs v c = c\<lparr>SegGs := v\<rparr>"
| "ctx_put F_SegFs v c = c\<lparr>SegFs := v\<rparr>"
| "ctx_put F_SegEs v c = c\<lparr>SegEs := v\<rparr>"
| "ctx_put F_SegDs v c = c\<lparr>SegDs := v\<rparr>"
| "ctx_put F_Edi v c = c\<lparr>Edi := v\<rparr>"
| "ctx_put F_Esi v c = c\<lparr>Esi := v\<rparr>"
| "ctx_put F_Ebx v c = c\<lparr>Ebx := v\<rparr>"
| "ctx_put F_Edx v c = c\<lparr>Edx := v\<rparr>"
| "ctx_put F_Ecx v c = c\<lparr>Ecx := v\<rparr>"
| "ctx_put F_Eax v c = c\<lparr>Eax := v\<rparr>"
| "ctx_put F_Ebp v c = c\<lparr>Ebp := v\<rparr>"
| "ctx_put F_Eip v c = c\<lparr>Eip := v\<rparr>"
| "ctx_put F_SegCs v c = c\<lparr>SegCs := v\<rparr>"
| "ctx_put F_EFlags v c = c\<lparr>EFlags := v\<rparr>"
| "ctx_put F_Esp v c = c\<lparr>Esp := v\<rparr>"
| "ctx_put F_SegSs v c = c\<lparr>SegSs := v\<rparr>"

lemma ctx_get_put_same [simp]: "ctx_get f (ctx_put f v c) = v"
  by (cases f) simp_all

lemma ctx_get_put_other [simp]: "f \<noteq> g \<Longrightarrow> ctx_get f (ctx_put g v c) = ctx_get f c"
  by (cases g; cases f) simp_all

text \<open>\<open>ContextRecordOffsetByRegisterType\<close>: the member and the byte inside it.\<close>

datatype hptr = P_Ctx ctx_field nat | P_Ext nat | P_Map x86_reg | P_Imm | P_Imm1 | P_Imm2

primrec ContextRecordOffsetByRegisterType :: "x86_reg \<Rightarrow> hptr option" where
  "ContextRecordOffsetByRegisterType R_NONE = None"
| "ContextRecordOffsetByRegisterType R_EAX = Some (P_Ctx F_Eax 0)"
| "ContextRecordOffsetByRegisterType R_ECX = Some (P_Ctx F_Ecx 0)"
| "ContextRecordOffsetByRegisterType R_EDX = Some (P_Ctx F_Edx 0)"
| "ContextRecordOffsetByRegisterType R_EBX = Some (P_Ctx F_Ebx 0)"
| "ContextRecordOffsetByRegisterType R_ESP = Some (P_Ctx F_Esp 0)"
| "ContextRecordOffsetByRegisterType R_EBP = Some (P_Ctx F_Ebp 0)"
| "ContextRecordOffsetByRegisterType R_ESI = Some (P_Ctx F_Esi 0)"
| "ContextRecordOffsetByRegisterType R_EDI = Some (P_Ctx F_Edi 0)"
| "ContextRecordOffsetByRegisterType R_AX = Some (P_Ctx F_Eax 0)"
| "ContextRecordOffsetByRegisterType R_CX = Some (P_Ctx F_Ecx 0)"
| "ContextRecordOffsetByRegisterType R_DX = Some (P_Ctx F_Edx 0)"
| "ContextRecordOffsetByRegisterType R_BX = Some (P_Ctx F_Ebx 0)"
| "ContextRecordOffsetByRegisterType R_SP = Some (P_Ctx F_Esp 0)"
| "ContextRecordOffsetByRegisterType R_BP = Some (P_Ctx F_Ebp 0)"
| "ContextRecordOffsetByRegisterType R_SI = Some (P_Ctx F_Esi 0)"
| "ContextRecordOffsetByRegisterType R_DI = Some (P_Ctx F_Edi 0)"
| "ContextRecordOffsetByRegisterType R_AL = Some (P_Ctx F_Eax 0)"
| "ContextRecordOffsetByRegisterType R_CL = Some (P_Ctx F_Ecx 0)"
| "ContextRecordOffsetByRegisterType R_DL = Some (P_Ctx F_Edx 0)"
| "ContextRecordOffsetByRegisterType R_BL = Some (P_Ctx F_Ebx 0)"
| "ContextRecordOffsetByRegisterType R_AH = Some (P_Ctx F_Eax 1)"
| "ContextRecordOffsetByRegisterType R_CH = Some (P_Ctx F_Ecx 1)"
| "ContextRecordOffsetByRegisterType R_DH = Some (P_Ctx F_Edx 1)"
| "ContextRecordOffsetByRegisterType R_BH = Some (P_Ctx F_Ebx 1)"
| "ContextRecordOffsetByRegisterType R_SPL = Some (P_Ctx F_Esp 0)"
| "ContextRecordOffsetByRegisterType R_BPL = Some (P_Ctx F_Ebp 0)"
| "ContextRecordOffsetByRegisterType R_SIL = Some (P_Ctx F_Esi 0)"
| "ContextRecordOffsetByRegisterType R_DIL = Some (P_Ctx F_Edi 0)"
| "ContextRecordOffsetByRegisterType R_ES = Some (P_Ctx F_SegEs 0)"
| "ContextRecordOffsetByRegisterType R_CS = Some (P_Ctx F_SegCs 0)"
| "ContextRecordOffsetByRegisterType R_SS = Some (P_Ctx F_SegSs 0)"
| "ContextRecordOffsetByRegisterType R_DS = Some (P_Ctx F_SegDs 0)"
| "ContextRecordOffsetByRegisterType R_FS = Some (P_Ctx F_SegFs 0)"
| "ContextRecordOffsetByRegisterType R_GS = Some (P_Ctx F_SegGs 0)"
| "ContextRecordOffsetByRegisterType R_DR0 = Some (P_Ctx F_Dr0 0)"
| "ContextRecordOffsetByRegisterType R_DR1 = Some (P_Ctx F_Dr1 0)"
| "ContextRecordOffsetByRegisterType R_DR2 = Some (P_Ctx F_Dr2 0)"
| "ContextRecordOffsetByRegisterType R_DR3 = Some (P_Ctx F_Dr3 0)"
| "ContextRecordOffsetByRegisterType R_DR6 = Some (P_Ctx F_Dr6 0)"
| "ContextRecordOffsetByRegisterType R_DR7 = Some (P_Ctx F_Dr7 0)"
| "ContextRecordOffsetByRegisterType R_CR0 = None"
| "ContextRecordOffsetByRegisterType R_CR2 = None"
| "ContextRecordOffsetByRegisterType R_CR3 = None"
| "ContextRecordOffsetByRegisterType R_CR4 = None"
| "ContextRecordOffsetByRegisterType R_CR8 = None"
| "ContextRecordOffsetByRegisterType (R_64 i) = None"
| "ContextRecordOffsetByRegisterType (R_32x i) = None"
| "ContextRecordOffsetByRegisterType (R_16x i) = None"
| "ContextRecordOffsetByRegisterType (R_8x i) = None"
| "ContextRecordOffsetByRegisterType R_RIP = None"
| "ContextRecordOffsetByRegisterType (R_ST i) = None"
| "ContextRecordOffsetByRegisterType (R_XMM i) = None"
| "ContextRecordOffsetByRegisterType (R_YMM i) = None"
| "ContextRecordOffsetByRegisterType (R_UNUSED i) = None"
| "ContextRecordOffsetByRegisterType (R_MM i) = Some (P_Ext ((10 + i) * 16))"

text \<open>\<open>None\<close> is the failing \<open>assert(false)\<close> of the default branch, which \<open>R_NONE\<close> takes.\<close>

primrec EmuX86_DistormRegSize :: "x86_reg \<Rightarrow> nat option" where
  "EmuX86_DistormRegSize R_NONE = None"
| "EmuX86_DistormRegSize R_EAX = Some 4"
| "EmuX86_DistormRegSize R_ECX = Some 4"
| "EmuX86_DistormRegSize R_EDX = Some 4"
| "EmuX86_DistormRegSize R_EBX = Some 4"
| "EmuX86_DistormRegSize R_ESP = Some 4"
| "EmuX86_DistormRegSize R_EBP = Some 4"
| "EmuX86_DistormRegSize R_ESI = Some 4"
| "EmuX86_DistormRegSize R_EDI = Some 4"
| "EmuX86_DistormRegSize R_AX = Some 2"
| "EmuX86_DistormRegSize R_CX = Some 2"
| "EmuX86_DistormRegSize R_DX = Some 2"
| "EmuX86_DistormRegSize R_BX = Some 2"
| "EmuX86_DistormRegSize R_SP = Some 2"
| "EmuX86_DistormRegSize R_BP = Some 2"
| "EmuX86_DistormRegSize R_SI = Some 2"
| "EmuX86_DistormRegSize R_DI = Some 2"
| "EmuX86_DistormRegSize R_AL = Some 1"
| "EmuX86_DistormRegSize R_CL = Some 1"
| "EmuX86_DistormRegSize R_DL = Some 1"
| "EmuX86_DistormRegSize R_BL = Some 1"
| "EmuX86_DistormRegSize R_AH = Some 1"
| "EmuX86_DistormRegSize R_CH = Some 1"
| "EmuX86_DistormRegSize R_DH = Some 1"
| "EmuX86_DistormRegSize R_BH = Some 1"
| "EmuX86_DistormRegSize R_SPL = Some 1"
| "EmuX86_DistormRegSize R_BPL = Some 1"
| "EmuX86_DistormRegSize R_SIL = Some 1"
| "EmuX86_DistormRegSize R_DIL = Some 1"
| "EmuX86_DistormRegSize R_ES = Some 2"
| "EmuX86_DistormRegSize R_CS = Some 2"
| "EmuX86_DistormRegSize R_SS = Some 2"
| "EmuX86_DistormRegSize R_DS = Some 2"
| "EmuX86_DistormRegSize R_FS = Some 2"
| "EmuX86_DistormRegSize R_GS = Some 2"
| "EmuX86_DistormRegSize R_DR0 = Some 4"
| "EmuX86_DistormRegSize R_DR1 = Some 4"
| "EmuX86_DistormRegSize R_DR2 = Some 4"
| "EmuX86_DistormRegSize R_DR3 = Some 4"
| "EmuX86_DistormRegSize R_DR6 = Some 4"
| "EmuX86_DistormRegSize R_DR7 = Some 4"
| "EmuX86_DistormRegSize R_CR0 = Some 4"
| "EmuX86_DistormRegSize R_CR2 = Some 4"
| "EmuX86_DistormRegSize R_CR3 = Some 4"
| "EmuX86_DistormRegSize R_CR4 = Some 4"
| "EmuX86_DistormRegSize R_CR8 = Some 4"
| "EmuX86_DistormRegSize (R_64 i) = Some 8"
| "EmuX86_DistormRegSize (R_32x i) = Some 4"
| "EmuX86_DistormRegSize (R_16x i) = Some 2"
| "EmuX86_DistormRegSize (R_8x i) = Some 1"
| "EmuX86_DistormRegSize R_RIP = Some 8"
| "EmuX86_DistormRegSize (R_ST i) = Some 10"
| "EmuX86_DistormRegSize (R_MM i) = Some 10"
| "EmuX86_DistormRegSize (R_XMM i) = Some 16"
| "EmuX86_DistormRegSize (R_YMM i) = Some 16"
| "EmuX86_DistormRegSize (R_UNUSED i) = Some 0"

end
