(* ===== verification/X86_Io.thy ===== *)
theory X86_Io
  imports X86_Cpu
begin

text \<open>
  The state of the instruction emulator and its handlers for memory and ports
  (\<open>EmuX86_IORead\<close> to \<open>EmuX86_Write\<close> of \<open>src/devices/x86/EmuX86.cpp\<close>). A guest address that
  faulted is never read as memory: it is flash, the APU clock or a device behind the PCI bus.
\<close>

section \<open>Decoded instructions\<close>

text \<open>The operand kinds and the members of distorm's \<open>_DInst\<close> that the emulator reads.\<close>

datatype op_type = O_NONE | O_REG | O_IMM | O_IMM1 | O_IMM2 | O_DISP | O_SMEM | O_MEM | O_PC | O_PTR

text \<open>The mnemonics that the emulator's \<open>switch\<close> names; every other one is \<open>I_OTHER\<close>. The
  conditional jumps \<open>I_JA\<close> to \<open>I_JZ\<close> are \<open>I_J C_A\<close> to \<open>I_J C_Z\<close>, and \<open>I_SETA\<close> to \<open>I_SETZ\<close> are
  \<open>I_SET C_A\<close> to \<open>I_SET C_Z\<close>.\<close>

datatype x86_cond =
    C_A | C_AE | C_B | C_BE | C_G | C_GE | C_L | C_LE | C_NO | C_NP | C_NS | C_NZ | C_O | C_P | C_S | C_Z

datatype x86_opcode =
    I_ADD | I_AND | I_CALL | I_CDQ | I_CLI | I_CMP | I_CMPXCHG | I_CPUID | I_DEC | I_IN | I_INC
  | I_INVD | I_INVLPG | I_J x86_cond | I_JCXZ | I_JECXZ | I_JMP | I_JMP_FAR | I_LEA | I_LEAVE
  | I_LFENCE | I_MFENCE | I_MOV | I_MOVSX | I_MOVZX | I_NEG | I_NOP | I_NOT | I_OR | I_OUT | I_POP
  | I_PUSH | I_RDTSC | I_RET | I_SAR | I_SBB | I_SET x86_cond | I_SFENCE | I_SHL | I_SHR | I_STI
  | I_STOS | I_SUB | I_TEST | I_WBINVD | I_WRMSR | I_XOR
  | I_OTHER nat

record x86_operand =
  op_kind :: op_type
  op_index :: x86_reg
  op_bits :: nat

record dinst =
  di_opcode :: x86_opcode
  di_ops :: "nat \<Rightarrow> x86_operand"
  di_size :: u8
  di_flags :: u16
  di_disp :: u64
  di_dispSize :: nat
  di_scale :: u8
  di_base :: x86_reg
  di_addr :: u32
  imm_dword :: u32
  imm_ex_i1 :: u32
  imm_ex_i2 :: u32
  imm_addr :: u32
  imm_ptr_off :: u32

text \<open>\<open>INSTRUCTION_GET_TARGET\<close> of distorm, converted to a 32-bit address.\<close>

definition INSTRUCTION_GET_TARGET :: "dinst \<Rightarrow> u32" where
  "INSTRUCTION_GET_TARGET info = imm_addr info + di_addr info + ucast (di_size info)"

section \<open>State and environment\<close>

record ('p, 'w) x86 =
  ContextRecord :: CONTEXT
  g_MemoryBackedRegisters :: "x86_reg \<rightharpoonup> u32"
  xbox_mem :: mem
  g_bEnableAllInterrupts :: bool
  field_pin :: u32
  g_PCIBus :: "('p, 'w) pci_bus"

text \<open>
  The parameters: the virtual functions of the devices, the Chihiro flag and the LPC handlers of
  the media board, the two clocks, the time-stamp counter, the host thread's flags, the bits that
  the processor leaves undefined after an operation on two operands, the numeric value of a host
  pointer, and the decoder, which sees the address and the memory.
\<close>

record ('p, 'w) x86_env =
  pci_vt :: "('p, 'w) pci_vtbl"
  g_bIsChihiro :: bool
  LpcRead :: "u32 \<Rightarrow> nat \<Rightarrow> (u32, 'w) run"
  LpcWrite :: "u32 \<Rightarrow> u32 \<Rightarrow> nat \<Rightarrow> (unit, 'w) run"
  performanceCount :: u64
  APUTime :: u32
  tsc_counter :: u64
  host_eflags :: u32
  undef_bits :: "u32 \<Rightarrow> u32 \<Rightarrow> u32"
  host_addr :: "hptr \<Rightarrow> u32"
  distorm_decompose :: "u32 \<Rightarrow> mem \<Rightarrow> dinst option"

definition on_bus :: "('a, ('p, 'w) pci_bus) run \<Rightarrow> ('a, ('p, 'w) x86) run" where
  "on_bus m s = (case m (g_PCIBus s) of Inl e \<Rightarrow> Inl e | Inr (a, b) \<Rightarrow> Inr (a, s\<lparr>g_PCIBus := b\<rparr>))"

lemma on_bus_Inr_iff:
  "on_bus m s = Inr (a, t) \<longleftrightarrow> (\<exists>b. m (g_PCIBus s) = Inr (a, b) \<and> t = s\<lparr>g_PCIBus := b\<rparr>)"
  by (auto simp: on_bus_def split: sum.splits)

section \<open>Port and memory handlers\<close>

abbreviation (input) FLASH_DEVICE1_BASE :: u32 where "FLASH_DEVICE1_BASE \<equiv> 0xFF000000"

definition EmuX86_IORead ::
  "('p, 'w) x86_env \<Rightarrow> u32 \<Rightarrow> nat \<Rightarrow> (u32, ('p, 'w) x86) run" where
  "EmuX86_IORead env addr n =
     (if g_bIsChihiro env \<and> addr \<ge> 0x4000 \<and> addr \<le> 0x40FF then on_bus (on_world (LpcRead env addr n))
      else if addr = 0x8008 \<and> n = 4 then ret (ucast (performanceCount env))
      else if addr = 0x80C0 \<and> n = 1 then
        bnd (modify (\<lambda>s. s\<lparr>field_pin := (field_pin s + 1) AND 1\<rparr>)) (\<lambda>_.
        get (\<lambda>s. push_bit 5 (field_pin s)))
      else bnd (on_bus (bus_IORead (pci_vt env) addr n)) (\<lambda>r. ret (case r of Some v \<Rightarrow> v | None \<Rightarrow> 0)))"

definition EmuX86_IOWrite ::
  "('p, 'w) x86_env \<Rightarrow> u32 \<Rightarrow> u32 \<Rightarrow> nat \<Rightarrow> (unit, ('p, 'w) x86) run" where
  "EmuX86_IOWrite env addr v n =
     (if g_bIsChihiro env \<and> addr \<ge> 0x4000 \<and> addr \<le> 0x40FF then on_bus (on_world (LpcWrite env addr v n))
      else bnd (on_bus (bus_IOWrite (pci_vt env) addr v n)) (\<lambda>_. ret ()))"

text \<open>\<open>EmuX86_Mem_Read\<close> and \<open>EmuX86_Mem_Write\<close> on guest addresses; \<open>X86_Operand\<close> has the case
  of a host pointer.\<close>

definition EmuX86_Mem_Read :: "u32 \<Rightarrow> nat \<Rightarrow> (u32, ('p, 'w) x86) run" where
  "EmuX86_Mem_Read addr n =
     (if n = 4 then get (\<lambda>s. rd32 (xbox_mem s) addr)
      else if n = 2 then get (\<lambda>s. rd16 (xbox_mem s) addr)
      else if n = 1 then get (\<lambda>s. rd8 (xbox_mem s) addr)
      else fail AssertFailed)"

definition EmuX86_Mem_Write :: "u32 \<Rightarrow> u32 \<Rightarrow> nat \<Rightarrow> (unit, ('p, 'w) x86) run" where
  "EmuX86_Mem_Write addr v n =
     (if n = 4 then modify (\<lambda>s. s\<lparr>xbox_mem := wr32 addr v (xbox_mem s)\<rparr>)
      else if n = 2 then modify (\<lambda>s. s\<lparr>xbox_mem := wr16 addr v (xbox_mem s)\<rparr>)
      else if n = 1 then modify (\<lambda>s. s\<lparr>xbox_mem := wr8 addr v (xbox_mem s)\<rparr>)
      else fail AssertFailed)"

definition EmuFlash_Read32 :: "u32 \<Rightarrow> u32" where
  "EmuFlash_Read32 addr = (if addr = 0x08 then 0x2B16D065 else if addr = 0x78 then 0x90 else - 1)"

definition EmuX86_Read :: "('p, 'w) x86_env \<Rightarrow> u32 \<Rightarrow> nat \<Rightarrow> (u32, ('p, 'w) x86) run" where
  "EmuX86_Read env addr n =
     (if addr AND (of_nat n - 1) \<noteq> 0 then ret 0
      else if addr \<ge> FLASH_DEVICE1_BASE then ret (EmuFlash_Read32 ((addr - FLASH_DEVICE1_BASE) mod 0x40000))
      else if addr = 0xFE80200C then ret (APUTime env)
      else bnd (on_bus (bus_MMIORead (pci_vt env) addr n)) (\<lambda>r. ret (case r of Some v \<Rightarrow> v | None \<Rightarrow> 0)))"

definition EmuX86_Write :: "('p, 'w) x86_env \<Rightarrow> u32 \<Rightarrow> u32 \<Rightarrow> nat \<Rightarrow> (unit, ('p, 'w) x86) run" where
  "EmuX86_Write env addr v n =
     (if addr AND (of_nat n - 1) \<noteq> 0 then ret ()
      else if addr \<ge> FLASH_DEVICE1_BASE then ret ()
      else bnd (on_bus (bus_MMIOWrite (pci_vt env) addr v n)) (\<lambda>_. ret ()))"

section \<open>What the handlers leave alone\<close>

text \<open>Only the bus (and the field pin) can change in a handler: the processor's own state is the
  instruction's business.\<close>

definition same_cpu :: "('p, 'w) x86 \<Rightarrow> ('p, 'w) x86 \<Rightarrow> bool" where
  "same_cpu s t \<longleftrightarrow> ContextRecord t = ContextRecord s \<and> xbox_mem t = xbox_mem s
     \<and> g_MemoryBackedRegisters t = g_MemoryBackedRegisters s
     \<and> g_bEnableAllInterrupts t = g_bEnableAllInterrupts s"

lemma same_cpu_refl [simp]: "same_cpu s s"
  by (simp add: same_cpu_def)

lemma same_cpu_trans: "same_cpu s t \<Longrightarrow> same_cpu t u \<Longrightarrow> same_cpu s u"
  by (simp add: same_cpu_def)

lemma EmuX86_Read_cpu: "EmuX86_Read env a n s = Inr (v, t) \<Longrightarrow> same_cpu s t"
  by (auto simp: EmuX86_Read_def same_cpu_def bnd_eq_Inr_iff on_bus_Inr_iff split: if_splits)

lemma EmuX86_Write_cpu: "EmuX86_Write env a v n s = Inr (u, t) \<Longrightarrow> same_cpu s t"
  by (auto simp: EmuX86_Write_def same_cpu_def bnd_eq_Inr_iff on_bus_Inr_iff split: if_splits)

lemma EmuX86_IORead_cpu: "EmuX86_IORead env a n s = Inr (v, t) \<Longrightarrow> same_cpu s t"
  by (auto simp: EmuX86_IORead_def same_cpu_def bnd_eq_Inr_iff on_bus_Inr_iff split: if_splits)

lemma EmuX86_IOWrite_cpu: "EmuX86_IOWrite env a v n s = Inr (u, t) \<Longrightarrow> same_cpu s t"
  by (auto simp: EmuX86_IOWrite_def same_cpu_def bnd_eq_Inr_iff on_bus_Inr_iff split: if_splits)

end
