(* ===== verification/X86_Operand.thy ===== *)
theory X86_Operand
  imports X86_Io
begin

text \<open>
  Operands of a decoded instruction: their addresses, and reading and writing through them
  (\<open>EmuX86_GetRegisterPointer\<close> to \<open>EmuX86_Operand_Write\<close> of \<open>src/devices/x86/EmuX86.cpp\<close>).
\<close>

named_theorems operand_simps \<open>evaluation of operand accesses\<close>

section \<open>Internal pointers\<close>

text \<open>The bytes \<open>k\<close> to \<open>k + n - 1\<close> of a 32-bit cell, read and written as an integer of \<open>n\<close> bytes.\<close>

definition cell_read :: "u32 \<Rightarrow> nat \<Rightarrow> nat \<Rightarrow> u32" where
  "cell_read v k n = take_bit (8 * n) (drop_bit (8 * k) v)"

definition cell_write :: "u32 \<Rightarrow> nat \<Rightarrow> nat \<Rightarrow> u32 \<Rightarrow> u32" where
  "cell_write old k n v = (old AND NOT (push_bit (8 * k) (mask (8 * n)))) OR push_bit (8 * k) (take_bit (8 * n) v)"

lemma cell_read_write [simp]: "k + n \<le> 4 \<Longrightarrow> cell_read (cell_write old k n v) k n = take_bit (8 * n) v"
  by (rule bit_word_eqI) (auto simp: cell_read_def cell_write_def bit_simps)

lemma cell_write_outside:
  assumes "k' + n' \<le> k \<or> k + n \<le> k'" and "k' + n' \<le> 4"
  shows "cell_read (cell_write old k n v) k' n' = cell_read old k' n'"
  by (rule bit_word_eqI) (use assms in \<open>auto simp: cell_read_def cell_write_def bit_simps\<close>)

lemma cell_full [simp]: "cell_read v 0 4 = v" "cell_write old 0 4 v = v"
  by (rule bit_word_eqI, auto simp: cell_read_def cell_write_def bit_simps)+

fun ext_read :: "(nat \<Rightarrow> u8) \<Rightarrow> nat \<Rightarrow> nat \<Rightarrow> u32" where
  "ext_read m k 0 = 0"
| "ext_read m k (Suc n) = ucast (m k) OR push_bit 8 (ext_read m (k + 1) n)"

fun ext_write :: "(nat \<Rightarrow> u8) \<Rightarrow> nat \<Rightarrow> nat \<Rightarrow> u32 \<Rightarrow> nat \<Rightarrow> u8" where
  "ext_write m k 0 v = m"
| "ext_write m k (Suc n) v = (ext_write m (k + 1) n (drop_bit 8 v))(k := ucast v)"

definition EmuX86_GetRegisterPointer :: "x86_reg \<Rightarrow> (hptr, ('p, 'w) x86) run" where
  "EmuX86_GetRegisterPointer reg s =
     (case ContextRecordOffsetByRegisterType reg of
        Some p \<Rightarrow> Inr (p, s)
      | None \<Rightarrow> if g_MemoryBackedRegisters s reg \<noteq> None then Inr (P_Map reg, s) else Inl AssertFailed)"

text \<open>\<open>EmuX86_Mem_Read\<close> and \<open>EmuX86_Mem_Write\<close> on a host pointer. The sizes that an operand
  address of a register can have stay inside the member; immediates are never written.\<close>

definition host_read :: "dinst \<Rightarrow> hptr \<Rightarrow> nat \<Rightarrow> (u32, ('p, 'w) x86) run" where
  "host_read info p n s =
     (if n \<noteq> 1 \<and> n \<noteq> 2 \<and> n \<noteq> 4 then Inl AssertFailed else
      case p of
        P_Ctx f k \<Rightarrow> if k + n \<le> 4 then Inr (cell_read (ctx_get f (ContextRecord s)) k n, s) else Inl OutOfBounds
      | P_Ext k \<Rightarrow> Inr (ext_read (ExtendedRegisters (ContextRecord s)) k n, s)
      | P_Map r \<Rightarrow> (case g_MemoryBackedRegisters s r of
            Some v \<Rightarrow> Inr (cell_read v 0 n, s) | None \<Rightarrow> Inl OutOfBounds)
      | P_Imm \<Rightarrow> Inr (cell_read (imm_dword info) 0 n, s)
      | P_Imm1 \<Rightarrow> Inr (cell_read (imm_ex_i1 info) 0 n, s)
      | P_Imm2 \<Rightarrow> Inr (cell_read (imm_ex_i2 info) 0 n, s))"

definition set_ctx :: "(CONTEXT \<Rightarrow> CONTEXT) \<Rightarrow> ('p, 'w) x86 \<Rightarrow> ('p, 'w) x86" where
  "set_ctx f s = s\<lparr>ContextRecord := f (ContextRecord s)\<rparr>"

definition host_write :: "hptr \<Rightarrow> u32 \<Rightarrow> nat \<Rightarrow> (unit, ('p, 'w) x86) run" where
  "host_write p v n s =
     (if n \<noteq> 1 \<and> n \<noteq> 2 \<and> n \<noteq> 4 then Inl AssertFailed else
      case p of
        P_Ctx f k \<Rightarrow> if k + n \<le> 4
          then Inr ((), set_ctx (\<lambda>c. ctx_put f (cell_write (ctx_get f c) k n v) c) s) else Inl OutOfBounds
      | P_Ext k \<Rightarrow> Inr ((), set_ctx (\<lambda>c. c\<lparr>ExtendedRegisters := ext_write (ExtendedRegisters c) k n v\<rparr>) s)
      | P_Map r \<Rightarrow> (case g_MemoryBackedRegisters s r of
            Some old \<Rightarrow> Inr ((), s\<lparr>g_MemoryBackedRegisters := (g_MemoryBackedRegisters s)(r \<mapsto> cell_write old 0 n v)\<rparr>)
          | None \<Rightarrow> Inl OutOfBounds)
      | _ \<Rightarrow> Inl AssertFailed)"

definition EmuX86_GetRegisterValue32 :: "dinst \<Rightarrow> x86_reg \<Rightarrow> (u32, ('p, 'w) x86) run" where
  "EmuX86_GetRegisterValue32 info reg =
     (if reg = R_NONE then ret 0
      else bnd (check (EmuX86_DistormRegSize reg = Some 4)) (\<lambda>_.
           bnd (EmuX86_GetRegisterPointer reg) (\<lambda>p. host_read info p 4)))"

section \<open>Operand addresses\<close>

text \<open>The debug build checks that the displacement is sign-extended from its size.\<close>

definition disp_ok :: "dinst \<Rightarrow> bool" where
  "disp_ok info = (let d = di_disp info; n = di_dispSize info in
     if n = 0 then d = 0
     else if n = 8 then (if d AND 0x80 \<noteq> 0 then d AND 0xFFFFFF80 = 0xFFFFFF80 else d < 0x80)
     else if n = 16 then (if d AND 0x8000 \<noteq> 0 then d AND 0xFFFF8000 = 0xFFFF8000 else d < 0x8000)
     else n = 32)"

definition EmuX86_Distorm_read_disp :: "dinst \<Rightarrow> (u32, ('p, 'w) x86) run" where
  "EmuX86_Distorm_read_disp info = bnd (check (disp_ok info)) (\<lambda>_. ret (ucast (di_disp info)))"

text \<open>An operand address: a host pointer (\<open>is_internal_addr\<close>) or a guest address.\<close>

datatype op_place = Internal hptr | External u32

record op_addr =
  oa_place :: op_place
  oa_size :: nat

definition addr_value :: "('p, 'w) x86_env \<Rightarrow> op_addr \<Rightarrow> u32" where
  "addr_value env a = (case oa_place a of Internal p \<Rightarrow> host_addr env p | External x \<Rightarrow> x)"

text \<open>\<open>None\<close> is the result \<open>false\<close>.\<close>

definition EmuX86_Operand_Addr_ForReadOnly ::
  "dinst \<Rightarrow> nat \<Rightarrow> (op_addr option, ('p, 'w) x86) run" where
  "EmuX86_Operand_Addr_ForReadOnly info operand =
    (let opr = di_ops info operand; n = op_bits opr div 8;
         internal = (\<lambda>p. ret (Some \<lparr>oa_place = Internal p, oa_size = n\<rparr>));
         external = (\<lambda>x. ret (Some \<lparr>oa_place = External x, oa_size = n\<rparr>));
         imm = (\<lambda>p. bnd (check (n = 1 \<or> n = 2 \<or> n = 4)) (\<lambda>_. internal p)) in
     case op_kind opr of
       O_NONE \<Rightarrow> bnd (check (n = 0)) (\<lambda>_. ret None)
     | O_REG \<Rightarrow> bnd (check (EmuX86_DistormRegSize (op_index opr) = Some n)) (\<lambda>_.
                bnd (EmuX86_GetRegisterPointer (op_index opr)) internal)
     | O_IMM \<Rightarrow> imm P_Imm
     | O_IMM1 \<Rightarrow> imm P_Imm1
     | O_IMM2 \<Rightarrow> imm P_Imm2
     | O_DISP \<Rightarrow> bnd (EmuX86_Distorm_read_disp info) external
     | O_SMEM \<Rightarrow> bnd (check (n = 0 \<or> n = 1 \<or> n = 2 \<or> n = 4)) (\<lambda>_.
                 bnd (EmuX86_GetRegisterValue32 info (op_index opr)) (\<lambda>r.
                 bnd (EmuX86_Distorm_read_disp info) (\<lambda>d. external (r + d))))
     | O_MEM \<Rightarrow> bnd (check (n = 0 \<or> n = 1 \<or> n = 2 \<or> n = 4)) (\<lambda>_.
                bnd (check (di_scale info < 3 \<or> di_scale info = 4 \<or> di_scale info = 8)) (\<lambda>_.
                bnd (EmuX86_GetRegisterValue32 info (op_index opr)) (\<lambda>i.
                bnd (EmuX86_GetRegisterValue32 info (di_base info)) (\<lambda>b.
                bnd (EmuX86_Distorm_read_disp info) (\<lambda>d.
                external (b + (if di_scale info \<ge> 2 then i * ucast (di_scale info) else i) + d))))))
     | O_PC \<Rightarrow> bnd (check (n = 1 \<or> n = 4)) (\<lambda>_.
               bnd (get (\<lambda>s. Eip (ContextRecord s))) (\<lambda>ip. external (ip + INSTRUCTION_GET_TARGET info)))
     | O_PTR \<Rightarrow> bnd (check (n = 0)) (\<lambda>_. external (imm_ptr_off info)))"

definition EmuX86_Operand_Addr_ForReadWrite ::
  "dinst \<Rightarrow> nat \<Rightarrow> (op_addr option, ('p, 'w) x86) run" where
  "EmuX86_Operand_Addr_ForReadWrite info operand =
     (if op_kind (di_ops info operand) = O_IMM \<or> op_kind (di_ops info operand) = O_IMM1
        \<or> op_kind (di_ops info operand) = O_IMM2
      then fail AssertFailed else EmuX86_Operand_Addr_ForReadOnly info operand)"

definition EmuX86_Addr_Read ::
  "('p, 'w) x86_env \<Rightarrow> dinst \<Rightarrow> op_addr \<Rightarrow> (u32, ('p, 'w) x86) run" where
  "EmuX86_Addr_Read env info a =
     bnd (check (oa_size a = 1 \<or> oa_size a = 2 \<or> oa_size a = 4)) (\<lambda>_.
     case oa_place a of
       Internal p \<Rightarrow> host_read info p (oa_size a)
     | External x \<Rightarrow> EmuX86_Read env x (oa_size a))"

definition EmuX86_Addr_Write ::
  "('p, 'w) x86_env \<Rightarrow> op_addr \<Rightarrow> u32 \<Rightarrow> (unit, ('p, 'w) x86) run" where
  "EmuX86_Addr_Write env a v =
     bnd (check (oa_size a = 1 \<or> oa_size a = 2 \<or> oa_size a = 4)) (\<lambda>_.
     case oa_place a of
       Internal p \<Rightarrow> host_write p v (oa_size a)
     | External x \<Rightarrow> EmuX86_Write env x v (oa_size a))"

definition EmuX86_Operand_Read ::
  "('p, 'w) x86_env \<Rightarrow> dinst \<Rightarrow> nat \<Rightarrow> (u32 option, ('p, 'w) x86) run" where
  "EmuX86_Operand_Read env info operand =
     bnd (EmuX86_Operand_Addr_ForReadOnly info operand) (\<lambda>r.
     case r of Some a \<Rightarrow> bnd (EmuX86_Addr_Read env info a) (\<lambda>v. ret (Some v)) | None \<Rightarrow> ret None)"

definition EmuX86_Operand_Write ::
  "('p, 'w) x86_env \<Rightarrow> dinst \<Rightarrow> nat \<Rightarrow> u32 \<Rightarrow> (bool, ('p, 'w) x86) run" where
  "EmuX86_Operand_Write env info operand v =
     bnd (EmuX86_Operand_Addr_ForReadWrite info operand) (\<lambda>r.
     case r of Some a \<Rightarrow> bnd (EmuX86_Addr_Write env a v) (\<lambda>_. ret True) | None \<Rightarrow> ret False)"

section \<open>Register operands\<close>

text \<open>The member that a register name denotes lies inside its 32-bit cell.\<close>

lemma reg_slot:
  assumes "ContextRecordOffsetByRegisterType r = Some (P_Ctx f k)"
  shows "\<exists>n. EmuX86_DistormRegSize r = Some n \<and> k + n \<le> 4 \<and> (n = 1 \<or> n = 2 \<or> n = 4)"
  using assms by (cases r) auto

text \<open>\<open>reg_at r f k n\<close>: register \<open>r\<close> is the \<open>n\<close> bytes from byte \<open>k\<close> of member \<open>f\<close>.\<close>

definition reg_at :: "x86_reg \<Rightarrow> ctx_field \<Rightarrow> nat \<Rightarrow> nat \<Rightarrow> bool" where
  "reg_at r f k n \<longleftrightarrow> ContextRecordOffsetByRegisterType r = Some (P_Ctx f k) \<and> EmuX86_DistormRegSize r = Some n"

definition reg_value :: "ctx_field \<Rightarrow> nat \<Rightarrow> nat \<Rightarrow> ('p, 'w) x86 \<Rightarrow> u32" where
  "reg_value f k n s = cell_read (ctx_get f (ContextRecord s)) k n"

definition reg_update :: "ctx_field \<Rightarrow> nat \<Rightarrow> nat \<Rightarrow> u32 \<Rightarrow> ('p, 'w) x86 \<Rightarrow> ('p, 'w) x86" where
  "reg_update f k n v = set_ctx (\<lambda>c. ctx_put f (cell_write (ctx_get f c) k n v) c)"

lemma reg_at_size: "reg_at r f k n \<Longrightarrow> k + n \<le> 4 \<and> (n = 1 \<or> n = 2 \<or> n = 4)"
  using reg_slot by (fastforce simp: reg_at_def)

definition reg_operand :: "dinst \<Rightarrow> nat \<Rightarrow> x86_reg \<Rightarrow> nat \<Rightarrow> bool" where
  "reg_operand info i r n \<longleftrightarrow> op_kind (di_ops info i) = O_REG \<and> op_index (di_ops info i) = r
     \<and> op_bits (di_ops info i) = 8 * n"

lemma reg_operand_addr:
  assumes "reg_operand info i r n" and "reg_at r f k n"
  shows "EmuX86_Operand_Addr_ForReadOnly info i s = Inr (Some \<lparr>oa_place = Internal (P_Ctx f k), oa_size = n\<rparr>, s)"
    and "EmuX86_Operand_Addr_ForReadWrite info i s = Inr (Some \<lparr>oa_place = Internal (P_Ctx f k), oa_size = n\<rparr>, s)"
  using assms by (simp_all add: EmuX86_Operand_Addr_ForReadWrite_def EmuX86_Operand_Addr_ForReadOnly_def
      reg_operand_def reg_at_def EmuX86_GetRegisterPointer_def Let_def run_simps)

lemma reg_addr_access [operand_simps]:
  assumes "reg_at r f k n"
  shows "EmuX86_Addr_Read env info \<lparr>oa_place = Internal (P_Ctx f k), oa_size = n\<rparr> s = Inr (reg_value f k n s, s)"
    and "EmuX86_Addr_Write env \<lparr>oa_place = Internal (P_Ctx f k), oa_size = n\<rparr> v s = Inr ((), reg_update f k n v s)"
  using reg_at_size [OF assms]
  by (auto simp: EmuX86_Addr_Read_def EmuX86_Addr_Write_def host_read_def host_write_def reg_value_def
      reg_update_def run_simps)

lemma reg_operand_access:
  assumes "reg_operand info i r n" and "reg_at r f k n"
  shows "EmuX86_Operand_Read env info i s = Inr (Some (reg_value f k n s), s)"
    and "EmuX86_Operand_Write env info i v s = Inr (True, reg_update f k n v s)"
  by (simp_all add: EmuX86_Operand_Read_def EmuX86_Operand_Write_def run_simps
      reg_addr_access [OF assms(2)] reg_operand_addr [OF assms])

lemma reg_value_update_same [simp]:
  "k + n \<le> 4 \<Longrightarrow> reg_value f k n (reg_update f k n v s) = take_bit (8 * n) v"
  by (simp add: reg_value_def reg_update_def set_ctx_def)

text \<open>Two names overlap when they share a byte of a member.\<close>

definition reg_disjoint :: "ctx_field \<Rightarrow> nat \<Rightarrow> nat \<Rightarrow> ctx_field \<Rightarrow> nat \<Rightarrow> nat \<Rightarrow> bool" where
  "reg_disjoint f k n g j m \<longleftrightarrow> f \<noteq> g \<or> k + n \<le> j \<or> j + m \<le> k"

lemma reg_value_update_other:
  assumes "reg_disjoint f k n g j m" and "j + m \<le> 4"
  shows "reg_value g j m (reg_update f k n v s) = reg_value g j m s"
  using assms cell_write_outside [of j m k n]
  by (cases "f = g") (auto simp: reg_value_def reg_update_def set_ctx_def reg_disjoint_def)

text \<open>Immediate operands.\<close>

lemma imm_operand_access:
  assumes "op_kind (di_ops info i) = O_IMM" and "op_bits (di_ops info i) = 8 * n" and "n = 1 \<or> n = 2 \<or> n = 4"
  shows "EmuX86_Operand_Read env info i s = Inr (Some (take_bit (8 * n) (imm_dword info)), s)"
  using assms by (auto simp: EmuX86_Operand_Read_def EmuX86_Operand_Addr_ForReadOnly_def Let_def
      EmuX86_Addr_Read_def host_read_def cell_read_def run_simps)

end
