(* ===== verification/X86_Alu.thy ===== *)
theory X86_Alu
  imports X86_Io
begin

text \<open>
  The inline assembly of the opcode handlers of \<open>src/devices/x86/EmuX86.cpp\<close> (load the guest's
  flags, do one 32-bit operation on the host, store the host's flags), the flag macros that \<open>NEG\<close>
  uses, and the conditions of the jumps and \<open>SETcc\<close>.

  The host runs in user mode: \<open>popfd\<close> changes only the unprivileged flags, \<open>pushfd\<close> stores an
  image without RF and VM. Flag bits that the processor documents as undefined come from the
  parameter \<open>undef_bits\<close>.
\<close>

section \<open>Flags\<close>

abbreviation (input) EFLAG_CF :: nat where "EFLAG_CF \<equiv> 0"
abbreviation (input) EFLAG_PF :: nat where "EFLAG_PF \<equiv> 2"
abbreviation (input) EFLAG_AF :: nat where "EFLAG_AF \<equiv> 4"
abbreviation (input) EFLAG_ZF :: nat where "EFLAG_ZF \<equiv> 6"
abbreviation (input) EFLAG_SF :: nat where "EFLAG_SF \<equiv> 7"
abbreviation (input) EFLAG_DF :: nat where "EFLAG_DF \<equiv> 10"
abbreviation (input) EFLAG_OF :: nat where "EFLAG_OF \<equiv> 11"

definition put_flag :: "nat \<Rightarrow> bool \<Rightarrow> u32 \<Rightarrow> u32" where
  "put_flag i b w = (if b then set_bit i w else unset_bit i w)"

lemma bit_put_flag: "bit (put_flag i b w) n \<longleftrightarrow> (if n = i then b \<and> n < 32 else bit w n)"
  by (auto simp: put_flag_def bit_simps dest: bit_imp_le_length)

definition EmuX86_HasFlag :: "u32 \<Rightarrow> nat \<Rightarrow> bool" where
  "EmuX86_HasFlag eflags i \<longleftrightarrow> eflags AND push_bit i 1 \<noteq> 0"

lemma HasFlag_bit: "EmuX86_HasFlag e i \<longleftrightarrow> bit e i"
  unfolding EmuX86_HasFlag_def push_bit_of_1 by (simp add: and_exp_eq_0_iff_not_bit)

lemma HasFlag_put [simp]: "EmuX86_HasFlag (put_flag i b e) j \<longleftrightarrow> (if j = i then b \<and> j < 32 else EmuX86_HasFlag e j)"
  by (simp add: HasFlag_bit bit_put_flag)

text \<open>The masked merge of \<open>EmuX86_SetFlags\<close>.\<close>

definition EmuX86_SetFlags :: "u32 \<Rightarrow> u32 \<Rightarrow> u32 \<Rightarrow> u32" where
  "EmuX86_SetFlags fmask v eflags = eflags XOR ((eflags XOR v) AND fmask)"

lemma bit_SetFlags: "bit (EmuX86_SetFlags fmask v e) n \<longleftrightarrow> (if bit fmask n then bit v n else bit e n)"
  by (auto simp: EmuX86_SetFlags_def bit_simps)

definition flag_bit :: "nat \<Rightarrow> bool \<Rightarrow> u32" where
  "flag_bit i b = push_bit i (of_bool b)"

definition EmuX86_SetFlags_OSZAPC :: "bool \<Rightarrow> bool \<Rightarrow> bool \<Rightarrow> bool \<Rightarrow> bool \<Rightarrow> bool \<Rightarrow> u32 \<Rightarrow> u32" where
  "EmuX86_SetFlags_OSZAPC ofl sfl zfl afl pfl cfl =
     EmuX86_SetFlags
       (flag_bit EFLAG_OF True OR flag_bit EFLAG_SF True OR flag_bit EFLAG_ZF True
        OR flag_bit EFLAG_AF True OR flag_bit EFLAG_PF True OR flag_bit EFLAG_CF True)
       (flag_bit EFLAG_OF ofl OR flag_bit EFLAG_SF sfl OR flag_bit EFLAG_ZF zfl
        OR flag_bit EFLAG_AF afl OR flag_bit EFLAG_PF pfl OR flag_bit EFLAG_CF cfl)"

lemma bit_flag_bit: "bit (flag_bit i b) n \<longleftrightarrow> n = i \<and> b \<and> n < 32"
  by (auto simp: flag_bit_def bit_simps bit_1_iff)

lemma OSZAPC_flags:
  "bit (EmuX86_SetFlags_OSZAPC ofl sfl zfl afl pfl cfl e) n \<longleftrightarrow>
     (if n = 11 then ofl else if n = 7 then sfl else if n = 6 then zfl else if n = 4 then afl
      else if n = 2 then pfl else if n = 0 then cfl else bit e n)"
  by (auto simp: EmuX86_SetFlags_OSZAPC_def bit_SetFlags bit_flag_bit bit_or_iff)

section \<open>Host operations\<close>

abbreviation (input) USER_FLAGS :: u32 where "USER_FLAGS \<equiv> 0x244DD5"

definition popfd :: "('p, 'w) x86_env \<Rightarrow> u32 \<Rightarrow> u32" where
  "popfd env e = (e AND USER_FLAGS) OR (host_eflags env AND NOT USER_FLAGS)"

definition pushfd :: "u32 \<Rightarrow> u32" where
  "pushfd e = e AND 0xFCFFFF"

text \<open>Parity of the low byte; zero and sign of a 32-bit result.\<close>

definition parity_even :: "u32 \<Rightarrow> bool" where
  "parity_even r \<longleftrightarrow> even (length (filter (bit r) [0..<8]))"

definition result_flags :: "u32 \<Rightarrow> u32 \<Rightarrow> u32" where
  "result_flags r e = put_flag EFLAG_SF (bit r 31) (put_flag EFLAG_ZF (r = 0) (put_flag EFLAG_PF (parity_even r) e))"

text \<open>Carry, overflow and adjust on top of the result flags.\<close>

definition arith_flags :: "bool \<Rightarrow> bool \<Rightarrow> bool \<Rightarrow> u32 \<Rightarrow> u32 \<Rightarrow> u32" where
  "arith_flags cf ofl af r e = put_flag EFLAG_CF cf (put_flag EFLAG_OF ofl (put_flag EFLAG_AF af (result_flags r e)))"

text \<open>Each operation maps the flags before and the operands to the result and the flags after.\<close>

type_synonym alu_op = "u32 \<Rightarrow> u32 \<Rightarrow> u32 \<Rightarrow> u32 \<times> u32"

definition add_op :: alu_op where
  "add_op e d s = (let r = d + s in
     (r, arith_flags (r < d) (bit d 31 = bit s 31 \<and> bit r 31 \<noteq> bit d 31) (bit (d XOR s XOR r) 4) r e))"

definition sub_op :: alu_op where
  "sub_op e d s = (let r = d - s in
     (r, arith_flags (d < s) (bit d 31 \<noteq> bit s 31 \<and> bit r 31 \<noteq> bit d 31) (bit (d XOR s XOR r) 4) r e))"

definition sbb_op :: alu_op where
  "sbb_op e d s = (let c = of_bool (EmuX86_HasFlag e EFLAG_CF); r = d - s - c in
     (r, arith_flags (unat d < unat s + unat c) (bit d 31 \<noteq> bit s 31 \<and> bit r 31 \<noteq> bit d 31)
           (bit (d XOR s XOR r) 4) r e))"

definition inc_op :: "u32 \<Rightarrow> u32 \<Rightarrow> u32 \<times> u32" where
  "inc_op e d = (let r = d + 1 in
     (r, arith_flags (EmuX86_HasFlag e EFLAG_CF) (r = 0x80000000) (bit (d XOR 1 XOR r) 4) r e))"

definition dec_op :: "u32 \<Rightarrow> u32 \<Rightarrow> u32 \<times> u32" where
  "dec_op e d = (let r = d - 1 in
     (r, arith_flags (EmuX86_HasFlag e EFLAG_CF) (r = 0x7FFFFFFF) (bit (d XOR 1 XOR r) 4) r e))"

text \<open>Logical operations clear CF and OF and leave AF undefined.\<close>

definition logic_op :: "(u32 \<Rightarrow> u32 \<Rightarrow> u32) \<Rightarrow> (u32 \<Rightarrow> u32 \<Rightarrow> u32) \<Rightarrow> alu_op" where
  "logic_op undef f e d s = (let r = f d s in (r, arith_flags False False (bit (undef d s) EFLAG_AF) r e))"

text \<open>Shifts take the count modulo 32; a zero count changes nothing, and OF is defined for a
  count of one only.\<close>

definition shift_op :: "(u32 \<Rightarrow> u32 \<Rightarrow> u32) \<Rightarrow> (u32 \<Rightarrow> nat \<Rightarrow> u32) \<Rightarrow> (u32 \<Rightarrow> nat \<Rightarrow> bool) \<Rightarrow> (u32 \<Rightarrow> u32 \<Rightarrow> bool) \<Rightarrow> alu_op" where
  "shift_op undef sh carry ofl e d s =
     (let n = unat (take_bit 5 s); r = sh d n in
      if n = 0 then (d, e)
      else (r, arith_flags (carry d n) (if n = 1 then ofl d r else bit (undef d s) EFLAG_OF)
                 (bit (undef d s) EFLAG_AF) r e))"

definition shl_op :: "(u32 \<Rightarrow> u32 \<Rightarrow> u32) \<Rightarrow> alu_op" where
  "shl_op undef = shift_op undef (\<lambda>d n. push_bit n d) (\<lambda>d n. bit d (32 - n)) (\<lambda>d r. bit r 31 \<noteq> bit d 31)"

definition shr_op :: "(u32 \<Rightarrow> u32 \<Rightarrow> u32) \<Rightarrow> alu_op" where
  "shr_op undef = shift_op undef (\<lambda>d n. drop_bit n d) (\<lambda>d n. bit d (n - 1)) (\<lambda>d r. bit d 31)"

definition sar_op :: "(u32 \<Rightarrow> u32 \<Rightarrow> u32) \<Rightarrow> alu_op" where
  "sar_op undef = shift_op undef (\<lambda>d n. signed_drop_bit n d) (\<lambda>d n. bit d (n - 1)) (\<lambda>d r. False)"

text \<open>One \<open>__asm\<close> block: the guest's flags go in, the result and the flags come out.\<close>

definition asm_block :: "('p, 'w) x86_env \<Rightarrow> (u32 \<Rightarrow> u32 \<times> u32) \<Rightarrow> u32 \<Rightarrow> u32 \<times> u32" where
  "asm_block env oper eflags = (let (r, e) = oper (popfd env eflags) in (r, pushfd e))"

section \<open>Conditions\<close>

primrec x86_condition :: "x86_cond \<Rightarrow> u32 \<Rightarrow> bool" where
  "x86_condition C_A e = (\<not> EmuX86_HasFlag e EFLAG_CF \<and> \<not> EmuX86_HasFlag e EFLAG_ZF)"
| "x86_condition C_AE e = (\<not> EmuX86_HasFlag e EFLAG_CF)"
| "x86_condition C_B e = EmuX86_HasFlag e EFLAG_CF"
| "x86_condition C_BE e = (EmuX86_HasFlag e EFLAG_CF \<or> EmuX86_HasFlag e EFLAG_ZF)"
| "x86_condition C_G e = (\<not> EmuX86_HasFlag e EFLAG_ZF \<and> EmuX86_HasFlag e EFLAG_SF = EmuX86_HasFlag e EFLAG_OF)"
| "x86_condition C_GE e = (EmuX86_HasFlag e EFLAG_SF = EmuX86_HasFlag e EFLAG_OF)"
| "x86_condition C_L e = (EmuX86_HasFlag e EFLAG_SF \<noteq> EmuX86_HasFlag e EFLAG_OF)"
| "x86_condition C_LE e = (EmuX86_HasFlag e EFLAG_ZF \<or> EmuX86_HasFlag e EFLAG_SF \<noteq> EmuX86_HasFlag e EFLAG_OF)"
| "x86_condition C_NO e = (\<not> EmuX86_HasFlag e EFLAG_OF)"
| "x86_condition C_NP e = (\<not> EmuX86_HasFlag e EFLAG_PF)"
| "x86_condition C_NS e = (\<not> EmuX86_HasFlag e EFLAG_SF)"
| "x86_condition C_NZ e = (\<not> EmuX86_HasFlag e EFLAG_ZF)"
| "x86_condition C_O e = EmuX86_HasFlag e EFLAG_OF"
| "x86_condition C_P e = EmuX86_HasFlag e EFLAG_PF"
| "x86_condition C_S e = EmuX86_HasFlag e EFLAG_SF"
| "x86_condition C_Z e = EmuX86_HasFlag e EFLAG_ZF"

section \<open>The flag macros of NEG\<close>

definition OF_Sub :: "nat \<Rightarrow> u32 \<Rightarrow> u32 \<Rightarrow> u32 \<Rightarrow> bool" where
  "OF_Sub n r s d \<longleftrightarrow> drop_bit (n - 1) ((d XOR s) AND (r XOR d)) AND 1 \<noteq> 0"

definition SFCalc :: "nat \<Rightarrow> u32 \<Rightarrow> bool" where
  "SFCalc n r \<longleftrightarrow> drop_bit (n - 1) r AND 1 \<noteq> 0"

definition ZFCalc :: "u32 \<Rightarrow> bool" where
  "ZFCalc r \<longleftrightarrow> r = 0"

definition AFCalc :: "u32 \<Rightarrow> u32 \<Rightarrow> u32 \<Rightarrow> bool" where
  "AFCalc r s d \<longleftrightarrow> drop_bit 3 (r XOR s XOR d) AND 1 \<noteq> 0"

definition PFCalc :: "u32 \<Rightarrow> bool" where
  "PFCalc r \<longleftrightarrow> drop_bit (unat ((r XOR drop_bit 4 r) AND 0xF)) (0x6996 :: u32) AND 1 \<noteq> 0"

section \<open>Comparison and conditions\<close>

lemma bit_31_iff: "bit (w :: u32) 31 \<longleftrightarrow> 2147483648 \<le> unat w"
proof -
  have "bit w 31 \<longleftrightarrow> bit (unat w) 31" by (simp add: bit_unsigned_iff)
  also have "\<dots> \<longleftrightarrow> odd (unat w div 2147483648)" by (simp add: bit_iff_odd)
  also have "\<dots> \<longleftrightarrow> 2147483648 \<le> unat w"
  proof -
    have "unat w div 2147483648 < 2" using unsigned_less [where 'a = nat, of w] by auto
    then have "odd (unat w div 2147483648) \<longleftrightarrow> unat w div 2147483648 = 1"
      by (cases "unat w div 2147483648") auto
    also have "\<dots> \<longleftrightarrow> 2147483648 \<le> unat w"
      using unsigned_less [where 'a = nat, of w] by auto
    finally show ?thesis .
  qed
  finally show ?thesis .
qed

lemma bit_31_uint: "bit (w :: u32) 31 \<longleftrightarrow> 2147483648 \<le> uint w"
  unfolding bit_31_iff uint_nat by linarith

lemma sint_u32: "sint (w :: u32) = uint w - (if bit w 31 then 4294967296 else 0)"
  using unsigned_less [where 'a = int, of w]
  by (simp add: sint_uint signed_take_bit_eq_take_bit_minus bit_uint_iff take_bit_int_eq_self)

lemma same_sign_sub:
  assumes "bit (d :: u32) 31 = bit s 31"
  shows "bit (d - s) 31 \<longleftrightarrow> d < s"
proof -
  have "unat (d - s) = (if unat s \<le> unat d then unat d - unat s else unat d + 2 ^ 32 - unat s)"
    by (simp add: unat_sub_if')
  then show ?thesis using assms unsigned_less [where 'a = nat, of s] unsigned_less [where 'a = nat, of d]
    by (auto simp: bit_31_iff word_less_nat_alt)
qed

lemma signed_less_split:
  fixes a b :: int
  assumes "0 \<le> a" "a < 4294967296" "0 \<le> b" "b < 4294967296"
    and "(2147483648 \<le> a) \<noteq> (2147483648 \<le> b)"
  shows "a - (if 2147483648 \<le> a then 4294967296 else 0) < b - (if 2147483648 \<le> b then 4294967296 else 0)
    \<longleftrightarrow> 2147483648 \<le> a"
  using assms by auto

lemma sless_flags:
  fixes d s :: u32
  shows "(bit (d - s) 31 \<noteq> (bit d 31 \<noteq> bit s 31 \<and> bit (d - s) 31 \<noteq> bit d 31)) \<longleftrightarrow> d <s s"
proof (cases "bit d 31 = bit s 31")
  case True
  then have "d <s s \<longleftrightarrow> d < s" by (simp add: word_sless_alt sint_u32 word_less_def)
  with True show ?thesis by (simp add: same_sign_sub)
next
  case False
  have "d <s s \<longleftrightarrow> bit d 31"
    using False signed_less_split [of "uint d" "uint s"] uint_lt2p [of s] uint_lt2p [of d]
    by (simp add: word_sless_alt sint_u32 bit_31_uint)
  with False show ?thesis by auto
qed

text \<open>Zero-extended bytes compare alike signed and unsigned.\<close>

lemma uint_byte: "uint (ucast (a :: u8) :: u32) = uint a"
  by (simp add: unsigned_ucast_eq take_bit_int_eq_self less_trans [OF uint_lt2p [of a]])

lemma ucast_byte_sless: "(ucast (a :: u8) :: u32) <s ucast b \<longleftrightarrow> a < b"
  and ucast_byte_sle: "(ucast (a :: u8) :: u32) \<le>s ucast b \<longleftrightarrow> a \<le> b"
  using uint_lt2p [of a] uint_lt2p [of b]
  by (simp_all add: word_sless_alt word_sle_eq sint_u32 bit_31_uint uint_byte word_less_def word_le_def)

lemma asm_flag_kept:
  assumes "i \<in> {0, 2, 4, 6, 7, 10, 11}"
  shows "bit (pushfd e) i = bit e i" and "bit (popfd env e) i = bit e i"
  using assms by (auto simp: pushfd_def popfd_def bit_simps bit_numeral_rec)

lemma HasFlag_pushfd [simp]: "i \<in> {0, 2, 4, 6, 7, 10, 11} \<Longrightarrow> EmuX86_HasFlag (pushfd e) i = EmuX86_HasFlag e i"
  by (simp add: HasFlag_bit asm_flag_kept)

lemma HasFlag_popfd [simp]: "i \<in> {0, 2, 4, 6, 7, 10, 11} \<Longrightarrow> EmuX86_HasFlag (popfd env e) i = EmuX86_HasFlag e i"
  by (simp add: HasFlag_bit asm_flag_kept)

lemma cmp_flags:
  "EmuX86_HasFlag (snd (asm_block env (\<lambda>e. sub_op e d s) e)) 0 \<longleftrightarrow> d < s"
  "EmuX86_HasFlag (snd (asm_block env (\<lambda>e. sub_op e d s) e)) 6 \<longleftrightarrow> d = s"
  "(EmuX86_HasFlag (snd (asm_block env (\<lambda>e. sub_op e d s) e)) 7
    \<noteq> EmuX86_HasFlag (snd (asm_block env (\<lambda>e. sub_op e d s) e)) 11) \<longleftrightarrow> d <s s"
  using sless_flags [of d s]
  by (auto simp: asm_block_def sub_op_def Let_def arith_flags_def result_flags_def)

text \<open>The relation that a condition decides after a comparison of \<open>d\<close> with \<open>s\<close>.\<close>

definition arith_rel :: "x86_cond \<Rightarrow> u32 \<Rightarrow> u32 \<Rightarrow> bool option" where
  "arith_rel c d s = (case c of
     C_A \<Rightarrow> Some (s < d) | C_AE \<Rightarrow> Some (s \<le> d) | C_B \<Rightarrow> Some (d < s) | C_BE \<Rightarrow> Some (d \<le> s)
   | C_G \<Rightarrow> Some (s <s d) | C_GE \<Rightarrow> Some (s \<le>s d) | C_L \<Rightarrow> Some (d <s s) | C_LE \<Rightarrow> Some (d \<le>s s)
   | C_Z \<Rightarrow> Some (d = s) | C_NZ \<Rightarrow> Some (d \<noteq> s)
   | _ \<Rightarrow> None)"

lemma cmp_conditions:
  assumes "arith_rel c d s = Some b"
  shows "x86_condition c (snd (asm_block env (\<lambda>e. sub_op e d s) e)) = b"
  using assms cmp_flags [of env d s e]
  by (cases c) (auto simp: arith_rel_def signed.not_less signed.le_less order.order_iff_strict)

section \<open>The macros of NEG against the processor\<close>

lemma parity_nibble:
  "n < 16 \<Longrightarrow> bit (0x6996 :: u32) n \<longleftrightarrow> (bit n 0 \<noteq> (bit n 1 \<noteq> (bit n 2 \<noteq> bit n 3)))" for n :: nat
proof -
  have "\<forall>n\<in>set [0..<16]. bit (0x6996 :: u32) n \<longleftrightarrow> (bit n 0 \<noteq> (bit n 1 \<noteq> (bit n 2 \<noteq> bit n 3)))"
    by code_simp
  then show "n < 16 \<Longrightarrow> bit (0x6996 :: u32) n \<longleftrightarrow> (bit n 0 \<noteq> (bit n 1 \<noteq> (bit n 2 \<noteq> bit n 3)))"
    by simp
qed

lemma bits8: "[0..<8] = [0, 1, 2, 3, 4, 5, 6, 7 :: nat]"
  by code_simp

lemma PFCalc_odd: "PFCalc r \<longleftrightarrow> \<not> parity_even r"
proof -
  define x where "x = (r XOR drop_bit 4 r) AND 0xF"
  have b: "bit (unat x) i \<longleftrightarrow> i < 4 \<and> bit r i \<noteq> bit r (4 + i)" for i
    unfolding x_def by (auto simp: mask_simps bit_simps)
  have "x = take_bit 4 x" by (simp add: x_def mask_simps)
  then have "unat x = take_bit 4 (unat x)" by (metis unsigned_take_bit_eq)
  then have lt: "unat x < 16" using take_bit_nat_less_exp [of 4 "unat x"] by simp
  have "PFCalc r \<longleftrightarrow> bit (0x6996 :: u32) (unat x)"
    unfolding PFCalc_def x_def [symmetric]
    by (simp add: bit_iff_odd_drop_bit and_one_eq odd_iff_mod_2_eq_one)
  also have "\<dots> \<longleftrightarrow> (bit r 0 \<noteq> bit r 4) \<noteq> ((bit r 1 \<noteq> bit r 5) \<noteq> ((bit r 2 \<noteq> bit r 6) \<noteq> (bit r 3 \<noteq> bit r 7)))"
    using parity_nibble [OF lt] by (simp add: b)
  also have "\<dots> \<longleftrightarrow> \<not> parity_even r"
    by (cases "bit r 0"; cases "bit r 1"; cases "bit r 2"; cases "bit r 3"; cases "bit r 4";
        cases "bit r 5"; cases "bit r 6"; cases "bit r 7")
      (simp_all add: parity_even_def bits8)
  finally show ?thesis .
qed
lemma OF_Sub_neg: "\<not> OF_Sub n (0 - d) d d"
  by (simp add: OF_Sub_def)

lemma SFCalc_bit: "0 < n \<Longrightarrow> SFCalc n r \<longleftrightarrow> bit r (n - 1)"
  by (simp add: SFCalc_def bit_iff_odd_drop_bit and_one_eq odd_iff_mod_2_eq_one)

lemma AFCalc_neg: "AFCalc r d d \<longleftrightarrow> bit r 3"
  by (simp add: AFCalc_def bit_iff_odd_drop_bit and_one_eq odd_iff_mod_2_eq_one)

end
