(* ===== verification/X86_Opcode.thy ===== *)
theory X86_Opcode
  imports X86_Operand X86_Alu
begin

text \<open>
  The opcode handlers \<open>EmuX86_Opcode_*\<close> of \<open>src/devices/x86/EmuX86.cpp\<close>, in its alphabetical
  order. A handler returns \<open>False\<close> where the source returns \<open>false\<close>. The handlers that differ
  only in the operation inside their \<open>__asm\<close> block share \<open>binary_handler\<close> and \<open>unary_handler\<close>.
\<close>

definition SignExtend32 :: "u32 \<Rightarrow> nat \<Rightarrow> (u32, ('p, 'w) x86) run" where
  "SignExtend32 dest n =
     (if n = 8 then ret (scast (ucast dest :: u8))
      else if n = 16 then ret (scast (ucast dest :: u16))
      else fail AssertFailed)"

definition set_EFlags :: "u32 \<Rightarrow> (unit, ('p, 'w) x86) run" where
  "set_EFlags e = modify (set_ctx (\<lambda>c. c\<lparr>EFlags := e\<rparr>))"

definition get_EFlags :: "(u32, ('p, 'w) x86) run" where
  "get_EFlags = get (\<lambda>s. EFlags (ContextRecord s))"

text \<open>\<open>if (!EmuX86_Operand_Read(...)) return false;\<close> and the same for addresses.\<close>

definition or_false :: "('a option, 's) run \<Rightarrow> ('a \<Rightarrow> (bool, 's) run) \<Rightarrow> (bool, 's) run" where
  "or_false m f = bnd m (\<lambda>r. case r of Some a \<Rightarrow> f a | None \<Rightarrow> ret False)"

definition widen :: "dinst \<Rightarrow> u32 \<Rightarrow> (u32, ('p, 'w) x86) run" where
  "widen info src =
     (if op_bits (di_ops info 0) > op_bits (di_ops info 1) then SignExtend32 src (op_bits (di_ops info 1))
      else ret src)"

text \<open>Read the source, address the destination, read it, operate, store flags, then the result.\<close>

definition binary_handler ::
  "(dinst \<Rightarrow> u32 \<Rightarrow> (u32, ('p, 'w) x86) run) \<Rightarrow> alu_op \<Rightarrow> ('p, 'w) x86_env \<Rightarrow> dinst \<Rightarrow> (bool, ('p, 'w) x86) run" where
  "binary_handler prep oper env info =
     or_false (EmuX86_Operand_Read env info 1) (\<lambda>src0.
     or_false (EmuX86_Operand_Addr_ForReadWrite info 0) (\<lambda>a.
     bnd (EmuX86_Addr_Read env info a) (\<lambda>dest.
     bnd (prep info src0) (\<lambda>src.
     bnd get_EFlags (\<lambda>e.
     bnd (set_EFlags (snd (asm_block env (\<lambda>x. oper x dest src) e))) (\<lambda>_.
     bnd (EmuX86_Addr_Write env a (fst (asm_block env (\<lambda>x. oper x dest src) e))) (\<lambda>_.
     ret True)))))))"

definition unary_handler ::
  "(u32 \<Rightarrow> u32 \<Rightarrow> u32 \<times> u32) \<Rightarrow> ('p, 'w) x86_env \<Rightarrow> dinst \<Rightarrow> (bool, ('p, 'w) x86) run" where
  "unary_handler oper env info =
     or_false (EmuX86_Operand_Addr_ForReadWrite info 0) (\<lambda>a.
     bnd (EmuX86_Addr_Read env info a) (\<lambda>dest.
     bnd get_EFlags (\<lambda>e.
     bnd (set_EFlags (snd (asm_block env (\<lambda>x. oper x dest) e))) (\<lambda>_.
     bnd (EmuX86_Addr_Write env a (fst (asm_block env (\<lambda>x. oper x dest) e))) (\<lambda>_.
     ret True)))))"

definition byte_count :: "dinst \<Rightarrow> u32 \<Rightarrow> (u32, ('p, 'w) x86) run" where
  "byte_count info src = ret (take_bit 8 src)"

section \<open>Handlers\<close>

definition EmuX86_Opcode_ADD :: "('p, 'w) x86_env \<Rightarrow> dinst \<Rightarrow> (bool, ('p, 'w) x86) run" where
  "EmuX86_Opcode_ADD = binary_handler widen add_op"

definition EmuX86_Opcode_AND :: "('p, 'w) x86_env \<Rightarrow> dinst \<Rightarrow> (bool, ('p, 'w) x86) run" where
  "EmuX86_Opcode_AND env = binary_handler widen (logic_op (undef_bits env) (AND)) env"

definition EmuX86_Opcode_CDQ :: "(unit, ('p, 'w) x86) run" where
  "EmuX86_Opcode_CDQ = modify (set_ctx (\<lambda>c. c\<lparr>Edx := if Eax c AND 0x80000000 \<noteq> 0 then 0xFFFFFFFF else 0\<rparr>))"

definition EmuX86_Opcode_CLI :: "(unit, ('p, 'w) x86) run" where
  "EmuX86_Opcode_CLI = modify (\<lambda>s. s\<lparr>g_bEnableAllInterrupts := False\<rparr>)"

definition EmuX86_Opcode_CMP :: "('p, 'w) x86_env \<Rightarrow> dinst \<Rightarrow> (bool, ('p, 'w) x86) run" where
  "EmuX86_Opcode_CMP env info =
     or_false (EmuX86_Operand_Read env info 1) (\<lambda>src0.
     or_false (EmuX86_Operand_Read env info 0) (\<lambda>dest.
     bnd (widen info src0) (\<lambda>src.
     bnd get_EFlags (\<lambda>e.
     bnd (set_EFlags (snd (asm_block env (\<lambda>x. sub_op x dest src) e))) (\<lambda>_.
     ret True)))))"

definition cmpxchg_mask :: "nat \<Rightarrow> u32 option" where
  "cmpxchg_mask n = (if n = 8 then Some 0xFF else if n = 16 then Some 0xFFFF
     else if n = 32 then Some 0xFFFFFFFF else None)"

definition EmuX86_Opcode_CMPXCHG :: "('p, 'w) x86_env \<Rightarrow> dinst \<Rightarrow> (bool, ('p, 'w) x86) run" where
  "EmuX86_Opcode_CMPXCHG env info =
     or_false (EmuX86_Operand_Read env info 1) (\<lambda>src.
     or_false (EmuX86_Operand_Read env info 0) (\<lambda>dest.
     case cmpxchg_mask (op_bits (di_ops info 0)) of None \<Rightarrow> fail AssertFailed | Some m \<Rightarrow>
     bnd (get (\<lambda>s. Eax (ContextRecord s))) (\<lambda>eaxVal.
     bnd (if eaxVal AND m = dest AND m then EmuX86_Operand_Write env info 0 src
          else bnd (modify (set_ctx (\<lambda>c. c\<lparr>Eax := (Eax c AND NOT m) OR (dest AND m)\<rparr>))) (\<lambda>_. ret True)) (\<lambda>ok.
     if \<not> ok then ret False else
     bnd get_EFlags (\<lambda>e.
     bnd (set_EFlags (snd (asm_block env (\<lambda>x. sub_op x eaxVal dest) e))) (\<lambda>_. ret True)))))) "

definition EmuX86_Opcode_CPUID :: "(unit, ('p, 'w) x86) run" where
  "EmuX86_Opcode_CPUID = modify (set_ctx (\<lambda>c.
     if Eax c = 0 then c\<lparr>Eax := 2, Ebx := 0x756E6547, Edx := 0x49656E69, Ecx := 0x6C65746E\<rparr>
     else if Eax c = 1 then c\<lparr>Eax := 0x68A, Ebx := 0, Ecx := 0, Edx := 0x383F9FF\<rparr>
     else if Eax c = 2 then c\<lparr>Eax := 0x3020101, Ebx := 0, Ecx := 0, Edx := 0xC040841\<rparr>
     else c))"

definition EmuX86_Opcode_DEC :: "('p, 'w) x86_env \<Rightarrow> dinst \<Rightarrow> (bool, ('p, 'w) x86) run" where
  "EmuX86_Opcode_DEC = unary_handler dec_op"

definition EmuX86_Opcode_IN :: "('p, 'w) x86_env \<Rightarrow> dinst \<Rightarrow> (bool, ('p, 'w) x86) run" where
  "EmuX86_Opcode_IN env info =
     or_false (EmuX86_Operand_Read env info 1) (\<lambda>addr.
     bnd (EmuX86_IORead env addr (op_bits (di_ops info 0) div 8)) (\<lambda>v.
     EmuX86_Operand_Write env info 0 v))"

definition EmuX86_Opcode_INC :: "('p, 'w) x86_env \<Rightarrow> dinst \<Rightarrow> (bool, ('p, 'w) x86) run" where
  "EmuX86_Opcode_INC = unary_handler inc_op"

definition EmuX86_Opcode_JMP :: "('p, 'w) x86_env \<Rightarrow> dinst \<Rightarrow> (bool, ('p, 'w) x86) run" where
  "EmuX86_Opcode_JMP env info =
     bnd (EmuX86_Operand_Addr_ForReadOnly info 0) (\<lambda>r.
     case r of None \<Rightarrow> fail AssertFailed
     | Some a \<Rightarrow> bnd (modify (set_ctx (\<lambda>c. c\<lparr>Eip := addr_value env a\<rparr>))) (\<lambda>_. ret True))"

definition EmuX86_Opcode_Jcc ::
  "('p, 'w) x86_env \<Rightarrow> dinst \<Rightarrow> bool \<Rightarrow> (bool, ('p, 'w) x86) run" where
  "EmuX86_Opcode_Jcc env info cond = (if cond then EmuX86_Opcode_JMP env info else ret False)"

definition EmuX86_Opcode_LEA :: "('p, 'w) x86_env \<Rightarrow> dinst \<Rightarrow> (bool, ('p, 'w) x86) run" where
  "EmuX86_Opcode_LEA env info =
     or_false (EmuX86_Operand_Addr_ForReadOnly info 1) (\<lambda>a.
     EmuX86_Operand_Write env info 0 (addr_value env a))"

definition EmuX86_Opcode_MOV :: "('p, 'w) x86_env \<Rightarrow> dinst \<Rightarrow> (bool, ('p, 'w) x86) run" where
  "EmuX86_Opcode_MOV env info =
     or_false (EmuX86_Operand_Read env info 1) (\<lambda>v. EmuX86_Operand_Write env info 0 v)"

definition movsx_value :: "nat \<Rightarrow> u32 \<Rightarrow> u32" where
  "movsx_value n v =
     (if n = 8 then (if v AND 0x80 \<noteq> 0 then v OR 0xFFFFFF00 else v)
      else if n = 16 then (if v AND 0x8000 \<noteq> 0 then v OR 0xFFFF0000 else v)
      else v)"

definition EmuX86_Opcode_MOVSX :: "('p, 'w) x86_env \<Rightarrow> dinst \<Rightarrow> (bool, ('p, 'w) x86) run" where
  "EmuX86_Opcode_MOVSX env info =
     or_false (EmuX86_Operand_Read env info 1) (\<lambda>v.
     EmuX86_Operand_Write env info 0 (movsx_value (op_bits (di_ops info 1)) v))"

definition EmuX86_Opcode_MOVZX :: "('p, 'w) x86_env \<Rightarrow> dinst \<Rightarrow> (bool, ('p, 'w) x86) run" where
  "EmuX86_Opcode_MOVZX env info =
     or_false (EmuX86_Operand_Read env info 1) (\<lambda>v.
     bnd (check (v \<le> 0xFFFF)) (\<lambda>_. EmuX86_Operand_Write env info 0 v))"

definition EmuX86_Opcode_NEG :: "('p, 'w) x86_env \<Rightarrow> dinst \<Rightarrow> (bool, ('p, 'w) x86) run" where
  "EmuX86_Opcode_NEG env info =
     or_false (EmuX86_Operand_Addr_ForReadWrite info 0) (\<lambda>a.
     bnd (EmuX86_Addr_Read env info a) (\<lambda>dest. let r = 0 - dest; n = op_bits (di_ops info 0) in
     bnd (EmuX86_Addr_Write env a r) (\<lambda>_.
     bnd get_EFlags (\<lambda>e.
     bnd (set_EFlags (EmuX86_SetFlags_OSZAPC (OF_Sub n r dest dest) (SFCalc n r) (ZFCalc r)
            (AFCalc r dest dest) (PFCalc r) (dest \<noteq> 0) e)) (\<lambda>_.
     ret True)))))"

definition EmuX86_Opcode_NOT :: "('p, 'w) x86_env \<Rightarrow> dinst \<Rightarrow> (bool, ('p, 'w) x86) run" where
  "EmuX86_Opcode_NOT = unary_handler (\<lambda>e d. (NOT d, e))"

definition EmuX86_Opcode_OR :: "('p, 'w) x86_env \<Rightarrow> dinst \<Rightarrow> (bool, ('p, 'w) x86) run" where
  "EmuX86_Opcode_OR env = binary_handler widen (logic_op (undef_bits env) (OR)) env"

definition EmuX86_Opcode_OUT :: "('p, 'w) x86_env \<Rightarrow> dinst \<Rightarrow> (bool, ('p, 'w) x86) run" where
  "EmuX86_Opcode_OUT env info =
     or_false (EmuX86_Operand_Read env info 0) (\<lambda>addr.
     or_false (EmuX86_Operand_Read env info 1) (\<lambda>v.
     bnd (EmuX86_IOWrite env addr v (op_bits (di_ops info 1) div 8)) (\<lambda>_. ret True)))"

definition get_Esp :: "(u32, ('p, 'w) x86) run" where
  "get_Esp = get (\<lambda>s. Esp (ContextRecord s))"

definition add_Esp :: "u32 \<Rightarrow> (unit, ('p, 'w) x86) run" where
  "add_Esp d = modify (set_ctx (\<lambda>c. c\<lparr>Esp := Esp c + d\<rparr>))"

definition EmuX86_Opcode_POP :: "('p, 'w) x86_env \<Rightarrow> dinst \<Rightarrow> (bool, ('p, 'w) x86) run" where
  "EmuX86_Opcode_POP env info =
     bnd (if op_kind (di_ops info 0) = O_REG \<and> op_index (di_ops info 0) = R_ESP
          then bnd (add_Esp 4) (\<lambda>_. bnd get_Esp (\<lambda>p. EmuX86_Mem_Read p 4))
          else bnd get_Esp (\<lambda>p. bnd (EmuX86_Mem_Read p 4) (\<lambda>v. bnd (add_Esp 4) (\<lambda>_. ret v)))) (\<lambda>v.
     EmuX86_Operand_Write env info 0 v)"

definition EmuX86_Opcode_PUSH :: "('p, 'w) x86_env \<Rightarrow> dinst \<Rightarrow> (bool, ('p, 'w) x86) run" where
  "EmuX86_Opcode_PUSH env info =
     or_false (EmuX86_Operand_Read env info 0) (\<lambda>v.
     bnd (add_Esp (- 4)) (\<lambda>_. bnd get_Esp (\<lambda>p. bnd (EmuX86_Mem_Write p v 4) (\<lambda>_. ret True))))"

definition EmuX86_Opcode_RDTSC :: "('p, 'w) x86_env \<Rightarrow> (unit, ('p, 'w) x86) run" where
  "EmuX86_Opcode_RDTSC env = modify (set_ctx (\<lambda>c.
     c\<lparr>Eax := ucast (tsc_counter env), Edx := ucast (drop_bit 32 (tsc_counter env))\<rparr>))"

definition EmuX86_Opcode_SAR :: "('p, 'w) x86_env \<Rightarrow> dinst \<Rightarrow> (bool, ('p, 'w) x86) run" where
  "EmuX86_Opcode_SAR env = binary_handler byte_count (sar_op (undef_bits env)) env"

definition EmuX86_Opcode_SBB :: "('p, 'w) x86_env \<Rightarrow> dinst \<Rightarrow> (bool, ('p, 'w) x86) run" where
  "EmuX86_Opcode_SBB = binary_handler widen sbb_op"

definition EmuX86_Opcode_SETcc ::
  "('p, 'w) x86_env \<Rightarrow> dinst \<Rightarrow> bool \<Rightarrow> (bool, ('p, 'w) x86) run" where
  "EmuX86_Opcode_SETcc env info cond = EmuX86_Operand_Write env info 0 (if cond then 1 else 0)"

definition EmuX86_Opcode_SHL :: "('p, 'w) x86_env \<Rightarrow> dinst \<Rightarrow> (bool, ('p, 'w) x86) run" where
  "EmuX86_Opcode_SHL env = binary_handler byte_count (shl_op (undef_bits env)) env"

definition EmuX86_Opcode_SHR :: "('p, 'w) x86_env \<Rightarrow> dinst \<Rightarrow> (bool, ('p, 'w) x86) run" where
  "EmuX86_Opcode_SHR env = binary_handler byte_count (shr_op (undef_bits env)) env"

definition EmuX86_Opcode_STI :: "(unit, ('p, 'w) x86) run" where
  "EmuX86_Opcode_STI = modify (\<lambda>s. s\<lparr>g_bEnableAllInterrupts := True\<rparr>)"

definition stos_advance :: "u8 \<Rightarrow> CONTEXT \<Rightarrow> CONTEXT" where
  "stos_advance n c =
     (if EmuX86_HasFlag (EFlags c) EFLAG_DF then c\<lparr>Esi := Esi c - ucast n, Edi := Edi c - ucast n\<rparr>
      else c\<lparr>Esi := Esi c + ucast n, Edi := Edi c + ucast n\<rparr>)"

definition EmuX86_Opcode_STOS :: "('p, 'w) x86_env \<Rightarrow> dinst \<Rightarrow> (bool, ('p, 'w) x86) run" where
  "EmuX86_Opcode_STOS env info =
     or_false (EmuX86_Operand_Read env info 1) (\<lambda>src.
     bnd (EmuX86_Operand_Write env info 0 src) (\<lambda>ok.
     if \<not> ok then ret False
     else bnd (modify (set_ctx (stos_advance (of_nat (op_bits (di_ops info 1) div 8))))) (\<lambda>_. ret True)))"

definition EmuX86_Opcode_SUB :: "('p, 'w) x86_env \<Rightarrow> dinst \<Rightarrow> (bool, ('p, 'w) x86) run" where
  "EmuX86_Opcode_SUB = binary_handler widen sub_op"

definition EmuX86_Opcode_TEST :: "('p, 'w) x86_env \<Rightarrow> dinst \<Rightarrow> (bool, ('p, 'w) x86) run" where
  "EmuX86_Opcode_TEST env info =
     or_false (EmuX86_Operand_Read env info 0) (\<lambda>dest.
     or_false (EmuX86_Operand_Read env info 1) (\<lambda>src.
     bnd get_EFlags (\<lambda>e.
     bnd (set_EFlags (snd (asm_block env (\<lambda>x. logic_op (undef_bits env) (AND) x dest src) e))) (\<lambda>_.
     ret True))))"

definition EmuX86_Opcode_XOR :: "('p, 'w) x86_env \<Rightarrow> dinst \<Rightarrow> (bool, ('p, 'w) x86) run" where
  "EmuX86_Opcode_XOR env = binary_handler widen (logic_op (undef_bits env) (XOR)) env"

end
