(* ===== verification/X86_Decode.thy ===== *)
theory X86_Decode
  imports X86_Opcode
begin

text \<open>
  \<open>EmuX86_DecodeException\<close> of \<open>src/devices/x86/EmuX86.cpp\<close>: decode one instruction at the guest's
  EIP, dispatch on its mnemonic, advance EIP. The source's \<open>for\<close> loop runs once, so \<open>continue\<close>
  after a taken jump leaves it without the advance. Logging is left out.
\<close>

section \<open>Dispatch\<close>

text \<open>The ways a \<open>case\<close> can end: \<open>break\<close>, \<open>continue\<close>, \<open>return true\<close> and \<open>goto opcode_error\<close>.\<close>

datatype case_end = Break | Continue | ReturnTrue | OpcodeError

definition ok_or_error :: "(bool, 's) run \<Rightarrow> (case_end, 's) run" where
  "ok_or_error m = bnd m (\<lambda>ok. ret (if ok then Break else OpcodeError))"

definition jump_case :: "(bool, 's) run \<Rightarrow> (case_end, 's) run" where
  "jump_case m = bnd m (\<lambda>taken. ret (if taken then Continue else Break))"

definition always_break :: "('a, 's) run \<Rightarrow> (case_end, 's) run" where
  "always_break m = bnd m (\<lambda>_. ret Break)"

fun stos_loop :: "('p, 'w) x86_env \<Rightarrow> dinst \<Rightarrow> nat \<Rightarrow> (case_end, ('p, 'w) x86) run" where
  "stos_loop env info 0 = ret Break"
| "stos_loop env info (Suc n) =
     bnd (EmuX86_Opcode_STOS env info) (\<lambda>ok. if ok then stos_loop env info n else ret OpcodeError)"

abbreviation (input) FLAG_REP :: u16 where "FLAG_REP \<equiv> 4"

text \<open>\<open>counter\<close> is a signed \<open>int\<close> that counts down to zero; for ECX of \<open>2 ^ 31\<close> and more the
  decrement wraps around, so that the loop body runs ECX times in every case.\<close>

definition stos_case :: "('p, 'w) x86_env \<Rightarrow> dinst \<Rightarrow> (case_end, ('p, 'w) x86) run" where
  "stos_case env info =
     (if di_flags info AND 7 = FLAG_REP then
        bnd (get (\<lambda>s. Ecx (ContextRecord s))) (\<lambda>counter.
        bnd (modify (set_ctx (\<lambda>c. c\<lparr>Ecx := 0\<rparr>))) (\<lambda>_.
        stos_loop env info (unat counter)))
      else stos_loop env info 1)"

text \<open>The sixteen cases of conditional jumps, and the sixteen of SETcc.\<close>

definition jcc_case :: "('p, 'w) x86_env \<Rightarrow> dinst \<Rightarrow> x86_cond \<Rightarrow> (case_end, ('p, 'w) x86) run" where
  "jcc_case env info c = bnd get_EFlags (\<lambda>e. jump_case (EmuX86_Opcode_Jcc env info (x86_condition c e)))"

definition setcc_case :: "('p, 'w) x86_env \<Rightarrow> dinst \<Rightarrow> x86_cond \<Rightarrow> (case_end, ('p, 'w) x86) run" where
  "setcc_case env info c = bnd get_EFlags (\<lambda>e. ok_or_error (EmuX86_Opcode_SETcc env info (x86_condition c e)))"

definition advance_Eip :: "dinst \<Rightarrow> (unit, ('p, 'w) x86) run" where
  "advance_Eip info = modify (set_ctx (\<lambda>c. c\<lparr>Eip := Eip c + ucast (di_size info)\<rparr>))"

definition dispatch :: "('p, 'w) x86_env \<Rightarrow> dinst \<Rightarrow> (case_end, ('p, 'w) x86) run" where
  "dispatch env info = (case di_opcode info of
     I_ADD \<Rightarrow> ok_or_error (EmuX86_Opcode_ADD env info)
   | I_AND \<Rightarrow> ok_or_error (EmuX86_Opcode_AND env info)
   | I_CALL \<Rightarrow> ret ReturnTrue
   | I_CDQ \<Rightarrow> always_break EmuX86_Opcode_CDQ
   | I_CLI \<Rightarrow> always_break EmuX86_Opcode_CLI
   | I_CMP \<Rightarrow> ok_or_error (EmuX86_Opcode_CMP env info)
   | I_CMPXCHG \<Rightarrow> ok_or_error (EmuX86_Opcode_CMPXCHG env info)
   | I_CPUID \<Rightarrow> always_break EmuX86_Opcode_CPUID
   | I_DEC \<Rightarrow> ok_or_error (EmuX86_Opcode_DEC env info)
   | I_IN \<Rightarrow> ok_or_error (EmuX86_Opcode_IN env info)
   | I_INC \<Rightarrow> ok_or_error (EmuX86_Opcode_INC env info)
   | I_INVD \<Rightarrow> ret Break
   | I_INVLPG \<Rightarrow> ret Break
   | I_J c \<Rightarrow> jcc_case env info c
   | I_JCXZ \<Rightarrow> bnd (get (\<lambda>s. Ecx (ContextRecord s)))
                  (\<lambda>c. jump_case (EmuX86_Opcode_Jcc env info (c AND 0xFF = 0)))
   | I_JECXZ \<Rightarrow> bnd (get (\<lambda>s. Ecx (ContextRecord s)))
                  (\<lambda>c. jump_case (EmuX86_Opcode_Jcc env info (c = 0)))
   | I_JMP \<Rightarrow> jump_case (EmuX86_Opcode_JMP env info)
   | I_JMP_FAR \<Rightarrow> jump_case (EmuX86_Opcode_JMP env info)
   | I_LEA \<Rightarrow> ok_or_error (EmuX86_Opcode_LEA env info)
   | I_LEAVE \<Rightarrow> ret ReturnTrue
   | I_LFENCE \<Rightarrow> ret Break
   | I_MFENCE \<Rightarrow> ret Break
   | I_MOV \<Rightarrow> ok_or_error (EmuX86_Opcode_MOV env info)
   | I_MOVSX \<Rightarrow> ok_or_error (EmuX86_Opcode_MOVSX env info)
   | I_MOVZX \<Rightarrow> ok_or_error (EmuX86_Opcode_MOVZX env info)
   | I_NEG \<Rightarrow> ok_or_error (EmuX86_Opcode_NEG env info)
   | I_NOP \<Rightarrow> ret Break
   | I_NOT \<Rightarrow> ok_or_error (EmuX86_Opcode_NOT env info)
   | I_OR \<Rightarrow> ok_or_error (EmuX86_Opcode_OR env info)
   | I_OUT \<Rightarrow> ok_or_error (EmuX86_Opcode_OUT env info)
   | I_POP \<Rightarrow> ok_or_error (EmuX86_Opcode_POP env info)
   | I_PUSH \<Rightarrow> ok_or_error (EmuX86_Opcode_PUSH env info)
   | I_RDTSC \<Rightarrow> always_break (EmuX86_Opcode_RDTSC env)
   | I_RET \<Rightarrow> ret ReturnTrue
   | I_SAR \<Rightarrow> always_break (EmuX86_Opcode_SAR env info)
   | I_SBB \<Rightarrow> ok_or_error (EmuX86_Opcode_SBB env info)
   | I_SET c \<Rightarrow> setcc_case env info c
   | I_SFENCE \<Rightarrow> ret Break
   | I_SHL \<Rightarrow> ok_or_error (EmuX86_Opcode_SHL env info)
   | I_SHR \<Rightarrow> ok_or_error (EmuX86_Opcode_SHR env info)
   | I_STI \<Rightarrow> always_break EmuX86_Opcode_STI
   | I_STOS \<Rightarrow> stos_case env info
   | I_SUB \<Rightarrow> ok_or_error (EmuX86_Opcode_SUB env info)
   | I_TEST \<Rightarrow> ok_or_error (EmuX86_Opcode_TEST env info)
   | I_WBINVD \<Rightarrow> ret Break
   | I_WRMSR \<Rightarrow> ret Break
   | I_XOR \<Rightarrow> ok_or_error (EmuX86_Opcode_XOR env info)
   | I_OTHER _ \<Rightarrow> bnd (advance_Eip info) (\<lambda>_. ret ReturnTrue))"

definition finish :: "dinst \<Rightarrow> case_end \<Rightarrow> (bool, ('p, 'w) x86) run" where
  "finish info r = (case r of
     Break \<Rightarrow> bnd (advance_Eip info) (\<lambda>_. ret True)
   | Continue \<Rightarrow> ret True
   | ReturnTrue \<Rightarrow> ret True
   | OpcodeError \<Rightarrow> fail AssertFailed)"

definition EmuX86_DecodeOpcode :: "('p, 'w) x86_env \<Rightarrow> ('p, 'w) x86 \<Rightarrow> dinst option" where
  "EmuX86_DecodeOpcode env s = distorm_decompose env (Eip (ContextRecord s)) (xbox_mem s)"

definition EmuX86_DecodeException :: "('p, 'w) x86_env \<Rightarrow> (bool, ('p, 'w) x86) run" where
  "EmuX86_DecodeException env s =
     (case EmuX86_DecodeOpcode env s of
        None \<Rightarrow> Inl AssertFailed
      | Some info \<Rightarrow> bnd (dispatch env info) (finish info) s)"

definition EmuX86_OpcodeSize :: "('p, 'w) x86_env \<Rightarrow> u32 \<Rightarrow> ('p, 'w) x86 \<Rightarrow> u8" where
  "EmuX86_OpcodeSize env ip s = (case distorm_decompose env ip (xbox_mem s) of Some info \<Rightarrow> di_size info | None \<Rightarrow> 1)"

text \<open>\<open>EmuX86_InitMemoryBackedRegisters\<close> inserts the four control registers.\<close>

definition EmuX86_InitMemoryBackedRegisters :: "(unit, ('p, 'w) x86) run" where
  "EmuX86_InitMemoryBackedRegisters =
     modify (\<lambda>s. s\<lparr>g_MemoryBackedRegisters := (g_MemoryBackedRegisters s)
        (R_CR0 \<mapsto> 0, R_CR2 \<mapsto> 0, R_CR3 \<mapsto> 0, R_CR4 \<mapsto> 0)\<rparr>)"

end
