(* ===== verification/X86_Facts.thy ===== *)
theory X86_Facts
  imports X86_Decode
begin

text \<open>
  What an emulated instruction does, from the decoder's result to the context record: the program
  counter, register moves, comparisons with their jumps, the stack, string stores, and the
  places where the emulation differs from the processor.
\<close>

section \<open>The program counter\<close>

definition eip :: "('p, 'w) x86 \<Rightarrow> u32" where
  "eip s = Eip (ContextRecord s)"

text \<open>\<open>fixed_eip m\<close>: no successful run of \<open>m\<close> moves EIP.\<close>

definition fixed_eip :: "('a, ('p, 'w) x86) run \<Rightarrow> bool" where
  "fixed_eip m \<longleftrightarrow> (\<forall>x. keeps (\<lambda>s. eip s = x) m)"

named_theorems eip_rules \<open>operations that do not move EIP\<close>

lemma fixed_eipI: "(\<And>s a t. m s = Inr (a, t) \<Longrightarrow> eip t = eip s) \<Longrightarrow> fixed_eip m"
  unfolding fixed_eip_def keeps_def by metis

lemma fixed_eipD: "fixed_eip m \<Longrightarrow> m s = Inr (a, t) \<Longrightarrow> eip t = eip s"
  unfolding fixed_eip_def keeps_def by blast

lemma fixed_bnd [eip_rules]: "fixed_eip m \<Longrightarrow> (\<And>a. fixed_eip (f a)) \<Longrightarrow> fixed_eip (bnd m f)"
  unfolding fixed_eip_def by blast

lemma fixed_simple [eip_rules]:
  "fixed_eip (ret a)" "fixed_eip (fail e)" "fixed_eip (get g)" "fixed_eip (check b)"
  unfolding fixed_eip_def by blast+

lemma fixed_if [eip_rules]: "fixed_eip m \<Longrightarrow> fixed_eip n \<Longrightarrow> fixed_eip (if b then m else n)"
  by simp

lemma fixed_or_false [eip_rules]: "fixed_eip m \<Longrightarrow> (\<And>a. fixed_eip (f a)) \<Longrightarrow> fixed_eip (or_false m f)"
  unfolding or_false_def by (intro eip_rules) (auto intro: eip_rules split: option.split)

lemma fixed_set_ctx [eip_rules]: "(\<And>c. Eip (f c) = Eip c) \<Longrightarrow> fixed_eip (modify (set_ctx f))"
  by (rule fixed_eipI) (auto simp: set_ctx_def eip_def)

lemma same_cpu_eip: "same_cpu s t \<Longrightarrow> eip t = eip s"
  by (simp add: same_cpu_def eip_def)

lemma fixed_devices [eip_rules]:
  "fixed_eip (EmuX86_Read env a n)" "fixed_eip (EmuX86_Write env a v n)"
  "fixed_eip (EmuX86_IORead env a n)" "fixed_eip (EmuX86_IOWrite env a v n)"
  by (rule fixed_eipI, auto dest: EmuX86_Read_cpu EmuX86_Write_cpu EmuX86_IORead_cpu EmuX86_IOWrite_cpu
      intro: same_cpu_eip)+

lemma fixed_mem [eip_rules]: "fixed_eip (EmuX86_Mem_Read a n)" "fixed_eip (EmuX86_Mem_Write a v n)"
  by (rule fixed_eipI, auto simp: EmuX86_Mem_Read_def EmuX86_Mem_Write_def eip_def split: if_splits)+

text \<open>No register name denotes the EIP member, so that no operand write moves EIP.\<close>

lemma no_eip_slot: "ContextRecordOffsetByRegisterType r \<noteq> Some (P_Ctx F_Eip k)"
  by (cases r) auto

definition safe_place :: "op_addr \<Rightarrow> bool" where
  "safe_place a \<longleftrightarrow> (\<forall>k. oa_place a \<noteq> Internal (P_Ctx F_Eip k))"

lemma Eip_ctx_put: "f \<noteq> F_Eip \<Longrightarrow> Eip (ctx_put f v c) = Eip c"
  by (cases f) simp_all

lemma host_write_eip: "host_write p v n s = Inr (u, t) \<Longrightarrow> (\<forall>k. p \<noteq> P_Ctx F_Eip k) \<Longrightarrow> eip t = eip s"
  by (auto simp: host_write_def eip_def set_ctx_def Eip_ctx_put split: if_splits hptr.splits option.splits)

lemma host_read_state: "host_read info p n s = Inr (v, t) \<Longrightarrow> t = s"
  by (auto simp: host_read_def split: if_splits hptr.splits option.splits)

lemma fixed_host_read [eip_rules]: "fixed_eip (host_read info p n)"
  by (rule fixed_eipI) (auto dest: host_read_state)

lemma fixed_GetRegisterPointer [eip_rules]: "fixed_eip (EmuX86_GetRegisterPointer r)"
  by (rule fixed_eipI) (auto simp: EmuX86_GetRegisterPointer_def split: option.splits if_splits)

lemma fixed_operand_parts [eip_rules]:
  "fixed_eip (EmuX86_GetRegisterValue32 info r)" "fixed_eip (EmuX86_Distorm_read_disp info)"
  unfolding EmuX86_GetRegisterValue32_def EmuX86_Distorm_read_disp_def by (intro eip_rules)+

lemma fixed_addr_ro [eip_rules]: "fixed_eip (EmuX86_Operand_Addr_ForReadOnly info i)"
  unfolding EmuX86_Operand_Addr_ForReadOnly_def Let_def
  by (auto intro!: eip_rules split: op_type.split)

lemma fixed_addr_rw [eip_rules]: "fixed_eip (EmuX86_Operand_Addr_ForReadWrite info i)"
  unfolding EmuX86_Operand_Addr_ForReadWrite_def by (intro eip_rules)

lemma GetRegisterPointer_safe:
  "EmuX86_GetRegisterPointer r s = Inr (p, t) \<Longrightarrow> p \<noteq> P_Ctx F_Eip k"
  using no_eip_slot [of r k] by (auto simp: EmuX86_GetRegisterPointer_def split: option.splits if_splits)

lemma addr_ro_safe: "EmuX86_Operand_Addr_ForReadOnly info i s = Inr (Some a, t) \<Longrightarrow> safe_place a"
  by (auto simp: EmuX86_Operand_Addr_ForReadOnly_def Let_def bnd_eq_Inr_iff safe_place_def
      dest: GetRegisterPointer_safe split: op_type.splits if_splits)

lemma addr_rw_safe: "EmuX86_Operand_Addr_ForReadWrite info i s = Inr (Some a, t) \<Longrightarrow> safe_place a"
  by (auto simp: EmuX86_Operand_Addr_ForReadWrite_def dest: addr_ro_safe split: if_splits)

lemma fixed_addr_read [eip_rules]: "fixed_eip (EmuX86_Addr_Read env info a)"
  unfolding EmuX86_Addr_Read_def by (auto intro!: eip_rules split: op_place.split)

lemma addr_write_eip: "EmuX86_Addr_Write env a v s = Inr (u, t) \<Longrightarrow> safe_place a \<Longrightarrow> eip t = eip s"
  by (auto simp: EmuX86_Addr_Write_def bnd_eq_Inr_iff safe_place_def check_def
      dest: host_write_eip fixed_eipD [OF fixed_devices(2)] split: op_place.splits if_splits)

lemma fixed_addr_write: "safe_place a \<Longrightarrow> fixed_eip (EmuX86_Addr_Write env a v)"
  by (rule fixed_eipI) (rule addr_write_eip)

lemma fixed_with_addr:
  assumes "\<And>a. safe_place a \<Longrightarrow> fixed_eip (f a)"
  shows "fixed_eip (or_false (EmuX86_Operand_Addr_ForReadWrite info i) f)"
proof (rule fixed_eipI)
  fix s b u
  assume "or_false (EmuX86_Operand_Addr_ForReadWrite info i) f s = Inr (b, u)"
  then obtain r t where r: "EmuX86_Operand_Addr_ForReadWrite info i s = Inr (r, t)"
    and f: "(case r of Some a \<Rightarrow> f a | None \<Rightarrow> ret False) t = Inr (b, u)"
    by (auto simp: or_false_def bnd_eq_Inr_iff)
  from r have "eip t = eip s" by (rule fixed_eipD [OF fixed_addr_rw])
  moreover have "eip u = eip t"
    using r f by (cases r) (auto dest: addr_rw_safe fixed_eipD [OF assms])
  ultimately show "eip u = eip s" by simp
qed

lemma fixed_operand_read [eip_rules]: "fixed_eip (EmuX86_Operand_Read env info i)"
  unfolding EmuX86_Operand_Read_def by (auto intro!: eip_rules split: option.split)

lemma fixed_operand_write [eip_rules]: "fixed_eip (EmuX86_Operand_Write env info i v)"
proof -
  have "EmuX86_Operand_Write env info i v
      = or_false (EmuX86_Operand_Addr_ForReadWrite info i) (\<lambda>a. bnd (EmuX86_Addr_Write env a v) (\<lambda>_. ret True))"
    by (simp add: EmuX86_Operand_Write_def or_false_def)
  then show ?thesis by (auto intro!: fixed_with_addr fixed_addr_write eip_rules)
qed

lemma fixed_eflags [eip_rules]: "fixed_eip (set_EFlags e)" "fixed_eip get_EFlags"
  unfolding set_EFlags_def get_EFlags_def by (intro eip_rules; simp)+

lemma fixed_esp [eip_rules]: "fixed_eip get_Esp" "fixed_eip (add_Esp d)"
  unfolding get_Esp_def add_Esp_def by (intro eip_rules; simp)+

lemma fixed_widen [eip_rules]: "fixed_eip (widen info v)" "fixed_eip (byte_count info v)"
  unfolding widen_def byte_count_def SignExtend32_def by (intro eip_rules)+

lemma fixed_binary [eip_rules]: "(\<And>v. fixed_eip (prep info v)) \<Longrightarrow> fixed_eip (binary_handler prep oper env info)"
  unfolding binary_handler_def by (auto intro!: fixed_with_addr fixed_addr_write eip_rules)

lemma fixed_unary [eip_rules]: "fixed_eip (unary_handler oper env info)"
  unfolding unary_handler_def by (auto intro!: fixed_with_addr fixed_addr_write eip_rules)

lemmas unary_binary_defs = EmuX86_Opcode_ADD_def EmuX86_Opcode_AND_def EmuX86_Opcode_DEC_def
  EmuX86_Opcode_INC_def EmuX86_Opcode_NOT_def EmuX86_Opcode_OR_def EmuX86_Opcode_SAR_def
  EmuX86_Opcode_SBB_def EmuX86_Opcode_SHL_def EmuX86_Opcode_SHR_def EmuX86_Opcode_SUB_def
  EmuX86_Opcode_XOR_def

lemma fixed_alu [eip_rules]:
  "fixed_eip (EmuX86_Opcode_ADD env info)" "fixed_eip (EmuX86_Opcode_AND env info)"
  "fixed_eip (EmuX86_Opcode_DEC env info)" "fixed_eip (EmuX86_Opcode_INC env info)"
  "fixed_eip (EmuX86_Opcode_NOT env info)" "fixed_eip (EmuX86_Opcode_OR env info)"
  "fixed_eip (EmuX86_Opcode_SAR env info)" "fixed_eip (EmuX86_Opcode_SBB env info)"
  "fixed_eip (EmuX86_Opcode_SHL env info)" "fixed_eip (EmuX86_Opcode_SHR env info)"
  "fixed_eip (EmuX86_Opcode_SUB env info)" "fixed_eip (EmuX86_Opcode_XOR env info)"
  unfolding unary_binary_defs by (intro eip_rules)+

lemma fixed_compare [eip_rules]:
  "fixed_eip (EmuX86_Opcode_CMP env info)" "fixed_eip (EmuX86_Opcode_TEST env info)"
  unfolding EmuX86_Opcode_CMP_def EmuX86_Opcode_TEST_def by (intro eip_rules)+

lemma fixed_cmpxchg [eip_rules]: "fixed_eip (EmuX86_Opcode_CMPXCHG env info)"
  unfolding EmuX86_Opcode_CMPXCHG_def by (auto intro!: eip_rules split: option.split)

lemma fixed_moves [eip_rules]:
  "fixed_eip (EmuX86_Opcode_LEA env info)" "fixed_eip (EmuX86_Opcode_MOV env info)"
  "fixed_eip (EmuX86_Opcode_MOVSX env info)" "fixed_eip (EmuX86_Opcode_MOVZX env info)"
  "fixed_eip (EmuX86_Opcode_IN env info)" "fixed_eip (EmuX86_Opcode_OUT env info)"
  "fixed_eip (EmuX86_Opcode_SETcc env info b)"
  unfolding EmuX86_Opcode_LEA_def EmuX86_Opcode_MOV_def EmuX86_Opcode_MOVSX_def EmuX86_Opcode_MOVZX_def
    EmuX86_Opcode_IN_def EmuX86_Opcode_OUT_def EmuX86_Opcode_SETcc_def by (intro eip_rules)+

lemma fixed_neg [eip_rules]: "fixed_eip (EmuX86_Opcode_NEG env info)"
  unfolding EmuX86_Opcode_NEG_def Let_def by (auto intro!: fixed_with_addr fixed_addr_write eip_rules)

lemma fixed_stack [eip_rules]:
  "fixed_eip (EmuX86_Opcode_POP env info)" "fixed_eip (EmuX86_Opcode_PUSH env info)"
  unfolding EmuX86_Opcode_POP_def EmuX86_Opcode_PUSH_def by (intro eip_rules)+

lemma fixed_stos [eip_rules]: "fixed_eip (EmuX86_Opcode_STOS env info)"
  unfolding EmuX86_Opcode_STOS_def by (intro eip_rules) (simp add: stos_advance_def)

lemma fixed_stos_loop: "fixed_eip (stos_loop env info n)"
  by (induction n) (simp_all only: stos_loop.simps eip_rules)

lemma fixed_stos_case [eip_rules]: "fixed_eip (stos_case env info)"
  unfolding stos_case_def by (intro eip_rules fixed_stos_loop) simp

lemma fixed_unit [eip_rules]:
  "fixed_eip EmuX86_Opcode_CDQ" "fixed_eip EmuX86_Opcode_CPUID" "fixed_eip (EmuX86_Opcode_RDTSC env)"
  "fixed_eip EmuX86_Opcode_CLI" "fixed_eip EmuX86_Opcode_STI"
  unfolding EmuX86_Opcode_CDQ_def EmuX86_Opcode_CPUID_def EmuX86_Opcode_RDTSC_def
    EmuX86_Opcode_CLI_def EmuX86_Opcode_STI_def
  by (intro eip_rules; simp)+ (rule fixed_eipI, simp add: eip_def)+

lemma fixed_ends [eip_rules]:
  "fixed_eip m \<Longrightarrow> fixed_eip (ok_or_error m)" "fixed_eip m' \<Longrightarrow> fixed_eip (always_break m')"
  unfolding ok_or_error_def always_break_def by (intro eip_rules; assumption)+

definition is_jump :: "x86_opcode \<Rightarrow> bool" where
  "is_jump oc \<longleftrightarrow> (\<exists>c. oc = I_J c) \<or> oc \<in> {I_JCXZ, I_JECXZ, I_JMP, I_JMP_FAR}"

definition is_other :: "x86_opcode \<Rightarrow> bool" where
  "is_other oc \<longleftrightarrow> (\<exists>n. oc = I_OTHER n)"

lemma dispatch_fixed:
  assumes "\<not> is_jump (di_opcode info)" and "\<not> is_other (di_opcode info)"
  shows "fixed_eip (dispatch env info)"
  using assms by (cases "di_opcode info") (auto simp: dispatch_def setcc_case_def is_jump_def is_other_def intro!: eip_rules)

text \<open>An instruction that is no jump and no block end leaves the \<open>switch\<close> by \<open>break\<close> or by the
  error label.\<close>

lemma ok_or_error_end: "ok_or_error m s = Inr (c, t) \<Longrightarrow> c = Break \<or> c = OpcodeError"
  by (auto simp: ok_or_error_def bnd_eq_Inr_iff split: if_splits)

lemma always_break_end: "always_break m s = Inr (c, t) \<Longrightarrow> c = Break"
  by (auto simp: always_break_def bnd_eq_Inr_iff)

lemma stos_loop_end: "stos_loop env info n s = Inr (c, t) \<Longrightarrow> c = Break \<or> c = OpcodeError"
  by (induction n arbitrary: s) (auto simp: bnd_eq_Inr_iff split: if_splits)

lemma stos_case_end: "stos_case env info s = Inr (c, t) \<Longrightarrow> c = Break \<or> c = OpcodeError"
  unfolding stos_case_def by (fastforce simp: bnd_eq_Inr_iff dest: stos_loop_end split: if_splits)

lemma dispatch_break:
  assumes "di_opcode info \<notin> {I_CALL, I_RET, I_LEAVE}" and "\<not> is_jump (di_opcode info)"
    and "\<not> is_other (di_opcode info)" and "dispatch env info s = Inr (c, t)"
  shows "c = Break \<or> c = OpcodeError"
  using assms
  by (cases "di_opcode info")
    (auto simp: dispatch_def setcc_case_def is_jump_def is_other_def bnd_eq_Inr_iff
      dest: ok_or_error_end always_break_end stos_case_end)

end
