(* ===== verification/X86_Properties.thy ===== *)
theory X86_Properties
  imports X86_Facts
begin

text \<open>
  Properties of emulated instructions, stated on \<open>EmuX86_DecodeException\<close>, with witnesses on a
  small machine: \<open>sample_env\<close> decodes a given program, and no device is on the bus.
\<close>

section \<open>A small machine\<close>

definition no_vtbl :: "(unit, unit) pci_vtbl" where
  "no_vtbl = \<lparr>dev_of = (\<lambda>_ _. \<lparr>m_BAR = [], m_DeviceId = 0, m_VendorId = 0\<rparr>), set_dev = (\<lambda>_ _ w. w),
     vInit = (\<lambda>_. ret ()), vReset = (\<lambda>_. ret ()), vIORead = (\<lambda>_ _ _ _. ret 0), vIOWrite = (\<lambda>_ _ _ _ _. ret ()),
     vMMIORead = (\<lambda>_ _ _ _. ret 0), vMMIOWrite = (\<lambda>_ _ _ _ _. ret ())\<rparr>"

definition sample_env :: "(u32 \<Rightarrow> dinst option) \<Rightarrow> (unit, unit) x86_env" where
  "sample_env program = \<lparr>pci_vt = no_vtbl, g_bIsChihiro = False, LpcRead = (\<lambda>_ _. ret 0), LpcWrite = (\<lambda>_ _ _. ret ()),
     performanceCount = 0, APUTime = 0, tsc_counter = 0, host_eflags = 0x202, undef_bits = (\<lambda>_ _. 0),
     host_addr = (\<lambda>_. 0x7FFE0010), distorm_decompose = (\<lambda>ip _. program ip)\<rparr>"

definition sample_ctx :: CONTEXT where
  "sample_ctx = \<lparr>Dr0 = 0, Dr1 = 0, Dr2 = 0, Dr3 = 0, Dr6 = 0, Dr7 = 0, SegGs = 0, SegFs = 0, SegEs = 0,
     SegDs = 0, Edi = 0xFD000000, Esi = 0x100, Ebx = 0x11223344, Edx = 0, Ecx = 7, Eax = 5, Ebp = 0, Eip = 0x1000,
     SegCs = 0, EFlags = 0x202, Esp = 0x8000, SegSs = 0, ExtendedRegisters = (\<lambda>_. 0)\<rparr>"

definition sample_cpu :: "(unit, unit) x86" where
  "sample_cpu = \<lparr>ContextRecord = sample_ctx, g_MemoryBackedRegisters = Map.empty, xbox_mem = (\<lambda>_. 0),
     g_bEnableAllInterrupts = True, field_pin = 0,
     g_PCIBus = \<lparr>bus_Devices = [], m_configAddressRegister = 0, pci_world = ()\<rparr>\<rparr>"

definition sample_inst :: "x86_opcode \<Rightarrow> x86_operand \<Rightarrow> x86_operand \<Rightarrow> u8 \<Rightarrow> u32 \<Rightarrow> dinst" where
  "sample_inst oc a b n imm = \<lparr>di_opcode = oc, di_ops = (\<lambda>i. if i = 0 then a else b), di_size = n, di_flags = 0,
     di_disp = 0, di_dispSize = 0, di_scale = 0, di_base = R_NONE, di_addr = 0, imm_dword = imm, imm_ex_i1 = 0,
     imm_ex_i2 = 0, imm_addr = imm, imm_ptr_off = 0\<rparr>"

definition reg_opnd :: "x86_reg \<Rightarrow> nat \<Rightarrow> x86_operand" where
  "reg_opnd r n = \<lparr>op_kind = O_REG, op_index = r, op_bits = 8 * n\<rparr>"

definition kind_opnd :: "op_type \<Rightarrow> nat \<Rightarrow> x86_operand" where
  "kind_opnd k n = \<lparr>op_kind = k, op_index = R_NONE, op_bits = n\<rparr>"

lemmas sample_defs = no_vtbl_def sample_env_def sample_ctx_def sample_cpu_def sample_inst_def
  reg_opnd_def kind_opnd_def

section \<open>Single instructions\<close>

text \<open>An operand read that is plain: it succeeds and changes nothing, as registers and immediates do. A
  branch with a relative target. The state with other flags or another EIP.\<close>

definition plain_read :: "('p, 'w) x86_env \<Rightarrow> dinst \<Rightarrow> nat \<Rightarrow> ('p, 'w) x86 \<Rightarrow> u32 \<Rightarrow> bool" where
  "plain_read env info i s v \<longleftrightarrow> EmuX86_Operand_Read env info i s = Inr (Some v, s)"

definition rel_branch :: "dinst \<Rightarrow> bool" where
  "rel_branch info \<longleftrightarrow> op_kind (di_ops info 0) = O_PC \<and> op_bits (di_ops info 0) \<in> {8, 32}"

definition with_flags :: "u32 \<Rightarrow> ('p, 'w) x86 \<Rightarrow> ('p, 'w) x86" where
  "with_flags e = set_ctx (\<lambda>c. c\<lparr>EFlags := e\<rparr>)"

definition at_eip :: "u32 \<Rightarrow> ('p, 'w) x86 \<Rightarrow> ('p, 'w) x86" where
  "at_eip x = set_ctx (\<lambda>c. c\<lparr>Eip := x\<rparr>)"

lemma plain_read_reg:
  "reg_operand info i r n \<Longrightarrow> reg_at r f k n \<Longrightarrow> plain_read env info i s (reg_value f k n s)"
  by (simp add: plain_read_def reg_operand_access)

lemma plain_read_imm:
  "op_kind (di_ops info i) = O_IMM \<Longrightarrow> op_bits (di_ops info i) = 8 * n \<Longrightarrow> n = 1 \<or> n = 2 \<or> n = 4
     \<Longrightarrow> plain_read env info i s (take_bit (8 * n) (imm_dword info))"
  by (simp add: plain_read_def imm_operand_access)

lemma exec_MOV:
  assumes "EmuX86_DecodeOpcode env s = Some info" and "di_opcode info = I_MOV"
    and "reg_operand info 0 r n" and "reg_at r f k n" and "plain_read env info 1 s v"
  shows "EmuX86_DecodeException env s = Inr (True,
    at_eip (eip (reg_update f k n v s) + ucast (di_size info)) (reg_update f k n v s))"
  using assms
  by (simp add: EmuX86_DecodeException_def dispatch_def EmuX86_Opcode_MOV_def or_false_def
      plain_read_def reg_operand_access(2) [OF assms(3,4)] ok_or_error_def finish_def advance_Eip_def
      at_eip_def set_ctx_def eip_def run_simps)

lemma exec_CMP:
  assumes "EmuX86_DecodeOpcode env s = Some info" and "di_opcode info = I_CMP"
    and "plain_read env info 0 s d" and "plain_read env info 1 s v"
    and "op_bits (di_ops info 0) \<le> op_bits (di_ops info 1)"
  shows "EmuX86_DecodeException env s = Inr (True, at_eip (eip s + ucast (di_size info))
    (with_flags (snd (asm_block env (\<lambda>x. sub_op x d v) (EFlags (ContextRecord s)))) s))"
  using assms
  by (simp add: EmuX86_DecodeException_def dispatch_def EmuX86_Opcode_CMP_def or_false_def widen_def
      plain_read_def ok_or_error_def finish_def advance_Eip_def set_EFlags_def get_EFlags_def
      with_flags_def at_eip_def set_ctx_def eip_def run_simps)

lemma exec_Jcc:
  assumes "EmuX86_DecodeOpcode env s = Some info" and "di_opcode info = I_J c" and "rel_branch info"
  shows "EmuX86_DecodeException env s = Inr (True,
    at_eip (if x86_condition c (EFlags (ContextRecord s)) then eip s + INSTRUCTION_GET_TARGET info
            else eip s + ucast (di_size info)) s)"
  using assms
  by (auto simp: EmuX86_DecodeException_def dispatch_def jcc_case_def EmuX86_Opcode_Jcc_def EmuX86_Opcode_JMP_def
      EmuX86_Operand_Addr_ForReadOnly_def rel_branch_def jump_case_def finish_def advance_Eip_def
      get_EFlags_def at_eip_def set_ctx_def eip_def addr_value_def Let_def run_simps)

text \<open>Register names never denote EIP or EFLAGS, and ESP as a dword has one name.\<close>

lemma reg_at_field: "reg_at r f k n \<Longrightarrow> f \<noteq> F_Eip \<and> f \<noteq> F_EFlags"
  by (cases r) (auto simp: reg_at_def)

lemma reg_at_esp: "reg_at r F_Esp k 4 \<Longrightarrow> r = R_ESP"
  by (cases r) (auto simp: reg_at_def)

lemma EFlags_ctx_put: "f \<noteq> F_EFlags \<Longrightarrow> EFlags (ctx_put f v c) = EFlags c"
  by (cases f) simp_all

lemma Esp_ctx_put: "f \<noteq> F_Esp \<Longrightarrow> Esp (ctx_put f v c) = Esp c"
  by (cases f) simp_all

lemma ctx_get_Eip: "f \<noteq> F_Eip \<Longrightarrow> ctx_get f (c\<lparr>Eip := x\<rparr>) = ctx_get f c"
  by (cases f) simp_all

lemma ctx_get_EFlags: "f \<noteq> F_EFlags \<Longrightarrow> ctx_get f (c\<lparr>EFlags := x\<rparr>) = ctx_get f c"
  by (cases f) simp_all

lemma reg_value_update_full:
  "reg_value f 0 4 (reg_update f k n v s) = cell_write (reg_value f 0 4 s) k n v"
  by (simp add: reg_value_def reg_update_def set_ctx_def)

lemma reg_value_at_eip: "f \<noteq> F_Eip \<Longrightarrow> reg_value f k n (at_eip x s) = reg_value f k n s"
  by (simp add: reg_value_def at_eip_def set_ctx_def ctx_get_Eip)

section \<open>The program counter\<close>

text \<open>C21: An emulated instruction that completes reports success. CALL, RET and LEAVE change
  nothing, so that the guest faults on them again; every other instruction that is not a jump
  advances EIP by exactly its length, whatever its operands are.\<close>

theorem x86_eip_progress:
  assumes "EmuX86_DecodeOpcode env s = Some info" and "EmuX86_DecodeException env s = Inr (r, t)"
  shows "r \<and> (di_opcode info \<in> {I_CALL, I_RET, I_LEAVE} \<longrightarrow> t = s)
    \<and> (di_opcode info \<notin> {I_CALL, I_RET, I_LEAVE} \<and> \<not> is_jump (di_opcode info)
        \<longrightarrow> eip t = eip s + ucast (di_size info))"
proof -
  obtain c u where d: "dispatch env info s = Inr (c, u)" and f: "finish info c u = Inr (r, t)"
    using assms by (auto simp: EmuX86_DecodeException_def bnd_eq_Inr_iff)
  have r: r and c: "c \<noteq> OpcodeError"
    using f by (auto simp: finish_def bnd_eq_Inr_iff split: case_end.splits)
  have "t = s" if "di_opcode info \<in> {I_CALL, I_RET, I_LEAVE}"
    using that d f by (auto simp: dispatch_def finish_def)
  moreover have "eip t = eip s + ucast (di_size info)"
    if "di_opcode info \<notin> {I_CALL, I_RET, I_LEAVE}" "\<not> is_jump (di_opcode info)"
  proof (cases "is_other (di_opcode info)")
    case True
    then show ?thesis using d f
      by (auto simp: is_other_def dispatch_def finish_def advance_Eip_def bnd_def set_ctx_def eip_def)
  next
    case False
    have "eip u = eip s" using dispatch_fixed [OF that(2) False] d by (rule fixed_eipD)
    moreover have "c = Break" using dispatch_break [OF that False d] c by blast
    ultimately show ?thesis using f
      by (auto simp: finish_def advance_Eip_def bnd_def set_ctx_def eip_def)
  qed
  ultimately show ?thesis using r by blast
qed

theorem x86_eip_progress_witness:
  "\<exists>t. EmuX86_DecodeException (sample_env (\<lambda>ip. Some (sample_inst I_MOV (reg_opnd R_EAX 4) (reg_opnd R_ECX 4) 2 0)))
         sample_cpu = Inr (True, t) \<and> eip t = 0x1002"
proof -
  let ?i = "sample_inst I_MOV (reg_opnd R_EAX 4) (reg_opnd R_ECX 4) 2 0"
  let ?e = "sample_env (\<lambda>ip. Some ?i)"
  have d: "EmuX86_DecodeOpcode ?e sample_cpu = Some ?i" by (simp add: EmuX86_DecodeOpcode_def sample_defs)
  have ro: "reg_operand ?i 0 R_EAX 4" "reg_at R_EAX F_Eax 0 4" "reg_operand ?i 1 R_ECX 4" "reg_at R_ECX F_Ecx 0 4"
    by (simp_all add: reg_operand_def reg_at_def sample_defs)
  then have p: "plain_read ?e ?i 1 sample_cpu (reg_value F_Ecx 0 4 sample_cpu)"
    by (intro plain_read_reg)
  have i: "di_opcode ?i = I_MOV" by (simp add: sample_inst_def)
  from x86_eip_progress [OF d exec_MOV [OF d i ro(1,2) p]] exec_MOV [OF d i ro(1,2) p] show ?thesis
    by (auto simp: is_jump_def sample_inst_def eip_def sample_cpu_def sample_ctx_def)
qed

section \<open>Comparing and jumping\<close>

text \<open>C15: Emulating a 32-bit CMP and then a conditional jump takes the jump exactly when the
  relation that the condition names holds between the two values: unsigned for JA, JAE, JB and
  JBE, signed for JG, JGE, JL and JLE, equality for JZ and JNZ. Otherwise EIP is behind the jump.\<close>

theorem x86_cmp_jcc:
  assumes "EmuX86_DecodeOpcode env s = Some cmp" and "di_opcode cmp = I_CMP"
    and "plain_read env cmp 0 s d" and "plain_read env cmp 1 s v"
    and "op_bits (di_ops cmp 0) = 32" and "op_bits (di_ops cmp 1) = 32"
    and "EmuX86_DecodeException env s = Inr (r, t)"
    and "EmuX86_DecodeOpcode env t = Some jcc" and "di_opcode jcc = I_J c" and "rel_branch jcc"
    and "arith_rel c d v = Some b"
  shows "\<exists>u. EmuX86_DecodeException env t = Inr (True, u) \<and> eip t = eip s + ucast (di_size cmp)
    \<and> eip u = (if b then eip t + INSTRUCTION_GET_TARGET jcc else eip t + ucast (di_size jcc))"
proof -
  from exec_CMP [OF assms(1-4)] assms(5-7)
  have t: "t = at_eip (eip s + ucast (di_size cmp))
      (with_flags (snd (asm_block env (\<lambda>x. sub_op x d v) (EFlags (ContextRecord s)))) s)" by simp
  then have "x86_condition c (EFlags (ContextRecord t)) = b"
    using cmp_conditions [OF assms(11)] by (simp add: at_eip_def with_flags_def set_ctx_def)
  with exec_Jcc [OF assms(8-10)] t show ?thesis
    by (auto simp: at_eip_def with_flags_def set_ctx_def eip_def)
qed

definition cmp_jl_program :: "u32 \<Rightarrow> dinst option" where
  "cmp_jl_program ip =
     (if ip = 0x1000 then Some (sample_inst I_CMP (reg_opnd R_EAX 4) (reg_opnd R_ECX 4) 2 0)
      else Some (sample_inst (I_J C_L) (kind_opnd O_PC 8) (kind_opnd O_NONE 0) 2 0x20))"

theorem x86_cmp_jcc_witness:
  "\<exists>t u. EmuX86_DecodeException (sample_env cmp_jl_program) sample_cpu = Inr (True, t)
     \<and> EmuX86_DecodeException (sample_env cmp_jl_program) t = Inr (True, u) \<and> eip u = 0x1024"
proof -
  let ?e = "sample_env cmp_jl_program"
  let ?c = "sample_inst I_CMP (reg_opnd R_EAX 4) (reg_opnd R_ECX 4) 2 0"
  let ?j = "sample_inst (I_J C_L) (kind_opnd O_PC 8) (kind_opnd O_NONE 0) 2 0x20"
  have d: "EmuX86_DecodeOpcode ?e sample_cpu = Some ?c"
    by (simp add: EmuX86_DecodeOpcode_def cmp_jl_program_def sample_env_def sample_cpu_def sample_ctx_def)
  have ro: "reg_operand ?c 0 R_EAX 4" "reg_at R_EAX F_Eax 0 4" "reg_operand ?c 1 R_ECX 4" "reg_at R_ECX F_Ecx 0 4"
    by (simp_all add: reg_operand_def reg_at_def sample_inst_def reg_opnd_def)
  have "reg_value F_Eax 0 4 sample_cpu = 5" "reg_value F_Ecx 0 4 sample_cpu = 7"
    by (simp_all add: reg_value_def sample_cpu_def sample_ctx_def)
  then have p: "plain_read ?e ?c 0 sample_cpu 5" "plain_read ?e ?c 1 sample_cpu 7"
    using plain_read_reg [OF ro(1,2), of ?e sample_cpu] plain_read_reg [OF ro(3,4), of ?e sample_cpu] by simp_all
  have f: "di_opcode ?c = I_CMP" "op_bits (di_ops ?c 0) = 32" "op_bits (di_ops ?c 1) = 32"
    "di_opcode ?j = I_J C_L" "rel_branch ?j" "arith_rel C_L 5 7 = Some True"
    "INSTRUCTION_GET_TARGET ?j = 0x22" "di_size ?c = 2"
    by (simp_all add: sample_inst_def reg_opnd_def kind_opnd_def rel_branch_def arith_rel_def INSTRUCTION_GET_TARGET_def)
  from exec_CMP [OF d f(1) p] f obtain t where t: "EmuX86_DecodeException ?e sample_cpu = Inr (True, t)"
    "eip t = 0x1002" by (auto simp: at_eip_def set_ctx_def eip_def sample_cpu_def sample_ctx_def)
  then have "EmuX86_DecodeOpcode ?e t = Some ?j"
    by (simp add: EmuX86_DecodeOpcode_def cmp_jl_program_def sample_env_def eip_def)
  from x86_cmp_jcc [OF d f(1) p f(2,3) t(1) this f(4-6)] t f(7) show ?thesis by auto
qed

text \<open>For 8-bit operands the flags still come from a 32-bit subtraction of the zero-extended
  bytes. A CMP of two bytes followed by a signed jump therefore decides the unsigned relation of
  the bytes: JL is taken as JB, JLE as JBE, JG as JA and JGE as JAE.\<close>

theorem x86_byte_cmp_unsigned:
  assumes "EmuX86_DecodeOpcode env s = Some cmp" and "di_opcode cmp = I_CMP"
    and "plain_read env cmp 0 s (ucast (a :: u8))" and "plain_read env cmp 1 s (ucast (b :: u8))"
    and "op_bits (di_ops cmp 0) = 8" and "op_bits (di_ops cmp 1) = 8"
    and "EmuX86_DecodeException env s = Inr (r, t)"
    and "EmuX86_DecodeOpcode env t = Some jcc" and "rel_branch jcc"
    and "(di_opcode jcc, taken) \<in> {(I_J C_L, a < b), (I_J C_LE, a \<le> b), (I_J C_G, b < a), (I_J C_GE, b \<le> a)}"
  shows "\<exists>u. EmuX86_DecodeException env t = Inr (True, u)
    \<and> eip u = (if taken then eip t + INSTRUCTION_GET_TARGET jcc else eip t + ucast (di_size jcc))"
proof -
  from exec_CMP [OF assms(1-4)] assms(5-7)
  have t: "t = at_eip (eip s + ucast (di_size cmp))
      (with_flags (snd (asm_block env (\<lambda>x. sub_op x (ucast a) (ucast b)) (EFlags (ContextRecord s)))) s)" by simp
  obtain c where c: "di_opcode jcc = I_J c" "arith_rel c (ucast a) (ucast b) = Some taken"
    using assms(10) by (auto simp: arith_rel_def ucast_byte_sless ucast_byte_sle)
  then have "x86_condition c (EFlags (ContextRecord t)) = taken"
    using cmp_conditions [OF c(2)] t by (simp add: at_eip_def with_flags_def set_ctx_def)
  with exec_Jcc [OF assms(8) c(1) assms(9)] show ?thesis
    by (auto simp: at_eip_def set_ctx_def eip_def)
qed

section \<open>Register moves\<close>

text \<open>
  The general registers as IA-32 numbers them: register \<open>i\<close> of the dwords, its low word, and the
  byte registers 0 to 3 (byte 0 of the first four) and 4 to 7 (byte 1 of the same four).
\<close>

definition ia32_gpr :: "ctx_field list" where
  "ia32_gpr = [F_Eax, F_Ecx, F_Edx, F_Ebx, F_Esp, F_Ebp, F_Esi, F_Edi]"

definition ia32_slots :: "(x86_reg \<times> ctx_field \<times> nat \<times> nat) list" where
  "ia32_slots =
     zip [R_EAX, R_ECX, R_EDX, R_EBX, R_ESP, R_EBP, R_ESI, R_EDI] (List.map (\<lambda>f. (f, 0, 4)) ia32_gpr)
     @ zip [R_AX, R_CX, R_DX, R_BX, R_SP, R_BP, R_SI, R_DI] (List.map (\<lambda>f. (f, 0, 2)) ia32_gpr)
     @ zip [R_AL, R_CL, R_DL, R_BL] (List.map (\<lambda>f. (f, 0, 1)) ia32_gpr)
     @ zip [R_AH, R_CH, R_DH, R_BH] (List.map (\<lambda>f. (f, 1, 1)) ia32_gpr)"

definition ia32_slot :: "x86_reg \<Rightarrow> ctx_field \<Rightarrow> nat \<Rightarrow> nat \<Rightarrow> bool" where
  "ia32_slot r f k n \<longleftrightarrow> (r, f, k, n) \<in> set ia32_slots"

lemma ia32_reg_at: "ia32_slot r f k n \<Longrightarrow> reg_at r f k n"
  by (auto simp: ia32_slot_def ia32_slots_def ia32_gpr_def reg_at_def)

text \<open>MOV of a plain source to a register of 1, 2 or 4 bytes stores exactly that many bytes of
  the value at the place that IA-32 gives the register in its 32-bit register (AH is byte 1 of EAX),
  keeps every register that shares no byte with it, the flags, memory and devices, and advances EIP.\<close>

theorem x86_mov_frame:
  assumes "EmuX86_DecodeOpcode env s = Some info" and "di_opcode info = I_MOV"
    and "reg_operand info 0 r n" and "ia32_slot r f k n" and "plain_read env info 1 s v"
  shows "\<exists>t. EmuX86_DecodeException env s = Inr (True, t)
    \<and> reg_value f k n t = take_bit (8 * n) v
    \<and> reg_value f 0 4 t = cell_write (reg_value f 0 4 s) k n v
    \<and> (\<forall>r' f' k' n'. ia32_slot r' f' k' n' \<and> reg_disjoint f k n f' k' n' \<longrightarrow> reg_value f' k' n' t = reg_value f' k' n' s)
    \<and> EFlags (ContextRecord t) = EFlags (ContextRecord s) \<and> xbox_mem t = xbox_mem s
    \<and> g_PCIBus t = g_PCIBus s \<and> eip t = eip s + ucast (di_size info)"
proof -
  let ?u = "reg_update f k n v s" and ?t = "at_eip (eip (reg_update f k n v s) + ucast (di_size info)) (reg_update f k n v s)"
  note at = ia32_reg_at [OF assms(4)]
  note sz = reg_at_size [OF at]
  have f: "f \<noteq> F_Eip" "f \<noteq> F_EFlags" using reg_at_field [OF at] by simp_all
  have "reg_value f' k' n' ?t = reg_value f' k' n' s"
    if "ia32_slot r' f' k' n'" "reg_disjoint f k n f' k' n'" for r' f' k' n'
    using reg_value_update_other [OF that(2)] reg_at_size [OF ia32_reg_at [OF that(1)]] reg_at_field [OF ia32_reg_at [OF that(1)]]
    by (simp add: reg_value_at_eip)
  moreover have "reg_value f k n ?t = take_bit (8 * n) v" "reg_value f 0 4 ?t = cell_write (reg_value f 0 4 s) k n v"
    using f sz by (simp_all add: reg_value_at_eip reg_value_update_full)
  moreover have "EFlags (ContextRecord ?t) = EFlags (ContextRecord s)" "xbox_mem ?t = xbox_mem s"
    "g_PCIBus ?t = g_PCIBus s" "eip ?t = eip s + ucast (di_size info)"
    using f by (simp_all add: at_eip_def reg_update_def set_ctx_def eip_def EFlags_ctx_put Eip_ctx_put)
  ultimately show ?thesis using exec_MOV [OF assms(1-3) at assms(5)] by blast
qed

theorem x86_mov_frame_witness:
  "\<exists>t. EmuX86_DecodeException (sample_env (\<lambda>ip. Some (sample_inst I_MOV (reg_opnd R_BH 1) (kind_opnd O_IMM 8) 2 0xAB)))
         sample_cpu = Inr (True, t) \<and> reg_value F_Ebx 0 4 t = 0x1122AB44 \<and> reg_value F_Eax 0 4 t = 5"
proof -
  let ?i = "sample_inst I_MOV (reg_opnd R_BH 1) (kind_opnd O_IMM 8) 2 0xAB"
  let ?e = "sample_env (\<lambda>ip. Some ?i)"
  have d: "EmuX86_DecodeOpcode ?e sample_cpu = Some ?i" by (simp add: EmuX86_DecodeOpcode_def sample_defs)
  have ro: "reg_operand ?i 0 R_BH 1" "ia32_slot R_BH F_Ebx 1 1" and o: "ia32_slot R_EAX F_Eax 0 4"
    and i: "di_opcode ?i = I_MOV" and dj: "reg_disjoint F_Ebx 1 1 F_Eax 0 4"
    by (simp_all add: reg_operand_def ia32_slot_def ia32_slots_def ia32_gpr_def reg_disjoint_def sample_defs)
  have p: "plain_read ?e ?i 1 sample_cpu 0xAB"
    using plain_read_imm [of ?i 1 1 ?e sample_cpu] by (simp add: sample_inst_def kind_opnd_def)
  have v: "cell_write (reg_value F_Ebx 0 4 sample_cpu) 1 1 0xAB = 0x1122AB44" "reg_value F_Eax 0 4 sample_cpu = 5"
    by (simp_all add: cell_write_def reg_value_def cell_read_def sample_cpu_def sample_ctx_def mask_eq_exp_minus_1)
  from x86_mov_frame [OF d i ro p] obtain t where t: "EmuX86_DecodeException ?e sample_cpu = Inr (True, t)"
    "reg_value F_Ebx 0 4 t = cell_write (reg_value F_Ebx 0 4 sample_cpu) 1 1 0xAB"
    "\<forall>r' f' k' n'. ia32_slot r' f' k' n' \<and> reg_disjoint F_Ebx 1 1 f' k' n'
       \<longrightarrow> reg_value f' k' n' t = reg_value f' k' n' sample_cpu" by blast
  from t(3) o dj have "reg_value F_Eax 0 4 t = reg_value F_Eax 0 4 sample_cpu" by blast
  with t(1,2) v show ?thesis by (intro exI [of _ t]) simp
qed

definition byte_cmp_program :: "u32 \<Rightarrow> dinst option" where
  "byte_cmp_program ip =
     (if ip = 0x1000 then Some (sample_inst I_CMP (reg_opnd R_BL 1) (kind_opnd O_IMM 8) 3 0x80)
      else Some (sample_inst (I_J C_L) (kind_opnd O_PC 8) (kind_opnd O_NONE 0) 2 0x20))"

text \<open>BL is 0x44 and the immediate 0x80, that is 68 against -128: JL is taken although 68 is greater.\<close>

theorem x86_byte_cmp_unsigned_witness:
  "\<exists>t u. EmuX86_DecodeException (sample_env byte_cmp_program) sample_cpu = Inr (True, t)
     \<and> EmuX86_DecodeException (sample_env byte_cmp_program) t = Inr (True, u) \<and> eip u = 0x1025
     \<and> sint (0x44 :: u8) > sint (0x80 :: u8)"
proof -
  let ?e = "sample_env byte_cmp_program"
  let ?c = "sample_inst I_CMP (reg_opnd R_BL 1) (kind_opnd O_IMM 8) 3 0x80"
  let ?j = "sample_inst (I_J C_L) (kind_opnd O_PC 8) (kind_opnd O_NONE 0) 2 0x20"
  have d: "EmuX86_DecodeOpcode ?e sample_cpu = Some ?c"
    by (simp add: EmuX86_DecodeOpcode_def byte_cmp_program_def sample_env_def sample_cpu_def sample_ctx_def)
  have ro: "reg_operand ?c 0 R_BL 1" "reg_at R_BL F_Ebx 0 1"
    by (simp_all add: reg_operand_def reg_at_def sample_inst_def reg_opnd_def)
  have "reg_value F_Ebx 0 1 sample_cpu = 0x44"
    by (simp add: reg_value_def cell_read_def sample_cpu_def sample_ctx_def)
  then have p: "plain_read ?e ?c 0 sample_cpu (ucast (0x44 :: u8))" "plain_read ?e ?c 1 sample_cpu (ucast (0x80 :: u8))"
    using plain_read_reg [OF ro, of ?e sample_cpu] plain_read_imm [of ?c 1 1 ?e sample_cpu]
    by (simp_all add: sample_inst_def kind_opnd_def)
  have f: "di_opcode ?c = I_CMP" "op_bits (di_ops ?c 0) = 8" "op_bits (di_ops ?c 1) = 8" "rel_branch ?j"
    "INSTRUCTION_GET_TARGET ?j = 0x22" "di_size ?c = 3"
    "(di_opcode ?j, True) \<in> {(I_J C_L, (0x44 :: u8) < 0x80), (I_J C_LE, (0x44 :: u8) \<le> 0x80),
       (I_J C_G, 0x80 < (0x44 :: u8)), (I_J C_GE, 0x80 \<le> (0x44 :: u8))}"
    by (simp_all add: sample_inst_def reg_opnd_def kind_opnd_def rel_branch_def INSTRUCTION_GET_TARGET_def)
  from exec_CMP [OF d f(1) p] f obtain t where t: "EmuX86_DecodeException ?e sample_cpu = Inr (True, t)"
    "eip t = 0x1003" by (auto simp: at_eip_def set_ctx_def eip_def sample_cpu_def sample_ctx_def)
  then have "EmuX86_DecodeOpcode ?e t = Some ?j"
    by (simp add: EmuX86_DecodeOpcode_def byte_cmp_program_def sample_env_def eip_def)
  from x86_byte_cmp_unsigned [OF d f(1) p f(2,3) t(1) this f(4,7)] t f(5) show ?thesis by auto
qed

end
