(* ===== verification/X86_Strings.thy ===== *)
theory X86_Strings
  imports X86_Properties
begin

text \<open>
  The stack instructions and REP STOS. The stack lives in guest memory; STOS stores through the
  device handlers, so that REP STOS is compared with a reference loop over bus writes.
\<close>

section \<open>Stack\<close>

lemma exec_PUSH:
  assumes "EmuX86_DecodeOpcode env s = Some info" and "di_opcode info = I_PUSH" and "plain_read env info 0 s v"
  shows "EmuX86_DecodeException env s = Inr (True, at_eip (eip s + ucast (di_size info))
    (set_ctx (\<lambda>c. c\<lparr>Esp := Esp c - 4\<rparr>)
      (s\<lparr>xbox_mem := wr32 (Esp (ContextRecord s) - 4) v (xbox_mem s)\<rparr>)))"
  using assms
  by (simp add: EmuX86_DecodeException_def dispatch_def EmuX86_Opcode_PUSH_def or_false_def plain_read_def
      add_Esp_def get_Esp_def EmuX86_Mem_Write_def ok_or_error_def finish_def advance_Eip_def at_eip_def
      set_ctx_def eip_def run_simps)

lemma exec_POP:
  assumes "EmuX86_DecodeOpcode env s = Some info" and "di_opcode info = I_POP"
    and "reg_operand info 0 r 4" and "reg_at r f 0 4"
  shows "EmuX86_DecodeException env s = Inr (True, at_eip (eip s + ucast (di_size info))
    (reg_update f 0 4 (rd32 (xbox_mem s) (Esp (ContextRecord s) + (if r = R_ESP then 4 else 0)))
      (set_ctx (\<lambda>c. c\<lparr>Esp := Esp c + 4\<rparr>) s)))"
proof -
  have "op_kind (di_ops info 0) = O_REG" "op_index (di_ops info 0) = r" "f \<noteq> F_Eip"
    using assms(3,4) reg_at_field by (auto simp: reg_operand_def)
  then show ?thesis using assms
    by (simp add: EmuX86_DecodeException_def dispatch_def EmuX86_Opcode_POP_def
        add_Esp_def get_Esp_def EmuX86_Mem_Read_def reg_operand_access(2) [OF assms(3,4)] ok_or_error_def
        finish_def advance_Eip_def at_eip_def set_ctx_def eip_def reg_update_def Eip_ctx_put run_simps)
qed

lemma wr32_below: "b \<notin> {a, a + 1, a + 2, a + 3} \<Longrightarrow> wr32 a v m b = m b"
  by (auto simp: wr32_def)

text \<open>PUSH of a dword followed by POP into a dword register other than ESP moves the value to
  the register and restores ESP; the only memory it changes are the four bytes below the stack
  pointer.\<close>

theorem x86_push_pop:
  assumes "EmuX86_DecodeOpcode env s = Some push" and "di_opcode push = I_PUSH" and "plain_read env push 0 s v"
    and "EmuX86_DecodeException env s = Inr (ok, t)"
    and "EmuX86_DecodeOpcode env t = Some pop" and "di_opcode pop = I_POP"
    and "reg_operand pop 0 r 4" and "reg_at r f 0 4" and "r \<noteq> R_ESP"
  shows "\<exists>u. EmuX86_DecodeException env t = Inr (True, u) \<and> reg_value f 0 4 u = v
    \<and> Esp (ContextRecord u) = Esp (ContextRecord s)
    \<and> (\<forall>a. a \<notin> {Esp (ContextRecord s) - 4, Esp (ContextRecord s) - 3, Esp (ContextRecord s) - 2,
              Esp (ContextRecord s) - 1} \<longrightarrow> xbox_mem u a = xbox_mem s a)"
proof -
  have f: "f \<noteq> F_Eip" "f \<noteq> F_Esp" using reg_at_field [OF assms(8)] reg_at_esp assms(8,9) by auto
  let ?p = "Esp (ContextRecord s) - 4"
  from exec_PUSH [OF assms(1-3)] assms(4) have t: "Esp (ContextRecord t) = ?p"
    "xbox_mem t = wr32 ?p v (xbox_mem s)"
    by (auto simp: at_eip_def set_ctx_def)
  let ?u = "at_eip (eip t + ucast (di_size pop)) (reg_update f 0 4 v (set_ctx (\<lambda>c. c\<lparr>Esp := Esp c + 4\<rparr>) t))"
  have "EmuX86_DecodeException env t = Inr (True, ?u)"
    using exec_POP [OF assms(5-8)] assms(9) t by simp
  moreover have "reg_value f 0 4 ?u = v" using f by (simp add: reg_value_at_eip take_bit_word_eq_self)
  moreover have "Esp (ContextRecord ?u) = Esp (ContextRecord s)"
    using f t by (simp add: at_eip_def reg_update_def set_ctx_def Esp_ctx_put)
  moreover have "xbox_mem ?u a = xbox_mem s a" if "a \<notin> {?p, ?p + 1, ?p + 2, ?p + 3}" for a
    using wr32_below [OF that] t by (simp add: at_eip_def reg_update_def set_ctx_def)
  ultimately show ?thesis by (intro exI [of _ ?u]) simp
qed

definition push_pop_program :: "u32 \<Rightarrow> dinst option" where
  "push_pop_program ip =
     (if ip = 0x1000 then Some (sample_inst I_PUSH (reg_opnd R_ECX 4) (kind_opnd O_NONE 0) 1 0)
      else Some (sample_inst I_POP (reg_opnd R_EDX 4) (kind_opnd O_NONE 0) 1 0))"

theorem x86_push_pop_witness:
  "\<exists>t u. EmuX86_DecodeException (sample_env push_pop_program) sample_cpu = Inr (True, t)
     \<and> EmuX86_DecodeException (sample_env push_pop_program) t = Inr (True, u)
     \<and> reg_value F_Edx 0 4 u = 7 \<and> Esp (ContextRecord u) = 0x8000"
proof -
  let ?e = "sample_env push_pop_program"
  let ?i = "sample_inst I_PUSH (reg_opnd R_ECX 4) (kind_opnd O_NONE 0) 1 0"
  let ?j = "sample_inst I_POP (reg_opnd R_EDX 4) (kind_opnd O_NONE 0) 1 0"
  have d: "EmuX86_DecodeOpcode ?e sample_cpu = Some ?i"
    by (simp add: EmuX86_DecodeOpcode_def push_pop_program_def sample_env_def sample_cpu_def sample_ctx_def)
  have ro: "reg_operand ?i 0 R_ECX 4" "reg_at R_ECX F_Ecx 0 4" "reg_operand ?j 0 R_EDX 4" "reg_at R_EDX F_Edx 0 4"
    by (simp_all add: reg_operand_def reg_at_def sample_inst_def reg_opnd_def)
  have "reg_value F_Ecx 0 4 sample_cpu = 7" by (simp add: reg_value_def sample_cpu_def sample_ctx_def)
  then have p: "plain_read ?e ?i 0 sample_cpu 7" using plain_read_reg [OF ro(1,2), of ?e sample_cpu] by simp
  have o: "di_opcode ?i = I_PUSH" "di_opcode ?j = I_POP" "di_size ?i = 1" by (simp_all add: sample_inst_def)
  from exec_PUSH [OF d o(1) p] obtain t where t: "EmuX86_DecodeException ?e sample_cpu = Inr (True, t)"
    "eip t = 0x1001" using o(3) by (auto simp: at_eip_def set_ctx_def eip_def sample_cpu_def sample_ctx_def)
  then have "EmuX86_DecodeOpcode ?e t = Some ?j"
    by (simp add: EmuX86_DecodeOpcode_def push_pop_program_def sample_env_def eip_def)
  from x86_push_pop [OF d o(1) p t(1) this o(2) ro(3,4)] t(1) show ?thesis
    by (auto simp: sample_cpu_def sample_ctx_def)
qed

section \<open>REP STOS\<close>

text \<open>The reference: \<open>k\<close> stores of \<open>n\<close> bytes at addresses that move by \<open>d\<close>.\<close>

fun bus_fill :: "('p, 'w) x86_env \<Rightarrow> u32 \<Rightarrow> nat \<Rightarrow> u32 \<Rightarrow> nat \<Rightarrow> u32 \<Rightarrow> (unit, ('p, 'w) x86) run" where
  "bus_fill env v n d 0 a = ret ()"
| "bus_fill env v n d (Suc k) a = bnd (EmuX86_Write env a v n) (\<lambda>_. bus_fill env v n d k (a + d))"

definition map_state :: "('s \<Rightarrow> 't) \<Rightarrow> fault + ('a \<times> 's) \<Rightarrow> fault + ('a \<times> 't)" where
  "map_state f r = (case r of Inl e \<Rightarrow> Inl e | Inr (a, t) \<Rightarrow> Inr (a, f t))"

lemma map_state_simps [simp]: "map_state f (Inl e) = Inl e" "map_state f (Inr (a, t)) = Inr (a, f t)"
  by (simp_all add: map_state_def)

lemma Write_set_ctx: "EmuX86_Write env a v n (set_ctx f s) = map_state (set_ctx f) (EmuX86_Write env a v n s)"
  by (auto simp: EmuX86_Write_def set_ctx_def on_bus_def map_state_def run_simps split: sum.split)

lemma bus_fill_set_ctx: "bus_fill env v n d k a (set_ctx f s) = map_state (set_ctx f) (bus_fill env v n d k a s)"
  by (induction k arbitrary: a s) (auto simp: Write_set_ctx run_simps map_state_def split: sum.split)

text \<open>The operands of STOS as the decoder gives them: the destination \<open>[EDI]\<close>, the source AL, AX or
  EAX.\<close>

definition stos_operands :: "dinst \<Rightarrow> nat \<Rightarrow> bool" where
  "stos_operands info n \<longleftrightarrow> di_opcode info = I_STOS
     \<and> op_kind (di_ops info 0) = O_SMEM \<and> op_index (di_ops info 0) = R_EDI \<and> op_bits (di_ops info 0) = 8 * n
     \<and> di_disp info = 0 \<and> di_dispSize info = 0
     \<and> (\<exists>r. reg_operand info 1 r n \<and> reg_at r F_Eax 0 n)"

definition stos_step :: "nat \<Rightarrow> u32 \<Rightarrow> u32" where
  "stos_step n eflags = (if EmuX86_HasFlag eflags EFLAG_DF then - of_nat n else of_nat n)"

definition move_index :: "u32 \<Rightarrow> CONTEXT \<Rightarrow> CONTEXT" where
  "move_index x c = c\<lparr>Esi := Esi c + x, Edi := Edi c + x\<rparr>"

lemma stos_advance_step:
  "n = 1 \<or> n = 2 \<or> n = 4 \<Longrightarrow> stos_advance (of_nat n) c = move_index (stos_step n (EFlags c)) c"
  by (auto simp: stos_advance_def stos_step_def move_index_def)

lemma stos_dest_addr:
  assumes "stos_operands info n"
  shows "EmuX86_Operand_Write env info 0 v s =
    bnd (EmuX86_Write env (Edi (ContextRecord s)) v n) (\<lambda>_. ret True) s"
proof -
  have n: "n = 1 \<or> n = 2 \<or> n = 4" using assms reg_at_size by (auto simp: stos_operands_def)
  with assms show ?thesis
    by (auto simp: stos_operands_def EmuX86_Operand_Write_def EmuX86_Operand_Addr_ForReadWrite_def
        EmuX86_Operand_Addr_ForReadOnly_def EmuX86_GetRegisterValue32_def EmuX86_GetRegisterPointer_def
        EmuX86_Distorm_read_disp_def disp_ok_def host_read_def EmuX86_Addr_Write_def Let_def run_simps)
qed

lemma STOS_step:
  assumes "stos_operands info n"
  shows "EmuX86_Opcode_STOS env info s =
    (case EmuX86_Write env (Edi (ContextRecord s)) (reg_value F_Eax 0 n s) n s of
       Inl e \<Rightarrow> Inl e
     | Inr (u, t) \<Rightarrow> Inr (True, set_ctx (move_index (stos_step n (EFlags (ContextRecord s)))) t))"
proof -
  obtain r where r: "reg_operand info 1 r n" "reg_at r F_Eax 0 n" using assms by (auto simp: stos_operands_def)
  have n: "n = 1 \<or> n = 2 \<or> n = 4" using reg_at_size [OF r(2)] by simp
  have b: "op_bits (di_ops info 1) div 8 = n" using r(1) by (simp add: reg_operand_def)
  show ?thesis
    by (auto simp: EmuX86_Opcode_STOS_def or_false_def reg_operand_access(1) [OF r] stos_dest_addr [OF assms]
        b stos_advance_step [OF n] set_ctx_def bnd_def same_cpu_def split: sum.splits
        simp del: One_nat_def dest: EmuX86_Write_cpu)
qed

lemma stos_loop_fill:
  assumes "stos_operands info n"
  shows "stos_loop env info k s =
    (case bus_fill env (reg_value F_Eax 0 n s) n (stos_step n (EFlags (ContextRecord s))) k
            (Edi (ContextRecord s)) s of
       Inl e \<Rightarrow> Inl e
     | Inr (u, t) \<Rightarrow> Inr (Break, set_ctx (move_index (of_nat k * stos_step n (EFlags (ContextRecord s)))) t))"
proof (induction k arbitrary: s)
  case 0
  then show ?case by (simp add: set_ctx_def move_index_def)
next
  case (Suc k)
  show ?case
  proof (cases "EmuX86_Write env (Edi (ContextRecord s)) (reg_value F_Eax 0 n s) n s")
    case (Inl e)
    then show ?thesis by (simp add: STOS_step [OF assms] bnd_def)
  next
    case (Inr ut)
    then obtain u t where t: "EmuX86_Write env (Edi (ContextRecord s)) (reg_value F_Eax 0 n s) n s = Inr (u, t)"
      by (cases ut) auto
    let ?d = "stos_step n (EFlags (ContextRecord s))"
    let ?v = "set_ctx (move_index ?d) t"
    have c: "ContextRecord t = ContextRecord s" using EmuX86_Write_cpu [OF t] by (simp add: same_cpu_def)
    have v: "reg_value F_Eax 0 n ?v = reg_value F_Eax 0 n s" "EFlags (ContextRecord ?v) = EFlags (ContextRecord s)"
      "Edi (ContextRecord ?v) = Edi (ContextRecord s) + ?d"
      using c by (simp_all add: reg_value_def set_ctx_def move_index_def)
    have m: "set_ctx (move_index (of_nat k * ?d)) (set_ctx (move_index ?d) x)
        = set_ctx (move_index (of_nat (Suc k) * ?d)) x" for x :: "('a, 'b) x86"
      by (simp add: set_ctx_def move_index_def algebra_simps)
    show ?thesis
      using Suc.IH [of ?v] unfolding v bus_fill_set_ctx
      by (simp add: STOS_step [OF assms] t bnd_def m map_state_def split: sum.split)
  qed
qed

text \<open>C34: REP STOS ends after exactly ECX stores through the bus, of the low bytes of EAX, at EDI and
  then at addresses that move by the operand size in the direction of DF. It leaves ECX zero and
  EDI behind the last store, and moves ESI, which STOS does not own, by the same amount.\<close>

theorem x86_rep_stos:
  assumes "EmuX86_DecodeOpcode env s = Some info" and "stos_operands info n" and "di_flags info AND 7 = 4"
  shows "EmuX86_DecodeException env s =
    (let c = ContextRecord s; d = stos_step n (EFlags c) in
     case bus_fill env (reg_value F_Eax 0 n s) n d (unat (Ecx c)) (Edi c) s of
       Inl e \<Rightarrow> Inl e
     | Inr (u, t) \<Rightarrow> Inr (True, at_eip (Eip c + ucast (di_size info))
           (set_ctx (\<lambda>x. x\<lparr>Ecx := 0, Edi := Edi c + Ecx c * d, Esi := Esi c + Ecx c * d\<rparr>) t)))"
proof -
  let ?z = "\<lambda>c. c\<lparr>Ecx := 0\<rparr>"
  have o: "di_opcode info = I_STOS" using assms(2) by (simp add: stos_operands_def)
  have z: "reg_value F_Eax 0 n (set_ctx ?z s) = reg_value F_Eax 0 n s"
    "ContextRecord (set_ctx ?z s) = ContextRecord s\<lparr>Ecx := 0\<rparr>"
    by (simp_all add: reg_value_def set_ctx_def)
  have c: "ContextRecord t = ContextRecord s" if "bus_fill env v n d k a s = Inr (u, t)" for v d k a u t
    using that by (induction k arbitrary: a s) (auto simp: bnd_eq_Inr_iff same_cpu_def dest!: EmuX86_Write_cpu)
  show ?thesis
    using stos_loop_fill [OF assms(2), of env "unat (Ecx (ContextRecord s))" "set_ctx ?z s"] assms(1,3) o
    unfolding z bus_fill_set_ctx
    by (auto simp: EmuX86_DecodeException_def dispatch_def stos_case_def bnd_def finish_def advance_Eip_def
        map_state_def at_eip_def set_ctx_def move_index_def c Let_def split: sum.split)
qed

definition rep_stosd :: dinst where
  "rep_stosd = (sample_inst I_STOS \<lparr>op_kind = O_SMEM, op_index = R_EDI, op_bits = 32\<rparr> (reg_opnd R_EAX 4) 2 0)
     \<lparr>di_flags := 4\<rparr>"

lemma no_device_write:
  "bus_Devices (g_PCIBus s) = [] \<Longrightarrow> EmuX86_Write env a v n s = Inr ((), s)"
  by (simp add: EmuX86_Write_def on_bus_def bus_MMIOWrite_def mmio_route_def run_simps)

lemma no_device_fill: "bus_Devices (g_PCIBus s) = [] \<Longrightarrow> bus_fill env v n d k a s = Inr ((), s)"
  by (induction k arbitrary: a) (simp_all add: no_device_write bnd_def)

theorem x86_rep_stos_witness:
  "\<exists>t. EmuX86_DecodeException (sample_env (\<lambda>ip. Some rep_stosd)) sample_cpu = Inr (True, t)
     \<and> Ecx (ContextRecord t) = 0 \<and> Edi (ContextRecord t) = 0xFD00001C \<and> Esi (ContextRecord t) = 0x11C
     \<and> eip t = 0x1002"
proof -
  let ?e = "sample_env (\<lambda>ip. Some rep_stosd)"
  have d: "EmuX86_DecodeOpcode ?e sample_cpu = Some rep_stosd" by (simp add: EmuX86_DecodeOpcode_def sample_env_def)
  have "reg_operand rep_stosd 1 R_EAX 4" "reg_at R_EAX F_Eax 0 4"
    by (simp_all add: reg_operand_def reg_at_def rep_stosd_def sample_inst_def reg_opnd_def)
  then have o: "stos_operands rep_stosd 4"
    by (auto simp: stos_operands_def rep_stosd_def sample_inst_def)
  have f: "di_flags rep_stosd AND 7 = 4" "di_size rep_stosd = 2" by (simp_all add: rep_stosd_def sample_inst_def)
  have "bus_Devices (g_PCIBus sample_cpu) = []" by (simp add: sample_cpu_def)
  note b = no_device_fill [OF this]
  have st: "stos_step 4 0x202 = 4" by (simp add: stos_step_def EmuX86_HasFlag_def)
  have c: "Ecx (ContextRecord sample_cpu) = 7" "Edi (ContextRecord sample_cpu) = 0xFD000000"
    "Esi (ContextRecord sample_cpu) = 0x100" "Eip (ContextRecord sample_cpu) = 0x1000"
    "EFlags (ContextRecord sample_cpu) = 0x202"
    by (simp_all add: sample_cpu_def sample_ctx_def)
  from x86_rep_stos [OF d o f(1)] show ?thesis
    unfolding b Let_def c st f by (simp add: at_eip_def set_ctx_def eip_def)
qed

end
