(* ===== verification/X86_Quirks.thy ===== *)
theory X86_Quirks
  imports X86_Strings
begin

text \<open>
  MOVSX, and the instructions whose emulation is not the processor's: NEG, indirect jumps, JCXZ
  and POP ESP.
\<close>

section \<open>Sign extension\<close>

lemma high24: "(0xFFFFFF00 :: u32) = NOT (mask 8)"
  by (simp add: mask_eq_exp_minus_1)

lemma high16: "(0xFFFF0000 :: u32) = NOT (mask 16)"
  by (simp add: mask_eq_exp_minus_1)

lemma only7: "7 \<le> n \<Longrightarrow> \<not> 8 \<le> n \<Longrightarrow> n = 7" for n :: nat
  by simp

lemma only15: "15 \<le> n \<Longrightarrow> \<not> 16 \<le> n \<Longrightarrow> n = 15" for n :: nat
  by simp

lemma movsx_byte: "movsx_value 8 (take_bit 8 v) = scast (ucast v :: u8)"
proof -
  have "take_bit 8 v AND 0x80 \<noteq> 0 \<longleftrightarrow> bit v 7"
    using and_exp_eq_0_iff_not_bit [of "take_bit 8 v" 7] by (simp add: bit_simps)
  then show ?thesis
    by (intro bit_word_eqI) (auto simp: movsx_value_def high24 bit_simps not_less min_def dest!: only7)
qed

lemma movsx_word: "movsx_value 16 (take_bit 16 v) = scast (ucast v :: u16)"
proof -
  have "take_bit 16 v AND 0x8000 \<noteq> 0 \<longleftrightarrow> bit v 15"
    using and_exp_eq_0_iff_not_bit [of "take_bit 16 v" 15] by (simp add: bit_simps)
  then show ?thesis
    by (intro bit_word_eqI) (auto simp: movsx_value_def high16 bit_simps not_less min_def dest!: only15)
qed

lemma sint_scast_byte: "sint (scast (b :: u8) :: u32) = sint b"
  by (simp add: sint_up_scast is_up)

lemma sint_scast_word: "sint (scast (h :: u16) :: u32) = sint h"
  by (simp add: sint_up_scast is_up)

lemma exec_MOVSX:
  assumes "EmuX86_DecodeOpcode env s = Some info" and "di_opcode info = I_MOVSX"
    and "reg_operand info 0 r n" and "reg_at r f k n" and "plain_read env info 1 s v"
  shows "EmuX86_DecodeException env s = Inr (True, at_eip (eip s + ucast (di_size info))
    (reg_update f k n (movsx_value (op_bits (di_ops info 1)) v) s))"
  using assms reg_at_field [OF assms(4)]
  by (simp add: EmuX86_DecodeException_def dispatch_def EmuX86_Opcode_MOVSX_def or_false_def
      plain_read_def reg_operand_access(2) [OF assms(3,4)] ok_or_error_def finish_def advance_Eip_def
      at_eip_def set_ctx_def eip_def reg_update_def Eip_ctx_put run_simps)

text \<open>MOVSX to a dword register gives the signed value of the byte or word source at 32 bits.\<close>

theorem x86_movsx_sign:
  assumes "EmuX86_DecodeOpcode env s = Some info" and "di_opcode info = I_MOVSX"
    and "reg_operand info 0 r 4" and "reg_at r f 0 4"
    and "reg_operand info 1 r' n" and "reg_at r' f' k' n" and "n = 1 \<or> n = 2"
  shows "\<exists>t. EmuX86_DecodeException env s = Inr (True, t)
    \<and> sint (reg_value f 0 4 t) = (if n = 1 then sint (ucast (reg_value f' k' n s) :: u8)
                                   else sint (ucast (reg_value f' k' n s) :: u16))"
proof -
  have f: "f \<noteq> F_Eip" using reg_at_field [OF assms(4)] by simp
  have v: "reg_value f' k' n s = take_bit (8 * n) (reg_value f' k' n s)"
    by (simp add: reg_value_def cell_read_def)
  have b: "op_bits (di_ops info 1) = 8 * n" using assms(5) by (simp add: reg_operand_def)
  have "movsx_value (8 * n) (reg_value f' k' n s) =
      (if n = 1 then scast (ucast (reg_value f' k' n s) :: u8) else scast (ucast (reg_value f' k' n s) :: u16))"
    using assms(7) movsx_byte [of "reg_value f' k' n s"] movsx_word [of "reg_value f' k' n s"] v by auto
  with exec_MOVSX [OF assms(1-4) plain_read_reg [OF assms(5,6)]] f b assms(7) show ?thesis
    by (auto simp: reg_value_at_eip take_bit_word_eq_self sint_scast_byte sint_scast_word)
qed

theorem x86_movsx_sign_witness:
  "\<exists>t. EmuX86_DecodeException (sample_env (\<lambda>ip. Some (sample_inst I_MOVSX (reg_opnd R_EAX 4) (reg_opnd R_CL 1) 3 0)))
     (set_ctx (\<lambda>c. c\<lparr>Ecx := 0x12FE\<rparr>) sample_cpu) = Inr (True, t) \<and> sint (reg_value F_Eax 0 4 t) = - 2"
proof -
  let ?i = "sample_inst I_MOVSX (reg_opnd R_EAX 4) (reg_opnd R_CL 1) 3 0"
  let ?e = "sample_env (\<lambda>ip. Some ?i)"
  let ?s = "set_ctx (\<lambda>c. c\<lparr>Ecx := 0x12FE\<rparr>) sample_cpu"
  have d: "EmuX86_DecodeOpcode ?e ?s = Some ?i" by (simp add: EmuX86_DecodeOpcode_def sample_env_def)
  have ro: "reg_operand ?i 0 R_EAX 4" "reg_at R_EAX F_Eax 0 4" "reg_operand ?i 1 R_CL 1" "reg_at R_CL F_Ecx 0 1"
    by (simp_all add: reg_operand_def reg_at_def sample_inst_def reg_opnd_def)
  have v: "reg_value F_Ecx 0 1 ?s = 0xFE" "di_opcode ?i = I_MOVSX"
    by (simp_all add: reg_value_def cell_read_def set_ctx_def sample_inst_def)
  have "sint (ucast (0xFE :: u32) :: u8) = - 2" by simp
  with x86_movsx_sign [OF d v(2) ro] show ?thesis unfolding v(1) by auto
qed

section \<open>NEG\<close>

lemma exec_NEG:
  assumes "EmuX86_DecodeOpcode env s = Some info" and "di_opcode info = I_NEG"
    and "reg_operand info 0 r 4" and "reg_at r f 0 4"
  defines "d \<equiv> reg_value f 0 4 s"
  shows "EmuX86_DecodeException env s = Inr (True, at_eip (eip s + ucast (di_size info))
    (with_flags (EmuX86_SetFlags_OSZAPC False (bit (- d) 31) (d = 0) (bit (- d) 3) (\<not> parity_even (- d)) (d \<noteq> 0)
       (EFlags (ContextRecord s))) (reg_update f 0 4 (- d) s)))"
proof -
  have "op_bits (di_ops info 0) = 32" "f \<noteq> F_Eip" "f \<noteq> F_EFlags"
    using assms(3) reg_at_field [OF assms(4)] by (auto simp: reg_operand_def)
  then show ?thesis
    using assms(1,2) reg_operand_addr(2) [OF assms(3,4)] OF_Sub_neg [of 32 d]
    by (simp add: EmuX86_DecodeException_def dispatch_def EmuX86_Opcode_NEG_def or_false_def
        reg_operand_addr(2) [OF assms(3,4)] reg_addr_access [OF assms(4)] d_def Let_def
        ok_or_error_def finish_def advance_Eip_def set_EFlags_def get_EFlags_def SFCalc_bit AFCalc_neg
        PFCalc_odd ZFCalc_def with_flags_def at_eip_def set_ctx_def eip_def reg_update_def
        Eip_ctx_put EFlags_ctx_put run_simps)
qed

text \<open>NEG of a dword register stores the negated value and sets CF, ZF and SF as the processor
  does. OF is always cleared, also for 0x80000000, whose negation overflows; AF is bit 3 of the
  result; PF is set for odd parity, the reverse of the processor's.\<close>

theorem x86_neg_flags:
  assumes "EmuX86_DecodeOpcode env s = Some info" and "di_opcode info = I_NEG"
    and "reg_operand info 0 r 4" and "reg_at r f 0 4"
  shows "\<exists>t. EmuX86_DecodeException env s = Inr (True, t) \<and> reg_value f 0 4 t = - reg_value f 0 4 s
    \<and> (let e = EFlags (ContextRecord t); d = reg_value f 0 4 s in
        EmuX86_HasFlag e EFLAG_CF = (d \<noteq> 0) \<and> EmuX86_HasFlag e EFLAG_ZF = (d = 0)
      \<and> EmuX86_HasFlag e EFLAG_SF = (sint (- d) < 0) \<and> \<not> EmuX86_HasFlag e EFLAG_OF
      \<and> EmuX86_HasFlag e EFLAG_AF = bit (- d) 3 \<and> EmuX86_HasFlag e EFLAG_PF = (\<not> parity_even (- d)))"
proof -
  have f: "f \<noteq> F_Eip" "f \<noteq> F_EFlags" using reg_at_field [OF assms(4)] by auto
  have "bit (- reg_value f 0 4 s) 31 \<longleftrightarrow> sint (- reg_value f 0 4 s) < 0"
    using bit_last_iff [of "- reg_value f 0 4 s"] by simp
  then show ?thesis using exec_NEG [OF assms] f
    by (auto simp: Let_def HasFlag_bit OSZAPC_flags at_eip_def with_flags_def set_ctx_def reg_value_def reg_update_def
        ctx_get_Eip ctx_get_EFlags)
qed

theorem x86_neg_flags_witness:
  "\<exists>t. EmuX86_DecodeException (sample_env (\<lambda>ip. Some (sample_inst I_NEG (reg_opnd R_EAX 4) (kind_opnd O_NONE 0) 2 0)))
     (set_ctx (\<lambda>c. c\<lparr>Eax := 0x80000000\<rparr>) sample_cpu) = Inr (True, t)
     \<and> reg_value F_Eax 0 4 t = 0x80000000 \<and> \<not> EmuX86_HasFlag (EFlags (ContextRecord t)) EFLAG_OF"
proof -
  let ?i = "sample_inst I_NEG (reg_opnd R_EAX 4) (kind_opnd O_NONE 0) 2 0"
  let ?s = "set_ctx (\<lambda>c. c\<lparr>Eax := 0x80000000\<rparr>) sample_cpu"
  have d: "EmuX86_DecodeOpcode (sample_env (\<lambda>ip. Some ?i)) ?s = Some ?i"
    by (simp add: EmuX86_DecodeOpcode_def sample_env_def)
  have ro: "reg_operand ?i 0 R_EAX 4" "reg_at R_EAX F_Eax 0 4" "di_opcode ?i = I_NEG"
    by (simp_all add: reg_operand_def reg_at_def sample_inst_def reg_opnd_def)
  have "reg_value F_Eax 0 4 ?s = 0x80000000" by (simp add: reg_value_def set_ctx_def)
  with x86_neg_flags [OF d ro(3,1,2)] show ?thesis by (auto simp: Let_def)
qed

section \<open>Jumps\<close>

text \<open>An indirect jump does not load its target. JMP through a register sets EIP to the host
  address of the register's slot in the context record, whatever the register holds; JMP through
  an absolute memory operand sets EIP to the operand's address, whatever the memory holds.\<close>

theorem x86_jmp_indirect:
  assumes "EmuX86_DecodeOpcode env s = Some info" and "di_opcode info = I_JMP"
    and "(reg_operand info 0 r 4 \<and> reg_at r f 0 4 \<and> x = host_addr env (P_Ctx f 0))
       \<or> (op_kind (di_ops info 0) = O_DISP \<and> di_dispSize info = 32 \<and> x = ucast (di_disp info))"
  shows "EmuX86_DecodeException env s = Inr (True, at_eip x s)"
  using assms(3)
proof
  assume r: "reg_operand info 0 r 4 \<and> reg_at r f 0 4 \<and> x = host_addr env (P_Ctx f 0)"
  then have o: "reg_operand info 0 r 4" "reg_at r f 0 4" by simp_all
  show ?thesis using assms(1,2) r
    by (simp add: EmuX86_DecodeException_def dispatch_def EmuX86_Opcode_JMP_def reg_operand_addr(1) [OF o]
        jump_case_def finish_def at_eip_def addr_value_def run_simps)
next
  assume r: "op_kind (di_ops info 0) = O_DISP \<and> di_dispSize info = 32 \<and> x = ucast (di_disp info)"
  then show ?thesis using assms(1,2)
    by (simp add: EmuX86_DecodeException_def dispatch_def EmuX86_Opcode_JMP_def
        EmuX86_Operand_Addr_ForReadOnly_def EmuX86_Distorm_read_disp_def disp_ok_def Let_def
        jump_case_def finish_def at_eip_def addr_value_def run_simps)
qed

theorem x86_jmp_indirect_witness:
  "EmuX86_DecodeException (sample_env (\<lambda>ip. Some (sample_inst I_JMP (reg_opnd R_EAX 4) (kind_opnd O_NONE 0) 2 0)))
     sample_cpu = Inr (True, at_eip 0x7FFE0010 sample_cpu) \<and> Eax (ContextRecord sample_cpu) = 5"
proof -
  let ?i = "sample_inst I_JMP (reg_opnd R_EAX 4) (kind_opnd O_NONE 0) 2 0"
  let ?e = "sample_env (\<lambda>ip. Some ?i)"
  have d: "EmuX86_DecodeOpcode ?e sample_cpu = Some ?i" by (simp add: EmuX86_DecodeOpcode_def sample_env_def)
  have ro: "reg_operand ?i 0 R_EAX 4 \<and> reg_at R_EAX F_Eax 0 4 \<and> 0x7FFE0010 = host_addr ?e (P_Ctx F_Eax 0)"
    and o: "di_opcode ?i = I_JMP" and v: "Eax (ContextRecord sample_cpu) = 5"
    by (simp_all add: reg_operand_def reg_at_def sample_inst_def reg_opnd_def sample_env_def sample_cpu_def
        sample_ctx_def)
  from x86_jmp_indirect [OF d o disjI1 [OF ro]] v show ?thesis by blast
qed

text \<open>JCXZ tests eight bits of ECX instead of sixteen: it jumps exactly when CL is zero, so that
  it also jumps for CX = 0x100.\<close>

theorem x86_jcxz_tests_cl:
  assumes "EmuX86_DecodeOpcode env s = Some info" and "di_opcode info = I_JCXZ" and "rel_branch info"
  shows "EmuX86_DecodeException env s = Inr (True,
    at_eip (if reg_value F_Ecx 0 1 s = 0 then eip s + INSTRUCTION_GET_TARGET info
            else eip s + ucast (di_size info)) s)"
proof -
  have "Ecx (ContextRecord s) AND 0xFF = reg_value F_Ecx 0 1 s"
    by (simp add: reg_value_def cell_read_def mask_simps)
  then show ?thesis using assms
    by (auto simp: EmuX86_DecodeException_def dispatch_def EmuX86_Opcode_Jcc_def EmuX86_Opcode_JMP_def
        EmuX86_Operand_Addr_ForReadOnly_def rel_branch_def jump_case_def finish_def advance_Eip_def
        at_eip_def set_ctx_def eip_def addr_value_def Let_def run_simps)
qed

theorem x86_jcxz_tests_cl_witness:
  "\<exists>t. EmuX86_DecodeException (sample_env (\<lambda>ip. Some (sample_inst I_JCXZ (kind_opnd O_PC 8) (kind_opnd O_NONE 0) 3 0x10)))
     (set_ctx (\<lambda>c. c\<lparr>Ecx := 0x100\<rparr>) sample_cpu) = Inr (True, t) \<and> eip t = 0x1013"
proof -
  let ?i = "sample_inst I_JCXZ (kind_opnd O_PC 8) (kind_opnd O_NONE 0) 3 0x10"
  let ?s = "set_ctx (\<lambda>c. c\<lparr>Ecx := 0x100\<rparr>) sample_cpu"
  have d: "EmuX86_DecodeOpcode (sample_env (\<lambda>ip. Some ?i)) ?s = Some ?i"
    by (simp add: EmuX86_DecodeOpcode_def sample_env_def)
  have o: "di_opcode ?i = I_JCXZ" "rel_branch ?i" "INSTRUCTION_GET_TARGET ?i = 0x13"
    by (simp_all add: sample_inst_def kind_opnd_def rel_branch_def INSTRUCTION_GET_TARGET_def)
  have v: "reg_value F_Ecx 0 1 ?s = 0" "eip ?s = 0x1000"
    by (simp_all add: reg_value_def cell_read_def set_ctx_def eip_def sample_cpu_def sample_ctx_def)
  from x86_jcxz_tests_cl [OF d o(1,2)] show ?thesis
    unfolding v o(3) by (simp add: at_eip_def set_ctx_def eip_def)
qed

section \<open>POP ESP\<close>

text \<open>POP ESP loads the second dword of the stack, the one at ESP + 4, into ESP; the processor
  loads the top of the stack.\<close>

theorem x86_pop_esp:
  assumes "EmuX86_DecodeOpcode env s = Some info" and "di_opcode info = I_POP" and "reg_operand info 0 R_ESP 4"
  shows "\<exists>t. EmuX86_DecodeException env s = Inr (True, t)
    \<and> Esp (ContextRecord t) = rd32 (xbox_mem s) (Esp (ContextRecord s) + 4)"
proof -
  have "reg_at R_ESP F_Esp 0 4" by (simp add: reg_at_def)
  from exec_POP [OF assms this] show ?thesis
    by (auto simp: at_eip_def set_ctx_def reg_update_def)
qed

theorem x86_pop_esp_witness:
  "\<exists>t. EmuX86_DecodeException (sample_env (\<lambda>ip. Some (sample_inst I_POP (reg_opnd R_ESP 4) (kind_opnd O_NONE 0) 1 0)))
     (sample_cpu\<lparr>xbox_mem := wr32 0x8004 0x9000 (wr32 0x8000 0xA000 (xbox_mem sample_cpu))\<rparr>) = Inr (True, t)
     \<and> Esp (ContextRecord t) = 0x9000"
proof -
  let ?i = "sample_inst I_POP (reg_opnd R_ESP 4) (kind_opnd O_NONE 0) 1 0"
  let ?s = "sample_cpu\<lparr>xbox_mem := wr32 0x8004 0x9000 (wr32 0x8000 0xA000 (xbox_mem sample_cpu))\<rparr>"
  have d: "EmuX86_DecodeOpcode (sample_env (\<lambda>ip. Some ?i)) ?s = Some ?i"
    by (simp add: EmuX86_DecodeOpcode_def sample_env_def)
  have o: "di_opcode ?i = I_POP" "reg_operand ?i 0 R_ESP 4"
    by (simp_all add: sample_inst_def reg_operand_def reg_opnd_def)
  have "Esp (ContextRecord ?s) + 4 = 0x8004" by (simp add: sample_cpu_def sample_ctx_def)
  with x86_pop_esp [OF d o] show ?thesis by simp
qed

end
