(* ===== verification/Nv_Net.thy ===== *)
theory Nv_Net
  imports Pci_Bus
begin

text \<open>
  The network adapter \<open>src/devices/network/NVNetDevice.{h,cpp}\<close>.

  \<open>NvNetState\<close> is modelled as the bytes of the struct, because the register array
  \<open>regs[MMIO_SIZE / 4]\<close> has 256 bytes while registers up to 0x3FF are addressed: accesses beyond
  the array reach the members that follow it. Offsets in the struct: \<open>phy_regs\<close> at 256, the four
  ring counters at 280 to 283, \<open>txrx_dma_buf\<close> (1628 bytes) at 284, two unused pointers up to 1920.
  An access beyond the struct is a fault.

  Guest memory, the interrupt line and the packets given to the capture library are parts of the
  device's state; the frames that the library delivers are an argument of the receive step.
\<close>

section \<open>State\<close>

record nvnet =
  nv_pci :: pci_dev
  nv_state :: "nat \<Rightarrow> u8"
  nv_mem :: mem
  nv_irq :: bool
  m_PCAPRunning :: bool
  m_HostMacAddress :: "u8 list"
  m_GuestMacAddress :: "u8 list"
  nv_sent :: "u8 list list"

abbreviation (input) TX_RING_INDEX :: nat where "TX_RING_INDEX \<equiv> 280"
abbreviation (input) TX_RING_SIZE :: nat where "TX_RING_SIZE \<equiv> 281"
abbreviation (input) RX_RING_INDEX :: nat where "RX_RING_INDEX \<equiv> 282"
abbreviation (input) RX_RING_SIZE :: nat where "RX_RING_SIZE \<equiv> 283"
abbreviation (input) TXRX_DMA_BUF :: nat where "TXRX_DMA_BUF \<equiv> 284"
abbreviation (input) STATE_SIZE :: nat where "STATE_SIZE \<equiv> 1920"

abbreviation (input) NvRegIrqStatus :: u32 where "NvRegIrqStatus \<equiv> 0x000"
abbreviation (input) NvRegIrqMask :: u32 where "NvRegIrqMask \<equiv> 0x004"
abbreviation (input) NvRegMacAddrA :: u32 where "NvRegMacAddrA \<equiv> 0x0A8"
abbreviation (input) NvRegMacAddrB :: u32 where "NvRegMacAddrB \<equiv> 0x0AC"
abbreviation (input) NvRegTxRingPhysAddr :: u32 where "NvRegTxRingPhysAddr \<equiv> 0x100"
abbreviation (input) NvRegRxRingPhysAddr :: u32 where "NvRegRxRingPhysAddr \<equiv> 0x104"
abbreviation (input) NvRegRingSizes :: u32 where "NvRegRingSizes \<equiv> 0x108"
abbreviation (input) NvRegUnknownSetupReg5 :: u32 where "NvRegUnknownSetupReg5 \<equiv> 0x130"
abbreviation (input) NvRegUnknownSetupReg3 :: u32 where "NvRegUnknownSetupReg3 \<equiv> 0x134"
abbreviation (input) NvRegTxRxControl :: u32 where "NvRegTxRxControl \<equiv> 0x144"
abbreviation (input) NvRegMIIStatus :: u32 where "NvRegMIIStatus \<equiv> 0x180"
abbreviation (input) NvRegMIIControl :: u32 where "NvRegMIIControl \<equiv> 0x190"
abbreviation (input) NvRegMIIData :: u32 where "NvRegMIIData \<equiv> 0x194"
abbreviation (input) NVREG_IRQSTAT_BIT1 :: u32 where "NVREG_IRQSTAT_BIT1 \<equiv> 0x002"
abbreviation (input) NVREG_IRQSTAT_BIT4 :: u32 where "NVREG_IRQSTAT_BIT4 \<equiv> 0x010"
abbreviation (input) CONTIGUOUS_MEMORY_BASE :: u32 where "CONTIGUOUS_MEMORY_BASE \<equiv> 0x80000000"

section \<open>Registers\<close>

text \<open>The little-endian value of \<open>n\<close> bytes of the struct, and their assignment.\<close>

fun st_read :: "(nat \<Rightarrow> u8) \<Rightarrow> nat \<Rightarrow> nat \<Rightarrow> u32" where
  "st_read m k 0 = 0"
| "st_read m k (Suc n) = ucast (m k) OR push_bit 8 (st_read m (k + 1) n)"

fun st_write :: "(nat \<Rightarrow> u8) \<Rightarrow> nat \<Rightarrow> nat \<Rightarrow> u32 \<Rightarrow> nat \<Rightarrow> u8" where
  "st_write m k 0 v = m"
| "st_write m k (Suc n) v = (st_write m (k + 1) n (drop_bit 8 v))(k := ucast v)"

text \<open>The index \<open>addr >> 2\<close> into the array seen as dwords, \<open>addr >> 1\<close> as words.\<close>

definition reg_offset :: "u32 \<Rightarrow> nat \<Rightarrow> nat" where
  "reg_offset addr n = n * (unat addr div n)"

definition EmuNVNet_GetRegister :: "u32 \<Rightarrow> nat \<Rightarrow> (u32, nvnet) run" where
  "EmuNVNet_GetRegister addr n s =
     (if n = 4 \<or> n = 2 \<or> n = 1 then
        (if reg_offset addr n + n \<le> STATE_SIZE then Inr (st_read (nv_state s) (reg_offset addr n) n, s)
         else Inl OutOfBounds)
      else Inr (0, s))"

definition EmuNVNet_SetRegister :: "u32 \<Rightarrow> u32 \<Rightarrow> nat \<Rightarrow> (unit, nvnet) run" where
  "EmuNVNet_SetRegister addr v n s =
     (if n = 4 \<or> n = 2 \<or> n = 1 then
        (if reg_offset addr n + n \<le> STATE_SIZE
         then Inr ((), s\<lparr>nv_state := st_write (nv_state s) (reg_offset addr n) n v\<rparr>) else Inl OutOfBounds)
      else Inr ((), s))"

definition EmuNVNet_UpdateIRQ :: "(unit, nvnet) run" where
  "EmuNVNet_UpdateIRQ =
     bnd (EmuNVNet_GetRegister NvRegIrqMask 4) (\<lambda>irqmask.
     bnd (EmuNVNet_GetRegister NvRegIrqStatus 4) (\<lambda>status.
     modify (\<lambda>s. s\<lparr>nv_irq := (irqmask \<noteq> 0 \<and> status \<noteq> 0)\<rparr>)))"

definition EmuNVNet_MiiReadWrite :: "(u32, nvnet) run" where
  "EmuNVNet_MiiReadWrite =
     bnd (EmuNVNet_GetRegister NvRegMIIControl 4) (\<lambda>mii_ctl.
     let phy_addr = drop_bit 5 mii_ctl AND 0x1F; reg = mii_ctl AND 0x1F in
     ret (if phy_addr \<noteq> 1 then - 1
          else if mii_ctl AND 0x08000 \<noteq> 0 then 0
          else if reg = 0x01 then 0x0024
          else if reg = 0x04 \<or> reg = 0x05 then 0x03E0
          else 0))"

definition EmuNVNet_Read :: "u32 \<Rightarrow> nat \<Rightarrow> (u32, nvnet) run" where
  "EmuNVNet_Read addr n =
     (if addr = NvRegMIIData then EmuNVNet_MiiReadWrite
      else if addr = NvRegMIIControl then
        bnd (EmuNVNet_GetRegister addr n) (\<lambda>v. ret (v AND NOT 0x10000))
      else if addr = NvRegMIIStatus then ret 0
      else EmuNVNet_GetRegister addr n)"

section \<open>Transmission\<close>

record ring_desc =
  packet_buffer :: u32
  desc_length :: u16
  desc_flags :: u16

definition read_desc :: "mem \<Rightarrow> u32 \<Rightarrow> ring_desc" where
  "read_desc m a = \<lparr>packet_buffer = rd32 m a, desc_length = ucast (rd16 m (a + 4)), desc_flags = ucast (rd16 m (a + 6))\<rparr>"

definition write_desc :: "u32 \<Rightarrow> ring_desc \<Rightarrow> mem \<Rightarrow> mem" where
  "write_desc a d m = wr16 (a + 6) (ucast (desc_flags d)) (wr16 (a + 4) (ucast (desc_length d)) (wr32 a (packet_buffer d) m))"

definition NV_TX_VALID :: "u16 \<Rightarrow> bool" where "NV_TX_VALID fl \<longleftrightarrow> bit fl 15"
definition NV_TX_LASTPACKET :: "u16 \<Rightarrow> bool" where "NV_TX_LASTPACKET fl \<longleftrightarrow> bit fl 0"

text \<open>VALID, RETRYERROR, DEFERRED, CARRIERLOST, LATECOLLISION, UNDERFLOW and ERROR.\<close>

abbreviation (input) TX_CLEARED_FLAGS :: u16 where "TX_CLEARED_FLAGS \<equiv> 0xFC08"

definition guest_bytes :: "mem \<Rightarrow> u32 \<Rightarrow> nat \<Rightarrow> u8 list" where
  "guest_bytes m a n = map (\<lambda>i. m (a + of_nat i)) [0..<n]"

definition PCAPSend :: "u8 list \<Rightarrow> nvnet \<Rightarrow> nvnet" where
  "PCAPSend packet s =
     (if \<not> m_PCAPRunning s then s
      else s\<lparr>nv_sent := nv_sent s
             @ (if take 6 packet = replicate 6 0xFF then [m_HostMacAddress s @ drop 6 packet] else [])
             @ [packet]\<rparr>)"

text \<open>\<open>memcpy\<close> into the packet buffer of the struct.\<close>

definition fill_dma_buf :: "u8 list \<Rightarrow> (nat \<Rightarrow> u8) \<Rightarrow> nat \<Rightarrow> u8" where
  "fill_dma_buf packet st k =
     (if TXRX_DMA_BUF \<le> k \<and> k < TXRX_DMA_BUF + length packet then packet ! (k - TXRX_DMA_BUF) else st k)"

definition ring_addr :: "u32 \<Rightarrow> u8 \<Rightarrow> u32" where
  "ring_addr base i = (base + ucast i * 8) OR CONTIGUOUS_MEMORY_BASE"

definition advance_index :: "nat \<Rightarrow> nat \<Rightarrow> nvnet \<Rightarrow> u8 \<times> nvnet" where
  "advance_index ix sz s = (let i = nv_state s ix mod nv_state s sz in (i, s\<lparr>nv_state := (nv_state s)(ix := i + 1)\<rparr>))"

text \<open>One transmission: copy the packet to the buffer, send it, update the descriptor.\<close>

definition tx_packet :: "u32 \<Rightarrow> ring_desc \<Rightarrow> (unit, nvnet) run" where
  "tx_packet a d s =
     (let n = unat (desc_length d) + 1;
          packet = guest_bytes (nv_mem s) (packet_buffer d OR CONTIGUOUS_MEMORY_BASE) n in
      if TXRX_DMA_BUF + n > STATE_SIZE then Inl OutOfBounds
      else Inr ((), (PCAPSend packet (s\<lparr>nv_state := fill_dma_buf packet (nv_state s)\<rparr>))
             \<lparr>nv_mem := write_desc a (d\<lparr>desc_flags := desc_flags d AND NOT TX_CLEARED_FLAGS,
                                       desc_length := desc_length d + 5\<rparr>) (nv_mem s)\<rparr>))"

text \<open>The loop runs at most \<open>tx_ring_size\<close> times; the result is \<open>packet_sent\<close>.\<close>

fun tx_loop :: "nat \<Rightarrow> bool \<Rightarrow> (bool, nvnet) run" where
  "tx_loop 0 sent = ret sent"
| "tx_loop (Suc k) sent =
     bnd (get (advance_index TX_RING_INDEX TX_RING_SIZE)) (\<lambda>(i, s').
     bnd (EmuNVNet_GetRegister NvRegTxRingPhysAddr 4) (\<lambda>base.
     bnd (modify (\<lambda>_. s')) (\<lambda>_.
     bnd (get (\<lambda>s. read_desc (nv_mem s) (ring_addr base i))) (\<lambda>d.
     if \<not> NV_TX_VALID (desc_flags d) then tx_loop k sent
     else bnd (tx_packet (ring_addr base i) d) (\<lambda>_.
          if NV_TX_LASTPACKET (desc_flags d) then ret True else tx_loop k True)))))"

definition EmuNVNet_DMAPacketFromGuest :: "(unit, nvnet) run" where
  "EmuNVNet_DMAPacketFromGuest =
     bnd (get (\<lambda>s. unat (nv_state s TX_RING_SIZE))) (\<lambda>n.
     bnd (tx_loop n False) (\<lambda>packet_sent.
     if packet_sent then
       bnd (EmuNVNet_SetRegister NvRegIrqStatus NVREG_IRQSTAT_BIT4 4) (\<lambda>_. EmuNVNet_UpdateIRQ)
     else ret ()))"

section \<open>Reception\<close>

fun write_bytes :: "u32 \<Rightarrow> u8 list \<Rightarrow> mem \<Rightarrow> mem" where
  "write_bytes a [] m = m"
| "write_bytes a (b # bs) m = write_bytes (a + 1) bs (m(a := b))"

text \<open>AVAIL; and DESCRIPTORVALID with BIT4.\<close>

fun rx_loop :: "u8 list \<Rightarrow> nat \<Rightarrow> (bool, nvnet) run" where
  "rx_loop packet 0 = ret False"
| "rx_loop packet (Suc k) =
     bnd (get (advance_index RX_RING_INDEX RX_RING_SIZE)) (\<lambda>(i, s').
     bnd (EmuNVNet_GetRegister NvRegRxRingPhysAddr 4) (\<lambda>base.
     bnd (modify (\<lambda>_. s')) (\<lambda>_.
     bnd (get (\<lambda>s. read_desc (nv_mem s) (ring_addr base i))) (\<lambda>d.
     if \<not> bit (desc_flags d) 15 \<or> unat (desc_length d) < length packet then rx_loop packet k
     else bnd (modify (\<lambda>s. s\<lparr>nv_mem := write_desc (ring_addr base i)
                (d\<lparr>desc_length := of_nat (length packet), desc_flags := 0x0011\<rparr>)
                (write_bytes (packet_buffer d OR CONTIGUOUS_MEMORY_BASE) packet (nv_mem s))\<rparr>)) (\<lambda>_.
          bnd (EmuNVNet_SetRegister NvRegIrqStatus NVREG_IRQSTAT_BIT1 4) (\<lambda>_.
          bnd EmuNVNet_UpdateIRQ (\<lambda>_. ret True)))))))"

definition EmuNVNet_DMAPacketToGuest :: "u8 list \<Rightarrow> (bool, nvnet) run" where
  "EmuNVNet_DMAPacketToGuest packet =
     bnd (get (\<lambda>s. unat (nv_state s RX_RING_SIZE))) (\<lambda>n. rx_loop packet n)"

text \<open>\<open>PCAPReceive\<close> keeps a frame of the capture library when it is for the guest or broadcast;
  one round of the receiver thread passes a kept, non-empty frame on.\<close>

definition PCAPReceive :: "u8 list option \<Rightarrow> nvnet \<Rightarrow> u8 list option" where
  "PCAPReceive frame s =
     (if \<not> m_PCAPRunning s then None
      else case frame of None \<Rightarrow> None
           | Some p \<Rightarrow> if take 6 p = m_GuestMacAddress s \<or> take 6 p = replicate 6 0xFF then Some p else None)"

definition NVNetRecvThread_step :: "u8 list option \<Rightarrow> (unit, nvnet) run" where
  "NVNetRecvThread_step frame =
     bnd (get (PCAPReceive frame)) (\<lambda>r. case r of
       Some p \<Rightarrow> if p \<noteq> [] then bnd (EmuNVNet_DMAPacketToGuest p) (\<lambda>_. ret ()) else ret ()
     | None \<Rightarrow> ret ())"

section \<open>Register writes and the PCI functions\<close>

definition set_ring_sizes :: "u32 \<Rightarrow> nvnet \<Rightarrow> nvnet" where
  "set_ring_sizes v s = s\<lparr>nv_state := (nv_state s)
     (RX_RING_SIZE := ucast ((drop_bit 16 v AND 0xFFFF) + 1), TX_RING_SIZE := ucast ((v AND 0xFFFF) + 1))\<rparr>"

definition write_TxRxControl :: "u32 \<Rightarrow> nat \<Rightarrow> (unit, nvnet) run" where
  "write_TxRxControl v n =
     bnd (if v = 1 then EmuNVNet_DMAPacketFromGuest else ret ()) (\<lambda>_.
     if v AND 4 \<noteq> 0 then EmuNVNet_SetRegister NvRegTxRxControl 0x0008 4
     else if v AND 2 \<noteq> 0 then EmuNVNet_SetRegister NvRegIrqStatus 0 4
     else if v = 0 then
       bnd (EmuNVNet_GetRegister NvRegUnknownSetupReg3 4) (\<lambda>temp.
       if temp = 0x200010 then EmuNVNet_SetRegister NvRegUnknownSetupReg5 0x80000000 4
       else EmuNVNet_SetRegister NvRegTxRxControl v n)
     else EmuNVNet_SetRegister NvRegTxRxControl v n)"

definition EmuNVNet_Write :: "u32 \<Rightarrow> u32 \<Rightarrow> nat \<Rightarrow> (unit, nvnet) run" where
  "EmuNVNet_Write addr v n =
     (if addr = NvRegRingSizes then
        bnd (EmuNVNet_SetRegister addr v n) (\<lambda>_. modify (set_ring_sizes v))
      else if addr = NvRegMIIData then bnd EmuNVNet_MiiReadWrite (\<lambda>_. ret ())
      else if addr = NvRegTxRxControl then write_TxRxControl v n
      else if addr = NvRegIrqMask then bnd (EmuNVNet_SetRegister addr v n) (\<lambda>_. EmuNVNet_UpdateIRQ)
      else if addr = NvRegIrqStatus then
        bnd (EmuNVNet_GetRegister addr n) (\<lambda>old.
        bnd (EmuNVNet_SetRegister addr (old AND NOT v) n) (\<lambda>_. EmuNVNet_UpdateIRQ))
      else EmuNVNet_SetRegister addr v n)"

text \<open>\<open>r0\<close> is the uninitialised local register union; \<open>mac\<close> the address of the host adapter, if
  there is one, and \<open>opened\<close> whether the capture library opens it.\<close>

definition NVNet_Init :: "u32 \<Rightarrow> u8 list option \<Rightarrow> bool \<Rightarrow> (unit, nvnet) run" where
  "NVNet_Init r0 mac opened = modify (\<lambda>s.
     let r = set_Memory_address 0xFEF0000 (set_Raw_type PCI_BAR_TYPE_MEMORY r0);
         r' = set_IO_address 0xE000 (set_Raw_type PCI_BAR_TYPE_IO r);
         s' = s\<lparr>nv_pci := (snd (RegisterBAR 1 8 r' (snd (RegisterBAR 0 0x400 r (nv_pci s)))))
                 \<lparr>m_DeviceId := 0x01C3, m_VendorId := PCI_VENDOR_ID_NVIDIA\<rparr>,
               nv_state := (\<lambda>k. if k < 256 \<or> (280 \<le> k \<and> k < 284) then 0 else nv_state s k)\<rparr> in
     case mac of None \<Rightarrow> s'
     | Some a \<Rightarrow> s'\<lparr>m_HostMacAddress := a, m_PCAPRunning := opened\<rparr>)"

definition NVNet_Reset :: "(unit, nvnet) run" where
  "NVNet_Reset = ret ()"

definition NVNet_IORead :: "int \<Rightarrow> u32 \<Rightarrow> nat \<Rightarrow> (u32, nvnet) run" where
  "NVNet_IORead barIndex port n = ret 0"

definition NVNet_IOWrite :: "int \<Rightarrow> u32 \<Rightarrow> u32 \<Rightarrow> nat \<Rightarrow> (unit, nvnet) run" where
  "NVNet_IOWrite barIndex port v n = ret ()"

definition NVNet_MMIORead :: "int \<Rightarrow> u32 \<Rightarrow> nat \<Rightarrow> (u32, nvnet) run" where
  "NVNet_MMIORead barIndex addr n = (if barIndex \<noteq> 0 then ret 0 else EmuNVNet_Read addr n)"

definition cache_mac :: "u32 \<Rightarrow> nvnet \<Rightarrow> nvnet" where
  "cache_mac addr s =
     (if addr = NvRegMacAddrA then s\<lparr>m_GuestMacAddress := map (\<lambda>i. nv_state s (0xA8 + i)) [0, 1, 2, 3] @ drop 4 (m_GuestMacAddress s)\<rparr>
      else if addr = NvRegMacAddrB then s\<lparr>m_GuestMacAddress := take 4 (m_GuestMacAddress s) @ map (\<lambda>i. nv_state s (0xAC + i)) [0, 1]\<rparr>
      else s)"

definition NVNet_MMIOWrite :: "int \<Rightarrow> u32 \<Rightarrow> u32 \<Rightarrow> nat \<Rightarrow> (unit, nvnet) run" where
  "NVNet_MMIOWrite barIndex addr v n =
     (if barIndex \<noteq> 0 then ret ()
      else bnd (EmuNVNet_Write addr v n) (\<lambda>_. modify (cache_mac addr)))"

end
