(* ===== verification/Nv_Facts.thy ===== *)
theory Nv_Facts
  imports Nv_Net
begin

text \<open>
  Register round trips, transmission and interrupts of the network adapter, and the effects of the
  register array that is four times too small.
\<close>

section \<open>Bytes of the struct\<close>

lemma ucast_succ_u8: "ucast (x + 1 :: u32) = (ucast x + 1 :: u8)"
  by (simp add: word_eq_iff_unsigned [where 'a = nat] unsigned_ucast_eq unat_word_ariths unsigned_take_bit_eq)
    (simp add: take_bit_eq_mod mod_mod_cancel mod_simps)

lemma st_write_outside: "j < k \<or> k + n \<le> j \<Longrightarrow> st_write m k n v j = m j"
  by (induction m k n v rule: st_write.induct) auto

lemma st_read_cong: "(\<And>j. k \<le> j \<Longrightarrow> j < k + n \<Longrightarrow> m j = m' j) \<Longrightarrow> st_read m k n = st_read m' k n"
  by (induction m k n rule: st_read.induct) auto

lemma st_read_write_same: "st_read (st_write m k n v) k n = take_bit (8 * n) v"
proof (induction m k n v rule: st_write.induct)
  case (2 m k n v)
  have "st_read ((st_write m (k + 1) n (drop_bit 8 v))(k := ucast v)) (k + 1) n
      = st_read (st_write m (k + 1) n (drop_bit 8 v)) (k + 1) n"
    by (rule st_read_cong) auto
  then have "st_read (st_write m k (Suc n) v) k (Suc n) = ucast (ucast v :: u8) OR push_bit 8 (take_bit (8 * n) (drop_bit 8 v))"
    using 2 by simp
  also have "\<dots> = take_bit (8 * Suc n) v"
    by (rule bit_word_eqI) (auto simp: bit_simps)
  finally show ?case .
qed simp

lemma st_read_write_other:
  assumes "k' + n' \<le> k \<or> k + n \<le> k'"
  shows "st_read (st_write m k n v) k' n' = st_read m k' n'"
  by (rule st_read_cong) (use assms in \<open>auto intro: st_write_outside\<close>)

section \<open>Registers\<close>

text \<open>An aligned dword register inside the adapter's window.\<close>

definition dword_reg :: "u32 \<Rightarrow> bool" where
  "dword_reg a \<longleftrightarrow> unat a mod 4 = 0 \<and> unat a < 0x400"

lemma reg_offset_aligned: "dword_reg a \<Longrightarrow> reg_offset a 4 = unat a"
  by (auto simp: dword_reg_def reg_offset_def)

lemma GetRegister4: "dword_reg a \<Longrightarrow> EmuNVNet_GetRegister a 4 s = Inr (st_read (nv_state s) (unat a) 4, s)"
  by (auto simp: EmuNVNet_GetRegister_def reg_offset_aligned) (auto simp: dword_reg_def)

lemma SetRegister4:
  "dword_reg a \<Longrightarrow> EmuNVNet_SetRegister a v 4 s = Inr ((), s\<lparr>nv_state := st_write (nv_state s) (unat a) 4 v\<rparr>)"
  by (auto simp: EmuNVNet_SetRegister_def reg_offset_aligned) (auto simp: dword_reg_def)

definition reg4 :: "u32 \<Rightarrow> nvnet \<Rightarrow> u32" where
  "reg4 a s = st_read (nv_state s) (unat a) 4"

lemma dword_regs [simp]:
  "dword_reg 0" "dword_reg 4" "dword_reg 0x100" "dword_reg 0x104" "dword_reg 0x108" "dword_reg 0x130"
  "dword_reg 0x134" "dword_reg 0x144" "dword_reg 0x190"
  by (simp_all add: dword_reg_def)

text \<open>The registers whose writes have no other effect and whose reads are plain.\<close>

definition plain_reg :: "u32 \<Rightarrow> bool" where
  "plain_reg a \<longleftrightarrow> a \<notin> {0, 4, 0x108, 0x144, 0x180, 0x190, 0x194}"

lemma dword_regs_apart:
  assumes "dword_reg a" and "dword_reg b" and "b \<noteq> a"
  shows "unat b + 4 \<le> unat a \<or> unat a + 4 \<le> unat b"
proof -
  have "unat a \<noteq> unat b" using assms(3) by (metis unsigned_word_eqI)
  then show ?thesis using assms(1,2) unfolding dword_reg_def by presburger
qed

text \<open>A dword written to a plain register of the adapter is read back, no other dword register of
  the window changes, and neither guest memory nor the interrupt line is touched.\<close>

theorem nvnet_register_roundtrip:
  assumes "dword_reg a" and "plain_reg a"
  shows "\<exists>t. NVNet_MMIOWrite 0 a v 4 s = Inr ((), t) \<and> NVNet_MMIORead 0 a 4 t = Inr (v, t)
    \<and> (\<forall>b. dword_reg b \<and> b \<noteq> a \<longrightarrow> reg4 b t = reg4 b s) \<and> nv_mem t = nv_mem s \<and> nv_irq t = nv_irq s"
proof -
  let ?t = "cache_mac a (s\<lparr>nv_state := st_write (nv_state s) (unat a) 4 v\<rparr>)"
  have c: "nv_state ?t = st_write (nv_state s) (unat a) 4 v" "nv_mem ?t = nv_mem s" "nv_irq ?t = nv_irq s"
    by (simp_all add: cache_mac_def)
  have "NVNet_MMIOWrite 0 a v 4 s = Inr ((), ?t)"
    using assms by (simp add: NVNet_MMIOWrite_def EmuNVNet_Write_def SetRegister4 plain_reg_def bnd_def)
  moreover have "NVNet_MMIORead 0 a 4 ?t = Inr (v, ?t)"
    using assms c by (simp add: NVNet_MMIORead_def EmuNVNet_Read_def GetRegister4 plain_reg_def st_read_write_same
        take_bit_word_eq_self)
  moreover have "reg4 b ?t = reg4 b s" if "dword_reg b" "b \<noteq> a" for b
    using dword_regs_apart [OF assms(1) that] c(1) by (simp add: reg4_def st_read_write_other)
  ultimately show ?thesis using c by blast
qed

definition sample_nvnet :: nvnet where
  "sample_nvnet = \<lparr>nv_pci = \<lparr>m_BAR = [], m_DeviceId = 0x01C3, m_VendorId = 0x10DE\<rparr>, nv_state = (\<lambda>_. 0),
     nv_mem = (\<lambda>_. 0), nv_irq = False, m_PCAPRunning = True, m_HostMacAddress = [2, 0, 0, 0, 0, 1],
     m_GuestMacAddress = [0x00, 0x50, 0xF2, 0x00, 0x00, 0x34], nv_sent = []\<rparr>"

theorem nvnet_register_roundtrip_witness:
  "\<exists>t. NVNet_MMIOWrite 0 0x100 0x03FF0000 4 sample_nvnet = Inr ((), t) \<and> NVNet_MMIORead 0 0x100 4 t = Inr (0x03FF0000, t)"
proof -
  have "plain_reg 0x100" by (simp add: plain_reg_def)
  from nvnet_register_roundtrip [OF _ this, of "0x03FF0000" sample_nvnet] show ?thesis by auto
qed

section \<open>Interrupts\<close>

definition irq_wanted :: "nvnet \<Rightarrow> bool" where
  "irq_wanted s \<longleftrightarrow> reg4 NvRegIrqMask s \<noteq> 0 \<and> reg4 NvRegIrqStatus s \<noteq> 0"

lemma UpdateIRQ: "EmuNVNet_UpdateIRQ s = Inr ((), s\<lparr>nv_irq := irq_wanted s\<rparr>)"
  by (simp add: EmuNVNet_UpdateIRQ_def bnd_def GetRegister4 irq_wanted_def reg4_def)

text \<open>A dword write to the interrupt status register clears exactly the written bits, a write to
  the mask register stores the mask, and both leave the interrupt line asserted exactly when mask
  and status are non-zero. A write of bit 1 to TxRxControl clears the whole status without
  updating the line, so that an asserted line stays asserted.\<close>

theorem nvnet_irq_line:
  "(\<exists>t. EmuNVNet_Write NvRegIrqStatus v 4 s = Inr ((), t)
      \<and> reg4 NvRegIrqStatus t = reg4 NvRegIrqStatus s AND NOT v \<and> nv_irq t = irq_wanted t)
   \<and> (\<exists>t. EmuNVNet_Write NvRegIrqMask v 4 s = Inr ((), t) \<and> reg4 NvRegIrqMask t = v \<and> nv_irq t = irq_wanted t)
   \<and> (\<exists>t. EmuNVNet_Write NvRegTxRxControl 2 4 s = Inr ((), t) \<and> reg4 NvRegIrqStatus t = 0 \<and> nv_irq t = nv_irq s)"
  by (simp add: EmuNVNet_Write_def write_TxRxControl_def bnd_def GetRegister4 SetRegister4 UpdateIRQ
      irq_wanted_def reg4_def st_read_write_same take_bit_word_eq_self)

section \<open>Transmission\<close>

text \<open>Where the next descriptor is, and what it says.\<close>

definition tx_index :: "nvnet \<Rightarrow> u8" where
  "tx_index s = nv_state s TX_RING_INDEX mod nv_state s TX_RING_SIZE"

definition tx_addr :: "nvnet \<Rightarrow> u32" where
  "tx_addr s = ring_addr (reg4 NvRegTxRingPhysAddr s) (tx_index s)"

definition tx_desc :: "nvnet \<Rightarrow> ring_desc" where
  "tx_desc s = read_desc (nv_mem s) (tx_addr s)"

definition tx_bytes :: "nvnet \<Rightarrow> u8 list" where
  "tx_bytes s = guest_bytes (nv_mem s) (packet_buffer (tx_desc s) OR CONTIGUOUS_MEMORY_BASE)
     (unat (desc_length (tx_desc s)) + 1)"

definition done_desc :: "ring_desc \<Rightarrow> ring_desc" where
  "done_desc d = d\<lparr>desc_flags := desc_flags d AND NOT TX_CLEARED_FLAGS, desc_length := desc_length d + 5\<rparr>"

lemma length_tx_bytes: "length (tx_bytes s) = unat (desc_length (tx_desc s)) + 1"
  by (simp add: tx_bytes_def guest_bytes_def)

lemma PCAPSend_fields [simp]:
  "nv_state (PCAPSend p s) = nv_state s" "nv_mem (PCAPSend p s) = nv_mem s" "nv_irq (PCAPSend p s) = nv_irq s"
  by (simp_all add: PCAPSend_def)

text \<open>One pass of the loop on a valid descriptor that is the last of its packet.\<close>

lemma tx_loop_last:
  assumes "NV_TX_VALID (desc_flags (tx_desc s))" and "NV_TX_LASTPACKET (desc_flags (tx_desc s))"
    and "length (tx_bytes s) \<le> 1628"
  defines "t \<equiv> (PCAPSend (tx_bytes s) (s\<lparr>nv_state := fill_dma_buf (tx_bytes s)
      ((nv_state s)(TX_RING_INDEX := tx_index s + 1))\<rparr>))
      \<lparr>nv_mem := write_desc (tx_addr s) (done_desc (tx_desc s)) (nv_mem s)\<rparr>"
  shows "tx_loop (Suc k) sent s = Inr (True, t)"
proof -
  have "st_read ((nv_state s)(TX_RING_INDEX := x)) 256 4 = st_read (nv_state s) 256 4" for x
    by (rule st_read_cong) simp
  then show ?thesis using assms
    by (simp add: bnd_def advance_index_def Let_def GetRegister4 tx_index_def tx_addr_def tx_desc_def reg4_def
        tx_packet_def tx_bytes_def guest_bytes_def done_desc_def)
qed


lemma st_read4:
  "st_read m k 4 = ucast (m k) OR push_bit 8 (ucast (m (k + 1)) OR push_bit 8 (ucast (m (k + 2))
     OR push_bit 8 (ucast (m (k + 3)))))"
  by (simp add: numeral_eq_Suc)

lemma zero_neq_255: "(0 :: u8) \<noteq> 255"
  by simp

definition sample_desc :: ring_desc where
  "sample_desc = \<lparr>packet_buffer = 0x1000, desc_length = 119, desc_flags = 0x8001\<rparr>"

definition sample_tx :: nvnet where
  "sample_tx = sample_nvnet\<lparr>nv_state := (\<lambda>_. 0)(TX_RING_SIZE := 1, 4 := 1),
     nv_mem := write_desc 0x80000000 sample_desc (\<lambda>_. 0)\<rparr>"

lemma sample_tx_desc: "tx_desc sample_tx = sample_desc"
proof -
  have "reg4 NvRegTxRingPhysAddr sample_tx = 0" "tx_index sample_tx = 0"
    by (simp_all add: reg4_def sample_tx_def tx_index_def st_read4)
  then have "tx_addr sample_tx = 0x80000000" by (simp add: tx_addr_def ring_addr_def)
  then show ?thesis
    by (simp add: tx_desc_def sample_tx_def read_desc_def write_desc_def sample_desc_def rd32_def rd16_def wr32_def wr16_def)
qed

lemma sample_tx_facts:
  "NV_TX_VALID (desc_flags (tx_desc sample_tx))" "NV_TX_LASTPACKET (desc_flags (tx_desc sample_tx))"
  "unat (desc_length (tx_desc sample_tx)) = 119" "take 6 (tx_bytes sample_tx) \<noteq> replicate 6 0xFF"
  "length (tx_bytes sample_tx) = 120"
proof -
  have "hd (tx_bytes sample_tx) = 0"
    by (simp add: tx_bytes_def guest_bytes_def sample_tx_desc sample_desc_def hd_map)
      (simp add: sample_tx_def write_desc_def wr32_def wr16_def)
  moreover have "tx_bytes sample_tx \<noteq> []" by (simp add: tx_bytes_def guest_bytes_def)
  ultimately have "hd (take 6 (tx_bytes sample_tx)) = 0" by simp
  moreover have "hd (replicate 6 (0xFF :: u8)) = 0xFF" by simp
  ultimately show "take 6 (tx_bytes sample_tx) \<noteq> replicate 6 0xFF" by (metis zero_neq_255)
qed (simp_all add: sample_tx_desc sample_desc_def NV_TX_VALID_def NV_TX_LASTPACKET_def length_tx_bytes bit_numeral_rec)


text \<open>The packet buffer lies where the registers from 0x11C on are stored: sending a packet of at
  least 120 bytes makes the MII control register read as its bytes 116 to 119.\<close>

theorem nvnet_packet_clobbers_mii:
  assumes "NV_TX_VALID (desc_flags (tx_desc s))" and "NV_TX_LASTPACKET (desc_flags (tx_desc s))"
    and "120 \<le> length (tx_bytes s)" and "length (tx_bytes s) \<le> 1628"
  shows "\<exists>t. tx_loop (Suc k) False s = Inr (True, t)
    \<and> reg4 NvRegMIIControl t = st_read (\<lambda>i. tx_bytes s ! i) 116 4"
proof -
  have "st_read (fill_dma_buf p m) 400 4 = st_read (\<lambda>i. p ! i) 116 4" if "120 \<le> length p" for p m
    using that by (simp add: fill_dma_buf_def eval_nat_numeral)
  then show ?thesis using tx_loop_last [OF assms(1,2,4)] assms(3) by (simp add: reg4_def del: tx_loop.simps)
qed

theorem nvnet_packet_clobbers_mii_witness:
  "\<exists>t. tx_loop 1 False sample_tx = Inr (True, t) \<and> reg4 0x190 t = st_read (\<lambda>i. tx_bytes sample_tx ! i) 116 4"
  using nvnet_packet_clobbers_mii [of sample_tx 0] sample_tx_facts by (simp del: tx_loop.simps)

text \<open>The ring sizes are kept in bytes. Setting a transmit ring of 256 descriptors (or any
  multiple) stores the size 0, and from then on a kick sends nothing: it only stores the control
  register.\<close>

theorem nvnet_ring_256_dead:
  assumes "take_bit 8 v = 0xFF"
  shows "\<exists>t u. EmuNVNet_Write NvRegRingSizes v 4 s = Inr ((), t) \<and> nv_state t TX_RING_SIZE = 0
    \<and> EmuNVNet_Write NvRegTxRxControl 1 4 t = Inr ((), u) \<and> nv_sent u = nv_sent s \<and> nv_mem u = nv_mem s"
proof -
  have "ucast ((v AND 0xFFFF) + 1) = (ucast (take_bit 8 v) + 1 :: u8)"
  proof -
    have "ucast (v AND 0xFFFF) = (ucast (take_bit 8 v) :: u8)"
      by (rule bit_word_eqI) (auto simp: mask_simps bit_simps)
    moreover have "ucast (x + 1 :: u32) = (ucast x + 1 :: u8)" for x
      by (rule ucast_succ_u8)
    ultimately show ?thesis by simp
  qed
  then have "ucast ((v AND 0xFFFF) + 1) = (0 :: u8)" using assms by simp
  then show ?thesis
    by (simp add: EmuNVNet_Write_def write_TxRxControl_def EmuNVNet_DMAPacketFromGuest_def bnd_def SetRegister4
        set_ring_sizes_def)
qed

theorem nvnet_ring_256_dead_witness:
  "\<exists>t u. EmuNVNet_Write 0x108 0x001F00FF 4 sample_tx = Inr ((), t) \<and> EmuNVNet_Write 0x144 1 4 t = Inr ((), u)
     \<and> nv_sent u = []"
proof -
  have "take_bit 8 (0x001F00FF :: u32) = 0xFF" by simp
  from nvnet_ring_256_dead [OF this, of sample_tx] show ?thesis by (auto simp: sample_tx_def sample_nvnet_def)
qed

end
