(* ===== verification/Xbox_Hw.thy ===== *)
theory Xbox_Hw
  imports Hal_Smbus Nv_Facts
begin

text \<open>
  \<open>InitXboxHardware\<close> of \<open>src/devices/Xbox.cpp\<close>: the revisions of the components for a hardware
  model and the devices on the PCI bus.

  The world holds the SMBus controller of \<open>Sm_Bus\<close> and the network adapter of \<open>Nv_Net\<close>. The
  virtual functions of the two other devices on the bus, the graphics processor and the USB
  controller, are parameters that act on a state \<open>'x\<close> of their own.
\<close>

section \<open>Hardware revisions\<close>

text \<open>The enumerators of \<open>HardwareModel\<close>; \<open>Retail\<close> is \<open>Revision1_0\<close>.\<close>

datatype HardwareModel =
    Revision1_0 | Revision1_1 | Revision1_2 | Revision1_3 | Revision1_4 | Revision1_5 | Revision1_6
  | DebugKit | DebugKit_r1_2 | Chihiro | Chihiro_Type1 | Chihiro_Type3

primrec hw_value :: "HardwareModel \<Rightarrow> u8" where
  "hw_value Revision1_0 = 0"
| "hw_value Revision1_1 = 1"
| "hw_value Revision1_2 = 2"
| "hw_value Revision1_3 = 3"
| "hw_value Revision1_4 = 4"
| "hw_value Revision1_5 = 5"
| "hw_value Revision1_6 = 6"
| "hw_value DebugKit = 0x10"
| "hw_value DebugKit_r1_2 = 0x12"
| "hw_value Chihiro = 0x20"
| "hw_value Chihiro_Type1 = 0x21"
| "hw_value Chihiro_Type3 = 0x22"

definition GET_HW_REVISION :: "HardwareModel \<Rightarrow> u8" where
  "GET_HW_REVISION h = hw_value h AND 0x0F"

definition GET_HW_CONSOLE :: "HardwareModel \<Rightarrow> u8" where
  "GET_HW_CONSOLE h = hw_value h AND 0xF0"

datatype MCPXRevision = MCPX_X2 | MCPX_X3

datatype TVEncoder = Conexant | Focus | XCalibur

text \<open>\<open>None\<close> is \<open>CxbxrAbort\<close>.\<close>

definition MCPXRevisionFromHardwareModel :: "HardwareModel \<Rightarrow> MCPXRevision option" where
  "MCPXRevisionFromHardwareModel h =
     (let c = GET_HW_CONSOLE h in
      if c = hw_value Revision1_0 then Some MCPX_X3
      else if c = hw_value DebugKit \<or> c = hw_value Chihiro then Some MCPX_X2 else None)"

definition SCMRevisionFromHardwareModel :: "HardwareModel \<Rightarrow> SCMRevision option" where
  "SCMRevisionFromHardwareModel h = (case h of
     Revision1_0 \<Rightarrow> Some P01 | Revision1_1 \<Rightarrow> Some P05
   | Revision1_2 \<Rightarrow> Some P11 | Revision1_3 \<Rightarrow> Some P11 | Revision1_4 \<Rightarrow> Some P11
   | Revision1_5 \<Rightarrow> Some P2L | Revision1_6 \<Rightarrow> Some P2L
   | DebugKit \<Rightarrow> Some D01 | Chihiro_Type1 \<Rightarrow> Some D05
   | DebugKit_r1_2 \<Rightarrow> Some B11 | Chihiro_Type3 \<Rightarrow> Some B11
   | _ \<Rightarrow> None)"

definition TVEncoderFromHardwareModel :: "HardwareModel \<Rightarrow> TVEncoder option" where
  "TVEncoderFromHardwareModel h =
     (let r = GET_HW_REVISION h in
      if r \<le> hw_value Revision1_3 then Some Conexant
      else if r = hw_value Revision1_4 \<or> r = hw_value Revision1_5 then Some Focus
      else if r = hw_value Revision1_6 then Some XCalibur else None)"

definition MCP_PCIRevisionFromHardwareModel :: "HardwareModel \<Rightarrow> u8 option" where
  "MCP_PCIRevisionFromHardwareModel h =
     (let r = GET_HW_REVISION h in
      if r = hw_value Revision1_0 then Some 0xB2
      else if hw_value Revision1_1 \<le> r \<and> r \<le> hw_value Revision1_5 then Some 0xD4
      else if r = hw_value Revision1_6 then Some 0xD5 else None)"

section \<open>Devices on the PCI bus\<close>

datatype xbox_ptr = P_SMBus | P_NVNet | P_NV2A | P_USB0

record 'x other_ops =
  o_Init :: "(unit, pci_dev \<times> 'x) run"
  o_Reset :: "(unit, 'x) run"
  o_IORead :: "int \<Rightarrow> u32 \<Rightarrow> nat \<Rightarrow> (u32, 'x) run"
  o_IOWrite :: "int \<Rightarrow> u32 \<Rightarrow> u32 \<Rightarrow> nat \<Rightarrow> (unit, 'x) run"
  o_MMIORead :: "int \<Rightarrow> u32 \<Rightarrow> nat \<Rightarrow> (u32, 'x) run"
  o_MMIOWrite :: "int \<Rightarrow> u32 \<Rightarrow> u32 \<Rightarrow> nat \<Rightarrow> (unit, 'x) run"

record 'x xbox_world =
  xw_smbus :: smbus
  xw_nvnet :: nvnet
  xw_nv2a :: pci_dev
  xw_usb0 :: pci_dev
  xw_other :: 'x

definition on_smbus :: "('a, smbus) run \<Rightarrow> ('a, 'x xbox_world) run" where
  "on_smbus m w = (case m (xw_smbus w) of Inl e \<Rightarrow> Inl e | Inr (a, t) \<Rightarrow> Inr (a, w\<lparr>xw_smbus := t\<rparr>))"

definition on_nvnet :: "('a, nvnet) run \<Rightarrow> ('a, 'x xbox_world) run" where
  "on_nvnet m w = (case m (xw_nvnet w) of Inl e \<Rightarrow> Inl e | Inr (a, t) \<Rightarrow> Inr (a, w\<lparr>xw_nvnet := t\<rparr>))"

definition on_other :: "('a, 'x) run \<Rightarrow> ('a, 'x xbox_world) run" where
  "on_other m w = (case m (xw_other w) of Inl e \<Rightarrow> Inl e | Inr (a, t) \<Rightarrow> Inr (a, w\<lparr>xw_other := t\<rparr>))"

primrec xbox_dev :: "xbox_ptr \<Rightarrow> 'x xbox_world \<Rightarrow> pci_dev" where
  "xbox_dev P_SMBus w = smb_pci (xw_smbus w)"
| "xbox_dev P_NVNet w = nv_pci (xw_nvnet w)"
| "xbox_dev P_NV2A w = xw_nv2a w"
| "xbox_dev P_USB0 w = xw_usb0 w"

primrec xbox_set_dev :: "xbox_ptr \<Rightarrow> pci_dev \<Rightarrow> 'x xbox_world \<Rightarrow> 'x xbox_world" where
  "xbox_set_dev P_SMBus d w = w\<lparr>xw_smbus := (xw_smbus w)\<lparr>smb_pci := d\<rparr>\<rparr>"
| "xbox_set_dev P_NVNet d w = w\<lparr>xw_nvnet := (xw_nvnet w)\<lparr>nv_pci := d\<rparr>\<rparr>"
| "xbox_set_dev P_NV2A d w = w\<lparr>xw_nv2a := d\<rparr>"
| "xbox_set_dev P_USB0 d w = w\<lparr>xw_usb0 := d\<rparr>"

text \<open>\<open>Init\<close> of a parameter device sees its own PCI part.\<close>

definition other_Init :: "xbox_ptr \<Rightarrow> 'x other_ops \<Rightarrow> (unit, 'x xbox_world) run" where
  "other_Init p ops w = (case o_Init ops (xbox_dev p w, xw_other w) of
     Inl e \<Rightarrow> Inl e | Inr (u, d, x) \<Rightarrow> Inr (u, (xbox_set_dev p d w)\<lparr>xw_other := x\<rparr>))"

record 'x xbox_env =
  bar_garbage :: u32
  host_mac :: "u8 list option"
  pcap_opens :: bool
  nv2a_ops :: "'x other_ops"
  usb0_ops :: "'x other_ops"

definition xbox_vtbl :: "'x xbox_env \<Rightarrow> (xbox_ptr, 'x xbox_world) pci_vtbl" where
  "xbox_vtbl env = \<lparr>
     dev_of = xbox_dev,
     set_dev = xbox_set_dev,
     vInit = (\<lambda>p. case p of
         P_SMBus \<Rightarrow> on_smbus (SMBus_Init (bar_garbage env))
       | P_NVNet \<Rightarrow> on_nvnet (NVNet_Init (bar_garbage env) (host_mac env) (pcap_opens env))
       | P_NV2A \<Rightarrow> other_Init P_NV2A (nv2a_ops env)
       | P_USB0 \<Rightarrow> other_Init P_USB0 (usb0_ops env)),
     vReset = (\<lambda>p. case p of
         P_SMBus \<Rightarrow> on_smbus SMBus_Reset
       | P_NVNet \<Rightarrow> on_nvnet NVNet_Reset
       | P_NV2A \<Rightarrow> on_other (o_Reset (nv2a_ops env))
       | P_USB0 \<Rightarrow> on_other (o_Reset (usb0_ops env))),
     vIORead = (\<lambda>p i a n. case p of
         P_SMBus \<Rightarrow> on_smbus (SMBus_IORead i a n)
       | P_NVNet \<Rightarrow> on_nvnet (NVNet_IORead i a n)
       | P_NV2A \<Rightarrow> on_other (o_IORead (nv2a_ops env) i a n)
       | P_USB0 \<Rightarrow> on_other (o_IORead (usb0_ops env) i a n)),
     vIOWrite = (\<lambda>p i a v n. case p of
         P_SMBus \<Rightarrow> on_smbus (SMBus_IOWrite i a v n)
       | P_NVNet \<Rightarrow> on_nvnet (NVNet_IOWrite i a v n)
       | P_NV2A \<Rightarrow> on_other (o_IOWrite (nv2a_ops env) i a v n)
       | P_USB0 \<Rightarrow> on_other (o_IOWrite (usb0_ops env) i a v n)),
     vMMIORead = (\<lambda>p i a n. case p of
         P_SMBus \<Rightarrow> on_smbus (SMBus_MMIORead i a n)
       | P_NVNet \<Rightarrow> on_nvnet (NVNet_MMIORead i a n)
       | P_NV2A \<Rightarrow> on_other (o_MMIORead (nv2a_ops env) i a n)
       | P_USB0 \<Rightarrow> on_other (o_MMIORead (usb0_ops env) i a n)),
     vMMIOWrite = (\<lambda>p i a v n. case p of
         P_SMBus \<Rightarrow> on_smbus (SMBus_MMIOWrite i a v n)
       | P_NVNet \<Rightarrow> on_nvnet (NVNet_MMIOWrite i a v n)
       | P_NV2A \<Rightarrow> on_other (o_MMIOWrite (nv2a_ops env) i a v n)
       | P_USB0 \<Rightarrow> on_other (o_MMIOWrite (usb0_ops env) i a v n))\<rparr>"

definition connect_pci_devices :: "'x xbox_env \<Rightarrow> (unit, (xbox_ptr, 'x xbox_world) pci_bus) run" where
  "connect_pci_devices env =
     bnd (bus_ConnectDevice (xbox_vtbl env) (PCI_DEVID 0 (PCI_DEVFN 1 1)) P_SMBus) (\<lambda>_.
     bnd (bus_ConnectDevice (xbox_vtbl env) (PCI_DEVID 0 (PCI_DEVFN 4 0)) P_NVNet) (\<lambda>_.
     bnd (bus_ConnectDevice (xbox_vtbl env) (PCI_DEVID 1 (PCI_DEVFN 0 0)) P_NV2A) (\<lambda>_.
     bus_ConnectDevice (xbox_vtbl env) (PCI_DEVID 0 (PCI_DEVFN 2 0)) P_USB0)))"

section \<open>Device code keeps the BARs\<close>

lemma on_sm_pci: "on_sm m s = Inr (a, t) \<Longrightarrow> smb_pci t = smb_pci s"
  by (auto simp: on_sm_Inr_iff)

lemma run_protocol_pci: "run_protocol p prot rd s = Inr (u, t) \<Longrightarrow> smb_pci t = smb_pci s"
  by (auto simp: run_protocol_def or_Status_def bnd_eq_Inr_iff dest!: on_sm_pci split: if_splits)

lemma ExecuteTransaction_pci: "ExecuteTransaction s = Inr (u, t) \<Longrightarrow> smb_pci t = smb_pci s"
  by (auto simp: ExecuteTransaction_def or_Status_def dest: run_protocol_pci split: option.splits)

lemma SMBus_pci:
  "SMBus_IORead i a n s = Inr (v, t) \<Longrightarrow> smb_pci t = smb_pci s"
  "SMBus_IOWrite i a x n s = Inr (u, t) \<Longrightarrow> smb_pci t = smb_pci s"
  "SMBus_Reset s = Inr (u, t) \<Longrightarrow> smb_pci t = smb_pci s"
proof -
  show "SMBus_IORead i a n s = Inr (v, t) \<Longrightarrow> smb_pci t = smb_pci s"
    by (auto simp: SMBus_IORead_def Let_def split: if_splits)
  show "SMBus_IOWrite i a x n s = Inr (u, t) \<Longrightarrow> smb_pci t = smb_pci s"
    by (auto simp: SMBus_IOWrite_def Let_def or_Status_def bnd_eq_Inr_iff dest!: ExecuteTransaction_pci
        split: if_splits)
  show "SMBus_Reset s = Inr (u, t) \<Longrightarrow> smb_pci t = smb_pci s"
    by (auto simp: SMBus_Reset_def bnd_eq_Inr_iff dest!: on_sm_pci)
qed

text \<open>The same for the network adapter, by the invariant rules of \<open>run\<close>.\<close>

definition nv_fixed :: "('a, nvnet) run \<Rightarrow> bool" where
  "nv_fixed m \<longleftrightarrow> (\<forall>d. keeps (\<lambda>s. nv_pci s = d) m)"

named_theorems nv_rules \<open>operations of the adapter that keep its PCI part\<close>

lemma nv_fixedI: "(\<And>s a t. m s = Inr (a, t) \<Longrightarrow> nv_pci t = nv_pci s) \<Longrightarrow> nv_fixed m"
  unfolding nv_fixed_def keeps_def by metis

lemma nv_fixedD: "nv_fixed m \<Longrightarrow> m s = Inr (a, t) \<Longrightarrow> nv_pci t = nv_pci s"
  unfolding nv_fixed_def keeps_def by blast

lemma nv_fixed_combinators [nv_rules]:
  "nv_fixed (ret a)" "nv_fixed (get g)"
  "nv_fixed m \<Longrightarrow> (\<And>a. nv_fixed (f a)) \<Longrightarrow> nv_fixed (bnd m f)"
  "nv_fixed m' \<Longrightarrow> nv_fixed n' \<Longrightarrow> nv_fixed (if b then m' else n')"
  unfolding nv_fixed_def by (auto intro: keeps_bnd)

lemma nv_fixed_modify [nv_rules]: "(\<And>s. nv_pci (f s) = nv_pci s) \<Longrightarrow> nv_fixed (modify f)"
  by (rule nv_fixedI) auto

lemma nv_fixed_registers [nv_rules]:
  "nv_fixed (EmuNVNet_GetRegister a n)" "nv_fixed (EmuNVNet_SetRegister a v n)"
  by (rule nv_fixedI, auto simp: EmuNVNet_GetRegister_def EmuNVNet_SetRegister_def split: if_splits)+

lemma nv_fixed_irq [nv_rules]: "nv_fixed EmuNVNet_UpdateIRQ" "nv_fixed EmuNVNet_MiiReadWrite" "nv_fixed (EmuNVNet_Read a n)"
  unfolding EmuNVNet_UpdateIRQ_def EmuNVNet_MiiReadWrite_def EmuNVNet_Read_def Let_def
  by (intro nv_rules; simp)+

lemma tx_loop_pci: "tx_loop k sent s = Inr (r, t) \<Longrightarrow> nv_pci t = nv_pci s"
proof (induction k arbitrary: sent s)
  case (Suc k)
  have r: "EmuNVNet_GetRegister a n x = Inr (v, y) \<Longrightarrow> y = x" for a n x v y
    by (auto simp: EmuNVNet_GetRegister_def split: if_splits)
  have p: "tx_packet a d x = Inr (u, y) \<Longrightarrow> nv_pci y = nv_pci x" for a d x u y
    by (auto simp: tx_packet_def PCAPSend_def Let_def split: if_splits)
  from Suc.prems show ?case
    by (auto simp: bnd_eq_Inr_iff advance_index_def Let_def dest!: r p Suc.IH split: if_splits)
qed simp

lemma nv_fixed_transmit [nv_rules]: "nv_fixed EmuNVNet_DMAPacketFromGuest"
  unfolding EmuNVNet_DMAPacketFromGuest_def
  by (intro nv_rules) (rule nv_fixedI, erule tx_loop_pci)

lemma nv_fixed_write [nv_rules]: "nv_fixed (EmuNVNet_Write a v n)"
  unfolding EmuNVNet_Write_def write_TxRxControl_def by (intro nv_rules) (simp add: set_ring_sizes_def)

lemma NVNet_pci [nv_rules]: "nv_fixed (NVNet_MMIORead i a n)" "nv_fixed (NVNet_MMIOWrite i a v n)"
  unfolding NVNet_MMIORead_def NVNet_MMIOWrite_def by (intro nv_rules; simp add: cache_mac_def)+

lemma on_smbus_dev:
  "on_smbus m w = Inr (a, w') \<Longrightarrow> (\<And>s t b. m s = Inr (b, t) \<Longrightarrow> smb_pci t = smb_pci s) \<Longrightarrow> xbox_dev q w' = xbox_dev q w"
  by (cases q) (auto simp: on_smbus_def split: sum.splits)

lemma on_nvnet_dev: "on_nvnet m w = Inr (a, w') \<Longrightarrow> nv_fixed m \<Longrightarrow> xbox_dev q w' = xbox_dev q w"
  by (cases q) (auto simp: on_nvnet_def dest: nv_fixedD split: sum.splits)

lemma on_other_dev: "on_other m w = Inr (a, w') \<Longrightarrow> xbox_dev q w' = xbox_dev q w"
  by (cases q) (auto simp: on_other_def split: sum.splits)

text \<open>The Xbox's devices meet the contract of the bus.\<close>

interpretation xbox: pci_devices "xbox_vtbl env" for env :: "'x xbox_env"
proof unfold_locales
  fix p q :: xbox_ptr and d and w w' :: "'x xbox_world" and u :: unit and v x a :: u32 and i :: int and n :: nat
  show "dev_of (xbox_vtbl env) p (set_dev (xbox_vtbl env) p d w) = d"
    by (cases p) (simp_all add: xbox_vtbl_def)
  show "q \<noteq> p \<Longrightarrow> dev_of (xbox_vtbl env) q (set_dev (xbox_vtbl env) p d w) = dev_of (xbox_vtbl env) q w"
    by (cases p; cases q) (simp_all add: xbox_vtbl_def)
  show "vReset (xbox_vtbl env) p w = Inr (u, w') \<Longrightarrow> dev_of (xbox_vtbl env) q w' = dev_of (xbox_vtbl env) q w"
    by (cases p) (auto simp: xbox_vtbl_def NVNet_Reset_def intro: nv_rules
        elim!: on_smbus_dev SMBus_pci on_nvnet_dev on_other_dev)
  show "vIORead (xbox_vtbl env) p i a n w = Inr (v, w') \<Longrightarrow> dev_of (xbox_vtbl env) q w' = dev_of (xbox_vtbl env) q w"
    by (cases p) (auto simp: xbox_vtbl_def NVNet_IORead_def intro: nv_rules
        elim!: on_smbus_dev SMBus_pci on_nvnet_dev on_other_dev)
  show "vIOWrite (xbox_vtbl env) p i a x n w = Inr (u, w') \<Longrightarrow> dev_of (xbox_vtbl env) q w' = dev_of (xbox_vtbl env) q w"
    by (cases p) (auto simp: xbox_vtbl_def NVNet_IOWrite_def intro: nv_rules
        elim!: on_smbus_dev SMBus_pci on_nvnet_dev on_other_dev)
  show "vMMIORead (xbox_vtbl env) p i a n w = Inr (v, w') \<Longrightarrow> dev_of (xbox_vtbl env) q w' = dev_of (xbox_vtbl env) q w"
    by (cases p) (auto simp: xbox_vtbl_def SMBus_MMIORead_def intro: nv_rules
        elim!: on_smbus_dev on_nvnet_dev on_other_dev)
  show "vMMIOWrite (xbox_vtbl env) p i a x n w = Inr (u, w') \<Longrightarrow> dev_of (xbox_vtbl env) q w' = dev_of (xbox_vtbl env) q w"
    by (cases p) (auto simp: xbox_vtbl_def SMBus_MMIOWrite_def intro: nv_rules
        elim!: on_smbus_dev on_nvnet_dev on_other_dev)
qed

section \<open>Routing under guest accesses\<close>

datatype bus_access =
    A_IORead u32 nat | A_IOWrite u32 u32 nat | A_MMIORead u32 nat | A_MMIOWrite u32 u32 nat | A_Reset

primrec run_access :: "('p, 'w) pci_vtbl \<Rightarrow> bus_access \<Rightarrow> (unit, ('p, 'w) pci_bus) run" where
  "run_access vt (A_IORead a n) = bnd (bus_IORead vt a n) (\<lambda>_. ret ())"
| "run_access vt (A_IOWrite a v n) = bnd (bus_IOWrite vt a v n) (\<lambda>_. ret ())"
| "run_access vt (A_MMIORead a n) = bnd (bus_MMIORead vt a n) (\<lambda>_. ret ())"
| "run_access vt (A_MMIOWrite a v n) = bnd (bus_MMIOWrite vt a v n) (\<lambda>_. ret ())"
| "run_access vt A_Reset = bus_Reset vt"

primrec run_accesses :: "('p, 'w) pci_vtbl \<Rightarrow> bus_access list \<Rightarrow> (unit, ('p, 'w) pci_bus) run" where
  "run_accesses vt [] = ret ()"
| "run_accesses vt (x # xs) = bnd (run_access vt x) (\<lambda>_. run_accesses vt xs)"

definition no_config_write :: "bus_access \<Rightarrow> bool" where
  "no_config_write x \<longleftrightarrow> (\<forall>v n. x \<noteq> A_IOWrite PORT_PCI_CONFIG_DATA v n)"

lemma run_access_routing:
  assumes "run_access (xbox_vtbl env) x s = Inr (u, t)" and "no_config_write x"
  shows "xbox.same_routing env s t"
  using assms
  by (cases x) (auto simp: bnd_eq_Inr_iff no_config_write_def dest: xbox.IORead_routing xbox.IOWrite_routing
      xbox.MMIORead_routing xbox.MMIOWrite_routing xbox.Reset_routing)


section \<open>Configuration slots\<close>

lemma split_at_8: "x = y \<longleftrightarrow> take_bit 8 x = take_bit 8 y \<and> drop_bit 8 x = drop_bit 8 y" for x y :: u32
  by (metis bits_ident)

lemma config_key_eq:
  "PCI_DEVID (busNumber c) (deviceNumber c) = k \<longleftrightarrow> busNumber c = drop_bit 8 k \<and> deviceNumber c = take_bit 8 k"
proof -
  have "drop_bit 8 (PCI_DEVID (busNumber c) (deviceNumber c)) = busNumber c"
    by (rule bit_word_eqI) (auto simp: PCI_DEVID_def busNumber_def deviceNumber_def bit_simps)
  then show ?thesis
    using split_at_8 [of "PCI_DEVID (busNumber c) (deviceNumber c)" k] config_key_low(1) [of c] by auto
qed

lemma bus_ConnectDevice_devices:
  "bus_ConnectDevice vt k p s = Inr (u, t) \<Longrightarrow>
     bus_Devices t = (if map_of (bus_Devices s) k \<noteq> None then bus_Devices s else omap_insert k p (bus_Devices s))"
  by (auto simp: bus_ConnectDevice_def bnd_eq_Inr_iff on_world_Inr_iff split: if_splits)

lemma connected_devices:
  assumes "bus_Devices s = []" and "connect_pci_devices env s = Inr (u, t)"
  shows "bus_Devices t = [(0x09, P_SMBus), (0x10, P_USB0), (0x20, P_NVNet), (0x100, P_NV2A)]"
proof -
  have keys: "PCI_DEVID 0 (PCI_DEVFN 1 1) = 0x09" "PCI_DEVID 0 (PCI_DEVFN 4 0) = 0x20"
    "PCI_DEVID 1 (PCI_DEVFN 0 0) = 0x100" "PCI_DEVID 0 (PCI_DEVFN 2 0) = 0x10"
    by (simp_all add: PCI_DEVID_def PCI_DEVFN_def)
  show ?thesis using assms(2) unfolding connect_pci_devices_def keys
    by (auto simp: bnd_eq_Inr_iff assms(1) dest!: bus_ConnectDevice_devices)
qed

text \<open>After the set-up, the bus looks devices up by the slot number of the configuration address
  alone, although it stores them under slot and function: the SMBus (slot 1, function 1) answers
  for slot 9, the USB controller (slot 2) for slot 16, the network adapter (slot 4) for no address
  at all, and the documented slots find no device. Only the graphics processor is where it should
  be.\<close>

theorem hw_config_slots:
  assumes "bus_Devices s = []" and "connect_pci_devices env s = Inr (u, t)"
  shows "config_target (t\<lparr>m_configAddressRegister := c\<rparr>) =
    (if busNumber c = 0 \<and> deviceNumber c = 9 then Some P_SMBus
     else if busNumber c = 0 \<and> deviceNumber c = 16 then Some P_USB0
     else if busNumber c = 1 \<and> deviceNumber c = 0 then Some P_NV2A
     else None)"
proof -
  have "deviceNumber c \<noteq> 32" using config_key_low(2) [of c] by auto
  moreover have "PCI_DEVID 0 9 = 9" "PCI_DEVID 0 16 = 16" "PCI_DEVID 1 0 = 256" by (simp_all add: PCI_DEVID_def)
  ultimately show ?thesis using connected_devices [OF assms]
    by (auto simp: config_target_def config_key_eq)
qed

section \<open>A machine without the parameter devices' code\<close>

definition no_ops :: "unit other_ops" where
  "no_ops = \<lparr>o_Init = ret (), o_Reset = ret (), o_IORead = (\<lambda>_ _ _. ret 0), o_IOWrite = (\<lambda>_ _ _ _. ret ()),
     o_MMIORead = (\<lambda>_ _ _. ret 0), o_MMIOWrite = (\<lambda>_ _ _ _. ret ())\<rparr>"

definition sample_xenv :: "unit xbox_env" where
  "sample_xenv = \<lparr>bar_garbage = 0, host_mac = Some [2, 0, 0, 0, 0, 1], pcap_opens = True, nv2a_ops = no_ops, usb0_ops = no_ops\<rparr>"

definition no_dev :: pci_dev where
  "no_dev = \<lparr>m_BAR = [], m_DeviceId = 0, m_VendorId = 0\<rparr>"

definition sample_bus0 :: "(xbox_ptr, unit xbox_world) pci_bus" where
  "sample_bus0 = \<lparr>bus_Devices = [], m_configAddressRegister = 0,
     pci_world = \<lparr>xw_smbus = new_SMBus sample_world, xw_nvnet = sample_nvnet\<lparr>nv_pci := no_dev\<rparr>, xw_nv2a = no_dev,
       xw_usb0 = no_dev, xw_other = ()\<rparr>\<rparr>"

lemma on_device_simps [simp]:
  "m (xw_smbus w) = Inr (a, x) \<Longrightarrow> on_smbus m w = Inr (a, w\<lparr>xw_smbus := x\<rparr>)"
  "k (xw_nvnet w) = Inr (a, y) \<Longrightarrow> on_nvnet k w = Inr (a, w\<lparr>xw_nvnet := y\<rparr>)"
  by (simp_all add: on_smbus_def on_nvnet_def)

lemma connect_total:
  assumes "bus_Devices s = []" and "\<And>x. \<exists>y. o_Init (nv2a_ops env) x = Inr ((), y)" and "\<And>x. \<exists>y. o_Init (usb0_ops env) x = Inr ((), y)"
  shows "\<exists>t. connect_pci_devices env s = Inr ((), t)"
proof -
  have i: "\<exists>w'. vInit (xbox_vtbl env) p w = Inr ((), w')" for p w
  proof (cases p)
    case P_NV2A
    obtain d x where "o_Init (nv2a_ops env) (xbox_dev P_NV2A w, xw_other w) = Inr ((), d, x)"
      using assms(2) [of "(xbox_dev P_NV2A w, xw_other w)"] by (metis surj_pair)
    then show ?thesis by (simp add: P_NV2A xbox_vtbl_def other_Init_def)
  next
    case P_USB0
    obtain d x where "o_Init (usb0_ops env) (xbox_dev P_USB0 w, xw_other w) = Inr ((), d, x)"
      using assms(3) [of "(xbox_dev P_USB0 w, xw_other w)"] by (metis surj_pair)
    then show ?thesis by (simp add: P_USB0 xbox_vtbl_def other_Init_def)
  qed (simp_all add: xbox_vtbl_def SMBus_Init_def NVNet_Init_def on_smbus_def on_nvnet_def)
  have c: "\<exists>y. bus_ConnectDevice (xbox_vtbl env) k p x = Inr ((), y)" for k p x
  proof (cases "map_of (bus_Devices x) k")
    case None
    obtain w' where "vInit (xbox_vtbl env) p (pci_world x) = Inr ((), w')" using i by blast
    with None show ?thesis by (simp add: bus_ConnectDevice_def on_world_def bnd_def)
  qed (simp add: bus_ConnectDevice_def)
  show ?thesis unfolding connect_pci_devices_def bnd_eq_Inr_iff using c by meson
qed

lemma sample_connected: "\<exists>t. connect_pci_devices sample_xenv sample_bus0 = Inr ((), t)"
  by (rule connect_total) (auto simp: sample_bus0_def sample_xenv_def no_ops_def)

theorem hw_config_slots_witness:
  "\<exists>t. connect_pci_devices sample_xenv sample_bus0 = Inr ((), t)
     \<and> config_target (t\<lparr>m_configAddressRegister := 0x80004800\<rparr>) = Some P_SMBus
     \<and> config_target (t\<lparr>m_configAddressRegister := 0x80000900\<rparr>) = None"
proof -
  obtain t where t: "connect_pci_devices sample_xenv sample_bus0 = Inr ((), t)" using sample_connected by blast
  have "bus_Devices sample_bus0 = []" by (simp add: sample_bus0_def)
  note k = hw_config_slots [OF this t]
  have "busNumber 0x80004800 = 0" "deviceNumber 0x80004800 = 9" "busNumber 0x80000900 = 0" "deviceNumber 0x80000900 = 1"
    by (simp_all add: busNumber_def deviceNumber_def)
  then show ?thesis using t k [of "0x80004800"] k [of "0x80000900"] by auto
qed


section \<open>The network adapter behind the bus\<close>

lemma nvnet_bar_bits:
  "Raw_type (set_Memory_address 0xFEF0000 (set_Raw_type 0 r0)) = 0"
  "push_bit 4 (Memory_address (set_Memory_address 0xFEF0000 r)) = 0xFEF00000"
proof -
  show "Raw_type (set_Memory_address 0xFEF0000 (set_Raw_type 0 r0)) = 0"
    by (rule bit_word_eqI)
      (auto simp: Raw_type_def set_Memory_address_def set_Raw_type_def mask_simps bit_simps bit_1_iff)
qed simp

lemma smbus_bar_bits: "Raw_type (set_IO_address a (set_Raw_type 1 r0)) = 1"
  by (rule bit_word_eqI)
    (auto simp: Raw_type_def set_IO_address_def set_Raw_type_def mask_simps bit_simps bit_1_iff bit_numeral_rec)

lemma vInit_other: "vInit (xbox_vtbl env) p w = Inr (u, w') \<Longrightarrow> q \<noteq> p \<Longrightarrow> xbox_dev q w' = xbox_dev q w"
  by (cases p; cases q)
    (auto simp: xbox_vtbl_def on_smbus_def on_nvnet_def other_Init_def split: sum.splits)

lemma ConnectDevice_dev:
  assumes "bus_ConnectDevice (xbox_vtbl env) k p s = Inr (u, t)" and "q \<noteq> p"
  shows "xbox_dev q (pci_world t) = xbox_dev q (pci_world s)"
  using assms by (auto simp: bus_ConnectDevice_def bnd_eq_Inr_iff on_world_Inr_iff split: if_splits dest: vInit_other)

definition io_only :: "pci_dev \<Rightarrow> bool" where
  "io_only d \<longleftrightarrow> (\<forall>(i, b)\<in>set (m_BAR d). Raw_type (bar_reg b) = PCI_BAR_TYPE_IO)"

lemma io_only_no_mmio: "io_only d \<Longrightarrow> GetMMIOBar a d = None"
  by (auto simp: io_only_def GetMMIOBar_def find_None_iff mmio_match_def)

lemma connect_smbus:
  assumes "bus_ConnectDevice (xbox_vtbl env) k P_SMBus s = Inr (u, t)" and "map_of (bus_Devices s) k = None"
    and "m_BAR (xbox_dev P_SMBus (pci_world s)) = []"
  shows "io_only (xbox_dev P_SMBus (pci_world t))"
  using assms smbus_bar_bits
  by (auto simp: bus_ConnectDevice_def bnd_eq_Inr_iff on_world_Inr_iff xbox_vtbl_def on_smbus_def SMBus_Init_def
      RegisterBAR_def io_only_def)

lemma connect_nvnet:
  assumes "bus_ConnectDevice (xbox_vtbl env) k P_NVNet s = Inr (u, t)" and "map_of (bus_Devices s) k = None"
    and "m_BAR (xbox_dev P_NVNet (pci_world s)) = []"
  shows "\<exists>r b rest. m_BAR (xbox_dev P_NVNet (pci_world t)) = (0, b) # rest
    \<and> b = \<lparr>bar_size = 0x400, bar_reg = r, bar_index = 0\<rparr> \<and> Raw_type r = 0 \<and> push_bit 4 (Memory_address r) = 0xFEF00000"
  using assms nvnet_bar_bits
  by (auto simp: bus_ConnectDevice_def bnd_eq_Inr_iff on_world_Inr_iff xbox_vtbl_def on_nvnet_def NVNet_Init_def
      RegisterBAR_def Let_def split: option.splits)

text \<open>Once the devices are connected, a memory access to the 1024 bytes from 0xFEF00000 reaches
  the network adapter with the offset into its window, unless the USB controller, which the bus
  asks before it, claims the address.\<close>

theorem hw_nvnet_mmio_window:
  assumes "bus_Devices s = []" and "m_BAR (smb_pci (xw_smbus (pci_world s))) = []"
    and "m_BAR (nv_pci (xw_nvnet (pci_world s))) = []" and "connect_pci_devices env s = Inr (u, t)"
    and "GetMMIOBar a (xw_usb0 (pci_world t)) = None" and "0xFEF00000 \<le> a" and "a < 0xFEF00400"
  shows "bus_MMIORead (xbox_vtbl env) a n t =
      bnd (on_world (on_nvnet (NVNet_MMIORead 0 (a - 0xFEF00000) n))) (\<lambda>v. ret (Some v)) t
    \<and> bus_MMIOWrite (xbox_vtbl env) a x n t =
      bnd (on_world (on_nvnet (NVNet_MMIOWrite 0 (a - 0xFEF00000) x n))) (\<lambda>_. ret True) t"
proof -
  have keys: "PCI_DEVID 0 (PCI_DEVFN 1 1) = 0x09" "PCI_DEVID 0 (PCI_DEVFN 4 0) = 0x20"
    "PCI_DEVID 1 (PCI_DEVFN 0 0) = 0x100" "PCI_DEVID 0 (PCI_DEVFN 2 0) = 0x10"
    by (simp_all add: PCI_DEVID_def PCI_DEVFN_def)
  obtain s1 s2 s3 where
    c: "bus_ConnectDevice (xbox_vtbl env) 0x09 P_SMBus s = Inr ((), s1)"
    "bus_ConnectDevice (xbox_vtbl env) 0x20 P_NVNet s1 = Inr ((), s2)"
    "bus_ConnectDevice (xbox_vtbl env) 0x100 P_NV2A s2 = Inr ((), s3)"
    "bus_ConnectDevice (xbox_vtbl env) 0x10 P_USB0 s3 = Inr (u, t)"
    using assms(4) unfolding connect_pci_devices_def keys by (auto simp: bnd_eq_Inr_iff)
  have "bus_Devices s1 = [(0x09, P_SMBus)]" using bus_ConnectDevice_devices [OF c(1)] assms(1) by simp
  moreover have "m_BAR (xbox_dev P_NVNet (pci_world s1)) = []" using ConnectDevice_dev [OF c(1), of P_NVNet] assms(3) by simp
  ultimately obtain r rest where n: "m_BAR (xbox_dev P_NVNet (pci_world s2)) = (0, \<lparr>bar_size = 0x400, bar_reg = r, bar_index = 0\<rparr>) # rest"
    and r: "Raw_type r = 0" "push_bit 4 (Memory_address r) = 0xFEF00000"
    using connect_nvnet [OF c(2)] by auto
  have "xbox_dev P_NVNet (pci_world t) = xbox_dev P_NVNet (pci_world s2)"
    using ConnectDevice_dev [OF c(4), of P_NVNet] ConnectDevice_dev [OF c(3), of P_NVNet] by simp
  with n have nv: "GetMMIOBar a (xbox_dev P_NVNet (pci_world t)) = Some \<lparr>bar_size = 0x400, bar_reg = r, bar_index = 0\<rparr>"
    using assms(6,7) r by (simp add: GetMMIOBar_def mmio_match_def)
  have "io_only (xbox_dev P_SMBus (pci_world s1))" using connect_smbus [OF c(1)] assms(1,2) by simp
  then have sm: "GetMMIOBar a (xbox_dev P_SMBus (pci_world t)) = None"
    using ConnectDevice_dev [OF c(4), of P_SMBus] ConnectDevice_dev [OF c(3), of P_SMBus]
      ConnectDevice_dev [OF c(2), of P_SMBus] io_only_no_mmio by simp
  have "mmio_route (xbox_vtbl env) a t = Some (P_NVNet, \<lparr>bar_size = 0x400, bar_reg = r, bar_index = 0\<rparr>)"
    using connected_devices [OF assms(1,4)] nv sm assms(5) by (simp add: mmio_route_def xbox_vtbl_def)
  then show ?thesis using r by (simp add: bus_MMIORead_def bus_MMIOWrite_def xbox_vtbl_def)
qed

lemma sample_usb0:
  assumes "bus_ConnectDevice (xbox_vtbl sample_xenv) k p s = Inr (u, t)"
  shows "xw_usb0 (pci_world t) = xw_usb0 (pci_world s)"
proof (cases "p = P_USB0")
  case True
  with assms show ?thesis
    by (auto simp: bus_ConnectDevice_def bnd_eq_Inr_iff on_world_Inr_iff xbox_vtbl_def other_Init_def
        sample_xenv_def no_ops_def split: if_splits)
next
  case False
  with ConnectDevice_dev [OF assms, of P_USB0] show ?thesis by simp
qed

theorem hw_nvnet_mmio_window_witness:
  "\<exists>t. connect_pci_devices sample_xenv sample_bus0 = Inr ((), t)
     \<and> bus_MMIORead (xbox_vtbl sample_xenv) 0xFEF00180 4 t = Inr (Some 0, t)"
proof -
  obtain t where t: "connect_pci_devices sample_xenv sample_bus0 = Inr ((), t)" using sample_connected by blast
  then have "m_BAR (xw_usb0 (pci_world t)) = []"
    by (auto simp: connect_pci_devices_def bnd_eq_Inr_iff sample_bus0_def no_dev_def dest!: sample_usb0)
  then have "GetMMIOBar 0xFEF00180 (xw_usb0 (pci_world t)) = None" by (simp add: GetMMIOBar_def)
  from hw_nvnet_mmio_window [OF _ _ _ t this] have
    "bus_MMIORead (xbox_vtbl sample_xenv) 0xFEF00180 4 t =
      bnd (on_world (on_nvnet (NVNet_MMIORead 0 0x180 4))) (\<lambda>v. ret (Some v)) t"
    by (simp add: sample_bus0_def new_SMBus_def no_dev_def)
  then show ?thesis using t
    by (simp add: NVNet_MMIORead_def EmuNVNet_Read_def on_world_def on_nvnet_def bnd_def)
qed

end
