(* ===== verification/Jvs_Board.thy ===== *)
theory Jvs_Board
  imports Cxbx_Prelude
begin

text \<open>
  The JVS I/O board of the Chihiro arcade system (\<open>src/devices/chihiro/JvsIo.cpp\<close>, \<open>JvsIo.h\<close>): the
  switch, coin and analog inputs, the command handlers, the packet scanner \<open>SendPacket\<close>, the packet
  builder \<open>ReceivePacket\<close> and the input poll \<open>Update\<close>.

  A packet pointer is a byte list with an offset; a read past its end is the fault \<open>OutOfBounds\<close>
  (the source has no check). The command loop \<open>handle_loop\<close> is a partial function into \<open>option\<close>:
  \<open>None\<close> is a call that never returns. The logging of the debug build is not part of the model.
\<close>

section \<open>Inputs\<close>

datatype JvsGameType = Generic | CrazyTaxi | SegaGolfClub | GhostSquad | WanganMT1 | WanganMT2

record jvs_player =
  pl_start :: bool
  pl_service :: bool
  pl_up :: bool
  pl_down :: bool
  pl_left :: bool
  pl_right :: bool
  pl_button :: "bool list"

definition default_player :: jvs_player where
  "default_player = \<lparr>pl_start = False, pl_service = False, pl_up = False, pl_down = False,
     pl_left = False, pl_right = False, pl_button = replicate 10 False\<rparr>"

definition flag :: "bool \<Rightarrow> nat \<Rightarrow> u8" where
  "flag b n = (if b then push_bit n 1 else 0)"

definition player_GetByte0 :: "jvs_player \<Rightarrow> u8" where
  "player_GetByte0 p = flag (pl_start p) 7 OR flag (pl_service p) 6 OR flag (pl_up p) 5
     OR flag (pl_down p) 4 OR flag (pl_left p) 3 OR flag (pl_right p) 2
     OR flag (pl_button p ! 0) 1 OR flag (pl_button p ! 1) 0"

definition player_GetByte1 :: "jvs_player \<Rightarrow> u8" where
  "player_GetByte1 p = flag (pl_button p ! 2) 7 OR flag (pl_button p ! 3) 6
     OR flag (pl_button p ! 4) 5 OR flag (pl_button p ! 5) 4 OR flag (pl_button p ! 6) 3
     OR flag (pl_button p ! 7) 2 OR flag (pl_button p ! 8) 1 OR flag (pl_button p ! 9) 0"

record jvs_system =
  sy_test :: bool
  sy_tilt1 :: bool
  sy_tilt2 :: bool
  sy_tilt3 :: bool

definition system_GetByte0 :: "jvs_system \<Rightarrow> u8" where
  "system_GetByte0 y = flag (sy_test y) 7 OR flag (sy_tilt1 y) 6 OR flag (sy_tilt2 y) 5
     OR flag (sy_tilt3 y) 4"

definition analog_GetByte0 :: "u16 \<Rightarrow> u8" where
  "analog_GetByte0 v = ucast (drop_bit 8 v AND 0xFF)"

definition analog_GetByte1 :: "u16 \<Rightarrow> u8" where
  "analog_GetByte1 v = ucast (v AND 0xFF)"

record jvs_coin =
  cn_coins :: u16
  cn_status :: u8

definition coin_GetByte0 :: "jvs_coin \<Rightarrow> u8" where
  "coin_GetByte0 c = (push_bit 6 (cn_status c) AND 0xC0) OR ucast (drop_bit 8 (cn_coins c) AND 0x3F)"

definition coin_GetByte1 :: "jvs_coin \<Rightarrow> u8" where
  "coin_GetByte1 c = ucast (cn_coins c AND 0xFF)"

definition JVS_MAX_PLAYERS :: nat where
  "JVS_MAX_PLAYERS = 2"

definition JVS_MAX_ANALOG :: nat where
  "JVS_MAX_ANALOG = 8"

definition JVS_MAX_COINS :: nat where
  "JVS_MAX_COINS = JVS_MAX_PLAYERS"

record jvs_inputs =
  in_system :: jvs_system
  in_player :: "jvs_player list"
  in_analog :: "u16 list"
  in_coins :: "jvs_coin list"

section \<open>The board\<close>

text \<open>
  \<open>sense\<close> is the byte \<open>pSense\<close> points to, \<open>game_type\<close>, \<open>output_bank0\<close>, \<open>coin_prev\<close>,
  \<open>last_test\<close> and \<open>key_prev\<close> are the file's globals and the static of \<open>Update\<close>.
\<close>

record jvs =
  broadcast_packet :: bool
  sense :: u8
  device_id :: u8
  response :: "u8 list"
  inputs :: jvs_inputs
  game_type :: JvsGameType
  output_bank0 :: u8
  coin_prev :: bool
  last_test :: u64
  key_prev :: bool

definition default_inputs :: jvs_inputs where
  "default_inputs = \<lparr>in_system = \<lparr>sy_test = False, sy_tilt1 = False, sy_tilt2 = False, sy_tilt3 = False\<rparr>,
     in_player = replicate JVS_MAX_PLAYERS default_player,
     in_analog = replicate JVS_MAX_ANALOG 0x8000,
     in_coins = replicate JVS_MAX_COINS \<lparr>cn_coins = 0, cn_status = 0\<rparr>\<rparr>"

text \<open>The constructor leaves \<open>BroadcastPacket\<close> uninitialised: its first value is an argument.\<close>

definition JvsIo :: "bool \<Rightarrow> u8 \<Rightarrow> jvs" where
  "JvsIo junk s = \<lparr>broadcast_packet = junk, sense = s, device_id = 1, response = [],
     inputs = default_inputs, game_type = Generic, output_bank0 = 0, coin_prev = False,
     last_test = 0, key_prev = False\<rparr>"

definition CommandFormatRevision :: u8 where
  "CommandFormatRevision = 0x11"

definition JvsVersion :: u8 where
  "JvsVersion = 0x20"

definition CommunicationVersion :: u8 where
  "CommunicationVersion = 0x10"

definition BoardID :: "u8 list" where
  "BoardID = map (\<lambda>c. of_nat (of_char c)) ''SEGA ENTERPRISES,LTD.;I/O BD JVS;837-13551''"

definition GetDeviceId :: "jvs \<Rightarrow> u8" where
  "GetDeviceId s = (if broadcast_packet s then 0 else device_id s)"

definition SetCoinCount :: "int \<Rightarrow> u16 \<Rightarrow> jvs \<Rightarrow> jvs" where
  "SetCoinCount slot n s = (if 0 \<le> slot \<and> slot < int JVS_MAX_COINS
     then s\<lparr>inputs := (inputs s)\<lparr>in_coins := (in_coins (inputs s))
       [nat slot := (in_coins (inputs s) ! nat slot)\<lparr>cn_coins := n\<rparr>]\<rparr>\<rparr>
     else s)"

section \<open>Input poll\<close>

definition expand8to16 :: "u8 \<Rightarrow> u16" where
  "expand8to16 b = push_bit 8 (ucast b) OR ucast b"

definition control_bit :: "u32 \<Rightarrow> u32 \<Rightarrow> bool" where
  "control_bit control m \<longleftrightarrow> control AND m \<noteq> 0"

definition shared_player0 :: "u32 \<Rightarrow> jvs_player" where
  "shared_player0 c = \<lparr>pl_start = control_bit c 0x02, pl_service = control_bit c 0x40,
     pl_up = control_bit c 0x800, pl_down = control_bit c 0x2000,
     pl_left = control_bit c 0x400, pl_right = control_bit c 0x1000,
     pl_button = [control_bit c 0x04, control_bit c 0x20, control_bit c 0x200,
       control_bit c 0x80000, control_bit c 0x100000, control_bit c 0x200000, False, False,
       control_bit c 0x400000, control_bit c 0x8000000]\<rparr>"

text \<open>The last two buttons of player 2 are not assigned.\<close>

definition shared_player1 :: "u32 \<Rightarrow> jvs_player \<Rightarrow> jvs_player" where
  "shared_player1 c p = \<lparr>pl_start = control_bit c 0x08, pl_service = control_bit c 0x100,
     pl_up = control_bit c 0x10000, pl_down = control_bit c 0x40000,
     pl_left = control_bit c 0x8000, pl_right = control_bit c 0x20000,
     pl_button = [control_bit c 0x10, control_bit c 0x80, control_bit c 0x4000,
       control_bit c 0x800000, control_bit c 0x1000000, control_bit c 0x2000000,
       control_bit c 0x4000000, control_bit c 0x20000000, pl_button p ! 8, pl_button p ! 9]\<rparr>"

text \<open>The four analog bytes of the shared page, in the channel order of the game.\<close>

definition analog_order :: "JvsGameType \<Rightarrow> nat list" where
  "analog_order g = (case g of
       CrazyTaxi \<Rightarrow> [1, 0, 3, 2]
     | SegaGolfClub \<Rightarrow> [1, 2, 0, 3]
     | WanganMT1 \<Rightarrow> [0, 1, 2, 3]
     | WanganMT2 \<Rightarrow> [0, 1, 2, 3]
     | _ \<Rightarrow> [1, 0, 3, 2])"

definition analog_byte :: "mem \<Rightarrow> nat \<Rightarrow> u8" where
  "analog_byte view k = view (12 + of_nat k)"

definition add_coin :: "bool \<Rightarrow> jvs_inputs \<Rightarrow> jvs_inputs" where
  "add_coin edge x = (if edge
     then x\<lparr>in_coins := (in_coins x)[0 := (in_coins x ! 0)\<lparr>cn_coins := cn_coins (in_coins x ! 0) + 1\<rparr>]\<rparr>
     else x)"

definition Update_shared :: "mem \<Rightarrow> u64 \<Rightarrow> jvs \<Rightarrow> jvs" where
  "Update_shared view now s =
     (let c = rd32 view 8; coin = rd32 view 32 \<noteq> 0; x = inputs s;
          x = x\<lparr>in_system := (in_system x)\<lparr>sy_test := control_bit c 0x01\<rparr>,
                in_player := (in_player x)[0 := shared_player0 c, 1 := shared_player1 c (in_player x ! 1)],
                in_analog := map (\<lambda>k. expand8to16 (analog_byte view k)) (analog_order (game_type s))
                             @ drop 4 (in_analog x)\<rparr>
      in s\<lparr>last_test := (if control_bit c 0x01 then now else last_test s),
           inputs := add_coin (coin \<and> \<not> coin_prev s) x, coin_prev := coin\<rparr>)"

text \<open>The keyboard fallback; \<open>key\<close> is \<open>GetAsyncKeyState\<close>, whose result is only tested.\<close>

definition VK_LEFT :: nat where "VK_LEFT = 0x25"
definition VK_UP :: nat where "VK_UP = 0x26"
definition VK_RIGHT :: nat where "VK_RIGHT = 0x27"
definition VK_DOWN :: nat where "VK_DOWN = 0x28"

definition Update_keys :: "(nat \<Rightarrow> bool) \<Rightarrow> jvs \<Rightarrow> jvs" where
  "Update_keys key s =
     (let coin = key (of_char (CHR ''5'')); x = add_coin (coin \<and> \<not> key_prev s) (inputs s);
          p = in_player x ! 0;
          p = p\<lparr>pl_start := key (of_char (CHR ''1'')), pl_up := key VK_UP, pl_down := key VK_DOWN,
                pl_button := (pl_button p)[0 := key (of_char (CHR ''A'')), 1 := key (of_char (CHR ''S''))]\<rparr>
      in s\<lparr>key_prev := coin,
           inputs := x\<lparr>in_player := (in_player x)[0 := p],
             in_analog := (in_analog x)[1 := (if key VK_LEFT then 0x9000
               else if key VK_RIGHT then 0x7000 else 0x8000)]\<rparr>\<rparr>)"

definition Update :: "mem option \<Rightarrow> u64 \<Rightarrow> (nat \<Rightarrow> bool) \<Rightarrow> jvs \<Rightarrow> jvs" where
  "Update view now key s = (case view of Some m \<Rightarrow> Update_shared m now s | None \<Rightarrow> Update_keys key s)"

text \<open>\<open>exchange(0)\<close> on the time stamp of the last test press.\<close>

definition ConsumeRecentJvsTestRequest :: "u64 \<Rightarrow> jvs \<Rightarrow> bool \<times> jvs" where
  "ConsumeRecentJvsTestRequest now s =
     (last_test s \<noteq> 0 \<and> now - last_test s \<le> 5000, s\<lparr>last_test := 0\<rparr>)"

section \<open>Commands\<close>

definition StatusOkay :: u8 where "StatusOkay = 1"
definition ChecksumError :: u8 where "ChecksumError = 3"
definition Handled :: u8 where "Handled = 1"
definition InvalidParameter :: u8 where "InvalidParameter = 3"

definition push :: "u8 list \<Rightarrow> (unit, jvs) run" where
  "push bs = modify (\<lambda>s. s\<lparr>response := response s @ bs\<rparr>)"

text \<open>\<open>data[k]\<close> for the pointer to byte \<open>i\<close> of the packet.\<close>

definition data :: "u8 list \<Rightarrow> nat \<Rightarrow> nat \<Rightarrow> (u8, jvs) run" where
  "data p i k = (if i + k < length p then ret (p ! (i + k)) else fail OutOfBounds)"

definition Jvs_Command_F0_Reset :: "u8 list \<Rightarrow> nat \<Rightarrow> (int, jvs) run" where
  "Jvs_Command_F0_Reset p i = bnd (data p i 1) (\<lambda>ensure_reset.
     bnd (if ensure_reset = 0xD9
          then bnd (modify (sense_update (\<lambda>_. 3))) (\<lambda>_. bnd (push [Handled]) (\<lambda>_.
               modify (device_id_update (\<lambda>_. 0))))
          else ret ()) (\<lambda>_. ret 1))"

definition Jvs_Command_F1_SetDeviceId :: "u8 list \<Rightarrow> nat \<Rightarrow> (int, jvs) run" where
  "Jvs_Command_F1_SetDeviceId p i = bnd (data p i 1) (\<lambda>n.
     bnd (modify (\<lambda>s. s\<lparr>device_id := n, sense := 0\<rparr>)) (\<lambda>_. bnd (push [Handled]) (\<lambda>_. ret 1)))"

definition Jvs_Command_10_GetBoardId :: "(int, jvs) run" where
  "Jvs_Command_10_GetBoardId = bnd (push [Handled]) (\<lambda>_. bnd (push BoardID) (\<lambda>_. ret 0))"

definition Jvs_Command_11_GetCommandFormat :: "(int, jvs) run" where
  "Jvs_Command_11_GetCommandFormat = bnd (push [Handled, CommandFormatRevision]) (\<lambda>_. ret 0)"

definition Jvs_Command_12_GetJvsRevision :: "(int, jvs) run" where
  "Jvs_Command_12_GetJvsRevision = bnd (push [Handled, JvsVersion]) (\<lambda>_. ret 0)"

definition Jvs_Command_13_GetCommunicationVersion :: "(int, jvs) run" where
  "Jvs_Command_13_GetCommunicationVersion = bnd (push [Handled, CommunicationVersion]) (\<lambda>_. ret 0)"

text \<open>Buttons, analog bits and general purpose outputs of the board the game expects.\<close>

definition capability_values :: "JvsGameType \<Rightarrow> u8 \<times> u8 \<times> u8" where
  "capability_values g = (case g of
       SegaGolfClub \<Rightarrow> (14, 16, 20)
     | WanganMT1 \<Rightarrow> (13, 16, 6)
     | WanganMT2 \<Rightarrow> (13, 16, 6)
     | GhostSquad \<Rightarrow> (14, 10, 20)
     | _ \<Rightarrow> (14, 10, 20))"

definition Jvs_Command_14_GetCapabilities :: "(int, jvs) run" where
  "Jvs_Command_14_GetCapabilities = bnd (push [Handled]) (\<lambda>_. bnd (get game_type) (\<lambda>g.
     case capability_values g of (buttons, analogBits, gpoCount) \<Rightarrow>
     bnd (push ([0x01, of_nat JVS_MAX_PLAYERS, buttons, 0]
              @ [0x02, of_nat JVS_MAX_COINS, 0, 0]
              @ [0x03, of_nat JVS_MAX_ANALOG, analogBits, 0]
              @ [0x12, gpoCount, 0, 0] @ [0x00])) (\<lambda>_. ret 0)))"

fun convey_scan :: "u8 list \<Rightarrow> nat" where
  "convey_scan [] = 0"
| "convey_scan (b # bs) = (if b = 0 then 1 else Suc (convey_scan bs))"

definition Jvs_Command_15_ConveyMainBoardId :: "u8 list \<Rightarrow> nat \<Rightarrow> (int, jvs) run" where
  "Jvs_Command_15_ConveyMainBoardId p i = bnd (push [Handled, 0x01, 0x05]) (\<lambda>_.
     ret (int (convey_scan (drop (i + 1) p))))"

definition switch_report :: "jvs_inputs \<Rightarrow> nat \<Rightarrow> nat \<Rightarrow> u8 list" where
  "switch_report x players bytes = system_GetByte0 (in_system x)
     # concat (map (\<lambda>i. let p = (if JVS_MAX_PLAYERS \<le> i then default_player else in_player x ! i)
         in map (\<lambda>j. if j = 0 then player_GetByte0 p else if j = 1 then player_GetByte1 p else 0)
           [0..<bytes]) [0..<players])"

definition Jvs_Command_20_ReadSwitchInputs :: "u8 list \<Rightarrow> nat \<Rightarrow> (int, jvs) run" where
  "Jvs_Command_20_ReadSwitchInputs p i = bnd (data p i 1) (\<lambda>players. bnd (data p i 2) (\<lambda>bytes.
     bnd (push [Handled]) (\<lambda>_. bnd (get inputs) (\<lambda>x.
     bnd (push (switch_report x (unat players) (unat bytes))) (\<lambda>_. ret 2)))))"

definition coin_report :: "jvs_inputs \<Rightarrow> nat \<Rightarrow> u8 list" where
  "coin_report x n = concat (map (\<lambda>i.
     let c = (if JVS_MAX_COINS \<le> i then \<lparr>cn_coins = 0, cn_status = 0\<rparr> else in_coins x ! i)
     in [coin_GetByte0 c, coin_GetByte1 c]) [0..<n])"

definition Jvs_Command_21_ReadCoinInputs :: "u8 list \<Rightarrow> nat \<Rightarrow> (int, jvs) run" where
  "Jvs_Command_21_ReadCoinInputs p i = bnd (data p i 1) (\<lambda>n. bnd (push [Handled]) (\<lambda>_.
     bnd (get inputs) (\<lambda>x. bnd (push (coin_report x (unat n))) (\<lambda>_. ret 1))))"

definition analog_report :: "jvs_inputs \<Rightarrow> nat \<Rightarrow> u8 list" where
  "analog_report x n = concat (map (\<lambda>i.
     let v = (if JVS_MAX_ANALOG \<le> i then 0x8000 else in_analog x ! i)
     in [analog_GetByte0 v, analog_GetByte1 v]) [0..<n])"

definition Jvs_Command_22_ReadAnalogInputs :: "u8 list \<Rightarrow> nat \<Rightarrow> (int, jvs) run" where
  "Jvs_Command_22_ReadAnalogInputs p i = bnd (data p i 1) (\<lambda>n. bnd (push [Handled]) (\<lambda>_.
     bnd (get inputs) (\<lambda>x. bnd (push (analog_report x (unat n))) (\<lambda>_. ret 1))))"

definition Jvs_Command_26_ReadMiscSwitchInputs :: "u8 list \<Rightarrow> nat \<Rightarrow> (int, jvs) run" where
  "Jvs_Command_26_ReadMiscSwitchInputs p i = bnd (data p i 1) (\<lambda>n. bnd (push [Handled]) (\<lambda>_.
     bnd (push (replicate (unat n) 0)) (\<lambda>_. ret 1)))"

definition Jvs_Command_2E_ReadPayoutHopperStatus :: "u8 list \<Rightarrow> nat \<Rightarrow> (int, jvs) run" where
  "Jvs_Command_2E_ReadPayoutHopperStatus p i = bnd (data p i 1) (\<lambda>n. bnd (push [Handled]) (\<lambda>_.
     bnd (push (replicate (4 * unat n) 0)) (\<lambda>_. ret 1)))"

definition Jvs_Command_2F_RetransmitData :: "(int, jvs) run" where
  "Jvs_Command_2F_RetransmitData = bnd (push [Handled]) (\<lambda>_. ret 0)"

text \<open>\<open>slotIndex\<close> is a byte: slot 0 becomes index 255, which is out of range.\<close>

definition coin_decrease :: "u8 \<Rightarrow> u16 \<Rightarrow> jvs_inputs \<Rightarrow> jvs_inputs" where
  "coin_decrease coinSlot coinCount x =
     (let k = unat (coinSlot - 1) in
      if k < JVS_MAX_COINS
      then x\<lparr>in_coins := (in_coins x)[k := (in_coins x ! k)\<lparr>cn_coins :=
        (if coinCount \<le> cn_coins (in_coins x ! k) then cn_coins (in_coins x ! k) - coinCount else 0)\<rparr>]\<rparr>
      else x)"

definition Jvs_Command_30_CoinDecrease :: "u8 list \<Rightarrow> nat \<Rightarrow> (int, jvs) run" where
  "Jvs_Command_30_CoinDecrease p i = bnd (data p i 1) (\<lambda>coinSlot. bnd (data p i 2) (\<lambda>hi.
     bnd (data p i 3) (\<lambda>lo. bnd (push [Handled]) (\<lambda>_.
     bnd (modify (inputs_update (coin_decrease coinSlot (push_bit 8 (ucast hi) OR ucast lo)))) (\<lambda>_.
     ret 3)))))"

definition Jvs_Command_32_GeneralPurposeOutput :: "u8 list \<Rightarrow> nat \<Rightarrow> (int, jvs) run" where
  "Jvs_Command_32_GeneralPurposeOutput p i = bnd (data p i 1) (\<lambda>banks. bnd (push [Handled]) (\<lambda>_.
     bnd (if 0 < banks then bnd (data p i 2) (\<lambda>v. modify (output_bank0_update (\<lambda>_. v))) else ret ())
     (\<lambda>_. ret (1 + uint banks))))"

definition Jvs_Command_33_AnalogOutput :: "u8 list \<Rightarrow> nat \<Rightarrow> (int, jvs) run" where
  "Jvs_Command_33_AnalogOutput p i = bnd (data p i 1) (\<lambda>channels. bnd (push [Handled]) (\<lambda>_.
     ret (1 + uint channels * 2)))"

definition Jvs_Command_34_CharacterOutput :: "u8 list \<Rightarrow> nat \<Rightarrow> (int, jvs) run" where
  "Jvs_Command_34_CharacterOutput p i = bnd (data p i 1) (\<lambda>byteCount. bnd (push [Handled]) (\<lambda>_.
     ret (1 + uint byteCount)))"

definition Jvs_Command_36_PayoutSubtractionOutput :: "(int, jvs) run" where
  "Jvs_Command_36_PayoutSubtractionOutput = bnd (push [Handled]) (\<lambda>_. ret 3)"

definition Jvs_Command_37_GeneralPurposeOutput2 :: "(int, jvs) run" where
  "Jvs_Command_37_GeneralPurposeOutput2 = bnd (push [Handled]) (\<lambda>_. ret 2)"

text \<open>Sub-command 5 returns \<open>data[2] - 1\<close>, an \<open>int\<close> that may be \<open>-1\<close>.\<close>

definition Jvs_Command_70_NamcoCustom :: "u8 list \<Rightarrow> nat \<Rightarrow> (int, jvs) run" where
  "Jvs_Command_70_NamcoCustom p i = bnd (data p i 1) (\<lambda>sub.
     if sub = 0x18 then bnd (push [Handled]) (\<lambda>_. ret (int (length p - i) - 1))
     else if sub = 0x05 then bnd (push [Handled]) (\<lambda>_. bnd (data p i 2) (\<lambda>n. ret (uint n - 1)))
     else if sub = 0x03 then bnd (push [Handled, 0]) (\<lambda>_. ret 3)
     else if sub = 0x15 \<or> sub = 0x16 then bnd (push [Handled]) (\<lambda>_. ret 3)
     else bnd (push [Handled]) (\<lambda>_. ret 1))"

definition Jvs_Command_78_80_SkipNamcoUnknownCustom :: "(int, jvs) run" where
  "Jvs_Command_78_80_SkipNamcoUnknownCustom = bnd (push [Handled]) (\<lambda>_. ret 14)"

section \<open>Packets\<close>

text \<open>One turn of the loop: \<open>None\<close> is the early return of an unknown command.\<close>

definition jvs_command :: "u8 list \<Rightarrow> nat \<Rightarrow> (int option, jvs) run" where
  "jvs_command p i = (let c = p ! i; go = (\<lambda>m. bnd m (\<lambda>r. ret (Some r))) in
     bnd (modify (broadcast_packet_update (\<lambda>_. 0xF0 \<le> c))) (\<lambda>_.
     if c = 0xF0 then go (Jvs_Command_F0_Reset p i)
     else if c = 0xF1 then go (Jvs_Command_F1_SetDeviceId p i)
     else if c = 0x10 then go Jvs_Command_10_GetBoardId
     else if c = 0x11 then go Jvs_Command_11_GetCommandFormat
     else if c = 0x12 then go Jvs_Command_12_GetJvsRevision
     else if c = 0x13 then go Jvs_Command_13_GetCommunicationVersion
     else if c = 0x14 then go Jvs_Command_14_GetCapabilities
     else if c = 0x15 then go (Jvs_Command_15_ConveyMainBoardId p i)
     else if c = 0x20 then go (Jvs_Command_20_ReadSwitchInputs p i)
     else if c = 0x21 then go (Jvs_Command_21_ReadCoinInputs p i)
     else if c = 0x22 then go (Jvs_Command_22_ReadAnalogInputs p i)
     else if c = 0x26 then go (Jvs_Command_26_ReadMiscSwitchInputs p i)
     else if c = 0x2E then go (Jvs_Command_2E_ReadPayoutHopperStatus p i)
     else if c = 0x2F then go Jvs_Command_2F_RetransmitData
     else if c = 0x30 \<or> c = 0x31 then go (Jvs_Command_30_CoinDecrease p i)
     else if c = 0x32 then go (Jvs_Command_32_GeneralPurposeOutput p i)
     else if c = 0x33 then go (Jvs_Command_33_AnalogOutput p i)
     else if c = 0x34 then go (Jvs_Command_34_CharacterOutput p i)
     else if c = 0x36 then go Jvs_Command_36_PayoutSubtractionOutput
     else if c = 0x37 then go Jvs_Command_37_GeneralPurposeOutput2
     else if c = 0x70 then go (Jvs_Command_70_NamcoCustom p i)
     else if 0x78 \<le> c \<and> c \<le> 0x80 then go Jvs_Command_78_80_SkipNamcoUnknownCustom
     else bnd (push [InvalidParameter]) (\<lambda>_. ret None)))"

text \<open>The loop; \<open>i += r\<close> on a \<open>size_t\<close> followed by \<open>i++\<close> is \<open>i + r + 1\<close>, as \<open>r \<ge> -1\<close>.\<close>

partial_function (option) handle_loop ::
    "u8 list \<Rightarrow> nat \<Rightarrow> jvs \<Rightarrow> (fault + (unit \<times> jvs)) option" where
  "handle_loop p i s = (if length p \<le> i then Some (Inr ((), s))
     else case jvs_command p i s of
       Inl e \<Rightarrow> Some (Inl e)
     | Inr (r, t) \<Rightarrow> (case r of
         None \<Rightarrow> Some (Inr ((), t))
       | Some n \<Rightarrow> handle_loop p (nat (int i + n + 1)) t))"

definition HandlePacket :: "u8 list \<Rightarrow> jvs \<Rightarrow> (fault + (unit \<times> jvs)) option" where
  "HandlePacket p s = handle_loop p 0 (s\<lparr>response := response s @ [StatusOkay]\<rparr>)"

definition SYNC_BYTE :: u8 where "SYNC_BYTE = 0xE0"
definition TARGET_MASTER_DEVICE :: u8 where "TARGET_MASTER_DEVICE = 0"
definition TARGET_BROADCAST :: u8 where "TARGET_BROADCAST = 0xFF"

record scanned =
  sc_target :: u8
  sc_payload :: "u8 list"
  sc_sum :: u8
  sc_check :: u8
  sc_used :: nat

text \<open>
  The reading half of \<open>SendPacket\<close>, after the sync byte: target, count, \<open>count - 1\<close> payload bytes
  (none when the count is 0) and the check byte, with the sum the loop accumulates.
\<close>

definition scan_packet :: "u8 list \<Rightarrow> fault + scanned" where
  "scan_packet b = (if length b < 3 then Inl OutOfBounds
     else let target = b ! 1; cnt = b ! 2; n = unat cnt - 1
          in if length b < n + 4 then Inl OutOfBounds
             else Inr \<lparr>sc_target = target, sc_payload = take n (drop 3 b),
               sc_sum = foldl (+) (target + cnt) (take n (drop 3 b)),
               sc_check = b ! (n + 3), sc_used = n + 4\<rparr>)"

definition SendPacket :: "u8 list \<Rightarrow> jvs \<Rightarrow> (fault + (nat \<times> jvs)) option" where
  "SendPacket b s = (if b = [] then Some (Inl OutOfBounds)
     else if b ! 0 \<noteq> SYNC_BYTE then Some (Inr (1, s))
     else case scan_packet b of
       Inl e \<Rightarrow> Some (Inl e)
     | Inr k \<Rightarrow> let s = s\<lparr>response := []\<rparr> in
         if sc_check k \<noteq> sc_sum k then Some (Inr (sc_used k, s\<lparr>response := [ChecksumError]\<rparr>))
         else if sc_target k = TARGET_BROADCAST \<or> sc_target k = device_id s
         then (case HandlePacket (sc_payload k) s of
             None \<Rightarrow> None
           | Some (Inl e) \<Rightarrow> Some (Inl e)
           | Some (Inr (_, t)) \<Rightarrow> Some (Inr (sc_used k, t)))
         else Some (Inr (sc_used k, s)))"

text \<open>The bytes written and the next state; the return value is the number of bytes.\<close>

definition ReceivePacket :: "jvs \<Rightarrow> u8 list \<times> jvs" where
  "ReceivePacket s = (if response s = [] then ([], s)
     else let cnt = of_nat (length (response s)) + 1
          in ([SYNC_BYTE, TARGET_MASTER_DEVICE, cnt] @ response s
              @ [foldl (+) (TARGET_MASTER_DEVICE + cnt) (response s)], s\<lparr>response := []\<rparr>))"

end
