(* ===== verification/Jvs_Base.thy ===== *)
theory Jvs_Base
  imports Jvs_Board
begin

text \<open>
  The Chihiro base board (\<open>src/core/hle/JVS/JVS.cpp\<close>): the filter board switches and the two pin
  registers, the node services that carry JVS packets to and from the I/O board, the firmware,
  EEPROM and backup memories, the region patch of \<open>JVS_Init\<close>, the clock's decimal coding and the
  MIDI channel of the Wangan Midnight steering controller. The memory-mapped files are byte lists;
  an access past their end is the fault \<open>OutOfBounds\<close>. The card reader pipe is host I/O and is not
  modelled.
\<close>

section \<open>State\<close>

record chihiro =
  io :: jvs
  DipSwitch :: "bool list"
  TestButton :: bool
  ServiceButton :: bool
  PINSA :: "u32 option"
  PINSB :: "u32 option"
  QcFirmware :: "u8 list"
  ScFirmware :: "u8 list"
  Eeprom :: "u8 list"
  BackupMemory :: "u8 list"
  MidiReceiveQueue :: "u8 list"

text \<open>The sense line is the byte the I/O board points to.\<close>

definition base_Reset :: "chihiro \<Rightarrow> chihiro" where
  "base_Reset c = c\<lparr>DipSwitch := [False, False, True, True, False, True, True, True],
     TestButton := False, ServiceButton := False, io := (io c)\<lparr>sense := 0\<rparr>\<rparr>"

definition GetAvPack :: "chihiro \<Rightarrow> u8" where
  "GetAvPack c = 0 AND NOT (flag (DipSwitch c ! 5) 2) AND NOT (flag (DipSwitch c ! 6) 1)
     AND NOT (flag (DipSwitch c ! 7) 0)"

definition GetPINSA :: "chihiro \<Rightarrow> u8" where
  "GetPINSA c = 0xFF AND NOT (flag (DipSwitch c ! 0) 0) AND NOT (flag (DipSwitch c ! 1) 1)
     AND NOT (flag (DipSwitch c ! 2) 2) AND NOT (flag (DipSwitch c ! 3) 4)
     AND NOT (flag (DipSwitch c ! 4) 5) AND NOT (flag (TestButton c) 6)
     AND NOT (flag (ServiceButton c) 7)"

definition GetPINSB :: "chihiro \<Rightarrow> u8" where
  "GetPINSB c = sense (io c)"

text \<open>One turn of the input thread; \<open>PINSA\<close> and \<open>PINSB\<close> are \<open>None\<close> while unresolved.\<close>

definition VK_F1 :: nat where "VK_F1 = 0x70"
definition VK_F2 :: nat where "VK_F2 = 0x71"

definition JvsInputThread_turn :: "mem option \<Rightarrow> u64 \<Rightarrow> (nat \<Rightarrow> bool) \<Rightarrow> chihiro \<Rightarrow> chihiro" where
  "JvsInputThread_turn view now key c =
     (let c = (case view of
            Some m \<Rightarrow> c\<lparr>TestButton := control_bit (rd32 m 8) 0x01,
                         ServiceButton := control_bit (rd32 m 8) 0x40\<rparr>
          | None \<Rightarrow> c\<lparr>TestButton := key VK_F1, ServiceButton := key VK_F2\<rparr>);
          c = c\<lparr>io := Update view now key (io c)\<rparr>
      in c\<lparr>PINSA := map_option (\<lambda>_. ucast (GetPINSA c)) (PINSA c),
           PINSB := map_option (\<lambda>_. ucast (GetPINSB c)) (PINSB c)\<rparr>)"

section \<open>Packets\<close>

text \<open>
  \<open>JvsNodeReceivePacket\<close>: \<open>out_payload\<close> are the bytes at \<open>&Buffer[6]\<close>, \<open>out_header\<close> the six bytes
  before them and \<open>out_length\<close> the new \<open>*Length\<close>, both left alone when the 16-bit size is 0.
\<close>

record node_out =
  out_header :: "u8 list option"
  out_payload :: "u8 list"
  out_length :: "u32 option"

definition JvsNodeReceivePacket :: "jvs \<Rightarrow> node_out \<times> jvs" where
  "JvsNodeReceivePacket s =
     (let d = GetDeviceId s; (b, t) = ReceivePacket s; payloadSize = of_nat (length b) :: u16 in
      if 0 < payloadSize
      then (\<lparr>out_header = Some [0, 1, d, 0, ucast payloadSize, ucast (drop_bit 8 payloadSize)],
             out_payload = b, out_length = Some (ucast payloadSize + 6)\<rparr>, t)
      else (\<lparr>out_header = None, out_payload = b, out_length = None\<rparr>, t))"

primrec node_send_loop :: "nat \<Rightarrow> u8 list \<Rightarrow> jvs \<Rightarrow> (fault + (unit \<times> jvs)) option" where
  "node_send_loop 0 b s = Some (Inr ((), s))"
| "node_send_loop (Suc n) b s = (case SendPacket (drop 1 b) s of
       None \<Rightarrow> None
     | Some (Inl e) \<Rightarrow> Some (Inl e)
     | Some (Inr (bytes, t)) \<Rightarrow> node_send_loop n (drop (1 + bytes) b) t)"

definition JvsNodeSendPacket :: "u8 list \<Rightarrow> jvs \<Rightarrow> (fault + (unit \<times> jvs)) option" where
  "JvsNodeSendPacket b s = (if length b < 2 then Some (Inl OutOfBounds)
     else node_send_loop (unat (b ! 1)) (drop 2 b) s)"

text \<open>The management command: always success; a non-null size pointer receives 0.\<close>

definition JVS_SendCommand :: "u32 \<Rightarrow> u32 \<times> u32 option" where
  "JVS_SendCommand a6 = (1, if a6 \<noteq> 0 then Some 0 else None)"

section \<open>Memories\<close>

definition map_read :: "u8 list \<Rightarrow> u32 \<Rightarrow> u32 \<Rightarrow> fault + u8 list" where
  "map_read m off n = (if unat off + unat n \<le> length m
     then Inr (take (unat n) (drop (unat off) m)) else Inl OutOfBounds)"

definition map_write :: "u8 list \<Rightarrow> u32 \<Rightarrow> u8 list \<Rightarrow> fault + u8 list" where
  "map_write m off b = (if unat off + length b \<le> length m
     then Inr (take (unat off) m @ b @ drop (unat off + length b) m) else Inl OutOfBounds)"

definition JvsBACKUP_Read :: "u32 \<Rightarrow> u32 \<Rightarrow> (u8 list, chihiro) run" where
  "JvsBACKUP_Read off n c = map_sum id (\<lambda>b. (b, c)) (map_read (BackupMemory c) off n)"

definition JvsBACKUP_Write :: "u32 \<Rightarrow> u8 list \<Rightarrow> (unit, chihiro) run" where
  "JvsBACKUP_Write off b c = map_sum id (\<lambda>m. ((), c\<lparr>BackupMemory := m\<rparr>)) (map_write (BackupMemory c) off b)"

definition JvsEEPROM_Read :: "u32 \<Rightarrow> u32 \<Rightarrow> (u8 list, chihiro) run" where
  "JvsEEPROM_Read off n c = map_sum id (\<lambda>b. (b, c)) (map_read (Eeprom c) off n)"

definition JvsEEPROM_Write :: "u32 \<Rightarrow> u8 list \<Rightarrow> (unit, chihiro) run" where
  "JvsEEPROM_Write off b c = map_sum id (\<lambda>m. ((), c\<lparr>Eeprom := m\<rparr>)) (map_write (Eeprom c) off b)"

definition JvsFirmwareDownload :: "u32 \<Rightarrow> u32 \<Rightarrow> (u8 list, chihiro) run" where
  "JvsFirmwareDownload off n c = map_sum id (\<lambda>b. (b, c)) (map_read (QcFirmware c) off n)"

definition JvsFirmwareUpload :: "u32 \<Rightarrow> u8 list \<Rightarrow> (unit, chihiro) run" where
  "JvsFirmwareUpload off b c = map_sum id (\<lambda>m. ((), c\<lparr>QcFirmware := m\<rparr>)) (map_write (QcFirmware c) off b)"

definition JvsScFirmwareDownload :: "u32 \<Rightarrow> u32 \<Rightarrow> (u8 list, chihiro) run" where
  "JvsScFirmwareDownload off n c = map_sum id (\<lambda>b. (b, c)) (map_read (ScFirmware c) off n)"

definition JvsScFirmwareUpload :: "u32 \<Rightarrow> u8 list \<Rightarrow> (unit, chihiro) run" where
  "JvsScFirmwareUpload off b c = map_sum id (\<lambda>m. ((), c\<lparr>ScFirmware := m\<rparr>)) (map_write (ScFirmware c) off b)"

section \<open>Region, clock\<close>

text \<open>
  The patch of the region byte at start-up. The shift is by a firmware byte; a count above 31,
  undefined in C++, is taken modulo 32 as the x86 shift takes it.
\<close>

definition REGION_JAPAN :: u32 where "REGION_JAPAN = 2"
definition REGION_USA :: u32 where "REGION_USA = 4"
definition REGION_EXPORT :: u32 where "REGION_EXPORT = 8"

definition region_bit :: "u8 \<Rightarrow> u32" where
  "region_bit region = push_bit (unat region mod 32) 1"

definition patch_region :: "u32 \<Rightarrow> u8 \<Rightarrow> u8" where
  "patch_region flags region = (if flags AND region_bit region = 0 then
       (if flags AND REGION_USA \<noteq> 0 then 2
        else if flags AND REGION_EXPORT \<noteq> 0 then 3
        else if flags AND REGION_JAPAN \<noteq> 0 then 1 else region)
     else region)"

definition BcdToUint8 :: "u8 \<Rightarrow> u8" where
  "BcdToUint8 value = value - 6 * drop_bit 4 value"

definition Uint8ToBcd :: "u8 \<Rightarrow> u8" where
  "Uint8ToBcd value = value + 6 * (value div 10)"

section \<open>MIDI channel\<close>

definition IsWanganPeripheral :: "chihiro \<Rightarrow> bool" where
  "IsWanganPeripheral c \<longleftrightarrow> game_type (io c) = WanganMT1 \<or> game_type (io c) = WanganMT2"

text \<open>
  \<open>buf\<close> tells whether the buffer pointer is not null, \<open>cap\<close> is the byte count behind the second
  pointer (\<open>None\<close> for a null pointer). The result is the return value, the new count and the bytes
  copied.
\<close>

definition JvsScReceiveMidi :: "bool \<Rightarrow> u32 option \<Rightarrow> chihiro \<Rightarrow> (u32 \<times> u32 option \<times> u8 list) \<times> chihiro" where
  "JvsScReceiveMidi buf cap c = (case cap of
       None \<Rightarrow> ((-1, None, []), c)
     | Some capacity \<Rightarrow>
         if IsWanganPeripheral c \<and> buf \<and> capacity \<noteq> 0 \<and> MidiReceiveQueue c \<noteq> []
         then let copyLength = min capacity (of_nat (length (MidiReceiveQueue c))); k = unat copyLength
              in ((0, Some copyLength, take k (MidiReceiveQueue c)),
                  c\<lparr>MidiReceiveQueue := drop k (MidiReceiveQueue c)\<rparr>)
         else ((-1, Some 0, []), c))"

definition steeringEnabled :: "chihiro \<Rightarrow> bool" where
  "steeringEnabled c \<longleftrightarrow> game_type (io c) = WanganMT1 \<or> output_bank0 (io c) AND 0x80 \<noteq> 0"

text \<open>\<open>dat\<close> is \<open>None\<close> for a null pointer; its length is the second argument.\<close>

definition JvsScSendMidi :: "u8 list option \<Rightarrow> chihiro \<Rightarrow> chihiro" where
  "JvsScSendMidi dat c = (case dat of None \<Rightarrow> c
     | Some d \<Rightarrow>
         if IsWanganPeripheral c \<and> 10 \<le> length d \<and> d ! 0 = 0xFF \<and> d ! 1 = 0xFF \<and> MidiReceiveQueue c = []
         then c\<lparr>MidiReceiveQueue := [0x43, 0x30, if steeringEnabled c then 0x31 else 0x36, 0, 0, 0]\<rparr>
         else c)"

end
