(* ===== verification/Jvs_Facts.thy ===== *)
theory Jvs_Facts
  imports Jvs_Base
begin

text \<open>
  Properties of the JVS boards: when the command loop ends, the shape of the state and of the
  response, the packet codec, the address assignment, the inputs as the game reads them and the
  steering controller channel.
\<close>

section \<open>Running a command\<close>

lemma push_run [run_simps]: "push bs s = Inr ((), s\<lparr>response := response s @ bs\<rparr>)"
  by (simp add: push_def)

lemma data_run [run_simps]:
  "data p i k s = (if i + k < length p then Inr (p ! (i + k), s) else Inl OutOfBounds)"
  by (simp add: data_def)

lemmas jvs_command_defs =
  Jvs_Command_F0_Reset_def Jvs_Command_F1_SetDeviceId_def Jvs_Command_10_GetBoardId_def
  Jvs_Command_11_GetCommandFormat_def Jvs_Command_12_GetJvsRevision_def
  Jvs_Command_13_GetCommunicationVersion_def Jvs_Command_14_GetCapabilities_def
  Jvs_Command_15_ConveyMainBoardId_def Jvs_Command_20_ReadSwitchInputs_def
  Jvs_Command_21_ReadCoinInputs_def Jvs_Command_22_ReadAnalogInputs_def
  Jvs_Command_26_ReadMiscSwitchInputs_def Jvs_Command_2E_ReadPayoutHopperStatus_def
  Jvs_Command_2F_RetransmitData_def Jvs_Command_30_CoinDecrease_def
  Jvs_Command_32_GeneralPurposeOutput_def Jvs_Command_33_AnalogOutput_def
  Jvs_Command_34_CharacterOutput_def Jvs_Command_36_PayoutSubtractionOutput_def
  Jvs_Command_37_GeneralPurposeOutput2_def Jvs_Command_70_NamcoCustom_def
  Jvs_Command_78_80_SkipNamcoUnknownCustom_def

text \<open>
  What a command can do to the board, apart from its inputs: every successful run appends to the
  response, and moves forward unless it is the zero-length manufacturer command.
\<close>

definition stuck_at :: "u8 list \<Rightarrow> nat \<Rightarrow> bool" where
  "stuck_at p i \<longleftrightarrow> i + 2 < length p \<and> p ! i = 0x70 \<and> p ! (i + 1) = 0x05 \<and> p ! (i + 2) = 0"

lemma uint_pred_cases: "0 \<le> uint (n :: u8) - 1 \<or> n = 0"
proof (cases "n = 0")
  case False
  then have "uint n \<noteq> 0" by (simp add: uint_0_iff)
  with uint_ge_0 [of n] show ?thesis by linarith
qed simp

lemma jvs_command_progress:
  assumes "jvs_command p i s = Inr (Some r, t)"
  shows "0 \<le> r \<or> r = - 1 \<and> stuck_at p i"
  using assms uint_pred_cases [of "p ! (i + 2)"] unfolding jvs_command_def Let_def
  by (simp split: if_splits prod.splits add: run_simps jvs_command_defs stuck_at_def)
    (auto simp: run_simps jvs_command_defs stuck_at_def split: if_splits prod.splits)

section \<open>The shape of the state\<close>

text \<open>
  The arrays of the inputs have the sizes of their declarations, so no index the code uses leaves
  them. Every operation of the board keeps the shape.
\<close>

definition inputs_ok :: "jvs_inputs \<Rightarrow> bool" where
  "inputs_ok x \<longleftrightarrow> length (in_player x) = JVS_MAX_PLAYERS \<and> length (in_analog x) = JVS_MAX_ANALOG
     \<and> length (in_coins x) = JVS_MAX_COINS \<and> list_all (\<lambda>p. length (pl_button p) = 10) (in_player x)"

definition jvs_ok :: "jvs \<Rightarrow> bool" where
  "jvs_ok s \<longleftrightarrow> inputs_ok (inputs s)"

lemmas jvs_sizes = JVS_MAX_PLAYERS_def JVS_MAX_ANALOG_def JVS_MAX_COINS_def

lemma length_2_conv: "length xs = 2 \<longleftrightarrow> (\<exists>a b. xs = [a, b])"
  by (auto simp: numeral_2_eq_2 length_Suc_conv)

lemma inputs_ok_coin_decrease [intro]: "inputs_ok x \<Longrightarrow> inputs_ok (coin_decrease a n x)"
  by (simp add: coin_decrease_def inputs_ok_def Let_def)

lemma inputs_ok_add_coin [intro]: "inputs_ok x \<Longrightarrow> inputs_ok (add_coin e x)"
  by (simp add: add_coin_def inputs_ok_def)

lemma length_analog_order [simp]: "length (analog_order g) = 4"
  by (simp add: analog_order_def split: JvsGameType.splits)

lemma jvs_ok_Update_shared: "jvs_ok s \<Longrightarrow> jvs_ok (Update_shared m now s)"
  unfolding jvs_ok_def Update_shared_def Let_def
  by (simp add: inputs_ok_add_coin)
    (rule inputs_ok_add_coin, auto simp: inputs_ok_def jvs_sizes length_2_conv shared_player0_def shared_player1_def)

lemma jvs_ok_Update_keys: "jvs_ok s \<Longrightarrow> jvs_ok (Update_keys key s)"
  by (auto simp: jvs_ok_def Update_keys_def Let_def inputs_ok_def add_coin_def jvs_sizes length_2_conv)

lemma jvs_ok_Update: "jvs_ok s \<Longrightarrow> jvs_ok (Update view now key s)"
  by (simp add: Update_def jvs_ok_Update_shared jvs_ok_Update_keys split: option.splits)

lemma jvs_ok_JvsIo: "jvs_ok (JvsIo junk v)"
  by (simp add: jvs_ok_def JvsIo_def default_inputs_def inputs_ok_def jvs_sizes default_player_def numeral_2_eq_2)

lemma jvs_ok_SetCoinCount: "jvs_ok s \<Longrightarrow> jvs_ok (SetCoinCount k n s)"
  by (simp add: jvs_ok_def SetCoinCount_def inputs_ok_def)

definition extends :: "jvs \<Rightarrow> jvs \<Rightarrow> bool" where
  "extends s t \<longleftrightarrow> (\<exists>more. response t = response s @ more) \<and> (jvs_ok s \<longrightarrow> jvs_ok t)
     \<and> game_type t = game_type s \<and> coin_prev t = coin_prev s \<and> last_test t = last_test s
     \<and> key_prev t = key_prev s"

lemma extends_refl [simp]: "extends s s"
  by (simp add: extends_def)

lemma extends_trans: "extends s t \<Longrightarrow> extends t u \<Longrightarrow> extends s u"
  by (force simp: extends_def)

lemma jvs_command_extends:
  assumes "jvs_command p i s = Inr (r, t)"
  shows "extends s t"
  using assms unfolding jvs_command_def Let_def
  by (simp split: if_splits prod.splits add: run_simps jvs_command_defs extends_def jvs_ok_def)
    (auto simp: run_simps jvs_command_defs extends_def jvs_ok_def inputs_ok_coin_decrease
      split: if_splits prod.splits)

text \<open>One unfolding of the loop, and its rule for facts of every result.\<close>

lemma handle_loop_end: "length p \<le> i \<Longrightarrow> handle_loop p i s = Some (Inr ((), s))"
  by (subst handle_loop.simps) simp

lemma handle_loop_step:
  "i < length p \<Longrightarrow> jvs_command p i s = Inr (Some r, t)
     \<Longrightarrow> handle_loop p i s = handle_loop p (nat (int i + r + 1)) t"
  by (subst handle_loop.simps) simp

lemma handle_loop_return:
  "i < length p \<Longrightarrow> jvs_command p i s = Inr (None, t) \<Longrightarrow> handle_loop p i s = Some (Inr ((), t))"
  by (subst handle_loop.simps) simp

lemma handle_loop_fault:
  "i < length p \<Longrightarrow> jvs_command p i s = Inl e \<Longrightarrow> handle_loop p i s = Some (Inl e)"
  by (subst handle_loop.simps) simp

lemmas handle_loop_induct = handle_loop.raw_induct [rotated, consumes 1, case_names turn]

lemma handle_loop_extends_all:
  "handle_loop p i s = Some y \<Longrightarrow> (\<forall>u t. y = Inr (u, t) \<longrightarrow> extends s t)"
proof (induction rule: handle_loop_induct)
  case (turn f p i s y)
  show ?case
  proof (cases "length p \<le> i")
    case True
    with turn show ?thesis by auto
  next
    case False
    show ?thesis
    proof (cases "jvs_command p i s")
      case (Inl e)
      with turn(2) False show ?thesis by auto
    next
      case (Inr rt)
      obtain r t where rt: "rt = (r, t)" by (cases rt)
      with Inr have st: "extends s t" by (simp add: jvs_command_extends)
      show ?thesis
      proof (cases r)
        case None
        with turn(2) False Inr rt st show ?thesis by auto
      next
        case (Some n)
        with turn(2) False Inr rt have "f p (nat (int i + n + 1)) t = Some y" by simp
        from turn(1) [OF this] st show ?thesis by (blast intro: extends_trans)
      qed
    qed
  qed
qed

lemma handle_loop_extends: "handle_loop p i s = Some (Inr (u, t)) \<Longrightarrow> extends s t"
  using handle_loop_extends_all by blast

section \<open>The command loop returns\<close>

lemma handle_loop_returns:
  assumes "\<And>k. i \<le> k \<Longrightarrow> \<not> stuck_at p k"
  shows "\<exists>r. handle_loop p i s = Some r"
  using assms
proof (induction "length p - i" arbitrary: i s rule: less_induct)
  case less
  show ?case
  proof (cases "i < length p")
    case True
    show ?thesis
    proof (cases "jvs_command p i s")
      case (Inl e)
      with True handle_loop_fault show ?thesis by blast
    next
      case (Inr rt)
      obtain r t where rt: "rt = (r, t)" by (cases rt)
      show ?thesis
      proof (cases r)
        case None
        with True Inr rt handle_loop_return show ?thesis by blast
      next
        case (Some n)
        with Inr rt have n: "0 \<le> n" using jvs_command_progress less.prems by blast
        have "\<exists>r. handle_loop p (nat (int i + n + 1)) t = Some r"
          by (rule less.hyps) (use n True less.prems in auto)
        with handle_loop_step True Inr rt Some show ?thesis by metis
      qed
    qed
  qed (simp add: handle_loop_end)
qed

lemma handle_loop_stuck: "handle_loop p i s = Some y \<Longrightarrow> \<not> stuck_at p i"
proof (induction rule: handle_loop_induct)
  case (turn f p i s y)
  show ?case
  proof
    assume a: "stuck_at p i"
    have "jvs_command p i s = Inr (Some (- 1), s\<lparr>broadcast_packet := False, response := response s @ [Handled]\<rparr>)"
      using a by (simp add: jvs_command_def stuck_at_def Jvs_Command_70_NamcoCustom_def run_simps)
    with turn(2) a have "f p i (s\<lparr>broadcast_packet := False, response := response s @ [Handled]\<rparr>) = Some y"
      by (simp add: stuck_at_def)
    from turn(1) [OF this] a show False by simp
  qed
qed


text \<open>With that sequence the loop never moves on, and each turn appends to the response.\<close>

theorem jvs_namco_hang: "HandlePacket (0x70 # 0x05 # 0 # rest) s = None"
  using handle_loop_stuck [of "0x70 # 0x05 # 0 # rest" 0]
  by (cases "HandlePacket (0x70 # 0x05 # 0 # rest) s") (auto simp: HandlePacket_def stuck_at_def)


section \<open>The packet codec\<close>

text \<open>The packet a master or a board puts on the line for a payload.\<close>

definition jvs_encode :: "u8 \<Rightarrow> u8 list \<Rightarrow> u8 list" where
  "jvs_encode target p = (let cnt = of_nat (length p) + 1
     in [SYNC_BYTE, target, cnt] @ p @ [foldl (+) (target + cnt) p])"

lemma unat_count: "length p \<le> 254 \<Longrightarrow> unat (of_nat (length p) + 1 :: u8) = length p + 1"
  using unat_of_nat [of "length p + 1", where 'a = 8] by (simp add: add.commute)

lemma scan_encode:
  assumes "length p \<le> 254"
  shows "scan_packet (jvs_encode target p @ rest) = Inr \<lparr>sc_target = target, sc_payload = p,
    sc_sum = foldl (+) (target + (of_nat (length p) + 1)) p,
    sc_check = foldl (+) (target + (of_nat (length p) + 1)) p, sc_used = length p + 4\<rparr>"
  using assms by (simp add: scan_packet_def jvs_encode_def Let_def unat_count nth_append)

lemma length_jvs_encode [simp]: "length (jvs_encode target p) = length p + 4"
  by (simp add: jvs_encode_def Let_def)

lemma jvs_encode_sync [simp]: "(jvs_encode target p @ rest) ! 0 = SYNC_BYTE" "jvs_encode target p \<noteq> []"
  by (simp_all add: jvs_encode_def Let_def)

lemma ReceivePacket_encode:
  "response s \<noteq> [] \<Longrightarrow> ReceivePacket s = (jvs_encode TARGET_MASTER_DEVICE (response s), s\<lparr>response := []\<rparr>)"
  by (simp add: ReceivePacket_def jvs_encode_def Let_def)

lemma SendPacket_encode:
  assumes "length p \<le> 254" and "target = TARGET_BROADCAST \<or> target = device_id s"
    and "HandlePacket p (s\<lparr>response := []\<rparr>) = Some (Inr ((), t))"
  shows "SendPacket (jvs_encode target p @ rest) s = Some (Inr (length p + 4, t))"
  using assms by (auto simp: SendPacket_def scan_encode)

lemma SendPacket_other:
  assumes "length p \<le> 254" and "target \<noteq> TARGET_BROADCAST" and "target \<noteq> device_id s"
  shows "SendPacket (jvs_encode target p @ rest) s = Some (Inr (length p + 4, s\<lparr>response := []\<rparr>))"
  using assms by (simp add: SendPacket_def scan_encode)

text \<open>A response of at most 254 bytes survives the line: scanning the packet \<open>ReceivePacket\<close> writes,
  whatever follows it, gives the master's address, the response as payload, a matching check byte
  and a size equal to the number of bytes written; the response is consumed.\<close>

theorem jvs_receive_roundtrip:
  assumes "response s \<noteq> []" and "length (response s) \<le> 254" and "ReceivePacket s = (b, t)"
  shows "(\<exists>k. scan_packet (b @ rest) = Inr k \<and> sc_target k = TARGET_MASTER_DEVICE
      \<and> sc_payload k = response s \<and> sc_check k = sc_sum k \<and> sc_used k = length b)
    \<and> response t = [] \<and> ReceivePacket t = ([], t)"
proof -
  have "b = jvs_encode TARGET_MASTER_DEVICE (response s)" "t = s\<lparr>response := []\<rparr>"
    using assms ReceivePacket_encode by auto
  with assms(2) show ?thesis by (simp add: scan_encode ReceivePacket_def)
qed

lemma jvs_receive_roundtrip_witness:
  "\<exists>k. scan_packet ([0xE0, 0, 3, 1, 1, 5] @ [0xD0]) = Inr k \<and> sc_payload k = [1, 1] \<and> sc_used k = 6"
  using jvs_receive_roundtrip [of "(JvsIo False 0)\<lparr>response := [1, 1]\<rparr>" "[0xE0, 0, 3, 1, 1, 5]"
      "JvsIo False 0" "[0xD0]"]
  by (auto simp: ReceivePacket_def JvsIo_def SYNC_BYTE_def TARGET_MASTER_DEVICE_def numeral_eq_Suc)

text \<open>A response of 255 bytes wraps the count to 0 and is lost on the line.\<close>

lemma jvs_count_wraps:
  assumes "length (response s) = 255"
  shows "\<exists>k. scan_packet (fst (ReceivePacket s)) = Inr k \<and> sc_payload k = []"
proof -
  have n: "response s \<noteq> []" "of_nat (length (response s)) + 1 = (0 :: u8)" using assms by auto
  then show ?thesis by (simp add: ReceivePacket_def Let_def scan_packet_def)
qed

lemma jvs_long_report:
  "HandlePacket [0x26, 0xFF] s = Some (Inr ((), s\<lparr>broadcast_packet := False,
     response := response s @ [StatusOkay, Handled] @ replicate 255 0\<rparr>))"
  unfolding HandlePacket_def
  by (subst handle_loop_step, simp, simp add: jvs_command_def run_simps Jvs_Command_26_ReadMiscSwitchInputs_def)
    (simp add: handle_loop_end)

section \<open>Exchanges through the base board\<close>

lemma HandlePacket_response:
  assumes "HandlePacket p (s\<lparr>response := []\<rparr>) = Some (Inr (u, t))"
  shows "\<exists>reports. response t = StatusOkay # reports"
  using handle_loop_extends [OF assms [unfolded HandlePacket_def]] by (auto simp: extends_def)

lemma node_length:
  assumes "n \<le> 258"
  shows "0 < (of_nat n :: u16) \<longleftrightarrow> 0 < n" "ucast (of_nat n :: u16) = (of_nat n :: u8)"
    "ucast (drop_bit 8 (of_nat n :: u16)) = (of_nat (n div 256) :: u8)"
    "ucast (of_nat n :: u16) = (of_nat n :: u32)"
proof -
  have n: "unat (of_nat n :: u16) = n" using assms by (simp add: unat_of_nat)
  then show "0 < (of_nat n :: u16) \<longleftrightarrow> 0 < n" by (simp add: word_less_nat_alt)
  show "ucast (of_nat n :: u16) = (of_nat n :: u8)" "ucast (of_nat n :: u16) = (of_nat n :: u32)"
    by (metis n of_nat_unat)+
  have "unat (drop_bit 8 (of_nat n :: u16)) = n div 256"
    by (simp only: unat_drop_bit_eq n) (simp add: drop_bit_eq_div)
  then show "ucast (drop_bit 8 (of_nat n :: u16)) = (of_nat (n div 256) :: u8)"
    by (metis of_nat_unat)
qed



text \<open>
  Each packet clears the response of the one before: of two packets sent in one buffer only the
  second is answered.
\<close>

lemma jvs_second_packet_only:
  assumes "SendPacket (jvs_encode a p @ 0 # jvs_encode b q) s = Some (Inr (length p + 4, t))"
    and "SendPacket (jvs_encode b q) t = Some (Inr (n, u))"
  shows "JvsNodeSendPacket ([0, 2, 0] @ jvs_encode a p @ [0] @ jvs_encode b q) s = Some (Inr ((), u))"
proof -
  have "node_send_loop (Suc (Suc 0)) (0 # jvs_encode a p @ 0 # jvs_encode b q) s = Some (Inr ((), u))"
    using assms by simp
  then show ?thesis by (simp add: JvsNodeSendPacket_def flip: numeral_2_eq_2)
qed

text \<open>C25: Address assignment as a master does it: after the reset broadcast the board has address 0 and
  drives the sense line to 3; after the set-address broadcast it has the given address and the sense
  line is 0; from then on packets for any other address get no answer and change nothing.\<close>

theorem jvs_address_assignment:
  "\<exists>s1 s2. SendPacket (jvs_encode TARGET_BROADCAST [0xF0, 0xD9]) s = Some (Inr (6, s1))
    \<and> sense s1 = 3 \<and> device_id s1 = 0 \<and> response s1 = [StatusOkay, Handled]
    \<and> SendPacket (jvs_encode TARGET_BROADCAST [0xF1, n]) s1 = Some (Inr (6, s2))
    \<and> sense s2 = 0 \<and> device_id s2 = n \<and> response s2 = [StatusOkay, Handled] \<and> inputs s2 = inputs s
    \<and> (\<forall>p target rest. length p \<le> 254 \<longrightarrow> target \<noteq> TARGET_BROADCAST \<longrightarrow> target \<noteq> n
        \<longrightarrow> SendPacket (jvs_encode target p @ rest) s2 = Some (Inr (length p + 4, s2\<lparr>response := []\<rparr>)))"
proof -
  define s1 where "s1 = s\<lparr>response := [StatusOkay, Handled], sense := 3, device_id := 0, broadcast_packet := True\<rparr>"
  define s2 where "s2 = s1\<lparr>sense := 0, device_id := n\<rparr>"
  have "HandlePacket [0xF0, 0xD9] (s\<lparr>response := []\<rparr>) = Some (Inr ((), s1))"
    unfolding HandlePacket_def s1_def
    by (subst handle_loop_step, simp, simp add: jvs_command_def run_simps Jvs_Command_F0_Reset_def)
      (simp add: handle_loop_end)
  from SendPacket_encode [OF _ _ this, of TARGET_BROADCAST "[]"]
  have 1: "SendPacket (jvs_encode TARGET_BROADCAST [0xF0, 0xD9]) s = Some (Inr (6, s1))" by simp
  have "HandlePacket [0xF1, n] (s1\<lparr>response := []\<rparr>) = Some (Inr ((), s2))"
    unfolding HandlePacket_def s2_def s1_def
    by (subst handle_loop_step, simp, simp add: jvs_command_def run_simps Jvs_Command_F1_SetDeviceId_def)
      (simp add: handle_loop_end)
  from SendPacket_encode [OF _ _ this, of TARGET_BROADCAST "[]"]
  have 2: "SendPacket (jvs_encode TARGET_BROADCAST [0xF1, n]) s1 = Some (Inr (6, s2))" by simp
  show ?thesis
    by (rule exI [of _ s1], rule exI [of _ s2]) (use 1 2 in \<open>auto simp: s1_def s2_def SendPacket_other\<close>)
qed

lemma jvs_address_assignment_witness:
  "\<exists>s1 s2. SendPacket (jvs_encode TARGET_BROADCAST [0xF0, 0xD9]) (JvsIo False 0) = Some (Inr (6, s1))
    \<and> SendPacket (jvs_encode TARGET_BROADCAST [0xF1, 2]) s1 = Some (Inr (6, s2))
    \<and> SendPacket (jvs_encode 3 [0x10] @ []) s2 = Some (Inr (5, s2\<lparr>response := []\<rparr>))"
proof -
  have "length [0x10 :: u8] \<le> 254" "(3 :: u8) \<noteq> TARGET_BROADCAST" "(3 :: u8) \<noteq> 2" "length [0x10 :: u8] + 4 = 5"
    by (simp_all add: TARGET_BROADCAST_def)
  with jvs_address_assignment [of "JvsIo False 0" 2] show ?thesis by metis
qed

section \<open>Inputs as the game reads them\<close>

text \<open>
  The documented layout of the shared control word: byte of the switch report, bit in that byte,
  bit of the control word. Bit 1 and 0 of a player's first byte are buttons 1 and 2, and so on.
\<close>

definition switch_layout :: "(nat \<times> nat \<times> nat) list" where
  "switch_layout = [(0, 7, 0),
     (1, 7, 1), (1, 6, 6), (1, 5, 11), (1, 4, 13), (1, 3, 10), (1, 2, 12), (1, 1, 2), (1, 0, 5),
     (2, 7, 9), (2, 6, 19), (2, 5, 20), (2, 4, 21), (2, 1, 22), (2, 0, 27),
     (3, 7, 3), (3, 6, 8), (3, 5, 16), (3, 4, 18), (3, 3, 15), (3, 2, 17), (3, 1, 4), (3, 0, 7),
     (4, 7, 14), (4, 6, 23), (4, 5, 24), (4, 4, 25), (4, 3, 26), (4, 2, 29)]"

lemma control_bit_exp: "control_bit c (push_bit n 1) \<longleftrightarrow> n < 32 \<and> bit c n"
proof -
  have "c AND push_bit n 1 = (if bit c n then push_bit n 1 else 0)"
    by (rule bit_word_eqI) (auto simp: bit_simps)
  then show ?thesis using bit_imp_le_length [of c n] by (auto simp: control_bit_def push_bit_eq_mult)
qed

lemma bit_flag [simp]: "bit (flag b n) k \<longleftrightarrow> b \<and> k = n \<and> n < 8"
  by (auto simp: flag_def bit_simps)

lemma control_bits:
  "control_bit c 0x01 = bit c 0" "control_bit c 0x02 = bit c 1" "control_bit c 0x04 = bit c 2"
  "control_bit c 0x08 = bit c 3" "control_bit c 0x10 = bit c 4" "control_bit c 0x20 = bit c 5"
  "control_bit c 0x40 = bit c 6" "control_bit c 0x80 = bit c 7" "control_bit c 0x100 = bit c 8"
  "control_bit c 0x200 = bit c 9" "control_bit c 0x400 = bit c 10" "control_bit c 0x800 = bit c 11"
  "control_bit c 0x1000 = bit c 12" "control_bit c 0x2000 = bit c 13" "control_bit c 0x4000 = bit c 14"
  "control_bit c 0x8000 = bit c 15" "control_bit c 0x10000 = bit c 16" "control_bit c 0x20000 = bit c 17"
  "control_bit c 0x40000 = bit c 18" "control_bit c 0x80000 = bit c 19" "control_bit c 0x100000 = bit c 20"
  "control_bit c 0x200000 = bit c 21" "control_bit c 0x400000 = bit c 22" "control_bit c 0x800000 = bit c 23"
  "control_bit c 0x1000000 = bit c 24" "control_bit c 0x2000000 = bit c 25" "control_bit c 0x4000000 = bit c 26"
  "control_bit c 0x8000000 = bit c 27" "control_bit c 0x20000000 = bit c 29"
  using control_bit_exp [of c 0] control_bit_exp [of c 1] control_bit_exp [of c 2]
    control_bit_exp [of c 3] control_bit_exp [of c 4] control_bit_exp [of c 5]
    control_bit_exp [of c 6] control_bit_exp [of c 7] control_bit_exp [of c 8]
    control_bit_exp [of c 9] control_bit_exp [of c 10] control_bit_exp [of c 11]
    control_bit_exp [of c 12] control_bit_exp [of c 13] control_bit_exp [of c 14]
    control_bit_exp [of c 15] control_bit_exp [of c 16] control_bit_exp [of c 17]
    control_bit_exp [of c 18] control_bit_exp [of c 19] control_bit_exp [of c 20]
    control_bit_exp [of c 21] control_bit_exp [of c 22] control_bit_exp [of c 23]
    control_bit_exp [of c 24] control_bit_exp [of c 25] control_bit_exp [of c 26]
    control_bit_exp [of c 27] control_bit_exp [of c 29]
  by simp_all

lemma switch_report_2_2:
  "switch_report x 2 2 = [system_GetByte0 (in_system x),
     player_GetByte0 (in_player x ! 0), player_GetByte1 (in_player x ! 0),
     player_GetByte0 (in_player x ! 1), player_GetByte1 (in_player x ! 1)]"
  by (simp add: switch_report_def Let_def numeral_2_eq_2 JVS_MAX_PLAYERS_def)

lemma read_switches_run:
  "HandlePacket [0x20, 2, 2] s = Some (Inr ((), s\<lparr>broadcast_packet := False,
     response := response s @ StatusOkay # Handled # switch_report (inputs s) 2 2\<rparr>))"
  unfolding HandlePacket_def
  by (subst handle_loop_step, simp, simp add: jvs_command_def run_simps Jvs_Command_20_ReadSwitchInputs_def)
    (simp add: handle_loop_end)

text \<open>After a poll of the shared page, the answer to the switch request for two players of two bytes
  has, at every place of the documented layout, the corresponding bit of the control word.\<close>

theorem jvs_switch_layout:
  assumes "jvs_ok s" and "response s = []"
  shows "\<exists>t. HandlePacket [0x20, 2, 2] (Update (Some view) now key s) = Some (Inr ((), t))
    \<and> length (response t) = 7
    \<and> list_all (\<lambda>(byte, b, c). bit (response t ! (2 + byte)) b = bit (rd32 view 8) c) switch_layout"
proof -
  let ?s = "Update_shared view now s"
  define c where "c = rd32 view 8"
  obtain p0 p1 where pl: "in_player (inputs s) = [p0, p1]"
    using assms(1) by (auto simp: jvs_ok_def inputs_ok_def JVS_MAX_PLAYERS_def length_2_conv)
  have i: "in_player (inputs ?s) = [shared_player0 c, shared_player1 c p1]"
      "sy_test (in_system (inputs ?s)) = control_bit c 0x01" "response ?s = []"
    using assms(2) by (simp_all add: Update_shared_def Let_def add_coin_def pl c_def)
  show ?thesis
    by (simp add: Update_def read_switches_run i switch_report_2_2 switch_layout_def
        system_GetByte0_def player_GetByte0_def player_GetByte1_def bit_or_iff
        shared_player0_def shared_player1_def control_bits flip: c_def)
qed

text \<open>The presses of a coin switch, as a player makes them.\<close>

fun rising :: "bool \<Rightarrow> bool list \<Rightarrow> nat" where
  "rising prev [] = 0"
| "rising prev (b # bs) = (if b \<and> \<not> prev then Suc (rising b bs) else rising b bs)"

text \<open>Over any sequence of polls the coin counter of slot 1 grows, modulo the 16-bit width, by the
  number of times the coin state of the shared page goes from zero to non-zero; the other slot never
  moves.\<close>

theorem jvs_coin_edges:
  assumes "jvs_ok s"
  shows "let t = foldl (\<lambda>s (view, now). Update (Some view) now key s) s polls in
    cn_coins (in_coins (inputs t) ! 0) = cn_coins (in_coins (inputs s) ! 0)
      + of_nat (rising (coin_prev s) (map (\<lambda>(view, now). rd32 view 32 \<noteq> 0) polls))
    \<and> in_coins (inputs t) ! 1 = in_coins (inputs s) ! 1"
  using assms
proof (induction polls arbitrary: s)
  case (Cons pl polls)
  obtain view now where pl: "pl = (view, now)" by (cases pl)
  define u where "u = Update (Some view) now key s"
  have l: "length (in_coins (inputs s)) = 2"
    using Cons.prems by (simp add: jvs_ok_def inputs_ok_def JVS_MAX_COINS_def JVS_MAX_PLAYERS_def)
  have u: "jvs_ok u" "coin_prev u = (rd32 view 32 \<noteq> 0)"
    "cn_coins (in_coins (inputs u) ! 0) = cn_coins (in_coins (inputs s) ! 0)
       + (if rd32 view 32 \<noteq> 0 \<and> \<not> coin_prev s then 1 else 0)"
    "in_coins (inputs u) ! 1 = in_coins (inputs s) ! 1"
    using Cons.prems l by (simp_all add: u_def jvs_ok_Update)
      (simp_all add: Update_def Update_shared_def Let_def add_coin_def)
  from Cons.IH [OF u(1)] u show ?case by (simp add: pl Let_def flip: u_def)
qed simp

lemma jvs_switch_layout_witness:
  "\<exists>t. HandlePacket [0x20, 2, 2] (Update (Some (\<lambda>_. 0x55)) 7 (\<lambda>_. False) (JvsIo False 0)) = Some (Inr ((), t))
    \<and> length (response t) = 7"
proof -
  have "response (JvsIo False 0) = []" by (simp add: JvsIo_def)
  from jvs_switch_layout [OF jvs_ok_JvsIo this] show ?thesis by blast
qed

lemma jvs_coin_edges_witness:
  "cn_coins (in_coins (inputs (foldl (\<lambda>s (view, now). Update (Some view) now (\<lambda>_. False) s) (JvsIo False 0)
     [(\<lambda>_. 1, 0), (\<lambda>_. 1, 1), (\<lambda>_. 0, 2), (\<lambda>_. 1, 3)])) ! 0) = 2"
  using jvs_coin_edges [OF jvs_ok_JvsIo [of False 0], of "\<lambda>_. False" "[(\<lambda>_. 1, 0), (\<lambda>_. 1, 1), (\<lambda>_. 0, 2), (\<lambda>_. 1, 3)]"]
  unfolding Let_def by (simp add: JvsIo_def default_inputs_def JVS_MAX_COINS_def JVS_MAX_PLAYERS_def rd32_def)

section \<open>Every reachable board\<close>

inductive jvs_reachable :: "jvs \<Rightarrow> bool" where
  jvs_start: "jvs_reachable (JvsIo junk v)"
| jvs_game: "jvs_reachable s \<Longrightarrow> jvs_reachable (s\<lparr>game_type := g\<rparr>)"
| jvs_poll: "jvs_reachable s \<Longrightarrow> jvs_reachable (Update view now key s)"
| jvs_coin: "jvs_reachable s \<Longrightarrow> jvs_reachable (SetCoinCount k n s)"
| jvs_test: "jvs_reachable s \<Longrightarrow> jvs_reachable (snd (ConsumeRecentJvsTestRequest now s))"
| jvs_send: "jvs_reachable s \<Longrightarrow> SendPacket b s = Some (Inr (n, t)) \<Longrightarrow> jvs_reachable t"
| jvs_recv: "jvs_reachable s \<Longrightarrow> jvs_reachable (snd (ReceivePacket s))"

definition response_ok :: "jvs \<Rightarrow> bool" where
  "response_ok s \<longleftrightarrow> response s = [] \<or> response s = [ChecksumError] \<or> (\<exists>r. response s = StatusOkay # r)"

lemma SendPacket_result:
  assumes "SendPacket b s = Some (Inr (n, t))"
  shows "t = s \<or> t = s\<lparr>response := []\<rparr> \<or> t = s\<lparr>response := [ChecksumError]\<rparr>
    \<or> (\<exists>p. HandlePacket p (s\<lparr>response := []\<rparr>) = Some (Inr ((), t)))"
  using assms by (auto simp: SendPacket_def Let_def split: if_splits sum.splits option.splits)



section \<open>The steering controller\<close>

text \<open>The handle check of the second Wangan Midnight title: writing output bank 0, sending the
  controller packet over the MIDI channel and reading the channel gives C01 when bit 7 of the bank is
  set and C06 when it is clear; the first title always reads C01.\<close>

theorem jvs_handle_check:
  assumes "IsWanganPeripheral c" and "MidiReceiveQueue c = []"
    and "10 \<le> length d" and "d ! 0 = 0xFF" and "d ! 1 = 0xFF"
  shows "\<exists>t. HandlePacket [0x32, 1, v] (io c) = Some (Inr ((), t))
    \<and> fst (JvsScReceiveMidi True (Some 64) (JvsScSendMidi (Some d) (c\<lparr>io := t\<rparr>)))
      = (0, Some 6, [0x43, 0x30, if game_type (io c) = WanganMT1 \<or> bit v 7 then 0x31 else 0x36, 0, 0, 0])"
proof -
  define t where "t = (io c)\<lparr>broadcast_packet := False, response := response (io c) @ [StatusOkay, Handled], output_bank0 := v\<rparr>"
  have "HandlePacket [0x32, 1, v] (io c) = Some (Inr ((), t))"
    unfolding HandlePacket_def t_def
    by (subst handle_loop_step, simp, simp add: jvs_command_def run_simps Jvs_Command_32_GeneralPurposeOutput_def)
      (simp add: handle_loop_end)
  moreover have "v AND 0x80 \<noteq> 0 \<longleftrightarrow> bit v 7"
    using and_exp_eq_0_iff_not_bit [of v 7] by simp
  ultimately show ?thesis using assms
    by (intro exI [of _ t])
      (auto simp: JvsScReceiveMidi_def JvsScSendMidi_def IsWanganPeripheral_def steeringEnabled_def t_def Let_def min_def)
qed

lemma jvs_handle_check_witness:
  "\<exists>t. HandlePacket [0x32, 1, 0x80] ((JvsIo False 0)\<lparr>game_type := WanganMT2\<rparr>) = Some (Inr ((), t))"
proof -
  define c where "c = \<lparr>io = (JvsIo False 0)\<lparr>game_type := WanganMT2\<rparr>, DipSwitch = [], TestButton = False,
    ServiceButton = False, PINSA = None, PINSB = None, QcFirmware = [], ScFirmware = [], Eeprom = [],
    BackupMemory = [], MidiReceiveQueue = []\<rparr>"
  have "io c = (JvsIo False 0)\<lparr>game_type := WanganMT2\<rparr>" by (simp add: c_def)
  with jvs_handle_check [of c "replicate 10 0xFF" "0x80"] show ?thesis
    by (auto simp: c_def IsWanganPeripheral_def numeral_eq_Suc)
qed

section \<open>Further facts of the base board\<close>

lemma map_read_write:
  "map_write m off b = Inr m' \<Longrightarrow> n = of_nat (length b) \<Longrightarrow> length b < 2 ^ 32 \<Longrightarrow> map_read m' off n = Inr b"
  by (auto simp: map_read_def map_write_def unat_of_nat split: if_splits)

lemma backup_write_read:
  assumes "JvsBACKUP_Write off b c = Inr ((), t)" and "length b < 2 ^ 32"
  shows "JvsBACKUP_Read off (of_nat (length b)) t = Inr (b, t)"
proof -
  obtain m where "map_write (BackupMemory c) off b = Inr m" "t = c\<lparr>BackupMemory := m\<rparr>"
    using assms(1) by (cases "map_write (BackupMemory c) off b") (auto simp: JvsBACKUP_Write_def)
  with map_read_write [OF _ refl assms(2)] show ?thesis by (simp add: JvsBACKUP_Read_def)
qed

lemma region_patched:
  assumes "flags AND (REGION_JAPAN OR REGION_USA OR REGION_EXPORT) \<noteq> 0"
  shows "flags AND region_bit (patch_region flags region) \<noteq> 0"
proof -
  have "flags AND REGION_JAPAN \<noteq> 0 \<or> flags AND REGION_USA \<noteq> 0 \<or> flags AND REGION_EXPORT \<noteq> 0"
    using assms by (auto simp: bit.conj_disj_distrib)
  then show ?thesis
    by (auto simp: patch_region_def region_bit_def REGION_JAPAN_def REGION_USA_def REGION_EXPORT_def)
qed

lemma av_pack_zero: "GetAvPack c = 0"
  by (simp add: GetAvPack_def)

lemma bcd_roundtrip:
  assumes "v < 100"
  shows "BcdToUint8 (Uint8ToBcd v) = v"
proof -
  have "\<forall>n \<in> set [0..<100]. BcdToUint8 (Uint8ToBcd (of_nat n)) = of_nat n"
    by (simp add: upt_rec BcdToUint8_def Uint8ToBcd_def)
  moreover have "unat v \<in> set [0..<100]" using assms by (simp add: word_less_nat_alt)
  ultimately have "BcdToUint8 (Uint8ToBcd (of_nat (unat v))) = of_nat (unat v)" by blast
  then show ?thesis by simp
qed

end
