(* ===== verification/Vid_Swizzle.thy ===== *)
theory Vid_Swizzle
  imports Cxbx_Prelude
begin

text \<open>
  Texture swizzling (\<open>src/devices/video/swizzle.cpp\<close>): the masks that interleave the coordinate
  bits, the bit deposit and the two box copies. The two bit loops can run for ever and are partial
  functions into \<open>option\<close>; buffers are functions from byte offsets.

  The lemmas show when the loops end, what they compute, and that unswizzling a swizzled rectangle
  gives the rectangle back.
\<close>

section \<open>Masks\<close>

text \<open>The body of the \<open>do\<close> loop; a state is \<open>(x, y, z, bit, mask_bit)\<close>.\<close>

type_synonym swz = "u32 \<times> u32 \<times> u32 \<times> u32 \<times> u32"

definition swizzle_turn :: "u32 \<Rightarrow> u32 \<Rightarrow> u32 \<Rightarrow> swz \<Rightarrow> bool \<times> swz" where
  "swizzle_turn width height depth s = (case s of (x, y, z, b, mask_bit) \<Rightarrow>
     let d = True;
         (x, mask_bit, d) = (if b < width then (x OR mask_bit, push_bit 1 mask_bit, False) else (x, mask_bit, d));
         (y, mask_bit, d) = (if b < height then (y OR mask_bit, push_bit 1 mask_bit, False) else (y, mask_bit, d));
         (z, mask_bit, d) = (if b < depth then (z OR mask_bit, push_bit 1 mask_bit, False) else (z, mask_bit, d))
     in (d, (x, y, z, push_bit 1 b, mask_bit)))"

partial_function (option) swizzle_loop :: "u32 \<Rightarrow> u32 \<Rightarrow> u32 \<Rightarrow> swz \<Rightarrow> swz option" where
  "swizzle_loop width height depth s = (case swizzle_turn width height depth s of (d, t) \<Rightarrow>
     if d then Some t else swizzle_loop width height depth t)"

text \<open>The result is the three masks, or the failed assertion.\<close>

definition generate_swizzle_masks :: "u32 \<Rightarrow> u32 \<Rightarrow> u32 \<Rightarrow> (fault + (u32 \<times> u32 \<times> u32)) option" where
  "generate_swizzle_masks width height depth =
     (case swizzle_loop width height depth (0, 0, 0, 1, 1) of
        None \<Rightarrow> None
      | Some (x, y, z, b, mask_bit) \<Rightarrow> Some (if (x XOR y) XOR z = mask_bit - 1 then Inr (x, y, z) else Inl AssertFailed))"

section \<open>Bit deposit\<close>

partial_function (option) fill_loop :: "u32 \<Rightarrow> u32 \<Rightarrow> u32 \<Rightarrow> u32 \<Rightarrow> u32 option" where
  "fill_loop pat value b result = (if value = 0 then Some result
     else if pat AND b \<noteq> 0
     then fill_loop pat (drop_bit 1 value) (push_bit 1 b) (result OR (if value AND 1 \<noteq> 0 then b else 0))
     else fill_loop pat value (push_bit 1 b) result)"

definition fill_pattern :: "u32 \<Rightarrow> u32 \<Rightarrow> u32 option" where
  "fill_pattern pat value = fill_loop pat value 1 0"

definition get_swizzled_offset :: "u32 \<Rightarrow> u32 \<Rightarrow> u32 \<Rightarrow> u32 \<Rightarrow> u32 \<Rightarrow> u32 \<Rightarrow> u32 \<Rightarrow> u32 option" where
  "get_swizzled_offset x y z mask_x mask_y mask_z bytes_per_pixel =
     (case fill_pattern mask_x x of None \<Rightarrow> None | Some fx \<Rightarrow>
      case fill_pattern mask_y y of None \<Rightarrow> None | Some fy \<Rightarrow>
      case fill_pattern mask_z z of None \<Rightarrow> None | Some fz \<Rightarrow>
      Some (bytes_per_pixel * (fx OR fy OR fz)))"

section \<open>Box copies\<close>

type_synonym buf = "nat \<Rightarrow> u8"

definition memcpy :: "buf \<Rightarrow> nat \<Rightarrow> buf \<Rightarrow> nat \<Rightarrow> nat \<Rightarrow> buf" where
  "memcpy dst d src s n = (\<lambda>a. if d \<le> a \<and> a < d + n then src (s + (a - d)) else dst a)"

primrec opt_for :: "('a \<Rightarrow> 's \<Rightarrow> 's option) \<Rightarrow> 'a list \<Rightarrow> 's \<Rightarrow> 's option" where
  "opt_for f [] s = Some s"
| "opt_for f (x # xs) s = (case f x s of None \<Rightarrow> None | Some t \<Rightarrow> opt_for f xs t)"

text \<open>The three loop counters in the order of the loops.\<close>

definition box :: "u32 \<Rightarrow> u32 \<Rightarrow> u32 \<Rightarrow> (u32 \<times> u32 \<times> u32) list" where
  "box width height depth = [(of_nat x, of_nat y, of_nat z).
     z \<leftarrow> [0..<unat depth], y \<leftarrow> [0..<unat height], x \<leftarrow> [0..<unat width]]"

text \<open>
  The body of the innermost loop of \<open>swizzle_box\<close>. The source pointer has advanced by
  \<open>z * slice_pitch\<close>; the offsets are \<open>unsigned int\<close> and wrap. The call passes 0 for both \<open>z\<close> and
  \<open>mask_z\<close>.
\<close>

definition swizzle_pixel :: "u32 \<Rightarrow> u32 \<Rightarrow> u32 \<Rightarrow> u32 \<Rightarrow> u32 \<Rightarrow> buf \<Rightarrow> u32 \<times> u32 \<times> u32 \<Rightarrow> buf \<Rightarrow> buf option" where
  "swizzle_pixel mask_x mask_y row_pitch slice_pitch bpp src = (\<lambda>(x, y, z) dst.
     case get_swizzled_offset x y 0 mask_x mask_y 0 bpp of None \<Rightarrow> None
     | Some off \<Rightarrow> Some (memcpy dst (unat off)
         src (unat z * unat slice_pitch + unat (y * row_pitch + x * bpp)) (unat bpp)))"

definition swizzle_box ::
    "buf \<Rightarrow> u32 \<Rightarrow> u32 \<Rightarrow> u32 \<Rightarrow> buf \<Rightarrow> u32 \<Rightarrow> u32 \<Rightarrow> u32 \<Rightarrow> (fault + buf) option" where
  "swizzle_box src width height depth dst row_pitch slice_pitch bpp =
     (case generate_swizzle_masks width height depth of
        None \<Rightarrow> None
      | Some (Inl e) \<Rightarrow> Some (Inl e)
      | Some (Inr (mask_x, mask_y, mask_z)) \<Rightarrow>
          map_option Inr (opt_for (swizzle_pixel mask_x mask_y row_pitch slice_pitch bpp src)
            (box width height depth) dst))"

definition unswizzle_pixel :: "u32 \<Rightarrow> u32 \<Rightarrow> u32 \<Rightarrow> u32 \<Rightarrow> u32 \<Rightarrow> u32 \<Rightarrow> buf \<Rightarrow> u32 \<times> u32 \<times> u32 \<Rightarrow> buf \<Rightarrow> buf option" where
  "unswizzle_pixel mask_x mask_y mask_z row_pitch slice_pitch bpp src = (\<lambda>(x, y, z) dst.
     case get_swizzled_offset x y z mask_x mask_y mask_z bpp of None \<Rightarrow> None
     | Some off \<Rightarrow> Some (memcpy dst (unat z * unat slice_pitch + unat (y * row_pitch + x * bpp))
         src (unat off) (unat bpp)))"

definition unswizzle_box ::
    "buf \<Rightarrow> u32 \<Rightarrow> u32 \<Rightarrow> u32 \<Rightarrow> buf \<Rightarrow> u32 \<Rightarrow> u32 \<Rightarrow> u32 \<Rightarrow> (fault + buf) option" where
  "unswizzle_box src width height depth dst row_pitch slice_pitch bpp =
     (case generate_swizzle_masks width height depth of
        None \<Rightarrow> None
      | Some (Inl e) \<Rightarrow> Some (Inl e)
      | Some (Inr (mask_x, mask_y, mask_z)) \<Rightarrow>
          map_option Inr (opt_for (unswizzle_pixel mask_x mask_y mask_z row_pitch slice_pitch bpp src)
            (box width height depth) dst))"

definition unswizzle_rect :: "buf \<Rightarrow> u32 \<Rightarrow> u32 \<Rightarrow> buf \<Rightarrow> u32 \<Rightarrow> u32 \<Rightarrow> (fault + buf) option" where
  "unswizzle_rect src width height dst pitch bpp = unswizzle_box src width height 1 dst pitch 0 bpp"

definition swizzle_rect :: "buf \<Rightarrow> u32 \<Rightarrow> u32 \<Rightarrow> buf \<Rightarrow> u32 \<Rightarrow> u32 \<Rightarrow> (fault + buf) option" where
  "swizzle_rect src width height dst pitch bpp = swizzle_box src width height 1 dst pitch 0 bpp"

section \<open>The deposit loop\<close>

definition cnt :: "u32 \<Rightarrow> nat \<Rightarrow> nat \<Rightarrow> nat" where
  "cnt pat k i = length (filter (bit pat) [k..<i])"

lemma cnt_step: "k < i \<Longrightarrow> cnt pat k i = (if bit pat k then 1 else 0) + cnt pat (Suc k) i"
  by (simp add: cnt_def upt_conv_Cons)

lemma cnt_le [simp]: "i \<le> k \<Longrightarrow> cnt pat k i = 0"
  by (simp add: cnt_def)

lemma cnt_Suc: "k \<le> i \<Longrightarrow> cnt pat k (Suc i) = cnt pat k i + (if bit pat i then 1 else 0)"
  by (simp add: cnt_def)

lemma and_exp_word: "(w :: u32) AND 2 ^ k \<noteq> 0 \<longleftrightarrow> bit w k"
  using and_exp_eq_0_iff_not_bit [of w k] by simp

lemma fill_loop_deposit:
  assumes "k \<le> 32" and "unat v < 2 ^ cnt pat k 32"
  shows "\<exists>r. fill_loop pat v (2 ^ k) res = Some r \<and>
    (\<forall>i. bit r i \<longleftrightarrow> bit res i \<or> k \<le> i \<and> bit pat i \<and> bit v (cnt pat k i))"
  using assms
proof (induction "32 - k" arbitrary: k v res)
  case 0
  then have "v = 0" by (simp add: unat_eq_0)
  then show ?case by (subst fill_loop.simps) simp
next
  case (Suc n)
  then have k: "k < 32" "n = 32 - Suc k" "Suc k \<le> 32" by auto
  show ?case
  proof (cases "v = 0")
    case True
    then show ?thesis by (subst fill_loop.simps) simp
  next
    case v: False
    show ?thesis
    proof (cases "bit pat k")
      case True
      have lt: "unat (drop_bit 1 v) < 2 ^ cnt pat (Suc k) 32"
        using Suc.prems(2) True cnt_step [OF k(1), of pat]
        by (simp only: unat_drop_bit_eq) (auto simp: drop_bit_eq_div)
      let ?res = "res OR (if v AND 1 \<noteq> 0 then 2 ^ k else 0)"
      from Suc.hyps(1) [OF k(2,3) lt, of ?res] obtain r where r:
        "fill_loop pat (drop_bit 1 v) (2 ^ Suc k) ?res = Some r"
        "\<And>i. bit r i \<longleftrightarrow> bit ?res i \<or> Suc k \<le> i \<and> bit pat i \<and> bit (drop_bit 1 v) (cnt pat (Suc k) i)"
        by blast
      have "fill_loop pat v (2 ^ k) res = Some r"
        using r(1) v True and_exp_word [of pat k] by (subst fill_loop.simps) (simp add: mult.commute split: if_splits)
      moreover have "bit r i \<longleftrightarrow> bit res i \<or> k \<le> i \<and> bit pat i \<and> bit v (cnt pat k i)" for i
      proof (cases "i = k")
        case True
        then show ?thesis using \<open>bit pat k\<close> k(1) and_exp_word [of v 0]
          by (auto simp: r(2) bit_simps)
      next
        case False
        then show ?thesis using True cnt_step [of k i pat]
          by (auto simp: r(2) bit_simps)
      qed
      ultimately show ?thesis by blast
    next
      case False
      with Suc.prems(2) cnt_step [OF k(1), of pat] have "unat v < 2 ^ cnt pat (Suc k) 32" by simp
      from Suc.hyps(1) [OF k(2,3) this, of res] obtain r where r:
        "fill_loop pat v (2 ^ Suc k) res = Some r"
        "\<And>i. bit r i \<longleftrightarrow> bit res i \<or> Suc k \<le> i \<and> bit pat i \<and> bit v (cnt pat (Suc k) i)"
        by blast
      have "fill_loop pat v (2 ^ k) res = Some r"
        using r(1) v False and_exp_word [of pat k] by (subst fill_loop.simps) (simp add: mult.commute split: if_splits)
      moreover have "bit r i \<longleftrightarrow> bit res i \<or> k \<le> i \<and> bit pat i \<and> bit v (cnt pat k i)" for i
        using False cnt_step [of k i pat] by (cases "i = k") (auto simp: r(2))
      ultimately show ?thesis by blast
    qed
  qed
qed

text \<open>\<open>fill_pattern\<close> on a value that fits in the set bits of the pattern returns the bit deposit: bit
  \<open>i\<close> of the result is set exactly when the pattern has bit \<open>i\<close> and the value has the bit whose number
  is the count of pattern bits below \<open>i\<close>.\<close>

theorem fill_pattern_deposit:
  assumes "unat v < 2 ^ cnt pat 0 32"
  shows "\<exists>r. fill_pattern pat v = Some r \<and> (\<forall>i. bit r i \<longleftrightarrow> bit pat i \<and> bit v (cnt pat 0 i))"
  using fill_loop_deposit [of 0 v pat 0] assms by (simp add: fill_pattern_def)

text \<open>The same as a rule for the other proofs of this theory.\<close>

lemma fill_pattern_bits:
  assumes "unat v < 2 ^ cnt pat 0 32"
  obtains r where "fill_pattern pat v = Some r" "\<And>i. bit r i \<longleftrightarrow> bit pat i \<and> bit v (cnt pat 0 i)"
  using fill_loop_deposit [of 0 v pat 0] assms by (auto simp: fill_pattern_def)

text \<open>A value that does not fit makes the loop run for ever.\<close>

lemma fill_loop_zero_bit_aux: "fill_loop pat v b res = Some r \<Longrightarrow> b = 0 \<longrightarrow> v = 0"
proof (induction arbitrary: rule: fill_loop.raw_induct [rotated, consumes 1, case_names turn])
  case (turn f pat v b res y)
  show ?case
  proof
    assume "b = 0"
    with turn(2) have "v = 0 \<or> f pat v 0 res = Some y" by (auto split: if_splits)
    with turn(1) [of pat v 0 res y] show "v = 0" by auto
  qed
qed

lemma fill_loop_zero_bit: "v \<noteq> 0 \<Longrightarrow> fill_loop pat v 0 res = None"
  using fill_loop_zero_bit_aux [of pat v 0 res] by (cases "fill_loop pat v 0 res") auto

section \<open>The masks\<close>

lemma cnt_card: "cnt w 0 32 = card {i. i < 32 \<and> bit w i}"
proof -
  have "cnt w 0 32 = card (set (filter (bit w) [0..<32]))"
    unfolding cnt_def by (rule distinct_card [symmetric]) simp
  also have "set (filter (bit w) [0..<32]) = {i. i < 32 \<and> bit w i}" by auto
  finally show ?thesis .
qed

definition masks_inv :: "u32 \<Rightarrow> u32 \<Rightarrow> u32 \<Rightarrow> nat \<Rightarrow> nat \<Rightarrow> nat \<Rightarrow> nat \<Rightarrow> bool" where
  "masks_inv x y z n a b c \<longleftrightarrow> n = a + b + c
     \<and> (\<forall>i. bit x i \<or> bit y i \<or> bit z i \<longleftrightarrow> i < n \<and> i < 32)
     \<and> (\<forall>i. \<not> (bit x i \<and> bit y i) \<and> \<not> (bit x i \<and> bit z i) \<and> \<not> (bit y i \<and> bit z i))
     \<and> (n \<le> 32 \<longrightarrow> cnt x 0 32 = a \<and> cnt y 0 32 = b \<and> cnt z 0 32 = c)"

lemma masks_inv_add:
  assumes "masks_inv x y z n a b c"
  shows "masks_inv (x OR 2 ^ n) y z (Suc n) (Suc a) b c"
proof -
  have b: "bit (x OR 2 ^ n) i \<longleftrightarrow> bit x i \<or> i = n \<and> n < 32" for i
    by (auto simp: bit_or_iff bit_exp_iff)
  have nb: "\<not> bit x n" "\<not> bit y n" "\<not> bit z n" using assms unfolding masks_inv_def by (metis less_irrefl)+
  have "cnt (x OR 2 ^ n) 0 32 = Suc (cnt x 0 32)" if "n < 32"
  proof -
    have "{i. i < 32 \<and> bit (x OR 2 ^ n) i} = insert n {i. i < 32 \<and> bit x i}"
      using that by (auto simp: b)
    moreover have "n \<notin> {i. i < 32 \<and> bit x i}" using nb by simp
    ultimately show ?thesis by (simp add: cnt_card)
  qed
  then show ?thesis using assms nb unfolding masks_inv_def b
    by (auto simp: less_Suc_eq)
qed

lemma masks_inv_swap: "masks_inv x y z n a b c \<Longrightarrow> masks_inv y x z n b a c"
  "masks_inv x y z n a b c \<Longrightarrow> masks_inv z y x n c b a"
  unfolding masks_inv_def by auto

lemma masks_inv_add_y:
  "masks_inv x y z n a b c \<Longrightarrow> masks_inv x (y OR 2 ^ n) z (Suc n) a (Suc b) c"
  by (rule masks_inv_swap(1), rule masks_inv_add, rule masks_inv_swap(1))

lemma masks_inv_add_z:
  "masks_inv x y z n a b c \<Longrightarrow> masks_inv x y (z OR 2 ^ n) (Suc n) a b (Suc c)"
  by (rule masks_inv_swap(2), rule masks_inv_add, rule masks_inv_swap(2))

text \<open>One dimension after \<open>j\<close> turns: it has \<open>a\<close> bits.\<close>

definition dim_inv :: "u32 \<Rightarrow> nat \<Rightarrow> nat \<Rightarrow> bool" where
  "dim_inv w j a \<longleftrightarrow> a \<le> j \<and> (unat w \<le> 2 ^ a \<or> a = j) \<and> (a = 0 \<or> 2 ^ (a - 1) < unat w)"

definition more :: "u32 \<Rightarrow> nat \<Rightarrow> nat" where
  "more w j = (if 2 ^ j < unat w then 1 else 0)"

lemma dim_inv_step: "dim_inv w j a \<Longrightarrow> dim_inv w (Suc j) (a + more w j)"
proof -
  assume "dim_inv w j a"
  moreover have "\<not> (a \<le> j \<and> unat w \<le> 2 ^ a \<and> 2 ^ j < unat w)"
    using power_increasing [of a j "2 :: nat"] order.trans [of "unat w" "2 ^ a" "2 ^ j"]
    by (metis not_le one_le_numeral)
  ultimately show ?thesis by (auto simp: dim_inv_def more_def le_Suc_eq)
qed

lemma less_exp_word: "j < 32 \<Longrightarrow> 2 ^ j < (w :: u32) \<longleftrightarrow> 2 ^ j < unat w"
  by (simp add: word_less_nat_alt unat_pow2)

lemma swizzle_turn_run:
  assumes "masks_inv x y z n a b c" and "j < 32"
  shows "\<exists>x' y' z'. swizzle_turn w h d (x, y, z, 2 ^ j, 2 ^ n)
      = (more w j + more h j + more d j = 0, (x', y', z', 2 ^ Suc j, 2 ^ (n + more w j + more h j + more d j)))
    \<and> masks_inv x' y' z' (n + more w j + more h j + more d j) (a + more w j) (b + more h j) (c + more d j)"
proof -
  have sh: "push_bit (Suc 0) (2 ^ k) = (2 ^ Suc k :: u32)" for k
    by (simp add: push_bit_eq_mult)
  note adds = masks_inv_add masks_inv_add_y masks_inv_add_z
  show ?thesis
    using assms(1) adds [OF assms(1)] adds(2,3) [OF adds(1) [OF assms(1)]]
      adds(3) [OF adds(2) [OF assms(1)]] adds(3) [OF adds(2) [OF adds(1) [OF assms(1)]]]
    by (simp add: swizzle_turn_def Let_def less_exp_word [OF assms(2)] sh more_def mult.commute)
qed

lemma more_0: "more w j = 0 \<longleftrightarrow> unat w \<le> 2 ^ j"
  by (auto simp: more_def)

lemma more_31: "unat w \<le> 2 ^ 31 \<Longrightarrow> j = 31 \<Longrightarrow> more w j = 0"
  by (simp add: more_def)

lemma swizzle_loop_returns:
  assumes "masks_inv x y z n a b c" and "dim_inv w j a" and "dim_inv h j b" and "dim_inv d j c"
    and "unat w \<le> 2 ^ 31" and "unat h \<le> 2 ^ 31" and "unat d \<le> 2 ^ 31" and "j \<le> 31"
  shows "\<exists>x' y' z' n' a' b' c' j'. swizzle_loop w h d (x, y, z, 2 ^ j, 2 ^ n) = Some (x', y', z', 2 ^ j', 2 ^ n')
    \<and> masks_inv x' y' z' n' a' b' c' \<and> dim_inv w j' a' \<and> dim_inv h j' b' \<and> dim_inv d j' c'
    \<and> unat w \<le> 2 ^ a' \<and> unat h \<le> 2 ^ b' \<and> unat d \<le> 2 ^ c'"
  using assms
proof (induction "31 - j" arbitrary: x y z n a b c j rule: less_induct)
  case less
  let ?n = "n + more w j + more h j + more d j"
  from less.prems have "j < 32" by simp
  from swizzle_turn_run [OF less.prems(1) this, of w h d] obtain x' y' z' where t:
    "swizzle_turn w h d (x, y, z, 2 ^ j, 2 ^ n) = (more w j + more h j + more d j = 0, (x', y', z', 2 ^ Suc j, 2 ^ ?n))"
    "masks_inv x' y' z' ?n (a + more w j) (b + more h j) (c + more d j)" by blast
  note dims = dim_inv_step [OF less.prems(2)] dim_inv_step [OF less.prems(3)] dim_inv_step [OF less.prems(4)]
  show ?case
  proof (cases "more w j + more h j + more d j = 0")
    case True
    then have le: "unat w \<le> 2 ^ j" "unat h \<le> 2 ^ j" "unat d \<le> 2 ^ j" by (simp_all add: more_0)
    with less.prems(2-4) have "unat w \<le> 2 ^ a" "unat h \<le> 2 ^ b" "unat d \<le> 2 ^ c"
      by (auto simp: dim_inv_def)
    moreover have "swizzle_loop w h d (x, y, z, 2 ^ j, 2 ^ n) = Some (x', y', z', 2 ^ Suc j, 2 ^ ?n)"
      using True by (subst swizzle_loop.simps) (simp add: t)
    ultimately show ?thesis using t(2) dims True by fastforce
  next
    case False
    with less.prems more_31 have j: "j < 31" by (metis add_is_0 le_neq_implies_less)
    have "swizzle_loop w h d (x, y, z, 2 ^ j, 2 ^ n) = swizzle_loop w h d (x', y', z', 2 ^ Suc j, 2 ^ ?n)"
      using False by (subst swizzle_loop.simps) (simp only: t prod.case if_False)
    with less.hyps [OF _ t(2) dims less.prems(5-7)] j show ?thesis by simp
  qed
qed

text \<open>With a dimension above \<open>2\<^sup>3\<^sup>1\<close> the running bit never reaches it.\<close>

lemma exp_small: "2 ^ 31 < unat (w :: u32) \<Longrightarrow> (2 ^ j :: u32) < w"
proof (cases "j < 32")
  case True
  moreover have "j \<le> 31 \<Longrightarrow> (2 :: nat) ^ j \<le> 2 ^ 31" by (rule power_increasing) simp_all
  ultimately show "2 ^ 31 < unat w \<Longrightarrow> ?thesis" by (simp add: word_less_nat_alt unat_pow2)
next
  case False
  then have "unat (2 ^ j :: u32) = 0" by (simp only: unat_eq_0 exp_eq_zero_iff) simp
  then show "2 ^ 31 < unat w \<Longrightarrow> ?thesis" by (simp only: word_less_nat_alt)
qed

lemma swizzle_loop_bound:
  "swizzle_loop w h d s = Some t \<Longrightarrow> (\<forall>x y z j m. s = (x, y, z, 2 ^ j, m)
     \<longrightarrow> unat w \<le> 2 ^ 31 \<and> unat h \<le> 2 ^ 31 \<and> unat d \<le> 2 ^ 31)"
proof (induction rule: swizzle_loop.raw_induct [rotated, consumes 1, case_names turn])
  case (turn f w h d s t)
  show ?case
  proof (intro allI impI)
    fix x y z j m
    assume s: "s = (x, y, z, 2 ^ j, m)"
    obtain e x' y' z' b' m' where t': "swizzle_turn w h d s = (e, (x', y', z', b', m'))"
      by (metis surj_pair)
    have b': "b' = 2 ^ Suc j" "e \<Longrightarrow> \<not> (2 ^ j < w \<or> 2 ^ j < h \<or> 2 ^ j < d)"
      using t' by (auto simp: s swizzle_turn_def Let_def push_bit_eq_mult mult.commute split: if_splits)
    show "unat w \<le> 2 ^ 31 \<and> unat h \<le> 2 ^ 31 \<and> unat d \<le> 2 ^ 31"
    proof (cases e)
      case True
      with b'(2) exp_small show ?thesis by (meson not_le)
    next
      case False
      with turn(2) t' have "f w h d (x', y', z', b', m') = Some t" by simp
      from turn(1) [OF this] b'(1) show ?thesis by blast
    qed
  qed
qed

lemma masks_xor:
  assumes "masks_inv x y z n a b c"
  shows "(x XOR y) XOR z = 2 ^ n - 1"
proof (rule bit_word_eqI)
  fix i :: nat
  assume i: "i < LENGTH(32)"
  have "bit ((x XOR y) XOR z) i \<longleftrightarrow> i < n"
    using assms i unfolding masks_inv_def by (simp add: bit_xor_iff) blast
  then show "bit ((x XOR y) XOR z) i = bit (2 ^ n - 1 :: u32) i"
    using i by (simp add: bit_mask_iff flip: mask_eq_exp_minus_1)
qed

lemma masks_start: "masks_inv 0 0 0 0 0 0 0" "dim_inv w 0 0"
  by (auto simp: masks_inv_def dim_inv_def cnt_def)

lemma generate_masks_run:
  assumes "unat w \<le> 2 ^ 31" and "unat h \<le> 2 ^ 31" and "unat d \<le> 2 ^ 31"
  obtains x y z n a b c j where "generate_swizzle_masks w h d = Some (Inr (x, y, z))"
    and "masks_inv x y z n a b c" and "dim_inv w j a" and "dim_inv h j b" and "dim_inv d j c"
    and "unat w \<le> 2 ^ a" and "unat h \<le> 2 ^ b" and "unat d \<le> 2 ^ c"
  using swizzle_loop_returns [OF masks_start(1) masks_start(2) [of w] masks_start(2) [of h] masks_start(2) [of d] assms]
  by (auto simp: generate_swizzle_masks_def masks_xor)

text \<open>The mask generator returns exactly when no dimension exceeds 2147483648, and its assertion never
  fails.\<close>

theorem swizzle_masks_terminate:
  "((\<exists>r. generate_swizzle_masks w h d = Some r) \<longleftrightarrow> unat w \<le> 2 ^ 31 \<and> unat h \<le> 2 ^ 31 \<and> unat d \<le> 2 ^ 31)
    \<and> generate_swizzle_masks w h d \<noteq> Some (Inl e)"
proof (intro conjI)
  have *: "unat w \<le> 2 ^ 31 \<and> unat h \<le> 2 ^ 31 \<and> unat d \<le> 2 ^ 31" if "generate_swizzle_masks w h d = Some r" for r
  proof -
    from that obtain t where "swizzle_loop w h d (0, 0, 0, 2 ^ 0, 1) = Some t"
      by (auto simp: generate_swizzle_masks_def split: option.splits)
    from swizzle_loop_bound [OF this] show ?thesis by blast
  qed
  show "(\<exists>r. generate_swizzle_masks w h d = Some r) \<longleftrightarrow> unat w \<le> 2 ^ 31 \<and> unat h \<le> 2 ^ 31 \<and> unat d \<le> 2 ^ 31"
    using * generate_masks_run [of w h d] by blast
  show "generate_swizzle_masks w h d \<noteq> Some (Inl e)"
    using * [of "Inl e"] generate_masks_run [of w h d] by (metis Inl_Inr_False option.inject)
qed

section \<open>Swizzling and back\<close>

lemma opt_for_other:
  assumes "\<And>t. t \<in> set ts \<Longrightarrow> f t = (\<lambda>m. Some (memcpy m (d t) src (s t) n))"
    and "\<And>t. t \<in> set ts \<Longrightarrow> a < d t \<or> d t + n \<le> a"
  shows "\<exists>m. opt_for f ts start = Some m \<and> m a = start a"
  using assms by (induction ts arbitrary: start) (fastforce simp: memcpy_def)+

lemma opt_for_copy:
  assumes "\<And>t. t \<in> set ts \<Longrightarrow> f t = (\<lambda>m. Some (memcpy m (d t) src (s t) n))"
  shows "\<exists>m. opt_for f ts start = Some m \<and> (\<forall>t \<in> set ts. \<forall>c < n.
    (\<forall>t' \<in> set ts. t' = t \<or> d t' + n \<le> d t \<or> d t + n \<le> d t') \<longrightarrow> m (d t + c) = src (s t + c))"
  using assms
proof (induction ts arbitrary: start)
  case (Cons u ts)
  let ?m1 = "memcpy start (d u) src (s u) n"
  from Cons.IH [of ?m1] Cons.prems obtain m where m: "opt_for f ts ?m1 = Some m"
    "\<forall>t \<in> set ts. \<forall>c < n. (\<forall>t' \<in> set ts. t' = t \<or> d t' + n \<le> d t \<or> d t + n \<le> d t') \<longrightarrow> m (d t + c) = src (s t + c)"
    by auto
  have tail: "m (d u + c) = src (s u + c)"
    if u: "u \<notin> set ts" and c: "c < n" and dis: "\<forall>t' \<in> set ts. d t' + n \<le> d u \<or> d u + n \<le> d t'" for c
  proof -
    have "\<exists>m. opt_for f ts ?m1 = Some m \<and> m (d u + c) = ?m1 (d u + c)"
      by (rule opt_for_other [where d = d and s = s]) (use Cons.prems dis c in fastforce)+
    with m(1) c show ?thesis by (simp add: memcpy_def)
  qed
  have "m (d t + c) = src (s t + c)"
    if t: "t \<in> set (u # ts)" and c: "c < n"
      and dis: "\<forall>t' \<in> set (u # ts). t' = t \<or> d t' + n \<le> d t \<or> d t + n \<le> d t'" for t c
  proof (cases "t \<in> set ts")
    case True
    with m(2) c dis show ?thesis by simp
  next
    case False
    with t have "t = u" "u \<notin> set ts" by auto
    moreover from this dis have "\<forall>t' \<in> set ts. d t' + n \<le> d u \<or> d u + n \<le> d t'" by auto
    ultimately show ?thesis using tail c by blast
  qed
  then have "\<forall>t \<in> set (u # ts). \<forall>c < n. (\<forall>t' \<in> set (u # ts). t' = t \<or> d t' + n \<le> d t \<or> d t + n \<le> d t')
      \<longrightarrow> m (d t + c) = src (s t + c)" by blast
  moreover have "opt_for f (u # ts) start = Some m" using m(1) Cons.prems by simp
  ultimately show ?case by blast
qed simp

text \<open>Distinct values that fit have distinct deposits.\<close>

lemma cnt_hits: "m < cnt pat 0 i \<Longrightarrow> \<exists>k < i. bit pat k \<and> cnt pat 0 k = m"
proof (induction i)
  case (Suc i)
  show ?case
  proof (cases "m < cnt pat 0 i")
    case True
    with Suc.IH show ?thesis using less_SucI by blast
  next
    case False
    with Suc.prems cnt_Suc [of 0 i pat] have "bit pat i" "cnt pat 0 i = m" by (auto split: if_splits)
    then show ?thesis by blast
  qed
qed simp

lemma high_bit_0: "unat (v :: u32) < 2 ^ a \<Longrightarrow> a \<le> m \<Longrightarrow> \<not> bit v m"
proof -
  assume "unat v < 2 ^ a" and "a \<le> m"
  then have "unat v < 2 ^ m" using power_increasing [of a m "2 :: nat"] by linarith
  then have "\<not> bit (unat v) m" by (simp add: bit_iff_odd)
  then show ?thesis by (simp add: bit_unsigned_iff)
qed

lemma deposit_inj:
  assumes "unat (v :: u32) < 2 ^ cnt pat 0 32" "unat v' < 2 ^ cnt pat 0 32"
    and "\<And>i. bit pat i \<and> bit v (cnt pat 0 i) \<longleftrightarrow> bit pat i \<and> bit v' (cnt pat 0 i)"
  shows "v = v'"
proof (rule bit_word_eqI)
  fix m :: nat
  show "bit v m = bit v' m"
  proof (cases "m < cnt pat 0 32")
    case True
    from cnt_hits [OF this] assms(3) show ?thesis by blast
  next
    case False
    then show ?thesis using high_bit_0 [OF assms(1)] high_bit_0 [OF assms(2)] by simp
  qed
qed

text \<open>The offsets of a rectangle's pixels.\<close>

lemma swizzled_offset_2d:
  assumes inv: "masks_inv mx my mz n a b c" and n: "n \<le> 32"
    and w: "unat w \<le> 2 ^ a" and h: "unat h \<le> 2 ^ b" and bpp: "unat bpp * 2 ^ n \<le> 2 ^ 32"
  obtains off where
    "\<And>x y. x < w \<Longrightarrow> y < h \<Longrightarrow> get_swizzled_offset x y 0 mx my 0 bpp = Some (bpp * off x y)"
    "\<And>x y. x < w \<Longrightarrow> y < h \<Longrightarrow> get_swizzled_offset x y 0 mx my mz bpp = Some (bpp * off x y)"
    "\<And>x y. x < w \<Longrightarrow> y < h \<Longrightarrow> unat (bpp * off x y) = unat bpp * unat (off x y)"
    "\<And>x y x' y'. x < w \<Longrightarrow> y < h \<Longrightarrow> x' < w \<Longrightarrow> y' < h \<Longrightarrow> off x y = off x' y' \<Longrightarrow> x = x' \<and> y = y'"
proof -
  have ca: "cnt mx 0 32 = a" "cnt my 0 32 = b" and dis: "\<And>i. \<not> (bit mx i \<and> bit my i)"
    and un: "\<And>i. bit mx i \<or> bit my i \<Longrightarrow> i < n"
    using inv n unfolding masks_inv_def by auto
  have fits: "x < w \<Longrightarrow> unat x < 2 ^ cnt mx 0 32" "y < h \<Longrightarrow> unat y < 2 ^ cnt my 0 32" for x y
    using w h by (auto simp: ca word_less_nat_alt)
  define off where "off x y = (the (fill_pattern mx x) OR the (fill_pattern my y))" for x y
  have fx: "\<exists>r. fill_pattern mx x = Some r \<and> (\<forall>i. bit r i \<longleftrightarrow> bit mx i \<and> bit x (cnt mx 0 i))" if "x < w" for x
    using fill_pattern_bits [OF fits(1) [OF that]] by metis
  have fy: "\<exists>r. fill_pattern my y = Some r \<and> (\<forall>i. bit r i \<longleftrightarrow> bit my i \<and> bit y (cnt my 0 i))" if "y < h" for y
    using fill_pattern_bits [OF fits(2) [OF that]] by metis
  have f0: "fill_pattern m 0 = Some 0" for m
    unfolding fill_pattern_def by (subst fill_loop.simps) simp
  have bits: "bit (off x y) i \<longleftrightarrow> bit mx i \<and> bit x (cnt mx 0 i) \<or> bit my i \<and> bit y (cnt my 0 i)"
    if "x < w" "y < h" for x y i
    using fx [OF that(1)] fy [OF that(2)] by (auto simp: off_def bit_or_iff)
  have small: "unat (off x y) < 2 ^ n" if "x < w" "y < h" for x y
  proof -
    have "off x y = take_bit n (off x y)"
      by (rule bit_word_eqI) (use bits [OF that] un in \<open>auto simp: bit_take_bit_iff\<close>)
    then have "unat (off x y) = take_bit n (unat (off x y))" by (metis unsigned_take_bit_eq)
    then show ?thesis by (metis take_bit_nat_less_exp)
  qed
  have 3: "unat (bpp * off x y) = unat bpp * unat (off x y)" if "x < w" "y < h" for x y
  proof (cases "bpp = 0")
    case False
    then have "unat bpp * unat (off x y) < unat bpp * 2 ^ n" using small [OF that] by (simp add: unat_gt_0)
    from this bpp have "unat bpp * unat (off x y) < 2 ^ 32" by (rule less_le_trans)
    then have "unat bpp * unat (off x y) < 2 ^ LENGTH(32)" by simp
    then show ?thesis by (rule unat_mult_lem [THEN iffD1])
  qed simp
  have 4: "x = x' \<and> y = y'" if "x < w" "y < h" "x' < w" "y' < h" "off x y = off x' y'" for x y x' y'
  proof
    have eq: "bit (off x y) i = bit (off x' y') i" for i using that(5) by simp
    show "x = x'"
      by (rule deposit_inj [OF fits(1) [OF that(1)] fits(1) [OF that(3)]])
        (use eq bits [OF that(1,2)] bits [OF that(3,4)] dis in blast)
    show "y = y'"
      by (rule deposit_inj [OF fits(2) [OF that(2)] fits(2) [OF that(4)]])
        (use eq bits [OF that(1,2)] bits [OF that(3,4)] dis in blast)
  qed
  show thesis
  proof (rule that)
    fix x y assume xy: "x < w" "y < h"
    then show "get_swizzled_offset x y 0 mx my 0 bpp = Some (bpp * off x y)"
      "get_swizzled_offset x y 0 mx my mz bpp = Some (bpp * off x y)"
      using fx [OF xy(1)] fy [OF xy(2)] by (auto simp: get_swizzled_offset_def off_def f0)
    show "unat (bpp * off x y) = unat bpp * unat (off x y)" using 3 xy by blast
  qed (use 4 in blast)
qed

lemma set_box_rect:
  "set (box w h 1) = {(x, y, 0) | x y. x < w \<and> y < h}"
proof -
  have mem: "(\<exists>k < unat w. x = of_nat k) \<longleftrightarrow> x < w" for x w :: u32
  proof
    assume "\<exists>k < unat w. x = of_nat k"
    then obtain k where k: "k < unat w" "x = of_nat k" by blast
    moreover have "unat w < 2 ^ 32" using unsigned_less [of w] by simp
    ultimately have "unat x = k" by (simp add: unat_of_nat)
    with k show "x < w" by (simp add: word_less_nat_alt)
  next
    assume "x < w"
    then show "\<exists>k < unat w. x = of_nat k" by (intro exI [of _ "unat x"]) (simp add: word_less_nat_alt)
  qed
  have 1: "k < unat w \<Longrightarrow> of_nat k < w" for k and w :: u32 using mem [of w "of_nat k"] by blast
  have 2: "x < w \<Longrightarrow> \<exists>k \<in> {0..<unat w}. x = of_nat k" for x w :: u32 using mem [of w x] by auto
  show ?thesis by (auto simp: box_def image_iff intro: 1 2)
qed

lemma dim_bound: "dim_inv w j a \<Longrightarrow> unat w \<le> 2 ^ p \<Longrightarrow> a \<le> p" "dim_inv 1 j c \<Longrightarrow> c = 0"
proof -
  assume a: "dim_inv w j a" "unat w \<le> 2 ^ p"
  show "a \<le> p"
  proof (cases "a = 0")
    case False
    with a have "2 ^ (a - 1) < unat w" by (simp add: dim_inv_def)
    from this a(2) have "(2 :: nat) ^ (a - 1) < 2 ^ p" by (rule less_le_trans)
    then have "a - 1 < p" by (simp only: power_strict_increasing_iff)
    with False show ?thesis by simp
  qed simp
qed (simp add: dim_inv_def)

lemma mult_blocks: "k \<noteq> k' \<Longrightarrow> B * k + B \<le> B * k' \<or> B * k' + B \<le> B * (k :: nat)"
  using mult_le_mono2 [of "Suc k" k' B] mult_le_mono2 [of "Suc k'" k B]
  by (auto simp: neq_iff)

lemma row_before:
  assumes "y < y'" and "x < W" and "W * B \<le> (P :: nat)"
  shows "y * P + x * B + B \<le> y' * P + x' * B"
proof -
  have "x * B + B \<le> P" using mult_le_mono1 [of "Suc x" W B] assms(2,3) by simp
  moreover have "Suc y * P \<le> y' * P" using assms(1) by (intro mult_le_mono1) simp
  ultimately show ?thesis by simp
qed

lemma row_blocks:
  assumes "(x, y) \<noteq> (x', y')" and "x < W" and "x' < W" and "W * B \<le> (P :: nat)"
  shows "y * P + x * B + B \<le> y' * P + x' * B \<or> y' * P + x' * B + B \<le> y * P + x * B"
proof (cases "y = y'")
  case True
  with assms(1) mult_blocks [of x x' B] show ?thesis by (simp add: mult.commute)
next
  case False
  with row_before [OF _ assms(2,4)] row_before [OF _ assms(3,4)] show ?thesis by (metis linorder_neqE_nat)
qed

lemma linear_offset:
  assumes "x < w" and "y < h" and "unat w * unat bpp \<le> unat pitch" and "unat h * unat pitch \<le> 2 ^ 32" and "bpp \<noteq> 0"
  shows "unat (y * pitch + x * bpp :: u32) = unat y * unat pitch + unat x * unat bpp"
proof -
  have 1: "Suc (unat y) * unat pitch \<le> unat h * unat pitch"
    using assms(2) by (intro mult_le_mono1) (simp add: word_less_nat_alt)
  have 2: "Suc (unat x) * unat bpp \<le> unat w * unat bpp"
    using assms(1) by (intro mult_le_mono1) (simp add: word_less_nat_alt)
  have lt: "unat y * unat pitch + unat x * unat bpp < 2 ^ 32"
  proof -
    have "0 < unat bpp" using assms(5) by (simp add: unat_gt_0)
    with 1 2 assms(3,4) show ?thesis by simp
  qed
  have "unat (y * pitch) = unat y * unat pitch" "unat (x * bpp) = unat x * unat bpp"
    using lt by (simp_all add: unat_mult_lem [THEN iffD1])
  with lt show ?thesis by (simp add: unat_add_lem [THEN iffD1])
qed

text \<open>C28: Unswizzling a swizzled rectangle gives the rectangle back: when the padded texture and the
  linear image fit in 32 bits and rows do not overlap, both copies return, and every byte of every
  pixel of the result equals the source byte, whatever the two destination buffers held.\<close>

theorem swizzle_roundtrip:
  assumes w: "unat w \<le> 2 ^ p" and h: "unat h \<le> 2 ^ q" and pq: "p \<le> 31" "q \<le> 31" and bpp: "bpp \<noteq> 0"
    and fit: "unat bpp * 2 ^ (p + q) \<le> 2 ^ 32" "unat w * unat bpp \<le> unat pitch" "unat h * unat pitch \<le> 2 ^ 32"
  shows "\<exists>m m'. swizzle_rect src w h dst pitch bpp = Some (Inr m)
    \<and> unswizzle_rect m w h dst' pitch bpp = Some (Inr m')
    \<and> (\<forall>x < w. \<forall>y < h. \<forall>k < unat bpp.
        m' (unat y * unat pitch + unat x * unat bpp + k) = src (unat y * unat pitch + unat x * unat bpp + k))"
proof -
  have "(2 :: nat) ^ p \<le> 2 ^ 31" "(2 :: nat) ^ q \<le> 2 ^ 31"
    using pq by (intro power_increasing; simp)+
  with w h have "unat w \<le> 2 ^ 31" "unat h \<le> 2 ^ 31" "unat (1 :: u32) \<le> 2 ^ 31" by simp_all
  then obtain mx my mz n a b c j where gen: "generate_swizzle_masks w h 1 = Some (Inr (mx, my, mz))"
    and inv: "masks_inv mx my mz n a b c" and dims: "dim_inv w j a" "dim_inv h j b" "dim_inv 1 j c"
    and le: "unat w \<le> 2 ^ a" "unat h \<le> 2 ^ b"
    by (rule generate_masks_run)
  have "a \<le> p" "b \<le> q" "c = 0" using dims w h dim_bound by blast+
  then have n: "n \<le> p + q" using inv by (simp add: masks_inv_def)
  have "(2 :: nat) ^ (p + q) \<le> unat bpp * 2 ^ (p + q)" using bpp by (simp add: unat_gt_0 Suc_le_eq)
  with fit(1) have "(2 :: nat) ^ (p + q) \<le> 2 ^ 32" by linarith
  then have "p + q \<le> 32" by (simp only: power_increasing_iff)
  with n have n32: "n \<le> 32" by simp
  have "(2 :: nat) ^ n \<le> 2 ^ (p + q)" using n by (simp add: power_increasing)
  with fit(1) have bn: "unat bpp * 2 ^ n \<le> 2 ^ 32" using mult_le_mono2 order.trans by blast
  from swizzled_offset_2d [OF inv n32 le bn] obtain off where off:
    "\<And>x y. x < w \<Longrightarrow> y < h \<Longrightarrow> get_swizzled_offset x y 0 mx my 0 bpp = Some (bpp * off x y)"
    "\<And>x y. x < w \<Longrightarrow> y < h \<Longrightarrow> get_swizzled_offset x y 0 mx my mz bpp = Some (bpp * off x y)"
    "\<And>x y. x < w \<Longrightarrow> y < h \<Longrightarrow> unat (bpp * off x y) = unat bpp * unat (off x y)"
    "\<And>x y x' y'. x < w \<Longrightarrow> y < h \<Longrightarrow> x' < w \<Longrightarrow> y' < h \<Longrightarrow> off x y = off x' y' \<Longrightarrow> x = x' \<and> y = y'"
    by blast
  let ?n = "unat bpp"
  let ?d = "\<lambda>(x, y, z :: u32). unat bpp * unat (off x y)"
  let ?s = "\<lambda>(x, y, z :: u32). unat y * unat pitch + unat x * unat bpp"
  let ?ts = "box w h 1"
  note lin = linear_offset [OF _ _ fit(2,3) bpp]
  have sw: "t \<in> set ?ts \<Longrightarrow> swizzle_pixel mx my pitch 0 bpp src t = (\<lambda>m. Some (memcpy m (?d t) src (?s t) ?n))" for t
    by (auto simp: set_box_rect swizzle_pixel_def off lin)
  from opt_for_copy [where ts = "?ts" and start = dst and d = "?d" and s = "?s", OF sw] obtain m where m: "opt_for (swizzle_pixel mx my pitch 0 bpp src) ?ts dst = Some m"
    "\<And>t k. t \<in> set ?ts \<Longrightarrow> k < ?n \<Longrightarrow> (\<forall>t' \<in> set ?ts. t' = t \<or> ?d t' + ?n \<le> ?d t \<or> ?d t + ?n \<le> ?d t')
      \<Longrightarrow> m (?d t + k) = src (?s t + k)" by blast
  have us: "t \<in> set ?ts \<Longrightarrow> unswizzle_pixel mx my mz pitch 0 bpp m t = (\<lambda>m'. Some (memcpy m' (?s t) m (?d t) ?n))" for t
    by (auto simp: set_box_rect unswizzle_pixel_def off lin)
  from opt_for_copy [where ts = "?ts" and start = dst' and d = "?s" and s = "?d", OF us] obtain m' where m': "opt_for (unswizzle_pixel mx my mz pitch 0 bpp m) ?ts dst' = Some m'"
    "\<And>t k. t \<in> set ?ts \<Longrightarrow> k < ?n \<Longrightarrow> (\<forall>t' \<in> set ?ts. t' = t \<or> ?s t' + ?n \<le> ?s t \<or> ?s t + ?n \<le> ?s t')
      \<Longrightarrow> m' (?s t + k) = m (?d t + k)" by blast
  have dis1: "\<forall>t' \<in> set ?ts. t' = t \<or> ?d t' + ?n \<le> ?d t \<or> ?d t + ?n \<le> ?d t'" if t: "t \<in> set ?ts" for t
  proof
    fix t' assume t': "t' \<in> set ?ts"
    from t t' obtain x y x' y' where xy: "t = (x, y, 0)" "x < w" "y < h" "t' = (x', y', 0)" "x' < w" "y' < h"
      unfolding set_box_rect by blast
    show "t' = t \<or> ?d t' + ?n \<le> ?d t \<or> ?d t + ?n \<le> ?d t'"
    proof (cases "unat (off x y) = unat (off x' y')")
      case True
      then have "off x y = off x' y'" by (simp only: word_unat_eq_iff)
      with off(4) xy show ?thesis by blast
    next
      case False
      from mult_blocks [OF this, of "unat bpp"] xy(1,4) show ?thesis by auto
    qed
  qed
  have dis2: "\<forall>t' \<in> set ?ts. t' = t \<or> ?s t' + ?n \<le> ?s t \<or> ?s t + ?n \<le> ?s t'" if t: "t \<in> set ?ts" for t
  proof
    fix t' assume t': "t' \<in> set ?ts"
    from t t' obtain x y x' y' where xy: "t = (x, y, 0)" "x < w" "y < h" "t' = (x', y', 0)" "x' < w" "y' < h"
      unfolding set_box_rect by blast
    show "t' = t \<or> ?s t' + ?n \<le> ?s t \<or> ?s t + ?n \<le> ?s t'"
    proof (cases "(unat x, unat y) = (unat x', unat y')")
      case True
      with xy show ?thesis by (simp add: word_unat_eq_iff)
    next
      case False
      from row_blocks [OF this _ _ fit(2)] xy show ?thesis by (auto simp: word_less_nat_alt)
    qed
  qed
  have "m' (?s t + k) = src (?s t + k)" if "t \<in> set ?ts" "k < ?n" for t k
    using m(2) [OF that dis1] m'(2) [OF that dis2] that(1) by simp
  then have "\<forall>x < w. \<forall>y < h. \<forall>k < ?n.
      m' (unat y * unat pitch + unat x * unat bpp + k) = src (unat y * unat pitch + unat x * unat bpp + k)"
    by (fastforce simp: set_box_rect)
  moreover have "swizzle_rect src w h dst pitch bpp = Some (Inr m)"
    "unswizzle_rect m w h dst' pitch bpp = Some (Inr m')"
    using m(1) m'(1) gen
    by (simp_all add: swizzle_rect_def unswizzle_rect_def swizzle_box_def unswizzle_box_def)
  ultimately show ?thesis by blast
qed

lemma swizzle_roundtrip_witness:
  "\<exists>m m'. swizzle_rect (\<lambda>a. of_nat (a * 7)) 3 2 (\<lambda>_. 0) 16 4 = Some (Inr m)
    \<and> unswizzle_rect m 3 2 (\<lambda>_. 0) 16 4 = Some (Inr m') \<and> m' 27 = 189"
proof -
  obtain m m' where m: "swizzle_rect (\<lambda>a. of_nat (a * 7)) 3 2 (\<lambda>_. 0) 16 4 = Some (Inr m)"
    "unswizzle_rect m 3 2 (\<lambda>_. 0) 16 4 = Some (Inr m')"
    "\<forall>x < 3. \<forall>y < 2. \<forall>k < unat (4 :: u32).
        m' (unat (y :: u32) * unat (16 :: u32) + unat (x :: u32) * unat (4 :: u32) + k)
        = of_nat ((unat y * unat (16 :: u32) + unat x * unat (4 :: u32) + k) * 7)"
    using swizzle_roundtrip [of 3 2 2 1 4 16 "\<lambda>a. of_nat (a * 7)" "\<lambda>_. 0" "\<lambda>_. 0"] by auto
  have "m' (unat (1 :: u32) * unat (16 :: u32) + unat (2 :: u32) * unat (4 :: u32) + 3)
      = of_nat ((unat (1 :: u32) * unat (16 :: u32) + unat (2 :: u32) * unat (4 :: u32) + 3) * 7)"
    by (rule m(3) [rule_format]) simp_all
  with m(1,2) show ?thesis by auto
qed

text \<open>The slices of a volume overwrite each other: both calls pass 0 for the depth coordinate.\<close>

lemma swizzle_slices_collide:
  "\<exists>m. swizzle_box src 1 1 2 dst 1 1 1 = Some (Inr m) \<and> m 0 = src 1 \<and> m 1 = dst 1"
proof -
  have *: "generate_swizzle_masks 1 1 2 = Some (Inr (0, 0, 1))"
    unfolding generate_swizzle_masks_def
    by (subst swizzle_loop.simps, simp add: swizzle_turn_def, subst swizzle_loop.simps, simp add: swizzle_turn_def)
  have f: "fill_pattern p 0 = Some 0" for p
    unfolding fill_pattern_def by (subst fill_loop.simps) simp
  have b: "box 1 1 2 = [(0, 0, 0), (0, 0, 1)]"
  proof -
    have "[0..<unat (2 :: u32)] = [0, 1]" by (simp add: upt_rec)
    then show ?thesis by (simp only: box_def) simp
  qed
  show ?thesis
    by (simp add: swizzle_box_def * b swizzle_pixel_def get_swizzled_offset_def f memcpy_def)
qed

end
