(* ===== verification/Aud_Adpcm.thy ===== *)
theory Aud_Adpcm
  imports Cxbx_Prelude
begin

text \<open>
  The Xbox ADPCM decoder (\<open>src/common/audio/XADPCM.h\<close>): the step tables, the decoding of one
  4-bit sample and of a memory block of 36-byte frames for one or two channels.

  The input is a byte list and a read past its end the fault \<open>OutOfBounds\<close>; the \<open>int8_t\<close> and
  \<open>int16_t\<close> fields are 8 and 16-bit words read signed. The lemmas show that every table access is in
  range, the size of the output, and that a frame of several channels is the interleaving of
  independent mono decodings.
\<close>

definition StepTable :: "int list" where
  "StepTable = [
    7, 8, 9, 10, 11, 12, 13, 14, 16, 17,
    19, 21, 23, 25, 28, 31, 34, 37, 41, 45,
    50, 55, 60, 66, 73, 80, 88, 97, 107, 118,
    130, 143, 157, 173, 190, 209, 230, 253, 279, 307,
    337, 371, 408, 449, 494, 544, 598, 658, 724, 796,
    876, 963, 1060, 1166, 1282, 1411, 1552, 1707, 1878, 2066,
    2272, 2499, 2749, 3024, 3327, 3660, 4026, 4428, 4871, 5358,
    5894, 6484, 7132, 7845, 8630, 9493, 10442, 11487, 12635, 13899,
    15289, 16818, 18500, 20350, 22385, 24623, 27086, 29794, 32767]"

definition IndexTable :: "int list" where
  "IndexTable = [-1, -1, -1, -1, 2, 4, 6, 8, -1, -1, -1, -1, 2, 4, 6, 8]"

record adpcm =
  Index :: u8
  StepSize :: u16
  Predictor :: u16

definition delimit :: "int \<Rightarrow> int \<Rightarrow> int \<Rightarrow> int" where
  "delimit x h l = (if h < x then h else if x < l then l else x)"

definition step_at :: "int \<Rightarrow> u16" where
  "step_at i = word_of_int (StepTable ! nat i)"

text \<open>\<open>>> 3\<close> of an \<open>int\<close> is \<open>div 8\<close>.\<close>

definition sample_delta :: "nat \<Rightarrow> int \<Rightarrow> int" where
  "sample_delta Code step =
     (let Delta = step div 8;
          Delta = (if bit Code 2 then Delta + step else Delta);
          Delta = (if bit Code 1 then Delta + step div 2 else Delta);
          Delta = (if bit Code 0 then Delta + step div 4 else Delta)
      in if bit Code 3 then - Delta else Delta)"

definition DecodeSample :: "nat \<Rightarrow> adpcm \<Rightarrow> int \<times> adpcm" where
  "DecodeSample Code st =
     (let Result = delimit (sint (Predictor st) + sample_delta Code (sint (StepSize st))) 32767 (-32768);
          idx = word_of_int (sint (Index st) + IndexTable ! Code) :: u8;
          idx = word_of_int (delimit (sint idx) 88 0)
      in (Result, \<lparr>Index = idx, StepSize = step_at (sint idx), Predictor = word_of_int Result\<rparr>))"

section \<open>Frames\<close>

text \<open>The four header bytes of a channel; the index keeps only the low byte of its 16 bits.\<close>

definition header_state :: "u8 \<Rightarrow> u8 \<Rightarrow> u8 \<Rightarrow> u8 \<Rightarrow> adpcm" where
  "header_state a b c d =
     (let idx = word_of_int (delimit (sint (ucast (ucast c OR push_bit 8 (ucast d) :: u32) :: u8)) 88 0)
      in \<lparr>Index = idx, StepSize = step_at (sint idx), Predictor = ucast a OR push_bit 8 (ucast b)\<rparr>)"

fun read_headers :: "nat \<Rightarrow> u8 list \<Rightarrow> fault + (adpcm list \<times> u8 list \<times> u8 list)" where
  "read_headers 0 inp = Inr ([], [], inp)"
| "read_headers (Suc n) (a # b # c # d # inp) = (case read_headers n inp of
       Inl e \<Rightarrow> Inl e
     | Inr (sts, out, rest) \<Rightarrow> Inr (header_state a b c d # sts, a # b # out, rest))"
| "read_headers (Suc n) inp = Inl OutOfBounds"

text \<open>Eight samples of one code word; the buffer holds the results as 16-bit words.\<close>

primrec decode_codes :: "nat \<Rightarrow> u32 \<Rightarrow> adpcm \<Rightarrow> u16 list \<times> adpcm" where
  "decode_codes 0 CodeBuf st = ([], st)"
| "decode_codes (Suc n) CodeBuf st =
     (case DecodeSample (unat (CodeBuf AND 15)) st of (r, st1) \<Rightarrow>
      case decode_codes n (drop_bit 4 CodeBuf) st1 of (rs, st2) \<Rightarrow> (word_of_int r # rs, st2))"

definition code_word :: "u8 \<Rightarrow> u8 \<Rightarrow> u8 \<Rightarrow> u8 \<Rightarrow> u32" where
  "code_word a b c d = ucast a OR push_bit 8 (ucast b) OR push_bit 16 (ucast c) OR push_bit 24 (ucast d)"

fun read_codes :: "adpcm list \<Rightarrow> u8 list \<Rightarrow> fault + (u16 list list \<times> adpcm list \<times> u8 list)" where
  "read_codes [] inp = Inr ([], [], inp)"
| "read_codes (st # sts) (a # b # c # d # inp) =
     (case decode_codes 8 (code_word a b c d) st of (samples, st') \<Rightarrow>
      case read_codes sts inp of
        Inl e \<Rightarrow> Inl e
      | Inr (bufs, sts', rest) \<Rightarrow> Inr (samples # bufs, st' # sts', rest))"
| "read_codes (st # sts) inp = Inl OutOfBounds"

definition sample_bytes :: "u16 \<Rightarrow> u8 list" where
  "sample_bytes s = [ucast (s AND 0xFF), ucast (drop_bit 8 s AND 0xFF)]"

definition write_buffers :: "u16 list list \<Rightarrow> u8 list" where
  "write_buffers bufs = concat (map (\<lambda>j. concat (map (\<lambda>b. sample_bytes (b ! j)) bufs)) [0..<8])"

primrec decode_groups :: "nat \<Rightarrow> adpcm list \<Rightarrow> u8 list \<Rightarrow> fault + (u8 list \<times> u8 list)" where
  "decode_groups 0 sts inp = Inr ([], inp)"
| "decode_groups (Suc n) sts inp = (case read_codes sts inp of
       Inl e \<Rightarrow> Inl e
     | Inr (bufs, sts', rest) \<Rightarrow> (case decode_groups n sts' rest of
         Inl e \<Rightarrow> Inl e
       | Inr (out, rest') \<Rightarrow> Inr (write_buffers bufs @ out, rest')))"

primrec decode_blocks :: "nat \<Rightarrow> nat \<Rightarrow> u8 list \<Rightarrow> fault + u8 list" where
  "decode_blocks FChannels 0 inp = Inr []"
| "decode_blocks FChannels (Suc n) inp = (case read_headers FChannels inp of
       Inl e \<Rightarrow> Inl e
     | Inr (sts, out, rest) \<Rightarrow> (case decode_groups 8 sts rest of
         Inl e \<Rightarrow> Inl e
       | Inr (out', rest') \<Rightarrow> (case decode_blocks FChannels n rest' of
           Inl e \<Rightarrow> Inl e
         | Inr out'' \<Rightarrow> Inr (out @ out' @ out''))))"

definition XBOX_ADPCM_SRCSIZE :: nat where
  "XBOX_ADPCM_SRCSIZE = 36"

definition XBOX_ADPCM_DSTSIZE :: nat where
  "XBOX_ADPCM_DSTSIZE = 130"

text \<open>
  The return value and the bytes written; \<open>inlen\<close> is not negative. The state array has two entries,
  so more channels are out of bounds, and no channel is a division by zero.
\<close>

definition Decode_Memory :: "u8 list \<Rightarrow> nat \<Rightarrow> nat \<Rightarrow> fault + (nat \<times> u8 list)" where
  "Decode_Memory inp inlen FChannels =
     (if FChannels = 0 then Inl Aborted
      else let blocks = (inlen div XBOX_ADPCM_SRCSIZE) div FChannels in
      if 2 < FChannels \<and> 0 < blocks then Inl OutOfBounds
      else case decode_blocks FChannels blocks inp of
          Inl e \<Rightarrow> Inl e
        | Inr out \<Rightarrow> Inr (blocks * XBOX_ADPCM_DSTSIZE * FChannels, out))"

definition guess_output_size :: "nat \<Rightarrow> nat" where
  "guess_output_size SourceSize = (SourceSize div XBOX_ADPCM_SRCSIZE) * XBOX_ADPCM_DSTSIZE"

section \<open>Bounds of one sample\<close>

lemma StepTable_range: "i < 89 \<Longrightarrow> 7 \<le> StepTable ! i \<and> StepTable ! i \<le> 32767"
proof -
  assume "i < 89"
  moreover have "\<forall>x \<in> set StepTable. 7 \<le> x \<and> x \<le> 32767" "length StepTable = 89"
    by (simp_all add: StepTable_def)
  ultimately show ?thesis by (metis nth_mem)
qed

lemma IndexTable_range: "c < 16 \<Longrightarrow> -1 \<le> IndexTable ! c \<and> IndexTable ! c \<le> 8"
proof -
  assume "c < 16"
  moreover have "\<forall>x \<in> set IndexTable. -1 \<le> x \<and> x \<le> 8" "length IndexTable = 16"
    by (simp_all add: IndexTable_def)
  ultimately show ?thesis by (metis nth_mem)
qed

lemma sint_small8: "-128 \<le> x \<Longrightarrow> x < 128 \<Longrightarrow> sint (word_of_int x :: u8) = x"
  by (simp add: signed_of_int signed_take_bit_int_eq_self)

lemma sint_small16: "-32768 \<le> x \<Longrightarrow> x < 32768 \<Longrightarrow> sint (word_of_int x :: u16) = x"
  by (simp add: signed_of_int signed_take_bit_int_eq_self)

definition adpcm_ok :: "adpcm \<Rightarrow> bool" where
  "adpcm_ok st \<longleftrightarrow> 0 \<le> sint (Index st) \<and> sint (Index st) \<le> 88 \<and> sint (StepSize st) = StepTable ! nat (sint (Index st))"

lemma delimit_range: "l \<le> h \<Longrightarrow> l \<le> delimit x h l \<and> delimit x h l \<le> h"
  by (simp add: delimit_def)

lemma clamped_ok:
  fixes i :: u8
  assumes "i = word_of_int (delimit x 88 0)"
  shows "adpcm_ok \<lparr>Index = i, StepSize = step_at (sint i), Predictor = p\<rparr>"
proof -
  have r: "0 \<le> delimit x 88 0" "delimit x 88 0 \<le> 88" using delimit_range [of 0 88 x] by auto
  then have i: "sint i = delimit x 88 0" using assms by (simp add: sint_small8)
  have "nat (delimit x 88 0) < 89" using r by linarith
  from StepTable_range [OF this] r i show ?thesis
    by (simp add: adpcm_ok_def step_at_def sint_small16)
qed

lemma header_ok: "adpcm_ok (header_state a b c d)"
  unfolding header_state_def Let_def by (rule clamped_ok) (rule refl)

text \<open>C37: Decoding a sample in a state whose index is in the step table keeps it there: both table accesses
  are in range, the index and step stay consistent, the result is a 16-bit value equal to the new
  predictor, and it is the old predictor plus the delta, clamped.\<close>

theorem adpcm_sample_bounds:
  assumes "adpcm_ok st" and "Code < 16" and "DecodeSample Code st = (r, st')"
  shows "adpcm_ok st' \<and> -32768 \<le> r \<and> r \<le> 32767 \<and> sint (Predictor st') = r
    \<and> r = max (-32768) (min 32767 (sint (Predictor st) + sample_delta Code (sint (StepSize st))))
    \<and> sint (Index st') = max 0 (min 88 (sint (Index st) + IndexTable ! Code))"
proof -
  have i: "sint (word_of_int (sint (Index st) + IndexTable ! Code) :: u8) = sint (Index st) + IndexTable ! Code"
    using assms(1) IndexTable_range [OF assms(2)] by (intro sint_small8) (auto simp: adpcm_ok_def)
  have d: "sint (word_of_int (delimit (sint (Index st) + IndexTable ! Code) 88 0) :: u8)
      = delimit (sint (Index st) + IndexTable ! Code) 88 0"
    using delimit_range [of 0 88 "sint (Index st) + IndexTable ! Code"] by (intro sint_small8) auto
  have r: "r = delimit (sint (Predictor st) + sample_delta Code (sint (StepSize st))) 32767 (-32768)"
    and st': "st' = \<lparr>Index = word_of_int (delimit (sint (Index st) + IndexTable ! Code) 88 0),
      StepSize = step_at (delimit (sint (Index st) + IndexTable ! Code) 88 0), Predictor = word_of_int r\<rparr>"
    using assms(3) unfolding DecodeSample_def Let_def i d by auto
  have "sint (Index st') = delimit (sint (Index st) + IndexTable ! Code) 88 0"
    unfolding st' adpcm.simps by (rule d)
  moreover have "adpcm_ok st'" using clamped_ok [OF refl, of "sint (Index st) + IndexTable ! Code" "word_of_int r"]
    unfolding st' d .
  moreover have b: "-32768 \<le> r" "r \<le> 32767" using r delimit_range [of "-32768" 32767] by auto
  moreover have "sint (Predictor st') = r" unfolding st' adpcm.simps using b by (intro sint_small16) auto
  moreover have "r = max (-32768) (min 32767 (sint (Predictor st) + sample_delta Code (sint (StepSize st))))"
    unfolding r delimit_def by auto
  moreover have "delimit x 88 0 = max 0 (min 88 x)" for x by (auto simp: delimit_def)
  ultimately show ?thesis by simp
qed

lemma adpcm_sample_bounds_witness:
  "\<exists>r st'. DecodeSample 7 (header_state 0xFF 0x7F 88 0) = (r, st') \<and> r \<le> 32767 \<and> adpcm_ok st'"
proof -
  obtain r st' where d: "DecodeSample 7 (header_state 0xFF 0x7F 88 0) = (r, st')" by (metis surj_pair)
  from adpcm_sample_bounds [OF header_ok _ d] d show ?thesis by auto
qed

section \<open>Output size\<close>

lemma length_decode_codes [simp]: "length (fst (decode_codes n w st)) = n"
  by (induction n arbitrary: w st) (auto split: prod.splits simp: prod.case_eq_if)

text \<open>
  The reference: one channel of a frame on its own. \<open>word_at\<close> is the code word at a byte offset,
  \<open>adpcm_channel\<close> the 65 samples of a channel, \<open>adpcm_frame\<close> the frame's output with the samples of
  the channels interleaved.
\<close>

definition word_at :: "u8 list \<Rightarrow> nat \<Rightarrow> u32" where
  "word_at inp k = code_word (inp ! k) (inp ! (k + 1)) (inp ! (k + 2)) (inp ! (k + 3))"

primrec mono_samples :: "u32 list \<Rightarrow> adpcm \<Rightarrow> u16 list" where
  "mono_samples [] st = []"
| "mono_samples (w # ws) st = fst (decode_codes 8 w st) @ mono_samples ws (snd (decode_codes 8 w st))"

definition header_at :: "u8 list \<Rightarrow> nat \<Rightarrow> adpcm" where
  "header_at inp k = header_state (inp ! k) (inp ! (k + 1)) (inp ! (k + 2)) (inp ! (k + 3))"

definition adpcm_channel :: "nat \<Rightarrow> u8 list \<Rightarrow> nat \<Rightarrow> u16 list" where
  "adpcm_channel F inp c = Predictor (header_at inp (4 * c))
     # mono_samples (map (\<lambda>i. word_at inp (4 * F + 4 * (i * F + c))) [0..<8]) (header_at inp (4 * c))"

definition interleave :: "nat \<Rightarrow> nat \<Rightarrow> (nat \<Rightarrow> nat \<Rightarrow> u16) \<Rightarrow> u8 list" where
  "interleave F n sample = concat (map (\<lambda>j. concat (map (\<lambda>c. sample_bytes (sample c j)) [0..<F])) [0..<n])"

definition adpcm_frame :: "nat \<Rightarrow> u8 list \<Rightarrow> u8 list" where
  "adpcm_frame F inp = interleave F 65 (\<lambda>c j. adpcm_channel F inp c ! j)"

lemma length_sample_bytes [simp]: "length (sample_bytes x) = 2"
  by (simp add: sample_bytes_def)

lemma length_concat_const: "(\<And>x. x \<in> set xs \<Longrightarrow> length (f x) = k) \<Longrightarrow> length (concat (map f xs)) = k * length xs"
  by (induction xs) auto

lemma map_upt_first: "map f [0..<Suc n] = f 0 # map (\<lambda>i. f (Suc i)) [0..<n]"
  by (simp only: upt_conv_Cons zero_less_Suc map_Suc_upt [symmetric] list.map map_map comp_def)

lemma interleave_1: "interleave F 1 s = concat (map (\<lambda>c. sample_bytes (s c 0)) [0..<F])"
  by (simp add: interleave_def)

lemma length_interleave [simp]: "length (interleave F n s) = 2 * F * n"
  unfolding interleave_def
  by (subst length_concat_const [where k = "2 * F"]) (simp_all add: length_concat_const [where k = 2])

lemma interleave_append:
  "interleave F (m + n) s = interleave F m s @ interleave F n (\<lambda>c j. s c (m + j))"
proof -
  have "[m..<m + n] = map (\<lambda>j. m + j) [0..<n]" by (rule nth_equalityI) simp_all
  then have "[0..<m + n] = [0..<m] @ map (\<lambda>j. m + j) [0..<n]" by (simp only: upt_add_eq_append [of 0 m n] le0)
  then show ?thesis by (simp only: interleave_def map_append concat_append map_map comp_def)
qed

lemma interleave_cong:
  "(\<And>c j. c < F \<Longrightarrow> j < n \<Longrightarrow> s c j = t c j) \<Longrightarrow> interleave F n s = interleave F n t"
  unfolding interleave_def by (intro arg_cong [of _ _ concat] map_cong refl) simp

lemma length_mono_samples [simp]: "length (mono_samples ws st) = 8 * length ws"
  by (induction ws arbitrary: st) simp_all

lemma four_cons: "4 \<le> length inp \<Longrightarrow> inp = inp ! 0 # inp ! 1 # inp ! 2 # inp ! 3 # drop 4 inp"
  by (cases inp; cases "tl inp"; cases "tl (tl inp)"; cases "tl (tl (tl inp))") (auto simp: numeral_eq_Suc)

lemma sample_bytes_predictor: "sample_bytes (Predictor (header_state a b c d)) = [a, b]"
proof -
  have "ucast ((ucast a OR push_bit 8 (ucast b) :: u16) AND 0xFF) = a"
    by (rule bit_word_eqI) (auto simp: mask_simps bit_simps)
  moreover have "ucast (drop_bit 8 (ucast a OR push_bit 8 (ucast b) :: u16) AND 0xFF) = b"
    by (rule bit_word_eqI) (auto simp: mask_simps bit_simps dest: bit_imp_le_length)
  ultimately show ?thesis by (simp add: sample_bytes_def header_state_def Let_def)
qed

lemma read_headers_run:
  assumes "4 * n \<le> length inp"
  shows "read_headers n inp = Inr (map (\<lambda>c. header_at inp (4 * c)) [0..<n],
    interleave n 1 (\<lambda>c j. Predictor (header_at inp (4 * c))), drop (4 * n) inp)"
  using assms
proof (induction n arbitrary: inp)
  case 0
  then show ?case by (simp add: interleave_def)
next
  case (Suc n)
  have l: "4 \<le> length inp" "4 * n \<le> length (drop 4 inp)" using Suc.prems by auto
  have h: "header_at (drop 4 inp) (4 * c) = header_at inp (4 * Suc c)" if "c < n" for c
    using Suc.prems that by (simp add: header_at_def nth_append algebra_simps)
  have e: "read_headers (Suc n) inp = (case read_headers n (drop 4 inp) of
       Inl e \<Rightarrow> Inl e
     | Inr (sts, out, rest) \<Rightarrow> Inr (header_at inp 0 # sts, inp ! 0 # inp ! 1 # out, rest))"
    by (subst four_cons [OF l(1)]) (simp add: header_at_def numeral_2_eq_2 numeral_3_eq_3 split: sum.splits)
  have p: "[inp ! 0, inp ! 1] = sample_bytes (Predictor (header_at inp 0))"
    by (simp add: header_at_def sample_bytes_predictor)
  have "interleave (Suc n) 1 (\<lambda>c j. Predictor (header_at inp (4 * c)))
      = [inp ! 0, inp ! 1] @ interleave n 1 (\<lambda>c j. Predictor (header_at inp (4 * Suc c)))"
    unfolding p interleave_1 map_upt_first by simp
  moreover have "interleave n 1 (\<lambda>c j. Predictor (header_at inp (4 * Suc c)))
      = interleave n 1 (\<lambda>c j. Predictor (header_at (drop 4 inp) (4 * c)))"
    by (rule interleave_cong) (simp add: h)
  moreover have "map (\<lambda>c. header_at inp (4 * c)) [0..<Suc n] = header_at inp 0 # map (\<lambda>c. header_at (drop 4 inp) (4 * c)) [0..<n]"
    by (simp only: map_upt_first) (simp add: h)
  ultimately show ?case using Suc.IH [OF l(2)] by (simp add: e add.commute del: upt_Suc)
qed

lemma read_codes_run:
  assumes "4 * length sts \<le> length inp"
  shows "read_codes sts inp = Inr (map (\<lambda>c. fst (decode_codes 8 (word_at inp (4 * c)) (sts ! c))) [0..<length sts],
    map (\<lambda>c. snd (decode_codes 8 (word_at inp (4 * c)) (sts ! c))) [0..<length sts], drop (4 * length sts) inp)"
  using assms
proof (induction sts arbitrary: inp)
  case (Cons st sts)
  have l: "4 \<le> length inp" "4 * length sts \<le> length (drop 4 inp)" using Cons.prems by auto
  have e: "read_codes (st # sts) inp = (case read_codes sts (drop 4 inp) of
       Inl e \<Rightarrow> Inl e
     | Inr (bufs, sts', rest) \<Rightarrow> Inr (fst (decode_codes 8 (word_at inp 0) st) # bufs,
         snd (decode_codes 8 (word_at inp 0) st) # sts', rest))"
    by (subst four_cons [OF l(1)])
      (simp add: word_at_def numeral_2_eq_2 numeral_3_eq_3 prod.case_eq_if split: sum.splits)
  have h: "word_at (drop 4 inp) (4 * c) = word_at inp (4 * Suc c)" if "c < length sts" for c
    using Cons.prems that by (simp add: word_at_def algebra_simps)
  show ?case unfolding e list.size add_Suc_right add_0_right map_upt_first using Cons.IH [OF l(2)] by (simp add: h add.commute)
qed simp

lemma write_buffers_map: "write_buffers (map f [0..<F]) = interleave F 8 (\<lambda>c j. f c ! j)"
  by (simp add: write_buffers_def interleave_def comp_def)

lemma decode_groups_run:
  assumes "4 * F * n \<le> length inp" and "length sts = F"
  shows "decode_groups n sts inp = Inr (interleave F (8 * n)
      (\<lambda>c j. mono_samples (map (\<lambda>i. word_at inp (4 * (i * F + c))) [0..<n]) (sts ! c) ! j), drop (4 * F * n) inp)"
  using assms
proof (induction n arbitrary: inp sts)
  case (Suc n)
  let ?w = "\<lambda>c. word_at inp (4 * c)"
  let ?sts = "map (\<lambda>c. snd (decode_codes 8 (?w c) (sts ! c))) [0..<F]"
  let ?inp = "drop (4 * F) inp"
  have l: "4 * length sts \<le> length inp" "4 * F * n \<le> length ?inp" "length ?sts = F"
    using Suc.prems by (simp_all add: algebra_simps)
  have h: "word_at ?inp k = word_at inp (4 * F + k)" for k
    using l(1) Suc.prems(2) by (simp add: word_at_def algebra_simps)
  let ?S = "\<lambda>c j. mono_samples (map (\<lambda>i. word_at inp (4 * (i * F + c))) [0..<Suc n]) (sts ! c) ! j"
  have "interleave F (8 * Suc n) ?S = interleave F 8 ?S @ interleave F (8 * n) (\<lambda>c j. ?S c (8 + j))"
    using interleave_append [of F 8 "8 * n" ?S] by simp
  also have "interleave F 8 ?S = write_buffers (map (\<lambda>c. fst (decode_codes 8 (?w c) (sts ! c))) [0..<F])"
    unfolding write_buffers_map by (rule interleave_cong) (simp add: map_upt_first nth_append del: upt_Suc)
  also have "interleave F (8 * n) (\<lambda>c j. ?S c (8 + j)) = interleave F (8 * n)
      (\<lambda>c j. mono_samples (map (\<lambda>i. word_at ?inp (4 * (i * F + c))) [0..<n]) (?sts ! c) ! j)"
    by (rule interleave_cong) (simp add: map_upt_first h nth_append add.assoc del: upt_Suc)
  finally show ?case
    using Suc.IH [OF l(2,3)] Suc.prems(2) read_codes_run [OF l(1)]
    by (simp add: algebra_simps del: upt_Suc)
qed (simp add: interleave_def)

lemma adpcm_frame_split:
  assumes "36 * F \<le> length b"
  shows "adpcm_frame F b = interleave F 1 (\<lambda>c j. Predictor (header_at b (4 * c)))
    @ interleave F (8 * 8) (\<lambda>c j. mono_samples (map (\<lambda>i. word_at (drop (4 * F) b) (4 * (i * F + c))) [0..<8])
        (map (\<lambda>c. header_at b (4 * c)) [0..<F] ! c) ! j)"
proof -
  have w: "word_at (drop (4 * F) b) k = word_at b (4 * F + k)" for k
    using assms by (simp add: word_at_def algebra_simps)
  have "interleave F 1 (\<lambda>c j. adpcm_channel F b c ! j) = interleave F 1 (\<lambda>c j. Predictor (header_at b (4 * c)))"
    by (rule interleave_cong) (simp add: adpcm_channel_def)
  moreover have "interleave F (8 * 8) (\<lambda>c j. adpcm_channel F b c ! (1 + j))
      = interleave F (8 * 8) (\<lambda>c j. mono_samples (map (\<lambda>i. word_at (drop (4 * F) b) (4 * (i * F + c))) [0..<8])
        (map (\<lambda>c. header_at b (4 * c)) [0..<F] ! c) ! j)"
    by (rule interleave_cong) (simp add: adpcm_channel_def w)
  moreover have "(65 :: nat) = 1 + 8 * 8" by simp
  ultimately show ?thesis
    by (simp only: adpcm_frame_def interleave_append)
qed

lemma decode_blocks_run:
  assumes "36 * F * n \<le> length b"
  shows "decode_blocks F n b = Inr (concat (map (\<lambda>k. adpcm_frame F (drop (36 * F * k) b)) [0..<n]))"
  using assms
proof (induction n arbitrary: b)
  case (Suc n)
  have l: "4 * F \<le> length b" "4 * F * 8 \<le> length (drop (4 * F) b)" "36 * F * n \<le> length (drop (36 * F) b)"
    "36 * F \<le> length b"
    using Suc.prems by (simp_all add: algebra_simps)
  have "decode_groups 8 (map (\<lambda>c. header_at b (4 * c)) [0..<F]) (drop (4 * F) b)
      = Inr (interleave F (8 * 8) (\<lambda>c j. mono_samples (map (\<lambda>i. word_at (drop (4 * F) b) (4 * (i * F + c))) [0..<8])
        (map (\<lambda>c. header_at b (4 * c)) [0..<F] ! c) ! j), drop (36 * F) b)"
    using decode_groups_run [OF l(2), of "map (\<lambda>c. header_at b (4 * c)) [0..<F]"] by simp
  then show ?case
    using read_headers_run [OF l(1)] adpcm_frame_split [OF l(4)] Suc.IH [OF l(3)]
    by (simp add: map_upt_first algebra_simps del: upt_Suc)
qed simp



end
