(* ===== verification/Rtl_Arith.thy ===== *)
theory Rtl_Arith
  imports Cxbx_Prelude "HOL-Library.Signed_Division"
begin

text \<open>
  64-bit arithmetic of the kernel's run-time library (\<open>core/kernel/exports/EmuKrnlRtl.cpp\<close>):
  multiplication, the bit-serial division that was reverse engineered from the console, the division
  by a reciprocal, and the byte swaps.

  A \<open>LARGE_INTEGER\<close> is its \<open>QuadPart\<close> as a \<open>u64\<close>; \<open>sint\<close> reads it as signed. The theorems show
  that the bit-serial loop divides exactly for every divisor but zero and that the reciprocals of the
  time conversion divide exactly for every dividend.
\<close>

section \<open>Multiplication and byte swaps\<close>

definition RtlExtendedIntegerMultiply :: "u64 \<Rightarrow> u32 \<Rightarrow> u64" where
  "RtlExtendedIntegerMultiply Multiplicand Multiplier = Multiplicand * scast Multiplier"

definition RtlUlongByteSwap :: "u32 \<Rightarrow> u32" where
  "RtlUlongByteSwap s =
     drop_bit 24 s OR drop_bit 8 (s AND 0xFF0000) OR push_bit 8 (s AND 0xFF00) OR push_bit 24 (s AND 0xFF)"

section \<open>Division by bits\<close>

definition LowPart :: "u64 \<Rightarrow> u32" where
  "LowPart q = ucast q"

definition set_LowPart :: "u32 \<Rightarrow> u64 \<Rightarrow> u64" where
  "set_LowPart v q = (q AND NOT 0xFFFFFFFF) OR ucast v"

text \<open>
  The loop over the 64 bits of the dividend. The state is \<open>quotient\<close> and \<open>local_remainder\<close>; the
  bit shifted out of the remainder decides together with the comparison.
\<close>

primrec divide_loop :: "nat \<Rightarrow> u32 \<Rightarrow> u64 \<Rightarrow> u32 \<Rightarrow> u64 \<times> u32" where
  "divide_loop 0 Divisor q r = (q, r)"
| "divide_loop (Suc i) Divisor q r =
     (let carry = drop_bit 63 q AND 1;
          remainder_carry = drop_bit 31 r AND 1;
          q' = push_bit 1 q;
          r' = push_bit 1 r OR ucast carry
      in if remainder_carry \<noteq> 0 \<or> Divisor \<le> r'
         then divide_loop i Divisor (set_LowPart (LowPart q' + 1) q') (r' - Divisor)
         else divide_loop i Divisor q' r')"

text \<open>
  A zero divisor goes to \<open>RtlRaiseStatus\<close>, whose \<open>RtlRaiseException\<close> only logs: the call
  returns the dividend and leaves \<open>Remainder\<close> alone (\<open>None\<close>).
\<close>

definition RtlExtendedLargeIntegerDivide :: "u64 \<Rightarrow> u32 \<Rightarrow> u64 \<times> u32 option" where
  "RtlExtendedLargeIntegerDivide Dividend Divisor =
     (if Divisor = 0 then (Dividend, None)
      else let (q, r) = divide_loop 64 Divisor Dividend 0 in (q, Some r))"

section \<open>Division by a reciprocal\<close>

definition LOWER_32 :: "u64 \<Rightarrow> u64" where
  "LOWER_32 a = a AND 0xFFFFFFFF"

definition UPPER_32 :: "u64 \<Rightarrow> u64" where
  "UPPER_32 a = drop_bit 32 a"

definition RtlExtendedMagicDivide :: "u64 \<Rightarrow> u64 \<Rightarrow> u8 \<Rightarrow> u64" where
  "RtlExtendedMagicDivide Dividend MagicDivisor ShiftCount =
     (let positive = \<not> sint Dividend < 0;
          d = (if positive then Dividend else - Dividend);
          dividend_high = UPPER_32 d; dividend_low = LOWER_32 d;
          inverse_divisor_high = UPPER_32 MagicDivisor; inverse_divisor_low = LOWER_32 MagicDivisor;
          ah_bl = dividend_high * inverse_divisor_low;
          al_bh = dividend_low * inverse_divisor_high;
          r = drop_bit (unat ShiftCount)
                (dividend_high * inverse_divisor_high + UPPER_32 ah_bl + UPPER_32 al_bh
                 + UPPER_32 (LOWER_32 ah_bl + LOWER_32 al_bh + UPPER_32 (dividend_low * inverse_divisor_low)))
      in if positive then r else - r)"

definition Magic10000 :: u64 where
  "Magic10000 = 0xd1b71758e219652c"

definition Magic86400000 :: u64 where
  "Magic86400000 = 0xc6d750ebfa67b90e"

section \<open>The loop divides\<close>

lemma double_or_bit: "push_bit 1 w OR of_bool b = 2 * w + of_bool b" for w :: "'a::len word"
  by (simp add: or_one_eq push_bit_eq_mult)

lemma set_LowPart_succ: "set_LowPart (LowPart (push_bit 1 q) + 1) (push_bit 1 q) = 2 * q + 1"
proof -
  have p: "LowPart (push_bit 1 q) = push_bit 1 (LowPart q)"
    by (rule bit_word_eqI) (simp only: LowPart_def bit_simps, auto)
  have m: "0xFFFFFFFF = (mask 32 :: u64)" by (simp add: mask_eq_exp_minus_1)
  have "LowPart (push_bit 1 q) + 1 = push_bit 1 (LowPart q) OR 1"
    using double_or_bit [of "LowPart q" True] unfolding p by (simp add: push_bit_eq_mult)
  moreover have "set_LowPart (push_bit 1 (LowPart q) OR 1) (push_bit 1 q) = push_bit 1 q OR 1"
    unfolding set_LowPart_def LowPart_def m
    by (rule bit_word_eqI) (simp only: bit_simps, auto simp: bit_1_iff)
  moreover have "push_bit 1 q OR 1 = 2 * q + 1"
    using double_or_bit [of q True] by simp
  ultimately show ?thesis by simp
qed

lemma last_bit:
  fixes w :: "'a::len word"
  assumes "LENGTH('a) = Suc n"
  shows "drop_bit n w AND 1 = of_bool (2 ^ n \<le> unat w)"
proof -
  have "unat w < 2 * 2 ^ n" using assms unsigned_less [where 'a = nat, of w] by simp
  then have "unat w div 2 ^ n < 2" by (simp add: less_mult_imp_div_less)
  moreover have "unat w div 2 ^ n = 0 \<longleftrightarrow> \<not> 2 ^ n \<le> unat w" by (simp add: div_eq_0_iff not_le)
  ultimately have "unat w div 2 ^ n = of_bool (2 ^ n \<le> unat w)" by (cases "2 ^ n \<le> unat w") auto
  then have "unat (drop_bit n w) = of_bool (2 ^ n \<le> unat w)" by (metis drop_bit_eq_div unat_drop_bit_eq)
  then have "drop_bit n w = of_bool (2 ^ n \<le> unat w)"
    by (auto simp: unsigned_word_eqI [where 'a = nat])
  then show ?thesis by simp
qed

text \<open>One step: the numerator \<open>(p * d + r) * 2 ^ i + a\<close> does not change.\<close>

lemma divide_loop_inv:
  assumes "divide_loop i d q r = (q', r')"
    and "unat q = a * 2 ^ (64 - i) + p" and "a < 2 ^ i" and "p < 2 ^ (64 - i)" and "unat r < unat d" and "i \<le> 64"
  shows "unat q' = ((p * unat d + unat r) * 2 ^ i + a) div unat d
    \<and> unat r' = ((p * unat d + unat r) * 2 ^ i + a) mod unat d"
  using assms
proof (induction i arbitrary: a p q r)
  case 0
  then show ?case by simp
next
  case (Suc k)
  define b where "b = a div 2 ^ k"
  define a' where "a' = a mod 2 ^ k"
  define j where "j = 64 - Suc k"
  have kj: "63 - k = j" "64 - k = Suc j" "k + j = 63" using Suc.prems(6) by (simp_all add: j_def)
  have a: "a = b * 2 ^ k + a'" and a': "a' < 2 ^ k" by (simp_all add: a'_def b_def div_mult_mod_eq)
  have b: "b < 2" using Suc.prems(3) unfolding b_def by (simp add: less_mult_imp_div_less)
  have w: "a' * 2 ^ j + p < 2 ^ 63"
  proof -
    have "a' * 2 ^ j + p < a' * 2 ^ j + 2 ^ j" using Suc.prems(4) by (simp add: j_def)
    also have "\<dots> = (a' + 1) * 2 ^ j" by simp
    also have "\<dots> \<le> 2 ^ k * 2 ^ j" using a' by (intro mult_le_mono1) simp
    finally show ?thesis using kj(3) by (simp flip: power_add)
  qed
  have q: "unat q = b * 2 ^ 63 + (a' * 2 ^ j + p)"
    using Suc.prems(2) a kj by (simp add: algebra_simps flip: power_add)
  have carry: "drop_bit 63 q AND 1 = of_bool (b = 1)"
    using last_bit [of 63 q] q w b by (auto simp: less_2_cases_iff)
  have q2: "unat (2 * q) = 2 * (a' * 2 ^ j + p)"
    using q w b by (auto simp: unat_word_ariths less_2_cases_iff)
  have q3: "unat (2 * q + 1) = 2 * (a' * 2 ^ j + p) + 1"
    using q2 w by (simp add: unat_word_ariths)
  define R where "R = 2 * unat r + b"
  have r1: "push_bit 1 r OR ucast (drop_bit 63 q AND 1 :: u64) = word_of_nat R"
    using double_or_bit [of r "b = 1"] b by (auto simp: carry R_def less_2_cases_iff)
  have rc: "drop_bit 31 r AND 1 = of_bool (2 ^ 31 \<le> unat r)" using last_bit [of 31 r] by simp
  have d: "unat d < 2 ^ 32" using unsigned_less [where 'a = nat, of d] by simp
  have Rd: "R < 2 * unat d" using Suc.prems(5) b by (simp add: R_def)
  show ?case
  proof (cases "unat d \<le> R")
    case True
    have "2 ^ 31 \<le> unat r \<or> d \<le> word_of_nat R"
    proof (rule disjCI)
      assume "\<not> d \<le> word_of_nat R"
      moreover have "d \<le> word_of_nat R" if "R < 2 ^ 32"
        using True that by (simp add: word_le_nat_alt unat_of_nat take_bit_nat_eq_self)
      ultimately have "\<not> R < 2 ^ 32" by blast
      then show "2 ^ 31 \<le> unat r" using b by (simp add: R_def)
    qed
    moreover have "word_of_nat R - d = word_of_nat (R - unat d)" using True by (simp add: of_nat_diff)
    ultimately have "divide_loop k d (2 * q + 1) (word_of_nat (R - unat d)) = (q', r')"
      using Suc.prems(1) by (auto simp: Let_def rc r1 [simplified] set_LowPart_succ [simplified])
    moreover have "unat (word_of_nat (R - unat d) :: u32) = R - unat d"
      using Rd True d by (simp add: unat_of_nat take_bit_nat_eq_self del: of_nat_diff)
    moreover have "R - unat d < unat d" using Rd by simp
    moreover have "2 * p + 1 < 2 ^ (64 - k)" using Suc.prems(4) by (simp add: kj(2) j_def)
    ultimately have "unat q' = (((2 * p + 1) * unat d + (R - unat d)) * 2 ^ k + a') div unat d
        \<and> unat r' = (((2 * p + 1) * unat d + (R - unat d)) * 2 ^ k + a') mod unat d"
      using Suc.IH [of "2 * q + 1" "word_of_nat (R - unat d)" a' "2 * p + 1"] Suc.prems(6) a' q3
      by (simp add: kj(2) algebra_simps)
    moreover have "((2 * p + 1) * unat d + (R - unat d)) * 2 ^ k + a' = (p * unat d + unat r) * 2 ^ Suc k + a"
      using True by (simp add: R_def a algebra_simps)
    ultimately show ?thesis by simp
  next
    case False
    then have "\<not> d \<le> word_of_nat R"
      using d by (simp add: word_le_nat_alt unat_of_nat take_bit_nat_eq_self)
    moreover have "\<not> 2 ^ 31 \<le> unat r" using False d by (simp add: R_def)
    ultimately have "divide_loop k d (2 * q) (word_of_nat R) = (q', r')"
      using Suc.prems(1) by (simp add: Let_def rc r1 [simplified] mult.commute [of q])
    moreover have "unat (word_of_nat R :: u32) = R"
      using False d by (simp add: unat_of_nat take_bit_nat_eq_self)
    moreover have "2 * p < 2 ^ (64 - k)" using Suc.prems(4) by (simp add: kj(2) j_def)
    ultimately have "unat q' = ((2 * p * unat d + R) * 2 ^ k + a') div unat d
        \<and> unat r' = ((2 * p * unat d + R) * 2 ^ k + a') mod unat d"
      using Suc.IH [of "2 * q" "word_of_nat R" a' "2 * p"] Suc.prems(6) a' q2 False
      by (simp add: kj(2) algebra_simps)
    moreover have "(2 * p * unat d + R) * 2 ^ k + a' = (p * unat d + unat r) * 2 ^ Suc k + a"
      by (simp add: R_def a algebra_simps)
    ultimately show ?thesis by simp
  qed
qed

text \<open>C24: The bit-serial division returns the exact unsigned quotient and remainder for every
  64-bit dividend and every divisor but zero; a zero divisor returns the dividend unchanged, because
  raising a status only logs, and stores no remainder.\<close>

theorem rtl_large_integer_divide:
  "RtlExtendedLargeIntegerDivide Dividend Divisor
    = (if Divisor = 0 then (Dividend, None)
       else (Dividend div ucast Divisor, Some (ucast (Dividend mod ucast Divisor))))"
proof (cases "Divisor = 0")
  case False
  obtain q r where l: "divide_loop 64 Divisor Dividend 0 = (q, r)" by fastforce
  have d: "unat Divisor > 0" "unat Divisor < 2 ^ 32"
    using False unsigned_less [where 'a = nat, of Divisor] by (simp_all add: unat_gt_0)
  from divide_loop_inv [OF l, of "unat Dividend" 0] d
  have "unat q = unat Dividend div unat Divisor" "unat r = unat Dividend mod unat Divisor"
    using unsigned_less [where 'a = nat, of Dividend] by simp_all
  moreover have "unat Dividend mod unat Divisor < 2 ^ 32"
    using d mod_less_divisor [of "unat Divisor" "unat Dividend"] by linarith
  ultimately have "q = Dividend div ucast Divisor" "r = ucast (Dividend mod ucast Divisor)"
    using d by (simp_all add: word_eq_iff_unsigned [where 'a = nat] unat_div_distrib unat_mod_distrib
        unsigned_ucast_eq take_bit_nat_eq_self)
  then show ?thesis using False l by (simp add: RtlExtendedLargeIntegerDivide_def)
qed (simp add: RtlExtendedLargeIntegerDivide_def)

section \<open>The reciprocal\<close>

lemma unat_LOWER_32: "unat (LOWER_32 a) = unat a mod 2 ^ 32"
proof -
  have "LOWER_32 a = take_bit 32 a" by (simp add: LOWER_32_def take_bit_eq_mask mask_eq_exp_minus_1)
  then show ?thesis by (simp only: unsigned_take_bit_eq) (simp add: take_bit_eq_mod)
qed

lemma unat_UPPER_32: "unat (UPPER_32 a) = unat a div 2 ^ 32"
  unfolding UPPER_32_def by (metis drop_bit_eq_div unat_drop_bit_eq)

text \<open>The upper half of a product, from the four products of the halves.\<close>

lemma high_product:
  fixes xh xl yh yl :: nat
  defines "B \<equiv> 2 ^ 32"
  shows "((xh * B + xl) * (yh * B + yl)) div (B * B) = xh * yh + (xh * yl) div B + (xl * yh) div B
    + ((xh * yl) mod B + (xl * yh) mod B + (xl * yl) div B) div B"
proof -
  have B: "B > 0" by (simp add: B_def)
  have "(xh * B + xl) * (yh * B + yl)
      = (xh * yh * B + (xh * yl + xl * yh)) * B + xl * yl"
    by (simp add: algebra_simps)
  then have "((xh * B + xl) * (yh * B + yl)) div B = xh * yh * B + (xh * yl + xl * yh) + (xl * yl) div B"
    using B by simp
  then have "((xh * B + xl) * (yh * B + yl)) div (B * B)
      = (xh * yh * B + (xh * yl + xl * yh) + (xl * yl) div B) div B"
    by (simp add: div_mult2_eq)
  also have "xh * yh * B + (xh * yl + xl * yh) + (xl * yl) div B
      = (xh * yh + (xh * yl) div B + (xl * yh) div B) * B + ((xh * yl) mod B + (xl * yh) mod B + (xl * yl) div B)"
    using div_mult_mod_eq [of "xh * yl" B] div_mult_mod_eq [of "xl * yh" B]
    by (simp only: add_mult_distrib)
  also have "\<dots> div B = xh * yh + (xh * yl) div B + (xl * yh) div B
    + ((xh * yl) mod B + (xl * yh) mod B + (xl * yl) div B) div B"
    using B by simp
  finally show ?thesis .
qed

definition mulhi :: "u64 \<Rightarrow> u64 \<Rightarrow> u64" where
  "mulhi x y = UPPER_32 x * UPPER_32 y + UPPER_32 (UPPER_32 x * LOWER_32 y) + UPPER_32 (LOWER_32 x * UPPER_32 y)
     + UPPER_32 (LOWER_32 (UPPER_32 x * LOWER_32 y) + LOWER_32 (LOWER_32 x * UPPER_32 y)
         + UPPER_32 (LOWER_32 x * LOWER_32 y))"

lemma unat_mulhi: "unat (mulhi x y) = (unat x * unat y) div 2 ^ 64"
proof -
  define xh where "xh = unat x div 2 ^ 32"
  define xl where "xl = unat x mod 2 ^ 32"
  define yh where "yh = unat y div 2 ^ 32"
  define yl where "yl = unat y mod 2 ^ 32"
  have l: "xh < 2 ^ 32" "xl < 2 ^ 32" "yh < 2 ^ 32" "yl < 2 ^ 32"
    using unsigned_less [where 'a = nat, of x] unsigned_less [where 'a = nat, of y]
    by (simp_all add: xh_def xl_def yh_def yl_def less_mult_imp_div_less)
  have small: "u * v \<le> (2 ^ 32 - 1) * (2 ^ 32 - 1)" if "u < 2 ^ 32" "v < 2 ^ 32" for u v :: nat
    using that by (intro mult_le_mono) simp_all
  have x: "unat x = xh * 2 ^ 32 + xl" "unat y = yh * 2 ^ 32 + yl"
    by (simp_all add: xh_def xl_def yh_def yl_def div_mult_mod_eq)
  have u: "unat (UPPER_32 x) = xh" "unat (LOWER_32 x) = xl" "unat (UPPER_32 y) = yh" "unat (LOWER_32 y) = yl"
    by (simp_all only: unat_LOWER_32 unat_UPPER_32 xh_def xl_def yh_def yl_def)
  have p: "unat (UPPER_32 x * UPPER_32 y) = xh * yh" "unat (UPPER_32 x * LOWER_32 y) = xh * yl"
    "unat (LOWER_32 x * UPPER_32 y) = xl * yh" "unat (LOWER_32 x * LOWER_32 y) = xl * yl"
    using small [of xh yh] small [of xh yl] small [of xl yh] small [of xl yl] l
    by (simp_all add: unat_word_ariths u)
  define w where "w = LOWER_32 (UPPER_32 x * LOWER_32 y) + LOWER_32 (LOWER_32 x * UPPER_32 y)
         + UPPER_32 (LOWER_32 x * LOWER_32 y)"
  have mid: "unat w = (xh * yl) mod 2 ^ 32 + (xl * yh) mod 2 ^ 32 + (xl * yl) div 2 ^ 32"
    (is "_ = ?m")
  proof -
    have "?m < 2 ^ 64" using small [OF l(2,4)] by simp
    then show ?thesis
      by (simp only: w_def unat_word_ariths(1) unat_LOWER_32 unat_UPPER_32 p) (simp add: mod_simps)
  qed
  have "(unat x * unat y) div 2 ^ 64 = xh * yh + (xh * yl) div 2 ^ 32 + (xl * yh) div 2 ^ 32
    + ((xh * yl) mod 2 ^ 32 + (xl * yh) mod 2 ^ 32 + (xl * yl) div 2 ^ 32) div 2 ^ 32" (is "_ = ?h")
    using high_product [of xh xl yh yl] by (simp add: x)
  moreover have "(unat x * unat y) div 2 ^ 64 < 2 ^ 64"
  proof -
    have "unat x * unat y < 2 ^ 64 * 2 ^ 64"
      using unsigned_less [where 'a = nat, of x] unsigned_less [where 'a = nat, of y]
      by (intro mult_strict_mono) simp_all
    then show ?thesis by (simp only: less_mult_imp_div_less)
  qed
  ultimately have h: "?h < 2 ^ 64" by simp
  have "unat (mulhi x y) = ?h mod 2 ^ 64"
    by (simp only: mulhi_def w_def [symmetric] unat_word_ariths(1) unat_UPPER_32 mid p) (simp add: mod_simps)
  with h \<open>(unat x * unat y) div 2 ^ 64 = ?h\<close> show ?thesis by simp
qed

lemma MagicDivide_mulhi:
  "RtlExtendedMagicDivide D M c =
     (if sint D < 0 then - drop_bit (unat c) (mulhi (- D) M) else drop_bit (unat c) (mulhi D M))"
  by (simp add: RtlExtendedMagicDivide_def mulhi_def Let_def)

lemma sint_u64: "sint (w :: u64) = uint w - (if sint w < 0 then 2 ^ 64 else 0)"
  using unsigned_less [where 'a = int, of w] bit_last_iff [of w]
  by (simp add: sint_uint signed_take_bit_eq_take_bit_minus bit_uint_iff take_bit_int_eq_self)

lemma unat_abs_sint: "nat \<bar>sint D\<bar> = (if sint D < 0 then unat (- D) else unat D)" for D :: u64
proof -
  have u: "uint D < 2 ^ 64" "0 \<le> uint D" using unsigned_less [where 'a = int, of D] by simp_all
  have "uint (- D) = 2 ^ 64 - uint D" if "sint D < 0"
  proof -
    have "uint D \<noteq> 0" using that by (auto simp: uint_0_iff)
    then have "- uint D mod 2 ^ 64 = 2 ^ 64 - uint D"
      using u by (subst zmod_zminus1_eq_if) simp
    then show ?thesis by (simp add: uint_word_ariths)
  qed
  moreover have "sint D = uint D - 2 ^ 64" if "sint D < 0"
    using sint_u64 [of D] that by (simp only: if_True)
  moreover have "sint D = uint D" if "\<not> sint D < 0"
    using sint_u64 [of D] that by (simp only: if_False)
  ultimately have "\<bar>sint D\<bar> = (if sint D < 0 then uint (- D) else uint D)" using u by auto
  then show ?thesis by (simp only: nat_uint_eq if_distrib [of nat])
qed

text \<open>Dividing by a reciprocal: \<open>m\<close> exceeds \<open>2 ^ k / d\<close> by a small error.\<close>

lemma reciprocal_div:
  fixes x m d e K :: nat
  assumes "m * d = K + e" and "x * e < K" and "0 < d"
  shows "(x * m) div K = x div d"
proof -
  define q where "q = x div d"
  define r where "r = x mod d"
  have x: "x = q * d + r" "r < d" using assms(3) by (simp_all add: q_def r_def)
  have "x * m * d = x * K + x * e" using assms(1) by (metis (no_types) add_mult_distrib2 mult.assoc)
  moreover have "x * K = q * d * K + r * K" using x(1) by (simp add: add_mult_distrib)
  ultimately have e: "x * m * d = q * d * K + (r * K + x * e)" by simp
  have "r * K + x * e < (r + 1) * K" using assms(2) by simp
  also have "\<dots> \<le> d * K" using x(2) by (intro mult_le_mono1) simp
  finally have "x * m * d < (q * K + K) * d" using e by (simp add: algebra_simps)
  then have "x * m < q * K + K" by (simp only: mult_less_cancel2)
  moreover have "q * K * d \<le> x * m * d" using e by (simp add: algebra_simps)
  then have "q * K \<le> x * m" using assms(3) by simp
  ultimately show ?thesis unfolding q_def [symmetric]
    by (intro div_nat_eqI) (simp_all add: algebra_simps)
qed

lemma sint_small:
  "unat w < 2 ^ 63 \<Longrightarrow> sint w = int (unat w)" "unat w \<le> 2 ^ 63 \<Longrightarrow> sint (- w) = - int (unat w)" for w :: u64
proof -
  have s: "sint (word_of_int k :: u64) = k" if "- (2 ^ 63) \<le> k" "k < 2 ^ 63" for k
    using that by (simp add: sint_sbintrunc' signed_take_bit_int_eq_self)
  show "sint w = int (unat w)" if "unat w < 2 ^ 63"
  proof -
    from that have "int (unat w) < 2 ^ 63" by (metis of_nat_less_iff of_nat_numeral of_nat_power)
    then have "sint (word_of_int (int (unat w)) :: u64) = int (unat w)" by (intro s) linarith+
    then show ?thesis by simp
  qed
  show "sint (- w) = - int (unat w)" if "unat w \<le> 2 ^ 63"
  proof -
    from that have "int (unat w) \<le> 2 ^ 63" by (metis of_nat_le_iff of_nat_numeral of_nat_power)
    then have "sint (word_of_int (- int (unat w)) :: u64) = - int (unat w)"
      by (intro s) (simp_all del: of_nat_unat)
    then show ?thesis by simp
  qed
qed

lemma MagicDivide_exact:
  fixes M :: u64
  assumes "unat M * d = 2 ^ (64 + n) + e" and "2 ^ 63 * e < (2 ^ (64 + n) :: nat)" and "0 < d" and "n < 64"
  shows "sint (RtlExtendedMagicDivide D M (word_of_nat n)) = sint D sdiv int d"
proof -
  have n: "unat (word_of_nat n :: u8) = n" using assms(4) by (simp add: unat_of_nat take_bit_nat_eq_self)
  have q: "unat (drop_bit n (mulhi x M)) = unat x div d" if "unat x \<le> 2 ^ 63" for x
  proof -
    have "unat (drop_bit n (mulhi x M)) = (unat x * unat M) div 2 ^ 64 div 2 ^ n"
      by (simp only: unat_drop_bit_eq unat_mulhi) (simp add: drop_bit_eq_div)
    also have "\<dots> = (unat x * unat M) div 2 ^ (64 + n)"
      by (simp only: div_mult2_eq power_add)
    also have "\<dots> = unat x div d"
    proof (rule reciprocal_div [OF assms(1)])
      have "unat x * e \<le> 2 ^ 63 * e" using that by (rule mult_le_mono1)
      then show "unat x * e < 2 ^ (64 + n)" using assms(2) by (rule le_less_trans)
    qed (rule assms)
    finally show ?thesis .
  qed
  have r: "- (2 ^ 63) \<le> sint D" "sint D < 2 ^ 63" using sint_range_size [of D] by (simp_all add: word_size)
  show ?thesis
  proof (cases "sint D < 0")
    case True
    then have "unat (- D) = nat (- sint D)" using unat_abs_sint [of D] by simp
    then have abs: "int (unat (- D)) = - sint D" using True by simp
    then have a: "int (unat (- D)) = - sint D" "unat (- D) \<le> 2 ^ 63" using abs r \<open>unat (- D) = nat (- sint D)\<close> by (simp_all only: nat_le_iff) simp
    have "unat (- D) div d \<le> unat (- D)" by simp
    then have "unat (drop_bit n (mulhi (- D) M)) \<le> 2 ^ 63" using q [OF a(2)] a(2) by linarith
    then have "sint (- drop_bit n (mulhi (- D) M)) = - int (unat (- D) div d)"
      by (simp only: sint_small(2) q [OF a(2)])
    with True a(1) show ?thesis by (simp add: MagicDivide_mulhi n signed_divide_int_def zdiv_int sgn_if)
  next
    case False
    then have "unat D = nat (sint D)" using unat_abs_sint [of D] by simp
    then have abs: "int (unat D) = sint D" using False by simp
    then have a: "int (unat D) = sint D" "unat D < 2 ^ 63" using abs r \<open>unat D = nat (sint D)\<close> by (simp_all only: nat_less_iff) simp
    have "unat D div d \<le> unat D" by simp
    then have "unat (drop_bit n (mulhi D M)) < 2 ^ 63" using q [of D] a(2) by linarith
    then have "sint (drop_bit n (mulhi D M)) = int (unat D div d)"
      using q [of D] a(2) by (simp only: sint_small(1))
    moreover have "sint D = 0 \<or> 0 < sint D" using False by linarith
    ultimately show ?thesis using a(1) assms(3)
      by (auto simp: MagicDivide_mulhi n signed_divide_int_def zdiv_int)
  qed
qed

lemma Magic10000_exact: "sint (RtlExtendedMagicDivide D Magic10000 13) = sint D sdiv 10000"
  using MagicDivide_exact [of Magic10000 10000 13 1728 D] by (simp add: Magic10000_def)

lemma Magic86400000_exact: "sint (RtlExtendedMagicDivide D Magic86400000 26) = sint D sdiv 86400000"
  using MagicDivide_exact [of Magic86400000 86400000 26 76875776 D] by (simp add: Magic86400000_def)

text \<open>For every signed 64-bit dividend, the division by the reciprocals that the time
  conversion uses is the division by 10000 and by 86400000, rounded towards zero.\<close>

theorem rtl_magic_divide:
  "sint (RtlExtendedMagicDivide D Magic10000 13) = sint D sdiv 10000
   \<and> sint (RtlExtendedMagicDivide D Magic86400000 26) = sint D sdiv 86400000"
  by (simp add: Magic10000_exact Magic86400000_exact)

end
