(* ===== verification/Rtl_Time.thy ===== *)
theory Rtl_Time
  imports Rtl_Arith
begin

text \<open>
  Calendar conversion of the run-time library (\<open>RtlTimeFieldsToTime\<close> and
  \<open>RtlTimeToTimeFields\<close> of \<open>EmuKrnlRtl.cpp\<close>).

  A time is a count of 100-nanosecond ticks since 1601-01-01. The code counts years from March, so
  that leap days come last, and reads day numbers off three linear formulas. The theorems compare
  them with the calendar itself (\<open>calendar_day\<close> adds up the lengths of the years and months before
  a date) and show that the two conversions are inverse.
\<close>

section \<open>The code\<close>

record TIME_FIELDS =
  Year :: u16
  Month :: u16
  Day :: u16
  Hour :: u16
  Minute :: u16
  Second :: u16
  Millisecond :: u16
  Weekday :: u16

definition MonthLengths :: "int list list" where
  "MonthLengths = [[31, 28, 31, 30, 31, 30, 31, 31, 30, 31, 30, 31],
                   [31, 29, 31, 30, 31, 30, 31, 31, 30, 31, 30, 31]]"

definition IsLeapYear :: "int \<Rightarrow> bool" where
  "IsLeapYear y \<longleftrightarrow> y mod 4 = 0 \<and> (y mod 100 \<noteq> 0 \<or> y mod 400 = 0)"

text \<open>The checks: the fields are unsigned, so their comparisons with zero never fail.\<close>

definition time_fields_ok :: "TIME_FIELDS \<Rightarrow> bool" where
  "time_fields_ok t \<longleftrightarrow>
     Millisecond t \<le> 999 \<and> Second t \<le> 59 \<and> Minute t \<le> 59 \<and> Hour t \<le> 23
     \<and> 1 \<le> Month t \<and> Month t \<le> 12 \<and> 1 \<le> Day t
     \<and> uint (Day t) \<le> MonthLengths ! of_bool (IsLeapYear (uint (Year t))) ! unat (Month t - 1)
     \<and> 1601 \<le> Year t"

text \<open>The day count is computed in \<open>int\<close>: 32 bits, division towards zero.\<close>

definition i32 :: "int \<Rightarrow> int" where
  "i32 x = signed_take_bit 31 x"

definition day_number :: "int \<Rightarrow> int \<Rightarrow> int \<Rightarrow> int" where
  "day_number Y M D =
     (let month = (if M < 3 then M + 13 else M + 1);
          year = (if M < 3 then Y - 1 else Y);
          cleaps = (3 * (year sdiv 100) + 3) sdiv 4
      in i32 (i32 (36525 * year) sdiv 100 - cleaps + (1959 * month) sdiv 64 + D - 584817))"

definition RtlTimeFieldsToTime :: "TIME_FIELDS \<Rightarrow> u64 option" where
  "RtlTimeFieldsToTime t =
     (if \<not> time_fields_ok t then None
      else let day = day_number (uint (Year t)) (uint (Month t)) (uint (Day t));
               q = word_of_int (i32 (day * 24));
               q = (q + ucast (Hour t)) * 60;
               q = (q + ucast (Minute t)) * 60;
               q = (q + ucast (Second t)) * 1000;
               q = (q + ucast (Millisecond t)) * 10000
           in Some q)"

text \<open>The second half of \<open>RtlTimeToTimeFields\<close>: year, month and day of a day count.\<close>

definition date_of_days :: "int \<Rightarrow> u16 \<times> u16 \<times> u16" where
  "date_of_days Days0 =
     (let cleaps = (3 * ((4 * Days0 + 1227) div 146097) + 3) div 4;
          Days = Days0 + 28188 + cleaps;
          years = (20 * Days - 2442) div (5 * 1461);
          yearday = Days - (years * 1461) div 4;
          months = (64 * yearday) div 1959
      in (word_of_int (if months < 14 then years + 1524 else years + 1525),
          word_of_int (if months < 14 then months - 1 else months - 13),
          word_of_int (yearday - (1959 * months) div 64)))"

definition RtlTimeToTimeFields :: "u64 \<Rightarrow> TIME_FIELDS" where
  "RtlTimeToTimeFields Time =
     (let ms = RtlExtendedMagicDivide Time Magic10000 13;
          Days = uint (LowPart (RtlExtendedMagicDivide ms Magic86400000 26));
          ms = ms - word_of_int (Days * 86400 * 1000);
          RemainderTime = LowPart ms div 1000;
          (y, m, d) = date_of_days Days
      in \<lparr>Year = y, Month = m, Day = d,
           Hour = ucast (RemainderTime div 60 div 60),
           Minute = ucast (RemainderTime div 60 mod 60),
           Second = ucast (RemainderTime mod 60),
           Millisecond = ucast (LowPart ms mod 1000),
           Weekday = word_of_int ((1 + Days) mod 7)\<rparr>)"

section \<open>The calendar\<close>

text \<open>Day 0 is 1601-01-01.\<close>

definition days_before_year :: "nat \<Rightarrow> int" where
  "days_before_year y = (\<Sum>i\<leftarrow>[1601..<y]. if IsLeapYear (int i) then 366 else 365)"

definition calendar_day :: "nat \<Rightarrow> nat \<Rightarrow> nat \<Rightarrow> int" where
  "calendar_day y m d = days_before_year y
     + sum_list (take (m - 1) (MonthLengths ! of_bool (IsLeapYear (int y)))) + int d - 1"

lemma days_before_year_Suc:
  "1601 \<le> y \<Longrightarrow> days_before_year (Suc y) = days_before_year y + (if IsLeapYear (int y) then 366 else 365)"
  by (simp add: days_before_year_def)

text \<open>The two year terms of the formula together, for a year that starts in March.\<close>

definition year_days :: "int \<Rightarrow> int" where
  "year_days Y = 365 * Y + Y div 4 - (3 * (Y div 100) + 3) div 4"

lemma year_days_step: "year_days Y - year_days (Y - 1) = (if IsLeapYear Y then 366 else 365)"
proof -
  have p: "(Y - 1) div n = (if Y mod n = 0 then Y div n - 1 else Y div n)" if "1 < n" for n
  proof (cases "Y mod n = 0")
    case True
    then have "Y - 1 = n * (Y div n - 1) + (n - 1)" using div_mult_mod_eq [of Y n] by (simp add: algebra_simps)
    from int_div_pos_eq [OF this] show ?thesis using that True by simp
  next
    case False
    then have "0 \<le> Y mod n - 1" "Y mod n - 1 < n" using that pos_mod_bound [of n Y] pos_mod_sign [of n Y] by linarith+
    moreover have "Y - 1 = n * (Y div n) + (Y mod n - 1)" using mult_div_mod_eq [of n Y] by linarith
    from int_div_pos_eq [OF this] calculation show ?thesis using False by simp
  qed
  have q: "Y div 4 - (Y - 1) div 4 = (if Y mod 4 = 0 then 1 else 0)" using p [of 4] by simp
  note c = p [of 100, simplified]
  define K where "K c = (3 * c + 3) div 4" for c :: int
  have k: "K c - K (c - 1) = (if c mod 4 = 0 then 0 else 1)" for c
    unfolding K_def by presburger
  have h: "Y mod 400 = 0 \<longleftrightarrow> Y mod 100 = 0 \<and> Y div 100 mod 4 = 0"
    using zmod_zmult2_eq [of 4 Y 100] by auto
  have f: "Y mod 100 = 0 \<Longrightarrow> Y mod 4 = 0" using mod_mod_cancel [of 4 100 Y] by simp
  have "year_days Y - year_days (Y - 1)
      = 365 + (Y div 4 - (Y - 1) div 4) - (K (Y div 100) - K ((Y - 1) div 100))"
  proof -
    have "365 * Y + a - b - (365 * (Y - 1) + a' - b') = 365 + (a - a') - (b - b')" for a b a' b' :: int
      by simp
    then show ?thesis unfolding year_days_def K_def .
  qed
  also have "\<dots> = (if IsLeapYear Y then 366 else 365)"
    unfolding q IsLeapYear_def h
    by (cases "Y mod 100 = 0") (simp_all add: c f k)
  finally show ?thesis .
qed

lemma days_before_year: "1601 \<le> y \<Longrightarrow> days_before_year y = year_days (int y - 1) - 584388"
proof (induction y rule: nat_induct_at_least)
  case base
  show ?case by (simp add: days_before_year_def year_days_def)
next
  case (Suc n)
  have n: "int (Suc n) - 1 = int n" by simp
  show ?case unfolding days_before_year_Suc [OF Suc.hyps] Suc.IH n
    by (simp add: year_days_step [symmetric])
qed

lemma sdiv_nonneg: "0 \<le> a \<Longrightarrow> 0 < n \<Longrightarrow> a sdiv n = a div n" for a n :: int
  by (cases "a = 0") (simp_all add: signed_divide_int_def)

lemma quarter_years: "(1461 * Y) div 4 = 365 * Y + Y div 4" for Y :: int
proof -
  have "1461 * Y = Y + 4 * (365 * Y)" by simp
  then show ?thesis by (simp only: div_mult_self2)
qed

lemma century_years: "(36525 * Y) div 100 = 365 * Y + Y div 4" for Y :: int
proof -
  have "(36525 * Y) div 100 = (25 * (1461 * Y)) div (25 * 4)" by simp
  then show ?thesis by (simp only: div_mult_mult1 quarter_years)
qed

lemma i32_small: "- (2 ^ 31) \<le> x \<Longrightarrow> x < 2 ^ 31 \<Longrightarrow> i32 x = x"
  by (simp add: i32_def signed_take_bit_int_eq_self)

lemma year_days_bounds:
  assumes "1600 \<le> Y" "Y \<le> 30827"
  shows "0 \<le> year_days Y" "year_days Y \<le> 365 * Y + Y div 4" "year_days Y \<le> 11259561"
proof -
  have "(3 * (Y div 100) + 3) div 4 \<le> Y div 4"
  proof (rule zdiv_mono1)
    have "100 * (Y div 100) \<le> Y" using mult_div_mod_eq [of 100 Y] pos_mod_sign [of 100 Y] by linarith
    then show "3 * (Y div 100) + 3 \<le> Y" using assms(1) by linarith
  qed simp
  then show "0 \<le> year_days Y" using assms unfolding year_days_def by simp
  have "0 \<le> (3 * (Y div 100) + 3) div 4" using assms by (simp add: pos_imp_zdiv_nonneg_iff)
  then show "year_days Y \<le> 365 * Y + Y div 4" unfolding year_days_def by simp
  moreover have "Y div 4 \<le> 30827 div 4" using assms by (intro zdiv_mono1) simp_all
  ultimately show "year_days Y \<le> 11259561" using assms by simp
qed

text \<open>The arithmetic of the code without its machine integers.\<close>

lemma day_number_years:
  assumes "1601 \<le> Y" "Y \<le> 30827" "1 \<le> M" "M \<le> 12" "0 \<le> D" "D \<le> 31"
  shows "day_number Y M D = (if M < 3 then year_days (Y - 1) + (1959 * (M + 13)) div 64
      else year_days Y + (1959 * (M + 1)) div 64) + D - 584817"
proof -
  define y where "y = (if M < 3 then Y - 1 else Y)"
  define m where "m = (if M < 3 then M + 13 else M + 1)"
  have y: "1600 \<le> y" "y \<le> 30827" and m: "4 \<le> m" "m \<le> 15" using assms by (auto simp: y_def m_def)
  have "0 \<le> (1959 * m) div 64" "(1959 * m) div 64 \<le> (1959 * 15) div 64"
    using m zdiv_mono1 [of "1959 * m" "1959 * 15" 64] by (auto simp: pos_imp_zdiv_nonneg_iff)
  then have i: "i32 (year_days y + (1959 * m) div 64 + D - 584817) = year_days y + (1959 * m) div 64 + D - 584817"
    using year_days_bounds [OF y] assms by (intro i32_small) simp_all
  have e: "i32 (36525 * y) = 36525 * y" using y by (intro i32_small) simp_all
  have c: "0 \<le> y div 100" using y by (simp add: pos_imp_zdiv_nonneg_iff)
  have "day_number Y M D = i32 ((36525 * y) div 100 - (3 * (y div 100) + 3) div 4 + (1959 * m) div 64 + D - 584817)"
    using y m c e by (simp add: day_number_def Let_def sdiv_nonneg flip: y_def m_def)
  also have "\<dots> = year_days y + (1959 * m) div 64 + D - 584817"
    using i unfolding century_years year_days_def by simp
  finally show ?thesis by (simp add: y_def m_def)
qed

lemma month_cases:
  assumes "1 \<le> m" "m \<le> (12 :: nat)"
  obtains "m = 1" | "m = 2" | "m = 3" | "m = 4" | "m = 5" | "m = 6" | "m = 7" | "m = 8" | "m = 9"
    | "m = 10" | "m = 11" | "m = 12"
proof -
  have "m \<in> {1..12}" using assms by simp
  also have "{1..12} = {1, 2, 3, 4, 5, 6, 7, 8, 9, 10, 11, 12 :: nat}" by (rule set_eqI) (simp, presburger)
  finally show thesis using that by blast
qed

lemma month_offset:
  assumes "1 \<le> m" "m \<le> (12 :: nat)"
  shows "(if m < 3 then 0 else if L then 366 else 365)
      + (1959 * (if m < 3 then int m + 13 else int m + 1)) div 64
    = 428 + sum_list (take (m - 1) (MonthLengths ! of_bool L))"
  using assms by (rule month_cases) (simp_all add: MonthLengths_def)

lemma day_number_calendar:
  assumes "1601 \<le> y" "y \<le> 30827" "1 \<le> m" "m \<le> 12" "d \<le> 31"
  shows "day_number (int y) (int m) (int d) = calendar_day y m d"
proof -
  have s: "year_days (int y) = year_days (int y - 1) + (if IsLeapYear (int y) then 366 else 365)"
    using year_days_step [of "int y"] by linarith
  have "day_number (int y) (int m) (int d)
      = year_days (int y - 1) + ((if m < 3 then 0 else if IsLeapYear (int y) then 366 else 365)
        + (1959 * (if m < 3 then int m + 13 else int m + 1)) div 64) + int d - 584817"
    using day_number_years [of "int y" "int m" "int d"] assms s by simp
  then show ?thesis
    unfolding month_offset [OF assms(3,4)] calendar_day_def days_before_year [OF assms(1)] by simp
qed

section \<open>From a day number back to the date\<close>

text \<open>The inverse formulas, for a year \<open>Y\<close> from March and a day \<open>x\<close> of it (day 123 is March 1st).\<close>

lemma century_of_day:
  assumes "1600 \<le> Y" "123 \<le> x" "x \<le> 488" "x = 488 \<Longrightarrow> IsLeapYear (Y + 1)"
  shows "(4 * (year_days Y + x - 584817) + 1227) div 146097 = Y div 100 - 16"
proof -
  define c where "c = Y div 100"
  define u where "u = Y mod 100"
  define t where "t = (3 * c + 3) mod 4"
  have Y: "Y = 4 * (25 * c) + u" and u: "0 \<le> u" "u < 100" using mult_div_mod_eq [of 100 Y] by (simp_all add: c_def u_def)
  have q: "Y div 4 = 25 * c + u div 4" unfolding Y by (simp only: div_mult_self4)
  have k: "4 * ((3 * c + 3) div 4) = 3 * c + 3 - t" "0 \<le> t" "t \<le> 3"
    using pos_mod_bound [of 4 "3 * c + 3"] by (simp_all add: t_def minus_mod_eq_mult_div [symmetric])
  define v where "v = u div 4"
  define r where "r = 1460 * u + 4 * v + t - 3 + 4 * x - 489"
  have v: "0 \<le> v" "v \<le> 24" using u zdiv_mono1 [of u 99 4] by (simp_all add: v_def pos_imp_zdiv_nonneg_iff)
  have "r < 146097"
  proof (cases "x = 488 \<and> u = 99")
    case True
    then have l: "IsLeapYear (100 * c + 100)" using assms(4) Y by (simp add: add.commute)
    have "(100 * c + 100) mod 100 = 0" by simp
    then have "(100 * c + 100) mod 400 = 0" using l by (simp add: IsLeapYear_def)
    moreover have "(100 * c + 100) mod 400 = 100 * ((c + 1) mod 4)"
      using mult_mod_right [of 100 "c + 1" 4] by (simp add: algebra_simps)
    ultimately have "(c + 1) mod 4 = 0" by simp
    then have "t = 0" unfolding t_def by presburger
    then show ?thesis using True v by (simp add: r_def)
  next
    case False
    then have "1460 * u + 4 * x \<le> 1460 * 99 + 4 * 487" using u assms(3) by linarith
    then show ?thesis using v k by (simp add: r_def)
  qed
  moreover have "0 \<le> r" using u v k assms by (simp add: r_def)
  moreover have "4 * (year_days Y + x - 584817) + 1227 = 146097 * (c - 16) + r"
    unfolding year_days_def q c_def [symmetric] r_def using k(1) Y by (simp add: v_def)
  ultimately show ?thesis using int_div_pos_eq c_def by simp
qed

lemma date_of_days_core:
  assumes "1600 \<le> Y" "4 \<le> m" "m \<le> 15" "1 \<le> d" "x = (1959 * m) div 64 + d" "123 \<le> x" "x \<le> 488"
    and "x = 488 \<Longrightarrow> IsLeapYear (Y + 1)" and "64 * x < 1959 * (m + 1)"
  shows "date_of_days (year_days Y + x - 584817)
    = (if m < 14 then (word_of_int Y, word_of_int (m - 1), word_of_int d)
       else (word_of_int (Y + 1), word_of_int (m - 13), word_of_int d))"
proof -
  define z where "z = Y - 1524"
  have q: "Y div 4 = z div 4 + 381" using div_mult_self1 [of 4 z 381] by (simp add: z_def)
  define k where "k = (3 * (Y div 100) + 3) div 4"
  have c: "(3 * (Y div 100 - 16) + 3) div 4 = k - 12"
  proof -
    have "3 * (Y div 100 - 16) + 3 = (3 * (Y div 100) + 3) + (- 12) * 4" by simp
    then show ?thesis unfolding k_def by (simp only: div_mult_self1)
  qed
  have D: "year_days Y + x - 584817 + 28188 + (k - 12) = 365 * z + z div 4 + x"
    unfolding year_days_def k_def [symmetric] q by (simp add: z_def)
  define s where "s = z mod 4"
  define n where "n = z div 4"
  have z: "z = 4 * n + s" "0 \<le> s" "s \<le> 3" by (simp_all add: s_def n_def)
  have "20 * (365 * z + z div 4 + x) - 2442 = 7305 * z + (20 * x - 5 * s - 2442)"
    unfolding n_def [symmetric] by (simp add: z(1))
  moreover have "20 * x - 5 * s - 2442 < 7305"
  proof (cases "x = 488")
    case True
    then have "(Y + 1) mod 4 = 0" using assms(8) by (simp add: IsLeapYear_def)
    then have "s = 3" unfolding s_def z_def by presburger
    then show ?thesis using True by simp
  qed (use assms z in simp)
  moreover have "0 \<le> 20 * x - 5 * s - 2442" using assms z by simp
  ultimately have y: "(20 * (365 * z + z div 4 + x) - 2442) div (5 * 1461) = z"
    using int_div_pos_eq [of _ 7305 z] by simp
  have yd: "365 * z + z div 4 + x - z * 1461 div 4 = x"
    using quarter_years [of z] by (simp add: mult.commute)
  have mo: "64 * x div 1959 = m"
  proof (rule int_div_pos_eq)
    have "64 * ((1959 * m) div 64) = 1959 * m - (1959 * m) mod 64" "(1959 * m) mod 64 < 64"
      by (simp_all add: minus_mod_eq_mult_div [symmetric])
    then have "1959 * m \<le> 64 * x" using assms by simp
    then show "0 \<le> 64 * x - 1959 * m" by simp
  qed (use assms(9) in simp_all)
  have ce: "(4 * (year_days Y + x - 584817) + 1227) div 146097 = Y div 100 - 16"
    using assms(1,6,7,8) by (rule century_of_day)
  have x: "x - 1959 * m div 64 = d" using assms(5) by simp
  show ?thesis
    unfolding date_of_days_def Let_def ce c D y yd mo x
    by (simp add: z_def)
qed

section \<open>Dates and times\<close>

lemma month_length_bound:
  assumes "1 \<le> m" "m \<le> (12 :: nat)" and "int d \<le> MonthLengths ! of_bool L ! (m - 1)"
  shows "d \<le> 31"
  using assms(1,2)
  by (rule month_cases; cases L; use assms(3) in \<open>simp add: MonthLengths_def\<close>)

lemma month_days:
  fixes d m :: nat and L :: bool
  assumes "1 \<le> m" "m \<le> 12" "1 \<le> d" and "int d \<le> MonthLengths ! of_bool L ! (m - 1)"
  defines "k \<equiv> if m < 3 then int m + 13 else int m + 1"
  defines "x \<equiv> (1959 * k) div 64 + int d"
  shows "123 \<le> x \<and> x \<le> 488 \<and> (x = 488 \<longrightarrow> m = 2 \<and> L) \<and> 64 * x < 1959 * (k + 1) \<and> (3 \<le> m \<longrightarrow> x \<le> 428)"
  using assms(1,2)
  by (rule month_cases; cases L; use assms(3,4) in \<open>simp add: MonthLengths_def x_def k_def\<close>)

lemma date_of_calendar_day:
  assumes "1601 \<le> y" "y \<le> 30827" "1 \<le> m" "m \<le> 12" "1 \<le> d"
    and "int d \<le> MonthLengths ! of_bool (IsLeapYear (int y)) ! (m - 1)"
  shows "date_of_days (calendar_day y m d) = (word_of_nat y, word_of_nat m, word_of_nat d)"
    and "0 \<le> calendar_day y m d" and "calendar_day y m d < 10675199"
proof -
  have d31: "d \<le> 31" using month_length_bound [OF assms(3,4,6)] .
  define Y where "Y = (if m < 3 then int y - 1 else int y)"
  define k where "k = (if m < 3 then int m + 13 else int m + 1)"
  define x where "x = (1959 * k) div 64 + int d"
  have c: "calendar_day y m d = year_days Y + x - 584817"
    using day_number_years [of "int y" "int m" "int d"] day_number_calendar [of y m d] assms d31
    by (simp add: Y_def k_def x_def)
  have Y: "1600 \<le> Y" "Y \<le> 30827" and k: "4 \<le> k" "k \<le> 15" using assms by (auto simp: Y_def k_def)
  note md = month_days [OF assms(3-6), folded k_def, folded x_def]
  have x: "x = 488 \<Longrightarrow> IsLeapYear (Y + 1)" using md by (simp add: Y_def)
  show "date_of_days (calendar_day y m d) = (word_of_nat y, word_of_nat m, word_of_nat d)"
    unfolding c using date_of_days_core [OF Y(1) k(1,2) _ x_def _ _ x] md assms
    by (auto simp: Y_def k_def split: if_splits)
  have "0 \<le> days_before_year y" unfolding days_before_year_def by (intro sum_list_nonneg) auto
  moreover have "0 \<le> sum_list (take (m - 1) (MonthLengths ! of_bool (IsLeapYear (int y))))"
    using assms(3,4) by (rule_tac month_cases) (auto simp: MonthLengths_def)
  ultimately show "0 \<le> calendar_day y m d" using assms(5) by (simp add: calendar_day_def)
  have "year_days Y \<le> 365 * Y + Y div 4" using year_days_bounds Y by blast
  moreover have "Y div 4 \<le> 7706" using Y zdiv_mono1 [of Y 30827 4] by simp
  moreover have "365 * Y + x \<le> 11252283"
    using assms(2) md by (cases "m < 3") (simp_all add: Y_def)
  ultimately show "calendar_day y m d < 10675199" unfolding c by linarith
qed

text \<open>The ticks of a time of day on a day.\<close>

definition ticks :: "int \<Rightarrow> TIME_FIELDS \<Rightarrow> int" where
  "ticks day t = ((((day * 24 + uint (Hour t)) * 60 + uint (Minute t)) * 60 + uint (Second t)) * 1000
     + uint (Millisecond t)) * 10000"

definition date_day :: "TIME_FIELDS \<Rightarrow> int" where
  "date_day t = calendar_day (unat (Year t)) (unat (Month t)) (unat (Day t))"

lemma time_fields_date:
  assumes "time_fields_ok t" "Year t \<le> 30827"
  shows "date_of_days (date_day t) = (Year t, Month t, Day t)" "0 \<le> date_day t" "date_day t < 10675199"
    and "day_number (uint (Year t)) (uint (Month t)) (uint (Day t)) = date_day t"
proof -
  have b: "1601 \<le> unat (Year t)" "unat (Year t) \<le> 30827" "1 \<le> unat (Month t)" "unat (Month t) \<le> 12"
    "1 \<le> unat (Day t)"
    using assms by (simp_all add: time_fields_ok_def word_le_nat_alt)
  have l: "int (unat (Day t)) \<le> MonthLengths ! of_bool (IsLeapYear (int (unat (Year t)))) ! (unat (Month t) - 1)"
    using assms b(3) by (simp add: time_fields_ok_def unat_sub word_le_nat_alt)
  note cd = date_of_calendar_day [OF b l]
  show "date_of_days (date_day t) = (Year t, Month t, Day t)"
    using cd(1) by (simp only: date_day_def) simp
  show "0 \<le> date_day t" "date_day t < 10675199" using cd(2,3) by (simp_all only: date_day_def)
  show "day_number (uint (Year t)) (uint (Month t)) (uint (Day t)) = date_day t"
    using day_number_calendar [OF b(1-4) month_length_bound [OF b(3,4) l]] by (simp add: date_day_def)
qed

lemma RtlTimeFieldsToTime_ticks:
  assumes "time_fields_ok t" "Year t \<le> 30827"
  shows "RtlTimeFieldsToTime t = Some (word_of_int (ticks (date_day t) t))"
proof -
  note d = time_fields_date [OF assms]
  have "i32 (date_day t * 24) = date_day t * 24" using d(2,3) by (intro i32_small) simp_all
  then show ?thesis using assms(1)
    by (simp add: RtlTimeFieldsToTime_def Let_def d(4) ticks_def)
qed

lemma time_of_day:
  assumes "time_fields_ok t"
  shows "uint (Hour t) < 24" "uint (Minute t) < 60" "uint (Second t) < 60" "uint (Millisecond t) < 1000"
  using assms by (auto simp: time_fields_ok_def word_le_def)

lemma LowPart_of_int: "0 \<le> k \<Longrightarrow> k < 2 ^ 32 \<Longrightarrow> uint (LowPart (word_of_int k)) = k"
  by (simp add: LowPart_def unsigned_ucast_eq uint_word_of_int take_bit_eq_mod mod_mod_cancel)

lemma sint_of_int64: "0 \<le> k \<Longrightarrow> k < 2 ^ 63 \<Longrightarrow> sint (word_of_int k :: u64) = k"
  by (simp add: sint_sbintrunc' signed_take_bit_int_eq_self)

lemma word_of_sint: "sint w = k \<Longrightarrow> w = word_of_int k" for w :: u64
  by (metis of_int_sint scast_id)

lemma ticks_bounds:
  assumes "time_fields_ok t" "0 \<le> n" "n < 10675199"
  shows "0 \<le> ticks n t" "ticks n t < 2 ^ 63"
  using assms(2,3) time_of_day [OF assms(1)] by (simp_all add: ticks_def)

text \<open>C40: A date that \<open>RtlTimeFieldsToTime\<close> accepts, up to the year 30827, is converted to the
  number of 100-nanosecond ticks since 1601-01-01 that the calendar gives, without overflow; and it
  accepts every date of that range whose fields are in the ranges of the calendar.\<close>

theorem rtl_time_calendar:
  assumes "Year t \<le> 30827"
  shows "(case RtlTimeFieldsToTime t of None \<Rightarrow> \<not> time_fields_ok t
    | Some q \<Rightarrow> time_fields_ok t \<and> sint q = ticks (date_day t) t)"
proof (cases "time_fields_ok t")
  case True
  note d = time_fields_date [OF True assms]
  show ?thesis using True RtlTimeFieldsToTime_ticks [OF True assms] ticks_bounds [OF True d(2,3)]
    by (simp add: sint_of_int64)
qed (simp add: RtlTimeFieldsToTime_def)

definition sample_time :: TIME_FIELDS where
  "sample_time = \<lparr>Year = 2000, Month = 2, Day = 29, Hour = 23, Minute = 59, Second = 58, Millisecond = 7, Weekday = 0\<rparr>"

lemma sample_time_day: "time_fields_ok sample_time" "date_day sample_time = 145790"
  by (simp_all add: sample_time_def time_fields_ok_def MonthLengths_def IsLeapYear_def date_day_def calendar_day_def
      days_before_year year_days_def)

theorem rtl_time_calendar_witness:
  "\<exists>q. RtlTimeFieldsToTime sample_time = Some q \<and> sint q = 125963423980070000"
proof -
  have "Year sample_time \<le> 30827" by (simp add: sample_time_def)
  from rtl_time_calendar [OF this] sample_time_day show ?thesis
    by (auto simp: ticks_def sample_time_def split: option.splits)
qed

lemma fields_of_milliseconds:
  fixes h mi s ms :: int
  assumes "0 \<le> h" "h < 24" "0 \<le> mi" "mi < 60" "0 \<le> s" "s < 60" "0 \<le> ms" "ms < 1000"
  defines "n \<equiv> ((h * 60 + mi) * 60 + s) * 1000 + ms"
  shows "n mod 1000 = ms" "n div 1000 mod 60 = s" "n div 1000 div 60 mod 60 = mi" "n div 1000 div 60 div 60 = h"
    "0 \<le> n" "n < 86400000"
proof -
  have s: "n div 1000 = (h * 60 + mi) * 60 + s" "n mod 1000 = ms"
    using int_div_pos_eq [of n 1000 "(h * 60 + mi) * 60 + s" ms] int_mod_pos_eq [of n 1000 "(h * 60 + mi) * 60 + s" ms]
      assms(7,8) by (simp_all add: n_def)
  have mi: "((h * 60 + mi) * 60 + s) div 60 = h * 60 + mi" "((h * 60 + mi) * 60 + s) mod 60 = s"
    using int_div_pos_eq [of "(h * 60 + mi) * 60 + s" 60 "h * 60 + mi" s]
      int_mod_pos_eq [of "(h * 60 + mi) * 60 + s" 60 "h * 60 + mi" s] assms(5,6) by simp_all
  have h: "(h * 60 + mi) div 60 = h" "(h * 60 + mi) mod 60 = mi"
    using int_div_pos_eq [of "h * 60 + mi" 60 h mi] int_mod_pos_eq [of "h * 60 + mi" 60 h mi] assms(3,4)
    by simp_all
  show "n mod 1000 = ms" "n div 1000 mod 60 = s" "n div 1000 div 60 mod 60 = mi" "n div 1000 div 60 div 60 = h"
    by (simp_all only: s mi h)
  show "0 \<le> n" "n < 86400000" using assms by (simp_all add: n_def)
qed

lemma u16_of_u32: "uint w = uint v \<Longrightarrow> ucast w = v" for w :: u32 and v :: u16
  by (metis ucast_eq word_of_int_uint)

text \<open>C23: Converting an accepted date up to the year 30827 to a time and back gives the same date
  and time of day, with the weekday filled in; 1601-01-01 was a Monday.\<close>

theorem rtl_time_roundtrip:
  assumes "Year t \<le> 30827" and "RtlTimeFieldsToTime t = Some q"
  shows "RtlTimeToTimeFields q = t\<lparr>Weekday := word_of_int ((1 + date_day t) mod 7)\<rparr>"
proof -
  have ok: "time_fields_ok t" using assms(2) by (auto simp: RtlTimeFieldsToTime_def split: if_splits)
  note d = time_fields_date [OF ok assms(1)]
  define n where "n = ((uint (Hour t) * 60 + uint (Minute t)) * 60 + uint (Second t)) * 1000 + uint (Millisecond t)"
  note f = fields_of_milliseconds [of "uint (Hour t)" "uint (Minute t)" "uint (Second t)" "uint (Millisecond t)",
      OF _ time_of_day(1) [OF ok] _ time_of_day(2) [OF ok] _ time_of_day(3) [OF ok] _ time_of_day(4) [OF ok],
      folded n_def, simplified]
  have tk: "ticks (date_day t) t = (date_day t * 86400000 + n) * 10000" by (simp add: ticks_def n_def)
  have q: "sint q = (date_day t * 86400000 + n) * 10000"
  proof -
    have "q = word_of_int (ticks (date_day t) t)"
      using assms(2) RtlTimeFieldsToTime_ticks [OF ok assms(1)] by simp
    then show ?thesis using sint_of_int64 [OF ticks_bounds [OF ok d(2,3)]] tk by simp
  qed
  let ?ms = "RtlExtendedMagicDivide q Magic10000 13"
  let ?days = "RtlExtendedMagicDivide ?ms Magic86400000 26"
  have ms: "sint ?ms = date_day t * 86400000 + n"
    using d(2) f(5) by (simp only: Magic10000_exact q) (simp add: sdiv_nonneg)
  have "sint ?days = date_day t"
    using d(2) f(5,6) by (simp only: Magic86400000_exact ms) (simp add: sdiv_nonneg)
  then have w: "?days = word_of_int (date_day t)" by (rule word_of_sint)
  have days: "uint (LowPart ?days) = date_day t"
    unfolding w using LowPart_of_int [OF d(2)] d(3) by simp
  define ms where "ms = ?ms - word_of_int (date_day t * 86400 * 1000)"
  have "ms = word_of_int (date_day t * 86400000 + n) - word_of_int (date_day t * 86400 * 1000)"
    unfolding ms_def word_of_sint [OF ms] ..
  also have "\<dots> = word_of_int n" by (simp flip: of_int_diff)
  finally have low: "uint (LowPart ms) = n" using LowPart_of_int [of n] f(5,6) by simp
  have "ucast (LowPart ms mod 1000) = Millisecond t" "ucast (LowPart ms div 1000 mod 60) = Second t"
    "ucast (LowPart ms div 1000 div 60 mod 60) = Minute t" "ucast (LowPart ms div 1000 div 60 div 60) = Hour t"
    using f(1-4) by (auto intro!: u16_of_u32 simp: uint_div uint_mod low)
  then show ?thesis
    unfolding RtlTimeToTimeFields_def Let_def days ms_def [symmetric] d(1) by simp
qed

theorem rtl_time_roundtrip_witness:
  "\<exists>q. RtlTimeFieldsToTime sample_time = Some q \<and> RtlTimeToTimeFields q = sample_time\<lparr>Weekday := 2\<rparr>"
proof -
  have y: "Year sample_time \<le> 30827" by (simp add: sample_time_def)
  obtain q where q: "RtlTimeFieldsToTime sample_time = Some q"
    using RtlTimeFieldsToTime_ticks [OF sample_time_day(1) y] by blast
  from rtl_time_roundtrip [OF y q] q show ?thesis by (simp add: sample_time_day)
qed

end
