(* ===== verification/Rtl_Text.thy ===== *)
theory Rtl_Text
  imports Cxbx_Prelude
begin

text \<open>
  Characters, numbers and counted strings of the run-time library (\<open>EmuKrnlRtl.cpp\<close>).

  A counted string is a record with its lengths in bytes and the characters of its buffer, 8-bit for
  \<open>STRING\<close> and 16-bit for \<open>UNICODE_STRING\<close>. An operation on a destination string is a \<open>run\<close> whose
  state is the destination; it faults where the code would leave a buffer. A C string is the list of
  its bytes without the terminator, so the end of the list is read as NUL. \<open>char\<close> is signed.
\<close>

section \<open>Status codes and characters\<close>

definition STATUS_SUCCESS :: u32 where "STATUS_SUCCESS = 0"
definition STATUS_BUFFER_OVERFLOW :: u32 where "STATUS_BUFFER_OVERFLOW = 0x80000005"
definition STATUS_INVALID_PARAMETER :: u32 where "STATUS_INVALID_PARAMETER = 0xC000000D"
definition STATUS_INVALID_PARAMETER_2 :: u32 where "STATUS_INVALID_PARAMETER_2 = 0xC00000F0"
definition STATUS_BUFFER_TOO_SMALL :: u32 where "STATUS_BUFFER_TOO_SMALL = 0xC0000023"
definition STATUS_ACCESS_VIOLATION :: u32 where "STATUS_ACCESS_VIOLATION = 0xC0000005"

lemmas status_defs = STATUS_SUCCESS_def STATUS_BUFFER_OVERFLOW_def STATUS_INVALID_PARAMETER_def
  STATUS_INVALID_PARAMETER_2_def STATUS_BUFFER_TOO_SMALL_def STATUS_ACCESS_VIOLATION_def

definition RtlLowerChar :: "u8 \<Rightarrow> u8" where
  "RtlLowerChar c =
     (if 0x41 \<le> c \<and> c \<le> 0x5A then c XOR 0x20
      else if 0xC0 \<le> c \<and> c \<le> 0xDE \<and> c \<noteq> 0xD7 then c XOR 0x20
      else c)"

definition RtlUpperChar :: "u8 \<Rightarrow> u8" where
  "RtlUpperChar c =
     (if 0x61 \<le> c \<and> c \<le> 0x7A then c XOR 0x20
      else if 0xE0 \<le> c \<and> c \<le> 0xFE \<and> c \<noteq> 0xF7 then c XOR 0x20
      else if c = 0xFF then 0x3F
      else c)"

definition RtlUshortByteSwap :: "u16 \<Rightarrow> u16" where
  "RtlUshortByteSwap s = drop_bit 8 s OR push_bit 8 (s AND 0xFF)"

section \<open>Numbers\<close>

text \<open>The value of a digit, -1 for a character that is none. Comparisons are on the signed character.\<close>

definition digit_value :: "int \<Rightarrow> int" where
  "digit_value c =
     (if 0x30 \<le> c \<and> c \<le> 0x39 then c - 0x30
      else if 0x41 \<le> c \<and> c \<le> 0x5A then c - 0x41 + 10
      else if 0x61 \<le> c \<and> c \<le> 0x7A then c - 0x61 + 10
      else - 1)"

definition valid_base :: "u32 \<Rightarrow> bool" where
  "valid_base b \<longleftrightarrow> b = 2 \<or> b = 8 \<or> b = 10 \<or> b = 16"

text \<open>The digit loop of both parsers, on the characters as integers.\<close>

fun digits_to_int :: "u32 \<Rightarrow> u32 \<Rightarrow> int list \<Rightarrow> u32" where
  "digits_to_int Base acc [] = acc"
| "digits_to_int Base acc (c # cs) =
     (if digit_value c < 0 \<or> uint Base \<le> digit_value c then acc
      else digits_to_int Base (acc * Base + word_of_int (digit_value c)) cs)"

text \<open>Base 0 reads the prefix; the result is the base and the rest.\<close>

definition auto_base :: "int list \<Rightarrow> u32 \<times> int list" where
  "auto_base s = (case s of
      z # c # r \<Rightarrow>
        (if z \<noteq> 0x30 then (10, s)
         else if c = 0x62 then (2, r) else if c = 0x6F then (8, r) else if c = 0x78 then (16, r) else (10, s))
    | _ \<Rightarrow> (10, s))"

definition parse_sign :: "int list \<Rightarrow> bool \<times> int list" where
  "parse_sign s = (case s of [] \<Rightarrow> (False, [])
    | c # r \<Rightarrow> if c = 0x2B then (False, r) else if c = 0x2D then (True, r) else (False, s))"

definition parse_integer :: "int list \<Rightarrow> u32 \<Rightarrow> bool \<Rightarrow> u32 \<times> u32 option" where
  "parse_integer s Base value_null =
     (let (bMinus, s) = parse_sign s;
          (Base', s) = (if Base = 0 then auto_base s else (Base, s))
      in if Base \<noteq> 0 \<and> \<not> valid_base Base then (STATUS_INVALID_PARAMETER, None)
         else if value_null then (STATUS_ACCESS_VIOLATION, None)
         else let n = digits_to_int Base' 0 s in (STATUS_SUCCESS, Some (if bMinus then 0 - n else n)))"

text \<open>A C string ends at its first NUL.\<close>

definition c_string :: "u8 list \<Rightarrow> u8 list" where
  "c_string bs = takeWhile (\<lambda>b. b \<noteq> 0) bs"

definition RtlCharToInteger :: "u8 list \<Rightarrow> u32 \<Rightarrow> bool \<Rightarrow> u32 \<times> u32 option" where
  "RtlCharToInteger bs Base value_null =
     parse_integer (dropWhile (\<lambda>c. c \<le> 0x20) (List.map sint (c_string bs))) Base value_null"

definition RtlUnicodeStringToInteger :: "u16 list \<Rightarrow> u32 \<Rightarrow> bool \<Rightarrow> u32 \<times> u32 option" where
  "RtlUnicodeStringToInteger ws Base value_null =
     parse_integer (dropWhile (\<lambda>c. c \<le> 0x20) (List.map uint ws)) Base value_null"

text \<open>
  The digits of a number, written backwards into the 33 bytes of \<open>buffer\<close>: \<open>room\<close> counts the bytes
  in front of \<open>pos\<close>.
\<close>

definition digit_char :: "u8 \<Rightarrow> u8" where
  "digit_char digit = (if digit < 10 then 0x30 + digit else 0x41 + digit - 10)"

fun int_digits :: "nat \<Rightarrow> u32 \<Rightarrow> u32 \<Rightarrow> u8 list \<Rightarrow> fault + u8 list" where
  "int_digits 0 v Base acc = Inl OutOfBounds"
| "int_digits (Suc room) v Base acc =
     (let c = digit_char (ucast (v mod Base))
      in if v div Base = 0 then Inr (c # acc) else int_digits room (v div Base) Base (c # acc))"

text \<open>The result is the status and the bytes copied to the output.\<close>

definition RtlIntegerToChar :: "u32 \<Rightarrow> u32 \<Rightarrow> u32 \<Rightarrow> bool \<Rightarrow> fault + (u32 \<times> u8 list)" where
  "RtlIntegerToChar Value Base OutputLength string_null =
     (if Base \<noteq> 0 \<and> \<not> valid_base Base then Inr (STATUS_INVALID_PARAMETER, [])
      else case int_digits 32 Value (if Base = 0 then 10 else Base) [] of
          Inl e \<Rightarrow> Inl e
        | Inr ds \<Rightarrow>
            if unat OutputLength < length ds then Inr (STATUS_BUFFER_OVERFLOW, [])
            else if string_null then Inr (STATUS_ACCESS_VIOLATION, [])
            else if length ds = unat OutputLength then Inr (STATUS_SUCCESS, ds)
            else Inr (STATUS_SUCCESS, ds @ [0]))"

section \<open>Memory blocks\<close>

text \<open>The number of equal bytes in front of the first difference.\<close>

fun compare_bytes :: "nat \<Rightarrow> u32 \<Rightarrow> u32 \<Rightarrow> mem \<Rightarrow> nat" where
  "compare_bytes 0 p q m = 0"
| "compare_bytes (Suc n) p q m = (if m p \<noteq> m q then 0 else Suc (compare_bytes n (p + 1) (q + 1) m))"

definition RtlCompareMemory :: "u32 \<Rightarrow> u32 \<Rightarrow> u32 \<Rightarrow> mem \<Rightarrow> nat" where
  "RtlCompareMemory Source1 Source2 Size m = compare_bytes (unat Size) Source1 Source2 m"

text \<open>Double words of little-endian memory; the fill asserts a positive length and the alignment.\<close>

fun fill_ulong :: "nat \<Rightarrow> u32 \<Rightarrow> u32 \<Rightarrow> mem \<Rightarrow> mem" where
  "fill_ulong 0 d Pattern m = m"
| "fill_ulong (Suc n) d Pattern m = fill_ulong n (d + 4) Pattern (wr32 d Pattern m)"

definition RtlFillMemoryUlong :: "u32 \<Rightarrow> u32 \<Rightarrow> u32 \<Rightarrow> (unit, mem) run" where
  "RtlFillMemoryUlong Destination Size Pattern =
     bnd (check (Size \<noteq> 0)) (\<lambda>_.
     bnd (check (Size mod 4 = 0)) (\<lambda>_.
     bnd (check (Destination mod 4 = 0)) (\<lambda>_.
     modify (fill_ulong (unat Size div 4) Destination Pattern))))"

fun compare_ulong :: "nat \<Rightarrow> u32 \<Rightarrow> u32 \<Rightarrow> mem \<Rightarrow> nat" where
  "compare_ulong 0 p Pattern m = 0"
| "compare_ulong (Suc n) p Pattern m =
     (if rd32 m p \<noteq> Pattern then 0 else 4 + compare_ulong n (p + 4) Pattern m)"

definition RtlCompareMemoryUlong :: "u32 \<Rightarrow> u32 \<Rightarrow> u32 \<Rightarrow> mem \<Rightarrow> nat" where
  "RtlCompareMemoryUlong Source Size Pattern m = compare_ulong (unat Size div 4) Source Pattern m"

section \<open>Access masks\<close>

record GENERIC_MAPPING =
  GenericRead :: u32
  GenericWrite :: u32
  GenericExecute :: u32
  GenericAll :: u32

definition RtlMapGenericMask :: "GENERIC_MAPPING \<Rightarrow> u32 \<Rightarrow> u32" where
  "RtlMapGenericMask g m =
     (let m = (if m AND 0x80000000 \<noteq> 0 then m OR GenericRead g else m);
          m = (if m AND 0x40000000 \<noteq> 0 then m OR GenericWrite g else m);
          m = (if m AND 0x20000000 \<noteq> 0 then m OR GenericExecute g else m);
          m = (if m AND 0x10000000 \<noteq> 0 then m OR GenericAll g else m)
      in m AND NOT (0x80000000 OR 0x40000000 OR 0x20000000 OR 0x10000000))"

section \<open>Counted strings\<close>

record 'c STRING =
  Length :: u16
  MaximumLength :: u16
  Buffer :: "'c list"

definition read_chars :: "nat \<Rightarrow> 'c STRING \<Rightarrow> ('c list, 's) run" where
  "read_chars n src s = (if n \<le> length (Buffer src) then Inr (take n (Buffer src), s) else Inl OutOfBounds)"

definition write_chars :: "nat \<Rightarrow> 'c list \<Rightarrow> (unit, 'c STRING) run" where
  "write_chars k cs d =
     (if k + length cs \<le> length (Buffer d)
      then Inr ((), d\<lparr>Buffer := take k (Buffer d) @ cs @ drop (k + length cs) (Buffer d)\<rparr>)
      else Inl OutOfBounds)"

definition set_Length :: "u16 \<Rightarrow> (unit, 'c STRING) run" where
  "set_Length n = modify (\<lambda>d. d\<lparr>Length := n\<rparr>)"

text \<open>A NULL source is \<open>None\<close>. The copied length is in bytes; a wide character has two.\<close>

definition RtlCopyString :: "u8 STRING option \<Rightarrow> (unit, u8 STRING) run" where
  "RtlCopyString source = (case source of
      None \<Rightarrow> set_Length 0
    | Some src \<Rightarrow>
        bnd (get MaximumLength) (\<lambda>max.
        let len = (if max < Length src then max else Length src)
        in bnd (set_Length len) (\<lambda>_. bnd (read_chars (unat len) src) (\<lambda>cs. write_chars 0 cs))))"

definition RtlAppendStringToString :: "u8 STRING \<Rightarrow> (u32, u8 STRING) run" where
  "RtlAppendStringToString src =
     bnd (get (\<lambda>d. (Length d, MaximumLength d))) (\<lambda>(dstLen, max).
     if Length src = 0 then ret STATUS_SUCCESS
     else if unat max < unat (Length src) + unat dstLen then ret STATUS_BUFFER_TOO_SMALL
     else bnd (read_chars (unat (Length src)) src) (\<lambda>cs.
          bnd (write_chars (unat dstLen) cs) (\<lambda>_.
          bnd (set_Length (dstLen + Length src)) (\<lambda>_. ret STATUS_SUCCESS))))"

definition RtlAppendUnicodeStringToString :: "u16 STRING \<Rightarrow> (u32, u16 STRING) run" where
  "RtlAppendUnicodeStringToString src =
     bnd (get (\<lambda>d. (Length d, MaximumLength d))) (\<lambda>(dstLen, max).
     if Length src = 0 then ret STATUS_SUCCESS
     else if unat max < unat (Length src) + unat dstLen then ret STATUS_BUFFER_TOO_SMALL
     else bnd (read_chars (unat (Length src) div 2) src) (\<lambda>cs.
          bnd (write_chars (unat dstLen div 2) cs) (\<lambda>_.
          bnd (set_Length (dstLen + Length src)) (\<lambda>_.
          bnd (if dstLen + Length src < max
               then write_chars (unat dstLen div 2 + unat (Length src) div 2) [0] else ret ()) (\<lambda>_.
          ret STATUS_SUCCESS)))))"

definition RtlUpperString :: "u8 STRING \<Rightarrow> (unit, u8 STRING) run" where
  "RtlUpperString src =
     bnd (get MaximumLength) (\<lambda>max.
     let len = (if max < Length src then max else Length src)
     in bnd (set_Length len) (\<lambda>_. bnd (read_chars (unat len) src) (\<lambda>cs. write_chars 0 (List.map RtlUpperChar cs))))"

text \<open>Comparison: the difference of the first unequal characters, otherwise of the lengths.\<close>

fun compare_chars :: "bool \<Rightarrow> u8 list \<Rightarrow> u8 list \<Rightarrow> int option" where
  "compare_chars ci (a # as) (b # bs) =
     (if ci then
        (if RtlLowerChar a \<noteq> RtlLowerChar b then Some (uint (RtlLowerChar a) - uint (RtlLowerChar b))
         else compare_chars ci as bs)
      else (if a \<noteq> b then Some (sint a - sint b) else compare_chars ci as bs))"
| "compare_chars ci _ _ = None"

definition RtlCompareString :: "u8 STRING \<Rightarrow> u8 STRING \<Rightarrow> bool \<Rightarrow> (int, 's) run" where
  "RtlCompareString String1 String2 CaseInSensitive =
     (let l1 = Length String1; l2 = Length String2; maxLen = (if l1 \<le> l2 then l1 else l2)
      in bnd (read_chars (unat maxLen) String1) (\<lambda>str1.
         bnd (read_chars (unat maxLen) String2) (\<lambda>str2.
         ret (case compare_chars CaseInSensitive str1 str2 of
                Some d \<Rightarrow> d | None \<Rightarrow> uint l1 - uint l2))))"

fun equal_chars :: "bool \<Rightarrow> u8 list \<Rightarrow> u8 list \<Rightarrow> bool" where
  "equal_chars ci (a # as) (b # bs) =
     ((a = b \<or> ci \<and> RtlUpperChar a = RtlUpperChar b) \<and> equal_chars ci as bs)"
| "equal_chars ci _ _ = True"

definition RtlEqualString :: "u8 STRING \<Rightarrow> u8 STRING \<Rightarrow> bool \<Rightarrow> (bool, 's) run" where
  "RtlEqualString String1 String2 CaseInSensitive =
     (if Length String1 \<noteq> Length String2 then ret False
      else bnd (read_chars (unat (Length String1)) String1) (\<lambda>p1.
           bnd (read_chars (unat (Length String1)) String2) (\<lambda>p2.
           ret (equal_chars CaseInSensitive p1 p2))))"

section \<open>Conversion between the character sets\<close>

text \<open>A \<open>char\<close> becomes a \<open>WCHAR\<close> by sign extension; a wide character below 0xFF becomes a byte.\<close>

definition wide_char :: "u8 \<Rightarrow> u16" where
  "wide_char c = scast c"

definition multi_byte_char :: "u16 \<Rightarrow> u8" where
  "multi_byte_char w = (if w < 0xFF then ucast w else 0x3F)"

text \<open>The characters that are converted, of at most \<open>max\<close> bytes of output.\<close>

definition RtlMultiByteToUnicodeN :: "u32 \<Rightarrow> u8 list \<Rightarrow> u32 \<Rightarrow> fault + (u32 \<times> u16 list)" where
  "RtlMultiByteToUnicodeN MaxBytesInUnicodeString MultiByteString BytesInMultiByteString =
     (let maxUnicodeChars = MaxBytesInUnicodeString div 2;
          numChars = (if maxUnicodeChars < BytesInMultiByteString then maxUnicodeChars else BytesInMultiByteString)
      in if unat numChars \<le> length MultiByteString
         then Inr (numChars * 2, List.map wide_char (take (unat numChars) MultiByteString)) else Inl OutOfBounds)"

definition RtlUnicodeToMultiByteN :: "u32 \<Rightarrow> u16 list \<Rightarrow> u32 \<Rightarrow> fault + (u32 \<times> u8 list)" where
  "RtlUnicodeToMultiByteN MaxBytesInMultiByteString UnicodeString BytesInUnicodeString =
     (let maxUnicodeChars = BytesInUnicodeString div 2;
          numChars = (if maxUnicodeChars < MaxBytesInMultiByteString then maxUnicodeChars else MaxBytesInMultiByteString)
      in if unat numChars \<le> length UnicodeString
         then Inr (numChars, List.map multi_byte_char (take (unat numChars) UnicodeString)) else Inl OutOfBounds)"

definition RtlMultiByteToUnicodeSize :: "u32 \<Rightarrow> u32" where
  "RtlMultiByteToUnicodeSize BytesInMultiByteString = BytesInMultiByteString * 2"

definition RtlUnicodeToMultiByteSize :: "u32 \<Rightarrow> u32" where
  "RtlUnicodeToMultiByteSize BytesInUnicodeString = BytesInUnicodeString * 2"

definition STATUS_NO_MEMORY :: u32 where "STATUS_NO_MEMORY = 0xC0000017"

text \<open>
  The state is the destination. \<open>pool\<close> is what \<open>ExAllocatePoolWithTag\<close> returns: a buffer of the
  requested size with unknown contents, or \<open>None\<close>.
\<close>

definition set_MaximumLength :: "u16 \<Rightarrow> (unit, 'c STRING) run" where
  "set_MaximumLength n = modify (\<lambda>d. d\<lparr>MaximumLength := n\<rparr>)"

definition RtlAnsiStringToUnicodeString :: "(nat \<Rightarrow> u16 list option) \<Rightarrow> u8 STRING \<Rightarrow> bool \<Rightarrow> (u32, u16 STRING) run" where
  "RtlAnsiStringToUnicodeString pool src Allocate =
     (let total = (ucast (Length src) + 1) * 2 :: u32;
          convert = (\<lambda>d. case RtlMultiByteToUnicodeN (ucast (Length d)) (Buffer src) (ucast (Length src)) of
             Inl e \<Rightarrow> Inl e
           | Inr (_, ws) \<Rightarrow> bnd (write_chars 0 ws) (\<lambda>_. bnd (write_chars (unat (Length d) div 2) [0])
                             (\<lambda>_. ret STATUS_SUCCESS)) d)
      in if 0xFFFF < total then ret STATUS_INVALID_PARAMETER_2
         else bnd (set_Length (ucast (total - 2))) (\<lambda>_.
           if Allocate then
             bnd (set_MaximumLength (ucast total)) (\<lambda>_.
             case pool (unat total) of
               None \<Rightarrow> ret STATUS_NO_MEMORY
             | Some b \<Rightarrow> bnd (modify (\<lambda>d. d\<lparr>Buffer := b\<rparr>)) (\<lambda>_. convert))
           else bnd (get MaximumLength) (\<lambda>max.
             if ucast max < total then ret STATUS_BUFFER_OVERFLOW else convert)))"

definition RtlUnicodeStringToAnsiString :: "(nat \<Rightarrow> u8 list option) \<Rightarrow> u16 STRING \<Rightarrow> bool \<Rightarrow> (u32, u8 STRING) run" where
  "RtlUnicodeStringToAnsiString pool src Allocate =
     (let AnsiMaxLength = ucast (Length src div 2) + 1 :: u32;
          convert = (\<lambda>r d. case RtlUnicodeToMultiByteN (ucast (Length d)) (Buffer src) (ucast (Length src)) of
             Inl e \<Rightarrow> Inl e
           | Inr (index, bs) \<Rightarrow> bnd (write_chars 0 bs) (\<lambda>_. bnd (write_chars (unat index) [0]) (\<lambda>_. ret r)) d)
      in bnd (set_Length (ucast (AnsiMaxLength - 1))) (\<lambda>_.
         if Allocate then
           bnd (set_MaximumLength (ucast AnsiMaxLength)) (\<lambda>_.
           case pool (unat AnsiMaxLength) of
             None \<Rightarrow> ret STATUS_NO_MEMORY
           | Some b \<Rightarrow> bnd (modify (\<lambda>d. d\<lparr>Buffer := b\<rparr>)) (\<lambda>_. convert STATUS_SUCCESS))
         else bnd (get MaximumLength) (\<lambda>max.
           if ucast max < AnsiMaxLength then
             (if max = 0 then ret STATUS_BUFFER_OVERFLOW
              else bnd (set_Length (max - 1)) (\<lambda>_. convert STATUS_BUFFER_OVERFLOW))
           else convert STATUS_SUCCESS)))"

section \<open>The case of a character\<close>

lemma xor_case_up: "unat (c XOR 0x20) = unat c + 32"
  if "64 \<le> unat c \<and> unat c < 96 \<or> 192 \<le> unat c \<and> unat c < 224" for c :: u8
proof -
  have "\<forall>k\<in>set ([64..<96] @ [192..<224]). unat ((word_of_nat k :: u8) XOR 0x20) = k + 32"
    by code_simp
  moreover have "unat c \<in> set ([64..<96] @ [192..<224])" using that by (simp only: set_append set_upt Un_iff atLeastLessThan_iff)
  ultimately have "unat ((word_of_nat (unat c) :: u8) XOR 0x20) = unat c + 32" by blast
  then show ?thesis by simp
qed

lemma xor_case_down: "unat (c XOR 0x20) = unat c - 32"
  if "96 \<le> unat c \<and> unat c < 128 \<or> 224 \<le> unat c \<and> unat c < 256" for c :: u8
proof -
  have "\<forall>k\<in>set ([96..<128] @ [224..<256]). unat ((word_of_nat k :: u8) XOR 0x20) = k - 32"
    by code_simp
  moreover have "unat c \<in> set ([96..<128] @ [224..<256])" using that by (simp only: set_append set_upt Un_iff atLeastLessThan_iff)
  ultimately have "unat ((word_of_nat (unat c) :: u8) XOR 0x20) = unat c - 32" by blast
  then show ?thesis by simp
qed

lemma unat_lower: "unat (RtlLowerChar c) =
    (if 65 \<le> unat c \<and> unat c \<le> 90 \<or> 192 \<le> unat c \<and> unat c \<le> 222 \<and> unat c \<noteq> 215 then unat c + 32 else unat c)"
  using xor_case_up [of c] by (auto simp: RtlLowerChar_def word_le_nat_alt word_unat_eq_iff)

lemma unat_upper: "unat (RtlUpperChar c) =
    (if 97 \<le> unat c \<and> unat c \<le> 122 \<or> 224 \<le> unat c \<and> unat c \<le> 254 \<and> unat c \<noteq> 247 then unat c - 32
     else if unat c = 255 then 63 else unat c)"
  using xor_case_down [of c] by (auto simp: RtlUpperChar_def word_le_nat_alt word_unat_eq_iff)

lemma upper_lower: "RtlUpperChar (RtlLowerChar a) = RtlUpperChar a"
  by (simp only: word_unat_eq_iff unat_upper unat_lower) auto

lemma lower_upper: "a \<noteq> 0xFF \<Longrightarrow> RtlLowerChar (RtlUpperChar a) = RtlLowerChar a"
  using unsigned_less [where 'a = nat, of a]
  by (simp add: word_unat_eq_iff unat_upper unat_lower) auto

lemma case_equal:
  assumes "a \<noteq> 0xFF" "b \<noteq> 0xFF"
  shows "RtlUpperChar a = RtlUpperChar b \<longleftrightarrow> RtlLowerChar a = RtlLowerChar b"
  using lower_upper [OF assms(1)] lower_upper [OF assms(2)] upper_lower [of a] upper_lower [of b] by metis

section \<open>Comparison\<close>

lemma sint_diff_0: "sint a = sint b \<longleftrightarrow> a = b" for a b :: u8
  by (auto intro: signed_word_eqI)

lemma uint_diff_0: "uint a = uint b \<longleftrightarrow> a = b" for a b :: "'a::len word"
  by (auto intro: unsigned_word_eqI)

lemma compare_equal_chars:
  assumes "length xs = length ys" and "ci \<Longrightarrow> 0xFF \<notin> set xs \<union> set ys"
  shows "equal_chars ci xs ys \<longleftrightarrow> compare_chars ci xs ys = None"
  using assms
  by (induction ci xs ys rule: compare_chars.induct) (auto simp: case_equal)

lemma compare_chars_nonzero: "compare_chars ci xs ys \<noteq> Some 0"
  by (induction ci xs ys rule: compare_chars.induct) (auto simp: sint_diff_0 uint_diff_0)

text \<open>Two counted strings inside their buffers are equal for \<open>RtlEqualString\<close> exactly when
  \<open>RtlCompareString\<close> returns zero, although one folds to upper case and the other to lower case; the
  insensitive comparison needs that no character is 0xFF, whose upper case is a question mark.\<close>

theorem rtl_equal_iff_compare:
  assumes "unat (Length s1) \<le> length (Buffer s1)" and "unat (Length s2) \<le> length (Buffer s2)"
    and "ci \<Longrightarrow> 0xFF \<notin> set (Buffer s1) \<union> set (Buffer s2)"
  shows "\<exists>e d. RtlEqualString s1 s2 ci w = Inr (e, w) \<and> RtlCompareString s1 s2 ci w = Inr (d, w) \<and> (e \<longleftrightarrow> d = 0)"
proof -
  define n where "n = unat (if Length s1 \<le> Length s2 then Length s1 else Length s2)"
  have n: "n \<le> length (Buffer s1)" "n \<le> length (Buffer s2)"
    using assms(1,2) by (auto simp: n_def word_le_nat_alt)
  let ?x = "take n (Buffer s1)" and ?y = "take n (Buffer s2)"
  have c: "RtlCompareString s1 s2 ci w = Inr (case compare_chars ci ?x ?y of Some d \<Rightarrow> d
      | None \<Rightarrow> uint (Length s1) - uint (Length s2), w)"
    using n by (simp add: RtlCompareString_def read_chars_def Let_def run_simps flip: n_def)
  show ?thesis
  proof (cases "Length s1 = Length s2")
    case True
    have "equal_chars ci ?x ?y \<longleftrightarrow> compare_chars ci ?x ?y = None"
      using n assms(3) by (intro compare_equal_chars) (auto dest: in_set_takeD)
    moreover have "RtlEqualString s1 s2 ci w = Inr (equal_chars ci ?x ?y, w)"
      using True assms(1,2) by (simp add: RtlEqualString_def read_chars_def n_def run_simps)
    ultimately show ?thesis using c compare_chars_nonzero [of ci ?x ?y] True by (auto split: option.splits)
  next
    case False
    then have "uint (Length s1) - uint (Length s2) \<noteq> 0" by (simp add: uint_diff_0)
    then show ?thesis using c compare_chars_nonzero [of ci ?x ?y] False
      by (auto simp: RtlEqualString_def split: option.splits)
  qed
qed

theorem rtl_equal_iff_compare_witness:
  "\<exists>e d. RtlEqualString \<lparr>Length = 2, MaximumLength = 2, Buffer = [0x41, 0x62]\<rparr>
        \<lparr>Length = 2, MaximumLength = 2, Buffer = [0x61, 0x42]\<rparr> True () = Inr (e, ())
     \<and> RtlCompareString \<lparr>Length = 2, MaximumLength = 2, Buffer = [0x41, 0x62]\<rparr>
        \<lparr>Length = 2, MaximumLength = 2, Buffer = [0x61, 0x42]\<rparr> True () = Inr (d, ()) \<and> (e \<longleftrightarrow> d = 0)"
  by (rule rtl_equal_iff_compare) simp_all

section \<open>Numbers\<close>

lemma digit_char_values:
  "k < 16 \<Longrightarrow> digit_value (uint (digit_char (word_of_nat k))) = int k
    \<and> sint (digit_char (word_of_nat k)) = uint (digit_char (word_of_nat k)) \<and> 0x20 < uint (digit_char (word_of_nat k))
    \<and> uint (digit_char (word_of_nat k)) \<noteq> 0x2B \<and> uint (digit_char (word_of_nat k)) \<noteq> 0x2D
    \<and> (uint (digit_char (word_of_nat k)) = 0x30 \<longrightarrow> k = 0)"
proof -
  have "\<forall>k\<in>set [0..<16]. digit_value (uint (digit_char (word_of_nat k))) = int k
    \<and> sint (digit_char (word_of_nat k)) = uint (digit_char (word_of_nat k)) \<and> 0x20 < uint (digit_char (word_of_nat k))
    \<and> uint (digit_char (word_of_nat k)) \<noteq> 0x2B \<and> uint (digit_char (word_of_nat k)) \<noteq> 0x2D
    \<and> (uint (digit_char (word_of_nat k)) = 0x30 \<longrightarrow> k = 0)"
    by code_simp
  then show "k < 16 \<Longrightarrow> ?thesis" by simp
qed


lemma digits_to_int_append:
  assumes "\<forall>c\<in>set cs. 0 \<le> digit_value c \<and> digit_value c < uint B"
  shows "digits_to_int B a (cs @ rest) = digits_to_int B (foldl (\<lambda>a c. a * B + word_of_int (digit_value c)) a cs) rest"
  using assms by (induction cs arbitrary: a) auto

text \<open>The digits of a number below \<open>B ^ k\<close> fit in \<open>k\<close> characters and read back as the number.\<close>

definition number_chars :: "u32 \<Rightarrow> u32 \<Rightarrow> u8 list \<Rightarrow> bool" where
  "number_chars B v ds \<longleftrightarrow> ds \<noteq> []
     \<and> (\<forall>c\<in>set ds. sint c = uint c \<and> 0x20 < uint c \<and> 0 \<le> digit_value (uint c) \<and> digit_value (uint c) < uint B
          \<and> uint c \<noteq> 0x2B \<and> uint c \<noteq> 0x2D)
     \<and> foldl (\<lambda>a c. a * B + word_of_int (digit_value c)) 0 (List.map uint ds) = v
     \<and> (uint (hd ds) = 0x30 \<longrightarrow> v = 0 \<and> length ds = 1)"

lemma int_digits_number:
  assumes "2 \<le> unat B" "unat B \<le> 16" and "unat v < unat B ^ k" and "1 \<le> k" "k \<le> room"
  shows "\<exists>ds. (\<forall>acc. int_digits room v B acc = Inr (ds @ acc)) \<and> length ds \<le> k \<and> number_chars B v ds"
  using assms(3-5)
proof (induction k arbitrary: v room)
  case (Suc k)
  define d where "d = unat v mod unat B"
  define c where "c = digit_char (word_of_nat d)"
  have d: "d < 16" "int d < uint B"
  proof -
    have "d < unat B" using assms(1) unfolding d_def by (intro mod_less_divisor) simp
    then show "d < 16" "int d < uint B" using assms(2) of_nat_less_iff [of d "unat B", where 'a = int]
      by simp_all
  qed
  have du: "d = unat (v mod B)" by (simp add: d_def unat_mod_distrib)
  have ch: "digit_char (ucast (v mod B)) = c"
    by (simp add: c_def du)
  have cv: "digit_value (uint c) = int d" "sint c = uint c" "0x20 < uint c" "uint c \<noteq> 0x2B" "uint c \<noteq> 0x2D"
    "uint c = 0x30 \<Longrightarrow> d = 0"
    using digit_char_values [OF d(1)] by (simp_all add: c_def)
  have vB: "(v div B) * B + word_of_nat d = v"
    by (simp add: du div_mult_mod_eq)
  obtain r where room: "room = Suc r" using Suc.prems by (cases room) auto
  show ?case
  proof (cases "v div B = 0")
    case True
    then have "word_of_nat d = v" using vB by simp
    then have "d = 0 \<Longrightarrow> v = 0" by auto
    then have "number_chars B v [c]" using cv d \<open>word_of_nat d = v\<close> by (auto simp: number_chars_def)
    moreover have "int_digits room v B acc = Inr ([c] @ acc)" for acc using True by (simp add: room ch)
    ultimately show ?thesis by (intro exI [of _ "[c]"]) simp
  next
    case False
    have "unat (v div B) < unat B ^ k"
      using Suc.prems(1) by (simp add: unat_div_distrib less_mult_imp_div_less mult.commute)
    moreover from this have "1 \<le> k" using False by (cases k) (auto simp: unat_eq_0)
    ultimately obtain ds where ds: "\<And>acc. int_digits r (v div B) B acc = Inr (ds @ acc)" "length ds \<le> k"
      "number_chars B (v div B) ds"
      using Suc.IH [of "v div B" r] Suc.prems(3) room by auto
    have "number_chars B v (ds @ [c])"
      using ds(3) cv d vB False by (auto simp: number_chars_def)
    moreover have "int_digits room v B acc = Inr ((ds @ [c]) @ acc)" for acc using False by (simp add: room ch ds(1))
    ultimately show ?thesis using ds(2) by (intro exI [of _ "ds @ [c]"]) simp
  qed
qed simp

lemma parse_number:
  assumes "number_chars B' v ds" and "valid_base B \<and> B' = B \<or> B = 0 \<and> B' = 10"
  shows "parse_integer (dropWhile (\<lambda>c. c \<le> 0x20) (List.map uint ds)) B False = (STATUS_SUCCESS, Some v)"
proof -
  obtain c cs where ds: "ds = c # cs" using assms(1) by (cases ds) (auto simp: number_chars_def)
  let ?l = "List.map uint ds"
  have c: "\<not> uint c \<le> 0x20" "uint c \<noteq> 0x2B" "uint c \<noteq> 0x2D" "uint c = 0x30 \<Longrightarrow> cs = []"
    using assms(1) by (auto simp: ds number_chars_def)
  have d: "digits_to_int B' 0 ?l = v"
    using digits_to_int_append [of ?l B' 0 "[]"] assms(1) by (auto simp: number_chars_def)
  have "dropWhile (\<lambda>c. c \<le> 0x20) ?l = ?l" "parse_sign ?l = (False, ?l)" "auto_base ?l = (10, ?l)"
    using c by (auto simp: ds parse_sign_def auto_base_def split: list.splits)
  then show ?thesis using assms(2) d by (auto simp: parse_integer_def valid_base_def)
qed

lemma uint_wide: "uint (ucast c :: u16) = uint c" for c :: u8
  using unsigned_less [where 'a = int, of c] by (simp add: unsigned_ucast_eq take_bit_int_eq_self)

text \<open>A buffer of 33 characters holds every 32-bit number in every base; \<open>RtlIntegerToChar\<close>
  terminates it, never leaves its own buffer, and both parsers read the number back, from the bytes
  and from the same text in wide characters, also when they choose the base themselves.\<close>

theorem rtl_number_roundtrip:
  assumes "valid_base B \<or> B = 0" and "33 \<le> unat n"
  shows "\<exists>ds. RtlIntegerToChar v B n False = Inr (STATUS_SUCCESS, ds @ [0]) \<and> length ds \<le> 32
    \<and> RtlCharToInteger (ds @ [0]) B False = (STATUS_SUCCESS, Some v)
    \<and> RtlUnicodeStringToInteger (List.map ucast ds) B False = (STATUS_SUCCESS, Some v)"
proof -
  define B' where "B' = (if B = 0 then 10 else B)"
  have B: "2 \<le> unat B'" "unat B' \<le> 16" "valid_base B \<and> B' = B \<or> B = 0 \<and> B' = 10"
    using assms(1) by (auto simp: B'_def valid_base_def)
  have "unat v < 2 ^ 32" using unsigned_less [where 'a = nat, of v] by simp
  also have "\<dots> \<le> unat B' ^ 32" using B(1) by (rule power_mono) simp
  finally obtain ds where ds: "\<And>acc. int_digits 32 v B' acc = Inr (ds @ acc)" "length ds \<le> 32" "number_chars B' v ds"
    using int_digits_number [OF B(1,2), of v 32 32] by auto
  have nz: "\<forall>c\<in>set ds. c \<noteq> 0" "List.map sint ds = List.map uint ds" "List.map uint (List.map ucast ds :: u16 list) = List.map uint ds"
    using ds(3) by (auto simp: number_chars_def uint_wide)
  have s: "c_string (ds @ [0]) = ds" using nz(1) by (simp add: c_string_def takeWhile_append2)
  have "RtlIntegerToChar v B n False = Inr (STATUS_SUCCESS, ds @ [0])"
    using assms ds(1) [of "[]"] ds(2) unfolding RtlIntegerToChar_def B'_def [symmetric]
    by (auto simp: Let_def)
  then show ?thesis using parse_number [OF ds(3) B(3)] ds(2)
    by (intro exI [of _ ds]) (simp only: RtlCharToInteger_def RtlUnicodeStringToInteger_def s nz simp_thms)
qed

theorem rtl_number_roundtrip_witness:
  "\<exists>ds. RtlIntegerToChar 0xBEEF 16 40 False = Inr (STATUS_SUCCESS, ds @ [0])
     \<and> RtlCharToInteger (ds @ [0]) 16 False = (STATUS_SUCCESS, Some 0xBEEF)"
  using rtl_number_roundtrip [of 16 40 "0xBEEF"] by (auto simp: valid_base_def)

section \<open>Character sets\<close>

lemma sint_u8: "sint b = (if uint b < 128 then uint b else uint b - 256)" for b :: u8
proof -
  have u: "0 \<le> uint b" "uint b < 256" using unsigned_less [where 'a = int, of b] by simp_all
  have "sint b = (uint b + 128) mod 256 - 128"
    by (simp add: sint_uint signed_take_bit_eq_take_bit_shift take_bit_eq_mod)
  moreover have "(uint b + 128) mod 256 = (if uint b < 128 then uint b + 128 else uint b - 128)"
    using u by (auto intro!: int_mod_pos_eq [where q = 1])
  ultimately show ?thesis by simp
qed

lemma uint_wide_char: "uint (wide_char b) = (if uint b < 128 then uint b else uint b + 65280)"
proof -
  have u: "0 \<le> uint b" "uint b < 256" using unsigned_less [where 'a = int, of b] by simp_all
  have "uint (wide_char b) = sint b mod 65536"
    by (simp only: wide_char_def scast_eq uint_word_of_int) simp
  also have "\<dots> = (if uint b < 128 then uint b else uint b + 65280)"
    using u by (auto simp: sint_u8 intro!: int_mod_pos_eq [where q = "- 1"])
  finally show ?thesis .
qed

lemma multi_byte_wide: "multi_byte_char (wide_char b) = (if b < 0x80 then b else 0x3F)"
proof (cases "uint b < 128")
  case True
  then have "wide_char b = ucast b" by (intro unsigned_word_eqI [where 'a = int]) (simp add: uint_wide_char uint_wide)
  then show ?thesis using True by (simp add: multi_byte_char_def word_less_def uint_wide ucast_up_down)
next
  case False
  then show ?thesis by (simp add: multi_byte_char_def word_less_def uint_wide_char)
qed

text \<open>A byte string that is converted to wide characters and back, with room for all of it, keeps
  exactly the characters below 0x80: the others are sign-extended on the way out and come back as
  question marks.\<close>

theorem rtl_charset_roundtrip:
  assumes "length bs < 2 ^ 30"
  shows "\<exists>ws. RtlMultiByteToUnicodeN (2 * word_of_nat (length bs)) bs (word_of_nat (length bs))
      = Inr (2 * word_of_nat (length bs), ws)
    \<and> RtlUnicodeToMultiByteN (word_of_nat (length bs)) ws (2 * word_of_nat (length bs))
      = Inr (word_of_nat (length bs), List.map (\<lambda>b. if b < 0x80 then b else 0x3F) bs)"
proof -
  let ?n = "word_of_nat (length bs) :: u32"
  have n: "unat ?n = length bs" using assms by (simp add: unat_of_nat take_bit_nat_eq_self)
  have h: "2 * ?n div 2 = ?n"
    using n assms by (simp add: word_unat_eq_iff unat_div_distrib unat_word_ariths)
  then have h': "?n * 2 div 2 = ?n" by (simp add: mult.commute)
  let ?ws = "List.map wide_char bs"
  have "RtlMultiByteToUnicodeN (2 * ?n) bs ?n = Inr (2 * ?n, ?ws)"
    using n by (simp add: RtlMultiByteToUnicodeN_def Let_def h h')
  moreover have "RtlUnicodeToMultiByteN ?n ?ws (2 * ?n) = Inr (?n, List.map (\<lambda>b. if b < 0x80 then b else 0x3F) bs)"
    using n by (simp add: RtlUnicodeToMultiByteN_def Let_def h h' multi_byte_wide)
  ultimately show ?thesis by blast
qed

theorem rtl_charset_roundtrip_witness:
  "\<exists>ws. RtlMultiByteToUnicodeN 4 [0x41, 0xE9] 2 = Inr (4, ws) \<and> RtlUnicodeToMultiByteN 2 ws 4 = Inr (2, [0x41, 0x3F])"
  using rtl_charset_roundtrip [of "[0x41, 0xE9]"] by simp

end
