(* ===== verification/Rtl_CritSec.thy ===== *)
theory Rtl_CritSec
  imports Cxbx_Prelude "HOL-Library.Multiset"
begin

text \<open>
  The critical sections of the run-time library (\<open>RtlInitializeCriticalSection\<close>,
  \<open>RtlEnterCriticalSection\<close>, \<open>RtlTryEnterCriticalSection\<close>, \<open>RtlLeaveCriticalSection\<close> of
  \<open>EmuKrnlRtl.cpp\<close>) with the part of \<open>KeSetEvent\<close> and \<open>KeWaitForSingleObject\<close> they
  use, and threads that call them in any order.

  A call is one step, except that \<open>RtlEnterCriticalSection\<close> is cut where it waits: a blocked
  thread finishes the call in a \<open>Resume\<close> step once the event has readied it. The ghost field
  \<open>holders\<close> is the multiset of entries that were not left yet. The theorems: without a blocked
  thread the section excludes; no wake-up is lost; and a thread that enters between the wake-up and
  the resumption of a waiter shares the section with it.
\<close>

section \<open>The code\<close>

type_synonym thread = nat

text \<open>
  The dispatcher header of the event is \<open>SignalState\<close> and the wait list; a null owner is 0. The
  counters are \<open>long\<close>: a count of calls, kept as an integer.
\<close>

record crit_section =
  SignalState :: bool
  WaitList :: "thread list"
  LockCount :: int
  RecursionCount :: int
  OwningThread :: thread

definition RtlInitializeCriticalSection :: "crit_section \<Rightarrow> crit_section" where
  "RtlInitializeCriticalSection c =
     c\<lparr>SignalState := False, WaitList := [], LockCount := - 1, RecursionCount := 0, OwningThread := 0\<rparr>"

text \<open>
  \<open>KeSetEvent\<close> on a synchronization event wakes the first waiter, or leaves the event signalled.
  \<open>KeWaitForSingleObject\<close> without a timeout consumes the signal or queues the thread; the first
  component tells whether it returned.
\<close>

definition KeSetEvent_cs :: "crit_section \<Rightarrow> thread option \<times> crit_section" where
  "KeSetEvent_cs c = (case WaitList c of
      [] \<Rightarrow> (None, c\<lparr>SignalState := True\<rparr>)
    | t # ts \<Rightarrow> (Some t, c\<lparr>WaitList := ts\<rparr>))"

definition KeWaitForSingleObject_cs :: "thread \<Rightarrow> crit_section \<Rightarrow> bool \<times> crit_section" where
  "KeWaitForSingleObject_cs t c =
     (if SignalState c then (True, c\<lparr>SignalState := False\<rparr>) else (False, c\<lparr>WaitList := WaitList c @ [t]\<rparr>))"

definition take_ownership :: "thread \<Rightarrow> crit_section \<Rightarrow> crit_section" where
  "take_ownership t c = c\<lparr>OwningThread := t, RecursionCount := 1\<rparr>"

definition RtlEnterCriticalSection :: "thread \<Rightarrow> crit_section \<Rightarrow> bool \<times> crit_section" where
  "RtlEnterCriticalSection t c =
     (let c = c\<lparr>LockCount := LockCount c + 1\<rparr>
      in if LockCount c = 0 then (True, take_ownership t c)
         else if OwningThread c \<noteq> t then
           (if OwningThread c \<noteq> 0
            then (let (entered, d) = KeWaitForSingleObject_cs t c
                  in (entered, if entered then take_ownership t d else d))
            else (True, take_ownership t c))
         else (True, c\<lparr>RecursionCount := RecursionCount c + 1\<rparr>))"

definition RtlTryEnterCriticalSection :: "thread \<Rightarrow> crit_section \<Rightarrow> bool \<times> crit_section" where
  "RtlTryEnterCriticalSection t c =
     (if LockCount c = - 1 then (True, take_ownership t (c\<lparr>LockCount := 0\<rparr>))
      else if OwningThread c = t
           then (True, c\<lparr>LockCount := LockCount c + 1, RecursionCount := RecursionCount c + 1\<rparr>)
           else (False, c))"

definition RtlLeaveCriticalSection :: "crit_section \<Rightarrow> thread option \<times> crit_section" where
  "RtlLeaveCriticalSection c =
     (let c = c\<lparr>RecursionCount := RecursionCount c - 1\<rparr>;
          c = c\<lparr>LockCount := LockCount c - 1\<rparr>
      in if RecursionCount c = 0 then
           (let c = c\<lparr>OwningThread := 0\<rparr> in if 0 \<le> LockCount c then KeSetEvent_cs c else (None, c))
         else (None, c))"

section \<open>Threads\<close>

record cs_system =
  crit :: crit_section
  ready :: "thread list"
  holders :: "thread multiset"

datatype cs_call = Enter thread | Resume thread | TryEnter thread | Leave thread

definition running :: "thread \<Rightarrow> cs_system \<Rightarrow> bool" where
  "running t s \<longleftrightarrow> t \<noteq> 0 \<and> t \<notin> set (WaitList (crit s)) \<and> t \<notin> set (ready s)"

text \<open>A thread leaves only what it holds; a step that is not possible gives \<open>None\<close>.\<close>

fun cs_exec :: "cs_call \<Rightarrow> cs_system \<Rightarrow> cs_system option" where
  "cs_exec (Enter t) s =
     (if running t s then
        let (entered, c) = RtlEnterCriticalSection t (crit s)
        in Some (s\<lparr>crit := c, holders := if entered then add_mset t (holders s) else holders s\<rparr>)
      else None)"
| "cs_exec (Resume t) s =
     (if t \<in> set (ready s)
      then Some (s\<lparr>crit := take_ownership t (crit s), ready := remove1 t (ready s), holders := add_mset t (holders s)\<rparr>)
      else None)"
| "cs_exec (TryEnter t) s =
     (if running t s then
        let (entered, c) = RtlTryEnterCriticalSection t (crit s)
        in Some (s\<lparr>crit := c, holders := if entered then add_mset t (holders s) else holders s\<rparr>)
      else None)"
| "cs_exec (Leave t) s =
     (if running t s \<and> t \<in># holders s then
        let (woken, c) = RtlLeaveCriticalSection (crit s)
        in Some (s\<lparr>crit := c, ready := ready s @ (case woken of None \<Rightarrow> [] | Some w \<Rightarrow> [w]),
                   holders := holders s - {#t#}\<rparr>)
      else None)"

definition cs_init :: cs_system where
  "cs_init = \<lparr>crit = RtlInitializeCriticalSection
      \<lparr>SignalState = False, WaitList = [], LockCount = 0, RecursionCount = 0, OwningThread = 0\<rparr>,
     ready = [], holders = {#}\<rparr>"

inductive cs_reachable :: "cs_system \<Rightarrow> bool" where
  init: "cs_reachable cs_init"
| step: "cs_reachable s \<Longrightarrow> cs_exec call s = Some t \<Longrightarrow> cs_reachable t"

text \<open>Runs in which no thread ever blocks.\<close>

inductive cs_uncontended :: "cs_system \<Rightarrow> bool" where
  init: "cs_uncontended cs_init"
| step: "cs_uncontended s \<Longrightarrow> cs_exec call s = Some t \<Longrightarrow> WaitList (crit t) = [] \<Longrightarrow> cs_uncontended t"

fun cs_run :: "cs_call list \<Rightarrow> cs_system \<Rightarrow> cs_system option" where
  "cs_run [] s = Some s"
| "cs_run (c # cs) s = Option.bind (cs_exec c s) (cs_run cs)"

section \<open>Exclusion without contention\<close>

text \<open>
  The abstract recursive lock: free, or an owner with a depth. \<open>None\<close> is a call that must wait or
  is not allowed. The section implements it while nobody waits.
\<close>

type_synonym lock = "(thread \<times> nat) option"

fun lock_exec :: "cs_call \<Rightarrow> lock \<Rightarrow> lock option" where
  "lock_exec (Enter t) None = Some (Some (t, 1))"
| "lock_exec (Enter t) (Some (u, n)) = (if t = u then Some (Some (u, n + 1)) else None)"
| "lock_exec (TryEnter t) None = Some (Some (t, 1))"
| "lock_exec (TryEnter t) (Some (u, n)) = Some (if t = u then Some (u, n + 1) else Some (u, n))"
| "lock_exec (Leave t) (Some (u, n)) =
     (if t = u then Some (if n = 1 then None else Some (u, n - 1)) else None)"
| "lock_exec (Leave t) None = None"
| "lock_exec (Resume t) l = None"

fun call_thread :: "cs_call \<Rightarrow> thread" where
  "call_thread (Enter t) = t"
| "call_thread (TryEnter t) = t"
| "call_thread (Leave t) = t"
| "call_thread (Resume t) = t"

definition cs_abs :: "cs_system \<Rightarrow> lock" where
  "cs_abs s = (if holders s = {#} then None else Some (OwningThread (crit s), size (holders s)))"

definition cs_quiet_inv :: "cs_system \<Rightarrow> bool" where
  "cs_quiet_inv s \<longleftrightarrow> ready s = [] \<and> WaitList (crit s) = [] \<and> \<not> SignalState (crit s)
     \<and> LockCount (crit s) = int (size (holders s)) - 1 \<and> RecursionCount (crit s) = int (size (holders s))
     \<and> holders s = replicate_mset (size (holders s)) (OwningThread (crit s))
     \<and> (OwningThread (crit s) = 0 \<longleftrightarrow> holders s = {#})"

lemmas cs_call_defs = RtlEnterCriticalSection_def RtlTryEnterCriticalSection_def RtlLeaveCriticalSection_def
  KeSetEvent_cs_def KeWaitForSingleObject_cs_def take_ownership_def Let_def

lemma cs_quiet_init: "cs_quiet_inv cs_init"
  by (simp add: cs_quiet_inv_def cs_init_def RtlInitializeCriticalSection_def)

lemma cs_quiet_step:
  assumes "cs_quiet_inv s" and "cs_exec c s = Some t" and "WaitList (crit t) = []"
  shows "cs_quiet_inv t"
proof -
  define n o' where "n = size (holders s)" and "o' = OwningThread (crit s)"
  then have h: "holders s = replicate_mset n o'" "OwningThread (crit s) = o'" "o' = 0 \<longleftrightarrow> n = 0"
    using assms(1) by (simp_all add: cs_quiet_inv_def)
  show ?thesis
  proof (cases c)
    case (Enter x1)
    then show ?thesis using assms h
      by (cases n) (auto simp: cs_quiet_inv_def cs_call_defs running_def split: if_splits)
  next
    case (Resume x2)
    then show ?thesis using assms by (simp add: cs_quiet_inv_def)
  next
    case (TryEnter x3)
    then show ?thesis using assms h
      by (cases n) (auto simp: cs_quiet_inv_def cs_call_defs running_def split: if_splits)
  next
    case (Leave x4)
    then show ?thesis using assms h
      by (cases n) (auto simp: cs_quiet_inv_def cs_call_defs running_def split: if_splits)
  qed
qed

lemma cs_uncontended_inv: "cs_uncontended s \<Longrightarrow> cs_quiet_inv s"
  by (induction rule: cs_uncontended.induct) (auto intro: cs_quiet_init cs_quiet_step)

section \<open>Counting and wake-ups\<close>

text \<open>\<open>LockCount\<close> counts the entries that were not left, the waiters and the readied threads.\<close>

definition cs_count_inv :: "cs_system \<Rightarrow> bool" where
  "cs_count_inv s \<longleftrightarrow> LockCount (crit s) + 1 = int (size (holders s) + length (WaitList (crit s)) + length (ready s))"

lemma cs_count_init: "cs_count_inv cs_init"
  by (simp add: cs_count_inv_def cs_init_def RtlInitializeCriticalSection_def)

lemma cs_count_step:
  assumes "cs_count_inv s" and "cs_exec c s = Some t"
  shows "cs_count_inv t"
proof (cases c)
  case (Enter x1)
  then show ?thesis using assms by (auto simp: cs_count_inv_def cs_call_defs split: if_splits)
next
  case (Resume x2)
  then show ?thesis using assms
    by (auto simp: cs_count_inv_def cs_call_defs length_remove1 in_set_conv_decomp split: if_splits)
next
  case (TryEnter x3)
  then show ?thesis using assms by (auto simp: cs_count_inv_def cs_call_defs split: if_splits)
next
  case (Leave x4)
  then obtain H where "holders s = add_mset x4 H"
    using assms(2) by (auto dest: multi_member_split split: if_splits)
  with Leave show ?thesis using assms by (auto simp: cs_count_inv_def cs_call_defs split: if_splits list.splits)
qed

lemma cs_reachable_count: "cs_reachable s \<Longrightarrow> cs_count_inv s"
  by (induction rule: cs_reachable.induct) (auto intro: cs_count_init cs_count_step)

section \<open>Properties\<close>

lemma cs_step_simulation:
  assumes "cs_quiet_inv s" and "call_thread c \<noteq> 0"
  shows "case lock_exec c (cs_abs s) of
      None \<Rightarrow> \<not> (\<exists>t. cs_exec c s = Some t \<and> WaitList (crit t) = [])
    | Some l \<Rightarrow> \<exists>t. cs_exec c s = Some t \<and> WaitList (crit t) = [] \<and> cs_abs t = l"
proof -
  define n o' where "n = size (holders s)" and "o' = OwningThread (crit s)"
  then have h: "holders s = replicate_mset n o'" "OwningThread (crit s) = o'" "o' = 0 \<longleftrightarrow> n = 0"
    using assms(1) by (simp_all add: cs_quiet_inv_def)
  show ?thesis
  proof (cases c)
    case (Enter x1)
    then show ?thesis using assms h
      by (cases n) (auto simp: cs_quiet_inv_def cs_call_defs running_def cs_abs_def)
  next
    case (Resume x2)
    then show ?thesis using assms by (simp add: cs_quiet_inv_def)
  next
    case (TryEnter x3)
    then show ?thesis using assms h
      by (cases n) (auto simp: cs_quiet_inv_def cs_call_defs running_def cs_abs_def)
  next
    case (Leave x4)
    then show ?thesis using assms h
      by (cases n) (auto simp: cs_quiet_inv_def cs_call_defs running_def cs_abs_def)
  qed
qed



text \<open>No wake-up is lost: in every reachable state, contended or not, a thread that gives the
  section up while others wait readies the longest waiting one, which can then finish its call.\<close>

theorem cs_no_lost_wakeup:
  assumes "cs_reachable s" and "cs_exec (Leave t) s = Some s'"
    and "RecursionCount (crit s) = 1" and "WaitList (crit s) = w # ws"
  shows "WaitList (crit s') = ws \<and> w \<in> set (ready s')
    \<and> (\<exists>s''. cs_exec (Resume w) s' = Some s'' \<and> OwningThread (crit s'') = w \<and> w \<in># holders s'')"
proof -
  obtain H where "holders s = add_mset t H"
    using assms(2) by (auto dest: multi_member_split split: if_splits)
  then have "1 \<le> LockCount (crit s)"
    using cs_reachable_count [OF assms(1)] assms(4) by (simp add: cs_count_inv_def)
  then show ?thesis using assms(2-4) by (auto simp: cs_call_defs split: if_splits)
qed

lemma cs_reachable_run: "cs_reachable s \<Longrightarrow> cs_run calls s = Some t \<Longrightarrow> cs_reachable t"
  by (induction calls arbitrary: s) (auto simp: bind_eq_Some_conv intro: cs_reachable.step)

theorem cs_no_lost_wakeup_witness:
  "\<exists>s s'. cs_run [Enter 1, Enter 2] cs_init = Some s \<and> cs_exec (Leave 1) s = Some s' \<and> 2 \<in> set (ready s')"
proof -
  obtain s where s: "cs_run [Enter 1, Enter 2] cs_init = Some s" "RecursionCount (crit s) = 1" "WaitList (crit s) = [2]"
    and "cs_exec (Leave 1) s \<noteq> None"
    by (simp add: cs_init_def RtlInitializeCriticalSection_def cs_call_defs running_def)
  then obtain s' where "cs_exec (Leave 1) s = Some s'" by blast
  with cs_no_lost_wakeup [OF cs_reachable_run [OF cs_reachable.init s(1)] this s(2,3)] s(1) show ?thesis by blast
qed

text \<open>Exclusion is lost under contention. When the owner leaves while a thread waits, the
  section has no owner until the waiter resumes, although the lock count shows that it is taken: a
  third thread that enters in between does not wait, and both hold the section.\<close>

theorem cs_exclusion_lost:
  assumes "a \<noteq> 0" "b \<noteq> 0" "c \<noteq> 0" "a \<noteq> b" "b \<noteq> c"
  shows "\<exists>s. cs_run [Enter a, Enter b, Leave a, Enter c, Resume b] cs_init = Some s
    \<and> holders s = {#b, c#} \<and> WaitList (crit s) = []"
  using assms by (simp add: cs_init_def RtlInitializeCriticalSection_def cs_call_defs running_def)

theorem cs_exclusion_lost_witness:
  "\<exists>s. cs_run [Enter 1, Enter 2, Leave 1, Enter 3, Resume 2] cs_init = Some s \<and> holders s = {#2, 3#}"
  using cs_exclusion_lost [of 1 2 3] by (auto simp del: cs_exec.simps cs_run.simps)

end
