(* ===== verification/Mm_Pages.thy ===== *)
theory Mm_Pages
  imports Cxbx_Prelude
begin

text \<open>
  The physical memory manager (\<open>core/kernel/memory-manager/PhysicalMemory.cpp\<close>): the list of free
  page blocks with \<open>RemoveFree\<close> and \<open>InsertFree\<close>.

  \<open>FreeList\<close> is kept from the top: its head is the block that \<open>FreeList.Blink\<close> names, where both
  operations start to search. Page numbers and counts are 32-bit. The lemmas show that
  the search finds the highest place where a request fits, and takes exactly its pages.
  \<open>Mm_Free\<close> has the theorems on the whole operations.
\<close>

section \<open>The free list\<close>

record phys_mem =
  FreeList :: "(u32 \<times> u32) list"
  m_PhysicalPagesAvailable :: u32
  m_DebuggerPagesAvailable :: u32
  m_HighestPage :: u32
  m_MmLayoutDebug :: bool

definition DEBUGKIT_FIRST_UPPER_HALF_PAGE :: u32 where "DEBUGKIT_FIRST_UPPER_HALF_PAGE = 0x4000"

text \<open>The last page of an aligned range that ends at or before \<open>IntersectionEnd\<close>, in 32 bits.\<close>

definition aligned_end :: "u32 \<Rightarrow> u32 \<Rightarrow> u32 \<Rightarrow> u32" where
  "aligned_end NumberOfPages PfnAlignment IntersectionEnd =
     (let PfnAlignmentMask = NOT (PfnAlignment - 1);
          PfnAlignmentSubtraction = ((NumberOfPages + PfnAlignment - 1) AND PfnAlignmentMask) - NumberOfPages + 1
      in ((IntersectionEnd + 1) AND PfnAlignmentMask) - PfnAlignmentSubtraction)"

text \<open>The checks that lead to \<open>InvalidBlock\<close>; otherwise the intersection.\<close>

definition usable_block :: "u32 \<Rightarrow> u32 \<Rightarrow> u32 \<Rightarrow> u32 \<Rightarrow> u32 \<times> u32 \<Rightarrow> (u32 \<times> u32) option" where
  "usable_block N A start fin b =
     (let PfnStart = fst b; PfnCount = snd b; PfnEnd = PfnStart + PfnCount - 1;
          IS = (if PfnStart \<le> start then start else PfnStart);
          IE = (if fin \<le> PfnEnd then fin else PfnEnd);
          IE' = (if A \<noteq> 0 then aligned_end N A IE else IE)
      in if PfnCount < N then None
         else if IE < IS then None
         else if IE - IS + 1 < N then None
         else if A \<noteq> 0 \<and> (IE' < IS \<or> IE' - IS + 1 < N) then None
         else Some (IS, IE'))"

text \<open>The blocks that replace the chosen one, from the top, and \<open>PfnCount\<close>.\<close>

definition take_pages :: "u32 \<Rightarrow> u32 \<times> u32 \<Rightarrow> u32 \<times> u32 \<Rightarrow> (u32 \<times> u32) list \<times> u32" where
  "take_pages N b ie =
     (let PfnStart = fst b; n = snd b; PfnEnd = PfnStart + n - 1; IS = fst ie; IE = snd ie;
          above = (IE + 1, PfnStart + n - IE - 1);
          rest = IE - PfnStart - N + 1
      in if IS = PfnStart then
           (if IE = PfnEnd then (if n - N = 0 then [] else [(PfnStart, n - N)], n - N)
            else (above # (if rest = 0 then [] else [(PfnStart, rest)]), rest))
         else
           (if IE = PfnEnd then ([(PfnStart, n - N)], n - N) else ([above, (PfnStart, rest)], rest)))"

fun remove_loop :: "u32 \<Rightarrow> u32 \<Rightarrow> u32 \<Rightarrow> u32 \<Rightarrow> (u32 \<times> u32) list \<Rightarrow> ((u32 \<times> u32) list \<times> u32) option" where
  "remove_loop N A start fin [] = None"
| "remove_loop N A start fin (b # bs) =
     (case usable_block N A start fin b of
        Some ie \<Rightarrow> (let (new, c) = take_pages N b ie in Some (new @ bs, fst b + c))
      | None \<Rightarrow> (case remove_loop N A start fin bs of
            None \<Rightarrow> None | Some (bs', r) \<Rightarrow> Some (b # bs', r)))"

definition RemoveFree :: "u32 \<Rightarrow> u32 \<Rightarrow> u32 \<Rightarrow> u32 \<Rightarrow> (u32 option, phys_mem) run" where
  "RemoveFree NumberOfPages PfnAlignment start fin =
     (if NumberOfPages = 0 then ret None
      else bnd (get (\<lambda>s. remove_loop NumberOfPages PfnAlignment start fin (FreeList s))) (\<lambda>r. case r of
        None \<Rightarrow> ret None
      | Some (l, pfn) \<Rightarrow>
          bnd (modify (\<lambda>s. s\<lparr>FreeList := l\<rparr>)) (\<lambda>_.
          bnd (get m_MmLayoutDebug) (\<lambda>dbg.
          bnd (if dbg \<and> DEBUGKIT_FIRST_UPPER_HALF_PAGE \<le> pfn
               then bnd (modify (\<lambda>s. s\<lparr>m_DebuggerPagesAvailable := m_DebuggerPagesAvailable s - NumberOfPages\<rparr>)) (\<lambda>_.
                    bnd (get m_DebuggerPagesAvailable) (\<lambda>n. check (n \<le> DEBUGKIT_FIRST_UPPER_HALF_PAGE)))
               else bnd (modify (\<lambda>s. s\<lparr>m_PhysicalPagesAvailable := m_PhysicalPagesAvailable s - NumberOfPages\<rparr>)) (\<lambda>_.
                    bnd (get (\<lambda>s. (m_PhysicalPagesAvailable s, m_HighestPage s))) (\<lambda>(n, h). check (n \<le> h + 1))))
            (\<lambda>_. ret (Some pfn))))))"

text \<open>
  \<open>InsertFree\<close> puts a block below the blocks that start at or above it, checks that it overlaps
  neither neighbour, and merges it with a neighbour that touches it.
\<close>

definition insert_block :: "u32 \<Rightarrow> u32 \<Rightarrow> (u32 \<times> u32) list \<Rightarrow> (u32 \<times> u32) list option" where
  "insert_block start fin l =
     (let size = fin - start + 1;
          above = takeWhile (\<lambda>b. \<not> fst b < start) l;
          below = dropWhile (\<lambda>b. \<not> fst b < start) l
      in if below \<noteq> [] \<and> \<not> fst (hd below) + snd (hd below) - 1 < start then None
         else if above \<noteq> [] \<and> \<not> fin < fst (last above) then None
         else let (above', n) = (if above \<noteq> [] \<and> start + size = fst (last above)
                                 then (butlast above, size + snd (last above)) else (above, size))
              in Some (if below \<noteq> [] \<and> fst (hd below) + snd (hd below) = start
                       then above' @ (fst (hd below), snd (hd below) + n) # tl below
                       else above' @ (start, n) # below))"

definition InsertFree :: "u32 \<Rightarrow> u32 \<Rightarrow> (unit, phys_mem) run" where
  "InsertFree start fin =
     bnd (get (\<lambda>s. insert_block start fin (FreeList s))) (\<lambda>r. case r of
       None \<Rightarrow> fail AssertFailed
     | Some l \<Rightarrow>
         bnd (modify (\<lambda>s. s\<lparr>FreeList := l\<rparr>)) (\<lambda>_.
         bnd (get m_MmLayoutDebug) (\<lambda>dbg.
         if dbg \<and> DEBUGKIT_FIRST_UPPER_HALF_PAGE \<le> start
         then bnd (modify (\<lambda>s. s\<lparr>m_DebuggerPagesAvailable := m_DebuggerPagesAvailable s + (fin - start + 1)\<rparr>)) (\<lambda>_.
              bnd (get m_DebuggerPagesAvailable) (\<lambda>n. check (n \<le> DEBUGKIT_FIRST_UPPER_HALF_PAGE)))
         else bnd (modify (\<lambda>s. s\<lparr>m_PhysicalPagesAvailable := m_PhysicalPagesAvailable s + (fin - start + 1)\<rparr>)) (\<lambda>_.
              bnd (get (\<lambda>s. (m_PhysicalPagesAvailable s, m_HighestPage s))) (\<lambda>(n, h). check (n \<le> h + 1))))))"

definition IsMappable :: "u32 \<Rightarrow> bool \<Rightarrow> bool \<Rightarrow> phys_mem \<Rightarrow> bool" where
  "IsMappable PagesRequested bRetailRegion bDebugRegion s \<longleftrightarrow>
     bRetailRegion \<and> PagesRequested \<le> m_PhysicalPagesAvailable s
     \<or> bDebugRegion \<and> PagesRequested \<le> m_DebuggerPagesAvailable s"

section \<open>The set of free pages\<close>

definition run_pages :: "u32 \<times> u32 \<Rightarrow> nat set" where
  "run_pages b = {unat (fst b)..<unat (fst b) + unat (snd b)}"

definition free_pages :: "(u32 \<times> u32) list \<Rightarrow> nat set" where
  "free_pages l = (\<Union>b\<in>set l. run_pages b)"

text \<open>Blocks are not empty, descend, and do not touch; the first one ends below \<open>h\<close>.\<close>

fun free_below :: "nat \<Rightarrow> (u32 \<times> u32) list \<Rightarrow> bool" where
  "free_below h [] \<longleftrightarrow> True"
| "free_below h (b # bs) \<longleftrightarrow>
     0 < unat (snd b) \<and> unat (fst b) + unat (snd b) < h \<and> free_below (unat (fst b)) bs"

lemma free_pages_simps [simp]:
  "free_pages [] = {}" "free_pages (b # bs) = run_pages b \<union> free_pages bs"
  "free_pages (l @ m) = free_pages l \<union> free_pages m"
  by (auto simp: free_pages_def)

lemma free_below_mono: "free_below h l \<Longrightarrow> h \<le> k \<Longrightarrow> free_below k l"
  by (cases l) auto

lemma free_below_pages: "free_below h l \<Longrightarrow> x \<in> free_pages l \<Longrightarrow> x + 1 < h"
proof (induction l arbitrary: h)
  case (Cons b bs)
  show ?case
  proof (cases "x \<in> run_pages b")
    case True
    then show ?thesis using Cons.prems by (auto simp: run_pages_def)
  next
    case False
    then have "x + 1 < unat (fst b)" using Cons by auto
    then show ?thesis using Cons.prems by simp
  qed
qed simp

lemma finite_free_pages [simp]: "finite (free_pages l)"
  by (simp add: free_pages_def run_pages_def)

section \<open>Taking pages from a block\<close>

text \<open>32-bit arithmetic without overflow.\<close>

lemma u32_add: "unat a + unat b < 2 ^ 32 \<Longrightarrow> unat (a + b) = unat a + unat b" for a b :: u32
  by (simp add: unat_word_ariths)

lemma u32_sub: "unat b \<le> unat a \<Longrightarrow> unat (a - b) = unat a - unat b" for a b :: u32
  by (simp add: unat_sub word_le_nat_alt)

lemma take_pages_correct:
  assumes "take_pages N (s, n) (IS, IE) = (new, c)"
    and "unat s + unat n < 2 ^ 32" and "unat s \<le> unat IS" and "unat IE < unat s + unat n"
    and "unat IS + unat N \<le> unat IE + 1" and "0 < unat N"
  defines "P \<equiv> unat IE + 1 - unat N"
  shows "unat (s + c) = P" and "unat IS \<le> P" "P + unat N = unat IE + 1"
    and "free_pages new = run_pages (s, n) - {P..<P + unat N}"
    and "unat s + unat n < h \<Longrightarrow> free_below (unat s) bs \<Longrightarrow> free_below h (new @ bs)"
proof -
  have n0: "0 < unat n" using assms by linarith
  have e: "unat (s + n - 1) = unat s + unat n - 1"
    using assms(2) n0 by (simp add: u32_sub u32_add)
  have ie1: "unat (IE + 1) = unat IE + 1" using assms(2,4) by (simp add: u32_add)
  have ab: "unat (s + n - IE - 1) = unat s + unat n - unat IE - 1"
    using assms(2,4) by (simp add: u32_sub u32_add)
  have le: "unat s + unat N \<le> unat IE + 1" using assms(3,5) by linarith
  have "IE - s - N + 1 = IE + 1 - (s + N)" by simp
  moreover have "unat (s + N) = unat s + unat N" using assms(2,4) le by (intro u32_add) linarith
  ultimately have re: "unat (IE - s - N + 1) = unat IE + 1 - (unat s + unat N)"
    using le ie1 by (simp only: u32_sub)
  have nn: "unat (n - N) = unat n - unat N" using assms(3-5) by (intro u32_sub) linarith
  have q: "IS = s \<longleftrightarrow> unat IS = unat s" "IE = s + n - 1 \<longleftrightarrow> unat IE = unat s + unat n - 1"
    using e by (auto simp: word_unat_eq_iff)
  have z: "n - N = 0 \<longleftrightarrow> unat n = unat N" "IE - s - N + 1 = 0 \<longleftrightarrow> unat IE + 1 = unat s + unat N"
    using nn re le assms(3-5) by (auto simp: word_unat_eq_iff)
  show P: "unat IS \<le> P" "P + unat N = unat IE + 1" using assms(5) by (simp_all add: P_def)
  have m: "free_below (unat s) bs \<Longrightarrow> unat s + unat n < h \<Longrightarrow> free_below h bs"
    by (erule free_below_mono) simp
  have cs: "unat c = P - unat s \<and> free_pages new = run_pages (s, n) - {P..<P + unat N}
      \<and> (unat s + unat n < h \<longrightarrow> free_below (unat s) bs \<longrightarrow> free_below h (new @ bs))"
  proof (cases "unat IE = unat s + unat n - 1")
    case True
    have PN: "P + unat N = unat s + unat n" "unat s \<le> P" using True P n0 assms(3) by linarith+
    have E: "IE = s + n - 1" using True q by simp
    have c: "unat c = P - unat s"
      using assms(1) E PN nn by (auto simp: take_pages_def Let_def split: if_splits)
    show ?thesis
    proof (cases "IS = s \<and> n - N = 0")
      case T: True
      then have "new = []" using assms(1) E by (simp add: take_pages_def Let_def)
      moreover have "P = unat s" using T z(1) PN by simp
      ultimately show ?thesis using c PN m by (simp add: run_pages_def)
    next
      case F: False
      have "unat s < P" using F q(1) z(1) P(1) assms(3) PN by (metis add_right_cancel le_antisym le_neq_implies_less add.commute)
      moreover have "new = [(s, n - N)]"
        using F assms(1) E by (auto simp: take_pages_def Let_def split: if_splits)
      ultimately show ?thesis using c PN m nn by (auto simp: run_pages_def)
    qed
  next
    case False
    have E: "IE \<noteq> s + n - 1" using False q by simp
    have PN: "P + unat N = unat IE + 1" "unat s \<le> P" "unat IE + 1 < unat s + unat n"
      using False P assms(3,4) by linarith+
    have c: "unat c = P - unat s"
      using assms(1) E PN re by (auto simp: take_pages_def Let_def split: if_splits)
    have new: "new = (IE + 1, s + n - IE - 1) # (if IS = s \<and> IE - s - N + 1 = 0 then [] else [(s, IE - s - N + 1)])"
      using assms(1) E by (auto simp: take_pages_def Let_def split: if_splits)
    show ?thesis
    proof (cases "IS = s \<and> IE - s - N + 1 = 0")
      case T: True
      then have "P = unat s" using z(2) PN by simp
      moreover have "new = [(IE + 1, s + n - IE - 1)]" using T new by simp
      moreover have "free_below (unat (IE + 1)) bs" if "free_below (unat s) bs"
        using that by (rule free_below_mono) (use ie1 PN in linarith)
      ultimately show ?thesis using c PN ab ie1 by (auto simp: run_pages_def)
    next
      case F: False
      have "unat s < P" using F q(1) z(2) P(1) assms(3) PN by (metis add_right_cancel le_antisym le_neq_implies_less add.commute)
      moreover have "new = [(IE + 1, s + n - IE - 1), (s, IE - s - N + 1)]" using F new by simp
      ultimately show ?thesis using c PN ab ie1 re assms(6) by (auto simp: run_pages_def)
    qed
  qed
  show "unat (s + c) = P" using cs P assms(2-6) by (simp add: u32_add)
  show "free_pages new = run_pages (s, n) - {P..<P + unat N}" using cs by blast
  show "unat s + unat n < h \<Longrightarrow> free_below (unat s) bs \<Longrightarrow> free_below h (new @ bs)" using cs by blast
qed

section \<open>Where a request fits\<close>

lemma u32_align_down:
  fixes x :: u32
  assumes "k < 32"
  shows "unat (x AND NOT (2 ^ k - 1)) = unat x div 2 ^ k * 2 ^ k"
proof -
  have "x - take_bit k x = x AND NOT (take_bit k x)"
    by (rule disjunctive_diff) (simp add: bit_take_bit_iff)
  also have "\<dots> = x AND NOT (mask k)"
    by (rule bit_word_eqI) (auto simp: bit_simps)
  finally have "x AND NOT (2 ^ k - 1) = x - take_bit k x" by (simp add: mask_eq_exp_minus_1)
  moreover have "unat (take_bit k x) = unat x mod 2 ^ k"
    by (simp only: unsigned_take_bit_eq) (simp only: take_bit_eq_mod)
  ultimately show ?thesis by (simp add: u32_sub minus_mod_eq_div_mult)
qed

text \<open>The pages a request of \<open>N\<close> pages reserves: \<open>N\<close>, rounded up to the alignment.\<close>

definition granule :: "u32 \<Rightarrow> nat" where "granule A = (if A = 0 then 1 else unat A)"

definition need_pages :: "u32 \<Rightarrow> u32 \<Rightarrow> nat" where
  "need_pages N A = (unat N + granule A - 1) div granule A * granule A"

definition align_ok :: "u32 \<Rightarrow> bool" where "align_ok A \<longleftrightarrow> A = 0 \<or> (\<exists>k<20. A = 2 ^ k)"

lemma granule_pos [simp]: "0 < granule A"
  by (simp add: granule_def)
     (metis unat_eq_zero gr0I)

lemma need_pages_ge: "unat N \<le> need_pages N A"
  unfolding need_pages_def
  using div_mult_mod_eq [of "unat N + granule A - 1" "granule A"] mod_less_divisor [OF granule_pos, of "unat N + granule A - 1" A]
    granule_pos [of A] by linarith

lemma aligned_end_correct:
  assumes "align_ok A" "A \<noteq> 0" "unat N < 2 ^ 31" "unat e + 1 < 2 ^ 31"
    and "need_pages N A \<le> (unat e + 1) div unat A * unat A" "0 < unat N"
  shows "unat (aligned_end N A e) + 1 = (unat e + 1) div unat A * unat A - need_pages N A + unat N"
proof -
  obtain k where k: "k < 20" "A = 2 ^ k" using assms(1,2) by (auto simp: align_ok_def)
  have A: "unat A = 2 ^ k" "granule A = 2 ^ k" using k assms(2) by (simp_all add: granule_def unat_pow2)
  have b: "(2::nat) ^ k < 2 ^ 20" using k(1) by (intro power_strict_increasing) simp_all
  have a1: "unat (e + 1) = unat e + 1" using assms(4) by (simp add: u32_add)
  have a2: "unat (N + A - 1) = unat N + 2 ^ k - 1"
    using assms(3) b A one_le_power [of "2 :: nat" k] by (simp add: u32_add u32_sub trans_le_add2)
  have r: "unat ((N + A - 1) AND NOT (A - 1)) = need_pages N A"
    using k(1) a2 by (simp add: k(2) u32_align_down need_pages_def A [unfolded k(2)])
  have f: "unat ((e + 1) AND NOT (A - 1)) = (unat e + 1) div unat A * unat A"
    using k(1) a1 by (simp add: k(2) u32_align_down unat_pow2)
  have n: "unat N \<le> need_pages N A" by (rule need_pages_ge)
  define d where "d = ((e + 1) AND NOT (A - 1)) - ((N + A - 1) AND NOT (A - 1))"
  have "aligned_end N A e = d + (N - 1)"
    by (simp add: aligned_end_def Let_def d_def)
  moreover have N1: "unat (N - 1) = unat N - 1" using assms(6) by (simp add: u32_sub)
  moreover have d: "unat d = (unat e + 1) div unat A * unat A - need_pages N A"
    unfolding d_def using assms(5) r f by (simp only: u32_sub)
  moreover have "unat d \<le> unat e + 1" unfolding d by (rule order_trans [OF diff_le_self]) simp
  ultimately show ?thesis using assms(3,4,6) u32_add [of d "N - 1"] by simp
qed

definition pages_fit :: "u32 \<Rightarrow> u32 \<Rightarrow> u32 \<Rightarrow> u32 \<Rightarrow> nat set \<Rightarrow> nat \<Rightarrow> bool" where
  "pages_fit N A start fin F p \<longleftrightarrow> granule A dvd p \<and> unat start \<le> p
     \<and> p + need_pages N A \<le> unat fin + 1 \<and> {p..<p + need_pages N A} \<subseteq> F"

lemma need_pages_dvd [simp]: "granule A dvd need_pages N A"
  by (simp add: need_pages_def)

lemma u32_room: "0 < unat N \<Longrightarrow> unat e + 1 < 2 ^ 32 \<Longrightarrow>
    (e < i \<or> e - i + 1 < N) \<longleftrightarrow> unat e + 1 < unat i + unat N" for e i N :: u32
proof (cases "e < i")
  case False
  assume "0 < unat N" "unat e + 1 < 2 ^ 32"
  then have "unat (e - i + 1) = unat e - unat i + 1"
    using False by (simp add: u32_add u32_sub word_less_nat_alt)
  then show ?thesis using False by (auto simp: word_less_nat_alt)
qed (simp add: word_less_nat_alt)

text \<open>The intersection of a block with the range, and the highest place in it.\<close>

lemma usable_block_correct:
  fixes s n N A start fin :: u32
  assumes al: "align_ok A" and b: "unat s + unat n < 2 ^ 31" "0 < unat n" "0 < unat N"
    and w: "A = 0 \<or> A \<le> start \<or> A \<le> s"
  shows "case usable_block N A start fin (s, n) of
      Some (IS, IE) \<Rightarrow> unat s \<le> unat IS \<and> unat IE < unat s + unat n \<and> unat IS + unat N \<le> unat IE + 1
        \<and> pages_fit N A start fin (run_pages (s, n)) (unat IE + 1 - unat N)
        \<and> (\<forall>p. pages_fit N A start fin (run_pages (s, n)) p \<longrightarrow> p \<le> unat IE + 1 - unat N)
    | None \<Rightarrow> \<forall>p. \<not> pages_fit N A start fin (run_pages (s, n)) p"
proof -
  define IS where "IS = (if s \<le> start then start else s)"
  define IE where "IE = (if fin \<le> s + n - 1 then fin else s + n - 1)"
  have e: "unat (s + n - 1) = unat s + unat n - 1" using b by (simp add: u32_sub u32_add)
  have si: "unat IS = max (unat start) (unat s)" by (simp add: IS_def word_le_nat_alt max_def)
  have ei: "unat IE = min (unat fin) (unat s + unat n - 1)" using e by (simp add: IE_def word_le_nat_alt min_def)
  have fit: "pages_fit N A start fin (run_pages (s, n)) p \<longleftrightarrow>
      granule A dvd p \<and> unat IS \<le> p \<and> p + need_pages N A \<le> unat IE + 1" for p
    using need_pages_ge [of N A] b unfolding pages_fit_def run_pages_def si ei by auto
  have bd: "unat IE + 1 < 2 ^ 32" "unat IE < unat s + unat n" using ei b by auto
  have room: "(IE < IS \<or> IE - IS + 1 < N) \<longleftrightarrow> unat IE + 1 < unat IS + unat N"
    using b(3) bd(1) by (rule u32_room)
  have big: "unat IE + 1 < unat IS + unat N" if "n < N"
    using that si ei b by (simp add: word_less_nat_alt)
  have bN: "unat N < 2 ^ 31" if "\<not> n < N" using that b by (simp add: word_less_nat_alt)
  show ?thesis
  proof (cases "unat IE + 1 < unat IS + unat N")
    case True
    then have "usable_block N A start fin (s, n) = None"
      using room by (auto simp: usable_block_def Let_def IS_def IE_def)
    then show ?thesis using True need_pages_ge [of N A] by (auto simp: fit)
  next
    case False
    then have nN: "\<not> n < N" "\<not> IE < IS" "\<not> IE - IS + 1 < N" using big room by auto
    show ?thesis
    proof (cases "A = 0")
      case True
      then have "usable_block N A start fin (s, n) = Some (IS, IE)"
        using nN by (auto simp: usable_block_def Let_def IS_def IE_def)
      moreover have "pages_fit N A start fin (run_pages (s, n)) p \<longleftrightarrow> unat IS \<le> p \<and> p + unat N \<le> unat IE + 1" for p
        by (simp only: fit) (simp add: True granule_def need_pages_def)
      moreover have "unat IS \<le> unat IE + 1 - unat N" "unat IE + 1 - unat N + unat N \<le> unat IE + 1"
        "unat s \<le> unat IS" "unat IS + unat N \<le> unat IE + 1"
        using False b(3) si by linarith+
      moreover have "p \<le> unat IE + 1 - unat N" if "p + unat N \<le> unat IE + 1" for p using that by simp
      ultimately show ?thesis using bd(2) by simp
    next
      case nz: False
      define e where "e = aligned_end N A IE"
      define F where "F = (unat IE + 1) div unat A * unat A"
      have g: "granule A = unat A" using nz by (simp add: granule_def)
      have "unat A \<le> unat IS" using w nz si by (auto simp: word_le_nat_alt)
      then have "need_pages N A \<le> F" unfolding need_pages_def g F_def
        using False by (intro mult_le_mono1 div_le_mono) linarith
      moreover have "F \<le> unat IE + 1" by (simp add: F_def)
      moreover have e1: "unat e + 1 = F - need_pages N A + unat N"
        unfolding e_def F_def using al nz bN [OF nN(1)] bd b calculation
        by (intro aligned_end_correct) (simp_all add: F_def)
      ultimately have le: "unat e + 1 \<le> unat IE + 1" using need_pages_ge [of N A] by linarith
      then have "unat e + 1 < 2 ^ 32" using bd(1) by linarith
      then have re: "(e < IS \<or> e - IS + 1 < N) \<longleftrightarrow> F - need_pages N A < unat IS"
        using u32_room [OF b(3), of e IS] e1 by linarith
      have "usable_block N A start fin (s, n) = (if e < IS \<or> e - IS + 1 < N then None else Some (IS, e))"
        using nN nz by (auto simp: usable_block_def Let_def IS_def IE_def e_def)
      then have u: "usable_block N A start fin (s, n) = (if F - need_pages N A < unat IS then None else Some (IS, e))"
        using re by simp
      have mx: "p \<le> F - need_pages N A" if "granule A dvd p" "p + need_pages N A \<le> unat IE + 1" for p
      proof -
        have "unat A dvd p + need_pages N A" using that(1) need_pages_dvd [of A N] by (simp add: g)
        then have "p + need_pages N A \<le> F" unfolding F_def
          using div_le_mono [OF that(2), of "unat A"] by (metis dvd_div_mult_self mult_le_mono1)
        then show ?thesis by simp
      qed
      have "unat A dvd F - need_pages N A"
        using need_pages_dvd [of A N] by (simp add: g F_def dvd_diff_nat)
      then have fr: "pages_fit N A start fin (run_pages (s, n)) (F - need_pages N A) \<longleftrightarrow> unat IS \<le> F - need_pages N A"
        using \<open>need_pages N A \<le> F\<close> \<open>F \<le> unat IE + 1\<close> by (auto simp: fit g)
      have fm: "p \<le> F - need_pages N A" if "pages_fit N A start fin (run_pages (s, n)) p" for p
        using that mx unfolding fit by blast
      have r: "unat e + 1 - unat N = F - need_pages N A" using e1 by simp
      show ?thesis
      proof (cases "F - need_pages N A < unat IS")
        case True
        have "\<not> pages_fit N A start fin (run_pages (s, n)) p" for p
        proof
          assume f: "pages_fit N A start fin (run_pages (s, n)) p"
          then have "unat IS \<le> p" unfolding fit by blast
          then show False using fm [OF f] True by linarith
        qed
        then show ?thesis using u True by simp
      next
        case ge: False
        have "unat s \<le> unat IS" using si by simp
        moreover have "unat e < unat s + unat n" using le bd(2) by linarith
        moreover have "unat IS + unat N \<le> unat e + 1" using ge e1 by linarith
        moreover have "usable_block N A start fin (s, n) = Some (IS, e)" using u ge by simp
        ultimately show ?thesis using fr fm r ge by (simp only: option.case prod.case) simp
      qed
    qed
  qed
qed

section \<open>The search\<close>

lemma pages_fit_mono: "pages_fit N A start fin F p \<Longrightarrow> F \<subseteq> G \<Longrightarrow> pages_fit N A start fin G p"
  by (auto simp: pages_fit_def)

text \<open>A run of free pages lies in one block, because blocks do not touch.\<close>

lemma pages_fit_cons:
  assumes "free_below h (b # bs)" "0 < unat N"
  shows "pages_fit N A start fin (free_pages (b # bs)) p \<longleftrightarrow>
    pages_fit N A start fin (run_pages b) p \<or> pages_fit N A start fin (free_pages bs) p"
    (is "?L \<longleftrightarrow> ?R")
proof
  assume L: ?L
  have bs: "x + 1 < unat (fst b)" if "x \<in> free_pages bs" for x
    using free_below_pages that assms(1) by auto
  define R where "R = need_pages N A"
  have R: "0 < R" using need_pages_ge [of N A] assms(2) by (simp add: R_def)
  have sub: "{p..<p + R} \<subseteq> run_pages b \<union> free_pages bs" using L by (simp add: pages_fit_def R_def)
  have "{p..<p + R} \<subseteq> run_pages b \<or> {p..<p + R} \<subseteq> free_pages bs"
  proof (cases "unat (fst b) \<le> p")
    case True
    have "x \<in> run_pages b" if "x \<in> {p..<p + R}" for x using that sub bs [of x] True by auto
    then show ?thesis by blast
  next
    case False
    have "p + R \<le> unat (fst b)"
    proof (rule ccontr)
      assume "\<not> ?thesis"
      then have "unat (fst b) - 1 \<in> {p..<p + R}" using False by auto
      then have "unat (fst b) - 1 \<in> run_pages b \<union> free_pages bs" using sub by blast
      then show False using bs [of "unat (fst b) - 1"] False by (auto simp: run_pages_def)
    qed
    then have "x \<in> free_pages bs" if "x \<in> {p..<p + R}" for x using that sub by (auto simp: run_pages_def)
    then show ?thesis by blast
  qed
  then show ?R using L by (auto simp: pages_fit_def R_def)
qed (auto intro: pages_fit_mono)

definition no_wrap :: "u32 \<Rightarrow> u32 \<Rightarrow> nat set \<Rightarrow> bool" where
  "no_wrap A start F \<longleftrightarrow> A = 0 \<or> A \<le> start \<or> (\<forall>x\<in>F. unat A \<le> x)"

lemma remove_loop_correct:
  assumes "free_below h l" "h \<le> 2 ^ 31" "align_ok A" "0 < unat N" "no_wrap A start (free_pages l)"
  shows "case remove_loop N A start fin l of
      Some (l', r) \<Rightarrow> pages_fit N A start fin (free_pages l) (unat r)
        \<and> (\<forall>p. pages_fit N A start fin (free_pages l) p \<longrightarrow> p \<le> unat r)
        \<and> free_pages l' = free_pages l - {unat r..<unat r + unat N} \<and> free_below h l'
    | None \<Rightarrow> \<forall>p. \<not> pages_fit N A start fin (free_pages l) p"
  using assms
proof (induction l arbitrary: h)
  case Nil
  then show ?case using need_pages_ge [of N A] by (auto simp: pages_fit_def)
next
  case (Cons b bs)
  obtain s n where sn [simp]: "b = (s, n)" by (cases b)
  have bd: "unat s + unat n < 2 ^ 31" "0 < unat n" "unat s + unat n < h" "free_below (unat s) bs"
    using Cons.prems by auto
  have bs: "x + 1 < unat s" if "x \<in> free_pages bs" for x using free_below_pages [OF bd(4) that] .
  have w: "A = 0 \<or> A \<le> start \<or> A \<le> s"
    using Cons.prems(5) bd(2) by (auto simp: no_wrap_def run_pages_def word_le_nat_alt)
  note split = pages_fit_cons [OF Cons.prems(1,4)]
  note ub = usable_block_correct [OF Cons.prems(3) bd(1,2) Cons.prems(4) w, of fin]
  show ?case
  proof (cases "usable_block N A start fin b")
    case None
    then have no: "\<not> pages_fit N A start fin (run_pages b) p" for p using ub by simp
    have "no_wrap A start (free_pages bs)" using Cons.prems(5) by (auto simp: no_wrap_def)
    then have ih: "case remove_loop N A start fin bs of
      Some (l', r) \<Rightarrow> pages_fit N A start fin (free_pages bs) (unat r)
        \<and> (\<forall>p. pages_fit N A start fin (free_pages bs) p \<longrightarrow> p \<le> unat r)
        \<and> free_pages l' = free_pages bs - {unat r..<unat r + unat N} \<and> free_below (unat s) l'
    | None \<Rightarrow> \<forall>p. \<not> pages_fit N A start fin (free_pages bs) p"
      using bd Cons.prems by (intro Cons.IH) simp_all
    show ?thesis
    proof (cases "remove_loop N A start fin bs")
      case N: None
      then show ?thesis using None ih no split by simp
    next
      case (Some x)
      obtain l' r where x: "x = (l', r)" by (cases x)
      have f: "pages_fit N A start fin (free_pages bs) (unat r)" using ih Some x by simp
      then have "{unat r..<unat r + need_pages N A} \<subseteq> free_pages bs" by (simp add: pages_fit_def)
      then have "{unat r..<unat r + unat N} \<subseteq> free_pages bs" using need_pages_ge [of N A] by auto
      then have "run_pages b \<inter> {unat r..<unat r + unat N} = {}"
        using bs by (fastforce simp: run_pages_def)
      then have "run_pages b \<union> (free_pages bs - {unat r..<unat r + unat N})
          = free_pages (b # bs) - {unat r..<unat r + unat N}" by auto
      then show ?thesis using None Some x ih no split bd by auto
    qed
  next
    case (Some ie)
    obtain IS IE where ie: "ie = (IS, IE)" by (cases ie)
    obtain new c where tk: "take_pages N (s, n) (IS, IE) = (new, c)" by (cases "take_pages N (s, n) (IS, IE)")
    have u: "unat s \<le> unat IS" "unat IE < unat s + unat n" "unat IS + unat N \<le> unat IE + 1"
        "pages_fit N A start fin (run_pages (s, n)) (unat IE + 1 - unat N)"
        "\<And>p. pages_fit N A start fin (run_pages (s, n)) p \<Longrightarrow> p \<le> unat IE + 1 - unat N"
      using ub Some ie by auto
    have bd32: "unat s + unat n < 2 ^ 32" using bd(1) by simp
    note tp = take_pages_correct [OF tk bd32 u(1-3) Cons.prems(4)]
    have res: "remove_loop N A start fin (b # bs) = Some (new @ bs, s + c)"
      using Some ie tk by simp
    have low: "p \<le> unat IE + 1 - unat N" if "pages_fit N A start fin (free_pages bs) p" for p
    proof -
      have "p \<in> free_pages bs" using that need_pages_ge [of N A] Cons.prems(4)
        by (auto simp: pages_fit_def)
      then show ?thesis using bs [of p] u(1,3) by linarith
    qed
    have dis: "free_pages bs \<inter> {unat (s + c)..<unat (s + c) + unat N} = {}"
      using bs tp(1,2) u(1) by fastforce
    show ?thesis unfolding res using tp u low bd split dis by auto
  qed
qed

end
