(* ===== verification/Mm_Free.thy ===== *)
theory Mm_Free
  imports Mm_Pages
begin

text \<open>
  Correctness of \<open>RemoveFree\<close> and \<open>InsertFree\<close> (\<open>PhysicalMemory.cpp\<close>) on a well-formed retail free
  list (\<open>phys_ok\<close>: blocks descend and do not touch, the counter is the number of free pages): the
  list, which is the only one with its free pages (\<open>free_list_unique\<close>), implements a set of pages.
\<close>

section \<open>Inserting a block\<close>

fun lowest :: "nat \<Rightarrow> (u32 \<times> u32) list \<Rightarrow> nat" where
  "lowest h [] = h"
| "lowest h (b # bs) = lowest (unat (fst b)) bs"

lemma lowest_snoc [simp]: "lowest h (xs @ [x]) = unat (fst x)"
  by (induction xs arbitrary: h) auto

lemma free_below_append:
  "free_below h (xs @ ys) \<longleftrightarrow> free_below h xs \<and> free_below (lowest h xs) ys"
  by (induction xs arbitrary: h) auto

lemma lowest_le: "free_below h l \<Longrightarrow> lowest h l \<le> h"
proof (induction l arbitrary: h)
  case (Cons b bs)
  then have "lowest (unat (fst b)) bs \<le> unat (fst b)" by simp
  then show ?case using Cons.prems by simp
qed simp

lemma lowest_pages: "free_below h l \<Longrightarrow> x \<in> free_pages l \<Longrightarrow> lowest h l \<le> x"
proof (induction l arbitrary: h)
  case (Cons b bs)
  show ?case
  proof (cases "x \<in> free_pages bs")
    case False
    then have "unat (fst b) \<le> x" using Cons.prems by (auto simp: run_pages_def)
    then show ?thesis using lowest_le [of "unat (fst b)" bs] Cons.prems by simp
  qed (use Cons in auto)
qed simp

lemma merge_up:
  assumes "free_below h a" "h \<le> 2 ^ 31" "unat start \<le> unat fin" "unat fin + 1 < h"
    and "a = [] \<or> fin < fst (last a)" "w = fin - start + 1"
    and "(a', n) = (if a \<noteq> [] \<and> start + w = fst (last a) then (butlast a, w + snd (last a)) else (a, w))"
  shows "free_below h a'" "0 < unat n" "unat start + unat n < lowest h a'"
    and "free_pages a' \<union> run_pages (start, n) = free_pages a \<union> {unat start..unat fin}"
proof -
  have sz: "unat w = unat fin - unat start + 1"
    using assms(2,3,4,6) by (simp add: u32_add u32_sub)
  have end1: "unat (start + w) = unat fin + 1" using sz assms(2-4) by (simp add: u32_add)
  have r: "run_pages (start, w) = {unat start..unat fin}" using sz assms(3) by (auto simp: run_pages_def)
  have "free_below h a' \<and> 0 < unat n \<and> unat start + unat n < lowest h a'
    \<and> free_pages a' \<union> run_pages (start, n) = free_pages a \<union> {unat start..unat fin}"
  proof (cases a rule: rev_cases)
    case Nil
    then show ?thesis using assms(7) sz r assms(3,4) by simp
  next
    case (snoc b x)
    have x: "unat fin < unat (fst x)" using assms(5) snoc by (simp add: word_less_nat_alt)
    have fb: "free_below h b" "0 < unat (snd x)" "unat (fst x) + unat (snd x) < lowest h b"
      using assms(1) snoc by (auto simp: free_below_append)
    have lo: "lowest h b \<le> h" using fb(1) by (rule lowest_le)
    show ?thesis
    proof (cases "start + w = fst x")
      case True
      then have e: "unat (fst x) = unat fin + 1" using end1 by simp
      have n: "a' = b" "n = w + snd x" using assms(7) snoc True by auto
      have un: "unat n = unat w + unat (snd x)" using n sz e fb(3) lo assms(2,3) by (simp add: u32_add)
      show ?thesis using n un sz e fb r assms(3) snoc by (auto simp: run_pages_def)
    next
      case False
      then have n: "a' = a" "n = w" using assms(7) snoc by auto
      have "unat (fst x) \<noteq> unat fin + 1" using False end1 by (metis word_unat_eq_iff)
      then show ?thesis using n sz r assms(1,3) snoc x by auto
    qed
  qed
  then show "free_below h a'" "0 < unat n" "unat start + unat n < lowest h a'"
    and "free_pages a' \<union> run_pages (start, n) = free_pages a \<union> {unat start..unat fin}" by blast+
qed

lemma merge_down:
  assumes "free_below h a" "unat start + unat n < lowest h a" "0 < unat n" "lowest h a \<le> 2 ^ 31"
    and "free_below (unat start + 1) b"
  defines "l' \<equiv> (if b \<noteq> [] \<and> fst (hd b) + snd (hd b) = start
                 then a @ (fst (hd b), snd (hd b) + n) # tl b else a @ (start, n) # b)"
  shows "free_below h l' \<and> free_pages l' = free_pages a \<union> run_pages (start, n) \<union> free_pages b"
proof (cases b)
  case Nil
  then show ?thesis using assms by (auto simp: free_below_append l'_def)
next
  case (Cons x xs)
  have x: "0 < unat (snd x)" "unat (fst x) + unat (snd x) \<le> unat start" "free_below (unat (fst x)) xs"
    using assms(5) Cons by auto
  have add: "unat (fst x + snd x) = unat (fst x) + unat (snd x)"
    using x(2) assms(2,4) by (simp add: u32_add)
  show ?thesis
  proof (cases "fst x + snd x = start")
    case True
    then have s: "unat start = unat (fst x) + unat (snd x)" using add by simp
    have "unat (snd x + n) = unat (snd x) + unat n" using s assms(2,4) by (simp add: u32_add)
    then show ?thesis using True Cons s x assms(1-3) by (auto simp: free_below_append l'_def run_pages_def)
  next
    case False
    then have "unat (fst x) + unat (snd x) < unat start" using x(2) add by (metis le_neq_implies_less word_unat_eq_iff)
    then show ?thesis using False Cons x assms(1-3) by (auto simp: free_below_append l'_def)
  qed
qed

lemma insert_block_correct:
  assumes "free_below h l" "h \<le> 2 ^ 31" "unat start \<le> unat fin" "unat fin + 1 < h"
  shows "case insert_block start fin l of
      Some l' \<Rightarrow> free_pages l \<inter> {unat start..unat fin} = {} \<and> free_below h l'
        \<and> free_pages l' = free_pages l \<union> {unat start..unat fin}
    | None \<Rightarrow> free_pages l \<inter> {unat start..unat fin} \<noteq> {}"
proof -
  define a where "a = takeWhile (\<lambda>b. \<not> fst b < start) l"
  define b where "b = dropWhile (\<lambda>b. \<not> fst b < start) l"
  have l: "l = a @ b" by (simp add: a_def b_def)
  have fa: "free_below h a" and fb: "free_below (lowest h a) b"
    using assms(1) by (auto simp: l free_below_append)
  have la: "lowest h a \<le> h" using fa by (rule lowest_le)
  have hb: "fst (hd b) < start" if "b \<noteq> []"
    using that hd_dropWhile [of "\<lambda>b. \<not> fst b < start" l] by (simp add: b_def)
  have ha: "\<not> fst (last a) < start" if "a \<noteq> []"
    using that set_takeWhileD [of "last a" "\<lambda>b. \<not> fst b < start" l] last_in_set [of a] by (simp add: a_def)
  have fl: "free_pages l = free_pages a \<union> free_pages b" by (simp add: l)
  have bend: "unat (fst (hd b) + snd (hd b) - 1) = unat (fst (hd b)) + unat (snd (hd b)) - 1"
      "0 < unat (snd (hd b))" if "b \<noteq> []"
    using that fb la assms(2) by (cases b; simp add: u32_add u32_sub)+
  show ?thesis
  proof (cases "b \<noteq> [] \<and> \<not> fst (hd b) + snd (hd b) - 1 < start")
    case True
    then have "unat start \<in> run_pages (hd b)" using hb bend
      by (auto simp: run_pages_def word_less_nat_alt)
    then have "unat start \<in> free_pages b" using True by (cases b) auto
    moreover have "insert_block start fin l = None" using True by (auto simp: insert_block_def Let_def a_def b_def)
    ultimately show ?thesis using assms(3) fl by auto
  next
    case f1: False
    show ?thesis
    proof (cases "a \<noteq> [] \<and> \<not> fin < fst (last a)")
      case True
      obtain c x where ax: "a = c @ [x]" using True by (cases a rule: rev_cases) auto
      have "unat (fst x) \<in> free_pages a" using fa by (auto simp: ax free_below_append run_pages_def)
      moreover have "unat (fst x) \<in> {unat start..unat fin}"
        using True ha by (simp add: ax word_less_nat_alt)
      moreover have "insert_block start fin l = None" using True by (auto simp: insert_block_def Let_def a_def b_def)
      ultimately show ?thesis using fl by auto
    next
      case f2: False
      define w where "w = fin - start + 1"
      obtain a' n where an: "(a', n) = (if a \<noteq> [] \<and> start + w = fst (last a) then (butlast a, w + snd (last a)) else (a, w))"
        by (metis surj_pair)
      define l' where "l' = (if b \<noteq> [] \<and> fst (hd b) + snd (hd b) = start
                 then a' @ (fst (hd b), snd (hd b) + n) # tl b else a' @ (start, n) # b)"
      have res: "insert_block start fin l = Some l'"
        using f1 f2 an by (auto simp: insert_block_def Let_def a_def [symmetric] b_def [symmetric] w_def l'_def split: if_splits)
      have "a = [] \<or> fin < fst (last a)" using f2 by blast
      note up = merge_up [OF fa assms(2-4) this w_def an]
      have sb: "free_below (unat start + 1) b"
        using f1 fb bend by (cases b) (auto simp: word_less_nat_alt)
      have "lowest h a' \<le> h" using up(1) by (rule lowest_le)
      then have "lowest h a' \<le> 2 ^ 31" using assms(2) by linarith
      note dn = merge_down [OF up(1,3,2) this sb, folded l'_def]
      have "x < unat start" if "x \<in> free_pages b" for x using free_below_pages [OF sb that] by simp
      moreover have "unat fin < x" if "x \<in> free_pages a" for x
        using lowest_pages [OF fa that] f2 that by (cases a rule: rev_cases) (auto simp: word_less_nat_alt)
      ultimately have "free_pages l \<inter> {unat start..unat fin} = {}" unfolding fl by fastforce
      then show ?thesis unfolding res using dn up(4) by (auto simp: fl)
    qed
  qed
qed

section \<open>The operations\<close>

lemma free_list_unique:
  "free_below h l \<Longrightarrow> free_below k m \<Longrightarrow> free_pages l = free_pages m \<Longrightarrow> l = m"
proof (induction l arbitrary: h k m)
  case Nil
  then show ?case by (cases m) (auto simp: run_pages_def)
next
  case (Cons b bs)
  from Cons.prems have "free_pages m \<noteq> {}" by (auto simp: run_pages_def)
  then obtain c cs where m: "m = c # cs" by (cases m) auto
  define eb ec where "eb = unat (fst b) + unat (snd b)" and "ec = unat (fst c) + unat (snd c)"
  have b: "0 < unat (snd b)" "free_below (unat (fst b)) bs" "free_below (eb + 1) (b # bs)"
    and c: "0 < unat (snd c)" "free_below (unat (fst c)) cs" "free_below (ec + 1) (c # cs)"
    using Cons.prems m by (auto simp: eb_def ec_def)
  have eq: "free_pages (b # bs) = free_pages (c # cs)" using Cons.prems m by simp
  have "eb - 1 \<in> free_pages (b # bs)" "ec - 1 \<in> free_pages (c # cs)"
    using b(1) c(1) by (auto simp: run_pages_def eb_def ec_def)
  then have e: "eb = ec"
    using free_below_pages [OF b(3)] free_below_pages [OF c(3)] b(1) c(1) unfolding eq
    by (fastforce simp: eb_def ec_def)
  have in_b: "x \<in> free_pages (b # bs) \<Longrightarrow> x + 1 = unat (fst b) \<Longrightarrow> False" for x
    using free_below_pages [OF b(2), of x] by (auto simp: run_pages_def)
  have in_c: "x \<in> free_pages (c # cs) \<Longrightarrow> x + 1 = unat (fst c) \<Longrightarrow> False" for x
    using free_below_pages [OF c(2), of x] by (auto simp: run_pages_def)
  have "unat (fst b) = unat (fst c)"
  proof (rule ccontr)
    assume n: "unat (fst b) \<noteq> unat (fst c)"
    show False
    proof (cases "unat (fst b) < unat (fst c)")
      case True
      then have "unat (fst c) - 1 \<in> run_pages b" using e c(1) by (auto simp: run_pages_def eb_def ec_def)
      then show False using in_c [of "unat (fst c) - 1"] eq True by auto
    next
      case False
      then have "unat (fst b) - 1 \<in> run_pages c" using n e b(1) by (auto simp: run_pages_def eb_def ec_def)
      then show False using in_b [of "unat (fst b) - 1"] eq n False by auto
    qed
  qed
  then have bc: "b = c" using e by (simp add: eb_def ec_def word_unat_eq_iff prod_eq_iff)
  have "x \<notin> run_pages b" if "x \<in> free_pages bs \<union> free_pages cs" for x
    using that free_below_pages [OF b(2)] free_below_pages [OF c(2)] bc by (fastforce simp: run_pages_def)
  then have "free_pages bs = free_pages cs" using eq bc by auto
  then show ?case using Cons.IH [OF b(2) c(2)] bc m by simp
qed

definition phys_ok :: "phys_mem \<Rightarrow> bool" where
  "phys_ok s \<longleftrightarrow> \<not> m_MmLayoutDebug s \<and> unat (m_HighestPage s) + 2 \<le> 2 ^ 31
     \<and> free_below (unat (m_HighestPage s) + 2) (FreeList s)
     \<and> unat (m_PhysicalPagesAvailable s) = card (free_pages (FreeList s))"

abbreviation frees :: "phys_mem \<Rightarrow> nat set" where "frees s \<equiv> free_pages (FreeList s)"

lemma phys_ok_card:
  assumes "phys_ok s" shows "frees s \<subseteq> {0..unat (m_HighestPage s)}" "card (frees s) \<le> unat (m_HighestPage s) + 1"
proof -
  show sub: "frees s \<subseteq> {0..unat (m_HighestPage s)}"
    using free_below_pages [of _ "FreeList s"] assms by (fastforce simp: phys_ok_def)
  show "card (frees s) \<le> unat (m_HighestPage s) + 1" using card_mono [OF _ sub] by simp
qed

lemma pages_ok:
  fixes n h :: u32
  assumes "unat h + 2 \<le> 2 ^ 31" "unat n \<le> unat h + 1" shows "n \<le> h + 1"
  using assms by (simp add: word_le_nat_alt u32_add)

lemma RemoveFree_correct:
  assumes "phys_ok s" "align_ok A" "0 < unat N" "no_wrap A start (frees s)"
  shows "\<exists>r s'. RemoveFree N A start fin s = Inr (r, s') \<and> phys_ok s' \<and> (case r of
      None \<Rightarrow> s' = s \<and> (\<forall>p. \<not> pages_fit N A start fin (frees s) p)
    | Some pfn \<Rightarrow> pages_fit N A start fin (frees s) (unat pfn)
        \<and> (\<forall>p. pages_fit N A start fin (frees s) p \<longrightarrow> p \<le> unat pfn)
        \<and> frees s' = frees s - {unat pfn..<unat pfn + unat N}
        \<and> s' = s\<lparr>FreeList := FreeList s', m_PhysicalPagesAvailable := m_PhysicalPagesAvailable s - N\<rparr>)"
proof -
  have ok: "\<not> m_MmLayoutDebug s" "unat (m_HighestPage s) + 2 \<le> 2 ^ 31"
    "free_below (unat (m_HighestPage s) + 2) (FreeList s)"
    "unat (m_PhysicalPagesAvailable s) = card (frees s)" using assms(1) by (auto simp: phys_ok_def)
  note rl = remove_loop_correct [OF ok(3,2) assms(2-4), of fin]
  have N: "N \<noteq> 0" using assms(3) by auto
  show ?thesis
  proof (cases "remove_loop N A start fin (FreeList s)")
    case None
    then show ?thesis using rl N assms(1) by (simp add: RemoveFree_def run_simps)
  next
    case (Some x)
    obtain l r where x: "x = (l, r)" by (cases x)
    have r: "pages_fit N A start fin (frees s) (unat r)" "\<And>p. pages_fit N A start fin (frees s) p \<Longrightarrow> p \<le> unat r"
      "free_pages l = frees s - {unat r..<unat r + unat N}" "free_below (unat (m_HighestPage s) + 2) l"
      using rl Some x by auto
    have sub: "{unat r..<unat r + unat N} \<subseteq> frees s"
      using r(1) need_pages_ge [of N A] by (auto simp: pages_fit_def)
    have c: "card (free_pages l) = card (frees s) - unat N" unfolding r(3) using sub
      by (subst card_Diff_subset) auto
    have "unat N \<le> card (frees s)" using card_mono [OF _ sub] by simp
    then have av: "unat (m_PhysicalPagesAvailable s - N) = card (free_pages l)"
      using ok(4) c by (simp add: u32_sub)
    have "m_PhysicalPagesAvailable s - N \<le> m_HighestPage s + 1"
      using phys_ok_card(2) [OF assms(1)] av c by (intro pages_ok [OF ok(2)]) linarith
    then have "RemoveFree N A start fin s
        = Inr (Some r, s\<lparr>FreeList := l, m_PhysicalPagesAvailable := m_PhysicalPagesAvailable s - N\<rparr>)"
      using N Some x ok(1) by (simp add: RemoveFree_def run_simps)
    then show ?thesis using r av ok by (auto simp: phys_ok_def)
  qed
qed

lemma InsertFree_correct:
  assumes "phys_ok s" "unat start \<le> unat fin" "fin \<le> m_HighestPage s"
  shows "if frees s \<inter> {unat start..unat fin} = {}
    then \<exists>s'. InsertFree start fin s = Inr ((), s') \<and> phys_ok s' \<and> frees s' = frees s \<union> {unat start..unat fin}
           \<and> s' = s\<lparr>FreeList := FreeList s', m_PhysicalPagesAvailable := m_PhysicalPagesAvailable s + (fin - start + 1)\<rparr>
    else InsertFree start fin s = Inl AssertFailed"
proof -
  have ok: "\<not> m_MmLayoutDebug s" "unat (m_HighestPage s) + 2 \<le> 2 ^ 31"
    "free_below (unat (m_HighestPage s) + 2) (FreeList s)"
    "unat (m_PhysicalPagesAvailable s) = card (frees s)" using assms(1) by (auto simp: phys_ok_def)
  have "unat fin + 1 < unat (m_HighestPage s) + 2" using assms(3) by (simp add: word_le_nat_alt)
  note ib = insert_block_correct [OF ok(3,2) assms(2) this]
  show ?thesis
  proof (cases "insert_block start fin (FreeList s)")
    case None
    then show ?thesis using ib by (simp add: InsertFree_def run_simps)
  next
    case (Some l)
    have l: "frees s \<inter> {unat start..unat fin} = {}" "free_below (unat (m_HighestPage s) + 2) l"
      "free_pages l = frees s \<union> {unat start..unat fin}" using ib Some by auto
    have c: "card (free_pages l) = card (frees s) + (unat fin - unat start + 1)"
      unfolding l(3) using l(1) assms(2) by (subst card_Un_disjoint) auto
    have "free_pages l \<subseteq> {0..unat (m_HighestPage s)}"
      using free_below_pages [OF l(2)] by fastforce
    then have cl: "card (free_pages l) \<le> unat (m_HighestPage s) + 1"
      using card_mono [of "{0..unat (m_HighestPage s)}" "free_pages l"] by simp
    have sz: "unat (fin - start + 1) = unat fin - unat start + 1"
      using assms(2,3) ok(2) by (simp add: u32_add u32_sub word_le_nat_alt)
    have av: "unat (m_PhysicalPagesAvailable s + (fin - start + 1)) = card (free_pages l)"
      using sz c cl ok(2,4) u32_add [of "m_PhysicalPagesAvailable s" "fin - start + 1"] by simp
    have "m_PhysicalPagesAvailable s + (fin - start + 1) \<le> m_HighestPage s + 1"
      using cl av by (intro pages_ok [OF ok(2)]) linarith
    then have "InsertFree start fin s = Inr ((), s\<lparr>FreeList := l,
        m_PhysicalPagesAvailable := m_PhysicalPagesAvailable s + (fin - start + 1)\<rparr>)"
      using Some ok(1) by (simp add: InsertFree_def run_simps)
    then show ?thesis using l av ok by (auto simp: phys_ok_def)
  qed
qed

section \<open>Properties\<close>

text \<open>C17: \<open>RemoveFree\<close> on a well-formed retail free list never fails an assertion and keeps the list
  and the page counter consistent. It finds the highest aligned page, inside the requested range, at
  which the pages of the request rounded up to the alignment are all free, and takes exactly the
  requested pages out of the free set; it returns false, with the state unchanged, exactly when there
  is no such page. (No free page may lie below the alignment unless the range starts above it.)\<close>

theorem phys_remove_free:
  assumes "phys_ok s" "align_ok A" "0 < unat N" "no_wrap A start (frees s)"
  shows "\<exists>r s'. RemoveFree N A start fin s = Inr (r, s') \<and> phys_ok s' \<and> (case r of
      None \<Rightarrow> s' = s \<and> (\<forall>p. \<not> pages_fit N A start fin (frees s) p)
    | Some pfn \<Rightarrow> pages_fit N A start fin (frees s) (unat pfn)
        \<and> (\<forall>p. pages_fit N A start fin (frees s) p \<longrightarrow> p \<le> unat pfn)
        \<and> frees s' = frees s - {unat pfn..<unat pfn + unat N})"
  using RemoveFree_correct [OF assms, of fin] by (fastforce split: option.splits)

text \<open>\<open>InsertFree\<close> on a well-formed retail free list adds exactly the released pages to the free set
  and keeps the list sorted, coalesced and in step with the page counter; when one of the pages is free
  already (a double free) an assertion fails instead.\<close>

theorem phys_insert_free:
  assumes "phys_ok s" "unat start \<le> unat fin" "fin \<le> m_HighestPage s"
  shows "if frees s \<inter> {unat start..unat fin} = {}
    then \<exists>s'. InsertFree start fin s = Inr ((), s') \<and> phys_ok s' \<and> frees s' = frees s \<union> {unat start..unat fin}
    else InsertFree start fin s = Inl AssertFailed"
  using InsertFree_correct [OF assms] by (fastforce split: if_splits)

text \<open>C27: Releasing the pages a request returned undoes it: \<open>InsertFree\<close> on them succeeds and gives back
  the very state before \<open>RemoveFree\<close>, the free list block by block and the counter included, whatever
  the splitting and merging on the way.\<close>

theorem phys_alloc_free:
  assumes "phys_ok s" "align_ok A" "0 < unat N" "no_wrap A start (frees s)"
    and r: "RemoveFree N A start fin s = Inr (Some pfn, s')"
  shows "InsertFree pfn (pfn + N - 1) s' = Inr ((), s)"
proof -
  have R: "phys_ok s'" "pages_fit N A start fin (frees s) (unat pfn)"
    "frees s' = frees s - {unat pfn..<unat pfn + unat N}"
    "s' = s\<lparr>FreeList := FreeList s', m_PhysicalPagesAvailable := m_PhysicalPagesAvailable s - N\<rparr>"
    using RemoveFree_correct [OF assms(1-4), of fin] r by auto
  have sub: "{unat pfn..<unat pfn + unat N} \<subseteq> frees s"
    using R(2) need_pages_ge [of N A] by (auto simp: pages_fit_def)
  then have "unat pfn + unat N - 1 \<in> frees s" using assms(3) by auto
  then have top: "unat pfn + unat N \<le> unat (m_HighestPage s) + 1"
    using phys_ok_card(1) [OF assms(1)] assms(3) by fastforce
  have hb: "unat (m_HighestPage s) + 2 \<le> 2 ^ 31" using assms(1) by (simp add: phys_ok_def)
  have fin: "unat (pfn + N - 1) = unat pfn + unat N - 1"
    using top hb assms(3) by (simp add: u32_add u32_sub)
  have hs: "m_HighestPage s' = m_HighestPage s" by (subst R(4)) simp
  have rng: "{unat pfn..unat (pfn + N - 1)} = {unat pfn..<unat pfn + unat N}" using fin assms(3) by auto
  have "unat pfn \<le> unat (pfn + N - 1)" "pfn + N - 1 \<le> m_HighestPage s'"
    using fin top assms(3) hs by (auto simp: word_le_nat_alt)
  from InsertFree_correct [OF R(1) this] obtain t where
    t: "InsertFree pfn (pfn + N - 1) s' = Inr ((), t)" "phys_ok t" "frees t = frees s"
      "t = s'\<lparr>FreeList := FreeList t, m_PhysicalPagesAvailable := m_PhysicalPagesAvailable s' + (pfn + N - 1 - pfn + 1)\<rparr>"
    using R(3) sub unfolding rng by (auto simp: Un_absorb2 split: if_splits)
  have ft: "FreeList t = FreeList s" using t(2,3) assms(1) by (auto simp: phys_ok_def intro: free_list_unique)
  obtain l where l: "s' = s\<lparr>FreeList := l, m_PhysicalPagesAvailable := m_PhysicalPagesAvailable s - N\<rparr>"
    using R(4) by blast
  have "t = s" by (subst t(4)) (simp add: l ft)
  then show ?thesis using t(1) by simp
qed

text \<open>An aligned request can return pages that do not exist. When the last free block the search
  reaches lies below the first aligned page, \<open>((end + 1) & mask)\<close> is 0, the subtraction of
  \<open>PfnAlignmentSubtraction\<close> wraps, and the wrapped \<open>IntersectionEnd\<close> passes both checks:
  \<open>RemoveFree\<close> reports success and returns page \<open>-PfnAlignment\<close> (as an unsigned 32-bit number).\<close>

theorem phys_align_wrap:
  assumes "k < 20" "unat b + unat n < 2 ^ k" "0 < unat N" "unat N \<le> unat n" "FreeList s = [(b, n)]"
    and "\<not> m_MmLayoutDebug s" "N \<le> m_PhysicalPagesAvailable s" "m_PhysicalPagesAvailable s \<le> m_HighestPage s + 1"
    and "b + n \<le> fin"
  shows "\<exists>t. RemoveFree N (2 ^ k) 0 fin s = Inr (Some (- (2 ^ k)), t)"
proof -
  have b20: "(2::nat) ^ k < 2 ^ 20" using assms(1) by (intro power_strict_increasing) simp_all
  have A: "unat (2 ^ k :: u32) = 2 ^ k" using assms(1) by (intro unat_pow2) simp
  have nz: "(2 ^ k :: u32) \<noteq> 0" using A by (metis unat_0 power_not_zero zero_neq_numeral)
  have e: "unat (b + n - 1) = unat b + unat n - 1" "unat (b + n) = unat b + unat n"
    using assms(2-4) b20 by (simp_all add: u32_add u32_sub)
  have ie: "\<not> fin \<le> b + n - 1" using assms(3,4,9) e by (simp add: word_le_nat_alt)
  have "unat ((b + n) AND NOT (2 ^ k - 1)) = 0" using assms(1,2) e by (simp add: u32_align_down)
  then have f: "(b + n) AND NOT (2 ^ k - 1) = 0" by (simp add: word_unat_eq_iff)
  have "unat (N + 2 ^ k - 1) = 2 ^ k + (unat N - 1)" "unat N - 1 < 2 ^ k"
    using assms(2-4) b20 A by (simp_all add: u32_add u32_sub)
  moreover have "(2 ^ k + (unat N - 1)) div 2 ^ k = 1" using calculation(2)
    by (simp add: div_add_self1)
  ultimately have r: "(N + 2 ^ k - 1) AND NOT (2 ^ k - 1) = 2 ^ k"
    using assms(1) A by (simp add: word_unat_eq_iff u32_align_down)
  define E :: u32 where "E = N - 2 ^ k - 1"
  have ae: "aligned_end N (2 ^ k) (b + n - 1) = E"
    by (simp add: aligned_end_def Let_def f r E_def)
  have "unat (2 ^ k + 1 :: u32) = 2 ^ k + 1" using b20 A by (simp add: u32_add)
  moreover have "E = N - (2 ^ k + 1)" by (simp add: E_def)
  ultimately have E: "unat E = 2 ^ 32 + unat N - 2 ^ k - 1"
    using assms(2-4) unat_sub_if' [of N "2 ^ k + 1"] by simp
  have "unat E + 1 < 2 ^ 32" "unat b + unat N \<le> unat E + 1" "unat b + unat n - 1 < unat E"
    using E assms(2-4) b20 by simp_all
  then have E1: "\<not> E < b" "\<not> E - b + 1 < N" "E \<noteq> b + n - 1"
    using e u32_room [OF assms(3), of E b] by auto
  have room: "\<not> b + n - 1 < b" "\<not> b + n - 1 - b + 1 < N"
    using assms(2-4) b20 e u32_room [OF assms(3), of "b + n - 1" b] by auto
  have "usable_block N (2 ^ k) 0 fin (b, n) = Some (b, E)"
    using assms(3,4) ie ae nz E1 e room by (auto simp: usable_block_def Let_def word_less_nat_alt)
  moreover obtain new where "take_pages N (b, n) (b, E) = (new, E - b - N + 1)"
    using E1(3) by (simp add: take_pages_def Let_def)
  ultimately have "remove_loop N (2 ^ k) 0 fin (FreeList s) = Some (new, - (2 ^ k))"
    using assms(5) by (simp add: E_def)
  moreover have "m_PhysicalPagesAvailable s - N \<le> m_HighestPage s + 1"
    using assms(7,8) by (meson order_trans word_sub_le)
  ultimately show ?thesis using assms(3,6) by (auto simp: RemoveFree_def run_simps)
qed

section \<open>Witnesses\<close>

text \<open>A machine whose pages 4 to 11 are free.\<close>

definition mem0 :: phys_mem where
  "mem0 = \<lparr>FreeList = [(4, 8)], m_PhysicalPagesAvailable = 8, m_DebuggerPagesAvailable = 0,
     m_HighestPage = 0x3FFF, m_MmLayoutDebug = False\<rparr>"

lemma mem0_ok: "phys_ok mem0" "frees mem0 = {4..<12}" "align_ok 4" "no_wrap 4 0 (frees mem0)"
  by (auto simp: phys_ok_def mem0_def run_pages_def align_ok_def no_wrap_def intro!: exI [of _ 2])

theorem phys_remove_free_witness:
  "\<exists>r s'. RemoveFree 3 4 0 0xFFF mem0 = Inr (r, s') \<and> phys_ok s' \<and> (case r of
      None \<Rightarrow> s' = mem0 \<and> (\<forall>p. \<not> pages_fit 3 4 0 0xFFF (frees mem0) p)
    | Some pfn \<Rightarrow> pages_fit 3 4 0 0xFFF (frees mem0) (unat pfn)
        \<and> (\<forall>p. pages_fit 3 4 0 0xFFF (frees mem0) p \<longrightarrow> p \<le> unat pfn)
        \<and> frees s' = frees mem0 - {unat pfn..<unat pfn + unat (3 :: u32)})"
  by (rule phys_remove_free [OF mem0_ok(1,3) _ mem0_ok(4)]) simp

theorem phys_insert_free_witness:
  "(\<exists>s'. InsertFree 12 20 mem0 = Inr ((), s') \<and> phys_ok s' \<and> frees s' = frees mem0 \<union> {12..20})
   \<and> InsertFree 11 20 mem0 = Inl AssertFailed"
proof -
  have "(11 :: nat) \<in> {4..<12} \<inter> {11..20}" by simp
  then have d: "{4..<12} \<inter> {12..20 :: nat} = {}" "{4..<12} \<inter> {11..20 :: nat} \<noteq> {}"
    by (auto simp only: empty_iff) auto
  have le: "(20 :: u32) \<le> m_HighestPage mem0" by (simp add: mem0_def)
  show ?thesis using phys_insert_free [OF mem0_ok(1) _ le, of 12] phys_insert_free [OF mem0_ok(1) _ le, of 11] d
    by (simp add: mem0_ok(2))
qed

lemma mem0_remove: "RemoveFree 3 4 0 0xFFF mem0 = Inr (Some 8, mem0\<lparr>FreeList := [(11, 1), (4, 4)], m_PhysicalPagesAvailable := 5\<rparr>)"
  by code_simp

theorem phys_alloc_free_witness:
  "InsertFree 8 (8 + 3 - 1) (mem0\<lparr>FreeList := [(11, 1), (4, 4)], m_PhysicalPagesAvailable := 5\<rparr>) = Inr ((), mem0)"
  by (rule phys_alloc_free [OF mem0_ok(1,3) _ mem0_ok(4) mem0_remove]) simp

theorem phys_align_wrap_witness:
  "\<exists>t. RemoveFree 1 (2 ^ 4) 0 0x3FFF mem0 = Inr (Some (- (2 ^ 4)), t)"
  by (rule phys_align_wrap [of 4 4 8]) (simp_all add: mem0_def)

end
