(* ===== verification/Mm_Perms.thy ===== *)
theory Mm_Perms
  imports Cxbx_Prelude
begin

unbundle bit_operations_syntax

text \<open>
  The conversions between page permissions (\<open>core/kernel/memory-manager/PhysicalMemory.cpp\<close>): Xbox
  \<open>XBOX_PAGE_*\<close> flags to page table entries and back, and to the flags of the host. A conversion that
  returns false yields \<open>None\<close>; the host's \<open>PAGE_*\<close> flags have the documented values of \<open>winnt.h\<close>.
  The theorems show that the two table-entry conversions are inverse to each other, and which
  permissions survive the way to the host.
\<close>

named_theorems perm_flags \<open>values of the permission flags\<close>

section \<open>Flags\<close>

definition XBOX_PAGE_NOACCESS :: u32 where [perm_flags]: "XBOX_PAGE_NOACCESS = 0x1"
definition XBOX_PAGE_READONLY :: u32 where [perm_flags]: "XBOX_PAGE_READONLY = 0x2"
definition XBOX_PAGE_READWRITE :: u32 where [perm_flags]: "XBOX_PAGE_READWRITE = 0x4"
definition XBOX_PAGE_EXECUTE_READ :: u32 where [perm_flags]: "XBOX_PAGE_EXECUTE_READ = 0x20"
definition XBOX_PAGE_EXECUTE_READWRITE :: u32 where [perm_flags]: "XBOX_PAGE_EXECUTE_READWRITE = 0x40"
definition XBOX_PAGE_GUARD :: u32 where [perm_flags]: "XBOX_PAGE_GUARD = 0x100"
definition XBOX_PAGE_NOCACHE :: u32 where [perm_flags]: "XBOX_PAGE_NOCACHE = 0x200"
definition XBOX_PAGE_WRITECOMBINE :: u32 where [perm_flags]: "XBOX_PAGE_WRITECOMBINE = 0x400"
definition PTE_VALID_MASK :: u32 where [perm_flags]: "PTE_VALID_MASK = 0x1"
definition PTE_WRITE_THROUGH_MASK :: u32 where [perm_flags]: "PTE_WRITE_THROUGH_MASK = 0x8"
definition PTE_CACHE_DISABLE_MASK :: u32 where [perm_flags]: "PTE_CACHE_DISABLE_MASK = 0x10"
definition PTE_ACCESS_MASK :: u32 where [perm_flags]: "PTE_ACCESS_MASK = 0x20"
definition PTE_DIRTY_MASK :: u32 where [perm_flags]: "PTE_DIRTY_MASK = 0x40"
definition PTE_READONLY :: u32 where [perm_flags]: "PTE_READONLY = 0"
definition PTE_READWRITE :: u32 where [perm_flags]: "PTE_READWRITE = 0x2"
definition PTE_GUARD :: u32 where [perm_flags]: "PTE_GUARD = 0x200"
definition PTE_VALID_PROTECTION_MASK :: u32 where [perm_flags]: "PTE_VALID_PROTECTION_MASK = 0x21B"
definition ValidKernelPteBits :: u32 where [perm_flags]: "ValidKernelPteBits = 0x63"
definition PAGE_NOACCESS :: u32 where [perm_flags]: "PAGE_NOACCESS = 0x1"
definition PAGE_READONLY :: u32 where [perm_flags]: "PAGE_READONLY = 0x2"
definition PAGE_READWRITE :: u32 where [perm_flags]: "PAGE_READWRITE = 0x4"
definition PAGE_EXECUTE :: u32 where [perm_flags]: "PAGE_EXECUTE = 0x10"
definition PAGE_EXECUTE_READ :: u32 where [perm_flags]: "PAGE_EXECUTE_READ = 0x20"
definition PAGE_EXECUTE_READWRITE :: u32 where [perm_flags]: "PAGE_EXECUTE_READWRITE = 0x40"
definition PAGE_GUARD :: u32 where [perm_flags]: "PAGE_GUARD = 0x100"
definition PAGE_NOCACHE :: u32 where [perm_flags]: "PAGE_NOCACHE = 0x200"
definition PAGE_WRITECOMBINE :: u32 where [perm_flags]: "PAGE_WRITECOMBINE = 0x400"

section \<open>Conversions\<close>

definition ConvertXboxToSystemPtePermissions :: "u32 \<Rightarrow> u32 option" where
  "ConvertXboxToSystemPtePermissions perms =
     (if perms AND NOT (XBOX_PAGE_NOCACHE OR XBOX_PAGE_WRITECOMBINE OR XBOX_PAGE_READWRITE OR XBOX_PAGE_READONLY) \<noteq> 0
      then None
      else let access = perms AND (XBOX_PAGE_READONLY OR XBOX_PAGE_READWRITE);
               cache = perms AND (XBOX_PAGE_NOCACHE OR XBOX_PAGE_WRITECOMBINE)
           in Option.bind
                (if access = XBOX_PAGE_READONLY then Some (PTE_VALID_MASK OR PTE_DIRTY_MASK OR PTE_ACCESS_MASK)
                 else if access = XBOX_PAGE_READWRITE then Some ValidKernelPteBits
                 else None)
                (\<lambda>Mask. if cache = 0 then Some Mask
                 else if cache = XBOX_PAGE_NOCACHE then Some (Mask OR PTE_CACHE_DISABLE_MASK)
                 else if cache = XBOX_PAGE_WRITECOMBINE then Some (Mask OR PTE_WRITE_THROUGH_MASK)
                 else None))"

text \<open>The base permission, from the low or the high nibble; \<open>None\<close> is \<open>goto Fail\<close>.\<close>

definition pte_access :: "u32 \<Rightarrow> u32 option" where
  "pte_access perms =
     (let LowNibble = perms AND 0xF; HighNibble = drop_bit 4 perms AND 0xF
      in if LowNibble = 0 \<and> HighNibble = 0 \<or> LowNibble \<noteq> 0 \<and> HighNibble \<noteq> 0 then None
         else if LowNibble OR HighNibble = 1 \<or> LowNibble OR HighNibble = 2 then Some PTE_READONLY
         else if LowNibble OR HighNibble = 4 then Some PTE_READWRITE
         else None)"

definition pte_modifiers :: "u32 \<Rightarrow> u32 \<Rightarrow> u32" where
  "pte_modifiers perms Mask =
     (let Mask = (if perms AND (XBOX_PAGE_NOACCESS OR XBOX_PAGE_GUARD) = 0 then Mask OR PTE_VALID_MASK
                  else if perms AND XBOX_PAGE_GUARD \<noteq> 0 then Mask OR PTE_GUARD else Mask)
      in if perms AND XBOX_PAGE_NOCACHE \<noteq> 0 then Mask OR PTE_CACHE_DISABLE_MASK
         else if perms AND XBOX_PAGE_WRITECOMBINE \<noteq> 0 then Mask OR PTE_WRITE_THROUGH_MASK
         else Mask)"

definition ConvertXboxToPtePermissions :: "u32 \<Rightarrow> fault + u32 option" where
  "ConvertXboxToPtePermissions perms =
     (if perms AND NOT (XBOX_PAGE_GUARD OR XBOX_PAGE_NOCACHE OR XBOX_PAGE_WRITECOMBINE OR 0xFF) \<noteq> 0 then Inr None
      else if perms AND XBOX_PAGE_NOACCESS \<noteq> 0
              \<and> perms AND (XBOX_PAGE_GUARD OR XBOX_PAGE_NOCACHE OR XBOX_PAGE_WRITECOMBINE) \<noteq> 0 then Inr None
      else if perms AND XBOX_PAGE_NOCACHE \<noteq> 0 \<and> perms AND XBOX_PAGE_WRITECOMBINE \<noteq> 0 then Inr None
      else case pte_access perms of
             None \<Rightarrow> Inr None
           | Some Mask \<Rightarrow> (let Mask = pte_modifiers perms Mask
               in if Mask AND NOT PTE_VALID_PROTECTION_MASK = 0 then Inr (Some Mask) else Inl AssertFailed))"

definition ConvertPteToXboxPermissions :: "u32 \<Rightarrow> u32" where
  "ConvertPteToXboxPermissions PteMask =
     (let Protect = (if PteMask AND PTE_READWRITE \<noteq> 0 then XBOX_PAGE_READWRITE else XBOX_PAGE_READONLY);
          Protect = (if PteMask AND PTE_VALID_MASK = 0
                     then (if PteMask AND PTE_GUARD \<noteq> 0 then Protect OR XBOX_PAGE_GUARD else XBOX_PAGE_NOACCESS)
                     else Protect)
      in if PteMask AND PTE_CACHE_DISABLE_MASK \<noteq> 0 then Protect OR XBOX_PAGE_NOCACHE
         else if PteMask AND PTE_WRITE_THROUGH_MASK \<noteq> 0 then Protect OR XBOX_PAGE_WRITECOMBINE
         else Protect)"

definition PatchXboxPermissions :: "u32 \<Rightarrow> u32" where
  "PatchXboxPermissions Perms =
     (if drop_bit 4 Perms AND 0xF \<noteq> 0 then Perms
      else if Perms AND XBOX_PAGE_NOACCESS \<noteq> 0 then Perms
      else let access = Perms AND (XBOX_PAGE_READONLY OR XBOX_PAGE_READWRITE)
           in if access = XBOX_PAGE_READONLY then (Perms AND NOT XBOX_PAGE_READONLY) OR XBOX_PAGE_EXECUTE_READ
              else if access = XBOX_PAGE_READWRITE then (Perms AND NOT XBOX_PAGE_READWRITE) OR XBOX_PAGE_EXECUTE_READWRITE
              else XBOX_PAGE_EXECUTE_READWRITE)"

definition ConvertXboxToWinPermissions :: "u32 \<Rightarrow> u32" where
  "ConvertXboxToWinPermissions Perms =
     (if Perms AND XBOX_PAGE_NOACCESS \<noteq> 0 then PAGE_NOACCESS
      else let LowNibble = Perms AND 0xF; HighNibble = drop_bit 4 Perms AND 0xF;
               Mask = (if HighNibble = 0 then 0 else if HighNibble = 1 then PAGE_EXECUTE
                       else if HighNibble = 2 then PAGE_EXECUTE_READ else PAGE_EXECUTE_READWRITE);
               Mask = (if LowNibble = 0 then Mask else if LowNibble = 2 then Mask OR PAGE_READONLY
                       else Mask OR PAGE_READWRITE);
               modifier = Perms AND (XBOX_PAGE_GUARD OR XBOX_PAGE_NOCACHE OR XBOX_PAGE_WRITECOMBINE)
           in if modifier = 0 then Mask
              else if modifier = XBOX_PAGE_GUARD then Mask OR PAGE_GUARD
              else if modifier = XBOX_PAGE_NOCACHE then Mask OR PAGE_NOCACHE
              else if modifier = XBOX_PAGE_WRITECOMBINE then Mask OR PAGE_WRITECOMBINE
              else PAGE_EXECUTE_READWRITE)"

section \<open>The accepted permissions\<close>

definition perm_values :: "u32 list" where
  "perm_values = concat (map (\<lambda>b. map ((OR) b) [0, 0x100, 0x200, 0x300, 0x400, 0x500, 0x600, 0x700])
     [1, 2, 4, 0x10, 0x20, 0x40])"

lemma mask_bits:
  "bit (0xF :: u32) n \<longleftrightarrow> n < 4" "bit (0xFF :: u32) n \<longleftrightarrow> n < 8" "bit (0x7FF :: u32) n \<longleftrightarrow> n < 11"
  using bit_mask_iff [of 4 n, where 'a = u32] bit_mask_iff [of 8 n, where 'a = u32]
    bit_mask_iff [of 11 n, where 'a = u32]
  by (auto simp: mask_eq_exp_minus_1)

lemma flag_bits:
  "bit (0x100 :: u32) n \<longleftrightarrow> n = 8" "bit (0x200 :: u32) n \<longleftrightarrow> n = 9" "bit (0x400 :: u32) n \<longleftrightarrow> n = 10"
  using bit_exp_iff [of 8 n, where 'a = u32] bit_exp_iff [of 9 n, where 'a = u32]
    bit_exp_iff [of 10 n, where 'a = u32]
  by auto

lemma modifier_bits: "bit (0x700 :: u32) n \<longleftrightarrow> n = 8 \<or> n = 9 \<or> n = 10"
proof -
  have "(0x700 :: u32) = 0x7FF AND NOT 0xFF" by simp
  then have "bit (0x700 :: u32) n \<longleftrightarrow> 8 \<le> n \<and> n < 11"
    by (auto simp only: bit_and_iff bit_not_iff mask_bits) auto
  then show ?thesis by linarith
qed

lemmas word_bit_rules = bit_and_iff bit_or_iff bit_not_iff bit_push_bit_iff bit_drop_bit_eq mask_bits
  flag_bits modifier_bits if_distrib [of "\<lambda>w :: u32. bit w _"] bit_0_eq

lemma nibble_split:
  fixes p :: u32
  shows "p AND 0xFF = (p AND 0xF) OR push_bit 4 (drop_bit 4 p AND 0xF)"
  by (rule bit_word_eqI) (simp only: word_bit_rules, auto)

lemma pte_access_base:
  assumes "pte_access p \<noteq> None" shows "p AND 0xFF \<in> set [1, 2, 4, 0x10, 0x20, 0x40]"
proof -
  define l h where "l = p AND 0xF" and "h = drop_bit 4 p AND 0xF"
  have "l = 0 \<and> h \<in> {1, 2, 4} \<or> h = 0 \<and> l \<in> {1, 2, 4}"
    using assms by (auto simp: pte_access_def Let_def l_def [symmetric] h_def [symmetric] split: if_splits)
  moreover have "p AND 0xFF = l OR push_bit 4 h" by (simp only: nibble_split l_def h_def)
  ultimately show ?thesis by (elim disjE conjE insertE emptyE) simp_all
qed

lemma modifier_cases:
  fixes p :: u32
  shows "p AND 0x700 \<in> set [0, 0x100, 0x200, 0x300, 0x400, 0x500, 0x600, 0x700]"
proof -
  have "p AND 0x700 = (if bit p 8 then 0x100 else 0) OR (if bit p 9 then 0x200 else 0) OR (if bit p 10 then 0x400 else 0)"
    by (rule bit_word_eqI) (simp only: word_bit_rules, auto)
  then show ?thesis by (cases "bit p 8"; cases "bit p 9"; cases "bit p 10") simp_all
qed

lemma perm_accepted:
  assumes "p AND NOT (XBOX_PAGE_GUARD OR XBOX_PAGE_NOCACHE OR XBOX_PAGE_WRITECOMBINE OR 0xFF) = 0"
    and "pte_access p \<noteq> None"
  shows "p \<in> set perm_values"
proof -
  have "p = (p AND 0xFF) OR (p AND 0x700) OR (p AND NOT 0x7FF)"
    by (rule bit_word_eqI) (simp only: word_bit_rules, auto)
  moreover have "p AND NOT 0x7FF = 0" using assms(1) by (simp add: perm_flags)
  ultimately have p: "p = (p AND 0xFF) OR (p AND 0x700)" by simp
  have e: "set perm_values = (\<Union>b\<in>set [1, 2, 4, 0x10, 0x20, 0x40]. (OR) b ` set [0, 0x100, 0x200, 0x300, 0x400, 0x500, 0x600, 0x700])"
    by (simp only: perm_values_def set_concat set_map image_image)
  have "(p AND 0xFF) OR (p AND 0x700) \<in> set perm_values" unfolding e
    by (rule UN_I [OF pte_access_base [OF assms(2)]], rule imageI, rule modifier_cases)
  then show ?thesis by (subst p)
qed

lemma perm_by_cases:
  assumes "\<forall>p\<in>set perm_values. P p" "\<And>p. ConvertXboxToPtePermissions p = Inr None \<Longrightarrow> P p"
  shows "P p"
proof (cases "p \<in> set perm_values")
  case False
  then have "ConvertXboxToPtePermissions p = Inr None"
    using perm_accepted [of p] by (auto simp: ConvertXboxToPtePermissions_def split: option.splits)
  then show ?thesis by (rule assms(2))
qed (use assms(1) in blast)

section \<open>Properties\<close>

text \<open>Converting Xbox permissions to a page table entry never fails the assertion on the mask, and what it
  accepts survives the way back: \<open>ConvertPteToXboxPermissions\<close> gives permissions with the same table entry,
  and the very same permissions when they have no execute flag (the table entry cannot hold one).\<close>

theorem perm_pte_roundtrip:
  "case ConvertXboxToPtePermissions p of
     Inl e \<Rightarrow> False
   | Inr None \<Rightarrow> True
   | Inr (Some m) \<Rightarrow> ConvertXboxToPtePermissions (ConvertPteToXboxPermissions m) = Inr (Some m)
       \<and> ConvertPteToXboxPermissions m = (if p AND 0xF0 = 0 then p
            else if p AND 0x40 \<noteq> 0 then (p AND 0x700) OR XBOX_PAGE_READWRITE else (p AND 0x700) OR XBOX_PAGE_READONLY)"
    (is "?P p")
proof (rule perm_by_cases [of ?P])
  show "\<forall>p\<in>set perm_values. ?P p" by code_simp
qed simp

text \<open>The flags the host gets for accepted permissions: an accessible page is always executable, and it is a
  guard page only when no cache modifier came with the guard flag. \<open>ConvertXboxToPtePermissions\<close> accepts
  a guard page with \<open>XBOX_PAGE_NOCACHE\<close> or \<open>XBOX_PAGE_WRITECOMBINE\<close>, and
  \<open>ConvertXboxToWinPermissions\<close> turns it into a plain \<open>PAGE_EXECUTE_READWRITE\<close> page: the guard is lost.\<close>

theorem perm_host:
  "case ConvertXboxToPtePermissions p of
     Inr (Some m) \<Rightarrow> (let host = ConvertXboxToWinPermissions (PatchXboxPermissions p) in
       (if p AND XBOX_PAGE_NOACCESS \<noteq> 0 then host = PAGE_NOACCESS else host AND 0xF0 \<noteq> 0)
       \<and> (host AND PAGE_GUARD \<noteq> 0) = (p AND XBOX_PAGE_GUARD \<noteq> 0
            \<and> p AND (XBOX_PAGE_NOCACHE OR XBOX_PAGE_WRITECOMBINE) = 0))
   | _ \<Rightarrow> True" (is "?P p")
proof (rule perm_by_cases [of ?P])
  show "\<forall>p\<in>set perm_values. ?P p" by code_simp
qed simp

end
