(* ===== verification/Mm_Areas.thy ===== *)
theory Mm_Areas
  imports Cxbx_Prelude
begin

text \<open>
  The virtual memory areas of a region (\<open>core/kernel/memory-manager/VMManager.cpp\<close>): the map of areas
  and every operation that changes it.

  \<open>RegionMap\<close> is the \<open>std::map\<close> as the list of its values in key order; the key of an area is its
  base. An iterator is the base of the area it points to, or \<open>None\<close> for \<open>end()\<close>; using an iterator
  that points nowhere, and moving one past either end, is \<open>OutOfBounds\<close>. Addresses and sizes are
  32-bit.
\<close>

section \<open>Areas and regions\<close>

datatype VMAType = FreeVma | ReservedVma | AllocatedVma

record VirtualMemoryArea =
  vma_base :: u32
  vma_size :: u32
  vma_type :: VMAType
  vma_permissions :: u32

type_synonym VMAIter = "u32 option"

record MemoryRegion =
  LastFree :: VMAIter
  RegionMap :: "VirtualMemoryArea list"

definition NOACCESS :: u32 where "NOACCESS = 1"

definition ConstructMemoryRegion :: "u32 \<Rightarrow> u32 \<Rightarrow> MemoryRegion" where
  "ConstructMemoryRegion Start n =
     \<lparr>LastFree = Some Start,
      RegionMap = [\<lparr>vma_base = Start, vma_size = n, vma_type = FreeVma, vma_permissions = NOACCESS\<rparr>]\<rparr>"

section \<open>The map and its iterators\<close>

definition begin_it :: "(VMAIter, MemoryRegion) run" where
  "begin_it = get (\<lambda>r. case RegionMap r of [] \<Rightarrow> None | v # _ \<Rightarrow> Some (vma_base v))"

definition deref :: "VMAIter \<Rightarrow> (VirtualMemoryArea, MemoryRegion) run" where
  "deref it = (case it of
     None \<Rightarrow> fail OutOfBounds
   | Some k \<Rightarrow> bnd (get (\<lambda>r. find (\<lambda>v. vma_base v = k) (RegionMap r))) (\<lambda>v. case v of
       None \<Rightarrow> fail OutOfBounds | Some v \<Rightarrow> ret v))"

definition next_it :: "VMAIter \<Rightarrow> (VMAIter, MemoryRegion) run" where
  "next_it it = (case it of
     None \<Rightarrow> fail OutOfBounds
   | Some k \<Rightarrow> get (\<lambda>r. map_option vma_base (find (\<lambda>v. k < vma_base v) (RegionMap r))))"

definition prev_it :: "VMAIter \<Rightarrow> (VMAIter, MemoryRegion) run" where
  "prev_it it = bnd (get (\<lambda>r. takeWhile (\<lambda>v. case it of None \<Rightarrow> True | Some k \<Rightarrow> vma_base v < k) (RegionMap r)))
     (\<lambda>vs. if vs = [] then fail OutOfBounds else ret (Some (vma_base (last vs))))"

definition set_vma :: "VMAIter \<Rightarrow> (VirtualMemoryArea \<Rightarrow> VirtualMemoryArea) \<Rightarrow> (unit, MemoryRegion) run" where
  "set_vma it f = bnd (deref it) (\<lambda>old.
     modify (\<lambda>r. r\<lparr>RegionMap := map (\<lambda>v. if vma_base v = vma_base old then f v else v) (RegionMap r)\<rparr>))"

text \<open>\<open>emplace_hint\<close>: inserts in key order, unless the key is there.\<close>

fun insert_vma :: "VirtualMemoryArea \<Rightarrow> VirtualMemoryArea list \<Rightarrow> VirtualMemoryArea list" where
  "insert_vma v [] = [v]"
| "insert_vma v (w # ws) =
     (if vma_base v < vma_base w then v # w # ws
      else if vma_base v = vma_base w then w # ws
      else w # insert_vma v ws)"

definition emplace_vma :: "VirtualMemoryArea \<Rightarrow> (VMAIter, MemoryRegion) run" where
  "emplace_vma v = bnd (modify (\<lambda>r. r\<lparr>RegionMap := insert_vma v (RegionMap r)\<rparr>)) (\<lambda>_. ret (Some (vma_base v)))"

definition erase_vma :: "VMAIter \<Rightarrow> (unit, MemoryRegion) run" where
  "erase_vma it = bnd (deref it) (\<lambda>old.
     modify (\<lambda>r. r\<lparr>RegionMap := filter (\<lambda>v. vma_base v \<noteq> vma_base old) (RegionMap r)\<rparr>))"

section \<open>Splitting and merging\<close>

text \<open>\<open>std::prev(upper_bound(target))\<close>.\<close>

definition GetVMAIterator :: "u32 \<Rightarrow> (VMAIter, MemoryRegion) run" where
  "GetVMAIterator target = bnd (get (\<lambda>r. takeWhile (\<lambda>v. vma_base v \<le> target) (RegionMap r)))
     (\<lambda>vs. if vs = [] then fail OutOfBounds else ret (Some (vma_base (last vs))))"

definition CanBeMergedWith :: "VirtualMemoryArea \<Rightarrow> VirtualMemoryArea \<Rightarrow> (bool, MemoryRegion) run" where
  "CanBeMergedWith v nxt = bnd (check (vma_base v + vma_size v = vma_base nxt)) (\<lambda>_.
     ret (vma_type v = FreeVma \<and> vma_type nxt = FreeVma))"

definition SplitVMA :: "VMAIter \<Rightarrow> u32 \<Rightarrow> (VMAIter, MemoryRegion) run" where
  "SplitVMA vma_handle offset_in_vma =
     bnd (deref vma_handle) (\<lambda>old.
     bnd (check (offset_in_vma < vma_size old)) (\<lambda>_.
     bnd (check (0 < offset_in_vma)) (\<lambda>_.
     bnd (set_vma vma_handle (\<lambda>v. v\<lparr>vma_size := offset_in_vma\<rparr>)) (\<lambda>_.
     emplace_vma (old\<lparr>vma_base := vma_base old + offset_in_vma, vma_size := vma_size old - offset_in_vma\<rparr>)))))"

definition MergeNext :: "VMAIter \<Rightarrow> (unit, MemoryRegion) run" where
  "MergeNext vma_handle =
     bnd (next_it vma_handle) (\<lambda>next_vma.
     if next_vma = None then ret ()
     else bnd (deref vma_handle) (\<lambda>v. bnd (deref next_vma) (\<lambda>w.
          bnd (CanBeMergedWith v w) (\<lambda>m.
          if m then bnd (set_vma vma_handle (\<lambda>v. v\<lparr>vma_size := vma_size v + vma_size w\<rparr>)) (\<lambda>_. erase_vma next_vma)
          else ret ()))))"

definition MergePrev :: "VMAIter \<Rightarrow> (VMAIter, MemoryRegion) run" where
  "MergePrev vma_handle =
     bnd begin_it (\<lambda>first.
     if vma_handle = first then ret vma_handle
     else bnd (prev_it vma_handle) (\<lambda>prev_vma.
          bnd (deref prev_vma) (\<lambda>p. bnd (deref vma_handle) (\<lambda>v.
          bnd (CanBeMergedWith p v) (\<lambda>m.
          if m then bnd (set_vma prev_vma (\<lambda>p. p\<lparr>vma_size := vma_size p + vma_size v\<rparr>)) (\<lambda>_.
                    bnd (erase_vma vma_handle) (\<lambda>_. ret prev_vma))
          else ret vma_handle)))))"

definition MergeAdjacentVMA :: "VMAIter \<Rightarrow> (VMAIter, MemoryRegion) run" where
  "MergeAdjacentVMA vma_handle = bnd (MergeNext vma_handle) (\<lambda>_. MergePrev vma_handle)"

definition UnmapVMA :: "VMAIter \<Rightarrow> (VMAIter, MemoryRegion) run" where
  "UnmapVMA vma_handle =
     bnd (set_vma vma_handle (\<lambda>v. v\<lparr>vma_type := FreeVma, vma_permissions := NOACCESS\<rparr>)) (\<lambda>_.
     MergeAdjacentVMA vma_handle)"

section \<open>Carving\<close>

definition CarveVMA :: "u32 \<Rightarrow> u32 \<Rightarrow> (VMAIter, MemoryRegion) run" where
  "CarveVMA base n =
     bnd (GetVMAIterator base) (\<lambda>vma_handle.
     bnd (check (vma_handle \<noteq> None)) (\<lambda>_.
     bnd (deref vma_handle) (\<lambda>vma.
     bnd (check (vma_type vma = FreeVma)) (\<lambda>_.
     let start_in_vma = base - vma_base vma; end_in_vma = start_in_vma + n in
     bnd (check (end_in_vma \<le> vma_size vma)) (\<lambda>_.
     bnd (if end_in_vma \<noteq> vma_size vma then bnd (SplitVMA vma_handle end_in_vma) (\<lambda>_. ret ()) else ret ()) (\<lambda>_.
     if start_in_vma \<noteq> 0 then SplitVMA vma_handle start_in_vma else ret vma_handle))))))"

definition CarveVMARange :: "u32 \<Rightarrow> u32 \<Rightarrow> (VMAIter, MemoryRegion) run" where
  "CarveVMARange base n =
     (let target_end = base + n in
      bnd (check (base \<le> target_end)) (\<lambda>_.
      bnd (check (target_end \<le> 0xFFFFFFFF)) (\<lambda>_.
      bnd (check (0 < n)) (\<lambda>_.
      bnd (GetVMAIterator base) (\<lambda>begin_vma.
      bnd (get (\<lambda>r. takeWhile (\<lambda>v. vma_base v < target_end)
            (dropWhile (\<lambda>v. Some (vma_base v) \<noteq> begin_vma) (RegionMap r)))) (\<lambda>range.
      bnd (check (\<forall>v\<in>set range. vma_type v \<noteq> FreeVma)) (\<lambda>_.
      bnd (deref begin_vma) (\<lambda>b.
      bnd (if base \<noteq> vma_base b then SplitVMA begin_vma (base - vma_base b) else ret begin_vma) (\<lambda>begin_vma.
      bnd (GetVMAIterator target_end) (\<lambda>end_vma.
      bnd (deref end_vma) (\<lambda>e.
      bnd (if target_end \<noteq> vma_base e then bnd (SplitVMA end_vma (target_end - vma_base e)) (\<lambda>_. ret ()) else ret ()) (\<lambda>_.
      ret begin_vma))))))))))))"

section \<open>Construction and destruction\<close>

text \<open>The searches for a free area forward from an iterator and backward from it.\<close>

fun first_free :: "VirtualMemoryArea list \<Rightarrow> VMAIter" where
  "first_free [] = None"
| "first_free (v # vs) = (if vma_type v = FreeVma then Some (vma_base v) else first_free vs)"

definition free_from :: "VMAIter \<Rightarrow> MemoryRegion \<Rightarrow> VMAIter" where
  "free_from it r = (case it of None \<Rightarrow> None
     | Some k \<Rightarrow> first_free (dropWhile (\<lambda>v. vma_base v < k) (RegionMap r)))"

definition free_down_to :: "VMAIter \<Rightarrow> MemoryRegion \<Rightarrow> VMAIter" where
  "free_down_to it r = (case it of None \<Rightarrow> None
     | Some k \<Rightarrow> first_free (rev (takeWhile (\<lambda>v. vma_base v \<le> k) (RegionMap r))))"

definition set_LastFree :: "VMAIter \<Rightarrow> (unit, MemoryRegion) run" where
  "set_LastFree it = modify (\<lambda>r. r\<lparr>LastFree := it\<rparr>)"

definition ConstructVMA :: "u32 \<Rightarrow> u32 \<Rightarrow> VMAType \<Rightarrow> u32 \<Rightarrow> (unit, MemoryRegion) run" where
  "ConstructVMA Start n VmaType Perms =
     bnd begin_it (\<lambda>it_begin.
     bnd (CarveVMA Start n) (\<lambda>vma_handle.
     bnd (set_vma vma_handle (\<lambda>v. v\<lparr>vma_type := VmaType, vma_permissions := Perms\<rparr>)) (\<lambda>_.
     bnd (next_it vma_handle) (\<lambda>it.
     bnd (get (free_from it)) (\<lambda>f.
     if f \<noteq> None then set_LastFree f
     else if vma_handle = it_begin then set_LastFree None
     else bnd (prev_it vma_handle) (\<lambda>it. bnd (get (free_down_to it)) set_LastFree))))))"

text \<open>The loop of \<open>DestructVMA\<close> and its part on the map; the fuel is the number of areas.\<close>

fun unmap_loop :: "nat \<Rightarrow> VMAIter \<Rightarrow> u32 \<Rightarrow> (VMAIter, MemoryRegion) run" where
  "unmap_loop 0 it target_end = fail Aborted"
| "unmap_loop (Suc k) it target_end =
     (if it = None then ret it
      else bnd (deref it) (\<lambda>v.
        if vma_base v < target_end
        then bnd (UnmapVMA it) (\<lambda>h. bnd (next_it h) (\<lambda>it'. unmap_loop k it' target_end))
        else ret it))"

definition DestructAreas :: "u32 \<Rightarrow> u32 \<Rightarrow> (unit, MemoryRegion) run" where
  "DestructAreas addr n =
     bnd (CarveVMARange addr n) (\<lambda>it.
     bnd begin_it (\<lambda>it_begin.
     bnd (get (\<lambda>r. Suc (length (RegionMap r)))) (\<lambda>fuel.
     bnd (unmap_loop fuel it (addr + n)) (\<lambda>it.
     bnd (if it \<noteq> it_begin then bnd (prev_it it) (\<lambda>p. bnd (deref p) (\<lambda>v. ret (if vma_type v = FreeVma then p else None)))
          else ret None) (\<lambda>p.
     if p \<noteq> None then set_LastFree p
     else bnd (get (free_from it)) (\<lambda>f.
          if f \<noteq> None then set_LastFree f
          else bnd (prev_it it) (\<lambda>p. bnd (get (free_down_to p)) set_LastFree)))))))"

definition CheckConflictingVMA :: "u32 \<Rightarrow> u32 \<Rightarrow> (VMAIter \<times> bool, MemoryRegion) run" where
  "CheckConflictingVMA addr n =
     bnd (GetVMAIterator addr) (\<lambda>it.
     bnd (deref it) (\<lambda>v.
     ret (if vma_type v \<noteq> FreeVma then it else None,
          n \<noteq> 0 \<and> vma_base v + vma_size v - 1 < addr + n - 1)))"

end
