(* ===== verification/Mm_AreaFacts.thy ===== *)
theory Mm_AreaFacts
  imports Mm_Areas
begin

text \<open>
  What the operations of \<open>Mm_Areas\<close> do to the addresses of a region. \<open>areas l\<close> is the abstract view of a
  map: the type and permissions of each address. \<open>areas_ok a b\<close> is the invariant: the areas tile the
  region \<open>[a, b)\<close>, no two free areas touch, and free areas have no permissions. Each operation is run on
  a map split at the area it works on; \<open>UnmapVMA_run\<close> and \<open>unmap_loop_run\<close> give the result, the invariant
  and the view after it.
\<close>

section \<open>Lists of areas\<close>

abbreviation base_of :: "VirtualMemoryArea \<Rightarrow> nat" where "base_of v \<equiv> unat (vma_base v)"
abbreviation size_of :: "VirtualMemoryArea \<Rightarrow> nat" where "size_of v \<equiv> unat (vma_size v)"
abbreviation end_of :: "VirtualMemoryArea \<Rightarrow> nat" where "end_of v \<equiv> base_of v + size_of v"
abbreviation is_free :: "VirtualMemoryArea \<Rightarrow> bool" where "is_free v \<equiv> vma_type v = FreeVma"

text \<open>The areas tile \<open>[a, b)\<close>: none is empty and each begins where the one before ends.\<close>

fun tiles :: "nat \<Rightarrow> VirtualMemoryArea list \<Rightarrow> nat \<Rightarrow> bool" where
  "tiles a [] b \<longleftrightarrow> a = b"
| "tiles a (v # vs) b \<longleftrightarrow> base_of v = a \<and> 0 < size_of v \<and> tiles (end_of v) vs b"

lemma tiles_append: "tiles a (xs @ ys) b \<longleftrightarrow> (\<exists>m. tiles a xs m \<and> tiles m ys b)"
  by (induction xs arbitrary: a) auto

lemma tiles_le: "tiles a l b \<Longrightarrow> a \<le> b"
  by (induction l arbitrary: a) fastforce+

lemma tiles_mem: "tiles a l b \<Longrightarrow> v \<in> set l \<Longrightarrow> a \<le> base_of v \<and> end_of v \<le> b \<and> 0 < size_of v"
proof (induction l arbitrary: a)
  case (Cons w ws)
  then show ?case using tiles_le [of "end_of w" ws b] by fastforce
qed simp

lemma tiles_unique: "tiles a l b \<Longrightarrow> tiles a l c \<Longrightarrow> b = c"
  by (induction l arbitrary: a) auto

definition by_base :: "VirtualMemoryArea list \<Rightarrow> bool" where
  "by_base l \<longleftrightarrow> sorted_wrt (\<lambda>v w. base_of v < base_of w) l"

lemma tiles_by_base: "tiles a l b \<Longrightarrow> by_base l"
proof (induction l arbitrary: a)
  case (Cons v vs)
  have "base_of v < base_of w" if "w \<in> set vs" for w
    using tiles_mem [of "end_of v" vs b w] Cons.prems that by fastforce
  then show ?case using Cons by (auto simp: by_base_def)
qed (simp add: by_base_def)

lemma by_base_mid:
  "by_base (xs @ v # ys) \<longleftrightarrow> by_base xs \<and> by_base ys \<and> (\<forall>x\<in>set xs. base_of x < base_of v)
     \<and> (\<forall>y\<in>set ys. base_of v < base_of y) \<and> (\<forall>x\<in>set xs. \<forall>y\<in>set ys. base_of x < base_of y)"
  by (auto simp: by_base_def sorted_wrt_append)

lemma find_mid: "(\<forall>x\<in>set xs. \<not> P x) \<Longrightarrow> P v \<Longrightarrow> find P (xs @ v # ys) = Some v"
  by (induction xs) auto

lemma find_none_prefix: "(\<forall>x\<in>set xs. \<not> P x) \<Longrightarrow> find P (xs @ ys) = find P ys"
  by (induction xs) auto

lemma takeWhile_mid: "(\<forall>x\<in>set xs. P x) \<Longrightarrow> (\<forall>y\<in>set ys. \<not> P y) \<Longrightarrow> takeWhile P (xs @ ys) = xs"
  by (induction xs) (cases ys; auto)+

lemma dropWhile_mid: "(\<forall>x\<in>set xs. P x) \<Longrightarrow> (\<forall>y\<in>set ys. \<not> P y) \<Longrightarrow> dropWhile P (xs @ ys) = ys"
  by (induction xs) (cases ys; auto)+

section \<open>Iterators on a decomposed map\<close>

definition base_it :: "VirtualMemoryArea list \<Rightarrow> VMAIter" where
  "base_it l = (case l of [] \<Rightarrow> None | v # _ \<Rightarrow> Some (vma_base v))"

lemma begin_it_run: "begin_it r = Inr (base_it (RegionMap r), r)"
  by (simp add: begin_it_def base_it_def run_simps)

lemma deref_mid:
  assumes l: "RegionMap r = xs @ v # ys" and s: "by_base (xs @ v # ys)"
  shows "deref (Some (vma_base v)) r = Inr (v, r)"
proof -
  have "find (\<lambda>w. vma_base w = vma_base v) (xs @ v # ys) = Some v"
    using s by (intro find_mid) (auto simp: by_base_mid)
  then show ?thesis by (simp add: deref_def run_simps l)
qed

lemma next_mid:
  assumes l: "RegionMap r = xs @ v # ys" and s: "by_base (xs @ v # ys)"
  shows "next_it (Some (vma_base v)) r = Inr (base_it ys, r)"
proof -
  have "find (\<lambda>w. vma_base v < vma_base w) (xs @ v # ys) = find (\<lambda>w. vma_base v < vma_base w) ys"
    using s find_none_prefix [of "xs @ [v]" "\<lambda>w. vma_base v < vma_base w" ys]
    by (fastforce simp: by_base_mid word_less_nat_alt)
  also have "map_option vma_base \<dots> = base_it ys"
    using s by (cases ys) (auto simp: base_it_def by_base_mid word_less_nat_alt)
  finally show ?thesis by (simp add: next_it_def run_simps l)
qed

lemma prev_mid:
  assumes l: "RegionMap r = xs @ v # ys" and s: "by_base (xs @ v # ys)" and ne: "xs \<noteq> []"
  shows "prev_it (Some (vma_base v)) r = Inr (Some (vma_base (last xs)), r)"
proof -
  have "takeWhile (\<lambda>w. vma_base w < vma_base v) (xs @ v # ys) = xs"
    using s by (intro takeWhile_mid) (auto simp: by_base_mid word_less_nat_alt)
  then show ?thesis using ne by (simp add: prev_it_def run_simps l)
qed

lemma map_mid:
  assumes s: "by_base (xs @ v # ys)"
  shows "map (\<lambda>w. if vma_base w = vma_base v then f w else w) (xs @ v # ys) = xs @ f v # ys"
proof -
  have "map (\<lambda>w. if vma_base w = vma_base v then f w else w) zs = zs" if "\<forall>z\<in>set zs. base_of z \<noteq> base_of v" for zs
    using that by (induction zs) auto
  from this [of xs] this [of ys] show ?thesis using s by (fastforce simp: by_base_mid)
qed

lemma set_mid:
  assumes l: "RegionMap r = xs @ v # ys" and s: "by_base (xs @ v # ys)"
  shows "set_vma (Some (vma_base v)) f r = Inr ((), r\<lparr>RegionMap := xs @ f v # ys\<rparr>)"
  by (simp add: set_vma_def run_simps deref_mid [OF l s] l map_mid [OF s, simplified])

lemma erase_mid:
  assumes l: "RegionMap r = xs @ v # ys" and s: "by_base (xs @ v # ys)"
  shows "erase_vma (Some (vma_base v)) r = Inr ((), r\<lparr>RegionMap := xs @ ys\<rparr>)"
proof -
  have "filter (\<lambda>w. vma_base w \<noteq> vma_base v) zs = zs" if "\<forall>z\<in>set zs. base_of z \<noteq> base_of v" for zs
    using that by (induction zs) auto
  from this [of xs] this [of ys] show ?thesis using s
    by (fastforce simp: erase_vma_def run_simps deref_mid [OF l s] l by_base_mid)
qed

lemma get_mid:
  assumes l: "RegionMap r = xs @ v # ys" and s: "by_base (xs @ v # ys)"
    and "base_of v \<le> unat t" "\<forall>y\<in>set ys. unat t < base_of y"
  shows "GetVMAIterator t r = Inr (Some (vma_base v), r)"
proof -
  have "takeWhile (\<lambda>w. vma_base w \<le> t) ((xs @ [v]) @ ys) = xs @ [v]"
    using assms by (intro takeWhile_mid) (auto simp: by_base_mid word_le_nat_alt)
  then show ?thesis by (simp add: GetVMAIterator_def run_simps l)
qed


lemma insert_mid:
  "(\<forall>x\<in>set xs. base_of x < base_of w) \<Longrightarrow> (\<forall>y\<in>set ys. base_of w < base_of y) \<Longrightarrow>
   insert_vma w (xs @ ys) = xs @ w # ys"
proof (induction xs)
  case Nil
  then show ?case by (cases ys) (auto simp: word_less_nat_alt)
next
  case (Cons x xs)
  then show ?case by (auto simp: word_less_nat_alt)
qed

lemma SplitVMA_mid:
  assumes "RegionMap r = xs @ v # ys" "by_base (xs @ v # ys)" "0 < unat off" "unat off < size_of v"
    and "end_of v < 2 ^ 32" "\<forall>y\<in>set ys. end_of v \<le> base_of y"
  shows "SplitVMA (Some (vma_base v)) off r = Inr (Some (vma_base v + off),
    r\<lparr>RegionMap := xs @ v\<lparr>vma_size := off\<rparr> # v\<lparr>vma_base := vma_base v + off, vma_size := vma_size v - off\<rparr> # ys\<rparr>)"
proof -
  have e: "unat (vma_base v + off) = base_of v + unat off"
    using assms(4,5) by (simp add: unat_word_ariths)
  have "insert_vma (v\<lparr>vma_base := vma_base v + off, vma_size := vma_size v - off\<rparr>) ((xs @ [v\<lparr>vma_size := off\<rparr>]) @ ys)
    = (xs @ [v\<lparr>vma_size := off\<rparr>]) @ v\<lparr>vma_base := vma_base v + off, vma_size := vma_size v - off\<rparr> # ys"
    using assms e by (intro insert_mid) (fastforce simp: by_base_mid)+
  then show ?thesis using assms(3,4)
    by (simp add: SplitVMA_def run_simps deref_mid [OF assms(1,2)] set_mid [OF assms(1,2)] emplace_vma_def word_less_nat_alt)
qed

section \<open>What a map says of an address\<close>

definition area_at :: "VirtualMemoryArea \<Rightarrow> nat \<Rightarrow> (VMAType \<times> u32) option" where
  "area_at v x = (if base_of v \<le> x \<and> x < end_of v then Some (vma_type v, vma_permissions v) else None)"

fun areas :: "VirtualMemoryArea list \<Rightarrow> nat \<Rightarrow> (VMAType \<times> u32) option" where
  "areas [] = Map.empty"
| "areas (v # vs) = areas vs ++ area_at v"

lemma areas_append: "areas (xs @ ys) = areas ys ++ areas xs"
  by (induction xs) (auto simp: map_add_assoc)

lemma areas_None: "tiles a l b \<Longrightarrow> x < a \<or> b \<le> x \<Longrightarrow> areas l x = None"
proof (induction l arbitrary: a)
  case (Cons v vs)
  then have "areas vs x = None" using tiles_le [of "end_of v" vs b] by fastforce
  moreover have "area_at v x = None" using Cons.prems tiles_le [of "end_of v" vs b] by (auto simp: area_at_def)
  ultimately show ?case by (simp add: map_add_None)
qed simp

lemma areas_at: "tiles a (xs @ v # ys) b \<Longrightarrow> base_of v \<le> x \<Longrightarrow> x < end_of v \<Longrightarrow>
    areas (xs @ v # ys) x = Some (vma_type v, vma_permissions v)"
  using areas_None [of a xs "base_of v" x] by (auto simp: areas_append tiles_append map_add_def area_at_def)

lemma find_area: "tiles a l b \<Longrightarrow> a \<le> x \<Longrightarrow> x < b \<Longrightarrow> \<exists>xs v ys. l = xs @ v # ys \<and> base_of v \<le> x \<and> x < end_of v"
proof (induction l arbitrary: a)
  case (Cons v vs)
  show ?case
  proof (cases "x < end_of v")
    case True
    then show ?thesis using Cons.prems by (intro exI [of _ "[]"]) auto
  next
    case False
    then obtain xs w ys where "vs = xs @ w # ys" "base_of w \<le> x" "x < end_of w"
      using Cons.IH [of "end_of v"] Cons.prems by (auto simp: not_less)
    then show ?thesis by (intro exI [of _ "v # xs"]) auto
  qed
qed simp

text \<open>A well-formed map: it tiles the region, no two free areas touch, free areas have no permissions.\<close>

definition areas_ok :: "nat \<Rightarrow> nat \<Rightarrow> VirtualMemoryArea list \<Rightarrow> bool" where
  "areas_ok a b l \<longleftrightarrow> tiles a l b \<and> b < 2 ^ 32 \<and> successively (\<lambda>v w. \<not> (is_free v \<and> is_free w)) l
     \<and> (\<forall>v\<in>set l. is_free v \<longrightarrow> vma_permissions v = NOACCESS)"

lemma areas_okD:
  "areas_ok a b l \<Longrightarrow> tiles a l b" "areas_ok a b l \<Longrightarrow> b < 2 ^ 32" "areas_ok a b l \<Longrightarrow> by_base l"
  by (auto simp: areas_ok_def tiles_by_base)

lemma tiles_mid:
  "tiles a (xs @ v # ys) b \<longleftrightarrow> tiles a xs (base_of v) \<and> 0 < size_of v \<and> tiles (end_of v) ys b"
  by (auto simp: tiles_append)

lemma tiles_after: "tiles a (xs @ v # ys) b \<Longrightarrow> y \<in> set ys \<Longrightarrow> end_of v \<le> base_of y"
  using tiles_mem [of "end_of v" ys b y] by (auto simp: tiles_mid)

lemma tiles_end: "tiles a (xs @ v # ys) b \<Longrightarrow> end_of v \<le> b"
  using tiles_le [of "end_of v" ys b] by (auto simp: tiles_mid)

lemma base_it_tiles: "tiles a l b \<Longrightarrow> base_it l = (if l = [] then None else Some (vma_base (hd l)))"
  by (cases l) (auto simp: base_it_def)

section \<open>Merging\<close>

definition merge_next :: "VirtualMemoryArea \<Rightarrow> VirtualMemoryArea list \<Rightarrow> VirtualMemoryArea \<times> VirtualMemoryArea list" where
  "merge_next v ys = (case ys of [] \<Rightarrow> (v, ys)
     | w # ws \<Rightarrow> if is_free v \<and> is_free w then (v\<lparr>vma_size := vma_size v + vma_size w\<rparr>, ws) else (v, ys))"

definition merge_prev :: "VirtualMemoryArea list \<Rightarrow> VirtualMemoryArea \<Rightarrow> VirtualMemoryArea list \<times> VirtualMemoryArea" where
  "merge_prev xs v = (if xs \<noteq> [] \<and> is_free (last xs) \<and> is_free v
     then (butlast xs, (last xs)\<lparr>vma_size := vma_size (last xs) + vma_size v\<rparr>) else (xs, v))"

lemma touch: "tiles a (xs @ v # w # ys) b \<Longrightarrow> b < 2 ^ 32 \<Longrightarrow>
    vma_base v + vma_size v = vma_base w \<and> unat (vma_size v + vma_size w) = size_of v + size_of w"
proof -
  assume t: "tiles a (xs @ v # w # ys) b" "b < 2 ^ 32"
  have "base_of w = end_of v" "end_of w \<le> b"
    using t(1) tiles_end [of a "xs @ [v]" w ys b] by (auto simp: tiles_mid)
  then show ?thesis using t(2) by (auto simp: word_unat_eq_iff unat_word_ariths)
qed

lemma MergeNext_run:
  assumes l: "RegionMap r = xs @ v # ys" and t: "tiles a (xs @ v # ys) b" and b: "b < 2 ^ 32"
  shows "MergeNext (Some (vma_base v)) r
    = Inr ((), r\<lparr>RegionMap := xs @ fst (merge_next v ys) # snd (merge_next v ys)\<rparr>)"
proof (cases ys)
  case Nil
  then show ?thesis using next_mid [OF l tiles_by_base [OF t]] l
    by (simp add: MergeNext_def run_simps base_it_def merge_next_def)
next
  case (Cons w ws)
  have s: "by_base (xs @ v # ys)" using t by (rule tiles_by_base)
  have l2: "RegionMap r = (xs @ [v]) @ w # ws" and s2: "by_base ((xs @ [v]) @ w # ws)" using l s Cons by simp_all
  note tch = touch [OF t [unfolded Cons] b]
  show ?thesis
  proof (cases "is_free v \<and> is_free w")
    case True
    define v' where "v' = v\<lparr>vma_size := vma_size v + vma_size w\<rparr>"
    define r' where "r' = r\<lparr>RegionMap := xs @ v' # w # ws\<rparr>"
    have l3: "RegionMap r' = (xs @ [v']) @ w # ws" by (simp add: r'_def)
    have s3: "by_base ((xs @ [v']) @ w # ws)" using s2 by (simp add: by_base_mid v'_def)
    have "erase_vma (Some (vma_base w)) r' = Inr ((), r'\<lparr>RegionMap := xs @ v' # ws\<rparr>)"
      using erase_mid [OF l3 s3] by simp
    then show ?thesis using True Cons tch next_mid [OF l s] deref_mid [OF l s] deref_mid [OF l2 s2] set_mid [OF l s]
      by (simp add: MergeNext_def run_simps base_it_def merge_next_def CanBeMergedWith_def v'_def [symmetric] r'_def)
  next
    case False
    then show ?thesis using Cons tch next_mid [OF l s] deref_mid [OF l s] deref_mid [OF l2 s2] l
      by (auto simp: MergeNext_def run_simps base_it_def merge_next_def CanBeMergedWith_def)
  qed
qed

lemma MergePrev_run:
  assumes l: "RegionMap r = xs @ v # ys" and t: "tiles a (xs @ v # ys) b" and b: "b < 2 ^ 32"
  shows "MergePrev (Some (vma_base v)) r = Inr (Some (vma_base (snd (merge_prev xs v))),
    r\<lparr>RegionMap := fst (merge_prev xs v) @ snd (merge_prev xs v) # ys\<rparr>)"
proof (cases xs rule: rev_cases)
  case Nil
  then show ?thesis using l by (simp add: MergePrev_def run_simps begin_it_run base_it_def merge_prev_def)
next
  case (snoc us p)
  have s: "by_base (xs @ v # ys)" using t by (rule tiles_by_base)
  have l2: "RegionMap r = us @ p # v # ys" and s2: "by_base (us @ p # v # ys)" and t2: "tiles a (us @ p # v # ys) b"
    using l s t snoc by simp_all
  note tch = touch [OF t2 b]
  have nb: "Some (vma_base v) \<noteq> base_it (RegionMap r)"
  proof -
    have "hd xs \<in> set xs" "base_it (RegionMap r) = Some (vma_base (hd xs))"
      using snoc l by (cases us; auto simp: base_it_def)+
    then show ?thesis using s by (auto simp: by_base_mid)
  qed
  have pv: "prev_it (Some (vma_base v)) r = Inr (Some (vma_base p), r)" using prev_mid [OF l s] snoc by simp
  show ?thesis
  proof (cases "is_free p \<and> is_free v")
    case True
    define p' where "p' = p\<lparr>vma_size := vma_size p + vma_size v\<rparr>"
    define r' where "r' = r\<lparr>RegionMap := us @ p' # v # ys\<rparr>"
    have l3: "RegionMap r' = (us @ [p']) @ v # ys" by (simp add: r'_def)
    have s3: "by_base ((us @ [p']) @ v # ys)" using s2 by (simp add: by_base_mid p'_def)
    have "erase_vma (Some (vma_base v)) r' = Inr ((), r'\<lparr>RegionMap := us @ p' # ys\<rparr>)"
      using erase_mid [OF l3 s3] by simp
    moreover have "merge_prev xs v = (us, p')" using True snoc by (simp add: merge_prev_def p'_def)
    ultimately show ?thesis using True tch nb pv deref_mid [OF l2 s2] deref_mid [OF l s] set_mid [OF l2 s2]
      by (simp add: MergePrev_def run_simps begin_it_run CanBeMergedWith_def p'_def [symmetric] r'_def)
        (simp add: p'_def)
  next
    case False
    then have "merge_prev xs v = (xs, v)" using snoc by (auto simp: merge_prev_def)
    then show ?thesis using False tch nb pv deref_mid [OF l2 s2] deref_mid [OF l s] l
      by (auto simp: MergePrev_def run_simps begin_it_run CanBeMergedWith_def)
  qed
qed

section \<open>Unmapping\<close>

lemma exI2: "P x y \<Longrightarrow> \<exists>x y. P x y"
  by blast

lemma merge_next_ok:
  assumes "tiles a (xs @ v # ys) b" "b < 2 ^ 32" "merge_next v ys = (v', ys')"
    and fp: "\<forall>w\<in>set (xs @ v # ys). is_free w \<longrightarrow> vma_permissions w = NOACCESS"
  shows "tiles a (xs @ v' # ys') b" "vma_base v' = vma_base v" "vma_type v' = vma_type v"
    "vma_permissions v' = vma_permissions v" "end_of v \<le> end_of v'" "areas (v' # ys') = areas (v # ys)"
    "set ys' \<subseteq> set ys" "ys' = (if is_free v \<and> ys \<noteq> [] \<and> is_free (hd ys) then tl ys else ys)"
proof -
  have "tiles a (xs @ v' # ys') b \<and> vma_base v' = vma_base v \<and> vma_type v' = vma_type v
    \<and> vma_permissions v' = vma_permissions v \<and> end_of v \<le> end_of v' \<and> areas (v' # ys') = areas (v # ys)
    \<and> set ys' \<subseteq> set ys \<and> ys' = (if is_free v \<and> ys \<noteq> [] \<and> is_free (hd ys) then tl ys else ys)"
  proof (cases "\<exists>w ws. ys = w # ws \<and> is_free v \<and> is_free w")
    case True
    then obtain w ws where y: "ys = w # ws" "is_free v" "is_free w" by blast
    then have v': "v' = v\<lparr>vma_size := vma_size v + vma_size w\<rparr>" "ys' = ws" using assms(3) by (auto simp: merge_next_def)
    have sz: "unat (vma_size v + vma_size w) = size_of v + size_of w" using touch [OF assms(1) [unfolded y(1)] assms(2)] by simp
    have bw: "base_of w = end_of v" using assms(1) y(1) by (simp add: tiles_mid)
    have pm: "vma_permissions w = vma_permissions v" using fp y by simp
    have "area_at w ++ area_at v = area_at v'"
      using sz bw y pm by (auto simp: fun_eq_iff area_at_def map_add_def v' split: option.splits)
    moreover have "areas (v # ys) = areas ws ++ (area_at w ++ area_at v)"
      by (simp only: y(1) areas.simps map_add_assoc)
    ultimately have "areas (v' # ys') = areas (v # ys)" by (simp only: v'(2) areas.simps)
    moreover have "tiles a (xs @ v' # ys') b" using assms(1) sz bw y by (simp add: tiles_mid v' add.assoc)
    ultimately show ?thesis using sz y v' by (simp add: subset_insertI)
  next
    case False
    then have "v' = v" "ys' = ys" using assms(3) by (auto simp: merge_next_def split: list.splits if_splits)
    then show ?thesis using assms(1) False by (cases ys) auto
  qed
  then show "tiles a (xs @ v' # ys') b" "vma_base v' = vma_base v" "vma_type v' = vma_type v"
    "vma_permissions v' = vma_permissions v" "end_of v \<le> end_of v'" "areas (v' # ys') = areas (v # ys)"
    "set ys' \<subseteq> set ys" "ys' = (if is_free v \<and> ys \<noteq> [] \<and> is_free (hd ys) then tl ys else ys)" by blast+
qed

lemma merge_prev_ok:
  assumes "tiles a (xs @ v # ys) b" "b < 2 ^ 32" "merge_prev xs v = (xs', h)"
    and fp: "\<forall>w\<in>set (xs @ v # ys). is_free w \<longrightarrow> vma_permissions w = NOACCESS"
  shows "tiles a (xs' @ h # ys) b" "vma_type h = vma_type v" "vma_permissions h = vma_permissions v"
    "base_of h \<le> base_of v" "end_of h = end_of v" "areas (xs' @ h # ys) = areas (xs @ v # ys)"
    "set xs' \<subseteq> set xs" "xs' = (if is_free v \<and> xs \<noteq> [] \<and> is_free (last xs) then butlast xs else xs)"
proof -
  have "tiles a (xs' @ h # ys) b \<and> vma_type h = vma_type v \<and> vma_permissions h = vma_permissions v
    \<and> base_of h \<le> base_of v \<and> end_of h = end_of v \<and> areas (xs' @ h # ys) = areas (xs @ v # ys)
    \<and> set xs' \<subseteq> set xs \<and> xs' = (if is_free v \<and> xs \<noteq> [] \<and> is_free (last xs) then butlast xs else xs)"
  proof (cases "xs \<noteq> [] \<and> is_free (last xs) \<and> is_free v")
    case True
    then obtain us p where xs: "xs = us @ [p]" "is_free p" "is_free v" by (metis append_butlast_last_id)
    then have h: "h = p\<lparr>vma_size := vma_size p + vma_size v\<rparr>" "xs' = us" using assms(3) by (auto simp: merge_prev_def)
    have t2: "tiles a (us @ p # v # ys) b" using assms(1) xs by simp
    have sz: "unat (vma_size p + vma_size v) = size_of p + size_of v" using touch [OF t2 assms(2)] by simp
    have bv: "base_of v = end_of p" using t2 by (simp add: tiles_mid)
    have pm: "vma_permissions p = vma_permissions v" using fp xs by simp
    have "area_at v ++ area_at p = area_at h"
      using sz bv xs pm by (auto simp: fun_eq_iff area_at_def map_add_def h split: option.splits)
    moreover have "areas (us @ p # v # ys) = (areas ys ++ (area_at v ++ area_at p)) ++ areas us"
      by (simp only: areas_append areas.simps map_add_assoc)
    ultimately have "areas (xs' @ h # ys) = areas (xs @ v # ys)"
      by (simp only: h(2) xs(1) append_assoc append.simps) (simp only: areas_append areas.simps)
    moreover have "tiles a (xs' @ h # ys) b" using t2 sz bv by (simp add: tiles_mid h add.assoc)
    ultimately show ?thesis using sz bv xs h pm by (simp add: add.assoc subset_insertI)
  next
    case False
    then have "xs' = xs" "h = v" using assms(3) by (auto simp: merge_prev_def split: if_splits)
    then show ?thesis using assms(1) False by auto
  qed
  then show "tiles a (xs' @ h # ys) b" "vma_type h = vma_type v" "vma_permissions h = vma_permissions v"
    "base_of h \<le> base_of v" "end_of h = end_of v" "areas (xs' @ h # ys) = areas (xs @ v # ys)"
    "set xs' \<subseteq> set xs" "xs' = (if is_free v \<and> xs \<noteq> [] \<and> is_free (last xs) then butlast xs else xs)" by blast+
qed

lemma UnmapVMA_run:
  assumes l: "RegionMap r = xs @ v # ys" and ok: "areas_ok a b (xs @ v # ys)"
  shows "\<exists>xs' h ys'. UnmapVMA (Some (vma_base v)) r = Inr (Some (vma_base h), r\<lparr>RegionMap := xs' @ h # ys'\<rparr>)
    \<and> areas_ok a b (xs' @ h # ys') \<and> is_free h \<and> base_of h \<le> base_of v \<and> end_of v \<le> end_of h
    \<and> ys' = (if ys \<noteq> [] \<and> is_free (hd ys) then tl ys else ys)
    \<and> areas (xs' @ h # ys') = (\<lambda>x. if base_of v \<le> x \<and> x < end_of v then Some (FreeVma, NOACCESS)
         else areas (xs @ v # ys) x)"
proof -
  note t = areas_okD(1) [OF ok] note b = areas_okD(2) [OF ok] note s = areas_okD(3) [OF ok]
  define f where "f = v\<lparr>vma_type := FreeVma, vma_permissions := NOACCESS\<rparr>"
  have tf: "tiles a (xs @ f # ys) b" using t by (simp add: f_def tiles_mid)
  have pf: "\<forall>w\<in>set (xs @ f # ys). is_free w \<longrightarrow> vma_permissions w = NOACCESS"
    using ok by (auto simp: areas_ok_def f_def)
  obtain v2 ys' where mn: "merge_next f ys = (v2, ys')" by (cases "merge_next f ys")
  note n = merge_next_ok [OF tf b mn pf]
  have p2: "\<forall>w\<in>set (xs @ v2 # ys'). is_free w \<longrightarrow> vma_permissions w = NOACCESS"
    using pf n(3,4,7) by (auto simp: f_def)
  obtain xs' h where mp: "merge_prev xs v2 = (xs', h)" by (cases "merge_prev xs v2")
  note q = merge_prev_ok [OF n(1) b mp p2]
  define r1 where "r1 = r\<lparr>RegionMap := xs @ f # ys\<rparr>"
  define r2 where "r2 = r\<lparr>RegionMap := xs @ v2 # ys'\<rparr>"
  have "set_vma (Some (vma_base v)) (\<lambda>v. v\<lparr>vma_type := FreeVma, vma_permissions := NOACCESS\<rparr>) r = Inr ((), r1)"
    using set_mid [OF l s] by (simp add: r1_def f_def)
  moreover have "MergeNext (Some (vma_base f)) r1 = Inr ((), r2)"
    using MergeNext_run [of r1, OF _ tf b] mn by (simp add: r1_def r2_def)
  moreover have "MergePrev (Some (vma_base v2)) r2 = Inr (Some (vma_base h), r\<lparr>RegionMap := xs' @ h # ys'\<rparr>)"
    using MergePrev_run [of r2, OF _ n(1) b] mp by (simp add: r2_def)
  ultimately have run: "UnmapVMA (Some (vma_base v)) r = Inr (Some (vma_base h), r\<lparr>RegionMap := xs' @ h # ys'\<rparr>)"
    using n(2) by (simp add: UnmapVMA_def MergeAdjacentVMA_def run_simps f_def)
  have sv: "successively (\<lambda>v w. \<not> (is_free v \<and> is_free w)) (xs @ v # ys)" using ok by (simp add: areas_ok_def)
  have fv2: "is_free v2" "is_free h" using n(3) q(2) by (simp_all add: f_def)
  have sx: "successively (\<lambda>v w. \<not> (is_free v \<and> is_free w)) xs" "successively (\<lambda>v w. \<not> (is_free v \<and> is_free w)) ys"
    using sv by (auto simp: successively_append_iff successively_Cons)
  have "successively (\<lambda>v w. \<not> (is_free v \<and> is_free w)) xs' \<and> (xs' = [] \<or> \<not> is_free (last xs'))"
    using sx(1) q(8) fv2 by (cases xs rule: rev_cases) (auto simp: successively_append_iff)
  moreover have "successively (\<lambda>v w. \<not> (is_free v \<and> is_free w)) ys' \<and> (ys' = [] \<or> \<not> is_free (hd ys'))"
    using sx(2) n(8) by (cases ys) (auto simp: f_def successively_Cons)
  ultimately have "successively (\<lambda>v w. \<not> (is_free v \<and> is_free w)) (xs' @ h # ys')"
    by (auto simp: successively_append_iff successively_Cons)
  moreover have "\<forall>w\<in>set (xs' @ h # ys'). is_free w \<longrightarrow> vma_permissions w = NOACCESS"
    using p2 q(3,7) n(4) by (auto simp: f_def)
  ultimately have ok': "areas_ok a b (xs' @ h # ys')" using q(1) b by (simp add: areas_ok_def)
  have "areas (xs' @ h # ys') = areas (v2 # ys') ++ areas xs" unfolding q(6) by (simp add: areas_append)
  also have "\<dots> = areas (f # ys) ++ areas xs" by (simp only: n(6))
  also have "\<dots> = areas (xs @ f # ys)" by (simp add: areas_append)
  also have "\<dots> = (\<lambda>x. if base_of v \<le> x \<and> x < end_of v then Some (FreeVma, NOACCESS) else areas (xs @ v # ys) x)"
    using areas_at [OF tf] by (auto simp: fun_eq_iff f_def areas_append map_add_def area_at_def split: option.splits)
  finally have ar: "areas (xs' @ h # ys') = \<dots>" .
  have "base_of h \<le> base_of v" "end_of v \<le> end_of h" "ys' = (if ys \<noteq> [] \<and> is_free (hd ys) then tl ys else ys)"
    using q(4,5) n(2,5,8) by (simp_all add: f_def)
  then show ?thesis using run ok' ar fv2(2) by blast
qed

lemma unmap_loop_run:
  assumes "RegionMap r = xs @ M @ Y" "areas_ok a b (xs @ M @ Y)" "M \<noteq> []" "\<forall>v\<in>set M. \<not> is_free v"
    and "unat target = end_of (last M)" "length M < k"
  shows "\<exists>X R. unmap_loop k (base_it (M @ Y)) target r = Inr (base_it R, r\<lparr>RegionMap := X @ R\<rparr>)
    \<and> areas_ok a b (X @ R) \<and> X \<noteq> [] \<and> is_free (last X)
    \<and> areas (X @ R) = (\<lambda>x. if base_of (hd M) \<le> x \<and> x < unat target then Some (FreeVma, NOACCESS)
         else areas (xs @ M @ Y) x)"
  using assms
proof (induction M arbitrary: xs r k)
  case (Cons v M)
  obtain k' where k: "k = Suc k'" using Cons.prems(6) by (cases k) auto
  have l: "RegionMap r = xs @ v # (M @ Y)" and ok: "areas_ok a b (xs @ v # (M @ Y))" using Cons.prems(1,2) by simp_all
  note t = areas_okD(1) [OF ok]
  have lt: "vma_base v < target"
  proof (cases "M = []")
    case True
    then show ?thesis using Cons.prems(5) t by (simp add: word_less_nat_alt tiles_mid)
  next
    case False
    then have "last M \<in> set (M @ Y)" by simp
    then have "end_of v \<le> base_of (last M)" using tiles_after [OF t] by blast
    then show ?thesis using Cons.prems(5) t False by (simp add: word_less_nat_alt tiles_mid)
  qed
  from UnmapVMA_run [OF l ok] obtain xs' h ys' where u:
    "UnmapVMA (Some (vma_base v)) r = Inr (Some (vma_base h), r\<lparr>RegionMap := xs' @ h # ys'\<rparr>)"
    "areas_ok a b (xs' @ h # ys')" "is_free h" "base_of h \<le> base_of v" "end_of v \<le> end_of h"
    "ys' = (if M @ Y \<noteq> [] \<and> is_free (hd (M @ Y)) then tl (M @ Y) else M @ Y)"
    "areas (xs' @ h # ys') = (\<lambda>x. if base_of v \<le> x \<and> x < end_of v then Some (FreeVma, NOACCESS)
         else areas (xs @ v # (M @ Y)) x)" by blast
  define r' where "r' = r\<lparr>RegionMap := xs' @ h # ys'\<rparr>"
  have nx: "next_it (Some (vma_base h)) r' = Inr (base_it ys', r')"
    using next_mid [of r'] areas_okD(3) [OF u(2)] by (simp add: r'_def)
  have step: "unmap_loop k (base_it ((v # M) @ Y)) target r = unmap_loop k' (base_it ys') target r'"
    using deref_mid [OF l areas_okD(3) [OF ok]] lt u(1) nx
    by (simp add: k base_it_def run_simps r'_def)
  show ?case
  proof (cases "M = []")
    case True
    have tg: "unat target = end_of v" using Cons.prems(5) True by simp
    have "unmap_loop k' (base_it ys') target r' = Inr (base_it ys', r')"
    proof (cases ys')
      case Nil
      then show ?thesis using Cons.prems(6) k by (cases k') (auto simp: base_it_def run_simps)
    next
      case (Cons w ws)
      have l3: "RegionMap r' = (xs' @ [h]) @ w # ws" by (simp add: r'_def Cons)
      have s3: "by_base ((xs' @ [h]) @ w # ws)" using areas_okD(3) [OF u(2)] Cons by simp
      have "end_of h \<le> base_of w" using tiles_after [OF areas_okD(1) [OF u(2)]] Cons by simp
      then have "\<not> vma_base w < target" using u(5) tg by (simp add: word_less_nat_alt)
      then show ?thesis using deref_mid [OF l3 s3] Cons.prems(6) k
        by (cases k') (auto simp: base_it_def run_simps Cons)
    qed
    then show ?thesis using step u(1-5) u(7) tg unfolding True append.simps
      by (intro exI2 [of _ "xs' @ [h]" ys']) (simp add: r'_def)
  next
    case False
    then have ys': "ys' = M @ Y" using u(6) Cons.prems(4) by (cases M) auto
    have l3: "RegionMap r' = (xs' @ [h]) @ M @ Y" by (simp add: r'_def ys')
    have ok3: "areas_ok a b ((xs' @ [h]) @ M @ Y)" using u(2) ys' by simp
    obtain X R where X: "unmap_loop k' (base_it (M @ Y)) target r' = Inr (base_it R, r'\<lparr>RegionMap := X @ R\<rparr>)"
      "areas_ok a b (X @ R)" "X \<noteq> []" "is_free (last X)"
      "areas (X @ R) = (\<lambda>x. if base_of (hd M) \<le> x \<and> x < unat target then Some (FreeVma, NOACCESS)
         else areas ((xs' @ [h]) @ M @ Y) x)"
      using Cons.IH [OF l3 ok3 False, of k'] Cons.prems(4-6) False k by auto
    have bm: "base_of (hd M) = end_of v" using t False by (cases M) (auto simp: tiles_mid)
    have le: "end_of v \<le> unat target"
      using tiles_after [OF t, of "last M"] False Cons.prems(5) by simp
    have "areas (X @ R) = (\<lambda>x. if base_of (hd (v # M)) \<le> x \<and> x < unat target then Some (FreeVma, NOACCESS)
         else areas (xs @ (v # M) @ Y) x)"
      unfolding X(5) using u(7) ys' bm le by (auto simp: fun_eq_iff)
    then show ?thesis using step X(1-4) ys' by (intro exI2 [of _ X R]) (simp add: r'_def)
  qed
qed simp

end
