(* ===== verification/Mm_AreaOps.thy ===== *)
theory Mm_AreaOps
  imports Mm_AreaFacts
begin

text \<open>
  The two operations the manager calls on a region, \<open>ConstructVMA\<close> and the map part of \<open>DestructVMA\<close>,
  and the carving they rest on.
\<close>

abbreviation apart :: "VirtualMemoryArea list \<Rightarrow> bool" where
  "apart \<equiv> successively (\<lambda>v w. \<not> (is_free v \<and> is_free w))"

lemma unat_diff32: "unat b \<le> unat a \<Longrightarrow> unat (a - b) = unat a - unat b" for a b :: u32
  by (simp add: unat_sub word_le_nat_alt)

lemma unat_sum32: "unat a + unat b < 2 ^ 32 \<Longrightarrow> unat (a + b) = unat a + unat b" for a b :: u32
  by (simp add: unat_word_ariths)

section \<open>Carving a range of allocated areas\<close>

definition low_part :: "u32 \<Rightarrow> VirtualMemoryArea \<Rightarrow> VirtualMemoryArea" where
  "low_part off v = v\<lparr>vma_size := off\<rparr>"

definition high_part :: "u32 \<Rightarrow> VirtualMemoryArea \<Rightarrow> VirtualMemoryArea" where
  "high_part off v = v\<lparr>vma_base := vma_base v + off, vma_size := vma_size v - off\<rparr>"

lemma parts:
  assumes "unat off < size_of v" "end_of v < 2 ^ 32"
  shows "base_of (low_part off v) = base_of v" "size_of (low_part off v) = unat off"
    "base_of (high_part off v) = base_of v + unat off" "size_of (high_part off v) = size_of v - unat off"
    "vma_type (low_part off v) = vma_type v" "vma_type (high_part off v) = vma_type v"
    "vma_permissions (low_part off v) = vma_permissions v" "vma_permissions (high_part off v) = vma_permissions v"
    "area_at (high_part off v) ++ area_at (low_part off v) = area_at v"
proof -
  have s: "unat (vma_size v - off) = size_of v - unat off" "unat (vma_base v + off) = base_of v + unat off"
    using assms by (simp_all add: unat_diff32 unat_sum32)
  show "base_of (low_part off v) = base_of v" "size_of (low_part off v) = unat off"
    "base_of (high_part off v) = base_of v + unat off" "size_of (high_part off v) = size_of v - unat off"
    "vma_type (low_part off v) = vma_type v" "vma_type (high_part off v) = vma_type v"
    "vma_permissions (low_part off v) = vma_permissions v" "vma_permissions (high_part off v) = vma_permissions v"
    by (simp_all add: low_part_def high_part_def s)
  show "area_at (high_part off v) ++ area_at (low_part off v) = area_at v"
    using s assms by (auto simp: fun_eq_iff area_at_def map_add_def low_part_def high_part_def split: option.splits)
qed

lemma SplitVMA_parts:
  assumes "RegionMap r = xs @ v # ys" "tiles a (xs @ v # ys) b" "b < 2 ^ 32" "0 < unat off" "unat off < size_of v"
  shows "SplitVMA (Some (vma_base v)) off r
    = Inr (Some (vma_base (high_part off v)), r\<lparr>RegionMap := xs @ low_part off v # high_part off v # ys\<rparr>)"
    and "tiles a (xs @ low_part off v # high_part off v # ys) b"
    and "areas (xs @ low_part off v # high_part off v # ys) = areas (xs @ v # ys)"
proof -
  have e: "end_of v \<le> b" "end_of v < 2 ^ 32" using tiles_end [OF assms(2)] assms(3) by simp_all
  have "SplitVMA (Some (vma_base v)) off r = Inr (Some (vma_base v + off),
      r\<lparr>RegionMap := xs @ low_part off v # high_part off v # ys\<rparr>)"
    unfolding low_part_def high_part_def
    by (rule SplitVMA_mid) (use assms tiles_by_base [OF assms(2)] tiles_after [OF assms(2)] e in auto)
  then show "SplitVMA (Some (vma_base v)) off r
    = Inr (Some (vma_base (high_part off v)), r\<lparr>RegionMap := xs @ low_part off v # high_part off v # ys\<rparr>)"
    by (simp add: high_part_def)
  note p = parts [OF assms(5) e(2)]
  show "tiles a (xs @ low_part off v # high_part off v # ys) b"
    using assms(2,4,5) p by (simp add: tiles_mid)
  have "areas (xs @ low_part off v # high_part off v # ys)
      = (areas ys ++ (area_at (high_part off v) ++ area_at (low_part off v))) ++ areas xs"
    by (simp only: areas_append areas.simps map_add_assoc)
  also have "\<dots> = areas (xs @ v # ys)" by (simp only: p(9) areas_append areas.simps)
  finally show "areas (xs @ low_part off v # high_part off v # ys) = areas (xs @ v # ys)" .
qed

text \<open>Cutting the map at an address, as \<open>CarveVMARange\<close> does at both ends of the range.\<close>

lemma cut_run:
  assumes l: "RegionMap r = xs @ v # ys" and ok: "areas_ok a b (xs @ v # ys)"
    and t: "base_of v \<le> unat t" "unat t < end_of v" "t \<noteq> vma_base v \<Longrightarrow> \<not> is_free v"
  shows "\<exists>Z Y. (if t \<noteq> vma_base v then SplitVMA (Some (vma_base v)) (t - vma_base v) else ret (Some (vma_base v))) r
      = Inr (base_it Y, r\<lparr>RegionMap := (xs @ Z) @ Y\<rparr>) \<and> Y \<noteq> []
    \<and> tiles a (xs @ Z) (unat t) \<and> tiles (unat t) Y b \<and> areas_ok a b ((xs @ Z) @ Y)
    \<and> areas ((xs @ Z) @ Y) = areas (xs @ v # ys)"
proof (cases "t = vma_base v")
  case True
  then show ?thesis using l ok areas_okD(1) [OF ok]
    by (intro exI2 [of _ "[]" "v # ys"]) (auto simp: base_it_def tiles_mid)
next
  case False
  define off where "off = t - vma_base v"
  have o: "unat off = unat t - base_of v" using t(1) by (simp add: off_def unat_diff32)
  have "unat t \<noteq> base_of v" using False by (simp add: word_unat_eq_iff)
  then have o2: "0 < unat off" "unat off < size_of v" using o t(1,2) by auto
  note T = areas_okD(1) [OF ok] note b = areas_okD(2) [OF ok]
  note sp = SplitVMA_parts [OF l T b o2]
  have e: "end_of v < 2 ^ 32" using tiles_end [OF T] b by simp
  note p = parts [OF o2(2) e]
  have "apart (xs @ v # ys)" using ok by (simp add: areas_ok_def)
  then have "apart (xs @ low_part off v # high_part off v # ys)"
    using t(3) [OF False] p(5,6) by (auto simp: successively_append_iff successively_Cons)
  moreover have "\<forall>w\<in>set (xs @ low_part off v # high_part off v # ys). is_free w \<longrightarrow> vma_permissions w = NOACCESS"
    using ok p(5-8) by (auto simp: areas_ok_def)
  ultimately have ok': "areas_ok a b (xs @ low_part off v # high_part off v # ys)"
    using sp(2) b by (simp add: areas_ok_def)
  have "tiles a (xs @ [low_part off v]) (unat t)" "tiles (unat t) (high_part off v # ys) b"
    using sp(2) p o t(1) by (auto simp: tiles_mid tiles_append)
  then show ?thesis using sp(1,3) ok' False
    by (intro exI2 [of _ "[low_part off v]" "high_part off v # ys"]) (simp add: base_it_def off_def del: tiles.simps)
qed

lemma GetVMAIterator_at:
  assumes "RegionMap r = xs @ v # ys" "tiles a (xs @ v # ys) b" "base_of v \<le> unat t" "unat t < end_of v"
  shows "GetVMAIterator t r = Inr (Some (vma_base v), r)"
proof (rule get_mid [OF assms(1) tiles_by_base [OF assms(2)] assms(3)])
  show "\<forall>y\<in>set ys. unat t < base_of y" using tiles_after [OF assms(2)] assms(4) by fastforce
qed

definition all_allocated :: "nat \<Rightarrow> nat \<Rightarrow> VirtualMemoryArea list \<Rightarrow> bool" where
  "all_allocated s e l \<longleftrightarrow> (\<forall>x\<in>{s..<e}. \<exists>t p. areas l x = Some (t, p) \<and> t \<noteq> FreeVma)"

lemma all_allocated_area:
  assumes "all_allocated s e (xs @ v # ys)" "tiles a (xs @ v # ys) b" "base_of v < e" "s < end_of v" "s < e"
  shows "\<not> is_free v"
proof -
  define x where "x = max s (base_of v)"
  have "x \<in> {s..<e}" "base_of v \<le> x" "x < end_of v"
    using assms(2-5) by (auto simp: x_def tiles_mid)
  then show ?thesis using assms(1) areas_at [OF assms(2), of x] unfolding all_allocated_def by force
qed

lemma CarveVMARange_run:
  assumes ok: "areas_ok a b (RegionMap r)" and rng: "a \<le> unat base" "unat base + unat n < b" "0 < unat n"
    and al: "all_allocated (unat base) (unat base + unat n) (RegionMap r)"
  shows "\<exists>xs M Y. CarveVMARange base n r = Inr (base_it (M @ Y), r\<lparr>RegionMap := xs @ M @ Y\<rparr>)
    \<and> areas_ok a b (xs @ M @ Y) \<and> tiles a xs (unat base) \<and> tiles (unat base) M (unat base + unat n)
    \<and> (\<forall>v\<in>set M. \<not> is_free v) \<and> areas (xs @ M @ Y) = areas (RegionMap r)"
proof -
  note T = areas_okD(1) [OF ok] note b = areas_okD(2) [OF ok]
  define t where "t = base + n"
  have t: "unat t = unat base + unat n" using rng(2) b by (simp add: t_def unat_sum32)
  from find_area [OF T rng(1)] rng(2) obtain xs v ys where l: "RegionMap r = xs @ v # ys"
    and v: "base_of v \<le> unat base" "unat base < end_of v" by (meson le_less_trans le_add1)
  note T' = T [unfolded l]
  have nf: "\<not> is_free w" if "xs @ v # ys = us @ w # vs" "base_of w < unat t" "unat base < end_of w" for us w vs
    using all_allocated_area [of "unat base" "unat base + unat n" us w vs] al T rng(3) that t by (simp add: l)
  have fv: "\<not> is_free v" using nf [of xs v ys] v t rng(3) by simp
  obtain Z Y where c1: "(if base \<noteq> vma_base v then SplitVMA (Some (vma_base v)) (base - vma_base v) else ret (Some (vma_base v))) r
      = Inr (base_it Y, r\<lparr>RegionMap := (xs @ Z) @ Y\<rparr>)" "tiles a (xs @ Z) (unat base)" "tiles (unat base) Y b"
      "areas_ok a b ((xs @ Z) @ Y)" "areas ((xs @ Z) @ Y) = areas (xs @ v # ys)"
    using cut_run [OF l ok [unfolded l] v] fv by blast
  define X where "X = xs @ Z"
  define r1 where "r1 = r\<lparr>RegionMap := X @ Y\<rparr>"
  from find_area [OF c1(3), of "unat t"] rng(2,3) t obtain us w ws where Y: "Y = us @ w # ws"
    and w: "base_of w \<le> unat t" "unat t < end_of w" by auto
  have l1: "RegionMap r1 = (X @ us) @ w # ws" by (simp add: r1_def Y)
  have ok1: "areas_ok a b ((X @ us) @ w # ws)" using c1(4) by (simp add: X_def Y)
  have ar1: "areas ((X @ us) @ w # ws) = areas (RegionMap r)" using c1(5) by (simp add: X_def Y l)
  have al1: "all_allocated (unat base) (unat base + unat n) ((X @ us) @ w # ws)"
    using al ar1 by (simp add: all_allocated_def)
  have bw: "unat base \<le> base_of w" using c1(3) Y tiles_le [of "unat base" us "base_of w"] by (auto simp: tiles_mid)
  have fw: "\<not> is_free w" if "t \<noteq> vma_base w"
  proof -
    have "base_of w < unat t" using w(1) that by (metis le_neq_implies_less word_unat_eq_iff)
    then show ?thesis using all_allocated_area [OF al1 areas_okD(1) [OF ok1]] w t rng(3) by simp
  qed
  from cut_run [OF l1 ok1 w fw] obtain Z2 R where
    c2: "(if t \<noteq> vma_base w then SplitVMA (Some (vma_base w)) (t - vma_base w) else ret (Some (vma_base w))) r1
      = Inr (base_it R, r1\<lparr>RegionMap := ((X @ us) @ Z2) @ R\<rparr>)"
      "tiles a ((X @ us) @ Z2) (unat t)" "tiles (unat t) R b" "areas_ok a b (((X @ us) @ Z2) @ R)"
      "areas (((X @ us) @ Z2) @ R) = areas ((X @ us) @ w # ws)" by blast
  define M where "M = us @ Z2"
  have "tiles a (X @ M) (unat t)" using c2(2) by (simp add: M_def)
  then obtain m where m: "tiles a X m" "tiles m M (unat t)" unfolding tiles_append by blast
  have XM: "tiles a X (unat base)" using c1(2) by (simp add: X_def)
  moreover have "tiles (unat base) M (unat t)" using m tiles_unique [OF XM m(1)] by simp
  ultimately have XM: "tiles a X (unat base)" "tiles (unat base) M (unat t)" by blast+
  have ok2: "areas_ok a b (X @ M @ R)" and ar2: "areas (X @ M @ R) = areas (RegionMap r)"
    using c2(4,5) ar1 by (simp_all add: M_def)
  have al2: "all_allocated (unat base) (unat base + unat n) (X @ M @ R)" using al ar2 by (simp add: all_allocated_def)
  have nfM: "\<not> is_free m" if mM: "m \<in> set M" for m
  proof -
    obtain p q where pq: "M = p @ m # q" using mM by (meson split_list)
    have "tiles a ((X @ p) @ m # q @ R) b" using areas_okD(1) [OF ok2] pq by simp
    moreover have "base_of m < unat t" "unat base < end_of m"
      using tiles_mem [OF XM(2) mM] by auto
    ultimately show ?thesis using all_allocated_area [of "unat base" "unat base + unat n" "X @ p" m "q @ R" a b] al2 pq t rng(3) by simp
  qed
  have Mne: "M \<noteq> []" using XM(2) t rng(3) by auto
  have dr: "dropWhile (\<lambda>w. Some (vma_base w) \<noteq> Some (vma_base v)) (xs @ v # ys) = v # ys"
  proof -
    have "Some (vma_base x) \<noteq> Some (vma_base v)" if "x \<in> set xs" for x
      using tiles_by_base [OF T'] that by (auto simp: by_base_mid)
    then show ?thesis by (simp add: dropWhile_append2)
  qed
  have chk: "\<forall>w\<in>set (takeWhile (\<lambda>w. vma_base w < t) (v # ys)). vma_type w \<noteq> FreeVma"
  proof
    fix w' assume "w' \<in> set (takeWhile (\<lambda>w. vma_base w < t) (v # ys))"
    then have w': "w' \<in> set (v # ys)" "base_of w' < unat t" by (auto dest!: set_takeWhileD simp: word_less_nat_alt)
    then obtain p q where pq: "v # ys = p @ w' # q" by (meson split_list)
    then have "xs @ v # ys = (xs @ p) @ w' # q" by simp
    moreover have "unat base < end_of w'"
      using w'(1) v tiles_after [OF T', of w'] by fastforce
    ultimately show "vma_type w' \<noteq> FreeVma" using nf w'(2) by blast
  qed
  have get1: "GetVMAIterator base r = Inr (Some (vma_base v), r)" by (rule GetVMAIterator_at [OF l T' v])
  have get2: "GetVMAIterator t r1 = Inr (Some (vma_base w), r1)"
    by (rule GetVMAIterator_at [OF l1 areas_okD(1) [OF ok1] w])
  have c2': "(if t \<noteq> vma_base w then bnd (SplitVMA (Some (vma_base w)) (t - vma_base w)) (\<lambda>_. ret ()) else ret ()) r1
    = Inr ((), r\<lparr>RegionMap := X @ M @ R\<rparr>)"
    using c2(1) by (auto simp: run_simps r1_def M_def split: if_splits)
  have len: "base \<le> t" "0 < n" using t rng(3) by (simp_all add: word_le_nat_alt word_less_nat_alt)
  have mx: "unat t \<le> 4294967295" using t rng(2) b by simp
  have Yb: "base_it Y = base_it (M @ R)"
    using Mne XM(2) c1(3) rng by (cases M; cases Y) (auto simp: base_it_def word_unat_eq_iff)
  have "CarveVMARange base n r = Inr (base_it Y, r\<lparr>RegionMap := X @ M @ R\<rparr>)"
    using len mx get1 get2 dr chk c1(1) c2' deref_mid [OF l tiles_by_base [OF T']] deref_mid [OF l1 areas_okD(3) [OF ok1]]
    by (simp add: CarveVMARange_def Let_def t_def [symmetric] run_simps l X_def [symmetric] r1_def [symmetric] word_le_nat_alt)
  then show ?thesis using ok2 XM nfM ar2 t Yb by metis
qed

section \<open>Destruction\<close>

definition LastFree_ok :: "MemoryRegion \<Rightarrow> bool" where
  "LastFree_ok r \<longleftrightarrow> (case LastFree r of
     None \<Rightarrow> \<forall>v\<in>set (RegionMap r). \<not> is_free v
   | Some k \<Rightarrow> \<exists>v\<in>set (RegionMap r). is_free v \<and> vma_base v = k)"

definition region_ok :: "nat \<Rightarrow> nat \<Rightarrow> MemoryRegion \<Rightarrow> bool" where
  "region_ok a b r \<longleftrightarrow> areas_ok a b (RegionMap r) \<and> LastFree_ok r"

lemma DestructAreas_run:
  assumes ok: "areas_ok a b (RegionMap r)" and rng: "a \<le> unat addr" "unat addr + unat n < b" "0 < unat n"
    and al: "all_allocated (unat addr) (unat addr + unat n) (RegionMap r)"
  shows "\<exists>r'. DestructAreas addr n r = Inr ((), r') \<and> region_ok a b r' \<and> LastFree r' \<noteq> None
    \<and> areas (RegionMap r') = (\<lambda>x. if unat addr \<le> x \<and> x < unat addr + unat n then Some (FreeVma, NOACCESS)
         else areas (RegionMap r) x)"
proof -
  obtain xs M Y where c: "CarveVMARange addr n r = Inr (base_it (M @ Y), r\<lparr>RegionMap := xs @ M @ Y\<rparr>)"
    "areas_ok a b (xs @ M @ Y)" "tiles a xs (unat addr)" "tiles (unat addr) M (unat addr + unat n)"
    "\<forall>v\<in>set M. \<not> is_free v" "areas (xs @ M @ Y) = areas (RegionMap r)"
    using CarveVMARange_run [OF assms] by blast
  define r1 where "r1 = r\<lparr>RegionMap := xs @ M @ Y\<rparr>"
  have t: "unat (addr + n) = unat addr + unat n" using rng(2) areas_okD(2) [OF ok] by (simp add: unat_sum32)
  have M: "M \<noteq> []" using c(4) rng(3) by auto
  then obtain M' m where M': "M = M' @ [m]" by (cases M rule: rev_cases) auto
  have tl: "unat (addr + n) = end_of (last M)" using c(4) M' t by (auto simp: tiles_mid tiles_append)
  have l1: "RegionMap r1 = xs @ M @ Y" by (simp add: r1_def)
  from unmap_loop_run [OF l1 c(2) M c(5) tl, of "Suc (length (RegionMap r1))"] obtain X R where
    u: "unmap_loop (Suc (length (RegionMap r1))) (base_it (M @ Y)) (addr + n) r1 = Inr (base_it R, r1\<lparr>RegionMap := X @ R\<rparr>)"
    "areas_ok a b (X @ R)" "X \<noteq> []" "is_free (last X)"
    "areas (X @ R) = (\<lambda>x. if base_of (hd M) \<le> x \<and> x < unat (addr + n) then Some (FreeVma, NOACCESS)
         else areas (xs @ M @ Y) x)" by (auto simp: l1)
  define r2 where "r2 = r1\<lparr>RegionMap := X @ R\<rparr>"
  obtain X' f where X: "X = X' @ [f]" "is_free f" using u(3,4) by (cases X rule: rev_cases) auto
  have l2: "RegionMap r2 = X' @ f # R" by (simp add: r2_def X)
  have s2: "by_base (X' @ f # R)" using areas_okD(3) [OF u(2)] by (simp add: X)
  have bM: "base_of (hd M) = unat addr" using c(4) M by (cases M) auto
  have first: "base_it (xs @ M @ Y) = base_it (X @ R) \<and> base_it R \<noteq> base_it (X @ R)"
  proof -
    have h1: "base_of (hd (xs @ M @ Y)) = a" using areas_okD(1) [OF c(2)] M by (cases "xs @ M @ Y") auto
    have h2: "base_of (hd (X @ R)) = a" using areas_okD(1) [OF u(2)] u(3) by (cases "X @ R") auto
    have "vma_base (hd R) \<noteq> vma_base (hd (X @ R))" if "R \<noteq> []"
    proof -
      have "base_of (hd (X @ R)) \<le> base_of f" "hd R \<in> set R"
        using s2 that h2 tiles_mem [OF areas_okD(1) [OF u(2)], of f] by (auto simp: X)
      moreover have "base_of f < base_of (hd R)" using s2 calculation(2) by (auto simp: by_base_mid)
      ultimately show ?thesis by auto
    qed
    then show ?thesis using h1 h2 M u(3) by (cases "xs @ M @ Y"; cases "X @ R"; cases R) (auto simp: base_it_def word_unat_eq_iff)
  qed
  have pv: "prev_it (base_it R) r2 = Inr (Some (vma_base f), r2)"
  proof (cases R)
    case Nil
    then show ?thesis by (simp add: base_it_def prev_it_def run_simps l2)
  next
    case (Cons w ws)
    have "RegionMap r2 = (X' @ [f]) @ w # ws" "by_base ((X' @ [f]) @ w # ws)" using l2 s2 Cons by simp_all
    from prev_mid [OF this] show ?thesis by (simp add: base_it_def Cons)
  qed
  have "DestructAreas addr n r = Inr ((), r2\<lparr>LastFree := Some (vma_base f)\<rparr>)"
    using c(1) u(1) first pv deref_mid [OF l2 s2] X(2)
    by (simp add: DestructAreas_def run_simps r1_def [symmetric] begin_it_run l1 r2_def [symmetric] set_LastFree_def)
  moreover have "region_ok a b (r2\<lparr>LastFree := Some (vma_base f)\<rparr>)"
    using u(2) X by (auto simp: region_ok_def LastFree_ok_def r2_def)
  moreover have "areas (RegionMap r2) = (\<lambda>x. if unat addr \<le> x \<and> x < unat addr + unat n then Some (FreeVma, NOACCESS)
         else areas (RegionMap r) x)"
    using u(5) [unfolded bM t c(6)] by (simp add: r2_def)
  ultimately show ?thesis by (intro exI [of _ "r2\<lparr>LastFree := Some (vma_base f)\<rparr>"]) simp
qed

text \<open>A range that ends where the region ends: the search for the area of its end finds the last area.\<close>

lemma DestructAreas_last:
  assumes ok: "areas_ok a b (RegionMap r)" and rng: "a \<le> unat addr" "unat addr + unat n = b" "0 < unat n"
  shows "DestructAreas addr n r = Inl AssertFailed"
proof -
  note T = areas_okD(1) [OF ok] note b = areas_okD(2) [OF ok]
  define t where "t = addr + n"
  have t: "unat t = b" using rng(2) b by (simp add: t_def unat_sum32)
  from find_area [OF T rng(1)] rng(2,3) obtain xs v ys where l: "RegionMap r = xs @ v # ys"
    and v: "base_of v \<le> unat addr" "unat addr < end_of v" by auto
  note T' = T [unfolded l]
  have get1: "GetVMAIterator addr r = Inr (Some (vma_base v), r)" by (rule GetVMAIterator_at [OF l T' v])
  define off where "off = addr - vma_base v"
  have off: "unat off = unat addr - base_of v" using v(1) by (simp add: off_def unat_diff32)
  obtain w L where cut: "(if addr \<noteq> vma_base v then SplitVMA (Some (vma_base v)) off else ret (Some (vma_base v))) r
      = Inr (w, r\<lparr>RegionMap := L\<rparr>)" "tiles a L b"
  proof (cases "addr = vma_base v")
    case True
    then show ?thesis using that [of "Some (vma_base v)" "xs @ v # ys"] T' l by simp
  next
    case False
    then have "unat addr \<noteq> base_of v" by (simp add: word_unat_eq_iff)
    then have "0 < unat off" "unat off < size_of v" using off v by auto
    from SplitVMA_parts(1,2) [OF l T' b this] show ?thesis using that False by simp
  qed
  have "L \<noteq> []" using cut(2) rng by auto
  then obtain M z where L: "L = M @ [z]" by (cases L rule: rev_cases) auto
  define r1 where "r1 = r\<lparr>RegionMap := L\<rparr>"
  have l1: "RegionMap r1 = M @ z # []" and T1: "tiles a (M @ z # []) b" using cut(2) by (simp_all add: r1_def L)
  have z: "base_of z < b" "end_of z = b" using T1 by (auto simp: tiles_mid)
  have "GetVMAIterator t r1 = Inr (Some (vma_base z), r1)"
    by (rule get_mid [OF l1 tiles_by_base [OF T1]]) (use z t in auto)
  moreover have "deref (Some (vma_base z)) r1 = Inr (z, r1)" by (rule deref_mid [OF l1 tiles_by_base [OF T1]])
  moreover have "SplitVMA (Some (vma_base z)) (t - vma_base z) r1 = Inl AssertFailed"
  proof -
    have "unat (t - vma_base z) = size_of z" using z t by (simp add: unat_diff32)
    then show ?thesis using calculation(2) by (simp add: SplitVMA_def run_simps word_less_nat_alt)
  qed
  moreover have "t \<noteq> vma_base z" using z t by auto
  moreover have "addr \<le> t" using t rng(2) by (simp add: word_le_nat_alt)
  ultimately have "CarveVMARange addr n r = Inl AssertFailed"
    using get1 deref_mid [OF l tiles_by_base [OF T']] cut(1)
    by (auto simp: CarveVMARange_def Let_def t_def [symmetric] run_simps r1_def [symmetric] off_def [symmetric])
  then show ?thesis by (simp add: DestructAreas_def run_simps)
qed

section \<open>Construction\<close>

definition free_range :: "nat \<Rightarrow> nat \<Rightarrow> VirtualMemoryArea list \<Rightarrow> bool" where
  "free_range s e l \<longleftrightarrow> (\<exists>v\<in>set l. is_free v \<and> base_of v \<le> s \<and> e \<le> end_of v)"

lemma CarveVMA_run:
  assumes l: "RegionMap r = xs @ v # ys" and ok: "areas_ok a b (xs @ v # ys)"
    and f: "is_free v" "base_of v \<le> unat base" "unat base + unat n \<le> end_of v" "0 < unat n"
  shows "\<exists>P m S. CarveVMA base n r = Inr (Some (vma_base m), r\<lparr>RegionMap := (xs @ P) @ m # S @ ys\<rparr>)
    \<and> tiles a ((xs @ P) @ m # S @ ys) b \<and> areas ((xs @ P) @ m # S @ ys) = areas (xs @ v # ys)
    \<and> base_of m = unat base \<and> size_of m = unat n
    \<and> length P \<le> 1 \<and> length S \<le> 1 \<and> (\<forall>w\<in>set (P @ S). is_free w \<and> vma_permissions w = NOACCESS)"
proof -
  note T = areas_okD(1) [OF ok] note b = areas_okD(2) [OF ok]
  have e: "end_of v \<le> b" "end_of v < 2 ^ 32" using tiles_end [OF T] b by simp_all
  define s where "s = base - vma_base v"
  have s: "unat s = unat base - base_of v" using f(2) by (simp add: s_def unat_diff32)
  have sn: "unat (s + n) = unat base - base_of v + unat n" using s f(2,3) e by (simp add: unat_sum32)
  have pv: "vma_permissions v = NOACCESS" using ok f(1) by (auto simp: areas_ok_def)
  have get: "GetVMAIterator base r = Inr (Some (vma_base v), r)"
    by (rule GetVMAIterator_at [OF l T f(2)]) (use f(3,4) in linarith)
  have fit: "s + n \<le> vma_size v" using sn f(2,3) by (simp add: word_le_nat_alt)
  define m1 where "m1 = (if s + n = vma_size v then v else low_part (s + n) v)"
  define S where "S = (if s + n = vma_size v then [] else [high_part (s + n) v])"
  have size: "size_of m1 = unat (s + n)" "vma_base m1 = vma_base v" "vma_type m1 = FreeVma" "vma_permissions m1 = NOACCESS"
    using f(1) pv by (simp_all add: m1_def low_part_def)
  have hi: "is_free w \<and> vma_permissions w = NOACCESS" if "w \<in> set S" for w
    using that f(1) pv by (auto simp: S_def high_part_def split: if_splits)
  have c1: "(if s + n \<noteq> vma_size v then bnd (SplitVMA (Some (vma_base v)) (s + n)) (\<lambda>_. ret ()) else ret ()) r
      = Inr ((), r\<lparr>RegionMap := xs @ m1 # S @ ys\<rparr>)
    \<and> tiles a (xs @ m1 # S @ ys) b \<and> areas (xs @ m1 # S @ ys) = areas (xs @ v # ys)"
  proof (cases "s + n = vma_size v")
    case True
    then show ?thesis using l T by (simp add: m1_def S_def)
  next
    case False
    then have "unat (s + n) \<noteq> size_of v" by (simp add: word_unat_eq_iff)
    then have o: "0 < unat (s + n)" "unat (s + n) < size_of v" using sn f(2-4) by auto
    from SplitVMA_parts [OF l T b o] show ?thesis using False by (simp add: m1_def S_def run_simps)
  qed
  define r1 where "r1 = r\<lparr>RegionMap := xs @ m1 # S @ ys\<rparr>"
  have l1: "RegionMap r1 = xs @ m1 # S @ ys" by (simp add: r1_def)
  define P where "P = (if s = 0 then [] else [low_part s m1])"
  define m where "m = (if s = 0 then m1 else high_part s m1)"
  have e1: "end_of m1 < 2 ^ 32" using size sn f(2,3) e by simp
  have lo: "is_free w \<and> vma_permissions w = NOACCESS" if "w \<in> set P" for w
    using that size by (auto simp: P_def low_part_def split: if_splits)
  have c2: "(if s \<noteq> 0 then SplitVMA (Some (vma_base v)) s else ret (Some (vma_base v))) r1
      = Inr (Some (vma_base m), r\<lparr>RegionMap := (xs @ P) @ m # S @ ys\<rparr>)
    \<and> tiles a ((xs @ P) @ m # S @ ys) b \<and> areas ((xs @ P) @ m # S @ ys) = areas (xs @ v # ys)
    \<and> base_of m = unat base \<and> size_of m = unat n"
  proof (cases "s = 0")
    case True
    then show ?thesis using c1 size sn s f(2) by (simp add: P_def m_def r1_def)
  next
    case False
    then have o: "0 < unat s" by (simp add: unat_gt_0)
    then have o: "0 < unat s" "unat s < size_of m1" "base_of v < unat base" using size sn s f(4) by auto
    from SplitVMA_parts [OF l1 _ b o(1,2), of a] c1 parts [OF o(2) e1] show ?thesis
      using False size sn s f(2) by (simp add: P_def m_def r1_def)
  qed
  have "CarveVMA base n r = Inr (Some (vma_base m), r\<lparr>RegionMap := (xs @ P) @ m # S @ ys\<rparr>)"
    using get deref_mid [OF l tiles_by_base [OF T]] f(1) fit c1 c2
    by (cases "s + n = vma_size v"; cases "s = 0")
      (auto simp: CarveVMA_def run_simps Let_def s_def r1_def split: sum.splits)
  moreover have "length P \<le> 1" "length S \<le> 1" by (simp_all add: P_def S_def)
  ultimately show ?thesis using c2 hi lo by (intro exI [of _ P] exI [of _ m] exI [of _ S]) auto
qed

lemma free_from_ok: "free_from it r = Some k \<Longrightarrow> \<exists>v\<in>set (RegionMap r). is_free v \<and> vma_base v = k"
proof -
  have f: "first_free l = Some k \<Longrightarrow> \<exists>v\<in>set l. is_free v \<and> vma_base v = k" for l
    by (induction l) (auto split: if_splits)
  assume "free_from it r = Some k"
  then show ?thesis using f by (fastforce simp: free_from_def split: option.splits dest: set_dropWhileD)
qed

lemma free_down_to_ok: "free_down_to it r = Some k \<Longrightarrow> \<exists>v\<in>set (RegionMap r). is_free v \<and> vma_base v = k"
proof -
  have f: "first_free l = Some k \<Longrightarrow> \<exists>v\<in>set l. is_free v \<and> vma_base v = k" for l
    by (induction l) (auto split: if_splits)
  assume "free_down_to it r = Some k"
  then show ?thesis using f by (fastforce simp: free_down_to_def split: option.splits dest: set_takeWhileD)
qed

lemma first_free_None: "first_free l = None \<longleftrightarrow> (\<forall>v\<in>set l. \<not> is_free v)"
  by (induction l) auto

lemma apart_mid: "apart A \<Longrightarrow> apart B \<Longrightarrow> \<not> is_free v \<Longrightarrow> apart (A @ v # B)"
  by (auto simp: successively_append_iff successively_Cons)

lemma ConstructVMA_run:
  assumes ok: "areas_ok a b (RegionMap r)" and f: "free_range (unat Start) (unat Start + unat n) (RegionMap r)"
    and n: "0 < unat n" and ty: "VmaType \<noteq> FreeVma"
  shows "\<exists>r'. ConstructVMA Start n VmaType Perms r = Inr ((), r') \<and> region_ok a b r'
    \<and> areas (RegionMap r') = (\<lambda>x. if unat Start \<le> x \<and> x < unat Start + unat n then Some (VmaType, Perms)
         else areas (RegionMap r) x)"
proof -
  obtain xs v ys where l: "RegionMap r = xs @ v # ys" and v: "is_free v" "base_of v \<le> unat Start"
    "unat Start + unat n \<le> end_of v" using f unfolding free_range_def by (meson split_list)
  from CarveVMA_run [OF l ok [unfolded l] v n] obtain P m S where
    c: "CarveVMA Start n r = Inr (Some (vma_base m), r\<lparr>RegionMap := (xs @ P) @ m # S @ ys\<rparr>)"
    "tiles a ((xs @ P) @ m # S @ ys) b" "areas ((xs @ P) @ m # S @ ys) = areas (xs @ v # ys)"
    "base_of m = unat Start" "size_of m = unat n" "length P \<le> 1" "length S \<le> 1"
    "\<forall>w\<in>set (P @ S). is_free w \<and> vma_permissions w = NOACCESS" by blast
  define m' where "m' = m\<lparr>vma_type := VmaType, vma_permissions := Perms\<rparr>"
  define L where "L = (xs @ P) @ m' # S @ ys"
  have tL: "tiles a L b" using c(2) unfolding L_def tiles_mid by (simp add: m'_def)
  have "apart (xs @ v # ys)" using ok l by (simp add: areas_ok_def)
  then have sp: "apart xs" "apart ys" "xs = [] \<or> \<not> is_free (last xs)" "ys = [] \<or> \<not> is_free (hd ys)"
    using v(1) by (auto simp: successively_append_iff successively_Cons)
  have "apart (xs @ P)" using sp(1,3) c(6) by (cases P) (auto simp: successively_append_iff)
  moreover have "apart (S @ ys)" using sp(2,4) c(7) by (cases S) (auto simp: successively_append_iff successively_Cons)
  ultimately have "apart L" unfolding L_def by (rule apart_mid) (simp add: m'_def ty)
  moreover have "\<forall>w\<in>set L. is_free w \<longrightarrow> vma_permissions w = NOACCESS"
    using ok c(8) l ty by (auto simp: L_def m'_def areas_ok_def)
  ultimately have okL: "areas_ok a b L" using tL ok by (simp add: areas_ok_def)
  have aL: "areas L = (\<lambda>x. if unat Start \<le> x \<and> x < unat Start + unat n then Some (VmaType, Perms) else areas (RegionMap r) x)"
  proof
    fix x
    have "areas L x = (if base_of m \<le> x \<and> x < end_of m then Some (VmaType, Perms) else areas ((xs @ P) @ m # S @ ys) x)"
      using areas_at [of a "xs @ P" m' "S @ ys" b x] tL
      by (auto simp: L_def m'_def areas_append map_add_def area_at_def split: option.splits)
    then show "areas L x = (if unat Start \<le> x \<and> x < unat Start + unat n then Some (VmaType, Perms) else areas (RegionMap r) x)"
      using c(3-5) l by simp
  qed
  define r1 where "r1 = r\<lparr>RegionMap := (xs @ P) @ m # S @ ys\<rparr>"
  define r2 where "r2 = r\<lparr>RegionMap := L\<rparr>"
  have l1: "RegionMap r1 = (xs @ P) @ m # S @ ys" by (simp add: r1_def)
  have l2: "RegionMap r2 = (xs @ P) @ m' # S @ ys" and s2: "by_base ((xs @ P) @ m' # S @ ys)"
    using tiles_by_base [OF tL] by (simp_all add: r2_def L_def)
  have bm: "vma_base m' = vma_base m" by (simp add: m'_def)
  have st: "set_vma (Some (vma_base m)) (\<lambda>v. v\<lparr>vma_type := VmaType, vma_permissions := Perms\<rparr>) r1 = Inr ((), r2)"
    using set_mid [OF l1 tiles_by_base [OF c(2)]] by (simp add: r1_def r2_def L_def m'_def)
  have nx: "next_it (Some (vma_base m)) r2 = Inr (base_it (S @ ys), r2)" using next_mid [OF l2 s2] by (simp add: bm)
  have bx: "ConstructVMA Start n VmaType Perms r = (if free_from (base_it (S @ ys)) r2 \<noteq> None
      then Inr ((), r2\<lparr>LastFree := free_from (base_it (S @ ys)) r2\<rparr>)
      else if Some (vma_base m) = base_it (xs @ v # ys) then Inr ((), r2\<lparr>LastFree := None\<rparr>)
      else bnd (prev_it (Some (vma_base m))) (\<lambda>it. bnd (get (free_down_to it)) set_LastFree) r2)"
  proof -
    have "CarveVMA Start n r = Inr (Some (vma_base m), r1)" using c(1) by (simp add: r1_def)
    then show ?thesis using st nx by (simp add: ConstructVMA_def run_simps begin_it_run l set_LastFree_def)
  qed
  have dr: "free_from (base_it (S @ ys)) r2 = first_free (S @ ys)"
  proof (cases "S @ ys")
    case Nil
    then show ?thesis by (simp add: free_from_def base_it_def)
  next
    case (Cons w ws)
    have "dropWhile (\<lambda>u. vma_base u < vma_base w) (((xs @ P) @ [m']) @ w # ws) = w # ws"
    proof (rule dropWhile_mid)
      have "by_base (((xs @ P) @ [m']) @ w # ws)" using s2 Cons by simp
      note this [unfolded by_base_mid]
      then show "\<forall>u\<in>set ((xs @ P) @ [m']). vma_base u < vma_base w" "\<forall>u\<in>set (w # ws). \<not> vma_base u < vma_base w"
        by (auto simp: word_less_nat_alt)
    qed
    then show ?thesis using l2 Cons by (simp add: free_from_def base_it_def)
  qed
  have ok2: "region_ok a b (r2\<lparr>LastFree := it\<rparr>)" if "LastFree_ok (r2\<lparr>LastFree := it\<rparr>)" for it
    using that okL by (simp add: region_ok_def r2_def)
  have finish: ?thesis if "ConstructVMA Start n VmaType Perms r = Inr ((), r2\<lparr>LastFree := it\<rparr>)"
      "LastFree_ok (r2\<lparr>LastFree := it\<rparr>)" for it
    using that ok2 aL by (intro exI [of _ "r2\<lparr>LastFree := it\<rparr>"]) (simp add: r2_def)
  show ?thesis
  proof (cases "first_free (S @ ys)")
    case (Some k)
    show ?thesis
      by (rule finish [of "Some k"]) (use bx dr Some free_from_ok [of "base_it (S @ ys)" r2 k] in \<open>auto simp: LastFree_ok_def\<close>)
  next
    case None
    then have nf: "\<forall>w\<in>set (m' # S @ ys). \<not> is_free w" using ty by (simp add: first_free_None m'_def)
    show ?thesis
    proof (cases "xs @ P = []")
      case True
      have "base_of m = base_of v" using c(2) areas_okD(1) [OF ok] l True by simp
      then have "Some (vma_base m) = base_it (xs @ v # ys)"
        using True c(4) by (simp add: base_it_def word_unat_eq_iff)
      then show ?thesis using bx dr None nf True l2
        by (intro finish [of None]) (auto simp: LastFree_ok_def)
    next
      case False
      have ne: "Some (vma_base m) \<noteq> base_it (xs @ v # ys)"
      proof -
        have "tiles a (xs @ P) (base_of m)" using c(2) by (simp only: tiles_mid)
        then have "a < base_of m" using hd_in_set [OF False] tiles_mem [of a "xs @ P" "base_of m" "hd (xs @ P)"] by linarith
        moreover have "base_of (hd (xs @ v # ys)) = a" using areas_okD(1) [OF ok] l by (cases xs) auto
        ultimately show ?thesis by (cases xs) (auto simp: base_it_def)
      qed
      have pv: "prev_it (Some (vma_base m)) r2 = Inr (Some (vma_base (last (xs @ P))), r2)"
        using prev_mid [OF l2 s2 False] by (simp add: bm)
      obtain Q p where Q: "xs @ P = Q @ [p]" using False by (cases "xs @ P" rule: rev_cases) auto
      have tw: "takeWhile (\<lambda>u. vma_base u \<le> vma_base p) ((Q @ [p]) @ m' # S @ ys) = Q @ [p]"
        using s2 unfolding Q
        by (intro takeWhile_mid) (auto simp: by_base_mid word_le_nat_alt, (meson Un_iff leD)+)
      have fd: "free_down_to (Some (vma_base p)) r2 = first_free (rev (Q @ [p]))"
        using tw l2 unfolding Q by (simp add: free_down_to_def)
      have lf: "LastFree_ok (r2\<lparr>LastFree := first_free (rev (Q @ [p]))\<rparr>)"
      proof (cases "first_free (rev (Q @ [p]))")
        case N: None
        then have "\<forall>u\<in>set (Q @ [p]). \<not> is_free u" by (simp only: first_free_None set_rev)
        then show ?thesis using N nf l2 unfolding Q by (auto simp: LastFree_ok_def)
      next
        case (Some k)
        then show ?thesis using free_down_to_ok [of "Some (vma_base p)" r2 k] fd by (simp add: LastFree_ok_def)
      qed
      show ?thesis using bx dr None ne pv fd Q lf
        by (intro finish [of "first_free (rev (Q @ [p]))"]) (simp_all add: run_simps set_LastFree_def)
    qed
  qed
qed

end
