(* ===== verification/Mm_Map.thy ===== *)
theory Mm_Map
  imports Mm_AreaOps
begin

unbundle bit_operations_syntax

text \<open>
  The virtual memory manager (\<open>core/kernel/memory-manager/VMManager.cpp\<close>) above the area maps: the
  regions, the search for a free block (\<open>MapMemoryBlock\<close>, \<open>MapHostMemory\<close>) and the release of a block
  (\<open>DestructVMA\<close>) with its calls of the host.

  The host is outside the repository: \<open>valloc\<close> gives the address that \<open>VirtualAlloc\<close> returns for an
  address, a size and flags after the calls so far, and the calls are recorded in \<open>HostCalls\<close> (the
  results of \<open>VirtualFree\<close> are only logged). The loop of \<open>MapHostMemory\<close> has the fuel 65536, after which its
  address would be the first one again.
\<close>

section \<open>The manager\<close>

datatype MemoryRegionType = UserRegion | SystemRegion | DevkitRegion | ContiguousRegion

datatype host_call = VirtualAlloc u32 u32 u32 | VirtualDecommit u32 u32 | VirtualRelease u32

record VMManager =
  m_MemoryRegionArray :: "MemoryRegionType \<Rightarrow> MemoryRegion"
  HostCalls :: "host_call list"

definition in_region :: "MemoryRegionType \<Rightarrow> ('a, MemoryRegion) run \<Rightarrow> ('a, VMManager) run" where
  "in_region Type m s = (case m (m_MemoryRegionArray s Type) of
     Inl e \<Rightarrow> Inl e
   | Inr (a, r) \<Rightarrow> Inr (a, s\<lparr>m_MemoryRegionArray := (m_MemoryRegionArray s)(Type := r)\<rparr>))"

definition call_host :: "host_call \<Rightarrow> (unit, VMManager) run" where
  "call_host h = modify (\<lambda>s. s\<lparr>HostCalls := HostCalls s @ [h]\<rparr>)"

definition m_AllocationGranularity :: u32 where "m_AllocationGranularity = 0x10000"

definition ROUND_UP :: "u32 \<Rightarrow> u32 \<Rightarrow> u32" where
  "ROUND_UP n alignment = (n + (alignment - 1)) AND NOT (alignment - 1)"

definition CHECK_ALIGNMENT :: "u32 \<Rightarrow> u32 \<Rightarrow> bool" where
  "CHECK_ALIGNMENT n alignment \<longleftrightarrow> n mod alignment = 0"

type_synonym host = "host_call list \<Rightarrow> u32 \<Rightarrow> u32 \<Rightarrow> u32 \<Rightarrow> u32"

section \<open>Searching for a block\<close>

fun map_host_loop :: "nat \<Rightarrow> host \<Rightarrow> u32 \<Rightarrow> u32 \<Rightarrow> u32 \<Rightarrow> u32 \<Rightarrow> (u32, VMManager) run" where
  "map_host_loop 0 valloc StartingAddr n VmaEnd Permissions = fail Aborted"
| "map_host_loop (Suc k) valloc StartingAddr n VmaEnd Permissions =
     (if StartingAddr + n - 1 < VmaEnd
      then bnd (get (\<lambda>s. valloc (HostCalls s) StartingAddr n Permissions)) (\<lambda>p.
           bnd (call_host (VirtualAlloc StartingAddr n Permissions)) (\<lambda>_.
           if p = StartingAddr then ret StartingAddr
           else map_host_loop k valloc (StartingAddr + m_AllocationGranularity) n VmaEnd Permissions))
      else ret 0)"

definition MapHostMemory :: "host \<Rightarrow> u32 \<Rightarrow> u32 \<Rightarrow> u32 \<Rightarrow> u32 \<Rightarrow> (u32, VMManager) run" where
  "MapHostMemory = map_host_loop 65536"

text \<open>The loop that commits a reserved block in steps of 64 KiB.\<close>

fun commit_loop :: "nat \<Rightarrow> host \<Rightarrow> u32 \<Rightarrow> u32 \<Rightarrow> u32 \<Rightarrow> u32 \<Rightarrow> u32 \<Rightarrow> u32 \<Rightarrow> (u32, VMManager) run" where
  "commit_loop 0 valloc start_addr start_size addr n vma_end Permissions = fail Aborted"
| "commit_loop (Suc k) valloc start_addr start_size addr n vma_end Permissions =
     (if addr < vma_end
      then bnd (MapHostMemory valloc addr m_AllocationGranularity vma_end Permissions) (\<lambda>addr.
           bnd (check (addr \<noteq> 0)) (\<lambda>_.
           let start_size = start_size + m_AllocationGranularity in
           if n \<le> start_size then ret start_addr
           else commit_loop k valloc start_addr start_size (addr + m_AllocationGranularity) n vma_end Permissions))
      else fail AssertFailed)"

text \<open>One area of the search: the mapped address, or \<open>None\<close> to go on.\<close>

definition try_area :: "host \<Rightarrow> u32 \<Rightarrow> u32 \<Rightarrow> bool \<Rightarrow> u32 \<Rightarrow> VirtualMemoryArea \<Rightarrow> (u32 option, VMManager) run" where
  "try_area valloc n Permissions b64Blocks HighestAddress v =
     (if vma_type v \<noteq> FreeVma then ret None
      else let addr = (if CHECK_ALIGNMENT (vma_base v) m_AllocationGranularity then vma_base v
                       else ROUND_UP (vma_base v) m_AllocationGranularity);
               area_end = vma_base v + vma_size v;
               vma_end = (if HighestAddress \<noteq> 0 \<and> HighestAddress + 1 < area_end then HighestAddress + 1 else area_end)
           in if Permissions = 0xFFFFFFFF then ret (if addr + n - 1 < area_end then Some addr else None)
              else if b64Blocks
              then if addr + n - 1 < vma_end
                   then bnd (commit_loop 65536 valloc addr 0 addr n vma_end Permissions) (\<lambda>p. ret (Some p))
                   else ret None
              else bnd (MapHostMemory valloc addr n vma_end Permissions) (\<lambda>p. ret (if p \<noteq> 0 then Some p else None)))"

text \<open>Forward from \<open>LastFree\<close>; running past \<open>end()\<close> because \<open>end_it\<close> was behind is out of bounds.\<close>

fun map_forward :: "(VirtualMemoryArea \<Rightarrow> (u32 option, VMManager) run) \<Rightarrow> VMAIter \<Rightarrow> VirtualMemoryArea list \<Rightarrow> (u32 option, VMManager) run" where
  "map_forward attempt end_it [] = (if end_it = None then ret None else fail OutOfBounds)"
| "map_forward attempt end_it (v # vs) =
     (if end_it = Some (vma_base v) then ret None
      else bnd (attempt v) (\<lambda>p. if p \<noteq> None then ret p else map_forward attempt end_it vs))"

text \<open>
  Backward from the area before \<open>LastFree\<close>. With \<open>Permissions\<close> \<open>0xFFFFFFFF\<close> a free area that is too
  small is left by \<open>--it; continue\<close>, without the test for the beginning.
\<close>

fun map_backward :: "(VirtualMemoryArea \<Rightarrow> (u32 option, VMManager) run) \<Rightarrow> bool \<Rightarrow> VirtualMemoryArea list \<Rightarrow> (u32 option, VMManager) run" where
  "map_backward attempt skip_test [] = ret None"
| "map_backward attempt skip_test (v # vs) =
     bnd (attempt v) (\<lambda>p. if p \<noteq> None then ret p
       else if skip_test \<and> vma_type v = FreeVma \<and> vs = [] then fail OutOfBounds
       else map_backward attempt skip_test vs)"

definition areas_from :: "VMAIter \<Rightarrow> MemoryRegion \<Rightarrow> VirtualMemoryArea list" where
  "areas_from it r = (case it of None \<Rightarrow> [] | Some k \<Rightarrow> dropWhile (\<lambda>v. vma_base v < k) (RegionMap r))"

definition areas_before :: "VMAIter \<Rightarrow> MemoryRegion \<Rightarrow> VirtualMemoryArea list" where
  "areas_before it r = (case it of None \<Rightarrow> rev (RegionMap r)
     | Some k \<Rightarrow> rev (takeWhile (\<lambda>v. vma_base v < k) (RegionMap r)))"

definition MapMemoryBlock :: "host \<Rightarrow> MemoryRegionType \<Rightarrow> u32 \<Rightarrow> u32 \<Rightarrow> bool \<Rightarrow> u32 \<Rightarrow> (u32, VMManager) run" where
  "MapMemoryBlock valloc Type PteNumber Permissions b64Blocks HighestAddress =
     (let n = push_bit 12 PteNumber in
      bnd (in_region Type (if HighestAddress \<noteq> 0 then bnd (GetVMAIterator HighestAddress) next_it else ret None)) (\<lambda>end_it.
      bnd (get (\<lambda>s. let r = m_MemoryRegionArray s Type in
        (LastFree r, areas_from (LastFree r) r, areas_before (LastFree r) r))) (\<lambda>(it, ahead, behind).
      bnd (map_forward (try_area valloc n Permissions b64Blocks HighestAddress) end_it ahead) (\<lambda>p. case p of
        Some addr \<Rightarrow> ret addr
      | None \<Rightarrow>
          bnd (in_region Type begin_it) (\<lambda>first.
          if it = first then ret 0
          else bnd (map_backward (try_area valloc n Permissions b64Blocks 0) (Permissions = 0xFFFFFFFF) behind) (\<lambda>p.
               ret (case p of Some addr \<Rightarrow> addr | None \<Rightarrow> 0)))))))"

section \<open>Releasing a block\<close>

definition DestructVMA :: "u32 \<Rightarrow> u32 \<Rightarrow> MemoryRegionType \<Rightarrow> u32 \<Rightarrow> (unit, VMManager) run" where
  "DestructVMA XBE_MAX_VA addr Type n =
     bnd (in_region Type (bnd (GetVMAIterator addr) deref)) (\<lambda>it.
     bnd (if XBE_MAX_VA \<le> addr \<and> Type \<noteq> ContiguousRegion
          then if Type = SystemRegion \<or> Type = DevkitRegion then call_host (VirtualDecommit addr n)
               else if addr = vma_base it \<and> n = vma_size it then call_host (VirtualRelease addr)
               else call_host (VirtualDecommit addr n)
          else ret ()) (\<lambda>_.
     in_region Type (DestructAreas addr n)))"

end
