(* ===== verification/Mm_Alloc.thy ===== *)
theory Mm_Alloc
  imports Mm_Map Mm_Pages
begin

text \<open>
  Correctness of block allocation and release (\<open>VMManager.cpp\<close>): \<open>MapMemoryBlock\<close> returns a block inside
  one free area, mapped by the host, so that \<open>ConstructVMA\<close> can record it; \<open>DestructVMA\<close> makes exactly its
  range free again. Two lemmas show runs that leave the map: a range that ends where the region ends, and a
  search that starts behind the highest address asked for.
\<close>

abbreviation regions :: "VMManager \<Rightarrow> MemoryRegionType \<Rightarrow> MemoryRegion" where
  "regions \<equiv> m_MemoryRegionArray"

text \<open>The host mapped the block \<open>[p, p + n)\<close> with its last call.\<close>

definition host_mapped :: "host \<Rightarrow> u32 \<Rightarrow> u32 \<Rightarrow> u32 \<Rightarrow> VMManager \<Rightarrow> bool" where
  "host_mapped valloc p n Permissions s \<longleftrightarrow>
     (\<exists>h. HostCalls s = h @ [VirtualAlloc p n Permissions] \<and> valloc h p n Permissions = p)"

lemma map_host_loop_run:
  assumes "0 < unat n" "B + unat n + 65536 \<le> 2 ^ 32" "unat VmaEnd \<le> B"
    and "unat St < B + 65536" "B + 65536 - unat St < k * 65536"
  shows "\<exists>p s'. map_host_loop k valloc St n VmaEnd Permissions s = Inr (p, s') \<and> regions s' = regions s
    \<and> (if p = 0 then (\<forall>h a m f. valloc h a m f = a) \<longrightarrow> St = 0 \<or> \<not> unat St + unat n \<le> unat VmaEnd
       else unat St \<le> unat p \<and> unat p + unat n \<le> unat VmaEnd \<and> host_mapped valloc p n Permissions s')"
  using assms
proof (induction k arbitrary: St s)
  case (Suc k)
  have sn: "unat (St + n - 1) = unat St + unat n - 1"
    using Suc.prems(1,2,4) by (simp add: u32_add u32_sub)
  define s1 where "s1 = s\<lparr>HostCalls := HostCalls s @ [VirtualAlloc St n Permissions]\<rparr>"
  show ?case
  proof (cases "St + n - 1 < VmaEnd")
    case False
    then have "\<not> unat St + unat n \<le> unat VmaEnd" using sn Suc.prems(1) by (simp add: word_less_nat_alt)
    then show ?thesis using False by simp
  next
    case True
    then have le: "unat St + unat n \<le> unat VmaEnd" using sn Suc.prems(1) by (simp add: word_less_nat_alt)
    show ?thesis
    proof (cases "valloc (HostCalls s) St n Permissions = St")
      case ok: True
      then have "map_host_loop (Suc k) valloc St n VmaEnd Permissions s = Inr (St, s1)"
        using True by (simp add: run_simps call_host_def s1_def)
      moreover have "host_mapped valloc St n Permissions s1"
        using ok by (auto simp: host_mapped_def s1_def)
      ultimately show ?thesis using le by (auto simp: s1_def)
    next
      case no: False
      define St' where "St' = St + m_AllocationGranularity"
      have St': "unat St' = unat St + 65536" using le Suc.prems(1-3)
        by (simp add: St'_def m_AllocationGranularity_def u32_add)
      have "\<exists>p s'. map_host_loop k valloc St' n VmaEnd Permissions s1 = Inr (p, s') \<and> regions s' = regions s1
        \<and> (if p = 0 then (\<forall>h a m f. valloc h a m f = a) \<longrightarrow> St' = 0 \<or> \<not> unat St' + unat n \<le> unat VmaEnd
           else unat St' \<le> unat p \<and> unat p + unat n \<le> unat VmaEnd \<and> host_mapped valloc p n Permissions s')"
        by (rule Suc.IH) (use Suc.prems le St' in auto)
      then obtain p s' where p: "map_host_loop k valloc St' n VmaEnd Permissions s1 = Inr (p, s')" "regions s' = regions s1"
        "if p = 0 then (\<forall>h a m f. valloc h a m f = a) \<longrightarrow> St' = 0 \<or> \<not> unat St' + unat n \<le> unat VmaEnd
           else unat St' \<le> unat p \<and> unat p + unat n \<le> unat VmaEnd \<and> host_mapped valloc p n Permissions s'" by blast
      have "map_host_loop (Suc k) valloc St n VmaEnd Permissions s = Inr (p, s')"
        using True no p(1) by (simp add: run_simps call_host_def s1_def St'_def)
      then show ?thesis using p(2,3) no St' by (auto simp: s1_def split: if_splits)
    qed
  qed
qed simp

lemma map_host_stop:
  "\<not> St + n - 1 < VmaEnd \<Longrightarrow> 0 < k \<Longrightarrow> map_host_loop k valloc St n VmaEnd Permissions s = Inr (0, s)"
  by (cases k) simp_all

definition round64 :: "nat \<Rightarrow> nat" where "round64 x = (x + 65535) div 65536 * 65536"

lemma round64_le: "x \<le> round64 x" "round64 x < x + 65536"
proof -
  have "round64 x + (x + 65535) mod 65536 = x + 65535" unfolding round64_def by (rule div_mult_mod_eq)
  moreover have "(x + 65535) mod 65536 < 65536" by simp
  ultimately show "x \<le> round64 x" "round64 x < x + 65536" by linarith+
qed

lemma aligned_base:
  assumes "unat w + 65536 \<le> 2 ^ 32"
  shows "unat (if CHECK_ALIGNMENT w m_AllocationGranularity then w else ROUND_UP w m_AllocationGranularity) = round64 (unat w)"
proof -
  have "unat (w + 0xFFFF) = unat w + 65535" using assms by (simp add: u32_add)
  then have r: "unat (ROUND_UP w m_AllocationGranularity) = round64 (unat w)"
    using u32_align_down [of 16 "w + 0xFFFF"] by (simp add: ROUND_UP_def m_AllocationGranularity_def round64_def)
  have "unat w = round64 (unat w)" if "CHECK_ALIGNMENT w m_AllocationGranularity"
  proof -
    have "unat w mod 65536 = 0"
      using that by (simp add: CHECK_ALIGNMENT_def m_AllocationGranularity_def word_unat_eq_iff unat_mod)
    then obtain k where "unat w = 65536 * k" by (auto simp: mod_eq_0_iff_dvd elim: dvdE)
    then show ?thesis by (simp add: round64_def)
  qed
  then show ?thesis using r by simp
qed

text \<open>The place a block of \<open>n\<close> bytes has in a free area, below the limit.\<close>

definition block_fits :: "nat \<Rightarrow> nat \<Rightarrow> VirtualMemoryArea \<Rightarrow> bool" where
  "block_fits n limit v \<longleftrightarrow> is_free v \<and> round64 (base_of v) + n \<le> min (end_of v) limit"

lemma try_area_run:
  assumes "0 < unat n" "b + unat n + 65536 \<le> 2 ^ 32" "0 < base_of v" "end_of v \<le> b" "unat H < b"
    and "Permissions \<noteq> 0xFFFFFFFF"
  shows "\<exists>p s'. try_area valloc n Permissions False H v s = Inr (p, s') \<and> regions s' = regions s
    \<and> (case p of
         None \<Rightarrow> (\<forall>h a m f. valloc h a m f = a) \<longrightarrow> \<not> block_fits (unat n) (if H = 0 then b else unat H + 1) v
       | Some q \<Rightarrow> q \<noteq> 0 \<and> is_free v \<and> base_of v \<le> unat q \<and> unat q + unat n \<le> end_of v
           \<and> host_mapped valloc q n Permissions s')"
proof (cases "is_free v")
  case False
  then show ?thesis by (simp add: try_area_def block_fits_def)
next
  case True
  define addr where "addr = (if CHECK_ALIGNMENT (vma_base v) m_AllocationGranularity then vma_base v
                       else ROUND_UP (vma_base v) m_AllocationGranularity)"
  define area_end where "area_end = vma_base v + vma_size v"
  define vma_end where "vma_end = (if H \<noteq> 0 \<and> H + 1 < area_end then H + 1 else area_end)"
  have ad: "unat addr = round64 (base_of v)" unfolding addr_def
    by (rule aligned_base) (use assms(2,4) in simp)
  have ae: "unat area_end = end_of v" using assms(2,4) by (simp add: area_end_def u32_add)
  have h1: "unat (H + 1) = unat H + 1" using assms(2,5) by (simp add: u32_add)
  have ve: "unat vma_end = min (end_of v) (if H = 0 then b else unat H + 1)"
    using ae h1 assms(4) by (auto simp: vma_end_def word_less_nat_alt min_def)
  have rd: "base_of v \<le> unat addr" "unat addr < b + 65536" using round64_le [of "base_of v"] ad assms(4) by simp_all
  have "\<exists>p s'. map_host_loop 65536 valloc addr n vma_end Permissions s = Inr (p, s') \<and> regions s' = regions s
    \<and> (if p = 0 then (\<forall>h a m f. valloc h a m f = a) \<longrightarrow> addr = 0 \<or> \<not> unat addr + unat n \<le> unat vma_end
       else unat addr \<le> unat p \<and> unat p + unat n \<le> unat vma_end \<and> host_mapped valloc p n Permissions s')"
    by (rule map_host_loop_run [of n b]) (use assms ve rd in auto)
  then obtain p s' where p: "MapHostMemory valloc addr n vma_end Permissions s = Inr (p, s')" "regions s' = regions s"
    "if p = 0 then (\<forall>h a m f. valloc h a m f = a) \<longrightarrow> addr = 0 \<or> \<not> unat addr + unat n \<le> unat vma_end
       else unat addr \<le> unat p \<and> unat p + unat n \<le> unat vma_end \<and> host_mapped valloc p n Permissions s'"
    unfolding MapHostMemory_def by blast
  have run: "try_area valloc n Permissions False H v s = Inr (if p \<noteq> 0 then Some p else None, s')"
    using True assms(6) p(1) by (simp add: try_area_def Let_def addr_def [symmetric] area_end_def [symmetric] vma_end_def [symmetric] run_simps)
  have a0: "addr \<noteq> 0" using rd assms(3) by auto
  show ?thesis unfolding run using p(2,3) a0 True rd ve by (auto simp: block_fits_def ad [symmetric])
qed

section \<open>The two searches\<close>

lemma map_forward_run:
  assumes "\<And>v s. v \<in> set vs \<Longrightarrow> regions s = R \<Longrightarrow> \<exists>p s'. attempt v s = Inr (p, s') \<and> regions s' = R \<and> Q v p s'"
    and "end_it = None \<or> end_it \<in> Some ` vma_base ` set vs" "regions s = R"
  shows "\<exists>p s'. map_forward attempt end_it vs s = Inr (p, s') \<and> regions s' = R \<and> (case p of
      None \<Rightarrow> \<forall>v\<in>set (takeWhile (\<lambda>v. end_it \<noteq> Some (vma_base v)) vs). \<exists>s. Q v None s
    | Some q \<Rightarrow> \<exists>v\<in>set vs. Q v (Some q) s')"
  using assms
proof (induction vs arbitrary: s)
  case Nil
  then show ?case by simp
next
  case (Cons v vs)
  show ?case
  proof (cases "end_it = Some (vma_base v)")
    case True
    then show ?thesis using Cons.prems(3) by simp
  next
    case False
    obtain p s' where p: "attempt v s = Inr (p, s')" "regions s' = R" "Q v p s'" using Cons.prems by force
    show ?thesis
    proof (cases p)
      case (Some q)
      then show ?thesis using p False by (auto simp: run_simps)
    next
      case None
      have "\<exists>p s''. map_forward attempt end_it vs s' = Inr (p, s'') \<and> regions s'' = R \<and> (case p of
          None \<Rightarrow> \<forall>v\<in>set (takeWhile (\<lambda>v. end_it \<noteq> Some (vma_base v)) vs). \<exists>s. Q v None s
        | Some q \<Rightarrow> \<exists>v\<in>set vs. Q v (Some q) s'')"
        by (rule Cons.IH) (use Cons.prems False p(2) in auto)
      then obtain p2 s2 where m: "map_forward attempt end_it vs s' = Inr (p2, s2)" "regions s2 = R" "case p2 of
          None \<Rightarrow> \<forall>v\<in>set (takeWhile (\<lambda>v. end_it \<noteq> Some (vma_base v)) vs). \<exists>s. Q v None s
        | Some q \<Rightarrow> \<exists>v\<in>set vs. Q v (Some q) s2" by blast
      then show ?thesis using p None False
        by (intro exI2 [of _ p2 s2]) (auto simp: run_simps split: option.splits)
    qed
  qed
qed

lemma map_backward_run:
  assumes "\<And>v s. v \<in> set vs \<Longrightarrow> regions s = R \<Longrightarrow> \<exists>p s'. attempt v s = Inr (p, s') \<and> regions s' = R \<and> Q v p s'"
    and "regions s = R"
  shows "\<exists>p s'. map_backward attempt False vs s = Inr (p, s') \<and> regions s' = R \<and> (case p of
      None \<Rightarrow> \<forall>v\<in>set vs. \<exists>s. Q v None s | Some q \<Rightarrow> \<exists>v\<in>set vs. Q v (Some q) s')"
  using assms
proof (induction vs arbitrary: s)
  case (Cons v vs)
  obtain p s' where p: "attempt v s = Inr (p, s')" "regions s' = R" "Q v p s'" using Cons.prems by force
  show ?case
  proof (cases p)
    case (Some q)
    then show ?thesis using p by (auto simp: run_simps)
  next
    case None
    have "\<exists>p s''. map_backward attempt False vs s' = Inr (p, s'') \<and> regions s'' = R \<and> (case p of
      None \<Rightarrow> \<forall>v\<in>set vs. \<exists>s. Q v None s | Some q \<Rightarrow> \<exists>v\<in>set vs. Q v (Some q) s'')"
      by (rule Cons.IH) (use Cons.prems p(2) in auto)
    then obtain p2 s2 where m: "map_backward attempt False vs s' = Inr (p2, s2)" "regions s2 = R" "case p2 of
      None \<Rightarrow> \<forall>v\<in>set vs. \<exists>s. Q v None s | Some q \<Rightarrow> \<exists>v\<in>set vs. Q v (Some q) s2" by blast
    then show ?thesis using p None
      by (intro exI2 [of _ p2 s2]) (auto simp: run_simps split: option.splits)
  qed
qed simp

lemma in_region_id: "m (regions s Type) = Inr (a, regions s Type) \<Longrightarrow> in_region Type m s = Inr (a, s)"
  by (simp add: in_region_def)

lemma MapMemoryBlock_run:
  assumes ok: "areas_ok a b (RegionMap (regions s Type))" and a: "0 < a"
    and N: "0 < unat PteNumber" "b + 4096 * unat PteNumber + 65536 \<le> 2 ^ 32"
    and H: "a \<le> unat H" "unat H < b" and P: "Permissions \<noteq> 0xFFFFFFFF"
    and L: "LastFree (regions s Type) = Some k" "k \<in> vma_base ` set (RegionMap (regions s Type))" "k \<le> H"
  shows "\<exists>p s'. MapMemoryBlock valloc Type PteNumber Permissions False H s = Inr (p, s') \<and> regions s' = regions s
    \<and> (if p = 0 then (\<forall>h a m f. valloc h a m f = a) \<longrightarrow>
           (\<forall>v\<in>set (RegionMap (regions s Type)). \<not> block_fits (4096 * unat PteNumber) (unat H + 1) v)
       else free_range (unat p) (unat p + 4096 * unat PteNumber) (RegionMap (regions s Type))
         \<and> host_mapped valloc p (push_bit 12 PteNumber) Permissions s')"
proof -
  define r where "r = regions s Type"
  define n where "n = (push_bit 12 PteNumber :: u32)"
  have n: "unat n = 4096 * unat PteNumber"
  proof -
    have "n = PteNumber * 4096" by (simp add: n_def push_bit_eq_mult)
    then show ?thesis using N(2) by (simp add: unat_word_ariths)
  qed
  note T = areas_okD(1) [OF ok, folded r_def]
  from find_area [OF T H] obtain xs w ys where l: "RegionMap r = xs @ w # ys"
    and w: "base_of w \<le> unat H" "unat H < end_of w" by blast
  have s: "by_base (xs @ w # ys)" using tiles_by_base [OF T] l by simp
  have hi: "unat H < base_of y" if "y \<in> set ys" for y
    using tiles_after [OF T [unfolded l] that] w(2) by simp
  have H0: "H \<noteq> 0" using a H(1) by auto
  have end_it: "in_region Type (if H \<noteq> 0 then bnd (GetVMAIterator H) next_it else ret None) s = Inr (base_it ys, s)"
  proof (rule in_region_id)
    have "GetVMAIterator H r = Inr (Some (vma_base w), r)" by (rule GetVMAIterator_at [OF l T [unfolded l] w])
    then show "(if H \<noteq> 0 then bnd (GetVMAIterator H) next_it else ret None) (regions s Type) = Inr (base_it ys, regions s Type)"
      using H0 next_mid [OF l s] by (simp add: run_simps r_def)
  qed
  obtain f where f: "f \<in> set (xs @ [w])" "vma_base f = k"
    using L(2,3) l hi by (fastforce simp: r_def word_le_nat_alt)
  define A where "A = dropWhile (\<lambda>v. vma_base v < k) (xs @ [w])"
  define U where "U = takeWhile (\<lambda>v. vma_base v < k) (xs @ [w])"
  have UA: "U @ A = xs @ [w]" by (simp add: U_def A_def)
  have ahead: "areas_from (LastFree r) r = A @ ys"
    using dropWhile_append1 [OF f(1), of "\<lambda>v. vma_base v < k" ys] f(2) L(1) l by (simp add: areas_from_def r_def A_def)
  have behind: "areas_before (LastFree r) r = rev U"
    using takeWhile_append1 [OF f(1), of "\<lambda>v. vma_base v < k" ys] f(2) L(1) l by (simp add: areas_before_def r_def U_def)
  define R where "R = regions s"
  have vs: "0 < base_of v" "end_of v \<le> b" if "v \<in> set (RegionMap r)" for v
    using tiles_mem [OF T that] a by auto
  define Q where "Q lim v p s' \<longleftrightarrow> (case p of
         None \<Rightarrow> (\<forall>h a m f. valloc h a m f = a) \<longrightarrow> \<not> block_fits (unat n) lim v
       | Some q \<Rightarrow> q \<noteq> 0 \<and> is_free v \<and> base_of v \<le> unat q \<and> unat q + unat n \<le> end_of v
           \<and> host_mapped valloc q n Permissions s')" for lim v p s'
  have tr: "\<exists>p s'. try_area valloc n Permissions False h v t = Inr (p, s') \<and> regions s' = R
      \<and> Q (if h = 0 then b else unat h + 1) v p s'" if "v \<in> set (RegionMap r)" "regions t = R" "unat h < b" for v t h
    unfolding Q_def using try_area_run [of n b v h Permissions valloc t] vs [OF that(1)] that(2,3) N n P by simp
  have all: "set (RegionMap r) = set (U @ A) \<union> set ys" unfolding UA l by auto
  then have mem: "set (A @ ys) \<subseteq> set (RegionMap r)" "set U \<subseteq> set (RegionMap r)" by auto
  have eit: "base_it ys = None \<or> base_it ys \<in> Some ` vma_base ` set (A @ ys)"
    by (cases ys) (auto simp: base_it_def)
  have tr1: "\<exists>p s'. try_area valloc n Permissions False H v t = Inr (p, s') \<and> regions s' = R \<and> Q (unat H + 1) v p s'"
    if "v \<in> set (A @ ys)" "regions t = R" for v t
    using tr [of v t H] that mem(1) H H0 by auto
  have tr0: "\<exists>p s'. try_area valloc n Permissions False 0 v t = Inr (p, s') \<and> regions s' = R \<and> Q b v p s'"
    if "v \<in> set (rev U)" "regions t = R" for v t
    using tr [of v t 0] that mem(2) H by auto
  obtain p s1 where fw: "map_forward (try_area valloc n Permissions False H) (base_it ys) (A @ ys) s = Inr (p, s1)"
    "regions s1 = R" "case p of None \<Rightarrow> \<forall>v\<in>set (takeWhile (\<lambda>v. base_it ys \<noteq> Some (vma_base v)) (A @ ys)). \<exists>s. Q (unat H + 1) v None s
      | Some q \<Rightarrow> \<exists>v\<in>set (A @ ys). Q (unat H + 1) v (Some q) s1"
    using map_forward_run [where Q = "Q (unat H + 1)" and attempt = "try_area valloc n Permissions False H", OF tr1 eit R_def [symmetric]] by blast
  have tw: "takeWhile (\<lambda>v. base_it ys \<noteq> Some (vma_base v)) (A @ ys) = A"
  proof (cases ys)
    case (Cons y zs)
    have "base_of v < base_of y" if "v \<in> set A" for v
    proof -
      have "v \<in> set (xs @ [w])" using that UA by (metis Un_iff set_append)
      then show ?thesis using s Cons by (auto simp: by_base_mid)
    qed
    then have "\<forall>v\<in>set A. base_it ys \<noteq> Some (vma_base v)" using Cons by (force simp: base_it_def)
    then show ?thesis using Cons by (simp add: takeWhile_append2 base_it_def)
  qed (simp add: base_it_def takeWhile_append2)
  have res: "?thesis" if "MapMemoryBlock valloc Type PteNumber Permissions False H s = Inr (q, s')" "regions s' = R"
      "v \<in> set (RegionMap r)" "Q lim v (Some q) s'" for q s' v lim
    using that n unfolding Q_def by (intro exI2 [of _ q s']) (auto simp: R_def r_def [symmetric] free_range_def n_def)
  have first: "in_region Type begin_it s1 = Inr (base_it (RegionMap r), s1)"
    using fw(2) by (intro in_region_id) (simp add: begin_it_run r_def R_def)
  have Lk: "LastFree r = Some k" using L(1) by (simp add: r_def)
  note ahead = ahead [unfolded Lk] and behind = behind [unfolded Lk]
  note unf = MapMemoryBlock_def Let_def n_def [symmetric] run_simps end_it r_def [symmetric] ahead behind
  show ?thesis
  proof (cases p)
    case (Some q)
    then obtain v where v: "v \<in> set (A @ ys)" "Q (unat H + 1) v (Some q) s1" using fw(3) by auto
    have "MapMemoryBlock valloc Type PteNumber Permissions False H s = Inr (q, s1)"
      using fw(1) Some Lk by (simp add: unf)
    then show ?thesis using res v mem(1) fw(2) by blast
  next
    case None
    have noA: "(\<forall>h a m f. valloc h a m f = a) \<longrightarrow> \<not> block_fits (unat n) (unat H + 1) v" if "v \<in> set A" for v
      using fw(3) None that by (auto simp: tw Q_def)
    have noY: "\<not> block_fits (unat n) (unat H + 1) v" if "v \<in> set ys" for v
      using hi [OF that] round64_le [of "base_of v"] n N(1) by (simp add: block_fits_def)
    have fin: ?thesis if run: "MapMemoryBlock valloc Type PteNumber Permissions False H s = Inr (0, s')" "regions s' = R"
      and noU: "\<And>v. v \<in> set U \<Longrightarrow> (\<forall>h a m f. valloc h a m f = a) \<longrightarrow> \<not> block_fits (unat n) (unat H + 1) v" for s'
    proof -
      have "(\<forall>h a m f. valloc h a m f = a) \<longrightarrow> (\<forall>v\<in>set (RegionMap r). \<not> block_fits (unat n) (unat H + 1) v)"
        using noA noY noU unfolding all by auto
      then show ?thesis using run by (intro exI2 [of _ 0 s']) (simp add: R_def n r_def)
    qed
    show ?thesis
    proof (cases "Some k = base_it (RegionMap r)")
      case True
      have "U = []"
      proof -
        have "vma_base (hd (xs @ [w])) = k" using True l by (cases xs) (auto simp: base_it_def)
        then show ?thesis unfolding U_def by (cases xs) auto
      qed
      moreover have "MapMemoryBlock valloc Type PteNumber Permissions False H s = Inr (0, s1)"
        using fw(1) None first True [symmetric] Lk by (simp add: unf)
      ultimately show ?thesis using fin fw(2) by simp
    next
      case False
      obtain p2 s2 where bw: "map_backward (try_area valloc n Permissions False 0) False (rev U) s1 = Inr (p2, s2)" "regions s2 = R"
        "case p2 of None \<Rightarrow> \<forall>v\<in>set (rev U). \<exists>s. Q b v None s | Some q \<Rightarrow> \<exists>v\<in>set (rev U). Q b v (Some q) s2"
        using map_backward_run [where Q = "Q b" and attempt = "try_area valloc n Permissions False 0", OF tr0 fw(2)] by blast
      have run: "MapMemoryBlock valloc Type PteNumber Permissions False H s = Inr (case p2 of Some addr \<Rightarrow> addr | None \<Rightarrow> 0, s2)"
        using fw(1) None first False Lk bw(1) P by (simp add: unf)
      show ?thesis
      proof (cases p2)
        case (Some q)
        then obtain v where v: "v \<in> set U" "Q b v (Some q) s2" using bw(3) by auto
        then show ?thesis using res [of q s2 v b] run Some mem(2) bw(2) by auto
      next
        case N2: None
        have "\<not> block_fits (unat n) (unat H + 1) v" if "v \<in> set U" "\<forall>h a m f. valloc h a m f = a" for v
          using bw(3) N2 that H(2) by (auto simp: Q_def block_fits_def)
        then show ?thesis using fin [of s2] run N2 bw(2) by simp
      qed
    qed
  qed
qed

text \<open>\<open>CheckConflictingVMA\<close>: the area of the address, unless it is free, and whether the range leaves it.\<close>

lemma CheckConflictingVMA_run:
  assumes "areas_ok a b (RegionMap r)" "a \<le> unat addr" "unat addr < b" "unat addr + unat n < 2 ^ 32"
  shows "\<exists>w\<in>set (RegionMap r). base_of w \<le> unat addr \<and> unat addr < end_of w \<and> CheckConflictingVMA addr n r
    = Inr ((if is_free w then None else Some (vma_base w), n \<noteq> 0 \<and> end_of w < unat addr + unat n), r)"
proof -
  note T = areas_okD(1) [OF assms(1)] note b = areas_okD(2) [OF assms(1)]
  from find_area [OF T assms(2,3)] obtain xs w ys where l: "RegionMap r = xs @ w # ys"
    and w: "base_of w \<le> unat addr" "unat addr < end_of w" by blast
  have e: "end_of w < 2 ^ 32" "0 < size_of w" using tiles_end [OF T [unfolded l]] T b by (auto simp: l tiles_mid)
  have "unat (vma_base w + vma_size w - 1) = end_of w - 1" using e by (simp add: u32_add u32_sub)
  moreover have "unat (addr + n - 1) = unat addr + unat n - 1" if "n \<noteq> 0"
  proof -
    have "0 < unat n" using that by (simp add: unat_gt_0)
    then show ?thesis using assms(4) by (simp add: u32_add u32_sub)
  qed
  ultimately have "n \<noteq> 0 \<and> vma_base w + vma_size w - 1 < addr + n - 1 \<longleftrightarrow> n \<noteq> 0 \<and> end_of w < unat addr + unat n"
    using e by (auto simp: word_less_nat_alt)
  then have "CheckConflictingVMA addr n r
    = Inr ((if is_free w then None else Some (vma_base w), n \<noteq> 0 \<and> end_of w < unat addr + unat n), r)"
    by (simp add: CheckConflictingVMA_def run_simps GetVMAIterator_at [OF l T [unfolded l] w] deref_mid [OF l tiles_by_base [OF T [unfolded l]]])
  then show ?thesis using w by (intro bexI [of _ w]) (simp_all add: l)
qed

text \<open>\<open>DestructVMA\<close>: the call of the host, then the work on the map.\<close>

lemma DestructVMA_split:
  assumes "areas_ok a b (RegionMap (regions s Type))" "a \<le> unat addr" "unat addr < b"
  shows "\<exists>w. w \<in> set (RegionMap (regions s Type)) \<and> base_of w \<le> unat addr \<and> unat addr < end_of w
    \<and> DestructVMA XBE_MAX_VA addr Type n s = in_region Type (DestructAreas addr n)
        (s\<lparr>HostCalls := HostCalls s @ (if addr < XBE_MAX_VA \<or> Type = ContiguousRegion then []
           else if Type = UserRegion \<and> addr = vma_base w \<and> n = vma_size w then [VirtualRelease addr]
           else [VirtualDecommit addr n])\<rparr>)"
proof -
  define r where "r = regions s Type"
  note T = areas_okD(1) [OF assms(1), folded r_def]
  from find_area [OF T assms(2,3)] obtain xs w ys where l: "RegionMap r = xs @ w # ys"
    and w: "base_of w \<le> unat addr" "unat addr < end_of w" by blast
  have get: "in_region Type (bnd (GetVMAIterator addr) deref) s = Inr (w, s)"
    by (rule in_region_id)
      (simp add: r_def [symmetric] run_simps GetVMAIterator_at [OF l T [unfolded l] w] deref_mid [OF l tiles_by_base [OF T [unfolded l]]])
  have "DestructVMA XBE_MAX_VA addr Type n s = bnd (if XBE_MAX_VA \<le> addr \<and> Type \<noteq> ContiguousRegion
          then if Type = SystemRegion \<or> Type = DevkitRegion then call_host (VirtualDecommit addr n)
               else if addr = vma_base w \<and> n = vma_size w then call_host (VirtualRelease addr)
               else call_host (VirtualDecommit addr n)
          else ret ()) (\<lambda>_. in_region Type (DestructAreas addr n)) s"
    unfolding DestructVMA_def by (subst bnd_def) (simp only: get sum.case prod.case)
  also have "\<dots> = in_region Type (DestructAreas addr n)
        (s\<lparr>HostCalls := HostCalls s @ (if addr < XBE_MAX_VA \<or> Type = ContiguousRegion then []
           else if Type = UserRegion \<and> addr = vma_base w \<and> n = vma_size w then [VirtualRelease addr]
           else [VirtualDecommit addr n])\<rparr>)"
    by (cases Type; cases "XBE_MAX_VA \<le> addr"; cases "addr = vma_base w \<and> n = vma_size w")
      (auto simp: run_simps call_host_def)
  finally show ?thesis using l w by (intro exI [of _ w]) (simp add: r_def)
qed

section \<open>Properties\<close>


text \<open>C14: Releasing allocated memory: \<open>DestructVMA\<close> on a range that lies inside the region, ends before it and
  holds no free address splits the areas at both ends, frees exactly its addresses, merges what became free
  with its free neighbours, points \<open>LastFree\<close> to a free area, leaves the other regions alone, and makes one call
  of the host: a release for a whole area of the user region, a decommit otherwise, none for the contiguous
  region and the placeholder below \<open>XBE_MAX_VA\<close>.\<close>

theorem vm_release_block:
  assumes "areas_ok a b (RegionMap (regions s Type))" "a \<le> unat addr" "unat addr + unat n < b" "0 < unat n"
    and "all_allocated (unat addr) (unat addr + unat n) (RegionMap (regions s Type))"
  shows "\<exists>s' w. DestructVMA XBE_MAX_VA addr Type n s = Inr ((), s') \<and> region_ok a b (regions s' Type)
    \<and> (\<forall>T. T \<noteq> Type \<longrightarrow> regions s' T = regions s T)
    \<and> areas (RegionMap (regions s' Type)) = (\<lambda>x. if unat addr \<le> x \<and> x < unat addr + unat n
         then Some (FreeVma, NOACCESS) else areas (RegionMap (regions s Type)) x)
    \<and> w \<in> set (RegionMap (regions s Type)) \<and> base_of w \<le> unat addr \<and> unat addr < end_of w
    \<and> HostCalls s' = HostCalls s @ (if addr < XBE_MAX_VA \<or> Type = ContiguousRegion then []
         else if Type = UserRegion \<and> addr = vma_base w \<and> n = vma_size w then [VirtualRelease addr]
         else [VirtualDecommit addr n])"
proof -
  have "unat addr < b" using assms(3) by simp
  from DestructVMA_split [OF assms(1,2) this, of XBE_MAX_VA n] obtain w where
    w: "w \<in> set (RegionMap (regions s Type))" "base_of w \<le> unat addr" "unat addr < end_of w"
    and run: "DestructVMA XBE_MAX_VA addr Type n s = in_region Type (DestructAreas addr n)
        (s\<lparr>HostCalls := HostCalls s @ (if addr < XBE_MAX_VA \<or> Type = ContiguousRegion then []
           else if Type = UserRegion \<and> addr = vma_base w \<and> n = vma_size w then [VirtualRelease addr]
           else [VirtualDecommit addr n])\<rparr>)" by blast
  obtain r' where r': "DestructAreas addr n (regions s Type) = Inr ((), r')" "region_ok a b r'"
    "areas (RegionMap r') = (\<lambda>x. if unat addr \<le> x \<and> x < unat addr + unat n then Some (FreeVma, NOACCESS)
         else areas (RegionMap (regions s Type)) x)"
    using DestructAreas_run [OF assms] by blast
  have "in_region Type (DestructAreas addr n) (s\<lparr>HostCalls := h\<rparr>)
      = Inr ((), s\<lparr>HostCalls := h, m_MemoryRegionArray := (regions s)(Type := r')\<rparr>)" for h
    using r'(1) by (simp add: in_region_def)
  note run [unfolded this]
  then show ?thesis using r'(2,3) w
    by (intro exI2 [of _ _ w] conjI) (assumption | simp)+
qed

text \<open>Memory at the end of a region cannot be released: for a range that ends where the region ends,
  \<open>CarveVMARange\<close> looks up the area of the end address, gets the last area (the lookup never yields
  \<open>end()\<close>), and splits it at its own size; the assertion of \<open>SplitVMA\<close> fails, whatever the areas are.\<close>

theorem vm_release_last:
  assumes "areas_ok a b (RegionMap (regions s Type))" "a \<le> unat addr" "unat addr + unat n = b" "0 < unat n"
  shows "DestructVMA XBE_MAX_VA addr Type n s = Inl AssertFailed"
proof -
  have "unat addr < b" using assms(3,4) by simp
  from DestructVMA_split [OF assms(1,2) this, of XBE_MAX_VA n] show ?thesis
    using DestructAreas_last [OF assms] by (auto simp: in_region_def)
qed

text \<open>A reservation with a low highest address can run off the map: when \<open>LastFree\<close> lies behind the area
  that follows the one of the highest address, the forward search never meets its end iterator, every area
  it passes is above the limit, and it moves on past \<open>end()\<close>.\<close>

theorem vm_search_past_end:
  assumes ok: "areas_ok a b (RegionMap (regions s Type))" "0 < a"
    and N: "0 < unat PteNumber" "b + 4096 * unat PteNumber + 65536 \<le> 2 ^ 32"
    and H: "a \<le> unat H" "unat H < b" "Permissions \<noteq> 0xFFFFFFFF"
    and L: "LastFree (regions s Type) = Some k"
    and v: "v \<in> set (RegionMap (regions s Type))" "H < vma_base v" "vma_base v < k"
  shows "MapMemoryBlock valloc Type PteNumber Permissions False H s = Inl OutOfBounds"
proof -
  define r where "r = regions s Type"
  define n where "n = (push_bit 12 PteNumber :: u32)"
  have n: "unat n = 4096 * unat PteNumber"
    using N(2) by (simp add: n_def push_bit_eq_mult unat_word_ariths)
  note T = areas_okD(1) [OF ok(1), folded r_def]
  from find_area [OF T H(1,2)] obtain xs w ys where l: "RegionMap r = xs @ w # ys"
    and w: "base_of w \<le> unat H" "unat H < end_of w" by blast
  have s: "by_base (xs @ w # ys)" using tiles_by_base [OF T] l by simp
  have H0: "H \<noteq> 0" using ok(2) H(1) by auto
  have end_it: "in_region Type (if H \<noteq> 0 then bnd (GetVMAIterator H) next_it else ret None) s = Inr (base_it ys, s)"
  proof (rule in_region_id)
    have "GetVMAIterator H r = Inr (Some (vma_base w), r)" by (rule GetVMAIterator_at [OF l T [unfolded l] w])
    then show "(if H \<noteq> 0 then bnd (GetVMAIterator H) next_it else ret None) (regions s Type) = Inr (base_it ys, regions s Type)"
      using H0 next_mid [OF l s] by (simp add: run_simps r_def)
  qed
  have "v \<in> set ys"
  proof -
    have "base_of w < base_of v" using w(1) v(2) by (simp add: word_less_nat_alt)
    then show ?thesis using v(1) s l by (auto simp: by_base_mid r_def)
  qed
  then obtain y zs where ys: "ys = y # zs" by (cases ys) auto
  have yv: "base_of y \<le> base_of v" using s \<open>v \<in> set ys\<close> ys by (auto simp: by_base_def sorted_wrt_append)
  have ek: "base_it ys = Some (vma_base y)" "vma_base y < k"
    using ys yv v(3) by (simp_all add: base_it_def word_less_nat_alt)
  have attempt: "try_area valloc n Permissions False H u s = Inr (None, s)" if u: "u \<in> set (RegionMap r)" "k \<le> vma_base u" for u
  proof (cases "is_free u")
    case True
    define addr where "addr = (if CHECK_ALIGNMENT (vma_base u) m_AllocationGranularity then vma_base u
                       else ROUND_UP (vma_base u) m_AllocationGranularity)"
    have eu: "end_of u \<le> b" "0 < size_of u" using tiles_mem [OF T u(1)] by auto
    have Hu: "unat H < base_of u" using v(2,3) u(2) by (simp add: word_less_nat_alt word_le_nat_alt)
    have ad: "unat addr = round64 (base_of u)" unfolding addr_def
      by (rule aligned_base) (use eu N(2) in simp)
    have "unat (addr + n - 1) = round64 (base_of u) + unat n - 1"
      using ad round64_le [of "base_of u"] eu N n by (simp add: u32_add u32_sub)
    moreover have "unat (H + 1) = unat H + 1" "unat (vma_base u + vma_size u) = end_of u"
      using H(2) N(2) eu by (simp_all add: u32_add)
    ultimately have "\<not> addr + n - 1 < H + 1" "H + 1 < vma_base u + vma_size u"
      using Hu eu round64_le [of "base_of u"] N n by (simp_all add: word_less_nat_alt)
    then have "MapHostMemory valloc addr n (H + 1) Permissions s = Inr (0, s)"
      unfolding MapHostMemory_def by (intro map_host_stop) simp_all
    then show ?thesis using True H0 H(3) \<open>H + 1 < vma_base u + vma_size u\<close>
      by (simp add: try_area_def Let_def addr_def [symmetric] run_simps)
  qed (simp add: try_area_def)
  have run: "map_forward (try_area valloc n Permissions False H) (base_it ys) us s = Inl OutOfBounds"
    if "\<forall>u\<in>set us. u \<in> set (RegionMap r) \<and> k \<le> vma_base u" for us
    using that by (induction us) (use ek attempt in \<open>auto simp: run_simps\<close>)
  have "\<forall>u\<in>set (areas_from (Some k) r). u \<in> set (RegionMap r) \<and> k \<le> vma_base u"
  proof -
    have "\<forall>u\<in>set (dropWhile (\<lambda>v. vma_base v < k) l). k \<le> vma_base u" if "by_base l" for l
      using that by (induction l) (auto simp: by_base_def word_less_nat_alt word_le_nat_alt)
    then show ?thesis using s l by (auto simp: areas_from_def dest: set_dropWhileD)
  qed
  from run [OF this] show ?thesis using L by (simp add: MapMemoryBlock_def Let_def n_def [symmetric] run_simps end_it r_def)
qed

section \<open>Witnesses\<close>

text \<open>The user region as the manager constructs it, and with a block at its start or its end.\<close>

definition user_vma :: "u32 \<Rightarrow> u32 \<Rightarrow> VMAType \<Rightarrow> VirtualMemoryArea" where
  "user_vma addr n ty = \<lparr>vma_base = addr, vma_size = n, vma_type = ty, vma_permissions = (if ty = FreeVma then NOACCESS else 4)\<rparr>"

definition vm_with :: "VMAIter \<Rightarrow> VirtualMemoryArea list \<Rightarrow> VMManager" where
  "vm_with it l = \<lparr>m_MemoryRegionArray = (\<lambda>_. \<lparr>LastFree = it, RegionMap = l\<rparr>), HostCalls = []\<rparr>"

lemma user_region_new: "ConstructMemoryRegion 0x10000 0x7FFE0000
    = \<lparr>LastFree = Some 0x10000, RegionMap = [user_vma 0x10000 0x7FFE0000 FreeVma]\<rparr>"
  by (simp add: ConstructMemoryRegion_def user_vma_def)

lemma areas_ok_new: "areas_ok 0x10000 0x7FFF0000 [user_vma 0x10000 0x7FFE0000 FreeVma]"
  by (simp add: areas_ok_def user_vma_def)


definition vm_block :: VMManager where
  "vm_block = vm_with (Some 0x13000) [user_vma 0x10000 0x3000 ReservedVma, user_vma 0x13000 0x7FFDD000 FreeVma]"

lemma vm_block_ok: "areas_ok 0x10000 0x7FFF0000 (RegionMap (regions vm_block UserRegion))"
  by (simp add: areas_ok_def vm_block_def vm_with_def user_vma_def)

theorem vm_release_block_witness:
  "\<exists>s'. DestructVMA 0x4000000 0x11000 UserRegion 0x1000 vm_block = Inr ((), s')
    \<and> areas (RegionMap (regions s' UserRegion)) 0x11000 = Some (FreeVma, NOACCESS) \<and> HostCalls s' = []"
proof -
  have "all_allocated 0x11000 0x12000 (RegionMap (regions vm_block UserRegion))"
    by (auto simp: all_allocated_def vm_block_def vm_with_def user_vma_def map_add_def area_at_def)
  then show ?thesis
    using vm_release_block [OF vm_block_ok, where addr = "0x11000" and n = "0x1000" and XBE_MAX_VA = "0x4000000"] by (auto simp: vm_block_def vm_with_def)
qed

theorem vm_release_last_witness:
  "DestructVMA 0x4000000 0x7FFE0000 UserRegion 0x10000 vm_block = Inl AssertFailed"
  by (rule vm_release_last [OF vm_block_ok]) simp_all

definition vm_three :: VMManager where
  "vm_three = vm_with (Some 0x40000) [user_vma 0x10000 0x10000 ReservedVma, user_vma 0x20000 0x20000 ReservedVma,
     user_vma 0x40000 0x7FFB0000 FreeVma]"

theorem vm_search_past_end_witness:
  "MapMemoryBlock (\<lambda>h a m f. a) UserRegion 3 4 False 0x1FFFF vm_three = Inl OutOfBounds"
  by (rule vm_search_past_end [where a = "0x10000" and b = "0x7FFF0000" and k = "0x40000" and v = "user_vma 0x20000 0x20000 ReservedVma"])
    (simp_all add: areas_ok_def vm_three_def vm_with_def user_vma_def)

end
