(* ===== verification/Cxbx_Queue.thy ===== *)
theory Cxbx_Queue
  imports Main
begin

text \<open>
  The contract of a first-in first-out queue: \<open>holds s q\<close> is the representation, \<open>put\<close> and \<open>take\<close> are
  the steps of the code that append an element and that remove the head. A client of the contract may
  interleave the two in any way and knows the order in which elements come out. Queues of bounded size
  add when a step is possible.
\<close>

datatype 'a queue_op = Put 'a | Take 'a

fun puts :: "'a queue_op list \<Rightarrow> 'a list" where
  "puts [] = []"
| "puts (Put x # ops) = x # puts ops"
| "puts (Take x # ops) = puts ops"

fun takes :: "'a queue_op list \<Rightarrow> 'a list" where
  "takes [] = []"
| "takes (Put x # ops) = takes ops"
| "takes (Take x # ops) = x # takes ops"

inductive queue_run :: "('s \<Rightarrow> 'a \<Rightarrow> 's \<Rightarrow> bool) \<Rightarrow> ('s \<Rightarrow> 'a \<Rightarrow> 's \<Rightarrow> bool) \<Rightarrow> 's \<Rightarrow> 'a queue_op list \<Rightarrow> 's \<Rightarrow> bool"
  for put take where
  run_done: "queue_run put take s [] s"
| run_put: "put s x t \<Longrightarrow> queue_run put take t ops u \<Longrightarrow> queue_run put take s (Put x # ops) u"
| run_take: "take s x t \<Longrightarrow> queue_run put take t ops u \<Longrightarrow> queue_run put take s (Take x # ops) u"

locale fifo_queue =
  fixes holds :: "'s \<Rightarrow> 'a list \<Rightarrow> bool"
    and put :: "'s \<Rightarrow> 'a \<Rightarrow> 's \<Rightarrow> bool"
    and take :: "'s \<Rightarrow> 'a \<Rightarrow> 's \<Rightarrow> bool"
  assumes put_holds: "holds s q \<Longrightarrow> put s x t \<Longrightarrow> holds t (q @ [x])"
    and take_holds: "holds s q \<Longrightarrow> take s x t \<Longrightarrow> \<exists>q'. q = x # q' \<and> holds t q'"
begin

text \<open>What was queued and what is put come out in this order; the rest is still queued.\<close>

lemma run_order:
  "queue_run put take s ops t \<Longrightarrow> holds s q \<Longrightarrow> \<exists>q'. holds t q' \<and> q @ puts ops = takes ops @ q'"
proof (induction arbitrary: q rule: queue_run.induct)
  case (run_done s)
  then show ?case by auto
next
  case (run_put s x t ops u)
  then obtain q' where "holds u q'" "(q @ [x]) @ puts ops = takes ops @ q'" using put_holds by blast
  then show ?case by auto
next
  case (run_take s x t ops u)
  from take_holds [OF run_take.prems run_take.hyps(1)] obtain q1 where "q = x # q1" "holds t q1" by blast
  with run_take.IH show ?case by auto
qed

lemma run_takes_prefix:
  assumes "queue_run put take s ops t" and "holds s q"
  shows "takes ops = List.take (length (takes ops)) (q @ puts ops)"
  using run_order [OF assms] by (metis append_eq_conv_conj)

end

locale live_queue = fifo_queue +
  fixes capacity :: "nat option"
    and working :: "'s \<Rightarrow> 'a list \<Rightarrow> bool"
  assumes bounded: "holds s q \<Longrightarrow> case capacity of None \<Rightarrow> True | Some n \<Rightarrow> length q \<le> n"
    and take_head: "working s (x # q) \<Longrightarrow> holds s (x # q) \<Longrightarrow> \<exists>t. take s x t \<and> working t q"
begin

lemma drains:
  "working s q \<Longrightarrow> holds s q \<Longrightarrow> \<exists>t. queue_run put take s (map Take q) t \<and> holds t []"
proof (induction q arbitrary: s)
  case Nil
  then show ?case by (auto intro: queue_run.intros)
next
  case (Cons x q)
  from take_head [OF Cons.prems] obtain t where t: "take s x t" "working t q" by blast
  with take_holds [OF Cons.prems(2)] have "holds t q" by blast
  with Cons.IH [OF t(2)] t(1) show ?case by (auto intro: queue_run.intros)
qed

text \<open>The difference between what was put and what was taken never exceeds the capacity.\<close>

lemma run_bounded:
  assumes "queue_run put take s ops t" and "holds s q" and "capacity = Some n"
  shows "length q + length (puts ops) \<le> length (takes ops) + n"
proof -
  from run_order [OF assms(1,2)] obtain q' where "holds t q'" and e: "q @ puts ops = takes ops @ q'" by blast
  then have "length q' \<le> n" using bounded [of t q'] assms(3) by simp
  moreover have "length q + length (puts ops) = length (takes ops) + length q'"
    using arg_cong [OF e, of length] by simp
  ultimately show ?thesis by simp
qed

end

end
