(* ===== verification/Xc_Rc4.thy ===== *)
theory Xc_Rc4
  imports Cxbx_Prelude "HOL-Library.Multiset"
begin

text \<open>
  The stream cipher RC4 (\<open>src/common/crypto/LibRc4.cpp\<close>).

  \<open>S\<close> is the list of the 256 bytes, the two indices are the 32-bit members. The loops over buffers are
  recursions over byte lists. An empty key makes the key schedule divide by zero on the host, which is
  \<open>Raised\<close> with the exception code. The lemmas show that \<open>S\<close> stays a permutation of the bytes, that the
  stream does not depend on how the buffer is cut, and that a second pass decrypts.
\<close>

section \<open>Operations\<close>

record Rc4Context =
  rc4_S :: "u8 list"
  rc4_i :: u32
  rc4_j :: u32

abbreviation (input) EXCEPTION_INT_DIVIDE_BY_ZERO :: u32 where
  "EXCEPTION_INT_DIVIDE_BY_ZERO \<equiv> 0xC0000094"

definition SwapBytes :: "nat \<Rightarrow> nat \<Rightarrow> u8 list \<Rightarrow> u8 list" where
  "SwapBytes i j S = S[i := S ! j, j := S ! i]"

definition key_step :: "u8 list \<Rightarrow> nat \<Rightarrow> u8 list \<times> u32 \<Rightarrow> u8 list \<times> u32" where
  "key_step key i = (\<lambda>(S, j). let j' = (j + ucast (S ! i) + ucast (key ! (i mod length key))) mod 256
     in (SwapBytes i (unat j') S, j'))"

text \<open>One step of the generator, shared by the three loops.\<close>

definition rc4_step :: "Rc4Context \<Rightarrow> Rc4Context" where
  "rc4_step c = (let i = (rc4_i c + 1) mod 256; j = (rc4_j c + ucast (rc4_S c ! unat i)) mod 256
     in c\<lparr>rc4_S := SwapBytes (unat i) (unat j) (rc4_S c), rc4_i := i, rc4_j := j\<rparr>)"

definition rc4_byte :: "Rc4Context \<Rightarrow> u8" where
  "rc4_byte c = rc4_S c ! unat ((ucast (rc4_S c ! unat (rc4_i c)) + ucast (rc4_S c ! unat (rc4_j c)) :: u32) mod 256)"

definition Rc4Initialise :: "u8 list \<Rightarrow> nat \<Rightarrow> (unit, Rc4Context) run" where
  "Rc4Initialise key DropN = (if key = [] then fail (Raised EXCEPTION_INT_DIVIDE_BY_ZERO)
     else modify (\<lambda>c. (rc4_step ^^ DropN) (c\<lparr>rc4_S := fst (fold (key_step key) [0..<256] (map of_nat [0..<256], 0)), rc4_i := 0, rc4_j := 0\<rparr>)))"

fun Rc4Output :: "nat \<Rightarrow> Rc4Context \<Rightarrow> u8 list \<times> Rc4Context" where
  "Rc4Output 0 c = ([], c)"
| "Rc4Output (Suc n) c = (let c1 = rc4_step c; (bs, c2) = Rc4Output n c1 in (rc4_byte c1 # bs, c2))"

fun Rc4Xor :: "u8 list \<Rightarrow> Rc4Context \<Rightarrow> u8 list \<times> Rc4Context" where
  "Rc4Xor [] c = ([], c)"
| "Rc4Xor (b # bs) c = (let c1 = rc4_step c; (out, c2) = Rc4Xor bs c1 in ((b XOR rc4_byte c1) # out, c2))"

section \<open>The permutation\<close>

definition all_bytes :: "u8 list" where
  "all_bytes = map of_nat [0..<256]"

definition rc4_ok :: "Rc4Context \<Rightarrow> bool" where
  "rc4_ok c \<longleftrightarrow> mset (rc4_S c) = mset all_bytes \<and> rc4_i c < 256 \<and> rc4_j c < 256"

lemma index_256: "unat ((v :: u32) mod 256) < 256" "(v :: u32) mod 256 < 256"
  by (simp_all add: unat_mod word_less_nat_alt)

lemma SwapBytes_mset: "i < length S \<Longrightarrow> j < length S \<Longrightarrow> mset (SwapBytes i j S) = mset S"
  by (simp add: SwapBytes_def mset_swap)

lemma bytes_length: "mset S = mset all_bytes \<Longrightarrow> length S = 256"
  by (drule mset_eq_length) (simp add: all_bytes_def)

lemma key_schedule_mset:
  "set is \<subseteq> {..<256} \<Longrightarrow> mset S = mset all_bytes \<Longrightarrow> mset (fst (fold (key_step key) is (S, j))) = mset all_bytes"
proof (induction "is" arbitrary: S j)
  case (Cons i "is")
  have "mset (SwapBytes i (unat ((v :: u32) mod 256)) S) = mset all_bytes" for v
    using Cons.prems by (simp add: SwapBytes_mset bytes_length index_256)
  then show ?case using Cons by (simp add: key_step_def Let_def)
qed simp

lemma rc4_step_ok: "rc4_ok c \<Longrightarrow> rc4_ok (rc4_step c)"
  using bytes_length [of "rc4_S c"] by (simp add: rc4_ok_def rc4_step_def Let_def SwapBytes_mset index_256)

lemma Rc4Initialise_ok:
  assumes "key \<noteq> []"
  shows "\<exists>t. Rc4Initialise key n s = Inr ((), t) \<and> rc4_ok t"
proof -
  have "rc4_ok ((rc4_step ^^ n) c)" if "rc4_ok c" for c using that by (induction n) (simp_all add: rc4_step_ok)
  moreover have "mset (fst (fold (key_step key) [0..<256] (all_bytes, 0))) = mset all_bytes"
    by (rule key_schedule_mset) auto
  ultimately show ?thesis using assms by (simp add: Rc4Initialise_def run_simps rc4_ok_def all_bytes_def)
qed

section \<open>The stream\<close>

lemma Rc4Output_length: "length (fst (Rc4Output n c)) = n"
  by (induction n arbitrary: c) (simp_all add: Let_def case_prod_beta)

lemma Rc4Xor_stream: "Rc4Xor bs c = (map2 (XOR) bs (fst (Rc4Output (length bs) c)), snd (Rc4Output (length bs) c))"
  by (induction bs arbitrary: c) (simp_all add: Let_def case_prod_beta)

lemma Rc4Xor_ok: "rc4_ok c \<Longrightarrow> rc4_ok (snd (Rc4Xor bs c))"
  by (induction bs arbitrary: c) (simp_all add: Let_def case_prod_beta rc4_step_ok)

lemma Rc4Xor_length: "length (fst (Rc4Xor bs c)) = length bs"
  by (induction bs arbitrary: c) (simp_all add: Let_def case_prod_beta)

lemma Rc4Xor_append:
  "Rc4Xor (a @ b) c = (fst (Rc4Xor a c) @ fst (Rc4Xor b (snd (Rc4Xor a c))), snd (Rc4Xor b (snd (Rc4Xor a c))))"
  by (induction a arbitrary: c) (simp_all add: Let_def case_prod_beta)

lemma Rc4Xor_twice: "Rc4Xor (fst (Rc4Xor bs c)) c = (bs, snd (Rc4Xor bs c))"
  by (induction bs arbitrary: c) (simp_all add: Let_def case_prod_beta xor.assoc)

section \<open>Properties\<close>

text \<open>C33: With the same key on both sides a message decrypts to itself, also when it is cut differently; encryption is the XOR with
  the key stream, both sides end in the same state, and its table is a permutation of the bytes. An empty key is an exception.\<close>

theorem rc4_roundtrip:
  assumes "key \<noteq> []"
  shows "(\<exists>c. Rc4Initialise key n s = Inr ((), c) \<and> Rc4Initialise key n s' = Inr ((), c) \<and> rc4_ok c
    \<and> (let (e, c1) = Rc4Xor (a @ b) c; (a', d1) = Rc4Xor (take (length a) e) c; (b', d2) = Rc4Xor (drop (length a) e) d1
       in a' = a \<and> b' = b \<and> d2 = c1 \<and> rc4_ok c1 \<and> e = map2 (XOR) (a @ b) (fst (Rc4Output (length (a @ b)) c))))
    \<and> Rc4Initialise [] n s = Inl (Raised EXCEPTION_INT_DIVIDE_BY_ZERO)"
proof -
  obtain c where c: "Rc4Initialise key n s = Inr ((), c)" "rc4_ok c" using Rc4Initialise_ok [OF assms] by blast
  have "Rc4Initialise key n s' = Inr ((), c)" using c(1) by (cases s, cases s') (simp add: Rc4Initialise_def assms run_simps)
  moreover have "fst (Rc4Xor (a @ b) c) = map2 (XOR) (a @ b) (fst (Rc4Output (length (a @ b)) c))" by (simp only: Rc4Xor_stream fst_conv)
  moreover have "rc4_ok (snd (Rc4Xor (a @ b) c))" using c(2) by (rule Rc4Xor_ok)
  ultimately show ?thesis
    using c by (auto simp: Rc4Xor_append Rc4Xor_length Rc4Xor_twice Rc4Initialise_def fail_def Let_def case_prod_beta)
qed

theorem rc4_roundtrip_witness:
  "\<exists>c. Rc4Initialise [75, 101, 121] 0 \<lparr>rc4_S = [], rc4_i = 0, rc4_j = 0\<rparr> = Inr ((), c)
     \<and> fst (Rc4Xor (fst (Rc4Xor [1, 2, 3] c)) c) = [1, 2, 3]"
proof -
  have k: "[75, 101, 121 :: u8] \<noteq> []" by simp
  show ?thesis
    using rc4_roundtrip [OF k, of 0 "\<lparr>rc4_S = [], rc4_i = 0, rc4_j = 0\<rparr>" _ "[]" "[1, 2, 3]"]
    by (auto simp: Let_def case_prod_beta)
qed

end
