(* ===== verification/Xc_Sha.thy ===== *)
theory Xc_Sha
  imports Cxbx_Prelude
begin

unbundle bit_operations_syntax

text \<open>
  SHA-1 (\<open>src/common/crypto/EmuSha.cpp\<close>): the transform with its 16-word circular schedule, the
  buffering of a stream, the padding, and the two compositions \<open>CalcSHA1Hash\<close> and \<open>JumpedHMAC\<close>
  (\<open>src/core/kernel/exports/EmuKrnlXc.cpp\<close>).

  The five macros \<open>R0\<close> to \<open>R4\<close> are one round whose function and constant depend on its number; the
  rotation of the arguments in the unrolled calls is the rotation of the tuple. A copy past the end of
  the 64-byte buffer is \<open>OutOfBounds\<close>. The reference definition is the standard's: an 80-word
  schedule, blocks of the padded message folded from the left.
\<close>

section \<open>Transform\<close>

type_synonym sha_words = "u32 \<times> u32 \<times> u32 \<times> u32 \<times> u32"

definition rol :: "u32 \<Rightarrow> nat \<Rightarrow> u32" where
  "rol v n = push_bit n v OR drop_bit (32 - n) v"

text \<open>The union reads the bytes of the block in the host's order.\<close>

definition block_word :: "u8 list \<Rightarrow> nat \<Rightarrow> u32" where
  "block_word bs i = ucast (bs ! (4 * i)) OR push_bit 8 (ucast (bs ! (4 * i + 1)))
     OR push_bit 16 (ucast (bs ! (4 * i + 2))) OR push_bit 24 (ucast (bs ! (4 * i + 3)))"

definition blk0 :: "nat \<Rightarrow> u32 list \<Rightarrow> u32" where
  "blk0 i l = (rol (l ! i) 24 AND 0xFF00FF00) OR (rol (l ! i) 8 AND 0x00FF00FF)"

definition blk :: "nat \<Rightarrow> u32 list \<Rightarrow> u32" where
  "blk i l = rol (l ! ((i + 13) mod 16) XOR l ! ((i + 8) mod 16) XOR l ! ((i + 2) mod 16) XOR l ! (i mod 16)) 1"

definition sha_R :: "nat \<Rightarrow> u32 list \<times> sha_words \<Rightarrow> u32 list \<times> sha_words" where
  "sha_R i = (\<lambda>(l, v, w, x, y, z).
     let m = (if i < 16 then blk0 i l else blk i l);
         f = (if i < 20 then (w AND (x XOR y)) XOR y else if i < 40 then w XOR x XOR y
              else if i < 60 then ((w OR x) AND y) OR (w AND x) else w XOR x XOR y);
         k = (if i < 20 then 0x5A827999 else if i < 40 then 0x6ED9EBA1 else if i < 60 then 0x8F1BBCDC else 0xCA62C1D6)
     in (l[i mod 16 := m], z + (f + m + k + rol v 5), v, rol w 30, x, y))"

definition SHA1Transform :: "sha_words \<Rightarrow> u8 list \<Rightarrow> sha_words" where
  "SHA1Transform st buffer = (let (s0, s1, s2, s3, s4) = st;
     (l, a, b, c, d, e) = fold sha_R [0..<80] (map (block_word buffer) [0..<16], st)
     in (s0 + a, s1 + b, s2 + c, s3 + d, s4 + e))"

section \<open>Stream\<close>

record SHA1_CTX =
  sha_state :: sha_words
  sha_count0 :: u32
  sha_count1 :: u32
  sha_buffer :: "u8 list"

abbreviation sha_init :: sha_words where
  "sha_init \<equiv> (0x67452301, 0xEFCDAB89, 0x98BADCFE, 0x10325476, 0xC3D2E1F0)"

definition SHA1Init :: "(unit, SHA1_CTX) run" where
  "SHA1Init = modify (\<lambda>c. c\<lparr>sha_state := sha_init, sha_count0 := 0, sha_count1 := 0\<rparr>)"

definition copy_to_buffer :: "nat \<Rightarrow> u8 list \<Rightarrow> (unit, SHA1_CTX) run" where
  "copy_to_buffer j bs s = (if j + length bs \<le> 64
     then Inr ((), s\<lparr>sha_buffer := take j (sha_buffer s) @ bs @ drop (j + length bs) (sha_buffer s)\<rparr>) else Inl OutOfBounds)"

function transform_loop :: "u8 list \<Rightarrow> nat \<Rightarrow> sha_words \<Rightarrow> nat \<times> sha_words" where
  "transform_loop data i st = (if i + 63 < length data
     then transform_loop data (i + 64) (SHA1Transform st (take 64 (drop i data))) else (i, st))"
  by auto
termination by (relation "measure (\<lambda>(data, i, _). length data - i)") auto

declare transform_loop.simps [simp del]

definition SHA1Update :: "u8 list \<Rightarrow> (unit, SHA1_CTX) run" where
  "SHA1Update data = bnd (get sha_count0) (\<lambda>j0. let len = of_nat (length data) :: u32; c0 = j0 + push_bit 3 len in
     bnd (modify (\<lambda>c. c\<lparr>sha_count0 := c0, sha_count1 := sha_count1 c + (if c0 < j0 then 1 else 0) + drop_bit 29 len\<rparr>)) (\<lambda>_.
     let j = drop_bit 3 j0 AND 63 in
     if 63 < j + len then
       let i = unat (64 - j) in
       bnd (copy_to_buffer (unat j) (take i data)) (\<lambda>_.
       bnd (modify (\<lambda>c. c\<lparr>sha_state := SHA1Transform (sha_state c) (sha_buffer c)\<rparr>)) (\<lambda>_.
       bnd (get (\<lambda>c. transform_loop data i (sha_state c))) (\<lambda>(i', st).
       bnd (modify (\<lambda>c. c\<lparr>sha_state := st\<rparr>)) (\<lambda>_.
       copy_to_buffer 0 (drop i' data)))))
     else copy_to_buffer (unat j) data))"

text \<open>The loop pads to 56 bytes modulo 64, so it ends within 64 turns.\<close>

fun pad_loop :: "nat \<Rightarrow> (unit, SHA1_CTX) run" where
  "pad_loop 0 = ret ()"
| "pad_loop (Suc n) = bnd (get sha_count0) (\<lambda>c. if c AND 504 \<noteq> 448 then bnd (SHA1Update [0]) (\<lambda>_. pad_loop n) else ret ())"

definition be_bytes :: "u32 \<Rightarrow> u8 list" where
  "be_bytes v = [ucast (drop_bit 24 v), ucast (drop_bit 16 v), ucast (drop_bit 8 v), ucast v]"

definition digest_of :: "sha_words \<Rightarrow> u8 list" where
  "digest_of = (\<lambda>(a, b, c, d, e). concat (map be_bytes [a, b, c, d, e]))"

definition SHA1Final :: "(u8 list, SHA1_CTX) run" where
  "SHA1Final = bnd (get (\<lambda>c. be_bytes (sha_count1 c) @ be_bytes (sha_count0 c))) (\<lambda>finalcount.
     bnd (SHA1Update [0x80]) (\<lambda>_. bnd (pad_loop 64) (\<lambda>_. bnd (SHA1Update finalcount) (\<lambda>_.
     bnd (get (\<lambda>c. digest_of (sha_state c))) (\<lambda>d.
     bnd (modify (\<lambda>_. \<lparr>sha_state = (0, 0, 0, 0, 0), sha_count0 = 0, sha_count1 = 0, sha_buffer = replicate 64 0\<rparr>)) (\<lambda>_. ret d))))))"

definition CalcSHA1Hash :: "u8 list \<Rightarrow> (u8 list, SHA1_CTX) run" where
  "CalcSHA1Hash data = bnd SHA1Init (\<lambda>_. bnd (SHA1Update (rev (be_bytes (of_nat (length data))))) (\<lambda>_. bnd (SHA1Update data) (\<lambda>_. SHA1Final)))"

definition hmac_pad :: "u8 \<Rightarrow> u8 list \<Rightarrow> u8 list" where
  "hmac_pad p key = map (\<lambda>b. b XOR p) (take 64 key @ replicate (64 - length key) 0)"

definition JumpedHMAC :: "u8 list \<Rightarrow> u8 list \<Rightarrow> u8 list \<Rightarrow> (u8 list, SHA1_CTX) run" where
  "JumpedHMAC key data data2 = bnd SHA1Init (\<lambda>_. bnd (SHA1Update (hmac_pad 0x36 key)) (\<lambda>_.
     bnd (if data \<noteq> [] then SHA1Update data else ret ()) (\<lambda>_.
     bnd (if data2 \<noteq> [] then SHA1Update data2 else ret ()) (\<lambda>_.
     bnd SHA1Final (\<lambda>d. bnd SHA1Init (\<lambda>_. bnd (SHA1Update (hmac_pad 0x5C key @ d)) (\<lambda>_. SHA1Final)))))))"

section \<open>The standard\<close>

definition be_word :: "u8 list \<Rightarrow> nat \<Rightarrow> u32" where
  "be_word bs i = push_bit 24 (ucast (bs ! (4 * i))) OR push_bit 16 (ucast (bs ! (4 * i + 1)))
     OR push_bit 8 (ucast (bs ! (4 * i + 2))) OR ucast (bs ! (4 * i + 3))"

fun sha_schedule :: "u8 list \<Rightarrow> nat \<Rightarrow> u32" where
  "sha_schedule bs t = (if t < 16 then be_word bs t else
     word_rotl 1 (sha_schedule bs (t - 3) XOR sha_schedule bs (t - 8) XOR sha_schedule bs (t - 14) XOR sha_schedule bs (t - 16)))"

declare sha_schedule.simps [simp del]

definition sha_f :: "nat \<Rightarrow> u32 \<Rightarrow> u32 \<Rightarrow> u32 \<Rightarrow> u32" where
  "sha_f t x y z = (if t < 20 then (x AND y) XOR (NOT x AND z) else if t < 40 then x XOR y XOR z
     else if t < 60 then (x AND y) XOR (x AND z) XOR (y AND z) else x XOR y XOR z)"

definition sha_k :: "nat \<Rightarrow> u32" where
  "sha_k t = (if t < 20 then 0x5A827999 else if t < 40 then 0x6ED9EBA1 else if t < 60 then 0x8F1BBCDC else 0xCA62C1D6)"

definition sha_round :: "u8 list \<Rightarrow> nat \<Rightarrow> sha_words \<Rightarrow> sha_words" where
  "sha_round bs t = (\<lambda>(a, b, c, d, e). (word_rotl 5 a + sha_f t b c d + e + sha_k t + sha_schedule bs t, a, word_rotl 30 b, c, d))"

definition sha_compress :: "sha_words \<Rightarrow> u8 list \<Rightarrow> sha_words" where
  "sha_compress h bs = (let (a, b, c, d, e) = fold (sha_round bs) [0..<80] h; (h0, h1, h2, h3, h4) = h
     in (h0 + a, h1 + b, h2 + c, h3 + d, h4 + e))"

fun sha_blocks :: "sha_words \<Rightarrow> u8 list \<Rightarrow> sha_words" where
  "sha_blocks h bs = (if length bs < 64 then h else sha_blocks (sha_compress h (take 64 bs)) (drop 64 bs))"

declare sha_blocks.simps [simp del]

definition sha_pad :: "u8 list \<Rightarrow> u8 list" where
  "sha_pad m = m @ 0x80 # replicate ((119 - length m mod 64) mod 64) 0
     @ be_bytes (of_nat (8 * length m div 2 ^ 32)) @ be_bytes (of_nat (8 * length m))"

definition sha1 :: "u8 list \<Rightarrow> u8 list" where
  "sha1 m = digest_of (sha_blocks sha_init (sha_pad m))"

section \<open>The transform is the standard's\<close>

lemma rol_rotl:
  assumes "0 < n" and "n < 32"
  shows "rol v n = word_rotl n v"
proof (rule bit_word_eqI)
  fix k assume "k < LENGTH(32)"
  then have k: "k < 32" by simp
  have r: "bit (rol v n) k \<longleftrightarrow> (n \<le> k \<and> bit v (k - n)) \<or> bit v (32 - n + k)" using k by (auto simp: rol_def bit_simps)
  show "bit (rol v n) k \<longleftrightarrow> bit (word_rotl n v) k"
  proof (cases "k < n")
    case True
    then have "(k + (32 - n)) mod 32 = 32 - n + k" using assms by simp
    then show ?thesis using True k assms by (simp add: r bit_word_rotl_iff)
  next
    case False
    have "(k + (32 - n)) mod 32 = k - n" using False assms k mod_add_self2 [of "k - n" 32] by simp
    moreover have "\<not> bit v (32 - n + k)" using False assms bit_imp_le_length [of v "32 - n + k"] by auto
    ultimately show ?thesis using False k assms by (simp add: r bit_word_rotl_iff)
  qed
qed

lemma byte_masks:
  "(0xFF00FF00 :: u32) = push_bit 8 (mask 8) OR push_bit 24 (mask 8)" "(0x00FF00FF :: u32) = mask 8 OR push_bit 16 (mask 8)"
  by (simp_all add: mask_eq_exp_minus_1)

lemma byte_swap:
  fixes a b c d :: u8
  defines "l \<equiv> ucast a OR push_bit 8 (ucast b) OR push_bit 16 (ucast c) OR push_bit 24 (ucast d) :: u32"
  shows "(rol l 24 AND 0xFF00FF00) OR (rol l 8 AND 0x00FF00FF) = push_bit 24 (ucast a) OR push_bit 16 (ucast b) OR push_bit 8 (ucast c) OR ucast d"
proof (rule bit_word_eqI)
  fix n assume "n < LENGTH(32)"
  then have n: "n < 32" by simp
  have lb: "bit l k \<longleftrightarrow> (if k < 8 then bit a k else if k < 16 then bit b (k - 8) else if k < 24 then bit c (k - 16) else k < 32 \<and> bit d (k - 24))" for k
    by (auto simp: l_def bit_simps u8_high)
  have r24: "bit (rol l 24) n \<longleftrightarrow> (24 \<le> n \<and> bit l (n - 24)) \<or> bit l (8 + n)" and r8: "bit (rol l 8) n \<longleftrightarrow> (8 \<le> n \<and> bit l (n - 8)) \<or> bit l (24 + n)"
    using n by (simp_all add: rol_def bit_simps)
  have m: "bit (0xFF00FF00 :: u32) n \<longleftrightarrow> (8 \<le> n \<and> n < 16) \<or> 24 \<le> n" "bit (0x00FF00FF :: u32) n \<longleftrightarrow> n < 8 \<or> (16 \<le> n \<and> n < 24)"
    unfolding byte_masks using n by (auto simp: bit_simps)
  have e: "bit (push_bit 24 (ucast a) OR push_bit 16 (ucast b) OR push_bit 8 (ucast c) OR ucast d :: u32) n
      \<longleftrightarrow> (24 \<le> n \<and> bit a (n - 24)) \<or> (16 \<le> n \<and> bit b (n - 16)) \<or> (8 \<le> n \<and> bit c (n - 8)) \<or> bit d n"
    using n by (auto simp: bit_simps)
  consider "n < 8" | "8 \<le> n" "n < 16" | "16 \<le> n" "n < 24" | "24 \<le> n" by linarith
  then have "bit ((rol l 24 AND 0xFF00FF00) OR (rol l 8 AND 0x00FF00FF)) n
      \<longleftrightarrow> (24 \<le> n \<and> bit a (n - 24)) \<or> (16 \<le> n \<and> bit b (n - 16)) \<or> (8 \<le> n \<and> bit c (n - 8)) \<or> bit d n"
    unfolding bit_or_iff bit_and_iff r24 r8 m lb by cases (use n in \<open>auto simp: u8_high\<close>)
  then show "bit ((rol l 24 AND 0xFF00FF00) OR (rol l 8 AND 0x00FF00FF)) n
      \<longleftrightarrow> bit (push_bit 24 (ucast a) OR push_bit 16 (ucast b) OR push_bit 8 (ucast c) OR ucast d :: u32) n"
    unfolding e .
qed

lemma blk0_be: "l ! i = block_word bs i \<Longrightarrow> blk0 i l = be_word bs i"
  by (simp only: blk0_def block_word_def be_word_def byte_swap)

lemma sha_choose: "((w AND (x XOR y)) XOR y) = ((w AND x) XOR (NOT w AND y))" for w :: u32
  by (rule bit_word_eqI) (auto simp: bit_simps)

lemma sha_majority: "(((w OR x) AND y) OR (w AND x)) = ((w AND x) XOR (w AND y) XOR (x AND y))" for w :: u32
  by (rule bit_word_eqI) (auto simp: bit_simps)

definition scheduled :: "u8 list \<Rightarrow> nat \<Rightarrow> u32 list \<Rightarrow> bool" where
  "scheduled bs t l \<longleftrightarrow> length l = 16 \<and> (\<forall>k. k < t \<and> t \<le> k + 16 \<longrightarrow> l ! (k mod 16) = sha_schedule bs k)
     \<and> (\<forall>k. t \<le> k \<and> k < 16 \<longrightarrow> l ! k = block_word bs k)"

lemma mod_back: "a \<le> 16 \<Longrightarrow> 16 \<le> t \<Longrightarrow> (t - a) mod 16 = (t + (16 - a)) mod (16 :: nat)"
  using mod_add_self2 [of "t - a" 16] by simp

lemma blk_schedule:
  assumes "scheduled bs t l" and "16 \<le> t"
  shows "blk t l = sha_schedule bs t"
proof -
  have w: "l ! ((t + (16 - a)) mod 16) = sha_schedule bs (t - a)" if "0 < a" "a \<le> 16" for a
    unfolding mod_back [OF that(2) assms(2), symmetric] using assms that by (simp add: scheduled_def)
  have "l ! ((t + 13) mod 16) = sha_schedule bs (t - 3)" using w [of 3] by simp
  moreover have "l ! ((t + 8) mod 16) = sha_schedule bs (t - 8)" using w [of 8] by simp
  moreover have "l ! ((t + 2) mod 16) = sha_schedule bs (t - 14)" using w [of 14] by simp
  moreover have "l ! (t mod 16) = sha_schedule bs (t - 16)" using w [of 16] by simp
  ultimately show ?thesis using assms(2) unfolding blk_def sha_schedule.simps [of bs t] by (simp add: rol_rotl)
qed

lemma scheduled_next:
  assumes "scheduled bs t l"
  shows "scheduled bs (Suc t) (l[t mod 16 := sha_schedule bs t])"
proof -
  have "l[t mod 16 := sha_schedule bs t] ! (k mod 16) = sha_schedule bs k" if "k < Suc t" "Suc t \<le> k + 16" for k
  proof (cases "k = t")
    case False
    then have "t mod 16 \<noteq> k mod 16" using that mod_eq_dvd_iff_nat [of k t 16] by (auto dest: dvd_imp_le)
    then show ?thesis using False that assms by (simp add: scheduled_def)
  qed (use assms in \<open>simp add: scheduled_def\<close>)
  then show ?thesis using assms by (simp add: scheduled_def)
qed

lemma sha_R_round:
  assumes "scheduled bs t l"
  shows "sha_R t (l, h) = (l[t mod 16 := sha_schedule bs t], sha_round bs t h)"
proof -
  obtain a b c d e where h: "h = (a, b, c, d, e)" by (cases h) auto
  have m: "(if t < 16 then blk0 t l else blk t l) = sha_schedule bs t"
    using assms blk_schedule [OF assms] blk0_be [of l t bs] by (auto simp: scheduled_def sha_schedule.simps [of bs t])
  show ?thesis
    unfolding sha_R_def sha_round_def h prod.case Let_def m
    by (simp add: rol_rotl sha_f_def sha_k_def sha_choose sha_majority add_ac)
qed

lemma sha_R_fold:
  "scheduled bs t l \<Longrightarrow> \<exists>l'. fold sha_R [t..<t + n] (l, h) = (l', fold (sha_round bs) [t..<t + n] h)"
proof (induction n arbitrary: t l h)
  case (Suc n)
  have "[t..<t + Suc n] = t # [Suc t..<Suc t + n]" by (simp add: upt_rec)
  then show ?case using Suc.IH [OF scheduled_next [OF Suc.prems]] by (simp only: fold_simps sha_R_round [OF Suc.prems])
qed simp

lemma SHA1Transform_compress: "SHA1Transform st bs = sha_compress st bs"
proof -
  have "scheduled bs 0 (map (block_word bs) [0..<16])" by (simp add: scheduled_def del: upt_Suc upt.simps)
  from sha_R_fold [OF this, of 80 st] obtain l' where
    "fold sha_R [0..<80] (map (block_word bs) [0..<16], st) = (l', fold (sha_round bs) [0..<80] st)" by (auto simp del: upt_Suc)
  then show ?thesis unfolding SHA1Transform_def sha_compress_def Let_def by (cases st) (auto simp: case_prod_beta simp del: upt_Suc)
qed

section \<open>Streams\<close>

lemma length_be_bytes [simp]: "length (be_bytes v) = 4"
  by (simp add: be_bytes_def)

lemma transform_loop_run:
  "i \<le> length data \<Longrightarrow> transform_loop data i st = (i + 64 * ((length data - i) div 64), sha_blocks st (drop i data))"
proof (induction data i st rule: transform_loop.induct)
  case (1 data i st)
  show ?case
  proof (cases "i + 63 < length data")
    case True
    then have "(length data - i) div 64 = Suc ((length data - (i + 64)) div 64)" using div_add_self2 [of 64 "length data - (i + 64)"] by simp
    moreover have "\<not> length data - i < 64" using True by simp
    ultimately show ?thesis
      using True 1 by (simp add: transform_loop.simps [of data i] sha_blocks.simps [of st "drop i data"] SHA1Transform_compress add.commute)
  next
    case False
    then have "length data - i < 64" by simp
    then show ?thesis using False by (simp add: transform_loop.simps [of data i] sha_blocks.simps [of st "drop i data"])
  qed
qed

lemma sha_blocks_append: "64 dvd length a \<Longrightarrow> sha_blocks h (a @ b) = sha_blocks (sha_blocks h a) b"
proof (induction h a rule: sha_blocks.induct)
  case (1 h a)
  show ?case
  proof (cases "length a < 64")
    case True
    then have "a = []" using 1(2) by (auto dest: dvd_imp_le)
    then show ?thesis by (simp add: sha_blocks.simps [of h "[]"])
  next
    case False
    then show ?thesis using 1 by (simp add: sha_blocks.simps [of h "a @ b"] sha_blocks.simps [of h a])
  qed
qed

lemma sha_blocks_short: "length b < 64 \<Longrightarrow> sha_blocks h b = h"
  by (simp add: sha_blocks.simps)

lemma sha_blocks_one: "length b = 64 \<Longrightarrow> sha_blocks h b = sha_compress h b"
  by (simp add: sha_blocks.simps)

text \<open>What the context knows of the message \<open>m\<close> read so far.\<close>

definition absorbed :: "u8 list \<Rightarrow> SHA1_CTX \<Rightarrow> bool" where
  "absorbed m c \<longleftrightarrow> sha_state c = sha_blocks sha_init m \<and> length (sha_buffer c) = 64
     \<and> take (length m mod 64) (sha_buffer c) = drop (64 * (length m div 64)) m
     \<and> sha_count0 c = of_nat (8 * length m) \<and> sha_count1 c = of_nat (8 * length m div 2 ^ 32)"

lemma absorbed_init: "length (sha_buffer c) = 64 \<Longrightarrow> \<exists>t. SHA1Init c = Inr ((), t) \<and> absorbed [] t"
  by (simp add: SHA1Init_def run_simps absorbed_def sha_blocks_short)

lemma unat_of_nat32: "unat (of_nat n :: u32) = n mod 2 ^ 32"
  by (simp add: unsigned_of_nat take_bit_eq_mod)

lemma count_bytes: "unat (drop_bit 3 (of_nat (8 * n) :: u32) AND 63) = n mod 64"
proof -
  have "(drop_bit 3 (of_nat (8 * n)) AND 63 :: u32) = take_bit 6 (drop_bit 3 (of_nat (8 * n)))"
    by (simp add: take_bit_eq_mask mask_eq_exp_minus_1)
  then have "unat (drop_bit 3 (of_nat (8 * n) :: u32) AND 63) = take_bit 6 (drop_bit 3 ((8 * n) mod 2 ^ 32))"
    by (simp only: unsigned_take_bit_eq unat_drop_bit_eq unat_of_nat32)
  also have "\<dots> = ((8 * n) mod (8 * 2 ^ 29)) div 8 mod 64" by (simp add: take_bit_eq_mod drop_bit_eq_div)
  also have "\<dots> = n mod 2 ^ 29 mod 64" by (simp only: mult_mod_right [symmetric]) simp
  also have "\<dots> = n mod 64" by (rule mod_mod_cancel) simp
  finally show ?thesis .
qed

lemma count_low: "of_nat (8 * m) + push_bit 3 (of_nat d) = (of_nat (8 * (m + d)) :: u32)"
  by (simp add: push_bit_eq_mult algebra_simps)

lemma count_high:
  assumes "d < 2 ^ 32"
  shows "of_nat (8 * m div 2 ^ 32) + (if of_nat (8 * (m + d)) < (of_nat (8 * m) :: u32) then 1 else 0) + drop_bit 29 (of_nat d)
    = (of_nat (8 * (m + d) div 2 ^ 32) :: u32)"
proof -
  define a b where "a = 8 * m mod 2 ^ 32" and "b = 8 * d mod 2 ^ 32"
  have ab: "a < 2 ^ 32" "b < 2 ^ 32" by (simp_all add: a_def b_def)
  have s: "8 * (m + d) = 8 * m + 8 * d" by simp
  have q: "8 * (m + d) div 2 ^ 32 = 8 * m div 2 ^ 32 + 8 * d div 2 ^ 32 + (a + b) div 2 ^ 32"
    unfolding s a_def b_def by (rule div_add1_eq)
  have r: "8 * (m + d) mod 2 ^ 32 = (a + b) mod 2 ^ 32"
    unfolding s a_def b_def by (rule mod_add_eq [symmetric])
  have "(a + b) div 2 ^ 32 = (if 2 ^ 32 \<le> a + b then 1 else 0)" and "(a + b) mod 2 ^ 32 = (if 2 ^ 32 \<le> a + b then a + b - 2 ^ 32 else a + b)"
    using ab by (simp_all add: div_nat_eqI le_mod_geq mod_if)
  moreover have "unat (of_nat (8 * (m + d)) :: u32) = (a + b) mod 2 ^ 32" "unat (of_nat (8 * m) :: u32) = a"
    by (simp_all only: unat_of_nat32 r a_def)
  ultimately have c: "(of_nat (8 * (m + d)) < (of_nat (8 * m) :: u32)) \<longleftrightarrow> 2 ^ 32 \<le> a + b" "(a + b) div 2 ^ 32 = (if 2 ^ 32 \<le> a + b then 1 else 0)"
    using ab by (auto simp only: word_less_nat_alt split: if_splits)
  have "drop_bit 29 (of_nat d :: u32) = of_nat (8 * d div 2 ^ 32)"
    using assms unfolding word_unat_eq_iff unat_drop_bit_eq unat_of_nat32 by (simp add: drop_bit_eq_div)
  then show ?thesis unfolding q c of_nat_add by (cases "2 ^ 32 \<le> a + b") (simp_all only: if_True if_False of_nat_1 of_nat_0, simp_all)
qed

lemma absorbed_split:
  assumes "absorbed m c"
  obtains a r q where "m = a @ r" and "length a = 64 * q" and "length r < 64"
    and "take (length r) (sha_buffer c) = r" and "sha_state c = sha_blocks sha_init a"
proof -
  define q a r where "q = length m div 64" and "a = take (64 * q) m" and "r = drop (64 * q) m"
  have m: "m = a @ r" by (simp add: a_def r_def)
  have l: "length a = 64 * q" by (simp add: a_def q_def)
  have lr: "length r = length m mod 64" unfolding r_def q_def length_drop by (rule minus_mult_div_eq_mod)
  have "sha_blocks sha_init (a @ r) = sha_blocks sha_init a"
    by (subst sha_blocks_append) (simp_all add: l lr sha_blocks_short)
  moreover have "take (length m mod 64) (sha_buffer c) = r" using assms by (simp add: absorbed_def r_def q_def)
  moreover have "sha_state c = sha_blocks sha_init (a @ r)" using assms m by (simp add: absorbed_def)
  ultimately show ?thesis using that [OF m l] by (simp add: lr)
qed

lemma SHA1Update_run:
  assumes c: "absorbed m c" and d: "length data < 2 ^ 32 - 64"
  defines "j \<equiv> length m mod 64"
  defines "c1 \<equiv> c\<lparr>sha_count0 := of_nat (8 * length (m @ data)), sha_count1 := of_nat (8 * length (m @ data) div 2 ^ 32)\<rparr>"
  shows "SHA1Update data c = (if 64 \<le> j + length data then
      bnd (copy_to_buffer j (take (64 - j) data)) (\<lambda>_.
       bnd (modify (\<lambda>c. c\<lparr>sha_state := SHA1Transform (sha_state c) (sha_buffer c)\<rparr>)) (\<lambda>_.
       bnd (get (\<lambda>c. transform_loop data (64 - j) (sha_state c))) (\<lambda>(i', st).
       bnd (modify (\<lambda>c. c\<lparr>sha_state := st\<rparr>)) (\<lambda>_. copy_to_buffer 0 (drop i' data))))) c1
      else copy_to_buffer j data c1)"
proof -
  define w where "w = drop_bit 3 (of_nat (8 * length m) :: u32) AND 63"
  have w: "unat w = j" "j < 64" unfolding w_def count_bytes j_def by simp_all
  have cnt: "sha_count0 c = of_nat (8 * length m)" "sha_count1 c = of_nat (8 * length m div 2 ^ 32)"
    using c by (simp_all add: absorbed_def)
  have full: "63 < w + of_nat (length data) \<longleftrightarrow> 64 \<le> j + length data"
  proof -
    have "unat (w + of_nat (length data)) = j + length data" using w d by (simp add: unat_word_ariths unat_of_nat32)
    then show ?thesis unfolding word_less_nat_alt by auto
  qed
  have i: "unat (64 - w) = 64 - j" using w by (simp add: unat_sub word_le_nat_alt)
  have d': "length data < 2 ^ 32" using d by simp
  show ?thesis
    unfolding SHA1Update_def c1_def length_append count_high [OF d', symmetric] count_low [symmetric]
    by (simp add: run_simps cnt Let_def w_def [symmetric] full i w(1) del: of_nat_mult of_nat_add)
qed

lemma SHA1Update_absorbs:
  assumes c: "absorbed m c" and d: "length data < 2 ^ 32 - 64"
  shows "\<exists>t. SHA1Update data c = Inr ((), t) \<and> absorbed (m @ data) t"
proof -
  from absorbed_split [OF c] obtain a r q where m: "m = a @ r" and l: "length a = 64 * q" "length r < 64"
    and b: "take (length r) (sha_buffer c) = r" and st: "sha_state c = sha_blocks sha_init a" .
  have j: "length m mod 64 = length r" using l by (simp add: m)
  have len: "length (sha_buffer c) = 64" using c by (simp add: absorbed_def)
  note run = SHA1Update_run [OF c d, unfolded j]
  show ?thesis
  proof (cases "64 \<le> length r + length data")
    case False
    have n: "length (m @ data) div 64 = q" "length (m @ data) mod 64 = length r + length data"
      using False l by (simp_all add: m)
    have "sha_blocks sha_init (m @ data) = sha_blocks sha_init a"
      using False l by (simp add: m sha_blocks_append sha_blocks_short)
    moreover have "drop (64 * q) (m @ data) = r @ data" using l by (simp add: m)
    ultimately show ?thesis
      using False b st len unfolding run absorbed_def n by (simp add: copy_to_buffer_def)
  next
    case True
    define i where "i = 64 - length r"
    have i: "length r + i = 64" "i \<le> length data" using True l(2) by (simp_all add: i_def)
    define d1 d2 where "d1 = take i data" and "d2 = drop i data"
    define p where "p = length d2 div 64"
    have dd: "data = d1 @ d2" "length d1 = i" using i(2) by (simp_all add: d1_def d2_def)
    have rd: "length (r @ d1) = 64" using dd(2) i(1) by simp
    have lp: "transform_loop data i h = (i + 64 * p, sha_blocks h d2)" for h
      using i(2) by (simp add: transform_loop_run p_def d2_def)
    have dr: "drop (i + 64 * p) data = drop (64 * p) d2" by (simp add: d2_def add.commute)
    have ld: "length d2 - 64 * p = length d2 mod 64" unfolding p_def by (rule minus_mult_div_eq_mod)
    have "length d2 = 64 * p + length d2 mod 64" by (simp add: p_def)
    then have e: "length (m @ data) = length d2 mod 64 + 64 * (q + 1 + p)"
      unfolding dd(1) m using l(1) dd(2) i(1) by simp
    have n: "length (m @ data) div 64 = q + 1 + p" "length (m @ data) mod 64 = length d2 mod 64"
      unfolding e by (simp_all only: mod_mult_self2 mod_mod_trivial) simp
    have "sha_blocks sha_init (m @ data) = sha_blocks (sha_compress (sha_blocks sha_init a) (r @ d1)) d2"
      using l rd sha_blocks_append [of a sha_init "(r @ d1) @ d2"] sha_blocks_append [of "r @ d1" "sha_blocks sha_init a" d2]
      unfolding dd(1) m by (simp add: sha_blocks_one del: length_append)
    moreover have "drop (64 * (q + 1 + p)) (m @ data) = drop (64 * p) d2" unfolding dd(1) m using l dd(2) i(1) by simp
    moreover have "length d2 mod 64 \<le> 64" by (simp add: less_imp_le)
    ultimately show ?thesis
      using True dd(2) st len ld b i(1) rd unfolding run [folded i_def] absorbed_def n
      by (simp add: copy_to_buffer_def run_simps lp dr d1_def [symmetric] SHA1Transform_compress)
  qed
qed

fun updates :: "u8 list list \<Rightarrow> (unit, SHA1_CTX) run" where
  "updates [] = ret ()"
| "updates (d # ds) = bnd (SHA1Update d) (\<lambda>_. updates ds)"

lemma updates_absorb:
  "absorbed m c \<Longrightarrow> \<forall>d\<in>set ds. length d < 2 ^ 32 - 64 \<Longrightarrow> \<exists>t. updates ds c = Inr ((), t) \<and> absorbed (m @ concat ds) t"
proof (induction ds arbitrary: m c)
  case (Cons d ds)
  then obtain u where "SHA1Update d c = Inr ((), u)" "absorbed (m @ d) u" using SHA1Update_absorbs [of m c d] by auto
  with Cons.IH [of "m @ d" u] Cons.prems(2) show ?case by (auto simp: run_simps)
qed (simp add: run_simps)

lemma pad_test: "absorbed m c \<Longrightarrow> sha_count0 c AND 504 = 448 \<longleftrightarrow> length m mod 64 = 56"
proof -
  assume c: "absorbed m c"
  define w where "w = sha_count0 c"
  have "w AND 504 = push_bit 3 (drop_bit 3 w AND 63)"
  proof -
    have "w AND push_bit 3 (mask 6) = push_bit 3 (drop_bit 3 w AND mask 6)" by (rule bit_word_eqI) (auto simp: bit_simps)
    then show ?thesis by (simp add: mask_eq_exp_minus_1)
  qed
  moreover have "drop_bit 3 w AND 63 = of_nat (length m mod 64)"
    using count_bytes [of "length m"] c by (subst word_unat_eq_iff) (simp add: w_def absorbed_def unat_of_nat32)
  ultimately have "w AND 504 = of_nat (8 * (length m mod 64))" by (simp add: push_bit_eq_mult)
  moreover have "(of_nat (8 * (length m mod 64)) :: u32) = of_nat (8 * 56) \<longleftrightarrow> 8 * (length m mod 64) = 8 * 56"
  proof -
    have "8 * (length m mod 64) < 2 ^ 32" by (rule less_trans [of _ "8 * 64"]) simp_all
    then show ?thesis unfolding word_unat_eq_iff unat_of_nat32 by simp
  qed
  ultimately show ?thesis by (simp add: w_def)
qed

lemma pad_value: "x < 64 \<Longrightarrow> (120 - x) mod 64 = (if x \<le> 56 then 56 - x else 120 - x :: nat)"
proof -
  assume "x < 64"
  have "(120 - x) mod 64 = 56 - x" if "x \<le> 56"
  proof -
    have "120 - x = 56 - x + 64" using that by simp
    then show ?thesis by (simp only: mod_add_self2) simp
  qed
  then show ?thesis using \<open>x < 64\<close> by simp
qed

lemma pad_step: "x < 64 \<Longrightarrow> x \<noteq> 56 \<Longrightarrow> (120 - x) mod 64 = Suc ((120 - Suc x mod 64) mod (64 :: nat))"
  using pad_value [of x] pad_value [of "Suc x"] by (cases "x = 63") auto

lemma pad_loop_run:
  "absorbed m c \<Longrightarrow> (120 - length m mod 64) mod 64 \<le> n
    \<Longrightarrow> \<exists>t. pad_loop n c = Inr ((), t) \<and> absorbed (m @ replicate ((120 - length m mod 64) mod 64) 0) t"
proof (induction n arbitrary: m c)
  case 0
  then show ?case by (simp add: run_simps)
next
  case (Suc n)
  show ?case
  proof (cases "length m mod 64 = 56")
    case True
    then show ?thesis using Suc.prems pad_test [OF Suc.prems(1)] by (auto simp: run_simps)
  next
    case False
    define k where "k = (120 - length m mod 64) mod 64"
    have k: "k = Suc ((120 - Suc (length m) mod 64) mod 64)"
      using pad_step [of "length m mod 64"] False unfolding k_def mod_Suc_eq [of "length m"] by simp
    obtain u where u: "SHA1Update [0] c = Inr ((), u)" "absorbed (m @ [0]) u" using SHA1Update_absorbs [OF Suc.prems(1), of "[0]"] by auto
    from Suc.IH [OF u(2)] Suc.prems(2) k obtain t where
      "pad_loop n u = Inr ((), t)" "absorbed ((m @ [0]) @ replicate ((120 - Suc (length m) mod 64) mod 64) 0) t"
      by (auto simp: k_def [symmetric])
    then show ?thesis using u(1) pad_test [OF Suc.prems(1)] False by (simp add: run_simps k k_def [symmetric])
  qed
qed

lemma SHA1Final_digest:
  assumes "absorbed m c"
  shows "\<exists>t. SHA1Final c = Inr (sha1 m, t) \<and> length (sha_buffer t) = 64"
proof -
  define f where "f = be_bytes (of_nat (8 * length m div 2 ^ 32)) @ be_bytes (of_nat (8 * length m))"
  define k where "k = (119 - length m mod 64) mod 64"
  have f: "be_bytes (sha_count1 c) @ be_bytes (sha_count0 c) = f" using assms by (simp add: absorbed_def f_def)
  obtain u where u: "SHA1Update [0x80] c = Inr ((), u)" "absorbed (m @ [0x80]) u" using SHA1Update_absorbs [OF assms, of "[0x80]"] by auto
  have k: "(120 - length (m @ [0x80 :: u8]) mod 64) mod 64 = k" unfolding k_def by (simp add: mod_Suc)
  have "k \<le> 64" unfolding k_def by (simp add: less_imp_le)
  with pad_loop_run [OF u(2), of 64] k obtain v where v: "pad_loop 64 u = Inr ((), v)" "absorbed ((m @ [0x80]) @ replicate k 0) v" by auto
  obtain w where w: "SHA1Update f v = Inr ((), w)" "absorbed (((m @ [0x80]) @ replicate k 0) @ f) w"
    using SHA1Update_absorbs [OF v(2), of f] by (auto simp: f_def)
  have "((m @ [0x80]) @ replicate k 0) @ f = sha_pad m" by (simp add: sha_pad_def f_def k_def)
  then have "sha_state w = sha_blocks sha_init (sha_pad m)" using w(2) by (simp add: absorbed_def)
  then show ?thesis
    unfolding SHA1Final_def by (simp add: run_simps f u(1) v(1) w(1) sha1_def del: pad_loop.simps)
qed

lemma sha1_updates:
  assumes "length (sha_buffer c) = 64" and "\<forall>d\<in>set ds. length d < 2 ^ 32 - 64"
  shows "\<exists>t. bnd SHA1Init (\<lambda>_. bnd (updates ds) (\<lambda>_. SHA1Final)) c = Inr (sha1 (concat ds), t) \<and> length (sha_buffer t) = 64"
proof -
  obtain u where u: "SHA1Init c = Inr ((), u)" "absorbed [] u" using absorbed_init [OF assms(1)] by blast
  obtain v where v: "updates ds u = Inr ((), v)" "absorbed (concat ds) v" using updates_absorb [OF u(2) assms(2)] by auto
  then show ?thesis using SHA1Final_digest [OF v(2)] u(1) by (auto simp: run_simps)
qed

lemma length_sha1: "length (sha1 m) = 20"
  by (simp add: sha1_def digest_of_def be_bytes_def split: prod.split)

lemma length_hmac_pad: "length (hmac_pad p key) = 64"
  by (simp add: hmac_pad_def)

text \<open>The updates of \<open>JumpedHMAC\<close>, which skips empty data.\<close>

lemma hmac_run:
  "JumpedHMAC key data data2 = bnd (bnd SHA1Init (\<lambda>_. bnd (updates (hmac_pad 0x36 key # filter (\<lambda>d. d \<noteq> []) [data, data2])) (\<lambda>_. SHA1Final)))
     (\<lambda>d. bnd SHA1Init (\<lambda>_. bnd (updates [hmac_pad 0x5C key @ d]) (\<lambda>_. SHA1Final)))"
  by (cases "data = []"; cases "data2 = []") (simp_all add: JumpedHMAC_def bnd_assoc bnd_ret_left)

section \<open>Properties\<close>

text \<open>C29: SHA-1 of a message that is handed over in any pieces is the standard's digest of the whole message.\<close>

theorem sha1_stream:
  assumes "length (sha_buffer c) = 64" and "\<forall>d\<in>set ds. length d < 2 ^ 32 - 64"
  shows "\<exists>t. bnd SHA1Init (\<lambda>_. bnd (updates ds) (\<lambda>_. SHA1Final)) c = Inr (sha1 (concat ds), t)"
  using sha1_updates [OF assms] by blast

definition sha_blank :: SHA1_CTX where
  "sha_blank = \<lparr>sha_state = (0, 0, 0, 0, 0), sha_count0 = 0, sha_count1 = 0, sha_buffer = replicate 64 0\<rparr>"

theorem sha1_stream_witness:
  "\<exists>t. bnd SHA1Init (\<lambda>_. bnd (updates [[0x61], [0x62, 0x63]]) (\<lambda>_. SHA1Final)) sha_blank = Inr (sha1 [0x61, 0x62, 0x63], t)"
  using sha1_stream [of sha_blank "[[0x61], [0x62, 0x63]]"] by (simp add: sha_blank_def)

text \<open>\<open>JumpedHMAC\<close> is the keyed hash of the standard with the key cut to 64 bytes, and \<open>CalcSHA1Hash\<close> the hash of the
  data behind its length.\<close>

theorem hmac_standard:
  assumes "length (sha_buffer c) = 64" and "length data < 2 ^ 32 - 64" and "length data2 < 2 ^ 32 - 64"
  shows "(\<exists>t. JumpedHMAC key data data2 c = Inr (sha1 (hmac_pad 0x5C key @ sha1 (hmac_pad 0x36 key @ data @ data2)), t))
    \<and> (\<exists>t. CalcSHA1Hash data c = Inr (sha1 (rev (be_bytes (of_nat (length data))) @ data), t))"
proof
  define ds where "ds = hmac_pad 0x36 key # filter (\<lambda>d. d \<noteq> []) [data, data2]"
  have "concat ds = hmac_pad 0x36 key @ data @ data2" and "\<forall>d\<in>set ds. length d < 2 ^ 32 - 64"
    using assms(2,3) by (auto simp: ds_def length_hmac_pad)
  moreover define M where "M = bnd SHA1Init (\<lambda>_. bnd (updates ds) (\<lambda>_. SHA1Final))"
  ultimately obtain t where t: "M c = Inr (sha1 (hmac_pad 0x36 key @ data @ data2), t)" "length (sha_buffer t) = 64"
    using sha1_updates [OF assms(1), of ds] by auto
  show "\<exists>t. JumpedHMAC key data data2 c = Inr (sha1 (hmac_pad 0x5C key @ sha1 (hmac_pad 0x36 key @ data @ data2)), t)"
    using sha1_updates [OF t(2), of "[hmac_pad 0x5C key @ sha1 (hmac_pad 0x36 key @ data @ data2)]"] length_hmac_pad length_sha1
    unfolding hmac_run ds_def [symmetric] M_def [symmetric] bnd_Inr [of M, OF t(1)] by (auto simp del: updates.simps)
next
  show "\<exists>t. CalcSHA1Hash data c = Inr (sha1 (rev (be_bytes (of_nat (length data))) @ data), t)"
    using sha1_updates [OF assms(1), of "[rev (be_bytes (of_nat (length data))), data]"] assms(2) by (auto simp: CalcSHA1Hash_def bnd_assoc bnd_ret_left)
qed

theorem hmac_standard_witness:
  "\<exists>t. JumpedHMAC [1] [2] [] sha_blank = Inr (sha1 (hmac_pad 0x5C [1] @ sha1 (hmac_pad 0x36 [1] @ [2])), t)"
  using hmac_standard [of sha_blank "[2]" "[]" "[1]"] by (simp add: sha_blank_def)

end
