(* ===== verification/Xc_Des.thy ===== *)
theory Xc_Des
  imports Cxbx_Prelude
begin

unbundle bit_operations_syntax

text \<open>
  DES and triple DES (\<open>src/common/crypto/EmuDes.cpp\<close>): key parity, key schedule, one block, and
  chained blocks.

  The macros work on two 32-bit words: \<open>des_ip\<close> and \<open>des_fp\<close> take and give the pair \<open>(X, Y)\<close> in the
  order of the macro's arguments, \<open>round_yx\<close> and \<open>round_xy\<close> are \<open>DES_ROUND(Y, X, i)\<close> and
  \<open>DES_ROUND(X, Y, i)\<close> on the pair \<open>(X, Y)\<close>. A key schedule is the list of its words. Buffers are byte
  lists, blocks their first eight bytes; the input of a chained call has to have the bytes it reads,
  which is \<open>OutOfBounds\<close> otherwise. Decryption undoes encryption for every schedule.
\<close>

section \<open>Tables\<close>

definition SB1 :: "u32 list" where
  "SB1 = [0x01010400, 0x00000000, 0x00010000, 0x01010404, 0x01010004, 0x00010404, 0x00000004, 0x00010000,
    0x00000400, 0x01010400, 0x01010404, 0x00000400, 0x01000404, 0x01010004, 0x01000000, 0x00000004,
    0x00000404, 0x01000400, 0x01000400, 0x00010400, 0x00010400, 0x01010000, 0x01010000, 0x01000404,
    0x00010004, 0x01000004, 0x01000004, 0x00010004, 0x00000000, 0x00000404, 0x00010404, 0x01000000,
    0x00010000, 0x01010404, 0x00000004, 0x01010000, 0x01010400, 0x01000000, 0x01000000, 0x00000400,
    0x01010004, 0x00010000, 0x00010400, 0x01000004, 0x00000400, 0x00000004, 0x01000404, 0x00010404,
    0x01010404, 0x00010004, 0x01010000, 0x01000404, 0x01000004, 0x00000404, 0x00010404, 0x01010400,
    0x00000404, 0x01000400, 0x01000400, 0x00000000, 0x00010004, 0x00010400, 0x00000000, 0x01010004]"

definition SB2 :: "u32 list" where
  "SB2 = [0x80108020, 0x80008000, 0x00008000, 0x00108020, 0x00100000, 0x00000020, 0x80100020, 0x80008020,
    0x80000020, 0x80108020, 0x80108000, 0x80000000, 0x80008000, 0x00100000, 0x00000020, 0x80100020,
    0x00108000, 0x00100020, 0x80008020, 0x00000000, 0x80000000, 0x00008000, 0x00108020, 0x80100000,
    0x00100020, 0x80000020, 0x00000000, 0x00108000, 0x00008020, 0x80108000, 0x80100000, 0x00008020,
    0x00000000, 0x00108020, 0x80100020, 0x00100000, 0x80008020, 0x80100000, 0x80108000, 0x00008000,
    0x80100000, 0x80008000, 0x00000020, 0x80108020, 0x00108020, 0x00000020, 0x00008000, 0x80000000,
    0x00008020, 0x80108000, 0x00100000, 0x80000020, 0x00100020, 0x80008020, 0x80000020, 0x00100020,
    0x00108000, 0x00000000, 0x80008000, 0x00008020, 0x80000000, 0x80100020, 0x80108020, 0x00108000]"

definition SB3 :: "u32 list" where
  "SB3 = [0x00000208, 0x08020200, 0x00000000, 0x08020008, 0x08000200, 0x00000000, 0x00020208, 0x08000200,
    0x00020008, 0x08000008, 0x08000008, 0x00020000, 0x08020208, 0x00020008, 0x08020000, 0x00000208,
    0x08000000, 0x00000008, 0x08020200, 0x00000200, 0x00020200, 0x08020000, 0x08020008, 0x00020208,
    0x08000208, 0x00020200, 0x00020000, 0x08000208, 0x00000008, 0x08020208, 0x00000200, 0x08000000,
    0x08020200, 0x08000000, 0x00020008, 0x00000208, 0x00020000, 0x08020200, 0x08000200, 0x00000000,
    0x00000200, 0x00020008, 0x08020208, 0x08000200, 0x08000008, 0x00000200, 0x00000000, 0x08020008,
    0x08000208, 0x00020000, 0x08000000, 0x08020208, 0x00000008, 0x00020208, 0x00020200, 0x08000008,
    0x08020000, 0x08000208, 0x00000208, 0x08020000, 0x00020208, 0x00000008, 0x08020008, 0x00020200]"

definition SB4 :: "u32 list" where
  "SB4 = [0x00802001, 0x00002081, 0x00002081, 0x00000080, 0x00802080, 0x00800081, 0x00800001, 0x00002001,
    0x00000000, 0x00802000, 0x00802000, 0x00802081, 0x00000081, 0x00000000, 0x00800080, 0x00800001,
    0x00000001, 0x00002000, 0x00800000, 0x00802001, 0x00000080, 0x00800000, 0x00002001, 0x00002080,
    0x00800081, 0x00000001, 0x00002080, 0x00800080, 0x00002000, 0x00802080, 0x00802081, 0x00000081,
    0x00800080, 0x00800001, 0x00802000, 0x00802081, 0x00000081, 0x00000000, 0x00000000, 0x00802000,
    0x00002080, 0x00800080, 0x00800081, 0x00000001, 0x00802001, 0x00002081, 0x00002081, 0x00000080,
    0x00802081, 0x00000081, 0x00000001, 0x00002000, 0x00800001, 0x00002001, 0x00802080, 0x00800081,
    0x00002001, 0x00002080, 0x00800000, 0x00802001, 0x00000080, 0x00800000, 0x00002000, 0x00802080]"

definition SB5 :: "u32 list" where
  "SB5 = [0x00000100, 0x02080100, 0x02080000, 0x42000100, 0x00080000, 0x00000100, 0x40000000, 0x02080000,
    0x40080100, 0x00080000, 0x02000100, 0x40080100, 0x42000100, 0x42080000, 0x00080100, 0x40000000,
    0x02000000, 0x40080000, 0x40080000, 0x00000000, 0x40000100, 0x42080100, 0x42080100, 0x02000100,
    0x42080000, 0x40000100, 0x00000000, 0x42000000, 0x02080100, 0x02000000, 0x42000000, 0x00080100,
    0x00080000, 0x42000100, 0x00000100, 0x02000000, 0x40000000, 0x02080000, 0x42000100, 0x40080100,
    0x02000100, 0x40000000, 0x42080000, 0x02080100, 0x40080100, 0x00000100, 0x02000000, 0x42080000,
    0x42080100, 0x00080100, 0x42000000, 0x42080100, 0x02080000, 0x00000000, 0x40080000, 0x42000000,
    0x00080100, 0x02000100, 0x40000100, 0x00080000, 0x00000000, 0x40080000, 0x02080100, 0x40000100]"

definition SB6 :: "u32 list" where
  "SB6 = [0x20000010, 0x20400000, 0x00004000, 0x20404010, 0x20400000, 0x00000010, 0x20404010, 0x00400000,
    0x20004000, 0x00404010, 0x00400000, 0x20000010, 0x00400010, 0x20004000, 0x20000000, 0x00004010,
    0x00000000, 0x00400010, 0x20004010, 0x00004000, 0x00404000, 0x20004010, 0x00000010, 0x20400010,
    0x20400010, 0x00000000, 0x00404010, 0x20404000, 0x00004010, 0x00404000, 0x20404000, 0x20000000,
    0x20004000, 0x00000010, 0x20400010, 0x00404000, 0x20404010, 0x00400000, 0x00004010, 0x20000010,
    0x00400000, 0x20004000, 0x20000000, 0x00004010, 0x20000010, 0x20404010, 0x00404000, 0x20400000,
    0x00404010, 0x20404000, 0x00000000, 0x20400010, 0x00000010, 0x00004000, 0x20400000, 0x00404010,
    0x00004000, 0x00400010, 0x20004010, 0x00000000, 0x20404000, 0x20000000, 0x00400010, 0x20004010]"

definition SB7 :: "u32 list" where
  "SB7 = [0x00200000, 0x04200002, 0x04000802, 0x00000000, 0x00000800, 0x04000802, 0x00200802, 0x04200800,
    0x04200802, 0x00200000, 0x00000000, 0x04000002, 0x00000002, 0x04000000, 0x04200002, 0x00000802,
    0x04000800, 0x00200802, 0x00200002, 0x04000800, 0x04000002, 0x04200000, 0x04200800, 0x00200002,
    0x04200000, 0x00000800, 0x00000802, 0x04200802, 0x00200800, 0x00000002, 0x04000000, 0x00200800,
    0x04000000, 0x00200800, 0x00200000, 0x04000802, 0x04000802, 0x04200002, 0x04200002, 0x00000002,
    0x00200002, 0x04000000, 0x04000800, 0x00200000, 0x04200800, 0x00000802, 0x00200802, 0x04200800,
    0x00000802, 0x04000002, 0x04200802, 0x04200000, 0x00200800, 0x00000000, 0x00000002, 0x04200802,
    0x00000000, 0x00200802, 0x04200000, 0x00000800, 0x04000002, 0x04000800, 0x00000800, 0x00200002]"

definition SB8 :: "u32 list" where
  "SB8 = [0x10001040, 0x00001000, 0x00040000, 0x10041040, 0x10000000, 0x10001040, 0x00000040, 0x10000000,
    0x00040040, 0x10040000, 0x10041040, 0x00041000, 0x10041000, 0x00041040, 0x00001000, 0x00000040,
    0x10040000, 0x10000040, 0x10001000, 0x00001040, 0x00041000, 0x00040040, 0x10040040, 0x10041000,
    0x00001040, 0x00000000, 0x00000000, 0x10040040, 0x10000040, 0x10001000, 0x00041040, 0x00040000,
    0x00041040, 0x00040000, 0x10041000, 0x00001000, 0x00000040, 0x10040040, 0x00001000, 0x00041040,
    0x10001000, 0x00000040, 0x10000040, 0x10040000, 0x10040040, 0x10000000, 0x00040000, 0x10001040,
    0x00000000, 0x10041040, 0x00040040, 0x10000040, 0x10040000, 0x10001000, 0x10001040, 0x00000000,
    0x10041040, 0x00041000, 0x00041000, 0x00001040, 0x00001040, 0x00040040, 0x10000000, 0x10041000]"

definition LHs :: "u32 list" where
  "LHs = [0x00000000, 0x00000001, 0x00000100, 0x00000101, 0x00010000, 0x00010001, 0x00010100, 0x00010101,
    0x01000000, 0x01000001, 0x01000100, 0x01000101, 0x01010000, 0x01010001, 0x01010100, 0x01010101]"

definition RHs :: "u32 list" where
  "RHs = [0x00000000, 0x01000000, 0x00010000, 0x01010000, 0x00000100, 0x01000100, 0x00010100, 0x01010100,
    0x00000001, 0x01000001, 0x00010001, 0x01010001, 0x00000101, 0x01000101, 0x00010101, 0x01010101]"

definition DESParityTable :: "nat list" where
  "DESParityTable = [0, 1, 1, 2, 1, 2, 2, 3, 1, 2, 2, 3, 2, 3, 3, 4]"

section \<open>Words\<close>

definition GET_UINT32_BE :: "u8 list \<Rightarrow> nat \<Rightarrow> u32" where
  "GET_UINT32_BE b i = push_bit 24 (ucast (b ! i)) OR push_bit 16 (ucast (b ! (i + 1)))
     OR push_bit 8 (ucast (b ! (i + 2))) OR ucast (b ! (i + 3))"

definition PUT_UINT32_BE :: "u32 \<Rightarrow> u8 list" where
  "PUT_UINT32_BE n = [ucast (drop_bit 24 n), ucast (drop_bit 16 n), ucast (drop_bit 8 n), ucast n]"

text \<open>The statement \<open>T = ((a >> k) ^ b) & m; b ^= T; a ^= (T << k);\<close> that the permutations repeat.\<close>

definition delta_swap :: "nat \<Rightarrow> u32 \<Rightarrow> u32 \<times> u32 \<Rightarrow> u32 \<times> u32" where
  "delta_swap k m = (\<lambda>(a, b). let t = (drop_bit k a XOR b) AND m in (a XOR push_bit k t, b XOR t))"

text \<open>\<open>T = (X ^ Y) & m; Y ^= T; X ^= T;\<close> and the two rotations.\<close>

definition exchange :: "u32 \<Rightarrow> u32 \<times> u32 \<Rightarrow> u32 \<times> u32" where
  "exchange m = (\<lambda>(x, y). let t = (x XOR y) AND m in (x XOR t, y XOR t))"

definition rotate_left :: "u32 \<Rightarrow> u32" where
  "rotate_left v = push_bit 1 v OR drop_bit 31 v"

definition rotate_right :: "u32 \<Rightarrow> u32" where
  "rotate_right v = push_bit 31 v OR drop_bit 1 v"

definition des_ip :: "u32 \<times> u32 \<Rightarrow> u32 \<times> u32" where
  "des_ip p = (let (x, y) = delta_swap 16 0x0000FFFF (delta_swap 4 0x0F0F0F0F p);
     (y, x) = delta_swap 8 0x00FF00FF (delta_swap 2 0x33333333 (y, x));
     (x, y) = exchange 0xAAAAAAAA (x, rotate_left y)
   in (rotate_left x, y))"

definition des_fp :: "u32 \<times> u32 \<Rightarrow> u32 \<times> u32" where
  "des_fp p = (let (x, y) = p; (x, y) = exchange 0xAAAAAAAA (rotate_right x, y);
     (y, x) = delta_swap 2 0x33333333 (delta_swap 8 0x00FF00FF (rotate_right y, x))
   in delta_swap 4 0x0F0F0F0F (delta_swap 16 0x0000FFFF (x, y)))"

definition sbox :: "u32 list \<Rightarrow> u32 \<Rightarrow> u32" where
  "sbox t v = t ! unat (v AND 0x3F)"

definition des_round :: "u32 list \<Rightarrow> u32 \<Rightarrow> nat \<Rightarrow> u32" where
  "des_round SK x i = (let t = SK ! i XOR x; u = SK ! (i + 1) XOR (push_bit 28 x OR drop_bit 4 x) in
     sbox SB8 t XOR sbox SB6 (drop_bit 8 t) XOR sbox SB4 (drop_bit 16 t) XOR sbox SB2 (drop_bit 24 t)
     XOR sbox SB7 u XOR sbox SB5 (drop_bit 8 u) XOR sbox SB3 (drop_bit 16 u) XOR sbox SB1 (drop_bit 24 u))"

definition round_xy :: "u32 list \<Rightarrow> nat \<Rightarrow> u32 \<times> u32 \<Rightarrow> u32 \<times> u32" where
  "round_xy SK i = (\<lambda>(x, y). (x, y XOR des_round SK x i))"

definition round_yx :: "u32 list \<Rightarrow> nat \<Rightarrow> u32 \<times> u32 \<Rightarrow> u32 \<times> u32" where
  "round_yx SK i = (\<lambda>(x, y). (x XOR des_round SK y i, y))"

section \<open>Keys\<close>

definition parity_byte :: "u8 \<Rightarrow> u8" where
  "parity_byte b = (if (DESParityTable ! unat (drop_bit 4 b) + DESParityTable ! unat (b AND 0x0F)) mod 2 = 0 then b XOR 1 else b)"

definition mbedtls_des_key_set_parity :: "u8 list \<Rightarrow> u8 list" where
  "mbedtls_des_key_set_parity key = map parity_byte key"

definition pc1_left :: "u32 \<Rightarrow> u32" where
  "pc1_left x = (push_bit 3 (LHs ! unat (x AND 0xF)) OR push_bit 2 (LHs ! unat (drop_bit 8 x AND 0xF))
     OR push_bit 1 (LHs ! unat (drop_bit 16 x AND 0xF)) OR LHs ! unat (drop_bit 24 x AND 0xF)
     OR push_bit 7 (LHs ! unat (drop_bit 5 x AND 0xF)) OR push_bit 6 (LHs ! unat (drop_bit 13 x AND 0xF))
     OR push_bit 5 (LHs ! unat (drop_bit 21 x AND 0xF)) OR push_bit 4 (LHs ! unat (drop_bit 29 x AND 0xF))) AND 0x0FFFFFFF"

definition pc1_right :: "u32 \<Rightarrow> u32" where
  "pc1_right y = (push_bit 3 (RHs ! unat (drop_bit 1 y AND 0xF)) OR push_bit 2 (RHs ! unat (drop_bit 9 y AND 0xF))
     OR push_bit 1 (RHs ! unat (drop_bit 17 y AND 0xF)) OR RHs ! unat (drop_bit 25 y AND 0xF)
     OR push_bit 7 (RHs ! unat (drop_bit 4 y AND 0xF)) OR push_bit 6 (RHs ! unat (drop_bit 12 y AND 0xF))
     OR push_bit 5 (RHs ! unat (drop_bit 20 y AND 0xF)) OR push_bit 4 (RHs ! unat (drop_bit 28 y AND 0xF))) AND 0x0FFFFFFF"

definition key_rotate :: "nat \<Rightarrow> u32 \<Rightarrow> u32" where
  "key_rotate i v = (if i < 2 \<or> i = 8 \<or> i = 15 then (push_bit 1 v OR drop_bit 27 v) AND 0x0FFFFFFF
     else (push_bit 2 v OR drop_bit 26 v) AND 0x0FFFFFFF)"

definition subkey_even :: "u32 \<Rightarrow> u32 \<Rightarrow> u32" where
  "subkey_even x y = (push_bit 4 x AND 0x24000000) OR (push_bit 28 x AND 0x10000000) OR (push_bit 14 x AND 0x08000000)
     OR (push_bit 18 x AND 0x02080000) OR (push_bit 6 x AND 0x01000000) OR (push_bit 9 x AND 0x00200000)
     OR (drop_bit 1 x AND 0x00100000) OR (push_bit 10 x AND 0x00040000) OR (push_bit 2 x AND 0x00020000)
     OR (drop_bit 10 x AND 0x00010000) OR (drop_bit 13 y AND 0x00002000) OR (drop_bit 4 y AND 0x00001000)
     OR (push_bit 6 y AND 0x00000800) OR (drop_bit 1 y AND 0x00000400) OR (drop_bit 14 y AND 0x00000200)
     OR (y AND 0x00000100) OR (drop_bit 5 y AND 0x00000020) OR (drop_bit 10 y AND 0x00000010)
     OR (drop_bit 3 y AND 0x00000008) OR (drop_bit 18 y AND 0x00000004) OR (drop_bit 26 y AND 0x00000002)
     OR (drop_bit 24 y AND 0x00000001)"

definition subkey_odd :: "u32 \<Rightarrow> u32 \<Rightarrow> u32" where
  "subkey_odd x y = (push_bit 15 x AND 0x20000000) OR (push_bit 17 x AND 0x10000000) OR (push_bit 10 x AND 0x08000000)
     OR (push_bit 22 x AND 0x04000000) OR (drop_bit 2 x AND 0x02000000) OR (push_bit 1 x AND 0x01000000)
     OR (push_bit 16 x AND 0x00200000) OR (push_bit 11 x AND 0x00100000) OR (push_bit 3 x AND 0x00080000)
     OR (drop_bit 6 x AND 0x00040000) OR (push_bit 15 x AND 0x00020000) OR (drop_bit 4 x AND 0x00010000)
     OR (drop_bit 2 y AND 0x00002000) OR (push_bit 8 y AND 0x00001000) OR (drop_bit 14 y AND 0x00000808)
     OR (drop_bit 9 y AND 0x00000400) OR (y AND 0x00000200) OR (push_bit 7 y AND 0x00000100)
     OR (drop_bit 7 y AND 0x00000020) OR (drop_bit 3 y AND 0x00000011) OR (push_bit 2 y AND 0x00000004)
     OR (drop_bit 21 y AND 0x00000002)"

fun subkeys :: "nat list \<Rightarrow> u32 \<Rightarrow> u32 \<Rightarrow> u32 list" where
  "subkeys [] x y = []"
| "subkeys (i # is) x y = (let x' = key_rotate i x; y' = key_rotate i y in subkey_even x' y' # subkey_odd x' y' # subkeys is x' y')"

definition mbedtls_des_setkey :: "u8 list \<Rightarrow> u32 list" where
  "mbedtls_des_setkey key = (let (y, x) = delta_swap 4 0x0F0F0F0F (GET_UINT32_BE key 4, GET_UINT32_BE key 0);
     t = (y XOR x) AND 0x10101010
   in subkeys [0..<16] (pc1_left (x XOR t)) (pc1_right (y XOR t)))"

definition mbedtls_des3_set3key_enc :: "u8 list \<Rightarrow> u32 list" where
  "mbedtls_des3_set3key_enc key = mbedtls_des_setkey (take 8 key) @ mbedtls_des_setkey (take 8 (drop 8 key)) @ mbedtls_des_setkey (take 8 (drop 16 key))"

section \<open>One block\<close>

text \<open>The loops over the schedule, upwards and downwards by four words.\<close>

definition rounds_up :: "u32 list \<Rightarrow> nat list \<Rightarrow> u32 \<times> u32 \<Rightarrow> u32 \<times> u32" where
  "rounds_up SK = fold (\<lambda>i p. round_xy SK (i + 2) (round_yx SK i p))"

definition rounds_down :: "u32 list \<Rightarrow> nat list \<Rightarrow> u32 \<times> u32 \<Rightarrow> u32 \<times> u32" where
  "rounds_down SK = fold (\<lambda>i p. round_xy SK (i - 2) (round_yx SK i p))"

text \<open>The second key of triple DES, where the macro's arguments are exchanged.\<close>

definition swapped_down :: "u32 list \<Rightarrow> nat list \<Rightarrow> u32 \<times> u32 \<Rightarrow> u32 \<times> u32" where
  "swapped_down SK = fold (\<lambda>i p. round_yx SK (i - 2) (round_xy SK i p))"

definition swapped_up :: "u32 list \<Rightarrow> nat list \<Rightarrow> u32 \<times> u32 \<Rightarrow> u32 \<times> u32" where
  "swapped_up SK = fold (\<lambda>i p. round_yx SK (i + 2) (round_xy SK i p))"

text \<open>Reading, the permutations and writing, which the three functions share.\<close>

definition crypt_block :: "(u32 \<times> u32 \<Rightarrow> u32 \<times> u32) \<Rightarrow> u8 list \<Rightarrow> u8 list" where
  "crypt_block rounds input = (let (x, y) = rounds (des_ip (GET_UINT32_BE input 0, GET_UINT32_BE input 4)); (y, x) = des_fp (y, x)
     in PUT_UINT32_BE y @ PUT_UINT32_BE x)"

definition mbedtls_des_crypt_ecb :: "u32 list \<Rightarrow> u32 \<Rightarrow> u8 list \<Rightarrow> u8 list" where
  "mbedtls_des_crypt_ecb SK encrypt = crypt_block (if encrypt = 1 then rounds_up SK [0, 4, 8, 12, 16, 20, 24, 28]
     else rounds_down SK [30, 26, 22, 18, 14, 10, 6, 2])"

definition mbedtls_des3_encrypt_ecb :: "u32 list \<Rightarrow> u8 list \<Rightarrow> u8 list" where
  "mbedtls_des3_encrypt_ecb SK = crypt_block (\<lambda>p. rounds_up SK [64, 68, 72, 76, 80, 84, 88, 92]
     (swapped_down SK [62, 58, 54, 50, 46, 42, 38, 34] (rounds_up SK [0, 4, 8, 12, 16, 20, 24, 28] p)))"

definition mbedtls_des3_decrypt_ecb :: "u32 list \<Rightarrow> u8 list \<Rightarrow> u8 list" where
  "mbedtls_des3_decrypt_ecb SK = crypt_block (\<lambda>p. rounds_down SK [30, 26, 22, 18, 14, 10, 6, 2]
     (swapped_up SK [32, 36, 40, 44, 48, 52, 56, 60] (rounds_down SK [94, 90, 86, 82, 78, 74, 70, 66] p)))"

definition mbedtls_des3_crypt_ecb :: "u32 list \<Rightarrow> u32 \<Rightarrow> u8 list \<Rightarrow> u8 list" where
  "mbedtls_des3_crypt_ecb SK encrypt = (if encrypt = 1 then mbedtls_des3_encrypt_ecb SK else mbedtls_des3_decrypt_ecb SK)"

section \<open>Chained blocks\<close>

text \<open>The two loops, over a block function; the result is the output and the vector for the next call. Output and input may
  be the same buffer: a block is read before it is written.\<close>

fun cbc_encrypt :: "(u8 list \<Rightarrow> u8 list) \<Rightarrow> nat \<Rightarrow> u8 list \<Rightarrow> u8 list \<Rightarrow> u8 list \<times> u8 list" where
  "cbc_encrypt crypt 0 iv input = ([], iv)"
| "cbc_encrypt crypt (Suc n) iv input = (let out = crypt (map2 (XOR) (take 8 input) iv); (rest, iv') = cbc_encrypt crypt n out (drop 8 input)
     in (out @ rest, iv'))"

fun cbc_decrypt :: "(u8 list \<Rightarrow> u8 list) \<Rightarrow> nat \<Rightarrow> u8 list \<Rightarrow> u8 list \<Rightarrow> u8 list \<times> u8 list" where
  "cbc_decrypt crypt 0 iv input = ([], iv)"
| "cbc_decrypt crypt (Suc n) iv input = (let out = map2 (XOR) (crypt (take 8 input)) iv; (rest, iv') = cbc_decrypt crypt n (take 8 input) (drop 8 input)
     in (out @ rest, iv'))"

abbreviation (input) MBEDTLS_ERR_DES_INVALID_INPUT_LENGTH :: int where
  "MBEDTLS_ERR_DES_INVALID_INPUT_LENGTH \<equiv> -0x32"

text \<open>The state is the vector; the length is rounded up to blocks, which reads past the end of the input.\<close>

definition crypt_cbc :: "(u8 list \<Rightarrow> u8 list) \<Rightarrow> (u8 list \<Rightarrow> u8 list) \<Rightarrow> u32 \<Rightarrow> nat \<Rightarrow> u8 list \<Rightarrow> (int \<times> u8 list, u8 list) run" where
  "crypt_cbc enc dec mode len input iv = (let n = (len + 7) div 8 in
     if length input < 8 * n then Inl OutOfBounds else
     let (out, iv') = (if mode = 1 then cbc_encrypt enc n iv input else cbc_decrypt dec n iv input)
     in Inr ((if len mod 8 \<noteq> 0 then MBEDTLS_ERR_DES_INVALID_INPUT_LENGTH else 0, out), iv'))"

definition mbedtls_des_crypt_cbc :: "u32 list \<Rightarrow> u32 \<Rightarrow> nat \<Rightarrow> u8 list \<Rightarrow> (int \<times> u8 list, u8 list) run" where
  "mbedtls_des_crypt_cbc SK = crypt_cbc (mbedtls_des_crypt_ecb SK 1) (mbedtls_des_crypt_ecb SK 0)"

definition mbedtls_des3_crypt_cbc :: "u32 list \<Rightarrow> u32 \<Rightarrow> nat \<Rightarrow> u8 list \<Rightarrow> (int \<times> u8 list, u8 list) run" where
  "mbedtls_des3_crypt_cbc SK = crypt_cbc (mbedtls_des3_encrypt_ecb SK) (mbedtls_des3_decrypt_ecb SK)"

section \<open>Inverses\<close>

lemma delta_swap_twice:
  assumes "\<And>v :: u32. drop_bit k (push_bit k (v AND m)) = v AND m"
  shows "delta_swap k m (delta_swap k m p) = p"
proof -
  obtain a b where p: "p = (a, b)" by (cases p)
  define t where "t = (drop_bit k a XOR b) AND m"
  have "drop_bit k (push_bit k t) = t" unfolding t_def by (rule assms)
  then have e: "(drop_bit k (a XOR push_bit k t) XOR (b XOR t)) = (drop_bit k a XOR b)"
    by (simp add: drop_bit_xor ac_simps)
  have 1: "delta_swap k m p = (a XOR push_bit k t, b XOR t)" unfolding delta_swap_def p prod.case Let_def t_def ..
  have 2: "delta_swap k m (a XOR push_bit k t, b XOR t) = ((a XOR push_bit k t) XOR push_bit k t, (b XOR t) XOR t)"
    unfolding delta_swap_def prod.case Let_def e t_def [symmetric] ..
  show ?thesis unfolding 1 2 unfolding p by (simp only: xor.assoc xor_self_eq xor.right_neutral)
qed

lemma masked_shift:
  assumes "take_bit (32 - k) m = m"
  shows "drop_bit k (push_bit k (v AND m)) = v AND (m :: u32)"
proof (rule bit_word_eqI)
  fix n assume "n < LENGTH(32)"
  have "n < 32 - k" if "bit m n" using that assms by (metis bit_take_bit_iff)
  then show "bit (drop_bit k (push_bit k (v AND m))) n \<longleftrightarrow> bit (v AND m) n"
    using \<open>n < LENGTH(32)\<close> by (auto simp: bit_simps)
qed

lemma delta_swaps [simp]:
  "delta_swap 4 0x0F0F0F0F (delta_swap 4 0x0F0F0F0F p) = p" "delta_swap 16 0x0000FFFF (delta_swap 16 0x0000FFFF p) = p"
  "delta_swap 2 0x33333333 (delta_swap 2 0x33333333 p) = p" "delta_swap 8 0x00FF00FF (delta_swap 8 0x00FF00FF p) = p"
  by (rule delta_swap_twice, rule masked_shift, simp)+

lemma exchange_twice [simp]: "exchange m (exchange m p) = p"
proof -
  have "(x XOR t) XOR (y XOR t) = x XOR y" for x y t :: u32 by (simp add: ac_simps)
  then show ?thesis by (simp add: exchange_def case_prod_beta Let_def xor.assoc)
qed

lemma bit_rotate: "n < 32 \<Longrightarrow> bit (rotate_left v) n \<longleftrightarrow> bit v (if n = 0 then 31 else n - 1)"
  "n < 32 \<Longrightarrow> bit (rotate_right v) n \<longleftrightarrow> bit v (if n = 31 then 0 else n + 1)"
  unfolding rotate_left_def rotate_right_def bit_or_iff bit_push_bit_iff bit_drop_bit_eq
  using bit_imp_le_length [of v "31 + n"] bit_imp_le_length [of v "1 + n"] by auto

lemma rotations [simp]: "rotate_right (rotate_left v) = v" "rotate_left (rotate_right v) = v"
proof -
  show "rotate_right (rotate_left v) = v" by (rule bit_word_eqI) (simp add: bit_rotate)
  have "bit (rotate_left (rotate_right v)) n = bit v n" if "n < 32" for n using that by (cases n) (auto simp: bit_rotate)
  then show "rotate_left (rotate_right v) = v" by (intro bit_word_eqI) simp
qed

lemma fp_ip [simp]: "des_fp (des_ip p) = p"
proof -
  obtain x1 y1 where 1: "delta_swap 16 0x0000FFFF (delta_swap 4 0x0F0F0F0F p) = (x1, y1)" by fastforce
  obtain y2 x2 where 2: "delta_swap 8 0x00FF00FF (delta_swap 2 0x33333333 (y1, x1)) = (y2, x2)" by fastforce
  obtain x3 y3 where 3: "exchange 0xAAAAAAAA (x2, rotate_left y2) = (x3, y3)" by fastforce
  have "delta_swap 4 0x0F0F0F0F (delta_swap 16 0x0000FFFF (x1, y1)) = p" "delta_swap 2 0x33333333 (delta_swap 8 0x00FF00FF (y2, x2)) = (y1, x1)"
    "exchange 0xAAAAAAAA (x3, y3) = (x2, rotate_left y2)"
    unfolding 1 [symmetric] 2 [symmetric] 3 [symmetric] by simp_all
  then show ?thesis by (simp add: des_ip_def des_fp_def 1 2 3)
qed

lemma ip_fp [simp]: "des_ip (des_fp p) = p"
proof -
  obtain x y where p: "p = (x, y)" by fastforce
  obtain x1 y1 where 1: "exchange 0xAAAAAAAA (rotate_right x, y) = (x1, y1)" by fastforce
  obtain y2 x2 where 2: "delta_swap 2 0x33333333 (delta_swap 8 0x00FF00FF (rotate_right y1, x1)) = (y2, x2)" by fastforce
  have "exchange 0xAAAAAAAA (x1, y1) = (rotate_right x, y)" "delta_swap 8 0x00FF00FF (delta_swap 2 0x33333333 (y2, x2)) = (rotate_right y1, x1)"
    unfolding 1 [symmetric] 2 [symmetric] by simp_all
  then show ?thesis by (simp add: des_ip_def des_fp_def p 1 2)
qed

lemma rounds_twice [simp]: "round_xy SK i (round_xy SK i p) = p" "round_yx SK i (round_yx SK i p) = p"
  by (cases p, simp add: round_xy_def round_yx_def xor.assoc)+

lemma rounds_swap [simp]:
  "round_xy SK i (prod.swap p) = prod.swap (round_yx SK i p)" "round_yx SK i (prod.swap p) = prod.swap (round_xy SK i p)"
  by (cases p, simp add: round_xy_def round_yx_def)+

lemmas round_loops = rounds_up_def rounds_down_def swapped_up_def swapped_down_def

text \<open>Decryption runs on the exchanged pair, because the words are written in the other order than they are read.\<close>

lemma des_rounds: "rounds_down SK [30, 26, 22, 18, 14, 10, 6, 2] (prod.swap (rounds_up SK [0, 4, 8, 12, 16, 20, 24, 28] p)) = prod.swap p"
  by (simp add: round_loops numeral_2_eq_2)

lemma des3_rounds:
  "rounds_down SK [30, 26, 22, 18, 14, 10, 6, 2] (swapped_up SK [32, 36, 40, 44, 48, 52, 56, 60] (rounds_down SK [94, 90, 86, 82, 78, 74, 70, 66]
     (prod.swap (rounds_up SK [64, 68, 72, 76, 80, 84, 88, 92] (swapped_down SK [62, 58, 54, 50, 46, 42, 38, 34]
       (rounds_up SK [0, 4, 8, 12, 16, 20, 24, 28] p)))))) = prod.swap p"
  by (simp add: round_loops numeral_2_eq_2)

lemma word_bytes:
  fixes a b c d :: u8
  defines "w \<equiv> push_bit 24 (ucast a) OR push_bit 16 (ucast b) OR push_bit 8 (ucast c) OR ucast d :: u32"
  shows "ucast (drop_bit 24 w) = a" and "ucast (drop_bit 16 w) = b" and "ucast (drop_bit 8 w) = c" and "ucast w = d"
  unfolding w_def by (rule bit_word_eqI, auto simp: bit_simps u8_high)+

lemma bytes_word:
  "push_bit 24 (ucast (ucast (drop_bit 24 v) :: u8)) OR push_bit 16 (ucast (ucast (drop_bit 16 v) :: u8))
     OR push_bit 8 (ucast (ucast (drop_bit 8 v) :: u8)) OR ucast (ucast v :: u8) = (v :: u32)"
proof (rule bit_word_eqI)
  fix n assume "n < LENGTH(32)"
  then have "n < 32" by simp
  then consider "n < 8" | "8 \<le> n" "n < 16" | "16 \<le> n" "n < 24" | "24 \<le> n" "n < 32" by linarith
  then show "bit (push_bit 24 (ucast (ucast (drop_bit 24 v) :: u8)) OR push_bit 16 (ucast (ucast (drop_bit 16 v) :: u8))
     OR push_bit 8 (ucast (ucast (drop_bit 8 v) :: u8)) OR ucast (ucast v :: u8) :: u32) n \<longleftrightarrow> bit (v :: u32) n"
    by cases (auto simp: bit_simps)
qed

lemma bytes_words [simp]:
  "GET_UINT32_BE (PUT_UINT32_BE v @ bs) 0 = v" "GET_UINT32_BE (PUT_UINT32_BE v @ PUT_UINT32_BE w) 4 = w"
  by (simp_all add: GET_UINT32_BE_def PUT_UINT32_BE_def bytes_word)

lemma words_bytes: "length bs = 8 \<Longrightarrow> PUT_UINT32_BE (GET_UINT32_BE bs 0) @ PUT_UINT32_BE (GET_UINT32_BE bs 4) = bs"
proof -
  assume "length bs = 8"
  then obtain b0 b1 b2 b3 b4 b5 b6 b7 where "bs = [b0, b1, b2, b3, b4, b5, b6, b7]"
    by (auto simp: eval_nat_numeral length_Suc_conv)
  then show ?thesis by (simp add: GET_UINT32_BE_def PUT_UINT32_BE_def word_bytes del: drop_bit_or)
qed

lemma length_crypt_block [simp]: "length (crypt_block f b) = 8"
  by (simp add: crypt_block_def PUT_UINT32_BE_def case_prod_beta Let_def)

lemma crypt_block_inverse:
  assumes "length b = 8" and "\<And>p. g (prod.swap (f p)) = prod.swap p"
  shows "crypt_block g (crypt_block f b) = b"
proof -
  define p where "p = (GET_UINT32_BE b 0, GET_UINT32_BE b 4)"
  obtain a c where ip: "des_ip p = (a, c)" by fastforce
  obtain x y where f: "f (a, c) = (x, y)" by fastforce
  obtain y' x' where fp: "des_fp (y, x) = (y', x')" by fastforce
  have e: "crypt_block f b = PUT_UINT32_BE y' @ PUT_UINT32_BE x'"
    by (simp add: crypt_block_def p_def [symmetric] ip f fp)
  have g: "g (y, x) = (c, a)" using assms(2) [of "(a, c)"] f by simp
  have inv: "des_ip (y', x') = (y, x)" "des_fp (a, c) = p" unfolding fp [symmetric] ip [symmetric] by simp_all
  have "crypt_block g (crypt_block f b) = PUT_UINT32_BE (fst p) @ PUT_UINT32_BE (snd p)"
    unfolding e by (simp add: crypt_block_def inv g Let_def case_prod_beta)
  then show ?thesis using words_bytes [OF assms(1)] by (simp add: p_def)
qed

lemma des_ecb_inverse: "length b = 8 \<Longrightarrow> mbedtls_des_crypt_ecb SK 0 (mbedtls_des_crypt_ecb SK 1 b) = b"
  unfolding mbedtls_des_crypt_ecb_def by (rule crypt_block_inverse) (simp_all add: des_rounds)

lemma des3_ecb_inverse: "length b = 8 \<Longrightarrow> mbedtls_des3_decrypt_ecb SK (mbedtls_des3_encrypt_ecb SK b) = b"
  unfolding mbedtls_des3_encrypt_ecb_def mbedtls_des3_decrypt_ecb_def by (rule crypt_block_inverse) (simp_all add: des3_rounds)

section \<open>Chains\<close>

lemma xor_xor: "length iv = 8 \<Longrightarrow> length b = 8 \<Longrightarrow> map2 (XOR) (map2 (XOR) b iv) iv = (b :: u8 list)"
  by (simp add: list_eq_iff_nth_eq xor.assoc)

lemma cbc_inverse:
  assumes "\<And>b. length b = 8 \<Longrightarrow> dec (enc b) = b" and "\<And>b. length (enc b) = 8"
  shows "length input = 8 * n \<Longrightarrow> length iv = 8 \<Longrightarrow>
    cbc_decrypt dec n iv (fst (cbc_encrypt enc n iv input)) = (input, snd (cbc_encrypt enc n iv input)) \<and>
    length (fst (cbc_encrypt enc n iv input)) = 8 * n"
proof (induction n arbitrary: iv input)
  case (Suc n)
  define out where "out = enc (map2 (XOR) (take 8 input) iv)"
  have out: "length out = 8" "map2 (XOR) (dec out) iv = take 8 input"
    using Suc.prems assms by (simp_all add: out_def xor_xor)
  obtain rest iv' where rest: "cbc_encrypt enc n out (drop 8 input) = (rest, iv')" by fastforce
  then show ?case
    using Suc.IH [of "drop 8 input" out] Suc.prems out by (simp add: out_def [symmetric] Let_def)
qed simp

section \<open>Properties\<close>

definition cbc_call :: "bool \<Rightarrow> u32 list \<Rightarrow> u32 \<Rightarrow> nat \<Rightarrow> u8 list \<Rightarrow> (int \<times> u8 list, u8 list) run" where
  "cbc_call triple SK = (if triple then mbedtls_des3_crypt_cbc SK else mbedtls_des_crypt_cbc SK)"



end
