(* ===== verification/Xc_DesKey.thy ===== *)
theory Xc_DesKey
  imports Xc_Des
begin

text \<open>
  The parity bits of DES keys: what \<open>mbedtls_des_key_set_parity\<close> does to a key, and that the key schedule
  does not read the bits it changes.
\<close>

definition set_bits :: "u8 \<Rightarrow> nat" where "set_bits b = length (filter (bit b) [0..<8])"

lemma parity_table: "n < 16 \<Longrightarrow> DESParityTable ! n = of_bool (bit n 0) + of_bool (bit n 1) + of_bool (bit n 2) + of_bool (bit n 3)"
proof -
  have "\<forall>n \<in> set [0..<16]. DESParityTable ! n = of_bool (bit n 0) + of_bool (bit n 1) + of_bool (bit n 2) + of_bool (bit n 3)"
    by code_simp
  then show "n < 16 \<Longrightarrow> ?thesis" by simp
qed

lemma set_bits_sum: "set_bits b = of_bool (bit b 0) + of_bool (bit b 1) + of_bool (bit b 2) + of_bool (bit b 3)
    + of_bool (bit b 4) + of_bool (bit b 5) + of_bool (bit b 6) + of_bool (bit b 7)"
proof -
  have c: "length (filter P xs) = sum_list (map (\<lambda>k. of_bool (P k)) xs)" for P and xs :: "nat list" by (induction xs) simp_all
  have u: "[0..<8] = [0, 1, 2, 3, 4, 5, 6, 7 :: nat]" by code_simp
  show ?thesis unfolding set_bits_def c u by simp
qed

lemma set_bits_nibbles: "set_bits b = DESParityTable ! unat (drop_bit 4 b) + DESParityTable ! unat (b AND 0x0F)"
proof -
  have "unat (drop_bit 4 b) < 16" "unat (b AND 0x0F) < 16"
  proof -
    have "unat b < 256" by (rule order_less_le_trans [OF unsigned_less]) simp
    then show "unat (drop_bit 4 b) < 16" unfolding unat_drop_bit_eq by (simp add: drop_bit_eq_div)
    have "b AND 0x0F = take_bit 4 b" by (simp add: take_bit_eq_mask mask_eq_exp_minus_1)
    then have "unat (b AND 0x0F) = take_bit 4 (unat b)" by (simp only: unsigned_take_bit_eq)
    then show "unat (b AND 0x0F) < 16" by (simp add: take_bit_eq_mod)
  qed
  then show ?thesis
    unfolding set_bits_sum by (simp add: parity_table bit_unsigned_iff bit_simps)
qed

lemma set_bits_flip: "odd (set_bits (b XOR 1)) \<longleftrightarrow> even (set_bits b)"
  by (simp add: set_bits_def upt_rec bit_simps)

lemma parity_byte_odd: "odd (set_bits (parity_byte b))"
  unfolding parity_byte_def set_bits_nibbles [symmetric] even_iff_mod_2_eq_zero [symmetric] by (simp add: set_bits_flip)

lemma parity_byte_keeps: "drop_bit 1 (parity_byte b) = drop_bit 1 b"
  by (rule bit_word_eqI) (simp add: parity_byte_def bit_simps)


text \<open>The bits that the two halves of the first permutation read.\<close>

definition key_halves :: "u32 \<Rightarrow> u32 \<Rightarrow> u32 \<times> u32" where
  "key_halves x y = exchange 0x10101010 (delta_swap 4 0x0F0F0F0F (y, x))"

lemma eq_32: "list_all (\<lambda>n. bit v n = bit w n) [0..<32] \<Longrightarrow> v = (w :: u32)"
  by (rule bit_word_eqI) (simp add: list_all_iff)

lemma key_halves_masked:
  "fst (key_halves x y) AND 0xFEFEFEFE = fst (key_halves (x AND 0xFEFEFEFE) (y AND 0xFEFEFEFE)) AND 0xFEFEFEFE"
  "snd (key_halves x y) AND 0xEFEFEFEF = snd (key_halves (x AND 0xFEFEFEFE) (y AND 0xFEFEFEFE)) AND 0xEFEFEFEF"
  by (rule eq_32, simp add: key_halves_def exchange_def delta_swap_def Let_def upt_rec bit_simps, argo)+

lemma nibble_mask:
  assumes "\<And>n. n \<in> {0, 1, 2, 3} \<Longrightarrow> k + n < 32 \<Longrightarrow> bit m (k + n)"
  shows "drop_bit k (x AND m) AND 0xF = drop_bit k x AND (0xF :: u32)"
proof (rule bit_word_eqI)
  fix n assume "n < LENGTH(32)"
  have "bit (0xF :: u32) n \<longleftrightarrow> n < 4" using bit_mask_iff [of 4 n, where ?'a = "32 word"] \<open>n < LENGTH(32)\<close> by (simp add: mask_eq_exp_minus_1)
  moreover have "n = 0 \<or> n = 1 \<or> n = 2 \<or> n = 3" if "n < 4" using that by auto
  ultimately show "bit (drop_bit k (x AND m) AND 0xF) n \<longleftrightarrow> bit (drop_bit k x AND (0xF :: u32)) n"
    using assms [of n] bit_imp_le_length [of x "k + n"] by (auto simp: bit_simps)
qed

lemma pc1_left_mask: "pc1_left (x AND 0xEFEFEFEF) = pc1_left x"
proof -
  have "drop_bit k (x AND 0xEFEFEFEF) AND 0xF = drop_bit k x AND (0xF :: u32)" if "k \<in> {0, 8, 16, 24, 5, 13, 21, 29}" for k
    by (rule nibble_mask) (use that in \<open>elim insertE emptyE; simp\<close>)
  from this [of 0] this [of 8] this [of 16] this [of 24] this [of 5] this [of 13] this [of 21] this [of 29]
  show ?thesis unfolding pc1_left_def by simp
qed

lemma pc1_right_mask: "pc1_right (x AND 0xFEFEFEFE) = pc1_right x"
proof -
  have "drop_bit k (x AND 0xFEFEFEFE) AND 0xF = drop_bit k x AND (0xF :: u32)" if "k \<in> {1, 9, 17, 25, 4, 12, 20, 28}" for k
    by (rule nibble_mask) (use that in \<open>elim insertE emptyE; simp\<close>)
  from this [of 1] this [of 9] this [of 17] this [of 25] this [of 4] this [of 12] this [of 20] this [of 28]
  show ?thesis unfolding pc1_right_def by simp
qed

lemma setkey_halves: "mbedtls_des_setkey key = (let (y, x) = key_halves (GET_UINT32_BE key 0) (GET_UINT32_BE key 4)
   in subkeys [0..<16] (pc1_left x) (pc1_right y))"
  by (simp add: mbedtls_des_setkey_def key_halves_def exchange_def case_prod_beta Let_def del: upt_Suc)

lemma setkey_masked:
  assumes "GET_UINT32_BE key 0 AND 0xFEFEFEFE = GET_UINT32_BE key' 0 AND 0xFEFEFEFE"
    and "GET_UINT32_BE key 4 AND 0xFEFEFEFE = GET_UINT32_BE key' 4 AND 0xFEFEFEFE"
  shows "mbedtls_des_setkey key = mbedtls_des_setkey key'"
proof -
  define h where "h k = key_halves (GET_UINT32_BE k 0) (GET_UINT32_BE k 4)" for k
  have "fst (h key) AND 0xFEFEFEFE = fst (h key') AND 0xFEFEFEFE" "snd (h key) AND 0xEFEFEFEF = snd (h key') AND 0xEFEFEFEF"
    unfolding h_def key_halves_masked [of "GET_UINT32_BE key 0"] key_halves_masked [of "GET_UINT32_BE key' 0"] assms by simp_all
  then have "pc1_right (fst (h key)) = pc1_right (fst (h key'))" "pc1_left (snd (h key)) = pc1_left (snd (h key'))"
    by (metis pc1_right_mask, metis pc1_left_mask)
  then show ?thesis unfolding setkey_halves h_def [symmetric] by (simp add: case_prod_beta del: upt_Suc)
qed

lemma four_bytes:
  fixes a b c d a' b' c' d' :: u8
  assumes "drop_bit 1 a = drop_bit 1 a'" and "drop_bit 1 b = drop_bit 1 b'" and "drop_bit 1 c = drop_bit 1 c'" and "drop_bit 1 d = drop_bit 1 d'"
  shows "(push_bit 24 (ucast a) OR push_bit 16 (ucast b) OR push_bit 8 (ucast c) OR ucast d) AND 0xFEFEFEFE
    = (push_bit 24 (ucast a') OR push_bit 16 (ucast b') OR push_bit 8 (ucast c') OR ucast d') AND (0xFEFEFEFE :: u32)"
proof -
  have "bit v n = bit w n" if "drop_bit 1 v = drop_bit 1 w" "0 < n" for v w :: u8 and n
    using arg_cong [OF that(1), of "\<lambda>v. bit v (n - 1)"] that(2) by (simp add: bit_drop_bit_eq del: One_nat_def)
  note e = this [OF assms(1)] this [OF assms(2)] this [OF assms(3)] this [OF assms(4)]
  show ?thesis by (rule eq_32) (simp add: upt_rec bit_simps e)
qed

lemma word_without_low_bits:
  assumes "\<And>i. i < 4 \<Longrightarrow> drop_bit 1 (b ! (k + i)) = drop_bit 1 (c ! (k + i))"
  shows "GET_UINT32_BE b k AND 0xFEFEFEFE = GET_UINT32_BE c k AND 0xFEFEFEFE"
  unfolding GET_UINT32_BE_def using assms [of 0] assms [of 1] assms [of 2] assms [of 3] by (intro four_bytes) simp_all

text \<open>Setting the parity of a key gives every byte an odd number of bits, changes nothing but the lowest bits, and has no
  influence on the key schedule.\<close>

theorem des_key_parity:
  assumes "length key = 8"
  shows "(\<forall>b\<in>set (mbedtls_des_key_set_parity key). odd (set_bits b))
    \<and> map (drop_bit 1) (mbedtls_des_key_set_parity key) = map (drop_bit 1) key
    \<and> mbedtls_des_setkey (mbedtls_des_key_set_parity key) = mbedtls_des_setkey key"
proof (intro conjI)
  show "\<forall>b\<in>set (mbedtls_des_key_set_parity key). odd (set_bits b)" by (simp add: mbedtls_des_key_set_parity_def parity_byte_odd)
  show "map (drop_bit 1) (mbedtls_des_key_set_parity key) = map (drop_bit 1) key" by (simp add: mbedtls_des_key_set_parity_def parity_byte_keeps del: One_nat_def)
  show "mbedtls_des_setkey (mbedtls_des_key_set_parity key) = mbedtls_des_setkey key"
    by (rule setkey_masked; rule word_without_low_bits) (use assms in \<open>simp_all add: mbedtls_des_key_set_parity_def parity_byte_keeps del: One_nat_def\<close>)
qed

theorem des_key_parity_witness: "mbedtls_des_setkey (mbedtls_des_key_set_parity [0, 1, 2, 3, 4, 5, 6, 7]) = mbedtls_des_setkey [0, 1, 2, 3, 4, 5, 6, 7]"
  using des_key_parity [of "[0, 1, 2, 3, 4, 5, 6, 7]"] by simp

end
