(* ===== verification/Xc_Rsa.thy ===== *)
theory Xc_Rsa
  imports Cxbx_Prelude
begin

unbundle bit_operations_syntax

text \<open>
  The parts of \<open>src/common/crypto/EmuRsa.cpp\<close> that do not call the big number library: the change of
  byte order and the check of a decrypted signature. The decrypted buffer is a byte list; reading past
  its end is \<open>OutOfBounds\<close>.
\<close>

section \<open>Byte order\<close>

text \<open>The number of leading zero bytes, and the loop that fills the 32-bit words of the output.\<close>

definition leading_zeros :: "u8 list \<Rightarrow> nat" where
  "leading_zeros bs = length (takeWhile (\<lambda>b. b = 0) bs)"

fun swap_loop :: "u8 list \<Rightarrow> nat \<Rightarrow> nat \<Rightarrow> u32 list \<Rightarrow> u32 list" where
  "swap_loop bs 0 j out = out"
| "swap_loop bs (Suc k) j out = swap_loop bs k (Suc j)
     (out[j div 4 := out ! (j div 4) OR push_bit (8 * (j mod 4)) (ucast (bs ! (length bs - 1 - j)))])"

definition word_bytes_le :: "u32 \<Rightarrow> u8 list" where
  "word_bytes_le v = [ucast v, ucast (drop_bit 8 v), ucast (drop_bit 16 v), ucast (drop_bit 24 v)]"

definition mbedtls_swap_endianness :: "u8 list \<Rightarrow> u8 list" where
  "mbedtls_swap_endianness bs = concat (map word_bytes_le
     (swap_loop bs (length bs - leading_zeros bs) 0 (replicate (length bs div 4) 0)))"

section \<open>Signatures\<close>

definition RSApkcs1paddingtable :: "u8 list list" where
  "RSApkcs1paddingtable =
    [[0x0F, 0x14, 0x04, 0x00, 0x05, 0x1A, 0x02, 0x03, 0x0E, 0x2B, 0x05, 0x06, 0x09, 0x30, 0x21, 0x30],
     [0x0D, 0x14, 0x04, 0x1A, 0x02, 0x03, 0x0E, 0x2B, 0x05, 0x06, 0x07, 0x30, 0x1F, 0x30, 0x00, 0x00],
     [0x00, 0x00, 0x00, 0x00, 0x00, 0x00, 0x00, 0x00, 0x00, 0x00, 0x00, 0x00, 0x00, 0x00, 0x00, 0x00]]"

text \<open>\<open>zero_position\<close>: the rows are tried up to the one that starts with zero; the first byte of a row is the number of bytes compared.\<close>

fun find_padding :: "u8 list list \<Rightarrow> u8 list \<Rightarrow> nat" where
  "find_padding [] buf = 20"
| "find_padding (row # rows) buf = (let n = unat (hd row) in
     if hd row = 0 then 20 else if take n (tl row) = take n (drop 20 buf) then n + 20 else find_padding rows buf)"

definition rd_byte :: "u8 list \<Rightarrow> nat \<Rightarrow> (u8, 's) run" where
  "rd_byte buf i = (if i < length buf then ret (buf ! i) else fail OutOfBounds)"

fun all_ff :: "nat \<Rightarrow> nat \<Rightarrow> u8 list \<Rightarrow> (bool, 's) run" where
  "all_ff 0 i buf = ret True"
| "all_ff (Suc k) i buf = bnd (rd_byte buf i) (\<lambda>b. if b \<noteq> 0xFF then ret False else all_ff k (Suc i) buf)"

definition verify_hash :: "u8 list \<Rightarrow> u8 list \<Rightarrow> u32 \<Rightarrow> (bool, 's) run" where
  "verify_hash hash buf ModulusSize = (if length buf < 35 then fail OutOfBounds else
     if take 20 buf \<noteq> rev (take 20 hash) then ret False else
     let z = find_padding RSApkcs1paddingtable buf in
     bnd (rd_byte buf z) (\<lambda>b. if b \<noteq> 0 then ret False else
     bnd (rd_byte buf (unat ModulusSize)) (\<lambda>b. if b \<noteq> 0 then ret False else
     bnd (rd_byte buf (unat (ModulusSize - 1))) (\<lambda>b. if b \<noteq> 1 then ret False else
     all_ff (unat (ModulusSize - 1) - (z + 1)) (z + 1) buf))))"

section \<open>The byte order is reversed\<close>

definition swapped :: "u8 list \<Rightarrow> nat \<Rightarrow> u32 list \<Rightarrow> bool" where
  "swapped bs j out \<longleftrightarrow> length out = length bs div 4 \<and> (\<forall>w<length out. \<forall>b<32. bit (out ! w) b \<longleftrightarrow>
     4 * w + b div 8 < j \<and> bit (bs ! (length bs - 1 - (4 * w + b div 8))) (b mod 8))"

lemma swapped_next:
  assumes "swapped bs j out" and "j < length bs" and "4 dvd length bs"
  shows "swapped bs (Suc j) (out[j div 4 := out ! (j div 4) OR push_bit (8 * (j mod 4)) (ucast (bs ! (length bs - 1 - j)))])"
proof -
  have l: "length out = length bs div 4" "j div 4 < length out" using assms by (auto simp: swapped_def elim!: dvdE)
  have "bit (out ! (j div 4) OR push_bit (8 * (j mod 4)) (ucast (bs ! (length bs - 1 - j)))) b \<longleftrightarrow>
      4 * (j div 4) + b div 8 < Suc j \<and> bit (bs ! (length bs - 1 - (4 * (j div 4) + b div 8))) (b mod 8)" if b: "b < 32" for b
  proof -
    have j: "4 * (j div 4) + j mod 4 = j" "j mod 4 < 4" by simp_all
    have o: "bit (out ! (j div 4)) b \<longleftrightarrow> 4 * (j div 4) + b div 8 < j \<and> bit (bs ! (length bs - 1 - (4 * (j div 4) + b div 8))) (b mod 8)"
      using assms(1) l b by (simp add: swapped_def)
    have p: "bit (push_bit (8 * (j mod 4)) (ucast (bs ! (length bs - 1 - j))) :: u32) b \<longleftrightarrow> b div 8 = j mod 4 \<and> bit (bs ! (length bs - 1 - j)) (b mod 8)"
    proof (cases "b div 8 = j mod 4")
      case True
      then have "b = 8 * (j mod 4) + b mod 8" by (metis mult_div_mod_eq)
      then have "8 * (j mod 4) \<le> b" "b - 8 * (j mod 4) = b mod 8" by linarith+
      then show ?thesis using True b by (auto simp: bit_simps)
    next
      case False
      have "\<not> bit (bs ! (length bs - 1 - j)) (b - 8 * (j mod 4))" if "8 * (j mod 4) \<le> b"
      proof -
        have "8 \<le> b - 8 * (j mod 4)" using False that by (cases "b < 8 * (j mod 4) + 8") (auto simp: div_nat_eqI)
        then show ?thesis using bit_imp_le_length [of "bs ! (length bs - 1 - j)" "b - 8 * (j mod 4)"] by auto
      qed
      then show ?thesis using False by (auto simp: bit_simps)
    qed
    have "4 * (j div 4) + b div 8 < Suc j \<longleftrightarrow> 4 * (j div 4) + b div 8 < j \<or> b div 8 = j mod 4" using j by linarith
    moreover have "4 * (j div 4) + b div 8 = j" if "b div 8 = j mod 4" using that j by simp
    ultimately show ?thesis unfolding bit_or_iff o p by auto
  qed
  moreover have "4 * w + k < Suc j \<longleftrightarrow> 4 * w + k < j" if "w \<noteq> j div 4" "k < 4" for w k
    using that by (cases "4 * w + k = j") (auto simp: div_nat_eqI)
  ultimately show ?thesis using assms(1) l by (auto simp: swapped_def nth_list_update)
qed

lemma swap_loop_swapped:
  "swapped bs j out \<Longrightarrow> j + k \<le> length bs \<Longrightarrow> 4 dvd length bs \<Longrightarrow> swapped bs (j + k) (swap_loop bs k j out)"
proof (induction k arbitrary: j out)
  case (Suc k)
  from Suc.IH [OF swapped_next [OF Suc.prems(1)]] Suc.prems show ?case by simp
qed simp

lemma word_bytes_nth: "k < 4 \<Longrightarrow> word_bytes_le v ! k = ucast (drop_bit (8 * k) v)"
proof -
  assume "k < 4"
  then have "k = 0 \<or> k = 1 \<or> k = 2 \<or> k = 3" by auto
  then show ?thesis by (elim disjE) (simp_all add: word_bytes_le_def)
qed

lemma length_word_bytes [simp]: "length (concat (map word_bytes_le ws)) = 4 * length ws"
  by (induction ws) (simp_all add: word_bytes_le_def)

lemma concat_bytes_nth: "i < 4 * length ws \<Longrightarrow> concat (map word_bytes_le ws) ! i = ucast (drop_bit (8 * (i mod 4)) (ws ! (i div 4)))"
proof (induction ws arbitrary: i)
  case (Cons w ws)
  have l: "length (word_bytes_le w) = 4" by (simp add: word_bytes_le_def)
  show ?case
  proof (cases "i < 4")
    case True
    then show ?thesis by (simp add: nth_append l word_bytes_nth)
  next
    case False
    then obtain k where "i = k + 4" by (metis add.commute le_Suc_ex not_less)
    moreover have "(k + 4) div 4 = Suc (k div 4)" for k :: nat by simp
    ultimately show ?thesis using Cons by (simp add: nth_append l del: div_add_self2)
  qed
qed simp

lemma leading_zero_nth: "i < leading_zeros bs \<Longrightarrow> bs ! i = 0"
  using nth_mem [of i "takeWhile (\<lambda>b. b = 0) bs"] by (auto simp: leading_zeros_def takeWhile_nth dest: set_takeWhileD)

lemma swap_endianness_rev:
  assumes "4 dvd length bs"
  shows "mbedtls_swap_endianness bs = rev bs"
proof -
  define n where "n = length bs - leading_zeros bs"
  define out where "out = swap_loop bs n 0 (replicate (length bs div 4) 0)"
  have "swapped bs 0 (replicate (length bs div 4) 0)" by (simp add: swapped_def)
  from swap_loop_swapped [OF this, of n] assms have sw: "swapped bs n out" by (simp add: out_def n_def)
  then have l: "4 * length out = length bs" using assms by (simp add: swapped_def)
  have "concat (map word_bytes_le out) ! i = bs ! (length bs - 1 - i)" if i: "i < length bs" for i
  proof (rule bit_word_eqI)
    fix b assume "b < LENGTH(8)"
    then have b: "b < 8" by simp
    have d: "(8 * (i mod 4) + b) div 8 = i mod 4" "(8 * (i mod 4) + b) mod 8 = b" using b by simp_all
    have k: "i mod 4 < 4" by simp
    then have m: "8 * (i mod 4) + b < 32" using b by linarith
    have w: "i div 4 < length out" using i l by (simp add: div_less_iff_less_mult mult.commute)
    have "bit (concat (map word_bytes_le out) ! i) b \<longleftrightarrow> bit (out ! (i div 4)) (8 * (i mod 4) + b)"
      using b i l by (simp add: concat_bytes_nth bit_simps)
    also have "\<dots> \<longleftrightarrow> i < n \<and> bit (bs ! (length bs - 1 - i)) b"
      using sw w m unfolding swapped_def by (simp add: d b mult_div_mod_eq)
    also have "\<dots> \<longleftrightarrow> bit (bs ! (length bs - 1 - i)) b"
      using leading_zero_nth [of "length bs - 1 - i" bs] i by (cases "i < n") (auto simp: n_def)
    finally show "bit (concat (map word_bytes_le out) ! i) b \<longleftrightarrow> bit (bs ! (length bs - 1 - i)) b" .
  qed
  then show ?thesis
    unfolding mbedtls_swap_endianness_def n_def [symmetric] out_def [symmetric]
    by (intro nth_equalityI) (simp_all add: l rev_nth)
qed

section \<open>Accepted signatures\<close>

lemma all_ff_iff:
  "i + k \<le> length buf \<Longrightarrow> all_ff k i buf s = Inr (take k (drop i buf) = replicate k 0xFF, s)"
proof (induction k arbitrary: i)
  case (Suc k)
  then have "drop i buf = buf ! i # drop (Suc i) buf" by (intro Cons_nth_drop_Suc [symmetric]) simp
  then show ?case using Suc by (simp add: rd_byte_def run_simps)
qed (simp add: run_simps)

lemma split_signature:
  assumes "length buf = 256" and "n \<le> 20"
  shows "buf = take 20 buf @ take n (drop 20 buf) @ buf ! (20 + n) # take (233 - n) (drop (21 + n) buf) @ [buf ! 254, buf ! 255]"
proof -
  have step: "drop i buf = buf ! i # drop (Suc i) buf" if "i < 256" for i
    using that assms(1) by (intro Cons_nth_drop_Suc [symmetric]) simp
  have "drop 254 buf = [buf ! 254, buf ! 255]" using step [of 254] step [of 255] assms(1) by simp
  moreover have "drop (233 - n) (drop (21 + n) buf) = drop 254 buf" using assms(2) by simp
  ultimately have "drop (21 + n) buf = take (233 - n) (drop (21 + n) buf) @ [buf ! 254, buf ! 255]"
    by (metis append_take_drop_id)
  moreover have "drop (20 + n) buf = buf ! (20 + n) # drop (21 + n) buf" using step [of "20 + n"] assms(2) by simp
  moreover have "buf = take 20 buf @ take n (drop 20 buf) @ drop n (drop 20 buf)" by (metis append_take_drop_id)
  moreover have "drop n (drop 20 buf) = drop (20 + n) buf" by (simp add: add.commute)
  ultimately show ?thesis by metis
qed

lemma signature_iff:
  assumes "length buf = 256" and "length h = 20" and "length ident = n" and "n \<le> 20"
  shows "buf = h @ ident @ 0 # replicate (233 - n) 0xFF @ [1, 0] \<longleftrightarrow> take 20 buf = h \<and> take n (drop 20 buf) = ident
    \<and> buf ! (20 + n) = 0 \<and> take (233 - n) (drop (21 + n) buf) = replicate (233 - n) 0xFF \<and> buf ! 254 = 1 \<and> buf ! 255 = 0"
  by (subst split_signature [OF assms(1,4)]) (use assms in \<open>simp add: append_eq_append_conv\<close>)

lemma verify_hash_run:
  assumes "length hash = 20" and "length buf = 256" and "find_padding RSApkcs1paddingtable buf = 20 + n" and "n \<le> 20"
  shows "verify_hash hash buf 255 s = Inr (take 20 buf = rev hash \<and> buf ! (20 + n) = 0 \<and> buf ! 255 = 0 \<and> buf ! 254 = 1
    \<and> take (233 - n) (drop (21 + n) buf) = replicate (233 - n) 0xFF, s)"
  using assms(1,2,4) all_ff_iff [of "21 + n" "233 - n" buf s]
  by (simp add: verify_hash_def assms(3) rd_byte_def run_simps Let_def)

section \<open>Properties\<close>

text \<open>C31: A decrypted buffer is accepted exactly if it is the reversed hash, one of the two algorithm identifiers or none, a zero, bytes
  255, a one and a zero; a buffer of 256 bytes is never read past its end.\<close>

theorem rsa_verify_hash:
  assumes "length hash = 20" and "length buf = 256"
  shows "\<exists>ok. verify_hash hash buf 255 s = Inr (ok, s) \<and>
    (ok \<longleftrightarrow> (\<exists>ident\<in>{[], [0x14, 0x04, 0x00, 0x05, 0x1A, 0x02, 0x03, 0x0E, 0x2B, 0x05, 0x06, 0x09, 0x30, 0x21, 0x30],
        [0x14, 0x04, 0x1A, 0x02, 0x03, 0x0E, 0x2B, 0x05, 0x06, 0x07, 0x30, 0x1F, 0x30]}.
      buf = rev hash @ ident @ 0 # replicate (233 - length ident) 0xFF @ [1, 0]))"
proof -
  define id1 id2 :: "u8 list" where "id1 = [0x14, 0x04, 0x00, 0x05, 0x1A, 0x02, 0x03, 0x0E, 0x2B, 0x05, 0x06, 0x09, 0x30, 0x21, 0x30]"
    and "id2 = [0x14, 0x04, 0x1A, 0x02, 0x03, 0x0E, 0x2B, 0x05, 0x06, 0x07, 0x30, 0x1F, 0x30]"
  have l: "length id1 = 15" "length id2 = 13" "length (rev hash) = 20" using assms(1) by (simp_all add: id1_def id2_def)
  note shape = signature_iff [OF assms(2) l(3)]
  have find: "find_padding RSApkcs1paddingtable buf = 20 + (if take 15 (drop 20 buf) = id1 then 15 else if take 13 (drop 20 buf) = id2 then 13 else 0)"
    by (simp add: RSApkcs1paddingtable_def id1_def id2_def Let_def)
  have first: "buf ! 20 = 0x14" if "take 15 (drop 20 buf) = id1 \<or> take 13 (drop 20 buf) = id2"
  proof -
    have "drop 20 buf = buf ! 20 # drop 21 buf" using assms(2) Cons_nth_drop_Suc [of 20 buf] by simp
    then show ?thesis using that by (auto simp: id1_def id2_def)
  qed
  have third: "take 13 (drop 20 buf) \<noteq> id2" if "take 15 (drop 20 buf) = id1"
  proof -
    have "take 13 (drop 20 buf) = take 13 id1" unfolding that [symmetric] by simp
    then show ?thesis by (simp add: id1_def id2_def)
  qed
  define R where "R ident \<longleftrightarrow> buf = rev hash @ ident @ 0 # replicate (233 - length ident) 0xFF @ [1, 0]" for ident
  define V where "V n \<longleftrightarrow> take 20 buf = rev hash \<and> buf ! (20 + n) = 0 \<and> buf ! 255 = 0 \<and> buf ! 254 = 1
    \<and> take (233 - n) (drop (21 + n) buf) = replicate (233 - n) 0xFF" for n
  define n where "n = (if take 15 (drop 20 buf) = id1 then 15 else if take 13 (drop 20 buf) = id2 then 13 else 0 :: nat)"
  have R: "R id1 \<longleftrightarrow> V 15 \<and> take 15 (drop 20 buf) = id1" "R id2 \<longleftrightarrow> V 13 \<and> take 13 (drop 20 buf) = id2" "R [] \<longleftrightarrow> V 0"
    using shape [of id1 15] shape [of id2 13] shape [of "[]" 0] l(1,2) unfolding R_def V_def by auto
  have "V n \<longleftrightarrow> R [] \<or> R id1 \<or> R id2"
  proof (cases "n = 0")
    case True
    then show ?thesis unfolding R by (auto simp: n_def split: if_splits)
  next
    case False
    then have "\<not> V 0" using first by (auto simp: n_def V_def split: if_splits)
    with False show ?thesis unfolding R using third by (auto simp: n_def split: if_splits)
  qed
  moreover have "verify_hash hash buf 255 s = Inr (V n, s)"
    unfolding V_def by (rule verify_hash_run [OF assms]) (use find in \<open>simp_all add: n_def\<close>)
  ultimately show ?thesis unfolding id1_def [symmetric] id2_def [symmetric] R_def by auto
qed

theorem rsa_verify_hash_witness:
  "verify_hash (replicate 20 7) (replicate 20 7 @ 0 # replicate 233 0xFF @ [1, 0]) 255 () = Inr (True, ())"
proof -
  have "\<exists>ok. verify_hash (replicate 20 7) (replicate 20 7 @ 0 # replicate 233 0xFF @ [1, 0]) 255 () = Inr (ok, ()) \<and> ok"
    using rsa_verify_hash [of "replicate 20 7" "replicate 20 7 @ 0 # replicate 233 0xFF @ [1, 0]" "()"] by simp
  then show ?thesis by auto
qed

end
