(* ===== verification/Xc_Kernel.thy ===== *)
theory Xc_Kernel
  imports Xc_Rc4 Xc_Sha Xc_Des
begin

text \<open>
  The crypto exports of the kernel (\<open>src/core/kernel/exports/EmuKrnlXc.cpp\<close>): the default functions over
  the ciphers, and the table of functions that a title can replace.

  A function pointer is a 32-bit word, zero is the null pointer. An export calls the pointer of its
  entry; \<open>crypto_entry\<close> names the entries in the order of the table. The public key functions only log.
\<close>

section \<open>The table\<close>

datatype crypto_entry = SHAInit | SHAUpdate | SHAFinal | RC4Key | RC4Crypt | HMAC | PKEncPublic | PKDecPrivate | PKGetKeyLen
  | VerifyPKCS1Signature | ModExp | DESKeyParity | KeyTable | BlockCrypt | BlockCryptCBC | CryptService

type_synonym crypto_vector = "crypto_entry \<Rightarrow> u32"

record crypto_state =
  DefaultCryptoStruct :: crypto_vector
  UpdatedCryptoStruct :: crypto_vector

text \<open>The argument tells whether the title passed a buffer for the original table; the result is what it gets.\<close>

definition XcUpdateCrypto :: "crypto_vector \<Rightarrow> bool \<Rightarrow> (crypto_vector option, crypto_state) run" where
  "XcUpdateCrypto new rom = bnd (modify (\<lambda>s. s\<lparr>UpdatedCryptoStruct := \<lambda>e. if new e \<noteq> 0 then new e else UpdatedCryptoStruct s e\<rparr>)) (\<lambda>_.
     get (\<lambda>s. if rom then Some (DefaultCryptoStruct s) else None))"

text \<open>The function that an export runs.\<close>

definition xc_target :: "crypto_entry \<Rightarrow> (u32, crypto_state) run" where
  "xc_target e = get (\<lambda>s. UpdatedCryptoStruct s e)"

section \<open>The default functions\<close>

definition JumpedRC4Key :: "u8 list \<Rightarrow> (unit, Rc4Context) run" where
  "JumpedRC4Key key = Rc4Initialise key 0"

definition JumpedRC4Crypt :: "u8 list \<Rightarrow> (u8 list, Rc4Context) run" where
  "JumpedRC4Crypt input = (\<lambda>c. Inr (Rc4Xor input c))"

definition JumpedDESKeyParity :: "u8 list \<Rightarrow> u8 list" where
  "JumpedDESKeyParity key = mbedtls_des_key_set_parity key"

text \<open>Two-key triple DES: the third key is the first.\<close>

definition JumpedKeyTable :: "u32 \<Rightarrow> u8 list \<Rightarrow> u32 list" where
  "JumpedKeyTable cipher key = (if cipher \<noteq> 0 then mbedtls_des3_set3key_enc (take 16 key @ take 8 key) else mbedtls_des_setkey key)"

definition JumpedBlockCrypt :: "u32 \<Rightarrow> u8 list \<Rightarrow> u32 list \<Rightarrow> u32 \<Rightarrow> u8 list" where
  "JumpedBlockCrypt cipher input table op = (if cipher \<noteq> 0 then mbedtls_des3_crypt_ecb table op input else mbedtls_des_crypt_ecb table op input)"

text \<open>The result of the library is only logged; the state is the feedback vector.\<close>

definition JumpedBlockCryptCBC :: "u32 \<Rightarrow> nat \<Rightarrow> u8 list \<Rightarrow> u32 list \<Rightarrow> u32 \<Rightarrow> (u8 list, u8 list) run" where
  "JumpedBlockCryptCBC cipher len input table op =
     bnd (if cipher \<noteq> 0 then mbedtls_des3_crypt_cbc table op len input else mbedtls_des_crypt_cbc table op len input) (\<lambda>(r, out). ret out)"

definition JumpedCryptService :: "u32 \<Rightarrow> u32" where
  "JumpedCryptService op = 0"

section \<open>Triple DES with one key\<close>

lemma length_subkeys: "length (subkeys is x y) = 2 * length is"
  by (induction "is" arbitrary: x y) (simp_all add: Let_def)

lemma length_setkey: "length (mbedtls_des_setkey key) = 32"
  by (simp add: mbedtls_des_setkey_def case_prod_beta Let_def length_subkeys)

lemma des_round_cong: "a ! i = b ! j \<Longrightarrow> a ! (i + 1) = b ! (j + 1) \<Longrightarrow> des_round a x i = des_round b x j"
  by (simp add: des_round_def)

lemma rounds_cong:
  assumes "a ! i = b ! j" and "a ! (i + 1) = b ! (j + 1)"
  shows "round_xy a i = round_xy b j" and "round_yx a i = round_yx b j"
  using des_round_cong [OF assms] by (auto simp: round_xy_def round_yx_def fun_eq_iff)

text \<open>Three copies of one schedule.\<close>

lemma copies_rounds:
  assumes "length s = 32" and "j < 31" and "k < 3"
  shows "round_xy (s @ s @ s) (32 * k + j) = round_xy s j" and "round_yx (s @ s @ s) (32 * k + j) = round_yx s j"
proof -
  have "(s @ s @ s) ! (32 * k + i) = s ! i" if "i < 32" for i
  proof -
    have "k = 0 \<or> k = 1 \<or> k = 2" using assms(3) by auto
    then show ?thesis using assms(1) that by (elim disjE) (simp_all add: nth_append)
  qed
  from this [of j] this [of "j + 1"] assms(2)
  show "round_xy (s @ s @ s) (32 * k + j) = round_xy s j" and "round_yx (s @ s @ s) (32 * k + j) = round_yx s j"
    by (intro rounds_cong; simp)+
qed

lemma copies_mod:
  assumes "length s = 32" and "n < 96" and "n mod 32 < 31"
  shows "round_xy (s @ s @ s) n = round_xy s (n mod 32)" and "round_yx (s @ s @ s) n = round_yx s (n mod 32)"
  using copies_rounds [OF assms(1,3), of "n div 32"] assms(2) by (simp_all add: div_less_iff_less_mult)

lemma copies_loops:
  assumes "length s = 32"
  shows "rounds_up (s @ s @ s) [0, 4, 8, 12, 16, 20, 24, 28] p = rounds_up s [0, 4, 8, 12, 16, 20, 24, 28] p"
    and "rounds_up (s @ s @ s) [64, 68, 72, 76, 80, 84, 88, 92] p = rounds_up s [0, 4, 8, 12, 16, 20, 24, 28] p"
    and "swapped_down (s @ s @ s) [62, 58, 54, 50, 46, 42, 38, 34] p = swapped_down s [30, 26, 22, 18, 14, 10, 6, 2] p"
    and "rounds_down (s @ s @ s) [94, 90, 86, 82, 78, 74, 70, 66] p = rounds_down s [30, 26, 22, 18, 14, 10, 6, 2] p"
    and "swapped_up (s @ s @ s) [32, 36, 40, 44, 48, 52, 56, 60] p = swapped_up s [0, 4, 8, 12, 16, 20, 24, 28] p"
    and "rounds_down (s @ s @ s) [30, 26, 22, 18, 14, 10, 6, 2] p = rounds_down s [30, 26, 22, 18, 14, 10, 6, 2] p"
  by (simp_all add: round_loops copies_mod [OF assms] numeral_2_eq_2 [symmetric])

lemma loops_cancel:
  "swapped_down s [30, 26, 22, 18, 14, 10, 6, 2] (rounds_up s [0, 4, 8, 12, 16, 20, 24, 28] p) = p"
  "swapped_up s [0, 4, 8, 12, 16, 20, 24, 28] (rounds_down s [30, 26, 22, 18, 14, 10, 6, 2] p) = p"
  by (simp_all add: round_loops numeral_2_eq_2)

lemma des3_copies:
  assumes "length s = 32"
  shows "mbedtls_des3_crypt_ecb (s @ s @ s) op b = mbedtls_des_crypt_ecb s op b"
  unfolding mbedtls_des3_crypt_ecb_def mbedtls_des_crypt_ecb_def mbedtls_des3_encrypt_ecb_def mbedtls_des3_decrypt_ecb_def
    copies_loops [OF assms] loops_cancel by simp

section \<open>Properties\<close>

text \<open>C32: A block decrypts to itself with the table of any key, for DES and for triple DES, and triple DES with two equal keys is DES.\<close>

theorem xc_block_crypt:
  assumes "length block = 8"
  shows "JumpedBlockCrypt cipher (JumpedBlockCrypt cipher block (JumpedKeyTable cipher key) 1) (JumpedKeyTable cipher key) 0 = block
    \<and> (length k = 8 \<longrightarrow> JumpedBlockCrypt 1 block (JumpedKeyTable 1 (k @ k)) op = JumpedBlockCrypt 0 block (JumpedKeyTable 0 k) op)"
proof (intro conjI impI)
  show "JumpedBlockCrypt cipher (JumpedBlockCrypt cipher block (JumpedKeyTable cipher key) 1) (JumpedKeyTable cipher key) 0 = block"
    using assms by (simp add: JumpedBlockCrypt_def mbedtls_des3_crypt_ecb_def des3_ecb_inverse des_ecb_inverse)
  assume "length k = 8"
  then have "JumpedKeyTable 1 (k @ k) = (let s = mbedtls_des_setkey k in s @ s @ s)"
    by (simp add: JumpedKeyTable_def mbedtls_des3_set3key_enc_def Let_def)
  then show "JumpedBlockCrypt 1 block (JumpedKeyTable 1 (k @ k)) op = JumpedBlockCrypt 0 block (JumpedKeyTable 0 k) op"
    by (simp add: JumpedBlockCrypt_def JumpedKeyTable_def Let_def des3_copies length_setkey)
qed

theorem xc_block_crypt_witness:
  "JumpedBlockCrypt 1 [1, 2, 3, 4, 5, 6, 7, 8] (JumpedKeyTable 1 (replicate 8 5 @ replicate 8 5)) 1
     = JumpedBlockCrypt 0 [1, 2, 3, 4, 5, 6, 7, 8] (JumpedKeyTable 0 (replicate 8 5)) 1"
  using xc_block_crypt [of "[1, 2, 3, 4, 5, 6, 7, 8]" 0 "[]" "replicate 8 5" 1] by simp

text \<open>Whatever tables a title installs, the original one is what it gets back, and a null pointer keeps the function that was there.\<close>

lemma xc_update:
  "XcUpdateCrypto new rom s = Inr (if rom then Some (DefaultCryptoStruct s) else None, t)
    \<Longrightarrow> DefaultCryptoStruct t = DefaultCryptoStruct s
      \<and> xc_target e t = Inr (if new e = 0 then UpdatedCryptoStruct s e else new e, t)"
  by (auto simp: XcUpdateCrypto_def xc_target_def run_simps)

end
