(* ===== verification/Cxbx_Loops.thy ===== *)
theory Cxbx_Loops
  imports Cxbx_Prelude
begin

text \<open>
  Operations with loops that need not end: a \<open>run\<close> whose outcome is \<open>None\<close> when the code never
  returns. \<open>lift\<close> embeds the operations that always do, \<open>obnd\<close> is sequencing. Loops over linked
  lists are \<open>partial_function (option)\<close>; that they return is proved where it is claimed.
\<close>

type_synonym ('a, 's) orun = "'s \<Rightarrow> (fault + 'a \<times> 's) option"

definition lift :: "('a, 's) run \<Rightarrow> ('a, 's) orun" where
  "lift m s = Some (m s)"

definition oret :: "'a \<Rightarrow> ('a, 's) orun" where
  "oret a s = Some (Inr (a, s))"

definition ofail :: "fault \<Rightarrow> ('a, 's) orun" where
  "ofail e s = Some (Inl e)"

definition obnd :: "('a, 's) orun \<Rightarrow> ('a \<Rightarrow> ('b, 's) orun) \<Rightarrow> ('b, 's) orun" where
  "obnd m k s = (case m s of None \<Rightarrow> None | Some (Inl e) \<Rightarrow> Some (Inl e) | Some (Inr (a, t)) \<Rightarrow> k a t)"

lemma obnd_mono [partial_function_mono]:
  assumes "mono_option (\<lambda>f. m f s)" and "\<And>a t. mono_option (\<lambda>f. k f a t)"
  shows "mono_option (\<lambda>f. obnd (m f) (\<lambda>a. k f a) s)"
proof (rule monotoneI)
  fix f g :: "'a \<Rightarrow> 'b option"
  assume fg: "fun_ord option_ord f g"
  have m: "option_ord (m f s) (m g s)" using assms(1) fg by (simp add: monotone_def)
  have k: "option_ord (k f a t) (k g a t)" for a t using assms(2) fg by (simp add: monotone_def)
  show "option_ord (obnd (m f) (k f) s) (obnd (m g) (k g) s)"
  proof (cases "m f s")
    case (Some r)
    with m have "m g s = Some r" by (simp add: flat_ord_def)
    with Some k show ?thesis by (cases r) (auto simp: obnd_def flat_ord_def)
  qed (simp add: obnd_def flat_ord_def)
qed

lemma if_apply_mono [partial_function_mono]:
  assumes "mono_option (\<lambda>f. m f t)" and "mono_option (\<lambda>f. n f t)"
  shows "mono_option (\<lambda>f. (if c then m f else n f) t)"
  using assms by (cases c) simp_all

lemma oret_apply [simp]: "oret a s = Some (Inr (a, s))"
  by (simp add: oret_def)

lemma ofail_apply [simp]: "ofail e s = Some (Inl e)"
  by (simp add: ofail_def)

lemma obnd_step: "m s = Some (Inr (a, t)) \<Longrightarrow> obnd m k s = k a t"
  by (simp add: obnd_def)

lemma obnd_lift_step: "m s = Inr (a, t) \<Longrightarrow> obnd (lift m) k s = k a t"
  by (simp add: obnd_def lift_def)

lemma obnd_get [simp]: "obnd (lift (get f)) k s = k (f s) s"
  by (simp add: obnd_def lift_def)

lemma obnd_modify [simp]: "obnd (lift (modify f)) k s = k () (f s)"
  by (simp add: obnd_def lift_def)

lemma obnd_ret [simp]: "obnd (lift (ret a)) k s = k a s" "obnd (oret a) k s = k a s"
  by (simp_all add: obnd_def lift_def)

lemma lift_apply: "lift m s = Some (m s)"
  by (simp add: lift_def)

lemma lift_simps [simp]: "lift (modify f) s = Some (Inr ((), f s))" "lift (ret a) s = Some (Inr (a, s))"
  "lift (get g) s = Some (Inr (g s, s))" "lift (fail e) s = Some (Inl e)"
  by (simp_all add: lift_def)

lemma obnd_fail [simp]: "obnd (lift (fail e)) k s = Some (Inl e)" "obnd (ofail e) k s = Some (Inl e)"
  by (simp_all add: obnd_def lift_def)

lemma obnd_if: "obnd (if c then m else n) k s = (if c then obnd m k s else obnd n k s)"
  by simp

lemma obnd_eq_SomeE:
  assumes "obnd m k s = Some (Inr (b, u))"
  obtains a t where "m s = Some (Inr (a, t))" and "k a t = Some (Inr (b, u))"
  using assms by (auto simp: obnd_def split: option.splits sum.splits)

end
