(* ===== verification/Ke_List.thy ===== *)
theory Ke_List
  imports Cxbx_Prelude
begin

text \<open>
  The intrusive doubly linked lists of the kernel (\<open>LIST_ENTRY\<close>, \<open>src/core/kernel/exports/EmuKrnl.cpp\<close>).

  A node is a \<open>LIST_ENTRY\<close> inside a kernel structure, named by the structure it is in; the two
  pointers of every node are a pair of functions, the part \<open>links\<close> of the kernel state. A dereference
  of the null pointer is the fault \<open>BadPointer\<close>. \<open>ring\<close> relates the pointers to the list of entries
  between a head and itself, and every operation is shown to be the list operation it implements.

  Dispatcher objects are the guest's own (\<open>Object\<close>) or the timer inside a \<open>KTHREAD\<close> (\<open>ThreadTimer\<close>);
  wait blocks are the one on the stack of \<open>KeWaitForSingleObject\<close>, the elements of the array of
  \<open>KeWaitForMultipleObjects\<close>, and the thread's \<open>TimerWaitBlock\<close>.
\<close>

datatype obj = Object nat | ThreadTimer nat

datatype block = NoBlock | StackBlock nat | ArrayBlock nat nat | TimerBlock nat

datatype node = Null
  | WaitHead obj | WaitEntry block | TimerHead nat | TimerEntry obj | TempHead nat
  | DpcHead | DpcEntry nat | DeviceHead nat | DeviceEntry nat | MutantHead nat | MutantEntry obj

record links =
  Flink :: "node \<Rightarrow> node"
  Blink :: "node \<Rightarrow> node"

definition set_Flink :: "node \<Rightarrow> node \<Rightarrow> (unit, 'a links_scheme) run" where
  "set_Flink p v s = (if p = Null then Inl BadPointer else Inr ((), s\<lparr>Flink := (Flink s)(p := v)\<rparr>))"

definition set_Blink :: "node \<Rightarrow> node \<Rightarrow> (unit, 'a links_scheme) run" where
  "set_Blink p v s = (if p = Null then Inl BadPointer else Inr ((), s\<lparr>Blink := (Blink s)(p := v)\<rparr>))"

definition get_Flink :: "node \<Rightarrow> (node, 'a links_scheme) run" where
  "get_Flink p s = (if p = Null then Inl BadPointer else Inr (Flink s p, s))"

definition get_Blink :: "node \<Rightarrow> (node, 'a links_scheme) run" where
  "get_Blink p s = (if p = Null then Inl BadPointer else Inr (Blink s p, s))"

lemmas link_run [run_simps] = set_Flink_def set_Blink_def get_Flink_def get_Blink_def

section \<open>Operations\<close>

definition InitializeListHead :: "node \<Rightarrow> (unit, 'a links_scheme) run" where
  "InitializeListHead h = bnd (set_Blink h h) (\<lambda>_. set_Flink h h)"

definition IsListEmpty :: "node \<Rightarrow> (bool, 'a links_scheme) run" where
  "IsListEmpty h = bnd (get_Flink h) (\<lambda>f. ret (f = h))"

definition InsertHeadList :: "node \<Rightarrow> node \<Rightarrow> (unit, 'a links_scheme) run" where
  "InsertHeadList h e = bnd (get_Flink h) (\<lambda>f.
     bnd (set_Flink e f) (\<lambda>_. bnd (set_Blink e h) (\<lambda>_. bnd (set_Blink f e) (\<lambda>_. set_Flink h e))))"

definition InsertTailList :: "node \<Rightarrow> node \<Rightarrow> (unit, 'a links_scheme) run" where
  "InsertTailList h e = bnd (get_Blink h) (\<lambda>b.
     bnd (set_Flink e h) (\<lambda>_. bnd (set_Blink e b) (\<lambda>_. bnd (set_Flink b e) (\<lambda>_. set_Blink h e))))"

text \<open>The result tells whether both neighbours are the same node; a detached node reports \<open>False\<close>.\<close>

definition RemoveEntryList :: "node \<Rightarrow> (bool, 'a links_scheme) run" where
  "RemoveEntryList e = bnd (get_Flink e) (\<lambda>f. bnd (get_Blink e) (\<lambda>b.
     bnd (if b \<noteq> Null then set_Flink b f else ret ()) (\<lambda>_.
     bnd (if f \<noteq> Null then set_Blink f b else ret ()) (\<lambda>_.
     ret (b \<noteq> Null \<and> f \<noteq> Null \<and> f = b)))))"

definition RemoveHeadList :: "node \<Rightarrow> (node, 'a links_scheme) run" where
  "RemoveHeadList h = bnd (get_Flink h) (\<lambda>e. bnd (RemoveEntryList e) (\<lambda>_. ret e))"

definition RemoveTailList :: "node \<Rightarrow> (node, 'a links_scheme) run" where
  "RemoveTailList h = bnd (get_Blink h) (\<lambda>e. bnd (RemoveEntryList e) (\<lambda>_. ret e))"

section \<open>Rings\<close>

primrec path :: "(node \<Rightarrow> node) \<Rightarrow> (node \<Rightarrow> node) \<Rightarrow> node \<Rightarrow> node list \<Rightarrow> node \<Rightarrow> bool" where
  "path f b x [] y \<longleftrightarrow> f x = y \<and> b y = x"
| "path f b x (z # zs) y \<longleftrightarrow> f x = z \<and> b z = x \<and> path f b z zs y"

definition ring :: "'a links_scheme \<Rightarrow> node \<Rightarrow> node list \<Rightarrow> bool" where
  "ring s h xs \<longleftrightarrow> path (Flink s) (Blink s) h xs h \<and> distinct (h # xs) \<and> Null \<notin> set (h # xs)"

lemma path_append: "path f b x (xs @ z # ys) y \<longleftrightarrow> path f b x xs z \<and> path f b z ys y"
  by (induction xs arbitrary: x) auto

lemma path_Flink_other: "u \<notin> set (x # xs) \<Longrightarrow> path (f(u := v)) b x xs y \<longleftrightarrow> path f b x xs y"
  by (induction xs arbitrary: x) auto

lemma path_Blink_other: "u \<notin> set xs \<Longrightarrow> u \<noteq> y \<Longrightarrow> path f (b(u := v)) x xs y \<longleftrightarrow> path f b x xs y"
  by (induction xs arbitrary: x) auto

lemma ring_Flink_head: "ring s h xs \<Longrightarrow> Flink s h = (case xs of [] \<Rightarrow> h | x # _ \<Rightarrow> x)"
  by (cases xs) (auto simp: ring_def)

lemma path_Blink_end: "path f b x xs y \<Longrightarrow> b y = last (x # xs)"
  by (induction xs arbitrary: x) auto

lemma ring_Blink_head: "ring s h xs \<Longrightarrow> Blink s h = last (h # xs)"
  using path_Blink_end by (fastforce simp: ring_def)

lemma ring_nodes: "ring s h xs \<Longrightarrow> h \<noteq> Null \<and> Null \<notin> set xs \<and> distinct xs \<and> h \<notin> set xs"
  by (auto simp: ring_def)

lemma path_cong:
  assumes "path f b x xs y" and "\<And>n. n \<in> set (x # xs) \<Longrightarrow> f' n = f n" and "\<And>n. n \<in> insert y (set xs) \<Longrightarrow> b' n = b n"
  shows "path f' b' x xs y"
  using assms by (induction xs arbitrary: x) auto

text \<open>A write to nodes outside a ring leaves it alone.\<close>

lemma ring_frame:
  assumes "ring s h xs" and "\<And>n. n \<in> set (h # xs) \<Longrightarrow> Flink t n = Flink s n \<and> Blink t n = Blink s n"
  shows "ring t h xs"
proof -
  have "path (Flink t) (Blink t) x ys y" if "path (Flink s) (Blink s) x ys y" "x \<in> set (h # xs)"
    "y \<in> set (h # xs)" "set ys \<subseteq> set (h # xs)" for x ys y
    using that assms(2) by (induction ys arbitrary: x) auto
  with assms(1) show ?thesis by (auto simp: ring_def)
qed

definition link_between :: "node \<Rightarrow> node \<Rightarrow> node \<Rightarrow> 'a links_scheme \<Rightarrow> 'a links_scheme" where
  "link_between p e n s = s\<lparr>Flink := (Flink s)(e := n, p := e), Blink := (Blink s)(e := p, n := e)\<rparr>"

definition unlink :: "node \<Rightarrow> node \<Rightarrow> 'a links_scheme \<Rightarrow> 'a links_scheme" where
  "unlink p n s = s\<lparr>Flink := (Flink s)(p := n), Blink := (Blink s)(n := p)\<rparr>"

lemma path_insert:
  assumes "path f b x (xs @ ys) y" and "distinct (x # xs @ ys)" and "e \<notin> set (x # y # xs @ ys)"
    and "y \<notin> set (xs @ ys)" and "p = last (x # xs)" and "n = hd (ys @ [y])"
  shows "path (f(e := n, p := e)) (b(e := p, n := e)) x (xs @ e # ys) y"
  using assms
proof (induction xs arbitrary: x)
  case Nil
  then show ?case by (cases ys) (auto elim!: path_cong)
next
  case (Cons a as)
  have "path (f(e := n, p := e)) (b(e := p, n := e)) a (as @ e # ys) y"
    by (rule Cons.IH) (use Cons.prems in auto)
  moreover have "p \<in> set (a # as)" using Cons.prems(5) by (simp split: if_splits)
  moreover have "n \<in> set (ys @ [y])" using Cons.prems(6) by (cases ys) auto
  moreover have "x \<notin> set (a # as)" "a \<notin> set (ys @ [y])" "x \<noteq> e" "a \<noteq> e" "f x = a" "b a = x"
    using Cons.prems(1-4) by auto
  moreover define f' b' where "f' = f(e := n, p := e)" and "b' = b(e := p, n := e)"
  moreover have "x \<noteq> p" "a \<noteq> n" using calculation by blast+
  ultimately have "path f' b' a (as @ e # ys) y" "f' x = a" "b' a = x" by simp_all
  then have "path f' b' x ((a # as) @ e # ys) y" by simp
  then show ?case unfolding f'_def b'_def .
qed

lemma path_remove:
  assumes "path f b x (xs @ e # ys) y" and "distinct (x # xs @ e # ys)" and "y \<notin> set (xs @ e # ys)"
    and "p = last (x # xs)" and "n = hd (ys @ [y])"
  shows "path (f(p := n)) (b(n := p)) x (xs @ ys) y \<and> f e = n \<and> b e = p"
  using assms
proof (induction xs arbitrary: x)
  case Nil
  then show ?case by (cases ys) (auto elim!: path_cong)
next
  case (Cons a as)
  have "path (f(p := n)) (b(n := p)) a (as @ ys) y \<and> f e = n \<and> b e = p"
    by (rule Cons.IH) (use Cons.prems in auto)
  moreover have "p \<in> set (a # as)" using Cons.prems(4) by (simp split: if_splits)
  moreover have "n \<in> set (ys @ [y])" using Cons.prems(5) by (cases ys) auto
  moreover have "x \<notin> set (a # as)" "a \<notin> set (ys @ [y])" "f x = a" "b a = x" using Cons.prems(1-3) by auto
  ultimately have "path (f(p := n)) (b(n := p)) a (as @ ys) y" "f e = n" "b e = p" "x \<noteq> p" "a \<noteq> n"
    by blast+
  moreover define f' b' where "f' = f(p := n)" and "b' = b(n := p)"
  ultimately have "path f' b' a (as @ ys) y" "f' x = a" "b' a = x" "f e = n" "b e = p"
    using \<open>f x = a\<close> \<open>b a = x\<close> by simp_all
  then have "path f' b' x ((a # as) @ ys) y \<and> f e = n \<and> b e = p" by simp
  then show ?case unfolding f'_def b'_def .
qed

lemma InsertHead_run:
  "p \<noteq> Null \<Longrightarrow> e \<noteq> Null \<Longrightarrow> n \<noteq> Null \<Longrightarrow> Flink s p = n \<Longrightarrow> InsertHeadList p e s = Inr ((), link_between p e n s)"
  by (simp add: InsertHeadList_def run_simps link_between_def)

text \<open>
  The three list facts: insertion after a node of the ring, insertion at its end and removal of an
  entry, with the exact pointers they leave.
\<close>

lemma ring_link:
  assumes "ring s h (xs @ ys)" and "e \<notin> set (h # xs @ ys)" and "e \<noteq> Null"
  shows "ring (link_between (last (h # xs)) e (hd (ys @ [h])) s) h (xs @ e # ys)"
  using assms path_insert [of "Flink s" "Blink s" h xs ys h e "last (h # xs)" "hd (ys @ [h])"]
  by (auto simp: ring_def link_between_def)

lemma ring_neighbours:
  assumes "ring s h (xs @ ys)"
  shows "Flink s (last (h # xs)) = hd (ys @ [h])" and "Blink s (hd (ys @ [h])) = last (h # xs)"
proof -
  show "Flink s (last (h # xs)) = hd (ys @ [h])"
  proof (cases "xs = []")
    case True
    with assms show ?thesis by (cases ys) (auto simp: ring_def)
  next
    case False
    then obtain as a where xs: "xs = as @ [a]" using rev_exhaust by blast
    with assms have "path (Flink s) (Blink s) a ys h" by (simp add: ring_def path_append)
    with xs show ?thesis by (cases ys) auto
  qed
  show "Blink s (hd (ys @ [h])) = last (h # xs)"
  proof (cases ys)
    case Nil
    with assms show ?thesis using ring_Blink_head [of s h xs] by simp
  next
    case (Cons y zs)
    with assms have "path (Flink s) (Blink s) h xs y" by (simp add: ring_def path_append)
    with Cons show ?thesis using path_Blink_end by fastforce
  qed
qed

lemma InsertHead_ring:
  assumes "ring s h (xs @ ys)" and "e \<notin> set (h # xs @ ys)" and "e \<noteq> Null"
  shows "InsertHeadList (last (h # xs)) e s = Inr ((), link_between (last (h # xs)) e (hd (ys @ [h])) s)"
proof -
  define p n where "p = last (h # xs)" and "n = hd (ys @ [h])"
  have "p \<in> set (h # xs)" "n \<in> set (h # ys)" unfolding p_def n_def by (rule last_in_set, simp) (cases ys, auto)
  with assms have "p \<noteq> Null" "n \<noteq> Null" "p \<noteq> e" "n \<noteq> e" by (auto simp: ring_def)
  with InsertHead_run [of p e n s] ring_neighbours(1) [OF assms(1)] assms(3) show ?thesis unfolding p_def n_def by blast
qed

lemma InsertTail_ring:
  assumes "ring s h xs" and "e \<notin> set (h # xs)" and "e \<noteq> Null"
  shows "InsertTailList h e s = Inr ((), link_between (last (h # xs)) e h s)"
proof -
  have "last (h # xs) \<in> set (h # xs)" by (rule last_in_set) simp
  with assms have "last (h # xs) \<noteq> Null" "last (h # xs) \<noteq> e" "h \<noteq> Null" "h \<noteq> e" by (auto simp: ring_def)
  then show ?thesis
    using assms(3) ring_Blink_head [OF assms(1)]
    by (simp add: InsertTailList_def run_simps link_between_def fun_upd_twist)
qed

lemma Remove_ring:
  assumes "ring s h (xs @ e # ys)"
  shows "RemoveEntryList e s = Inr (xs = [] \<and> ys = [], unlink (last (h # xs)) (hd (ys @ [h])) s)"
    and "ring (unlink (last (h # xs)) (hd (ys @ [h])) s) h (xs @ ys)"
    and "Flink s e = hd (ys @ [h])"
proof -
  let ?p = "last (h # xs)" and ?n = "hd (ys @ [h])"
  have p: "path ((Flink s)(?p := ?n)) ((Blink s)(?n := ?p)) h (xs @ ys) h \<and> Flink s e = ?n \<and> Blink s e = ?p"
    using assms by (intro path_remove) (auto simp: ring_def)
  have m: "?p \<in> set (h # xs)" "?n \<in> set (h # ys)" by (rule last_in_set, simp) (cases ys, auto)
  have eq: "?n = ?p \<longleftrightarrow> xs = [] \<and> ys = []"
  proof
    assume *: "?n = ?p"
    have "q \<in> set (h # xs) \<Longrightarrow> q \<in> set (h # ys) \<Longrightarrow> q = h" for q using assms by (auto simp: ring_def)
    with m * have "?p = h" by metis
    with * assms show "xs = [] \<and> ys = []"
      by (cases ys; cases xs rule: rev_exhaust) (auto simp: ring_def)
  qed simp
  have "?p \<noteq> Null" "?n \<noteq> Null" "e \<noteq> Null" using m assms by (auto simp: ring_def)
  with p eq show "RemoveEntryList e s = Inr (xs = [] \<and> ys = [], unlink ?p ?n s)"
    by (auto simp: RemoveEntryList_def run_simps unlink_def)
  from p assms show "ring (unlink ?p ?n s) h (xs @ ys)" by (auto simp: ring_def unlink_def)
  from p show "Flink s e = ?n" by blast
qed

lemma IsListEmpty_ring: "ring s h xs \<Longrightarrow> IsListEmpty h s = Inr (xs = [], s)"
  using ring_Flink_head [of s h xs] ring_nodes [of s h xs]
  by (cases xs) (auto simp: IsListEmpty_def run_simps)

lemma Initialize_ring:
  "h \<noteq> Null \<Longrightarrow> InitializeListHead h s = Inr ((), s\<lparr>Flink := (Flink s)(h := h), Blink := (Blink s)(h := h)\<rparr>)"
  "h \<noteq> Null \<Longrightarrow> ring (s\<lparr>Flink := (Flink s)(h := h), Blink := (Blink s)(h := h)\<rparr>) h []"
  by (simp_all add: InitializeListHead_def run_simps ring_def)

lemma link_other:
  assumes "ring s h xs" and "p \<notin> set (h # xs)" and "e \<notin> set (h # xs)" and "n \<notin> set (h # xs)"
  shows "ring (link_between p e n s) h xs"
  using assms(1) by (rule ring_frame) (use assms(2-4) in \<open>auto simp: link_between_def\<close>)

lemma unlink_other:
  assumes "ring s h xs" and "p \<notin> set (h # xs)" and "n \<notin> set (h # xs)"
  shows "ring (unlink p n s) h xs"
  using assms(1) by (rule ring_frame) (use assms(2,3) in \<open>auto simp: unlink_def\<close>)

end
