(* ===== verification/Ke_Dpc.thy ===== *)
theory Ke_Dpc
  imports Ke_List Cxbx_Loops Cxbx_Queue
begin

text \<open>
  The queue of deferred procedure calls (\<open>src/core/kernel/exports/EmuKrnlKe.cpp\<close>).

  A \<open>KDPC\<close> is a \<open>kdpc\<close>, found by its number; its list entry is the node \<open>DpcEntry\<close>, the queue of
  \<open>g_DpcData\<close> is the list at \<open>DpcHead\<close>. Deferred routines are guest code, the parameter \<open>call\<close> of
  \<open>ExecuteDpcQueue\<close>. The lock of the queue is not modelled, a software interrupt is recorded in
  \<open>InterruptRequest\<close>.
\<close>

record kdpc =
  dpc_Type :: u16
  dpc_Inserted :: bool
  DeferredRoutine :: u32
  DeferredContext :: u32
  SystemArgument1 :: u32
  SystemArgument2 :: u32

record dpc_data = links +
  Dpcs :: "nat \<Rightarrow> kdpc"
  IsDpcPending :: bool
  IsDpcActive :: bool
  HalInterruptRequestRegister :: u32

section \<open>Operations\<close>

definition set_dpc :: "nat \<Rightarrow> (kdpc \<Rightarrow> kdpc) \<Rightarrow> (unit, 'a dpc_data_scheme) run" where
  "set_dpc d f = modify (\<lambda>s. s\<lparr>Dpcs := (Dpcs s)(d := f (Dpcs s d))\<rparr>)"

definition request_interrupt :: "nat \<Rightarrow> (unit, 'a dpc_data_scheme) run" where
  "request_interrupt r = modify (\<lambda>s. s\<lparr>HalInterruptRequestRegister := HalInterruptRequestRegister s OR push_bit r 1\<rparr>)"

definition InitDpcData :: "(unit, 'a dpc_data_scheme) run" where
  "InitDpcData = InitializeListHead DpcHead"

definition KeInitializeDpc :: "nat \<Rightarrow> u32 \<Rightarrow> u32 \<Rightarrow> (unit, 'a dpc_data_scheme) run" where
  "KeInitializeDpc d r c = set_dpc d (\<lambda>k. k\<lparr>dpc_Type := 0x13, dpc_Inserted := False, DeferredRoutine := r, DeferredContext := c\<rparr>)"

definition KeInsertQueueDpc :: "nat \<Rightarrow> u32 \<Rightarrow> u32 \<Rightarrow> (bool, 'a dpc_data_scheme) run" where
  "KeInsertQueueDpc d a1 a2 = bnd (get (\<lambda>s. \<not> dpc_Inserted (Dpcs s d))) (\<lambda>needed.
     if needed then
       bnd (set_dpc d (\<lambda>k. k\<lparr>dpc_Inserted := True, SystemArgument1 := a1, SystemArgument2 := a2\<rparr>)) (\<lambda>_.
       bnd (InsertTailList DpcHead (DpcEntry d)) (\<lambda>_.
       bnd (modify (IsDpcPending_update (\<lambda>_. True))) (\<lambda>_.
       bnd (get IsDpcActive) (\<lambda>active.
       bnd (if \<not> active then request_interrupt 2 else ret ()) (\<lambda>_. ret True)))))
     else ret False)"

definition KeRemoveQueueDpc :: "nat \<Rightarrow> (bool, 'a dpc_data_scheme) run" where
  "KeRemoveQueueDpc d = bnd (get (\<lambda>s. dpc_Inserted (Dpcs s d))) (\<lambda>i.
     if i then bnd (RemoveEntryList (DpcEntry d)) (\<lambda>_.
       bnd (set_dpc d (\<lambda>k. k\<lparr>dpc_Inserted := False\<rparr>)) (\<lambda>_. ret True))
     else ret False)"

definition KeIsExecutingDpc :: "(bool, 'a dpc_data_scheme) run" where
  "KeIsExecutingDpc = get IsDpcActive"

definition dpc_of :: "node \<Rightarrow> (nat, 'a dpc_data_scheme) run" where
  "dpc_of n = (case n of DpcEntry d \<Rightarrow> ret d | _ \<Rightarrow> fail BadPointer)"

text \<open>An entry whose back link was cleared is unlinked by hand.\<close>

definition skip_corrupt :: "node \<Rightarrow> (unit, 'a dpc_data_scheme) run" where
  "skip_corrupt p = bnd (get_Flink p) (\<lambda>f.
     bnd (set_Flink DpcHead f) (\<lambda>_.
     bnd (if f \<noteq> Null then set_Blink f DpcHead else ret ()) (\<lambda>_.
     bnd (dpc_of p) (\<lambda>d. set_dpc d (\<lambda>k. k\<lparr>dpc_Inserted := False\<rparr>)))))"

definition run_dpc :: "(nat \<Rightarrow> (unit, 'a dpc_data_scheme) orun) \<Rightarrow> nat \<Rightarrow> (unit, 'a dpc_data_scheme) orun" where
  "run_dpc call d = obnd (lift (modify (IsDpcActive_update (\<lambda>_. True)))) (\<lambda>_.
     obnd (call d) (\<lambda>_. lift (modify (IsDpcActive_update (\<lambda>_. False)))))"

partial_function (option) ExecuteDpcQueue ::
  "(nat \<Rightarrow> (unit, 'a dpc_data_scheme) orun) \<Rightarrow> 'a dpc_data_scheme \<Rightarrow> (fault + unit \<times> 'a dpc_data_scheme) option" where
  "ExecuteDpcQueue call s = obnd (lift (IsListEmpty DpcHead)) (\<lambda>empty.
     if empty then lift (modify (IsDpcPending_update (\<lambda>_. False))) else
     obnd (lift (get_Flink DpcHead)) (\<lambda>p.
     if p = Null then
       obnd (lift (InitializeListHead DpcHead)) (\<lambda>_. lift (modify (IsDpcPending_update (\<lambda>_. False)))) else
     obnd (lift (get_Blink p)) (\<lambda>b.
     if b = Null then obnd (lift (skip_corrupt p)) (\<lambda>_ t. ExecuteDpcQueue call t) else
     obnd (lift (RemoveHeadList DpcHead)) (\<lambda>e.
     obnd (lift (dpc_of e)) (\<lambda>d.
     obnd (lift (set_dpc d (\<lambda>k. k\<lparr>dpc_Inserted := False\<rparr>))) (\<lambda>_.
     obnd (lift (get (\<lambda>u. DeferredRoutine (Dpcs u d)))) (\<lambda>r.
     if r = 0 then (\<lambda>t. ExecuteDpcQueue call t)
     else obnd (run_dpc call d) (\<lambda>_ t. ExecuteDpcQueue call t)))))))) s"

section \<open>The queue as a list\<close>

definition dpc_queue :: "'a dpc_data_scheme \<Rightarrow> nat list \<Rightarrow> bool" where
  "dpc_queue s q \<longleftrightarrow> ring s DpcHead (map DpcEntry q) \<and> (\<forall>d. dpc_Inserted (Dpcs s d) \<longleftrightarrow> d \<in> set q)"

lemma dpc_links [simp]:
  "Flink (s\<lparr>Dpcs := x\<rparr>) = Flink s" "Blink (s\<lparr>Dpcs := x\<rparr>) = Blink s" "Dpcs (link_between p e n s) = Dpcs s"
  "Dpcs (unlink p n s) = Dpcs s"
  by (simp_all add: link_between_def unlink_def)

lemma dpc_queue_insert:
  assumes "dpc_queue s q" and "d \<notin> set q"
  shows "\<exists>t. KeInsertQueueDpc d a b s = Inr (True, t) \<and> dpc_queue t (q @ [d]) \<and> IsDpcPending t
    \<and> dpc_data.more t = dpc_data.more s
    \<and> Dpcs t = (Dpcs s)(d := (Dpcs s d)\<lparr>dpc_Inserted := True, SystemArgument1 := a, SystemArgument2 := b\<rparr>)"
proof -
  define s1 where "s1 = s\<lparr>Dpcs := (Dpcs s)(d := (Dpcs s d)\<lparr>dpc_Inserted := True, SystemArgument1 := a, SystemArgument2 := b\<rparr>)\<rparr>"
  have r: "ring s1 DpcHead (map DpcEntry q @ [])" using assms by (simp add: dpc_queue_def ring_def s1_def)
  have i: "InsertTailList DpcHead (DpcEntry d) s1 = Inr ((), link_between (last (DpcHead # map DpcEntry q)) (DpcEntry d) DpcHead s1)"
    using r assms(2) by (intro InsertTail_ring) auto
  have l: "ring (link_between (last (DpcHead # map DpcEntry q)) (DpcEntry d) DpcHead s1) DpcHead (map DpcEntry q @ [DpcEntry d])"
    using ring_link [OF r, of "DpcEntry d"] assms(2) by (simp add: image_iff)
  have n: "\<not> dpc_Inserted (Dpcs s d)" using assms by (simp add: dpc_queue_def)
  define w where "w = link_between (last (DpcHead # map DpcEntry q)) (DpcEntry d) DpcHead s1"
  have more: "dpc_data.more w = dpc_data.more s" and dp: "Dpcs w = Dpcs s1"
    by (simp_all add: w_def s1_def link_between_def)
  have "ring w DpcHead (map DpcEntry (q @ [d]))" using l by (simp add: w_def)
  with assms(1) have q: "dpc_queue w (q @ [d])" by (auto simp: dpc_queue_def dp s1_def)
  have "KeInsertQueueDpc d a b s = Inr (True, if IsDpcActive w then w\<lparr>IsDpcPending := True\<rparr>
      else w\<lparr>IsDpcPending := True, HalInterruptRequestRegister := HalInterruptRequestRegister w OR 4\<rparr>)"
    using n i [folded w_def] by (simp add: KeInsertQueueDpc_def run_simps set_dpc_def request_interrupt_def s1_def [symmetric])
  with q more dp show ?thesis by (auto simp: dpc_queue_def ring_def s1_def)
qed

lemma dpc_queue_again:
  "dpc_queue s q \<Longrightarrow> d \<in> set q \<Longrightarrow> KeInsertQueueDpc d a b s = Inr (False, s)"
  by (simp add: dpc_queue_def KeInsertQueueDpc_def run_simps)

lemma dpc_queue_removed:
  assumes "dpc_queue s (xs @ d # ys)"
  defines "t \<equiv> unlink (last (DpcHead # map DpcEntry xs)) (hd (map DpcEntry ys @ [DpcHead])) s"
  shows "RemoveEntryList (DpcEntry d) s = Inr (xs = [] \<and> ys = [], t)"
    and "dpc_queue (t\<lparr>Dpcs := (Dpcs s)(d := (Dpcs s d)\<lparr>dpc_Inserted := False\<rparr>)\<rparr>) (xs @ ys)"
proof -
  have r: "ring s DpcHead (map DpcEntry xs @ DpcEntry d # map DpcEntry ys)" using assms(1) by (simp add: dpc_queue_def)
  show "RemoveEntryList (DpcEntry d) s = Inr (xs = [] \<and> ys = [], t)" using Remove_ring(1) [OF r] by (simp add: t_def)
  have "ring t DpcHead (map DpcEntry xs @ map DpcEntry ys)" using Remove_ring(2) [OF r] by (simp add: t_def)
  moreover have "distinct (xs @ d # ys)" using r by (auto simp: ring_def distinct_map)
  ultimately show "dpc_queue (t\<lparr>Dpcs := (Dpcs s)(d := (Dpcs s d)\<lparr>dpc_Inserted := False\<rparr>)\<rparr>) (xs @ ys)"
    using assms(1) by (auto simp: dpc_queue_def ring_def)
qed

lemma dpc_queue_remove:
  assumes "dpc_queue s (xs @ d # ys)"
  shows "\<exists>t. KeRemoveQueueDpc d s = Inr (True, t) \<and> dpc_queue t (xs @ ys) \<and> dpc_data.more t = dpc_data.more s
    \<and> Dpcs t = (Dpcs s)(d := (Dpcs s d)\<lparr>dpc_Inserted := False\<rparr>)"
proof -
  define t where "t = unlink (last (DpcHead # map DpcEntry xs)) (hd (map DpcEntry ys @ [DpcHead])) s"
  have "dpc_Inserted (Dpcs s d)" using assms by (simp add: dpc_queue_def)
  moreover have "Dpcs t = Dpcs s" "dpc_data.more t = dpc_data.more s" by (simp_all add: t_def unlink_def)
  ultimately show ?thesis
    using dpc_queue_removed [OF assms, folded t_def] by (simp add: KeRemoveQueueDpc_def run_simps set_dpc_def)
qed

section \<open>Draining the queue\<close>

lemma ExecuteDpcQueue_empty:
  "dpc_queue s [] \<Longrightarrow> ExecuteDpcQueue call s = Some (Inr ((), s\<lparr>IsDpcPending := False\<rparr>))"
  using IsListEmpty_ring [of s DpcHead "[]"]
  by (subst ExecuteDpcQueue.simps) (simp add: obnd_def lift_def dpc_queue_def)

definition dequeued :: "nat \<Rightarrow> nat list \<Rightarrow> 'a dpc_data_scheme \<Rightarrow> 'a dpc_data_scheme" where
  "dequeued d q s = (unlink DpcHead (hd (map DpcEntry q @ [DpcHead])) s)
     \<lparr>Dpcs := (Dpcs s)(d := (Dpcs s d)\<lparr>dpc_Inserted := False\<rparr>)\<rparr>"

lemma dequeued_queue: "dpc_queue s (d # q) \<Longrightarrow> dpc_queue (dequeued d q s) q"
  using dpc_queue_removed(2) [of s "[]" d q] by (simp add: dequeued_def)

lemma dpc_queue_head:
  assumes "dpc_queue s (d # q)"
  shows "RemoveHeadList DpcHead s = Inr (DpcEntry d, unlink DpcHead (hd (map DpcEntry q @ [DpcHead])) s)"
proof -
  have r: "ring s DpcHead (DpcEntry d # map DpcEntry q)" using assms by (simp add: dpc_queue_def)
  show ?thesis
    using ring_Flink_head [OF r] Remove_ring(1) [of s DpcHead "[]" "DpcEntry d" "map DpcEntry q"] r
    by (simp add: RemoveHeadList_def run_simps)
qed

text \<open>The queue keeps the contract of \<open>live_queue\<close>, whoever interleaves its two ends.\<close>

definition dpc_put :: "'a dpc_data_scheme \<Rightarrow> nat \<Rightarrow> 'a dpc_data_scheme \<Rightarrow> bool" where
  "dpc_put s d t \<longleftrightarrow> (\<exists>a b. KeInsertQueueDpc d a b s = Inr (True, t))"

definition dpc_take :: "'a dpc_data_scheme \<Rightarrow> nat \<Rightarrow> 'a dpc_data_scheme \<Rightarrow> bool" where
  "dpc_take s d t \<longleftrightarrow> IsListEmpty DpcHead s = Inr (False, s) \<and> (\<exists>u. RemoveHeadList DpcHead s = Inr (DpcEntry d, u)
     \<and> set_dpc d (\<lambda>k. k\<lparr>dpc_Inserted := False\<rparr>) u = Inr ((), t))"

lemma dpc_take_iff:
  assumes "dpc_queue s (d # q)"
  shows "dpc_take s e t \<longleftrightarrow> e = d \<and> t = dequeued d q s"
  using assms IsListEmpty_ring [of s DpcHead "map DpcEntry (d # q)"]
  by (auto simp: dpc_take_def dpc_queue_head [OF assms] set_dpc_def dequeued_def run_simps dpc_queue_def [of s "d # q"])

interpretation dpcs: live_queue dpc_queue dpc_put dpc_take None "\<lambda>_ _. True"
proof unfold_locales
  fix s :: "'a dpc_data_scheme" and q d t
  assume q: "dpc_queue s q" and "dpc_put s d t"
  then obtain a b where i: "KeInsertQueueDpc d a b s = Inr (True, t)" by (auto simp: dpc_put_def)
  then have "d \<notin> set q" using dpc_queue_again [OF q, of d a b] by auto
  then show "dpc_queue t (q @ [d])" using dpc_queue_insert [OF q, of d a b] i by auto
next
  fix s :: "'a dpc_data_scheme" and q d t
  assume q: "dpc_queue s q" and t: "dpc_take s d t"
  show "\<exists>q'. q = d # q' \<and> dpc_queue t q'"
  proof (cases q)
    case Nil
    then show ?thesis using q t IsListEmpty_ring [of s DpcHead "[]"] by (simp add: dpc_take_def dpc_queue_def)
  next
    case (Cons e q')
    then show ?thesis using q t dequeued_queue by (auto simp: dpc_take_iff)
  qed
qed (auto simp: dpc_take_iff)

text \<open>One turn of the loop: the head leaves the queue and its routine runs with the rest still queued.\<close>

lemma ExecuteDpcQueue_turn:
  assumes "dpc_queue s (d # q)"
  shows "ExecuteDpcQueue call s = (if DeferredRoutine (Dpcs s d) = 0 then ExecuteDpcQueue call (dequeued d q s)
     else obnd (run_dpc call d) (\<lambda>_. ExecuteDpcQueue call) (dequeued d q s))"
proof -
  have r: "ring s DpcHead (DpcEntry d # map DpcEntry q)" using assms by (simp add: dpc_queue_def)
  note h = dpc_queue_head [OF assms]
  have b: "Flink s DpcHead = DpcEntry d" "Blink s (DpcEntry d) = DpcHead" using r by (auto simp: ring_def)
  show ?thesis
    by (subst ExecuteDpcQueue.simps)
      (simp add: IsListEmpty_ring [OF r] h b get_Flink_def get_Blink_def obnd_def lift_def dpc_of_def
         set_dpc_def dequeued_def)
qed

text \<open>Guest routines that do not call back into the kernel: they act on the rest of the machine.\<close>

definition quiet :: "(nat \<Rightarrow> (unit, 'a dpc_data_scheme) orun) \<Rightarrow> (nat \<Rightarrow> kdpc \<Rightarrow> 'a \<Rightarrow> 'a) \<Rightarrow> bool" where
  "quiet call f \<longleftrightarrow> (\<forall>d s. call d s = Some (Inr ((), s\<lparr>dpc_data.more := f d (Dpcs s d) (dpc_data.more s)\<rparr>)))"

lemma ExecuteDpcQueue_drain:
  assumes "quiet call f" and "dpc_queue s q"
  shows "\<exists>t. ExecuteDpcQueue call s = Some (Inr ((), t)) \<and> dpc_queue t [] \<and> \<not> IsDpcPending t
    \<and> dpc_data.more t = fold (\<lambda>d. if DeferredRoutine (Dpcs s d) = 0 then id else f d ((Dpcs s d)\<lparr>dpc_Inserted := False\<rparr>)) q (dpc_data.more s)"
  using assms(2)
proof (induction q arbitrary: s)
  case Nil
  then show ?case by (simp add: ExecuteDpcQueue_empty) (auto simp: dpc_queue_def ring_def)
next
  case (Cons d q)
  have d: "d \<notin> set q" using Cons.prems by (auto simp: dpc_queue_def ring_def)
  define u where "u = dequeued d q s"
  have u: "dpc_queue u q" using Cons.prems by (simp add: u_def dequeued_queue)
  have du: "Dpcs u = (Dpcs s)(d := (Dpcs s d)\<lparr>dpc_Inserted := False\<rparr>)" "dpc_data.more u = dpc_data.more s"
    by (simp_all add: u_def dequeued_def unlink_def)
  define v where "v = (if DeferredRoutine (Dpcs s d) = 0 then u else
    u\<lparr>dpc_data.more := f d ((Dpcs s d)\<lparr>dpc_Inserted := False\<rparr>) (dpc_data.more s), IsDpcActive := False\<rparr>)"
  have v: "dpc_queue v q" "Dpcs v = Dpcs u" using u by (auto simp: v_def dpc_queue_def ring_def)
  have "ExecuteDpcQueue call s = ExecuteDpcQueue call v"
    using ExecuteDpcQueue_turn [OF Cons.prems, of call] assms(1) du
    by (simp add: u_def [symmetric] v_def run_dpc_def obnd_def quiet_def)
  moreover have "fold (\<lambda>e. if DeferredRoutine (Dpcs v e) = 0 then id else f e ((Dpcs v e)\<lparr>dpc_Inserted := False\<rparr>)) q (dpc_data.more v)
    = fold (\<lambda>e. if DeferredRoutine (Dpcs s e) = 0 then id else f e ((Dpcs s e)\<lparr>dpc_Inserted := False\<rparr>)) q (dpc_data.more v)"
    by (rule fold_cong) (use d v(2) du in auto)
  moreover have "dpc_data.more v = (if DeferredRoutine (Dpcs s d) = 0 then id else f d ((Dpcs s d)\<lparr>dpc_Inserted := False\<rparr>)) (dpc_data.more s)"
    using du(2) by (simp add: v_def)
  moreover obtain t where "ExecuteDpcQueue call v = Some (Inr ((), t))" "dpc_queue t []" "\<not> IsDpcPending t"
    "dpc_data.more t = fold (\<lambda>e. if DeferredRoutine (Dpcs v e) = 0 then id else f e ((Dpcs v e)\<lparr>dpc_Inserted := False\<rparr>)) q (dpc_data.more v)"
    using Cons.IH [OF v(1)] by blast
  ultimately show ?case unfolding fold_simps(2) by (intro exI [of _ t] conjI) simp_all
qed


definition dpc_example :: "(nat \<times> u32) list dpc_data_ext links_ext" where
  "dpc_example = \<lparr>Flink = (\<lambda>_. Null)(DpcHead := DpcEntry 1, DpcEntry 1 := DpcEntry 2, DpcEntry 2 := DpcHead),
     Blink = (\<lambda>_. Null)(DpcHead := DpcEntry 2, DpcEntry 1 := DpcHead, DpcEntry 2 := DpcEntry 1),
     Dpcs = (\<lambda>d. \<lparr>dpc_Type = 0x13, dpc_Inserted = (d = 1 \<or> d = 2), DeferredRoutine = 0x1000, DeferredContext = of_nat d,
       SystemArgument1 = 0, SystemArgument2 = 0\<rparr>), IsDpcPending = True, IsDpcActive = False,
     HalInterruptRequestRegister = 4, \<dots> = []\<rparr>"

definition dpc_logger :: "nat \<Rightarrow> (unit, (nat \<times> u32) list dpc_data_scheme) orun" where
  "dpc_logger d s = Some (Inr ((), s\<lparr>dpc_data.more := dpc_data.more s @ [(d, DeferredContext (Dpcs s d))]\<rparr>))"


text \<open>C7: Whatever inserts of the guest and dequeues of the DPC loop come in between, the calls leave the queue in
  the order in which they entered it, none is lost, and the rest can always be taken out.\<close>

theorem ke_dpc_interleaved:
  assumes "dpc_queue s q" and "queue_run dpc_put dpc_take s ops t"
  shows "\<exists>q'. dpc_queue t q' \<and> q @ puts ops = takes ops @ q' \<and> (\<exists>u. queue_run dpc_put dpc_take t (map Take q') u \<and> dpc_queue u [])"
  using dpcs.run_order [OF assms(2,1)] dpcs.drains by blast

theorem ke_dpc_interleaved_witness:
  "\<exists>t q'. queue_run dpc_put dpc_take dpc_example [Put 7, Take 1] t \<and> dpc_queue t q' \<and> q' = [2, 7]"
proof -
  have q: "dpc_queue dpc_example [1, 2]" by (simp add: dpc_queue_def dpc_example_def ring_def)
  obtain t1 where i: "KeInsertQueueDpc 7 0 0 dpc_example = Inr (True, t1)" and q1: "dpc_queue t1 [1, 2, 7]"
    using dpc_queue_insert [OF q, of 7 0 0] by auto
  then have "dpc_put dpc_example 7 t1" by (auto simp: dpc_put_def)
  moreover have "dpc_take t1 1 (dequeued 1 [2, 7] t1)" using dpc_take_iff [OF q1] by simp
  ultimately have r: "queue_run dpc_put dpc_take dpc_example [Put 7, Take 1] (dequeued 1 [2, 7] t1)" by (blast intro: queue_run.intros)
  from ke_dpc_interleaved [OF q r] show ?thesis using r by auto
qed

end
