(* ===== verification/Ke_Device.thy ===== *)
theory Ke_Device
  imports Ke_List Cxbx_Loops
begin

text \<open>
  Device queues (\<open>KDEVICE_QUEUE\<close>, \<open>src/core/kernel/exports/EmuKrnlKe.cpp\<close>): the requests waiting for
  a busy device. A queue and its entries are named by numbers; their list nodes are \<open>DeviceHead\<close>
  and \<open>DeviceEntry\<close>.
\<close>

record device_data = links +
  dq_Type :: "nat \<Rightarrow> u16"
  Busy :: "nat \<Rightarrow> bool"
  SortKey :: "nat \<Rightarrow> u32"
  dev_Inserted :: "nat \<Rightarrow> bool"

section \<open>Operations\<close>

definition KeInitializeDeviceQueue :: "nat \<Rightarrow> (unit, 'a device_data_scheme) run" where
  "KeInitializeDeviceQueue q = bnd (modify (\<lambda>s. s\<lparr>dq_Type := (dq_Type s)(q := 0x14), Busy := (Busy s)(q := False)\<rparr>))
     (\<lambda>_. InitializeListHead (DeviceHead q))"

definition entry_of :: "node \<Rightarrow> (nat, 'a device_data_scheme) run" where
  "entry_of n = (case n of DeviceEntry e \<Rightarrow> ret e | _ \<Rightarrow> fail BadPointer)"

definition set_dev_Inserted :: "nat \<Rightarrow> bool \<Rightarrow> (unit, 'a device_data_scheme) run" where
  "set_dev_Inserted e b = modify (\<lambda>s. s\<lparr>dev_Inserted := (dev_Inserted s)(e := b)\<rparr>)"

text \<open>The loops of the two keyed operations: forward from \<open>n\<close> until the key compares or the head is back.\<close>

partial_function (option) find_greater ::
  "node \<Rightarrow> u32 \<Rightarrow> node \<Rightarrow> 'a device_data_scheme \<Rightarrow> (fault + node \<times> 'a device_data_scheme) option" where
  "find_greater h k n s = (if n = h then Some (Inr (n, s)) else
     obnd (lift (entry_of n)) (\<lambda>e. obnd (lift (get (\<lambda>u. SortKey u e))) (\<lambda>k'.
       if k < k' then oret n else obnd (lift (get_Flink n)) (\<lambda>f t. find_greater h k f t))) s)"

partial_function (option) find_not_less ::
  "node \<Rightarrow> u32 \<Rightarrow> node \<Rightarrow> 'a device_data_scheme \<Rightarrow> (fault + node \<times> 'a device_data_scheme) option" where
  "find_not_less h k n s = (if n = h then Some (Inr (n, s)) else
     obnd (lift (entry_of n)) (\<lambda>e. obnd (lift (get (\<lambda>u. SortKey u e))) (\<lambda>k'.
       if k \<le> k' then oret n else obnd (lift (get_Flink n)) (\<lambda>f t. find_not_less h k f t))) s)"

definition KeInsertByKeyDeviceQueue :: "nat \<Rightarrow> nat \<Rightarrow> u32 \<Rightarrow> (bool, 'a device_data_scheme) orun" where
  "KeInsertByKeyDeviceQueue q e k = obnd (lift (modify (\<lambda>s. s\<lparr>SortKey := (SortKey s)(e := k)\<rparr>))) (\<lambda>_.
     obnd (lift (get (\<lambda>s. Busy s q))) (\<lambda>busy.
     obnd (if busy then
       obnd (lift (get_Flink (DeviceHead q))) (\<lambda>f. obnd (find_greater (DeviceHead q) k f) (\<lambda>n.
       obnd (lift (get_Blink n)) (\<lambda>b. obnd (lift (InsertHeadList b (DeviceEntry e))) (\<lambda>_. oret True))))
     else obnd (lift (modify (\<lambda>s. s\<lparr>Busy := (Busy s)(q := True)\<rparr>))) (\<lambda>_. oret False)) (\<lambda>res.
     obnd (lift (set_dev_Inserted e res)) (\<lambda>_. oret res))))"

definition KeInsertDeviceQueue :: "nat \<Rightarrow> nat \<Rightarrow> (bool, 'a device_data_scheme) run" where
  "KeInsertDeviceQueue q e = bnd (get (\<lambda>s. Busy s q)) (\<lambda>busy.
     bnd (if busy then InsertTailList (DeviceHead q) (DeviceEntry e)
          else modify (\<lambda>s. s\<lparr>Busy := (Busy s)(q := True)\<rparr>)) (\<lambda>_.
     bnd (set_dev_Inserted e busy) (\<lambda>_. ret busy)))"

definition KeRemoveByKeyDeviceQueue :: "nat \<Rightarrow> u32 \<Rightarrow> (nat option, 'a device_data_scheme) orun" where
  "KeRemoveByKeyDeviceQueue q k = obnd (lift (IsListEmpty (DeviceHead q))) (\<lambda>empty.
     if empty then obnd (lift (modify (\<lambda>s. s\<lparr>Busy := (Busy s)(q := False)\<rparr>))) (\<lambda>_. oret None)
     else obnd (lift (get_Flink (DeviceHead q))) (\<lambda>f. obnd (find_not_less (DeviceHead q) k f) (\<lambda>n.
       obnd (if n \<noteq> DeviceHead q then obnd (lift (RemoveEntryList n)) (\<lambda>_. oret n)
             else lift (RemoveHeadList (DeviceHead q))) (\<lambda>m.
       obnd (lift (entry_of m)) (\<lambda>e. obnd (lift (set_dev_Inserted e False)) (\<lambda>_. oret (Some e)))))))"

definition KeRemoveDeviceQueue :: "nat \<Rightarrow> (nat option, 'a device_data_scheme) run" where
  "KeRemoveDeviceQueue q = bnd (IsListEmpty (DeviceHead q)) (\<lambda>empty.
     if empty then bnd (modify (\<lambda>s. s\<lparr>Busy := (Busy s)(q := False)\<rparr>)) (\<lambda>_. ret None)
     else bnd (RemoveHeadList (DeviceHead q)) (\<lambda>n. bnd (entry_of n) (\<lambda>e.
       bnd (set_dev_Inserted e False) (\<lambda>_. ret (Some e)))))"

definition KeRemoveEntryDeviceQueue :: "nat \<Rightarrow> nat \<Rightarrow> (bool, 'a device_data_scheme) run" where
  "KeRemoveEntryDeviceQueue q e = bnd (get (\<lambda>s. dev_Inserted s e)) (\<lambda>i.
     if i then bnd (set_dev_Inserted e False) (\<lambda>_. bnd (RemoveEntryList (DeviceEntry e)) (\<lambda>_. ret True))
     else ret False)"

section \<open>The queue as a list\<close>

definition device_queue :: "'a device_data_scheme \<Rightarrow> nat \<Rightarrow> nat list \<Rightarrow> bool" where
  "device_queue s q es \<longleftrightarrow> ring s (DeviceHead q) (map DeviceEntry es) \<and> (es \<noteq> [] \<longrightarrow> Busy s q)"

lemma device_links [simp]:
  "SortKey (link_between p e n s) = SortKey s" "SortKey (unlink p n s) = SortKey s"
  "Busy (link_between p e n s) = Busy s" "Busy (unlink p n s) = Busy s"
  by (simp_all add: link_between_def unlink_def)

lemma find_greater_ring:
  assumes "ring s (DeviceHead q) (xs @ map DeviceEntry es)"
  shows "find_greater (DeviceHead q) k (hd (map DeviceEntry es @ [DeviceHead q])) s =
    Some (Inr (hd (map DeviceEntry (dropWhile (\<lambda>e. SortKey s e \<le> k) es) @ [DeviceHead q]), s))"
  using assms
proof (induction es arbitrary: xs)
  case (Cons e es)
  have "Flink s (DeviceEntry e) = hd (map DeviceEntry es @ [DeviceHead q])"
    using Remove_ring(3) [of s _ xs] Cons.prems by simp
  moreover have "ring s (DeviceHead q) ((xs @ [DeviceEntry e]) @ map DeviceEntry es)" using Cons.prems by simp
  note Cons.IH [OF this]
  ultimately show ?case by (subst find_greater.simps) (auto simp: entry_of_def obnd_lift_step get_Flink_def not_le)
qed (simp add: find_greater.simps)

lemma find_not_less_ring:
  assumes "ring s (DeviceHead q) (xs @ map DeviceEntry es)"
  shows "find_not_less (DeviceHead q) k (hd (map DeviceEntry es @ [DeviceHead q])) s =
    Some (Inr (hd (map DeviceEntry (dropWhile (\<lambda>e. SortKey s e < k) es) @ [DeviceHead q]), s))"
  using assms
proof (induction es arbitrary: xs)
  case (Cons e es)
  have "Flink s (DeviceEntry e) = hd (map DeviceEntry es @ [DeviceHead q])"
    using Remove_ring(3) [of s _ xs] Cons.prems by simp
  moreover have "ring s (DeviceHead q) ((xs @ [DeviceEntry e]) @ map DeviceEntry es)" using Cons.prems by simp
  note Cons.IH [OF this]
  ultimately show ?case by (subst find_not_less.simps) (auto simp: entry_of_def obnd_lift_step get_Flink_def not_less)
qed (simp add: find_not_less.simps)

lemma device_remove:
  assumes "ring s (DeviceHead q) (map DeviceEntry (xs @ e # ys))"
  defines "t \<equiv> unlink (last (DeviceHead q # map DeviceEntry xs)) (hd (map DeviceEntry ys @ [DeviceHead q])) s"
  shows "RemoveEntryList (DeviceEntry e) s = Inr (xs = [] \<and> ys = [], t)"
    and "ring t (DeviceHead q) (map DeviceEntry (xs @ ys))"
    and "xs = [] \<Longrightarrow> RemoveHeadList (DeviceHead q) s = Inr (DeviceEntry e, t)"
proof -
  have r: "ring s (DeviceHead q) (map DeviceEntry xs @ DeviceEntry e # map DeviceEntry ys)" using assms(1) by simp
  show 1: "RemoveEntryList (DeviceEntry e) s = Inr (xs = [] \<and> ys = [], t)" using Remove_ring(1) [OF r] by (simp add: t_def)
  show "ring t (DeviceHead q) (map DeviceEntry (xs @ ys))" using Remove_ring(2) [OF r] by (simp add: t_def)
  assume "xs = []"
  with r have "Flink s (DeviceHead q) = DeviceEntry e" by (simp add: ring_def)
  with 1 show "RemoveHeadList (DeviceHead q) s = Inr (DeviceEntry e, t)" by (simp add: RemoveHeadList_def run_simps)
qed

lemma KeInsertByKey_queue:
  fixes k :: u32
  assumes "device_queue s q es" and "Busy s q" and "e \<notin> set es"
  defines "xs \<equiv> takeWhile (\<lambda>x. SortKey s x \<le> k) es" and "ys \<equiv> dropWhile (\<lambda>x. SortKey s x \<le> k) es"
  shows "\<exists>t. KeInsertByKeyDeviceQueue q e k s = Some (Inr (True, t)) \<and> device_queue t q (xs @ e # ys)
    \<and> dev_Inserted t e \<and> SortKey t = (SortKey s)(e := k)"
proof -
  let ?h = "DeviceHead q"
  define s1 where "s1 = s\<lparr>SortKey := (SortKey s)(e := k)\<rparr>"
  define p n where "p = last (?h # map DeviceEntry xs)" and "n = hd (map DeviceEntry ys @ [?h])"
  have es: "es = xs @ ys" by (simp add: xs_def ys_def)
  have r: "ring s1 ?h ([] @ map DeviceEntry es)" using assms(1) by (simp add: s1_def device_queue_def ring_def)
  then have r': "ring s1 ?h (map DeviceEntry xs @ map DeviceEntry ys)" by (simp add: es)
  have "dropWhile (\<lambda>x. SortKey s1 x \<le> k) es = ys"
    unfolding ys_def using assms(3) by (intro dropWhile_cong) (auto simp: s1_def)
  with find_greater_ring [OF r, of k] have f: "find_greater ?h k (Flink s1 ?h) s1 = Some (Inr (n, s1))"
    using ring_neighbours(1) [of s1 ?h "[]"] r by (simp add: n_def)
  have b: "n \<noteq> Null" "Blink s1 n = p"
    using ring_neighbours(2) [OF r'] by (cases ys; simp add: n_def p_def)+
  have i: "DeviceEntry e \<notin> set (?h # map DeviceEntry xs @ map DeviceEntry ys)" using assms(3) by (auto simp: es)
  define t where "t = link_between p (DeviceEntry e) n s1"
  have "InsertHeadList p (DeviceEntry e) s1 = Inr ((), t)"
    using InsertHead_ring [OF r' i] unfolding p_def n_def t_def by simp
  then have run: "KeInsertByKeyDeviceQueue q e k s = Some (Inr (True, t\<lparr>dev_Inserted := (dev_Inserted t)(e := True)\<rparr>))"
    using assms(2) b f by (simp add: KeInsertByKeyDeviceQueue_def s1_def [symmetric] obnd_lift_step get_Flink_def
      get_Blink_def obnd_def lift_def set_dev_Inserted_def) (simp add: s1_def)
  have "ring t ?h (map DeviceEntry xs @ DeviceEntry e # map DeviceEntry ys)"
    using ring_link [OF r' i] unfolding p_def n_def t_def by simp
  with run assms(2) show ?thesis by (auto simp: device_queue_def ring_def t_def s1_def)
qed

lemma KeRemoveByKey_queue:
  assumes "device_queue s q es" and "es \<noteq> []"
  shows "\<exists>xs x ys t. es = xs @ x # ys \<and> KeRemoveByKeyDeviceQueue q k s = Some (Inr (Some x, t))
    \<and> device_queue t q (xs @ ys) \<and> \<not> dev_Inserted t x \<and> SortKey t = SortKey s
    \<and> (if \<exists>y\<in>set es. k \<le> SortKey s y then k \<le> SortKey s x \<and> (\<forall>y\<in>set xs. SortKey s y < k) else xs = [])"
proof -
  let ?h = "DeviceHead q" and ?P = "\<lambda>x. SortKey s x < k"
  have r: "ring s ?h ([] @ map DeviceEntry es)" using assms(1) by (simp add: device_queue_def)
  have e: "IsListEmpty ?h s = Inr (False, s)" using IsListEmpty_ring [of s ?h] r assms(2) by simp
  define n where "n = hd (map DeviceEntry (dropWhile ?P es) @ [?h])"
  have f: "find_not_less ?h k (Flink s ?h) s = Some (Inr (n, s))"
    using find_not_less_ring [OF r, of k] ring_neighbours(1) [of s ?h "[]"] r by (simp add: n_def)
  have "\<exists>xs x ys. es = xs @ x # ys \<and> (if \<exists>y\<in>set es. k \<le> SortKey s y
      then n = DeviceEntry x \<and> k \<le> SortKey s x \<and> (\<forall>y\<in>set xs. SortKey s y < k) else n = ?h \<and> xs = [])"
  proof (cases "\<exists>y\<in>set es. k \<le> SortKey s y")
    case True
    then have ne: "dropWhile ?P es \<noteq> []" by (auto simp: not_less)
    then obtain x ys where d: "dropWhile ?P es = x # ys" by (cases "dropWhile ?P es") auto
    have "\<not> ?P x" using hd_dropWhile [OF ne] d by simp
    with True d show ?thesis
      by (intro exI [of _ "takeWhile ?P es"] exI [of _ x] exI [of _ ys])
        (auto simp: n_def not_less dest: set_takeWhileD intro: takeWhile_dropWhile_id [symmetric, THEN trans])
  next
    case False
    then have "dropWhile ?P es = []" by (auto simp: not_le)
    with False assms(2) show ?thesis by (cases es) (auto simp: n_def)
  qed
  then obtain xs x ys where es: "es = xs @ x # ys" and n: "if \<exists>y\<in>set es. k \<le> SortKey s y
      then n = DeviceEntry x \<and> k \<le> SortKey s x \<and> (\<forall>y\<in>set xs. SortKey s y < k) else n = ?h \<and> xs = []" by blast
  define t where "t = unlink (last (?h # map DeviceEntry xs)) (hd (map DeviceEntry ys @ [?h])) s"
  note rm = device_remove [of s q xs x ys, folded t_def]
  have "ring s ?h (map DeviceEntry (xs @ x # ys))" using r es by simp
  note rm = rm [OF this]
  have "KeRemoveByKeyDeviceQueue q k s = Some (Inr (Some x, t\<lparr>dev_Inserted := (dev_Inserted t)(x := False)\<rparr>))"
  proof (cases "n = ?h")
    case True
    with n have "xs = []" by (auto split: if_splits)
    with True rm(3) f show ?thesis
      by (simp add: KeRemoveByKeyDeviceQueue_def e obnd_def lift_def get_Flink_def entry_of_def set_dev_Inserted_def)
  next
    case False
    with n have "n = DeviceEntry x" by (auto split: if_splits)
    with rm(1) f show ?thesis
      by (simp add: KeRemoveByKeyDeviceQueue_def e obnd_def lift_def get_Flink_def entry_of_def set_dev_Inserted_def)
  qed
  moreover have "device_queue (t\<lparr>dev_Inserted := (dev_Inserted t)(x := False)\<rparr>) q (xs @ ys)"
    using rm(2) assms(1) es by (simp add: device_queue_def ring_def t_def)
  moreover have "\<not> dev_Inserted (t\<lparr>dev_Inserted := (dev_Inserted t)(x := False)\<rparr>) x"
    "SortKey (t\<lparr>dev_Inserted := (dev_Inserted t)(x := False)\<rparr>) = SortKey s" by (simp_all add: t_def)
  moreover have "if \<exists>y\<in>set es. k \<le> SortKey s y then k \<le> SortKey s x \<and> (\<forall>y\<in>set xs. SortKey s y < k) else xs = []"
    using n by (meson)
  ultimately show ?thesis using es by blast
qed

text \<open>C13: a busy device serves its queue in key order. An insertion by key into a queue sorted by key keeps
  it sorted and goes behind the entries with the same key; a removal by key takes the first entry whose key is
  not below the given one, or the first entry of all when there is none, and an empty queue makes the device
  idle.\<close>

theorem ke_device_queue_elevator:
  assumes "device_queue s q es" and "sorted (map (SortKey s) es)"
  shows "(Busy s q \<and> e \<notin> set es \<longrightarrow> (\<exists>t xs ys. KeInsertByKeyDeviceQueue q e k s = Some (Inr (True, t))
        \<and> es = xs @ ys \<and> device_queue t q (xs @ e # ys) \<and> sorted (map (SortKey t) (xs @ e # ys))
        \<and> (\<forall>x\<in>set xs. SortKey s x \<le> k) \<and> (\<forall>y\<in>set ys. k < SortKey s y)))
    \<and> (es \<noteq> [] \<longrightarrow> (\<exists>t x. KeRemoveByKeyDeviceQueue q k s = Some (Inr (Some x, t)) \<and> x \<in> set es
        \<and> device_queue t q (remove1 x es) \<and> sorted (map (SortKey t) (remove1 x es))
        \<and> (if \<exists>y\<in>set es. k \<le> SortKey s y then k \<le> SortKey s x \<and> (\<forall>y\<in>set es. k \<le> SortKey s y \<longrightarrow> SortKey s x \<le> SortKey s y)
           else \<forall>y\<in>set es. SortKey s x \<le> SortKey s y)))
    \<and> (es = [] \<longrightarrow> (\<exists>t. KeRemoveByKeyDeviceQueue q k s = Some (Inr (None, t)) \<and> device_queue t q [] \<and> \<not> Busy t q))"
proof (intro conjI impI)
  assume "Busy s q \<and> e \<notin> set es"
  moreover define xs ys where "xs = takeWhile (\<lambda>x. SortKey s x \<le> k) es" and "ys = dropWhile (\<lambda>x. SortKey s x \<le> k) es"
  ultimately obtain t where t: "KeInsertByKeyDeviceQueue q e k s = Some (Inr (True, t))" "device_queue t q (xs @ e # ys)"
    "SortKey t = (SortKey s)(e := k)" using KeInsertByKey_queue [OF assms(1), of e k] by blast
  have es: "es = xs @ ys" by (simp add: xs_def ys_def)
  have x: "\<forall>x\<in>set xs. SortKey s x \<le> k" by (auto simp: xs_def dest: set_takeWhileD)
  have y: "\<forall>y\<in>set ys. k < SortKey s y"
  proof (cases ys)
    case (Cons y zs)
    then have "\<not> SortKey s y \<le> k" using hd_dropWhile [of "\<lambda>x. SortKey s x \<le> k" es] by (simp add: ys_def)
    with Cons assms(2) es show ?thesis by (force simp: sorted_append)
  qed simp
  have "map (SortKey t) (xs @ e # ys) = map (SortKey s) xs @ k # map (SortKey s) ys"
    using \<open>Busy s q \<and> e \<notin> set es\<close> es t(3) by auto
  moreover have "sorted (map (SortKey s) xs @ k # map (SortKey s) ys)"
    using assms(2) es x y by (auto simp: sorted_append less_imp_le intro: order_trans)
  ultimately have "sorted (map (SortKey t) (xs @ e # ys))" by metis
  with t es x y show "\<exists>t xs ys. KeInsertByKeyDeviceQueue q e k s = Some (Inr (True, t))
        \<and> es = xs @ ys \<and> device_queue t q (xs @ e # ys) \<and> sorted (map (SortKey t) (xs @ e # ys))
        \<and> (\<forall>x\<in>set xs. SortKey s x \<le> k) \<and> (\<forall>y\<in>set ys. k < SortKey s y)" by blast
next
  assume "es \<noteq> []"
  from KeRemoveByKey_queue [OF assms(1) this, of k] obtain xs x ys t where x: "es = xs @ x # ys"
    "KeRemoveByKeyDeviceQueue q k s = Some (Inr (Some x, t))" "device_queue t q (xs @ ys)" "SortKey t = SortKey s"
    "if \<exists>y\<in>set es. k \<le> SortKey s y then k \<le> SortKey s x \<and> (\<forall>y\<in>set xs. SortKey s y < k) else xs = []" by blast
  have "x \<notin> set xs" using assms(1) x(1) by (auto simp: device_queue_def ring_def)
  with x(1) have rm: "remove1 x es = xs @ ys" by (simp add: remove1_append)
  have "sorted (map (SortKey t) (remove1 x es))"
    unfolding rm x(4) using assms(2) x(1) by (simp add: sorted_append)
  moreover have "if \<exists>y\<in>set es. k \<le> SortKey s y then k \<le> SortKey s x \<and> (\<forall>y\<in>set es. k \<le> SortKey s y \<longrightarrow> SortKey s x \<le> SortKey s y)
           else \<forall>y\<in>set es. SortKey s x \<le> SortKey s y"
    using x(5) assms(2) x(1) by (auto simp: sorted_append not_le [symmetric] split: if_splits)
  moreover have "x \<in> set es" using x(1) by simp
  moreover have "device_queue t q (remove1 x es)" unfolding rm by (rule x(3))
  ultimately show "\<exists>t x. KeRemoveByKeyDeviceQueue q k s = Some (Inr (Some x, t)) \<and> x \<in> set es
        \<and> device_queue t q (remove1 x es) \<and> sorted (map (SortKey t) (remove1 x es))
        \<and> (if \<exists>y\<in>set es. k \<le> SortKey s y then k \<le> SortKey s x \<and> (\<forall>y\<in>set es. k \<le> SortKey s y \<longrightarrow> SortKey s x \<le> SortKey s y)
           else \<forall>y\<in>set es. SortKey s x \<le> SortKey s y)"
    using x(2) by blast
next
  assume "es = []"
  with assms(1) IsListEmpty_ring [of s "DeviceHead q" "[]"]
  show "\<exists>t. KeRemoveByKeyDeviceQueue q k s = Some (Inr (None, t)) \<and> device_queue t q [] \<and> \<not> Busy t q"
    by (simp add: KeRemoveByKeyDeviceQueue_def obnd_def lift_def) (simp add: device_queue_def ring_def)
qed

definition device_example :: device_data where
  "device_example = \<lparr>Flink = (\<lambda>_. Null)(DeviceHead 0 := DeviceEntry 1, DeviceEntry 1 := DeviceEntry 2, DeviceEntry 2 := DeviceHead 0),
     Blink = (\<lambda>_. Null)(DeviceHead 0 := DeviceEntry 2, DeviceEntry 1 := DeviceHead 0, DeviceEntry 2 := DeviceEntry 1),
     dq_Type = (\<lambda>_. 0x14), Busy = (\<lambda>_. True), SortKey = (\<lambda>_. 0)(1 := 10, 2 := 30), dev_Inserted = (\<lambda>e. e = 1 \<or> e = 2)\<rparr>"

theorem ke_device_queue_elevator_witness:
  "(\<exists>t xs ys. KeInsertByKeyDeviceQueue 0 3 20 device_example = Some (Inr (True, t)) \<and> [1, 2] = xs @ ys
      \<and> device_queue t 0 (xs @ 3 # ys) \<and> sorted (map (SortKey t) (xs @ 3 # ys)))
   \<and> (\<exists>t x. KeRemoveByKeyDeviceQueue 0 20 device_example = Some (Inr (Some x, t)) \<and> 20 \<le> SortKey device_example x)"
proof -
  have q: "device_queue device_example 0 [1, 2]" by (simp add: device_queue_def device_example_def ring_def)
  have o: "sorted (map (SortKey device_example) [1, 2])" by (simp add: device_example_def)
  have e: "Busy device_example 0" "(20 :: u32) \<le> SortKey device_example 2" by (simp_all add: device_example_def)
  show ?thesis using ke_device_queue_elevator [OF q o, of 3 20] e by auto
qed

end
