(* ===== verification/Ke_Timer.thy ===== *)
theory Ke_Timer
  imports Ke_Dpc
begin

text \<open>
  The dispatcher's state and its timer table (\<open>src/core/kernel/exports/EmuKrnlKi.cpp\<close>).

  A dispatcher object is a \<open>kobject\<close>: the \<open>DISPATCHER_HEADER\<close> with the fields that \<open>KTIMER\<close>,
  \<open>KSEMAPHORE\<close> and \<open>KMUTANT\<close> add to it. \<open>KiTimerTableListHead\<close> is 32 lists, the nodes \<open>TimerHead\<close>,
  with the time \<open>TableTime\<close> of each. The \<open>KSYSTEM_TIME\<close> counters are 64-bit words: the spin loops
  that read their halves consistently are not modelled. The locks and the interrupt request level are
  not modelled: every operation here runs under them.
\<close>

section \<open>State\<close>

datatype thread_state = Initialized | Ready | Running | Standby | Terminated | Waiting | Transition

datatype wait_type = WaitAll | WaitAny

record kobject =
  hdr_Type :: u8
  Absolute :: bool
  hdr_Inserted :: bool
  SignalState :: u32
  DueTime :: u64
  tmr_Dpc :: "nat option"
  Period :: u32
  Limit :: u32
  OwnerThread :: "nat option"
  Abandoned :: bool

record wait_block =
  wb_Thread :: nat
  wb_Object :: obj
  NextWaitBlock :: block
  WaitKey :: u16
  WaitType :: wait_type

record kthread =
  State :: thread_state
  WaitStatus :: u32
  WaitBlockList :: block
  Alertable :: bool
  WaitMode :: bool
  WaitTime :: u32
  WaitNext :: bool
  Alerted :: "bool \<times> bool"
  UserApcs :: bool
  UserApcPending :: bool

record ke = dpc_data +
  Objs :: "obj \<Rightarrow> kobject"
  Blocks :: "block \<Rightarrow> wait_block"
  Threads :: "nat \<Rightarrow> kthread"
  TableTime :: "nat \<Rightarrow> u64"
  KeInterruptTime :: u64
  KeSystemTime :: u64
  KeTickCount :: u32
  LostUs :: u64

definition EventNotificationObject :: u8 where "EventNotificationObject = 0"
definition EventSynchronizationObject :: u8 where "EventSynchronizationObject = 1"
definition MutantObject :: u8 where "MutantObject = 2"
definition SemaphoreObject :: u8 where "SemaphoreObject = 5"
definition TimerNotificationObject :: u8 where "TimerNotificationObject = 8"
definition TimerSynchronizationObject :: u8 where "TimerSynchronizationObject = 9"

definition CLOCK_TIME_INCREMENT :: u64 where "CLOCK_TIME_INCREMENT = 0x2710"

lemmas object_types = EventNotificationObject_def EventSynchronizationObject_def MutantObject_def
  SemaphoreObject_def TimerNotificationObject_def TimerSynchronizationObject_def

definition set_obj :: "obj \<Rightarrow> (kobject \<Rightarrow> kobject) \<Rightarrow> (unit, 'a ke_scheme) run" where
  "set_obj o' f = modify (\<lambda>s. s\<lparr>Objs := (Objs s)(o' := f (Objs s o'))\<rparr>)"

definition get_obj :: "obj \<Rightarrow> (kobject, 'a ke_scheme) run" where
  "get_obj o' = get (\<lambda>s. Objs s o')"

definition timer_of :: "node \<Rightarrow> (obj, 'a ke_scheme) run" where
  "timer_of n = (case n of TimerEntry t \<Rightarrow> ret t | _ \<Rightarrow> fail BadPointer)"

section \<open>Operations\<close>

definition KeQueryInterruptTime :: "(u64, 'a ke_scheme) run" where
  "KeQueryInterruptTime = get KeInterruptTime"

definition KeQuerySystemTime :: "(u64, 'a ke_scheme) run" where
  "KeQuerySystemTime = get KeSystemTime"

definition KeInitializeTimerEx :: "obj \<Rightarrow> u8 \<Rightarrow> (unit, 'a ke_scheme) run" where
  "KeInitializeTimerEx t ty =
     bnd (set_obj t (\<lambda>k. k\<lparr>hdr_Type := ty + TimerNotificationObject, hdr_Inserted := False, SignalState := 0\<rparr>)) (\<lambda>_.
     bnd (InitializeListHead (WaitHead t)) (\<lambda>_.
     bnd (set_Blink (TimerEntry t) Null) (\<lambda>_. bnd (set_Flink (TimerEntry t) Null) (\<lambda>_.
     set_obj t (\<lambda>k. k\<lparr>DueTime := 0, Period := 0\<rparr>)))))"

definition set_high :: "u64 \<Rightarrow> u64" where
  "set_high v = take_bit 32 v OR 0xFFFFFFFF00000000"

definition set_TableTime :: "nat \<Rightarrow> u64 \<Rightarrow> (unit, 'a ke_scheme) run" where
  "set_TableTime h v = modify (\<lambda>s. s\<lparr>TableTime := (TableTime s)(h := v)\<rparr>)"

definition clear_time :: "nat \<Rightarrow> (unit, 'a ke_scheme) run" where
  "clear_time h = bnd (IsListEmpty (TimerHead h)) (\<lambda>e.
     if e then bnd (get (\<lambda>s. TableTime s h)) (\<lambda>v. set_TableTime h (set_high v)) else ret ())"

definition KiRemoveEntryTimer :: "obj \<Rightarrow> nat \<Rightarrow> (unit, 'a ke_scheme) run" where
  "KiRemoveEntryTimer t h = bnd (RemoveEntryList (TimerEntry t)) (\<lambda>r.
     bnd (if r then clear_time h else ret ()) (\<lambda>_.
     bnd (set_Flink (TimerEntry t) Null) (\<lambda>_. set_Blink (TimerEntry t) Null)))"

definition KiComputeTimerTableIndex :: "u64 \<Rightarrow> nat" where
  "KiComputeTimerTableIndex i = unat ((i div CLOCK_TIME_INCREMENT) AND 31)"

definition KxRemoveTreeTimer :: "obj \<Rightarrow> (unit, 'a ke_scheme) run" where
  "KxRemoveTreeTimer t = bnd (get_obj t) (\<lambda>k. bnd (set_obj t (\<lambda>k. k\<lparr>hdr_Inserted := False\<rparr>)) (\<lambda>_.
     bnd (RemoveEntryList (TimerEntry t)) (\<lambda>r.
     if r then clear_time (KiComputeTimerTableIndex (DueTime k)) else ret ())))"

text \<open>The scan of a bucket from its end for the first timer that is not due later.\<close>

partial_function (option) find_not_later ::
  "node \<Rightarrow> u64 \<Rightarrow> node \<Rightarrow> 'a ke_scheme \<Rightarrow> (fault + node \<times> 'a ke_scheme) option" where
  "find_not_later h due n s = (if n = h then Some (Inr (n, s)) else
     obnd (lift (timer_of n)) (\<lambda>t. obnd (lift (get_obj t)) (\<lambda>k.
       if DueTime k \<le> due then oret n else obnd (lift (get_Blink n)) (\<lambda>b u. find_not_later h due b u))) s)"

definition KiInsertTimerTable :: "obj \<Rightarrow> nat \<Rightarrow> (bool, 'a ke_scheme) orun" where
  "KiInsertTimerTable t h = obnd (lift (get_obj t)) (\<lambda>k.
     obnd (lift (if Period k = 0 then set_obj t (\<lambda>k. k\<lparr>SignalState := 0\<rparr>) else ret ())) (\<lambda>_.
     obnd (lift (get_Blink (TimerHead h))) (\<lambda>b.
     obnd (find_not_later (TimerHead h) (DueTime k) b) (\<lambda>n.
     obnd (lift (InsertHeadList n (TimerEntry t))) (\<lambda>_.
     if n = TimerHead h then
       obnd (lift (set_TableTime h (DueTime k))) (\<lambda>_.
       obnd (lift KeQueryInterruptTime) (\<lambda>now. oret (DueTime k \<le> now)))
     else oret False)))))"

text \<open>A non-negative due time is absolute, a negative one is relative; the result carries the bucket.\<close>

definition KiComputeDueTime :: "obj \<Rightarrow> u64 \<Rightarrow> (bool \<times> nat, 'a ke_scheme) run" where
  "KiComputeDueTime t due = bnd (set_obj t (\<lambda>k. k\<lparr>Absolute := False\<rparr>)) (\<lambda>_.
     bnd KeQuerySystemTime (\<lambda>sys. bnd KeQueryInterruptTime (\<lambda>now.
     let arm = (\<lambda>d. bnd (set_obj t (\<lambda>k. k\<lparr>DueTime := now - d, hdr_Inserted := True\<rparr>)) (\<lambda>_.
           ret (True, KiComputeTimerTableIndex (now - d)))) in
     if 0 \<le>s due then
       bnd (set_obj t (\<lambda>k. k\<lparr>Absolute := True\<rparr>)) (\<lambda>_.
       if 0 \<le>s sys - due then
         bnd (set_obj t (\<lambda>k. k\<lparr>SignalState := 1, DueTime := 0\<rparr>)) (\<lambda>_. ret (False, 0))
       else arm (sys - due))
     else arm due)))"

definition KiInsertTreeTimer :: "obj \<Rightarrow> u64 \<Rightarrow> (bool, 'a ke_scheme) orun" where
  "KiInsertTreeTimer t due = obnd (lift (KiComputeDueTime t due)) (\<lambda>(ok, h).
     if ok then obnd (KiInsertTimerTable t h) (\<lambda>expired.
       if expired then
         obnd (lift (KiRemoveEntryTimer t h)) (\<lambda>_.
         obnd (lift (set_obj t (\<lambda>k. k\<lparr>hdr_Inserted := False\<rparr>))) (\<lambda>_. oret False))
       else oret True)
     else oret False)"

definition KeCancelTimer :: "obj \<Rightarrow> (bool, 'a ke_scheme) run" where
  "KeCancelTimer t = bnd (get_obj t) (\<lambda>k.
     bnd (if hdr_Inserted k then KxRemoveTreeTimer t else ret ()) (\<lambda>_. ret (hdr_Inserted k)))"

end
