(* ===== verification/Ke_TimerFacts.thy ===== *)
theory Ke_TimerFacts
  imports Ke_Timer
begin

text \<open>
  The timer table as 32 lists of timers sorted by due time. \<open>timers_ok\<close> is the representation,
  \<open>timer_table\<close> adds that the \<open>Inserted\<close> flags tell which timers are in it; \<open>timer_frame\<close> is what the
  table's operations leave alone.
\<close>

definition bucket :: "'a ke_scheme \<Rightarrow> obj \<Rightarrow> nat" where
  "bucket s t = KiComputeTimerTableIndex (DueTime (Objs s t))"

definition timers_ok :: "'a ke_scheme \<Rightarrow> (nat \<Rightarrow> obj list) \<Rightarrow> bool" where
  "timers_ok s T \<longleftrightarrow> (\<forall>h<32. ring s (TimerHead h) (map TimerEntry (T h))
     \<and> sorted (map (\<lambda>t. DueTime (Objs s t)) (T h)) \<and> (\<forall>t\<in>set (T h). bucket s t = h)
     \<and> (T h \<noteq> [] \<longrightarrow> TableTime s h \<le> DueTime (Objs s (hd (T h)))))"

lemma timers_okD:
  assumes "timers_ok s T" and "h < 32"
  shows "ring s (TimerHead h) (map TimerEntry (T h))" and "sorted (map (\<lambda>t. DueTime (Objs s t)) (T h))"
    and "t \<in> set (T h) \<Longrightarrow> bucket s t = h" and "T h \<noteq> [] \<Longrightarrow> TableTime s h \<le> DueTime (Objs s (hd (T h)))"
  using assms by (simp_all add: timers_ok_def)

lemma timers_ok_buckets: "timers_ok s T \<Longrightarrow> (\<And>h. h < 32 \<Longrightarrow> U h = T h) \<Longrightarrow> timers_ok s U"
  by (simp add: timers_ok_def)

definition timer_table :: "'a ke_scheme \<Rightarrow> (nat \<Rightarrow> obj list) \<Rightarrow> bool" where
  "timer_table s T \<longleftrightarrow> timers_ok s T \<and> (\<forall>t. hdr_Inserted (Objs s t) \<longleftrightarrow> t \<in> set (T (bucket s t)))"

fun timer_node :: "node \<Rightarrow> bool" where
  "timer_node (TimerHead h) = True"
| "timer_node (TimerEntry t) = True"
| "timer_node n = False"

definition same_kernel :: "'a ke_scheme \<Rightarrow> 'a ke_scheme \<Rightarrow> bool" where
  "same_kernel s s' \<longleftrightarrow> KeInterruptTime s' = KeInterruptTime s \<and> KeSystemTime s' = KeSystemTime s
     \<and> KeTickCount s' = KeTickCount s \<and> LostUs s' = LostUs s \<and> Blocks s' = Blocks s
     \<and> Dpcs s' = Dpcs s \<and> IsDpcPending s' = IsDpcPending s \<and> IsDpcActive s' = IsDpcActive s
     \<and> HalInterruptRequestRegister s' = HalInterruptRequestRegister s \<and> ke.more s' = ke.more s"

definition timer_frame :: "'a ke_scheme \<Rightarrow> 'a ke_scheme \<Rightarrow> bool" where
  "timer_frame s s' \<longleftrightarrow> (\<forall>n. \<not> timer_node n \<longrightarrow> Flink s' n = Flink s n \<and> Blink s' n = Blink s n)
     \<and> Threads s' = Threads s \<and> same_kernel s s'"

lemma ke_links [simp]:
  "Objs (link_between p e n s) = Objs s" "Objs (unlink p n s) = Objs s"
  "TableTime (link_between p e n s) = TableTime s" "TableTime (unlink p n s) = TableTime s"
  "Threads (link_between p e n s) = Threads s" "Threads (unlink p n s) = Threads s"
  "Blocks (link_between p e n s) = Blocks s" "Blocks (unlink p n s) = Blocks s"
  "KeInterruptTime (link_between p e n s) = KeInterruptTime s" "KeInterruptTime (unlink p n s) = KeInterruptTime s"
  "same_kernel s (link_between p e n s)" "same_kernel s (unlink p n s)"
  by (simp_all add: link_between_def unlink_def same_kernel_def)

lemma same_kernel_refl [simp]: "same_kernel s s"
  by (simp add: same_kernel_def)

lemma same_kernel_trans: "same_kernel s t \<Longrightarrow> same_kernel t u \<Longrightarrow> same_kernel s u"
  by (simp add: same_kernel_def)

lemma timer_frame_refl [simp]: "timer_frame s s"
  by (simp add: timer_frame_def)

lemma timer_frame_trans: "timer_frame s t \<Longrightarrow> timer_frame t u \<Longrightarrow> timer_frame s u"
  by (auto simp: timer_frame_def dest: same_kernel_trans)

lemma index_less: "KiComputeTimerTableIndex i < 32"
  using take_bit_nat_less_exp [of 5 "unat (i div CLOCK_TIME_INCREMENT)"]
  by (simp add: KiComputeTimerTableIndex_def mask_simps unsigned_take_bit_eq)

lemma bucket_less [simp]: "bucket s t < 32"
  by (simp add: bucket_def index_less)

lemma filter_neq_id: "t \<notin> set xs \<Longrightarrow> filter (\<lambda>u. u \<noteq> t) xs = xs"
  by (rule filter_True) auto

lemma find_not_later_ring:
  assumes "ring s h (map TimerEntry ts @ ys)"
  shows "find_not_later h due (last (h # map TimerEntry ts)) s =
    Some (Inr (last (h # map TimerEntry (rev (dropWhile (\<lambda>t. due < DueTime (Objs s t)) (rev ts)))), s))"
  using assms
proof (induction ts arbitrary: ys rule: rev_induct)
  case (snoc t ts)
  have r: "ring s h (map TimerEntry ts @ TimerEntry t # ys)" using snoc.prems by simp
  then have "TimerEntry t \<noteq> h" by (auto simp: ring_def)
  moreover have "Blink s (TimerEntry t) = last (h # map TimerEntry ts)"
    using ring_neighbours(2) [OF r] by simp
  ultimately show ?case using snoc.IH [OF r]
    by (subst find_not_later.simps) (auto simp: timer_of_def get_obj_def obnd_lift_step get_Blink_def not_less)
qed (simp add: find_not_later.simps)

lemma dropWhile_rev_sorted:
  fixes f :: "'a \<Rightarrow> 'b :: linorder"
  assumes "sorted (map f xs)"
  shows "rev (dropWhile (\<lambda>x. d < f x) (rev xs)) = takeWhile (\<lambda>x. f x \<le> d) xs"
  using assms
proof (induction xs rule: rev_induct)
  case (snoc x xs)
  then have IH: "rev (dropWhile (\<lambda>x. d < f x) (rev xs)) = takeWhile (\<lambda>x. f x \<le> d) xs" by (simp add: sorted_append)
  show ?case
  proof (cases "d < f x")
    case True
    with IH show ?thesis by (cases "\<forall>y\<in>set xs. f y \<le> d") (auto simp: takeWhile_append takeWhile_eq_all_conv [THEN iffD2])
  next
    case False
    with snoc.prems have "\<forall>y\<in>set xs. f y \<le> d" by (fastforce simp: sorted_append)
    with False show ?thesis by (simp add: not_less takeWhile_append)
  qed
qed simp

lemma after_takeWhile:
  fixes f :: "'a \<Rightarrow> 'b :: linorder"
  assumes "sorted (map f xs)"
  shows "\<forall>y\<in>set (dropWhile (\<lambda>x. f x \<le> d) xs). d < f y"
  using assms by (induction xs) (auto simp: not_le intro: less_le_trans)

text \<open>Rings of the other buckets, and of anything that is not the table's, survive.\<close>

lemma timers_ok_upd:
  assumes "timers_ok s T" and "h < 32"
    and "ring s' (TimerHead h) (map TimerEntry l)" and "sorted (map (\<lambda>t. DueTime (Objs s' t)) l)"
    and "\<forall>t\<in>set l. bucket s' t = h" and "l \<noteq> [] \<Longrightarrow> TableTime s' h \<le> DueTime (Objs s' (hd l))"
    and "\<And>u. DueTime (Objs s' u) = DueTime (Objs s u)" and "\<And>g. g \<noteq> h \<Longrightarrow> TableTime s' g = TableTime s g"
    and "\<And>g. g \<noteq> h \<Longrightarrow> g < 32 \<Longrightarrow> ring s' (TimerHead g) (map TimerEntry (T g))"
  shows "timers_ok s' (T(h := l))"
  using assms by (simp add: timers_ok_def bucket_def)

lemma timer_rings:
  assumes "timers_ok s T" and "g < 32" and "t \<in> set (T g)" and "h < 32" and "t \<in> set (T h)"
  shows "g = h"
  using assms by (metis timers_ok_def)

lemma last_timer: "last (TimerHead h # map TimerEntry xs) = (if xs = [] then TimerHead h else TimerEntry (last xs))"
  by (simp add: last_map)

lemma hd_timer: "hd (map TimerEntry ys @ [TimerHead h]) = (if ys = [] then TimerHead h else TimerEntry (hd ys))"
  by (cases ys) simp_all

lemma KiInsertTimerTable_ok:
  assumes ok: "timers_ok s T" and new: "t \<notin> set (T h)" and h: "h = bucket s t"
  defines "D \<equiv> DueTime (Objs s t)"
  defines "xs \<equiv> takeWhile (\<lambda>u. DueTime (Objs s u) \<le> D) (T h)" and "ys \<equiv> dropWhile (\<lambda>u. DueTime (Objs s u) \<le> D) (T h)"
  shows "\<exists>s'. KiInsertTimerTable t h s = Some (Inr (xs = [] \<and> D \<le> KeInterruptTime s, s')) \<and> timers_ok s' (T(h := xs @ t # ys))
    \<and> timer_frame s s' \<and> Objs s' = (Objs s)(t := (Objs s t)\<lparr>SignalState := if Period (Objs s t) = 0 then 0 else SignalState (Objs s t)\<rparr>)"
proof -
  let ?h = "TimerHead h"
  have h32: "h < 32" by (simp add: h)
  define s1 where "s1 = s\<lparr>Objs := (Objs s)(t := (Objs s t)\<lparr>SignalState := if Period (Objs s t) = 0 then 0 else SignalState (Objs s t)\<rparr>)\<rparr>"
  have D1: "DueTime (Objs s1 u) = DueTime (Objs s u)" for u by (simp add: s1_def)
  have set: "lift (if Period (Objs s t) = 0 then set_obj t (\<lambda>k. k\<lparr>SignalState := 0\<rparr>) else ret ()) s = Some (Inr ((), s1))"
    by (auto simp: s1_def lift_def set_obj_def run_simps)
  have Th: "T h = xs @ ys" by (simp add: xs_def ys_def)
  have r1: "ring s1 (TimerHead g) (map TimerEntry (T g))" if "g < 32" for g
    using ok that by (simp add: timers_ok_def ring_def s1_def)
  have sorted: "sorted (map (\<lambda>u. DueTime (Objs s u)) (T h))" using ok h32 by (simp add: timers_ok_def)
  define p n where "p = last (?h # map TimerEntry xs)" and "n = hd (map TimerEntry ys @ [?h])"
  have b: "get_Blink ?h s1 = Inr (last (?h # map TimerEntry (T h)), s1)"
    using ring_Blink_head [OF r1 [OF h32]] by (simp add: get_Blink_def)
  have f: "find_not_later ?h D (last (?h # map TimerEntry (T h))) s1 = Some (Inr (p, s1))"
    using find_not_later_ring [of s1 ?h "T h" "[]" D] r1 [OF h32]
    by (simp add: D1 dropWhile_rev_sorted [OF sorted] xs_def p_def)
  have r: "ring s1 ?h (map TimerEntry xs @ map TimerEntry ys)" using r1 [OF h32] by (simp add: Th)
  have e: "TimerEntry t \<notin> set (?h # map TimerEntry xs @ map TimerEntry ys)" using new by (auto simp: Th)
  define s2 where "s2 = link_between p (TimerEntry t) n s1"
  have i: "InsertHeadList p (TimerEntry t) s1 = Inr ((), s2)"
    using InsertHead_ring [OF r e] unfolding p_def n_def s2_def by simp
  have r2: "ring s2 ?h (map TimerEntry (xs @ t # ys))" using ring_link [OF r e] unfolding p_def n_def s2_def by simp
  have ph: "p = ?h \<longleftrightarrow> xs = []" unfolding p_def last_timer by simp
  define s3 where "s3 = (if xs = [] then s2\<lparr>TableTime := (TableTime s2)(h := D)\<rparr> else s2)"
  have s3: "Flink s3 = Flink s2" "Blink s3 = Blink s2" "Objs s3 = Objs s1" "KeInterruptTime s3 = KeInterruptTime s"
    by (simp_all add: s3_def s2_def s1_def)
  have run: "KiInsertTimerTable t h s = Some (Inr (xs = [] \<and> D \<le> KeInterruptTime s, s3))"
    using set b f i ph
    by (simp add: KiInsertTimerTable_def get_obj_def obnd_def lift_def D_def [symmetric] set_TableTime_def
        KeQueryInterruptTime_def s3_def s2_def s1_def)
  have nodes: "p \<in> set (?h # map TimerEntry (T h))" "n \<in> set (?h # map TimerEntry (T h))"
    unfolding p_def n_def last_timer hd_timer Th by auto
  have other: "ring s3 (TimerHead g) (map TimerEntry (T g))" if g: "g \<noteq> h" "g < 32" for g
  proof -
    have t: "t \<notin> set (T g)" using ok g h by (auto simp: timers_ok_def)
    have "u \<notin> set (T g)" if "u \<in> set (T h)" for u using timer_rings [OF ok g(2) _ h32 that] g(1) by blast
    with nodes g t have "p \<notin> set (TimerHead g # map TimerEntry (T g))" "n \<notin> set (TimerHead g # map TimerEntry (T g))"
      "TimerEntry t \<notin> set (TimerHead g # map TimerEntry (T g))" by auto
    from link_other [OF r1 [OF g(2)] this(1,3,2)] have "ring s2 (TimerHead g) (map TimerEntry (T g))" by (simp add: s2_def)
    then show ?thesis by (simp add: ring_def s3)
  qed
  have ok3: "timers_ok s3 (T(h := xs @ t # ys))"
  proof (rule timers_ok_upd [OF ok h32])
    show "ring s3 ?h (map TimerEntry (xs @ t # ys))" using r2 by (simp add: ring_def s3)
    have "\<forall>x\<in>set xs. DueTime (Objs s x) \<le> D" by (auto simp: xs_def dest: set_takeWhileD)
    moreover have "\<forall>y\<in>set ys. D < DueTime (Objs s y)" unfolding ys_def by (rule after_takeWhile [OF sorted])
    moreover have "sorted (map (\<lambda>u. DueTime (Objs s u)) xs)" "sorted (map (\<lambda>u. DueTime (Objs s u)) ys)"
      "\<forall>x\<in>set xs. \<forall>y\<in>set ys. DueTime (Objs s x) \<le> DueTime (Objs s y)"
      using sorted unfolding Th by (simp_all add: sorted_append)
    ultimately have "sorted (map (\<lambda>u. DueTime (Objs s u)) (xs @ t # ys))"
      by (auto simp: sorted_append D_def [symmetric] intro: less_imp_le)
    then show "sorted (map (\<lambda>u. DueTime (Objs s3 u)) (xs @ t # ys))" by (simp add: s3 D1)
    have "\<forall>u\<in>set (T h). bucket s u = h" using ok h32 by (simp add: timers_ok_def)
    then show "\<forall>u\<in>set (xs @ t # ys). bucket s3 u = h" unfolding Th using h by (auto simp: bucket_def s3 D1)
    show "TableTime s3 h \<le> DueTime (Objs s3 (hd (xs @ t # ys)))"
    proof (cases xs)
      case Nil
      then show ?thesis by (simp add: s3_def s2_def D1 D_def)
    next
      case (Cons x xs')
      then have "TableTime s h \<le> DueTime (Objs s x)" using timers_okD(4) [OF ok h32] by (simp add: Th)
      with Cons show ?thesis by (simp add: s3_def s2_def D1) (simp add: s1_def)
    qed
    show "DueTime (Objs s3 u) = DueTime (Objs s u)" for u by (simp add: s3 D1)
    show "TableTime s3 g = TableTime s g" if "g \<noteq> h" for g using that by (simp add: s3_def s2_def) (simp add: s1_def)
  qed (rule other)
  have "timer_node p" "timer_node n" unfolding p_def n_def last_timer hd_timer by simp_all
  then have "timer_frame s s3"
    by (auto simp: timer_frame_def s3_def s2_def s1_def link_between_def same_kernel_def)
  with run ok3 show ?thesis by (intro exI [of _ s3]) (simp add: s3 s1_def)
qed

lemma timer_unlink:
  assumes ok: "timers_ok s T" and h: "h < 32" and Th: "T h = xs @ t # ys"
  shows "\<exists>s'. bnd (RemoveEntryList (TimerEntry t)) (\<lambda>r. if r then clear_time h else ret ()) s = Inr ((), s')
    \<and> timers_ok s' (T(h := xs @ ys)) \<and> timer_frame s s' \<and> Objs s' = Objs s"
proof -
  let ?h = "TimerHead h"
  have r: "ring s ?h (map TimerEntry xs @ TimerEntry t # map TimerEntry ys)"
    using timers_okD(1) [OF ok h] by (simp add: Th)
  define p n where "p = last (?h # map TimerEntry xs)" and "n = hd (map TimerEntry ys @ [?h])"
  define s1 where "s1 = unlink p n s"
  have rm: "RemoveEntryList (TimerEntry t) s = Inr (xs = [] \<and> ys = [], s1)"
    using Remove_ring(1) [OF r] unfolding s1_def p_def n_def by simp
  have r1: "ring s1 ?h (map TimerEntry (xs @ ys))" using Remove_ring(2) [OF r] unfolding s1_def p_def n_def by simp
  define s2 where "s2 = (if xs = [] \<and> ys = [] then s1\<lparr>TableTime := (TableTime s1)(h := set_high (TableTime s1 h))\<rparr> else s1)"
  have s2: "Flink s2 = Flink s1" "Blink s2 = Blink s1" "Objs s2 = Objs s"
    "g \<noteq> h \<Longrightarrow> TableTime s2 g = TableTime s g" for g by (auto simp: s2_def s1_def)
  have run: "bnd (RemoveEntryList (TimerEntry t)) (\<lambda>r. if r then clear_time h else ret ()) s = Inr ((), s2)"
    using IsListEmpty_ring [OF r1] by (simp add: run_simps rm clear_time_def set_TableTime_def s2_def)
  have nodes: "p \<in> set (?h # map TimerEntry (T h))" "n \<in> set (?h # map TimerEntry (T h))"
    unfolding p_def n_def last_timer hd_timer Th by auto
  have "timers_ok s2 (T(h := xs @ ys))"
  proof (rule timers_ok_upd [OF ok h])
    show "ring s2 ?h (map TimerEntry (xs @ ys))" using r1 by (simp add: ring_def s2)
    have sorted: "sorted (map (\<lambda>u. DueTime (Objs s u)) (xs @ t # ys))"
      using timers_okD(2) [OF ok h] by (simp add: Th)
    then show "sorted (map (\<lambda>u. DueTime (Objs s2 u)) (xs @ ys))" by (simp add: sorted_append s2)
    have "\<forall>u\<in>set (T h). bucket s u = h" using ok h by (simp add: timers_ok_def)
    then show "\<forall>u\<in>set (xs @ ys). bucket s2 u = h" by (simp add: bucket_def s2 Th)
    assume "xs @ ys \<noteq> []"
    moreover have "TableTime s h \<le> DueTime (Objs s (hd (xs @ t # ys)))"
      using timers_okD(4) [OF ok h] by (simp add: Th)
    moreover have "DueTime (Objs s t) \<le> DueTime (Objs s (hd ys))" if "ys \<noteq> []"
      using sorted that by (cases ys) (auto simp: sorted_append)
    ultimately show "TableTime s2 h \<le> DueTime (Objs s2 (hd (xs @ ys)))"
      by (cases xs) (auto simp: s2_def s1_def)
  next
    fix g assume g: "g \<noteq> h" "g < 32"
    have "u \<notin> set (T g)" if "u \<in> set (T h)" for u using timer_rings [OF ok g(2) _ h that] g(1) by blast
    with nodes g have "p \<notin> set (TimerHead g # map TimerEntry (T g))" "n \<notin> set (TimerHead g # map TimerEntry (T g))" by auto
    moreover have "ring s (TimerHead g) (map TimerEntry (T g))" using ok g by (simp add: timers_ok_def)
    ultimately have "ring s1 (TimerHead g) (map TimerEntry (T g))" unfolding s1_def by (intro unlink_other)
    then show "ring s2 (TimerHead g) (map TimerEntry (T g))" by (simp add: ring_def s2)
  qed (simp_all add: s2)
  moreover have "timer_node p" "timer_node n" unfolding p_def n_def last_timer hd_timer by simp_all
  then have "timer_frame s s2" by (auto simp: timer_frame_def s2_def s1_def unlink_def same_kernel_def)
  ultimately show ?thesis using run s2(3) by blast
qed

lemma KiRemoveEntryTimer_ok:
  assumes ok: "timers_ok s T" and h: "h < 32" and Th: "T h = xs @ t # ys"
  shows "\<exists>s'. KiRemoveEntryTimer t h s = Inr ((), s') \<and> timers_ok s' (T(h := xs @ ys)) \<and> timer_frame s s' \<and> Objs s' = Objs s"
proof -
  obtain u where u: "bnd (RemoveEntryList (TimerEntry t)) (\<lambda>r. if r then clear_time h else ret ()) s = Inr ((), u)"
    "timers_ok u (T(h := xs @ ys))" "timer_frame s u" "Objs u = Objs s" using timer_unlink [OF assms] by blast
  define v where "v = u\<lparr>Flink := (Flink u)(TimerEntry t := Null), Blink := (Blink u)(TimerEntry t := Null)\<rparr>"
  have "KiRemoveEntryTimer t h s = Inr ((), v)"
    unfolding KiRemoveEntryTimer_def bnd_assoc [symmetric] using u(1)
    by (simp add: bnd_def [of "bnd _ _"] v_def) (simp add: run_simps)
  moreover have "timers_ok v (T(h := xs @ ys))"
  proof -
    have t: "t \<notin> set ((T(h := xs @ ys)) g)" if g: "g < 32" for g
    proof (cases "g = h")
      case True
      have "ring s (TimerHead h) (map TimerEntry (xs @ t # ys))" using timers_okD(1) [OF ok h] by (simp add: Th)
      with True show ?thesis by (auto simp: ring_def)
    next
      case False
      then show ?thesis using timer_rings [OF ok g _ h] Th by auto
    qed
    have "ring v (TimerHead g) (map TimerEntry ((T(h := xs @ ys)) g))" if g: "g < 32" for g
    proof -
      have "ring u (TimerHead g) (map TimerEntry ((T(h := xs @ ys)) g))" using u(2) g by (metis timers_ok_def)
      then show ?thesis by (rule ring_frame) (use t [OF g] in \<open>auto simp: v_def\<close>)
    qed
    with u(2) show ?thesis unfolding timers_ok_def by (simp add: v_def bucket_def)
  qed
  moreover have "timer_frame u v" by (auto simp: timer_frame_def v_def same_kernel_def)
  ultimately show ?thesis using timer_frame_trans [OF u(3)] u(4) by (intro exI [of _ v]) (simp add: v_def)
qed

lemma KxRemoveTreeTimer_ok:
  assumes ok: "timers_ok s T" and Th: "T (bucket s t) = xs @ t # ys"
  shows "\<exists>s'. KxRemoveTreeTimer t s = Inr ((), s') \<and> timers_ok s' (T(bucket s t := xs @ ys)) \<and> timer_frame s s'
    \<and> Objs s' = (Objs s)(t := (Objs s t)\<lparr>hdr_Inserted := False\<rparr>)"
proof -
  define s1 where "s1 = s\<lparr>Objs := (Objs s)(t := (Objs s t)\<lparr>hdr_Inserted := False\<rparr>)\<rparr>"
  have D: "DueTime (Objs s1 u) = DueTime (Objs s u)" for u by (simp add: s1_def)
  have "timers_ok s1 T" using ok unfolding timers_ok_def bucket_def D by (simp add: s1_def ring_def)
  from timer_unlink [OF this bucket_less Th] obtain u where
    u: "bnd (RemoveEntryList (TimerEntry t)) (\<lambda>r. if r then clear_time (bucket s t) else ret ()) s1 = Inr ((), u)"
    "timers_ok u (T(bucket s t := xs @ ys))" "timer_frame s1 u" "Objs u = Objs s1" by blast
  have "KxRemoveTreeTimer t s = Inr ((), u)"
    using u(1) unfolding bucket_def
    by (simp add: KxRemoveTreeTimer_def get_obj_def set_obj_def bnd_def [of "get _"] bnd_def [of "modify _"] s1_def)
  moreover have "timer_frame s s1" by (simp add: timer_frame_def s1_def same_kernel_def)
  ultimately show ?thesis using timer_frame_trans [OF _ u(3)] u by (intro exI [of _ u]) (simp add: s1_def)
qed

lemma timers_ok_cong:
  assumes "timers_ok s T" and "\<And>n. timer_node n \<Longrightarrow> Flink s' n = Flink s n \<and> Blink s' n = Blink s n"
    and "TableTime s' = TableTime s"
    and "\<And>g u. g < 32 \<Longrightarrow> u \<in> set (T g) \<Longrightarrow> DueTime (Objs s' u) = DueTime (Objs s u)"
  shows "timers_ok s' T"
proof -
  have "ring s' (TimerHead g) (map TimerEntry (T g)) \<and> sorted (map (\<lambda>t. DueTime (Objs s' t)) (T g))
     \<and> (\<forall>t\<in>set (T g). bucket s' t = g) \<and> (T g \<noteq> [] \<longrightarrow> TableTime s' g \<le> DueTime (Objs s' (hd (T g))))" if g: "g < 32" for g
  proof -
    note old = timers_okD [OF assms(1) g]
    have m: "map (\<lambda>t. DueTime (Objs s' t)) (T g) = map (\<lambda>t. DueTime (Objs s t)) (T g)" using assms(4) [OF g] by simp
    have h: "T g \<noteq> [] \<Longrightarrow> DueTime (Objs s' (hd (T g))) = DueTime (Objs s (hd (T g)))" using assms(4) [OF g] by simp
    have r: "ring s' (TimerHead g) (map TimerEntry (T g))"
      using old(1) by (rule ring_frame) (use assms(2) in auto)
    show ?thesis using old r assms(3) assms(4) [OF g] unfolding m by (auto simp: bucket_def h)
  qed
  then show ?thesis by (simp add: timers_ok_def)
qed

lemma timer_table_cong:
  assumes "timer_table s T" and "\<And>n. timer_node n \<Longrightarrow> Flink s' n = Flink s n \<and> Blink s' n = Blink s n"
    and "TableTime s' = TableTime s"
    and "\<And>u. DueTime (Objs s' u) = DueTime (Objs s u) \<and> hdr_Inserted (Objs s' u) = hdr_Inserted (Objs s u)"
  shows "timer_table s' T"
proof -
  have "timers_ok s T" using assms(1) by (simp add: timer_table_def)
  then have "timers_ok s' T"
  proof (rule timers_ok_cong)
    show "DueTime (Objs s' u) = DueTime (Objs s u)" for u using assms(4) [of u] by simp
  qed (use assms(2,3) in auto)
  then show ?thesis using assms(1,4) by (simp add: timer_table_def bucket_def)
qed

lemma timer_tableD:
  assumes "timer_table s T" and "g < 32" and "u \<in> set (T g)"
  shows "hdr_Inserted (Objs s u)" and "bucket s u = g"
  using assms timers_okD(3) [of s T g u] by (auto simp: timer_table_def)

text \<open>
  The due time of a timer: relative to the interrupt time, where an absolute time is first made
  relative to the system time. \<open>None\<close> is an absolute time that has passed.
\<close>

definition due_time :: "u64 \<Rightarrow> u64 \<Rightarrow> u64 \<Rightarrow> u64 option" where
  "due_time sys now due = (if 0 \<le>s due then if 0 \<le>s sys - due then None else Some (now - (sys - due)) else Some (now - due))"

lemma KiComputeDueTime_run:
  "KiComputeDueTime t due s = (case due_time (KeSystemTime s) (KeInterruptTime s) due of
     None \<Rightarrow> Inr ((False, 0), s\<lparr>Objs := (Objs s)(t := (Objs s t)\<lparr>Absolute := True, SignalState := 1, DueTime := 0\<rparr>)\<rparr>)
   | Some d \<Rightarrow> Inr ((True, KiComputeTimerTableIndex d), s\<lparr>Objs := (Objs s)(t := (Objs s t)\<lparr>Absolute := 0 \<le>s due, DueTime := d, hdr_Inserted := True\<rparr>)\<rparr>))"
  by (auto simp: KiComputeDueTime_def run_simps set_obj_def KeQuerySystemTime_def KeQueryInterruptTime_def due_time_def Let_def)

lemma KiInsertTreeTimer_ok:
  fixes due :: u64
  assumes tab: "timer_table s T" and new: "\<not> hdr_Inserted (Objs s t)"
  defines "d \<equiv> due_time (KeSystemTime s) (KeInterruptTime s) due"
  shows "\<exists>r s' T'. KiInsertTreeTimer t due s = Some (Inr (r, s')) \<and> timer_table s' T' \<and> timer_frame s s'
    \<and> (\<forall>u. u \<noteq> t \<longrightarrow> Objs s' u = Objs s u) \<and> hdr_Inserted (Objs s' t) = r
    \<and> hdr_Type (Objs s' t) = hdr_Type (Objs s t) \<and> Period (Objs s' t) = Period (Objs s t) \<and> tmr_Dpc (Objs s' t) = tmr_Dpc (Objs s t)
    \<and> DueTime (Objs s' t) = (case d of None \<Rightarrow> 0 | Some v \<Rightarrow> v)
    \<and> (if r then d \<noteq> None \<and> (\<exists>xs ys. T (bucket s' t) = xs @ ys \<and> T' = T(bucket s' t := xs @ t # ys)
          \<and> (xs = [] \<longrightarrow> KeInterruptTime s < DueTime (Objs s' t)))
       else T' = T \<and> DueTime (Objs s' t) \<le> KeInterruptTime s)"
proof (cases d)
  case None
  define s' where "s' = s\<lparr>Objs := (Objs s)(t := (Objs s t)\<lparr>Absolute := True, SignalState := 1, DueTime := 0\<rparr>)\<rparr>"
  have run: "KiInsertTreeTimer t due s = Some (Inr (False, s'))"
    using None by (simp add: KiInsertTreeTimer_def obnd_def lift_def KiComputeDueTime_run d_def s'_def)
  have out: "t \<notin> set (T g)" if "g < 32" for g using timer_tableD(1) [OF tab that] new by blast
  have "timers_ok s T" using tab by (simp add: timer_table_def)
  then have "timers_ok s' T" by (rule timers_ok_cong) (use out in \<open>auto simp: s'_def\<close>)
  moreover have "hdr_Inserted (Objs s' u) \<longleftrightarrow> u \<in> set (T (bucket s' u))" for u
  proof (cases "u = t")
    case True
    then show ?thesis using new out [of "bucket s' t"] by (simp add: s'_def)
  next
    case False
    then show ?thesis using tab by (simp add: timer_table_def s'_def bucket_def)
  qed
  moreover have "timer_frame s s'" by (simp add: timer_frame_def s'_def same_kernel_def)
  ultimately show ?thesis using run None new by (intro exI [of _ False] exI [of _ s'] exI [of _ T]) (simp add: timer_table_def s'_def)
next
  case (Some v)
  define h where "h = KiComputeTimerTableIndex v"
  define s1 where "s1 = s\<lparr>Objs := (Objs s)(t := (Objs s t)\<lparr>Absolute := 0 \<le>s due, DueTime := v, hdr_Inserted := True\<rparr>)\<rparr>"
  have c: "KiComputeDueTime t due s = Inr ((True, h), s1)" using Some by (simp add: KiComputeDueTime_run d_def s1_def h_def)
  have out: "t \<notin> set (T g)" if "g < 32" for g using timer_tableD(1) [OF tab that] new by blast
  have "timers_ok s T" using tab by (simp add: timer_table_def)
  then have ok1: "timers_ok s1 T" by (rule timers_ok_cong) (use out in \<open>auto simp: s1_def\<close>)
  have h32: "h < 32" by (simp add: h_def index_less)
  have h: "h = bucket s1 t" by (simp add: bucket_def s1_def h_def)
  define xs ys where "xs = takeWhile (\<lambda>u. DueTime (Objs s1 u) \<le> DueTime (Objs s1 t)) (T h)"
    and "ys = dropWhile (\<lambda>u. DueTime (Objs s1 u) \<le> DueTime (Objs s1 t)) (T h)"
  have Th: "T h = xs @ ys" by (simp add: xs_def ys_def)
  obtain s2 where s2: "KiInsertTimerTable t h s1 = Some (Inr (xs = [] \<and> v \<le> KeInterruptTime s, s2))"
    "timers_ok s2 (T(h := xs @ t # ys))" "timer_frame s1 s2"
    "Objs s2 = (Objs s1)(t := (Objs s1 t)\<lparr>SignalState := if Period (Objs s1 t) = 0 then 0 else SignalState (Objs s1 t)\<rparr>)"
  proof -
    have "DueTime (Objs s1 t) = v" "KeInterruptTime s1 = KeInterruptTime s" by (simp_all add: s1_def)
    with KiInsertTimerTable_ok [OF ok1 out [OF h32] h, folded xs_def ys_def] that show thesis by auto
  qed
  have f: "timer_frame s s2" using s2(3) by (rule timer_frame_trans [rotated]) (simp add: timer_frame_def s1_def same_kernel_def)
  have o2: "\<And>u. u \<noteq> t \<Longrightarrow> Objs s2 u = Objs s u" "hdr_Inserted (Objs s2 t)" "DueTime (Objs s2 t) = v"
    "hdr_Type (Objs s2 t) = hdr_Type (Objs s t)" "Period (Objs s2 t) = Period (Objs s t)" "tmr_Dpc (Objs s2 t) = tmr_Dpc (Objs s t)"
    by (simp_all add: s2(4) s1_def)
  have ins: "hdr_Inserted (Objs s u) \<longleftrightarrow> u \<in> set (T (bucket s u))" for u using tab by (simp add: timer_table_def)
  have b2: "bucket s2 u = (if u = t then h else bucket s u)" for u by (simp add: bucket_def o2 h_def)
  show ?thesis
  proof (cases "xs = [] \<and> v \<le> KeInterruptTime s")
    case False
    have "hdr_Inserted (Objs s2 u) \<longleftrightarrow> u \<in> set ((T(h := xs @ t # ys)) (bucket s2 u))" for u
      using ins [of u] o2(2) Th by (cases "u = t") (auto simp: b2 o2(1))
    with s2(2) have "timer_table s2 (T(h := xs @ t # ys))" by (simp add: timer_table_def)
    moreover have "KiInsertTreeTimer t due s = Some (Inr (True, s2))"
    proof -
      have "(xs = [] \<and> v \<le> KeInterruptTime s) = False" using False by blast
      from s2(1) [unfolded this] show ?thesis by (simp add: KiInsertTreeTimer_def obnd_def lift_def c)
    qed
    moreover have "\<exists>as bs. T (bucket s2 t) = as @ bs \<and> T(h := xs @ t # ys) = T(bucket s2 t := as @ t # bs)
        \<and> (as = [] \<longrightarrow> KeInterruptTime s < DueTime (Objs s2 t))"
      by (intro exI [of _ xs] exI [of _ ys]) (use False Th o2(3) in \<open>auto simp: b2\<close>)
    ultimately show ?thesis using f o2 Some
      by (intro exI [of _ True] exI [of _ s2] exI [of _ "T(h := xs @ t # ys)"]) simp
  next
    case True
    have "(T(h := xs @ t # ys)) h = xs @ t # ys" by simp
    from KiRemoveEntryTimer_ok [OF s2(2) h32 this, unfolded fun_upd_upd] obtain s3 where s3: "KiRemoveEntryTimer t h s2 = Inr ((), s3)"
      "timers_ok s3 (T(h := xs @ ys))" "timer_frame s2 s3" "Objs s3 = Objs s2" by blast
    define s4 where "s4 = s3\<lparr>Objs := (Objs s3)(t := (Objs s3 t)\<lparr>hdr_Inserted := False\<rparr>)\<rparr>"
    have "T(h := xs @ ys) = T" using Th by auto
    with s3(2) have "timers_ok s3 T" by simp
    then have "timers_ok s4 T" by (rule timers_ok_cong) (auto simp: s4_def)
    moreover have "hdr_Inserted (Objs s4 u) \<longleftrightarrow> u \<in> set (T (bucket s4 u))" for u
      using ins [of u] out [OF h32] b2 [of u] by (cases "u = t") (auto simp: s4_def s3(4) o2(1) bucket_def)
    moreover have "KiInsertTreeTimer t due s = Some (Inr (False, s4))"
    proof -
      have "(xs = [] \<and> v \<le> KeInterruptTime s) = True" using True by blast
      from s2(1) [unfolded this] s3(1) show ?thesis by (simp add: KiInsertTreeTimer_def obnd_def lift_def c set_obj_def s4_def)
    qed
    moreover have "timer_frame s3 s4" by (simp add: timer_frame_def s4_def same_kernel_def)
    then have "timer_frame s s4" using f s3(3) by (blast intro: timer_frame_trans)
    ultimately show ?thesis using o2 True Some
      by (intro exI [of _ False] exI [of _ s4] exI [of _ T]) (auto simp: timer_table_def s4_def s3(4))
  qed
qed

lemma KxRemoveTreeTimer_table:
  assumes tab: "timer_table s T" and ins: "hdr_Inserted (Objs s t)"
  shows "\<exists>s'. KxRemoveTreeTimer t s = Inr ((), s') \<and> timer_table s' (\<lambda>h. filter (\<lambda>u. u \<noteq> t) (T h)) \<and> timer_frame s s'
    \<and> Objs s' = (Objs s)(t := (Objs s t)\<lparr>hdr_Inserted := False\<rparr>)"
proof -
  let ?b = "bucket s t"
  have ok: "timers_ok s T" and i: "\<And>u. hdr_Inserted (Objs s u) \<longleftrightarrow> u \<in> set (T (bucket s u))"
    using tab by (simp_all add: timer_table_def)
  from i [of t] ins obtain xs ys where Tb: "T ?b = xs @ t # ys" by (auto dest: split_list)
  obtain s' where s': "KxRemoveTreeTimer t s = Inr ((), s')" "timers_ok s' (T(?b := xs @ ys))" "timer_frame s s'"
    "Objs s' = (Objs s)(t := (Objs s t)\<lparr>hdr_Inserted := False\<rparr>)" using KxRemoveTreeTimer_ok [OF ok Tb] by blast
  have D: "DueTime (Objs s' u) = DueTime (Objs s u)" for u by (simp add: s'(4))
  have "distinct (xs @ t # ys)" using timers_okD(1) [OF ok, of ?b] by (auto simp: Tb ring_def distinct_map)
  then have f: "filter (\<lambda>u. u \<noteq> t) (T ?b) = xs @ ys" by (simp add: Tb filter_neq_id)
  have g: "filter (\<lambda>u. u \<noteq> t) (T h) = T h" if "h < 32" "h \<noteq> ?b" for h
    using that timers_okD(3) [OF ok] by (intro filter_True) blast
  have "(\<lambda>h. filter (\<lambda>u. u \<noteq> t) (T h)) h = (T(?b := xs @ ys)) h" if "h < 32" for h using f g that by auto
  with s'(2) have "timers_ok s' (\<lambda>h. filter (\<lambda>u. u \<noteq> t) (T h))" by (rule timers_ok_buckets)
  moreover have "hdr_Inserted (Objs s' u) \<longleftrightarrow> u \<in> set (filter (\<lambda>u. u \<noteq> t) (T (bucket s' u)))" for u
    using i [of u] by (simp add: s'(4) bucket_def)
  ultimately show ?thesis using s' by (simp add: timer_table_def)
qed

lemma KeCancelTimer_table:
  assumes "timer_table s T"
  shows "\<exists>s'. KeCancelTimer t s = Inr (hdr_Inserted (Objs s t), s') \<and> timer_frame s s'
    \<and> timer_table s' (if hdr_Inserted (Objs s t) then \<lambda>h. filter (\<lambda>u. u \<noteq> t) (T h) else T)
    \<and> Objs s' = (Objs s)(t := (Objs s t)\<lparr>hdr_Inserted := False\<rparr>)"
  using KxRemoveTreeTimer_table [OF assms, of t] assms
  by (cases "hdr_Inserted (Objs s t)") (auto simp: KeCancelTimer_def run_simps get_obj_def fun_upd_idem_iff)

text \<open>C10: the timer table. Arming a timer that is not armed either reports that it is due already, and
  then leaves every bucket as it was, or puts it in the bucket of its due time, behind the timers that
  are not due later; every bucket stays sorted by due time with its time not above its first timer, and
  cancelling the timer tells whether it was armed and gives the table back.\<close>

theorem ke_timer_arm_cancel:
  assumes "timer_table s T" and "\<not> hdr_Inserted (Objs s t)"
  shows "\<exists>r u T'. KiInsertTreeTimer t due s = Some (Inr (r, u)) \<and> timer_table u T'
    \<and> DueTime (Objs u t) = (case due_time (KeSystemTime s) (KeInterruptTime s) due of None \<Rightarrow> 0 | Some d \<Rightarrow> d)
    \<and> (due_time (KeSystemTime s) (KeInterruptTime s) due = None \<longrightarrow> \<not> r)
    \<and> (KeInterruptTime s < DueTime (Objs u t) \<longrightarrow> r)
    \<and> (r \<longrightarrow> t \<in> set (T' (bucket u t)) \<and> sorted (map (\<lambda>x. DueTime (Objs u x)) (T' (bucket u t)))
         \<and> TableTime u (bucket u t) \<le> DueTime (Objs u t))
    \<and> (\<not> r \<longrightarrow> T' = T)
    \<and> (\<exists>v T''. KeCancelTimer t u = Inr (r, v) \<and> timer_table v T'' \<and> (\<forall>h<32. T'' h = T h))"
proof -
  obtain r u T' where u: "KiInsertTreeTimer t due s = Some (Inr (r, u))" "timer_table u T'" "hdr_Inserted (Objs u t) = r"
    "if r then (\<exists>xs ys. T (bucket u t) = xs @ ys \<and> T' = T(bucket u t := xs @ t # ys)) else T' = T \<and> DueTime (Objs u t) \<le> KeInterruptTime s"
    "DueTime (Objs u t) = (case due_time (KeSystemTime s) (KeInterruptTime s) due of None \<Rightarrow> 0 | Some d \<Rightarrow> d)"
    "r \<longrightarrow> due_time (KeSystemTime s) (KeInterruptTime s) due \<noteq> None"
    using KiInsertTreeTimer_ok [OF assms, of due] by (metis (mono_tags, lifting))
  let ?b = "bucket u t"
  have ok: "timers_ok u T'" using u(2) by (simp add: timer_table_def)
  have r: "t \<in> set (T' ?b) \<and> sorted (map (\<lambda>x. DueTime (Objs u x)) (T' ?b)) \<and> TableTime u ?b \<le> DueTime (Objs u t)" if r
  proof -
    have t: "t \<in> set (T' ?b)" using u(2,3) that by (simp add: timer_table_def)
    have s: "sorted (map (\<lambda>x. DueTime (Objs u x)) (T' ?b))" using timers_okD(2) [OF ok] by simp
    then have "DueTime (Objs u (hd (T' ?b))) \<le> DueTime (Objs u t)" using t by (cases "T' ?b") auto
    moreover have "T' ?b \<noteq> []" using t by (metis list.set(1) empty_iff)
    then have "TableTime u ?b \<le> DueTime (Objs u (hd (T' ?b)))" using timers_okD(4) [OF ok bucket_less] by blast
    ultimately show ?thesis using t s by simp
  qed
  obtain v where v: "KeCancelTimer t u = Inr (r, v)" "timer_table v (if r then \<lambda>h. filter (\<lambda>u. u \<noteq> t) (T' h) else T')"
    using KeCancelTimer_table [OF u(2), of t] u(3) by auto
  have "(if r then \<lambda>h. filter (\<lambda>u. u \<noteq> t) (T' h) else T') h = T h" if h: "h < 32" for h
  proof (cases r)
    case True
    with u(4) obtain xs ys where xy: "T ?b = xs @ ys" "T' = T(?b := xs @ t # ys)" by auto
    have "t \<notin> set (T h)" using timer_tableD(1) [OF assms(1) h] assms(2) by blast
    moreover have "t \<notin> set (T ?b)" using timer_tableD(1) [OF assms(1), of ?b] assms(2) by auto
    ultimately show ?thesis using True xy by (cases "h = ?b") (simp_all add: filter_neq_id)
  qed (use u(4) in simp)
  then have "\<exists>v T''. KeCancelTimer t u = Inr (r, v) \<and> timer_table v T'' \<and> (\<forall>h<32. T'' h = T h)" using v by blast
  moreover have "KeInterruptTime s < DueTime (Objs u t) \<longrightarrow> r" "\<not> r \<longrightarrow> T' = T" using u(4) by (auto simp: not_le [symmetric] split: if_splits)
  ultimately show ?thesis using u(1,2,5,6) r
    by (intro exI [of _ r] exI [of _ u] exI [of _ T']) (simp only: simp_thms, blast)
qed

definition timer_example :: ke where
  "timer_example = \<lparr>Flink = (\<lambda>n. n), Blink = (\<lambda>n. n), Dpcs = (\<lambda>d. \<lparr>dpc_Type = 0x13, dpc_Inserted = False, DeferredRoutine = 0x1000,
       DeferredContext = 0, SystemArgument1 = 0, SystemArgument2 = 0\<rparr>),
     IsDpcPending = False, IsDpcActive = False, HalInterruptRequestRegister = 0,
     Objs = (\<lambda>u. \<lparr>hdr_Type = TimerNotificationObject, Absolute = False, hdr_Inserted = False, SignalState = 0, DueTime = 0,
       tmr_Dpc = None, Period = 0, Limit = 0, OwnerThread = None, Abandoned = False\<rparr>),
     Blocks = (\<lambda>b. \<lparr>wb_Thread = 0, wb_Object = Object 7, NextWaitBlock = b, WaitKey = 0, WaitType = WaitAny\<rparr>),
     Threads = (\<lambda>t. \<lparr>State = Running, WaitStatus = 0, WaitBlockList = NoBlock, Alertable = False,
       WaitMode = False, WaitTime = 0, WaitNext = False, Alerted = (False, False), UserApcs = False, UserApcPending = False\<rparr>),
     TableTime = (\<lambda>_. 0xFFFFFFFF00000000), KeInterruptTime = 1000, KeSystemTime = 5000, KeTickCount = 0, LostUs = 0\<rparr>"

lemma timer_example_table: "timer_table timer_example (\<lambda>_. [])"
  by (simp add: timer_table_def timers_ok_def ring_def timer_example_def)

text \<open>Two milliseconds from now, and an absolute time that has passed.\<close>

theorem ke_timer_arm_cancel_witness:
  "(\<exists>u T'. KiInsertTreeTimer (Object 7) (- 20000) timer_example = Some (Inr (True, u)) \<and> timer_table u T'
      \<and> DueTime (Objs u (Object 7)) = 21000 \<and> Object 7 \<in> set (T' 2))
   \<and> (\<exists>u. KiInsertTreeTimer (Object 7) 4000 timer_example = Some (Inr (False, u)) \<and> timer_table u (\<lambda>_. []))"
proof
  have new: "\<not> hdr_Inserted (Objs timer_example (Object 7))" by (simp add: timer_example_def)
  note r = ke_timer_arm_cancel [OF timer_example_table new]
  have d: "due_time (KeSystemTime timer_example) (KeInterruptTime timer_example) (- 20000) = Some 21000"
    "due_time (KeSystemTime timer_example) (KeInterruptTime timer_example) 4000 = None"
    by (simp_all add: due_time_def timer_example_def word_sle_eq)
  have i: "KeInterruptTime timer_example < 21000" by (simp add: timer_example_def)
  obtain r u T' where a: "KiInsertTreeTimer (Object 7) (- 20000) timer_example = Some (Inr (r, u))" "timer_table u T'"
    "DueTime (Objs u (Object 7)) = 21000" "KeInterruptTime timer_example < DueTime (Objs u (Object 7)) \<longrightarrow> r"
    "r \<longrightarrow> Object 7 \<in> set (T' (bucket u (Object 7)))"
    using r [of "- 20000"] unfolding d option.case by (elim exE conjE) (rule that, assumption+, blast)
  with i have r "Object 7 \<in> set (T' (bucket u (Object 7)))" by simp_all
  moreover have "bucket u (Object 7) = 2"
    by (simp add: bucket_def KiComputeTimerTableIndex_def CLOCK_TIME_INCREMENT_def a(3))
  ultimately show "\<exists>u T'. KiInsertTreeTimer (Object 7) (- 20000) timer_example = Some (Inr (True, u)) \<and> timer_table u T'
      \<and> DueTime (Objs u (Object 7)) = 21000 \<and> Object 7 \<in> set (T' 2)" using a by auto
  show "\<exists>u. KiInsertTreeTimer (Object 7) 4000 timer_example = Some (Inr (False, u)) \<and> timer_table u (\<lambda>_. [])"
    using r [of 4000] by (auto simp: d)
qed

end
