(* ===== verification/Ke_Wait.thy ===== *)
theory Ke_Wait
  imports Ke_TimerFacts
begin

text \<open>
  Waiting and waking (\<open>EmuKrnlKi.cpp\<close>, \<open>EmuKrnlKi.h\<close> and \<open>EmuKrnlKe.cpp\<close>): the wait test, events,
  semaphores, and the two wait operations up to the point where the host thread starts to poll.

  A wait is split where the code can be interleaved with other threads: \<open>wait_prepare\<close> tests the
  object and makes the thread a waiter, \<open>wait_enqueue\<close> links its block and tests again, \<open>wait_poll\<close>
  is a turn of \<open>WaitApc\<close> that finds the thread ready or not. The delivery of APCs is not modelled.
\<close>

section \<open>Satisfying a wait\<close>

definition set_thread :: "nat \<Rightarrow> (kthread \<Rightarrow> kthread) \<Rightarrow> (unit, 'a ke_scheme) run" where
  "set_thread t f = modify (\<lambda>s. s\<lparr>Threads := (Threads s)(t := f (Threads s t))\<rparr>)"

definition set_block :: "block \<Rightarrow> (wait_block \<Rightarrow> wait_block) \<Rightarrow> (unit, 'a ke_scheme) run" where
  "set_block b f = (if b = NoBlock then fail BadPointer else modify (\<lambda>s. s\<lparr>Blocks := (Blocks s)(b := f (Blocks s b))\<rparr>))"

definition get_block :: "block \<Rightarrow> (wait_block, 'a ke_scheme) run" where
  "get_block b = (if b = NoBlock then fail BadPointer else get (\<lambda>s. Blocks s b))"

definition block_node :: "block \<Rightarrow> node" where
  "block_node b = (if b = NoBlock then Null else WaitEntry b)"

definition block_of :: "node \<Rightarrow> (block, 'a ke_scheme) run" where
  "block_of n = (case n of WaitEntry b \<Rightarrow> ret b | _ \<Rightarrow> fail BadPointer)"

definition X_STATUS_ABANDONED :: u32 where "X_STATUS_ABANDONED = 0x80"
definition X_STATUS_USER_APC :: u32 where "X_STATUS_USER_APC = 0xC0"
definition X_STATUS_ALERTED :: u32 where "X_STATUS_ALERTED = 0x101"
definition X_STATUS_TIMEOUT :: u32 where "X_STATUS_TIMEOUT = 0x102"
definition X_STATUS_SEMAPHORE_LIMIT_EXCEEDED :: u32 where "X_STATUS_SEMAPHORE_LIMIT_EXCEEDED = 0xC0000047"
definition X_STATUS_MUTANT_LIMIT_EXCEEDED :: u32 where "X_STATUS_MUTANT_LIMIT_EXCEEDED = 0xC0000191"
definition MINLONG :: u32 where "MINLONG = 0x80000000"

definition KiWaitSatisfyMutant :: "obj \<Rightarrow> nat \<Rightarrow> (unit, 'a ke_scheme) run" where
  "KiWaitSatisfyMutant m t = bnd (set_obj m (\<lambda>k. k\<lparr>SignalState := SignalState k - 1\<rparr>)) (\<lambda>_.
     bnd (get_obj m) (\<lambda>k. if SignalState k = 0 then
       bnd (set_obj m (\<lambda>k. k\<lparr>OwnerThread := Some t\<rparr>)) (\<lambda>_.
       bnd (if Abandoned k then
         bnd (set_obj m (\<lambda>k. k\<lparr>Abandoned := False\<rparr>)) (\<lambda>_. set_thread t (\<lambda>r. r\<lparr>WaitStatus := X_STATUS_ABANDONED\<rparr>))
         else ret ()) (\<lambda>_.
       bnd (get_Blink (MutantHead t)) (\<lambda>p. InsertHeadList p (MutantEntry m))))
     else ret ()))"

definition KiWaitSatisfyOther :: "obj \<Rightarrow> (unit, 'a ke_scheme) run" where
  "KiWaitSatisfyOther o' = bnd (get_obj o') (\<lambda>k.
     if hdr_Type k AND 7 = EventSynchronizationObject then set_obj o' (\<lambda>k. k\<lparr>SignalState := 0\<rparr>)
     else if hdr_Type k = SemaphoreObject then set_obj o' (\<lambda>k. k\<lparr>SignalState := SignalState k - 1\<rparr>)
     else ret ())"

definition KiWaitSatisfyAny :: "obj \<Rightarrow> nat \<Rightarrow> (unit, 'a ke_scheme) run" where
  "KiWaitSatisfyAny o' t = bnd (get_obj o') (\<lambda>k.
     if hdr_Type k AND 7 = EventSynchronizationObject then set_obj o' (\<lambda>k. k\<lparr>SignalState := 0\<rparr>)
     else if hdr_Type k = SemaphoreObject then set_obj o' (\<lambda>k. k\<lparr>SignalState := SignalState k - 1\<rparr>)
     else if hdr_Type k = MutantObject then KiWaitSatisfyMutant o' t
     else ret ())"

partial_function (option) satisfy_chain ::
  "block \<Rightarrow> nat \<Rightarrow> block \<Rightarrow> 'a ke_scheme \<Rightarrow> (fault + unit \<times> 'a ke_scheme) option" where
  "satisfy_chain first t b s = obnd (lift (get_block b)) (\<lambda>w.
     obnd (lift (if ucast (WaitKey w) \<noteq> X_STATUS_TIMEOUT then KiWaitSatisfyAny (wb_Object w) t else ret ())) (\<lambda>_.
     if NextWaitBlock w = first then oret () else (\<lambda>u. satisfy_chain first t (NextWaitBlock w) u))) s"

definition KiWaitSatisfyAll :: "block \<Rightarrow> (unit, 'a ke_scheme) orun" where
  "KiWaitSatisfyAll b = obnd (lift (get_block b)) (\<lambda>w. satisfy_chain b (wb_Thread w) b)"

section \<open>Releasing a thread\<close>

text \<open>The blocks of the thread leave their lists, up to the block that links back to the first.\<close>

partial_function (option) unlink_chain ::
  "block \<Rightarrow> block \<Rightarrow> 'a ke_scheme \<Rightarrow> (fault + unit \<times> 'a ke_scheme) option" where
  "unlink_chain first b s = obnd (lift (RemoveEntryList (block_node b))) (\<lambda>_.
     obnd (lift (get_block b)) (\<lambda>w.
     if NextWaitBlock w = first then oret () else (\<lambda>u. unlink_chain first (NextWaitBlock w) u))) s"

definition KiUnlinkThread :: "nat \<Rightarrow> u32 \<Rightarrow> (unit, 'a ke_scheme) orun" where
  "KiUnlinkThread t st = obnd (lift (set_thread t (\<lambda>r. r\<lparr>WaitStatus := WaitStatus r OR st\<rparr>))) (\<lambda>_.
     obnd (lift (get (\<lambda>s. WaitBlockList (Threads s t)))) (\<lambda>b.
     obnd (unlink_chain b b) (\<lambda>_.
     obnd (lift (get_obj (ThreadTimer t))) (\<lambda>k.
     obnd (lift (if hdr_Inserted k then KxRemoveTreeTimer (ThreadTimer t) else ret ())) (\<lambda>_.
     lift (set_thread t (\<lambda>r. r\<lparr>WaitBlockList := NoBlock\<rparr>)))))))"

definition KiUnwaitThread :: "nat \<Rightarrow> u32 \<Rightarrow> (unit, 'a ke_scheme) orun" where
  "KiUnwaitThread t st = obnd (lift (get (\<lambda>s. State (Threads s t)))) (\<lambda>x.
     if x \<noteq> Waiting then oret ()
     else obnd (KiUnlinkThread t st) (\<lambda>_. lift (set_thread t (\<lambda>r. r\<lparr>State := Ready\<rparr>))))"

section \<open>The wait test\<close>

datatype chain = Corrupt | Unsatisfied | Satisfied

partial_function (option) check_chain ::
  "block \<Rightarrow> block \<Rightarrow> 'a ke_scheme \<Rightarrow> (fault + chain \<times> 'a ke_scheme) option" where
  "check_chain first n s = (if n = first then Some (Inr (Satisfied, s))
     else if n = NoBlock then Some (Inr (Corrupt, s))
     else obnd (lift (get_block n)) (\<lambda>w. obnd (lift (get_obj (wb_Object w))) (\<lambda>k.
       if ucast (WaitKey w) \<noteq> X_STATUS_TIMEOUT \<and> SignalState k \<le>s 0 then oret Unsatisfied
       else (\<lambda>u. check_chain first (NextWaitBlock w) u))) s)"

definition release_waiter :: "block \<Rightarrow> wait_block \<Rightarrow> (unit, 'a ke_scheme) orun" where
  "release_waiter b w = KiUnwaitThread (wb_Thread w) (ucast (WaitKey w))"

partial_function (option) wait_test_loop ::
  "obj \<Rightarrow> node \<Rightarrow> 'a ke_scheme \<Rightarrow> (fault + unit \<times> 'a ke_scheme) option" where
  "wait_test_loop o' n s = obnd (lift (get_obj o')) (\<lambda>k.
     if \<not> (0 <s SignalState k \<and> n \<noteq> WaitHead o') then oret ()
     else if n = Null then lift (InitializeListHead (WaitHead o'))
     else obnd (lift (block_of n)) (\<lambda>b. obnd (lift (get_block b)) (\<lambda>w.
       if WaitType w = WaitAny then
         obnd (lift (KiWaitSatisfyAny o' (wb_Thread w))) (\<lambda>_.
         obnd (release_waiter b w) (\<lambda>_. obnd (lift (get_Flink n)) (\<lambda>f u. wait_test_loop o' f u)))
       else obnd (check_chain b (NextWaitBlock w)) (\<lambda>c.
         if c = Corrupt then lift (InitializeListHead (WaitHead o'))
         else if c = Unsatisfied then obnd (lift (get_Flink n)) (\<lambda>f u. wait_test_loop o' f u)
         else obnd (KiWaitSatisfyAll b) (\<lambda>_.
           obnd (release_waiter b w) (\<lambda>_. obnd (lift (get_Flink n)) (\<lambda>f u. wait_test_loop o' f u))))))) s"

definition KiWaitTest :: "obj \<Rightarrow> (unit, 'a ke_scheme) orun" where
  "KiWaitTest o' = obnd (lift (get_Flink (WaitHead o'))) (wait_test_loop o')"

section \<open>Events and semaphores\<close>

definition KeInitializeEvent :: "obj \<Rightarrow> u8 \<Rightarrow> bool \<Rightarrow> (unit, 'a ke_scheme) run" where
  "KeInitializeEvent e ty sig = bnd (set_obj e (\<lambda>k. k\<lparr>hdr_Type := ty, SignalState := (if sig then 1 else 0)\<rparr>)) (\<lambda>_.
     InitializeListHead (WaitHead e))"

definition KeInitializeSemaphore :: "obj \<Rightarrow> u32 \<Rightarrow> u32 \<Rightarrow> (unit, 'a ke_scheme) run" where
  "KeInitializeSemaphore m count lim = bnd (set_obj m (\<lambda>k. k\<lparr>hdr_Type := SemaphoreObject, SignalState := count\<rparr>)) (\<lambda>_.
     bnd (InitializeListHead (WaitHead m)) (\<lambda>_. set_obj m (\<lambda>k. k\<lparr>Limit := lim\<rparr>)))"

definition KeInitializeMutant :: "nat \<Rightarrow> obj \<Rightarrow> bool \<Rightarrow> (unit, 'a ke_scheme) run" where
  "KeInitializeMutant cur m owned = bnd (set_obj m (\<lambda>k. k\<lparr>hdr_Type := MutantObject\<rparr>)) (\<lambda>_.
     bnd (InitializeListHead (WaitHead m)) (\<lambda>_.
     bnd (set_obj m (\<lambda>k. k\<lparr>Abandoned := False\<rparr>)) (\<lambda>_.
     if owned then
       bnd (set_obj m (\<lambda>k. k\<lparr>SignalState := 0, OwnerThread := Some cur\<rparr>)) (\<lambda>_.
       bnd (get_Blink (MutantHead cur)) (\<lambda>p. InsertHeadList p (MutantEntry m)))
     else set_obj m (\<lambda>k. k\<lparr>SignalState := 1, OwnerThread := None\<rparr>))))"

definition wait_next :: "nat \<Rightarrow> bool \<Rightarrow> (unit, 'a ke_scheme) run" where
  "wait_next cur w = (if w then set_thread cur (\<lambda>r. r\<lparr>WaitNext := True\<rparr>) else ret ())"

definition KeResetEvent :: "obj \<Rightarrow> (u32, 'a ke_scheme) run" where
  "KeResetEvent e = bnd (get_obj e) (\<lambda>k. bnd (set_obj e (\<lambda>k. k\<lparr>SignalState := 0\<rparr>)) (\<lambda>_. ret (SignalState k)))"

definition KeSetEvent :: "nat \<Rightarrow> obj \<Rightarrow> bool \<Rightarrow> (u32, 'a ke_scheme) orun" where
  "KeSetEvent cur e wait = obnd (lift (get_obj e)) (\<lambda>k.
     obnd (lift (IsListEmpty (WaitHead e))) (\<lambda>empty.
     obnd (if empty then lift (set_obj e (\<lambda>k. k\<lparr>SignalState := 1\<rparr>))
       else obnd (lift (get_Flink (WaitHead e))) (\<lambda>n. obnd (lift (block_of n)) (\<lambda>b. obnd (lift (get_block b)) (\<lambda>w.
         if hdr_Type k = EventNotificationObject \<or> WaitType w \<noteq> WaitAny then
           if SignalState k = 0 then
             obnd (lift (set_obj e (\<lambda>k. k\<lparr>SignalState := 1\<rparr>))) (\<lambda>_. KiWaitTest e)
           else oret ()
         else release_waiter b w)))) (\<lambda>_.
     obnd (lift (wait_next cur wait)) (\<lambda>_. oret (SignalState k)))))"

definition KePulseEvent :: "nat \<Rightarrow> obj \<Rightarrow> bool \<Rightarrow> (u32, 'a ke_scheme) orun" where
  "KePulseEvent cur e wait = obnd (lift (get_obj e)) (\<lambda>k.
     obnd (lift (IsListEmpty (WaitHead e))) (\<lambda>empty.
     obnd (if SignalState k = 0 \<and> \<not> empty then
         obnd (lift (set_obj e (\<lambda>k. k\<lparr>SignalState := 1\<rparr>))) (\<lambda>_. KiWaitTest e)
       else oret ()) (\<lambda>_.
     obnd (lift (set_obj e (\<lambda>k. k\<lparr>SignalState := 0\<rparr>))) (\<lambda>_.
     obnd (lift (wait_next cur wait)) (\<lambda>_. oret (SignalState k))))))"

definition KeReleaseSemaphore :: "nat \<Rightarrow> obj \<Rightarrow> u32 \<Rightarrow> bool \<Rightarrow> (u32, 'a ke_scheme) orun" where
  "KeReleaseSemaphore cur m adj wait = obnd (lift (get_obj m)) (\<lambda>k.
     let adjusted = SignalState k + adj in
     if Limit k <s adjusted \<or> adjusted <s SignalState k then ofail (Raised X_STATUS_SEMAPHORE_LIMIT_EXCEEDED)
     else obnd (lift (set_obj m (\<lambda>k. k\<lparr>SignalState := adjusted\<rparr>))) (\<lambda>_.
       obnd (lift (IsListEmpty (WaitHead m))) (\<lambda>empty.
       obnd (if SignalState k = 0 \<and> \<not> empty then KiWaitTest m else oret ()) (\<lambda>_.
       obnd (lift (wait_next cur wait)) (\<lambda>_. oret (SignalState k))))))"

end
