(* ===== verification/Ke_WaitFacts.thy ===== *)
theory Ke_WaitFacts
  imports Ke_Wait
begin

text \<open>
  The wait lists as lists of blocks (\<open>W\<close>), the waiting threads with their chains of blocks, and what
  releasing a thread and the wait test do to them.
\<close>

section \<open>Wait lists and chains\<close>

definition wait_lists :: "'a ke_scheme \<Rightarrow> (obj \<Rightarrow> block list) \<Rightarrow> bool" where
  "wait_lists s W \<longleftrightarrow> (\<forall>o'. ring s (WaitHead o') (map WaitEntry (W o'))
     \<and> (\<forall>b\<in>set (W o'). b \<noteq> NoBlock \<and> wb_Object (Blocks s b) = o'))"

fun nexts :: "(block \<Rightarrow> block) \<Rightarrow> block list \<Rightarrow> block \<Rightarrow> bool" where
  "nexts f [] z = False"
| "nexts f [b] z = (f b = z)"
| "nexts f (b # c # r) z = (f b = c \<and> nexts f (c # r) z)"

definition waiter :: "'a ke_scheme \<Rightarrow> (obj \<Rightarrow> block list) \<Rightarrow> nat \<Rightarrow> block list \<Rightarrow> bool" where
  "waiter s W t bs \<longleftrightarrow> State (Threads s t) = Waiting \<and> bs \<noteq> [] \<and> hd bs = WaitBlockList (Threads s t)
     \<and> nexts (\<lambda>b. NextWaitBlock (Blocks s b)) bs (hd bs) \<and> distinct bs \<and> inj_on (\<lambda>b. wb_Object (Blocks s b)) (set bs)
     \<and> (\<forall>b\<in>set bs. wb_Thread (Blocks s b) = t \<and> b \<in> set (W (wb_Object (Blocks s b))))"

definition outside :: "(obj \<Rightarrow> block list) \<Rightarrow> node \<Rightarrow> bool" where
  "outside W n \<longleftrightarrow> (\<forall>o'. n \<notin> set (WaitHead o' # map WaitEntry (W o')))"

definition only_links :: "'a ke_scheme \<Rightarrow> 'a ke_scheme \<Rightarrow> bool" where
  "only_links s s' \<longleftrightarrow> s' = s\<lparr>Flink := Flink s', Blink := Blink s'\<rparr>"

lemma only_linksD:
  assumes "only_links s s'"
  shows "Blocks s' = Blocks s" "Threads s' = Threads s" "Objs s' = Objs s" "TableTime s' = TableTime s" "same_kernel s s'"
  using arg_cong [OF assms [unfolded only_links_def], of Blocks] arg_cong [OF assms [unfolded only_links_def], of Threads]
    arg_cong [OF assms [unfolded only_links_def], of Objs] arg_cong [OF assms [unfolded only_links_def], of TableTime]
    arg_cong [OF assms [unfolded only_links_def], of "same_kernel s"]
  by (simp_all add: same_kernel_def)

lemma only_links_trans: "only_links s t \<Longrightarrow> only_links t u \<Longrightarrow> only_links s u"
  unfolding only_links_def by (cases s; cases t; cases u) simp

lemma only_links_unlink [simp]: "only_links s (unlink p n s)" "only_links s (link_between p e n s)"
  by (simp_all add: only_links_def unlink_def link_between_def)

lemma last_wait: "last (WaitHead o' # map WaitEntry xs) = (if xs = [] then WaitHead o' else WaitEntry (last xs))"
  by (simp add: last_map)

lemma hd_wait: "hd (map WaitEntry ys @ [WaitHead o']) = (if ys = [] then WaitHead o' else WaitEntry (hd ys))"
  by (cases ys) simp_all

lemma wait_listsD:
  assumes "wait_lists s W"
  shows "ring s (WaitHead o') (map WaitEntry (W o'))" and "b \<in> set (W o') \<Longrightarrow> wb_Object (Blocks s b) = o'"
    and "b \<in> set (W o') \<Longrightarrow> b \<noteq> NoBlock" and "distinct (W o')"
  using assms by (auto simp: wait_lists_def ring_def distinct_map)

lemma NoBlock_notin: "wait_lists s W \<Longrightarrow> NoBlock \<notin> set (W o')"
  using wait_listsD(3) by blast

lemma split_unique: "us @ b # vs = xs @ b # ys \<Longrightarrow> distinct (us @ b # vs) \<Longrightarrow> us = xs \<and> vs = ys"
  using append_Cons_eq_iff [of b us vs xs ys] by (metis distinct.simps(2) distinct_append not_distinct_conv_prefix)

lemma wait_unlink:
  assumes ok: "wait_lists s W" and Wo: "W o' = xs @ b # ys"
  shows "\<exists>s'. RemoveEntryList (block_node b) s = Inr (xs = [] \<and> ys = [], s') \<and> wait_lists s' (\<lambda>o'. filter (\<lambda>c. c \<noteq> b) (W o'))
    \<and> only_links s s' \<and> (\<forall>n. n \<notin> set (WaitHead o' # map WaitEntry (W o')) \<longrightarrow> Flink s' n = Flink s n \<and> Blink s' n = Blink s n)
    \<and> Flink s' (WaitEntry b) = hd (map WaitEntry ys @ [WaitHead o'])"
proof -
  let ?h = "WaitHead o'"
  define p n where "p = last (?h # map WaitEntry xs)" and "n = hd (map WaitEntry ys @ [?h])"
  define s1 where "s1 = unlink p n s"
  have r: "ring s ?h (map WaitEntry xs @ WaitEntry b # map WaitEntry ys)" using wait_listsD(1) [OF ok, of o'] by (simp add: Wo)
  have nb: "b \<noteq> NoBlock" using wait_listsD(3) [OF ok, of b o'] by (simp add: Wo)
  have rm: "RemoveEntryList (block_node b) s = Inr (xs = [] \<and> ys = [], s1)"
    using Remove_ring(1) [OF r] nb unfolding s1_def p_def n_def block_node_def by simp
  have r1: "ring s1 ?h (map WaitEntry (xs @ ys))" using Remove_ring(2) [OF r] unfolding s1_def p_def n_def by simp
  have nodes: "p \<in> set (?h # map WaitEntry (W o'))" "n \<in> set (?h # map WaitEntry (W o'))"
    unfolding p_def n_def last_wait hd_wait Wo by auto
  have f: "filter (\<lambda>c. c \<noteq> b) (W o') = xs @ ys" using wait_listsD(4) [OF ok, of o'] by (simp add: Wo filter_neq_id)
  have other: "filter (\<lambda>c. c \<noteq> b) (W q) = W q" if "q \<noteq> o'" for q
    using that wait_listsD(2) [OF ok, of b q] wait_listsD(2) [OF ok, of b o'] Wo by (intro filter_neq_id) auto
  have "ring s1 (WaitHead q) (map WaitEntry (filter (\<lambda>c. c \<noteq> b) (W q)))" for q
  proof (cases "q = o'")
    case True
    with r1 f show ?thesis by simp
  next
    case False
    have "c \<notin> set (W q)" if "c \<in> set (W o')" for c using wait_listsD(2) [OF ok] that False by metis
    then have "p \<notin> set (WaitHead q # map WaitEntry (W q))" "n \<notin> set (WaitHead q # map WaitEntry (W q))"
      using nodes False by auto
    then show ?thesis unfolding other [OF False] s1_def by (intro unlink_other wait_listsD(1) [OF ok])
  qed
  then have "wait_lists s1 (\<lambda>o'. filter (\<lambda>c. c \<noteq> b) (W o'))"
    using wait_listsD(2) [OF ok] NoBlock_notin [OF ok] unfolding wait_lists_def by (auto simp: s1_def)
  moreover have "p \<noteq> WaitEntry b" using r unfolding p_def last_wait by (auto simp: ring_def)
  then have "Flink s1 (WaitEntry b) = hd (map WaitEntry ys @ [?h])" using Remove_ring(3) [OF r] by (simp add: s1_def unlink_def)
  moreover have "\<forall>m. m \<notin> set (?h # map WaitEntry (W o')) \<longrightarrow> Flink s1 m = Flink s m \<and> Blink s1 m = Blink s m"
    using nodes by (auto simp: s1_def unlink_def)
  ultimately show ?thesis using rm by (intro exI [of _ s1]) (simp add: s1_def)
qed

lemma nexts_notin: "nexts f (b # bs) z \<Longrightarrow> bs \<noteq> [] \<Longrightarrow> f b = hd bs \<and> nexts f bs z"
  by (cases bs) auto

lemma unlink_chain_ok:
  assumes "wait_lists s W" and "nexts (\<lambda>b. NextWaitBlock (Blocks s b)) bs first" and "distinct bs" and "first \<notin> set (tl bs)"
    and "\<forall>b\<in>set bs. b \<in> set (W (wb_Object (Blocks s b)))"
  shows "\<exists>s'. unlink_chain first (hd bs) s = Some (Inr ((), s')) \<and> wait_lists s' (\<lambda>o'. filter (\<lambda>b. b \<notin> set bs) (W o'))
    \<and> only_links s s' \<and> (\<forall>n. outside W n \<longrightarrow> Flink s' n = Flink s n \<and> Blink s' n = Blink s n)
    \<and> (\<forall>o' xs b ys. W o' = xs @ b # ys \<longrightarrow> set bs \<inter> set (W o') = {b} \<longrightarrow> Flink s' (WaitEntry b) = hd (map WaitEntry ys @ [WaitHead o']))"
  using assms
proof (induction bs arbitrary: s W)
  case (Cons b bs)
  let ?o = "wb_Object (Blocks s b)" and ?W = "\<lambda>o'. filter (\<lambda>c. c \<noteq> b) (W o')"
  from Cons.prems(5) have "b \<in> set (W ?o)" by simp
  then obtain xs ys where Wo: "W ?o = xs @ b # ys" by (auto dest: split_list)
  obtain s1 where s1: "RemoveEntryList (block_node b) s = Inr (xs = [] \<and> ys = [], s1)" "wait_lists s1 ?W" "only_links s s1"
    "\<forall>n. n \<notin> set (WaitHead ?o # map WaitEntry (W ?o)) \<longrightarrow> Flink s1 n = Flink s n \<and> Blink s1 n = Blink s n"
    "Flink s1 (WaitEntry b) = hd (map WaitEntry ys @ [WaitHead ?o])" using wait_unlink [OF Cons.prems(1) Wo] by blast
  note only = only_linksD [OF s1(3)]
  have nb: "b \<noteq> NoBlock" using wait_listsD(3) [OF Cons.prems(1) \<open>b \<in> set (W ?o)\<close>] .
  have Wb: "o' = ?o" if "b \<in> set (W o')" for o' using wait_listsD(2) [OF Cons.prems(1) that] by simp
  have step: "unlink_chain first b s = (if NextWaitBlock (Blocks s b) = first then Some (Inr ((), s1))
      else unlink_chain first (NextWaitBlock (Blocks s b)) s1)"
    using s1(1) nb by (subst unlink_chain.simps) (simp add: obnd_def lift_def get_block_def only)
  have out1: "Flink s1 n = Flink s n \<and> Blink s1 n = Blink s n" if "outside W n" for n
    using s1(4) that unfolding outside_def by blast
  show ?case
  proof (cases "bs = []")
    case True
    with Cons.prems(2) have "unlink_chain first (hd (b # bs)) s = Some (Inr ((), s1))" using step by simp
    moreover have "\<forall>o' xs b' ys. W o' = xs @ b' # ys \<longrightarrow> set (b # bs) \<inter> set (W o') = {b'} \<longrightarrow>
        Flink s1 (WaitEntry b') = hd (map WaitEntry ys @ [WaitHead o'])"
    proof (intro allI impI)
      fix o' us b' vs assume w: "W o' = us @ b' # vs" "set (b # bs) \<inter> set (W o') = {b'}"
      have "b' \<in> set (b # bs) \<inter> set (W o')" unfolding w(2) by simp
      with True have "b' = b" "b \<in> set (W o')" by auto
      have o: "o' = ?o" by (rule Wb) fact
      with w(1) \<open>b' = b\<close> Wo have e: "us @ b # vs = xs @ b # ys" by simp
      have d: "distinct (us @ b # vs)" using wait_listsD(4) [OF Cons.prems(1), of o'] w(1) \<open>b' = b\<close> by simp
      have "vs = ys" using split_unique [OF e d] by simp
      with s1(5) \<open>b' = b\<close> o show "Flink s1 (WaitEntry b') = hd (map WaitEntry vs @ [WaitHead o'])" by simp
    qed
    ultimately show ?thesis using True s1(2,3) out1 by (intro exI [of _ s1]) simp
  next
    case False
    have nx: "NextWaitBlock (Blocks s b) = hd bs" "nexts (\<lambda>b. NextWaitBlock (Blocks s1 b)) bs first"
      using nexts_notin [OF Cons.prems(2) False] by (simp_all add: only)
    have nf: "hd bs \<noteq> first" "first \<notin> set (tl bs)" using Cons.prems(4) False by (cases bs; auto)+
    have mem: "\<forall>c\<in>set bs. c \<in> set (?W (wb_Object (Blocks s1 c)))" using Cons.prems(3,5) by (auto simp: only)
    have "distinct bs" using Cons.prems(3) by simp
    from Cons.IH [OF s1(2) nx(2) this nf(2) mem] obtain s' where s': "unlink_chain first (hd bs) s1 = Some (Inr ((), s'))"
      "wait_lists s' (\<lambda>o'. filter (\<lambda>b. b \<notin> set bs) (?W o'))" "only_links s1 s'"
      "\<forall>n. outside ?W n \<longrightarrow> Flink s' n = Flink s1 n \<and> Blink s' n = Blink s1 n"
      "\<forall>o' xs c ys. ?W o' = xs @ c # ys \<longrightarrow> set bs \<inter> set (?W o') = {c} \<longrightarrow> Flink s' (WaitEntry c) = hd (map WaitEntry ys @ [WaitHead o'])"
      by blast
    have "unlink_chain first (hd (b # bs)) s = Some (Inr ((), s'))" using step nx(1) nf(1) s'(1) by simp
    moreover have "(\<lambda>o'. filter (\<lambda>b. b \<notin> set bs) (?W o')) = (\<lambda>o'. filter (\<lambda>c. c \<notin> set (b # bs)) (W o'))"
      by (rule ext) (auto intro: filter_cong)
    moreover have "outside ?W n" if "outside W n" for n using that by (auto simp: outside_def)
    with s'(4) out1 have "\<forall>n. outside W n \<longrightarrow> Flink s' n = Flink s n \<and> Blink s' n = Blink s n" by simp
    moreover have "\<forall>o' us c vs. W o' = us @ c # vs \<longrightarrow> set (b # bs) \<inter> set (W o') = {c} \<longrightarrow>
        Flink s' (WaitEntry c) = hd (map WaitEntry vs @ [WaitHead o'])"
    proof (intro allI impI)
      fix o' us c vs assume w: "W o' = us @ c # vs" "set (b # bs) \<inter> set (W o') = {c}"
      show "Flink s' (WaitEntry c) = hd (map WaitEntry vs @ [WaitHead o'])"
      proof (cases "c = b")
        case True
        with w have "b \<in> set (W o')" by simp
        then have o: "o' = ?o" by (rule Wb)
        with w(1) True Wo have e: "us @ b # vs = xs @ b # ys" by simp
        have d: "distinct (us @ b # vs)" using wait_listsD(4) [OF Cons.prems(1), of o'] w(1) True by simp
        have "vs = ys" using split_unique [OF e d] by simp
        moreover have "outside ?W (WaitEntry b)" by (auto simp: outside_def)
        ultimately show ?thesis using s'(4) s1(5) True o by simp
      next
        case False
        then have "b \<notin> set (W o')" using w(2) by auto
        then have "?W o' = W o'" by (rule filter_neq_id)
        moreover have "set bs \<inter> set (W o') = {c}" using w(2) False by auto
        ultimately show ?thesis using s'(5) w(1) by simp
      qed
    qed
    ultimately show ?thesis using s'(2,3) only_links_trans [OF s1(3)] by (intro exI [of _ s']) simp
  qed
qed simp

lemma wait_lists_cong:
  assumes "wait_lists s W" and "\<And>o'. Flink s' (WaitHead o') = Flink s (WaitHead o') \<and> Blink s' (WaitHead o') = Blink s (WaitHead o')"
    and "\<And>b. Flink s' (WaitEntry b) = Flink s (WaitEntry b) \<and> Blink s' (WaitEntry b) = Blink s (WaitEntry b)"
    and "\<And>b. wb_Object (Blocks s' b) = wb_Object (Blocks s b)"
  shows "wait_lists s' W"
proof -
  have "ring s' (WaitHead o') (map WaitEntry (W o'))" for o'
    using wait_listsD(1) [OF assms(1)] by (rule ring_frame) (use assms(2,3) in auto)
  then show ?thesis using assms(1,4) by (simp add: wait_lists_def)
qed

lemma same_kernelD:
  assumes "same_kernel s s'"
  shows "Blocks s' = Blocks s" "KeInterruptTime s' = KeInterruptTime s" "KeSystemTime s' = KeSystemTime s"
    "Dpcs s' = Dpcs s" "ke.more s' = ke.more s"
  using assms by (simp_all add: same_kernel_def)

lemma timer_frameD:
  assumes "timer_frame s s'"
  shows "\<not> timer_node n \<Longrightarrow> Flink s' n = Flink s n \<and> Blink s' n = Blink s n" "Threads s' = Threads s"
    "Blocks s' = Blocks s" "same_kernel s s'"
  using assms by (simp_all add: timer_frame_def same_kernel_def)

definition ready :: "u32 \<Rightarrow> kthread \<Rightarrow> kthread" where
  "ready st r = r\<lparr>WaitStatus := WaitStatus r OR st, WaitBlockList := NoBlock, State := Ready\<rparr>"

lemma KiUnwaitThread_ok:
  assumes wl: "wait_lists s W" and tab: "timer_table s T" and wt: "waiter s W t bs"
  shows "\<exists>s'. KiUnwaitThread t st s = Some (Inr ((), s')) \<and> wait_lists s' (\<lambda>o'. filter (\<lambda>b. b \<notin> set bs) (W o'))
    \<and> timer_table s' (\<lambda>h. filter (\<lambda>u. u \<noteq> ThreadTimer t) (T h)) \<and> Threads s' = (Threads s)(t := ready st (Threads s t))
    \<and> Objs s' = (Objs s)(ThreadTimer t := (Objs s (ThreadTimer t))\<lparr>hdr_Inserted := False\<rparr>) \<and> same_kernel s s'
    \<and> (\<forall>n. outside W n \<and> \<not> timer_node n \<longrightarrow> Flink s' n = Flink s n \<and> Blink s' n = Blink s n)
    \<and> (\<forall>o' xs b ys. W o' = xs @ b # ys \<longrightarrow> set bs \<inter> set (W o') = {b} \<longrightarrow> Flink s' (WaitEntry b) = hd (map WaitEntry ys @ [WaitHead o']))"
proof -
  let ?W = "\<lambda>o'. filter (\<lambda>b. b \<notin> set bs) (W o')"
  define s1 where "s1 = s\<lparr>Threads := (Threads s)(t := (Threads s t)\<lparr>WaitStatus := WaitStatus (Threads s t) OR st\<rparr>)\<rparr>"
  have s1: "Flink s1 = Flink s" "Blink s1 = Blink s" "Blocks s1 = Blocks s" "Objs s1 = Objs s" "TableTime s1 = TableTime s"
    "same_kernel s s1" by (simp_all add: s1_def same_kernel_def)
  have wl1: "wait_lists s1 W" using wl by (rule wait_lists_cong) (simp_all add: s1)
  have tab1: "timer_table s1 T" using tab by (rule timer_table_cong) (simp_all add: s1)
  have w: "State (Threads s t) = Waiting" "bs \<noteq> []" "WaitBlockList (Threads s t) = hd bs"
    "nexts (\<lambda>b. NextWaitBlock (Blocks s1 b)) bs (hd bs)" "distinct bs" "hd bs \<notin> set (tl bs)"
    "\<forall>b\<in>set bs. b \<in> set (W (wb_Object (Blocks s1 b)))"
    using wt by (cases bs; auto simp: waiter_def s1)+
  obtain s2 where s2: "unlink_chain (hd bs) (hd bs) s1 = Some (Inr ((), s2))" "wait_lists s2 ?W" "only_links s1 s2"
    "\<forall>n. outside W n \<longrightarrow> Flink s2 n = Flink s1 n \<and> Blink s2 n = Blink s1 n"
    "\<forall>o' xs b ys. W o' = xs @ b # ys \<longrightarrow> set bs \<inter> set (W o') = {b} \<longrightarrow> Flink s2 (WaitEntry b) = hd (map WaitEntry ys @ [WaitHead o'])"
    using unlink_chain_ok [OF wl1 w(4,5,6,7)] by blast
  note only = only_linksD [OF s2(3)]
  have tn: "outside W n" if "timer_node n" for n using that by (cases n) (auto simp: outside_def)
  have tab2: "timer_table s2 T" using tab1 by (rule timer_table_cong) (use s2(4) tn in \<open>auto simp: only\<close>)
  obtain s3 where s3: "(if hdr_Inserted (Objs s2 (ThreadTimer t)) then KxRemoveTreeTimer (ThreadTimer t) else ret ()) s2 = Inr ((), s3)"
    "timer_table s3 (\<lambda>h. filter (\<lambda>u. u \<noteq> ThreadTimer t) (T h))" "timer_frame s2 s3"
    "Objs s3 = (Objs s2)(ThreadTimer t := (Objs s2 (ThreadTimer t))\<lparr>hdr_Inserted := False\<rparr>)"
  proof (cases "hdr_Inserted (Objs s2 (ThreadTimer t))")
    case True
    with KxRemoveTreeTimer_table [OF tab2 True] that show thesis by auto
  next
    case False
    have "ThreadTimer t \<notin> set (T h)" if "h < 32" for h using timer_tableD(1) [OF tab2 that] False by blast
    then have e: "filter (\<lambda>u. u \<noteq> ThreadTimer t) (T h) = T h" if "h < 32" for h using that by (simp add: filter_neq_id)
    have "timers_ok s2 T" using tab2 by (simp add: timer_table_def)
    then have "timers_ok s2 (\<lambda>h. filter (\<lambda>u. u \<noteq> ThreadTimer t) (T h))" by (rule timers_ok_buckets) (rule e)
    then have tt: "timer_table s2 (\<lambda>h. filter (\<lambda>u. u \<noteq> ThreadTimer t) (T h))"
      using tab2 by (simp add: timer_table_def e)
    have "(Objs s2 (ThreadTimer t))\<lparr>hdr_Inserted := False\<rparr> = Objs s2 (ThreadTimer t)"
      using False by (cases "Objs s2 (ThreadTimer t)") simp
    then have "Objs s2 = (Objs s2)(ThreadTimer t := (Objs s2 (ThreadTimer t))\<lparr>hdr_Inserted := False\<rparr>)" by (simp only: fun_upd_triv)
    then show thesis by (intro that [OF _ tt timer_frame_refl]) (simp_all only: False if_False ret_apply)
  qed
  note fr = timer_frameD [OF s3(3)]
  define s4 where "s4 = s3\<lparr>Threads := (Threads s)(t := ready st (Threads s t))\<rparr>"
  have "WaitBlockList (Threads s1 t) = hd bs" using w(3) by (simp add: s1_def)
  then have "KiUnlinkThread t st s = Some (Inr ((), s3\<lparr>Threads := (Threads s3)(t := (Threads s3 t)\<lparr>WaitBlockList := NoBlock\<rparr>)\<rparr>))"
    by (simp add: KiUnlinkThread_def set_thread_def get_obj_def s1_def [symmetric]
      obnd_step [of "unlink_chain (hd bs) (hd bs)", OF s2(1)] obnd_lift_step [of "if _ then _ else _", OF s3(1)])
  then have run: "KiUnwaitThread t st s = Some (Inr ((), s4))"
    using w(1) by (simp add: KiUnwaitThread_def obnd_step set_thread_def) (simp add: s1_def s4_def ready_def only fr(2))
  have "wait_lists s4 ?W" using s2(2) by (rule wait_lists_cong) (use fr in \<open>auto simp: s4_def\<close>)
  moreover have "timer_table s4 (\<lambda>h. filter (\<lambda>u. u \<noteq> ThreadTimer t) (T h))"
    using s3(2) by (rule timer_table_cong) (simp_all add: s4_def)
  moreover have "same_kernel s s4"
    using s1(6) only(5) fr(4) by (simp add: same_kernel_def s4_def)
  moreover have "Objs s4 = (Objs s)(ThreadTimer t := (Objs s (ThreadTimer t))\<lparr>hdr_Inserted := False\<rparr>)"
    by (simp add: s4_def s3(4) only s1)
  moreover have "\<forall>n. outside W n \<and> \<not> timer_node n \<longrightarrow> Flink s4 n = Flink s n \<and> Blink s4 n = Blink s n"
    using fr(1) s2(4) by (simp add: s4_def s1)
  moreover have "Flink s4 (WaitEntry b) = Flink s2 (WaitEntry b)" for b using fr(1) [of "WaitEntry b"] by (simp add: s4_def)
  ultimately show ?thesis using run s2(5) by (intro exI [of _ s4]) (simp add: s4_def)
qed

section \<open>The dispatcher's invariant\<close>

text \<open>
  Every block in a wait list is a \<open>WaitAny\<close> block of a waiting thread and in the thread's chain. No
  thread waits twice for the same object.
\<close>

definition dispatcher :: "'a ke_scheme \<Rightarrow> (obj \<Rightarrow> block list) \<Rightarrow> (nat \<Rightarrow> obj list) \<Rightarrow> bool" where
  "dispatcher s W T \<longleftrightarrow> wait_lists s W \<and> timer_table s T \<and> (\<forall>o'. \<forall>b\<in>set (W o'). WaitType (Blocks s b) = WaitAny
     \<and> (\<exists>bs. waiter s W (wb_Thread (Blocks s b)) bs \<and> b \<in> set bs))"

lemma nexts_unique:
  "nexts f xs z \<Longrightarrow> nexts f ys z \<Longrightarrow> hd xs = hd ys \<Longrightarrow> z \<notin> set (tl xs) \<Longrightarrow> z \<notin> set (tl ys) \<Longrightarrow> xs = ys"
proof (induction f xs z arbitrary: ys rule: nexts.induct)
  case (2 f b z)
  then show ?case by (cases "(f, ys, z)" rule: nexts.cases) auto
next
  case (3 f b c r z)
  have "z = c \<or> z \<noteq> c" "f b = c" using 3(2) by auto
  with 3(2-) obtain ra where ys: "ys = b # c # ra" "nexts f (c # ra) z" "z \<notin> set ra"
    by (cases "(f, ys, z)" rule: nexts.cases) auto
  then have "c # r = c # ra" using 3(2,5) by (intro 3(1)) auto
  then show ?case by (simp add: ys(1))
qed simp

lemma waiter_unique: "waiter s W t bs \<Longrightarrow> waiter s W t cs \<Longrightarrow> bs = cs"
proof -
  assume *: "waiter s W t bs" "waiter s W t cs"
  then have "hd bs \<notin> set (tl bs)" "hd cs \<notin> set (tl cs)" "hd bs = hd cs"
    by (cases bs; cases cs; auto simp: waiter_def)+
  with * nexts_unique [of _ bs "hd bs" cs] show "bs = cs" by (auto simp: waiter_def)
qed

lemma dispatcherD:
  assumes "dispatcher s W T"
  shows "wait_lists s W" and "timer_table s T" and "b \<in> set (W o') \<Longrightarrow> WaitType (Blocks s b) = WaitAny"
    and "b \<in> set (W o') \<Longrightarrow> \<exists>bs. waiter s W (wb_Thread (Blocks s b)) bs \<and> b \<in> set bs"
  using assms by (auto simp: dispatcher_def)

lemma chain_thread:
  assumes "dispatcher s W T" and "waiter s W t bs" and "b \<in> set (W o')"
  shows "b \<in> set bs \<longleftrightarrow> wb_Thread (Blocks s b) = t"
proof
  show "b \<in> set bs \<Longrightarrow> wb_Thread (Blocks s b) = t" using assms(2) by (simp add: waiter_def)
  assume "wb_Thread (Blocks s b) = t"
  with dispatcherD(4) [OF assms(1,3)] waiter_unique [OF assms(2)] show "b \<in> set bs" by metis
qed

lemma waiter_cong:
  assumes "waiter s W t bs" and "Threads s' t = Threads s t" and "Blocks s' = Blocks s"
    and "\<And>b. b \<in> set bs \<Longrightarrow> b \<in> set (W' (wb_Object (Blocks s b)))"
  shows "waiter s' W' t bs"
  using assms(1,4) unfolding waiter_def assms(2,3) by blast

definition without :: "'a ke_scheme \<Rightarrow> nat set \<Rightarrow> (obj \<Rightarrow> block list) \<Rightarrow> obj \<Rightarrow> block list" where
  "without s A W o' = filter (\<lambda>b. wb_Thread (Blocks s b) \<notin> A) (W o')"

definition untimed :: "nat set \<Rightarrow> (nat \<Rightarrow> obj list) \<Rightarrow> nat \<Rightarrow> obj list" where
  "untimed A T h = filter (\<lambda>u. u \<notin> ThreadTimer ` A) (T h)"

lemma without_blocks: "Blocks s' = Blocks s \<Longrightarrow> without s' = without s"
  by (simp add: without_def fun_eq_iff)

text \<open>Releasing a waiter keeps the invariant: all its blocks and its timer leave their lists.\<close>

lemma KiUnwaitThread_dispatcher:
  assumes d: "dispatcher s W T" and b: "W o' = xs @ b # ys"
  defines "t \<equiv> wb_Thread (Blocks s b)"
  shows "\<exists>s'. KiUnwaitThread t st s = Some (Inr ((), s')) \<and> dispatcher s' (without s {t} W) (untimed {t} T)
    \<and> without s {t} W o' = xs @ ys
    \<and> Threads s' = (Threads s)(t := ready st (Threads s t)) \<and> State (Threads s t) = Waiting
    \<and> Objs s' = (Objs s)(ThreadTimer t := (Objs s (ThreadTimer t))\<lparr>hdr_Inserted := False\<rparr>) \<and> same_kernel s s'
    \<and> (\<forall>n. outside W n \<and> \<not> timer_node n \<longrightarrow> Flink s' n = Flink s n \<and> Blink s' n = Blink s n)
    \<and> Flink s' (WaitEntry b) = hd (map WaitEntry ys @ [WaitHead o'])"
proof -
  have bW: "b \<in> set (W o')" by (simp add: b)
  obtain bs where w: "waiter s W t bs" "b \<in> set bs" using dispatcherD(4) [OF d bW] by (auto simp: t_def)
  note wl = dispatcherD(1) [OF d]
  have W': "(\<lambda>o'. filter (\<lambda>b. b \<notin> set bs) (W o')) = without s {t} W"
    using chain_thread [OF d w(1)] by (intro ext) (auto simp: without_def intro: filter_cong)
  have T': "(\<lambda>h. filter (\<lambda>u. u \<noteq> ThreadTimer t) (T h)) = untimed {t} T" by (intro ext) (simp add: untimed_def)
  have inj: "c = b" if "c \<in> set bs" "c \<in> set (W o')" for c
  proof -
    have "wb_Object (Blocks s c) = wb_Object (Blocks s b)" using wait_listsD(2) [OF wl] that(2) bW by simp
    with w that(1) show ?thesis by (auto simp: waiter_def dest: inj_onD)
  qed
  then have "set bs \<inter> set (W o') = {b}" using w(2) bW by blast
  with KiUnwaitThread_ok [OF wl dispatcherD(2) [OF d] w(1), of st] b obtain s' where
    s': "KiUnwaitThread t st s = Some (Inr ((), s'))" "wait_lists s' (without s {t} W)" "timer_table s' (untimed {t} T)"
    "Threads s' = (Threads s)(t := ready st (Threads s t))"
    "Objs s' = (Objs s)(ThreadTimer t := (Objs s (ThreadTimer t))\<lparr>hdr_Inserted := False\<rparr>)" "same_kernel s s'"
    "\<forall>n. outside W n \<and> \<not> timer_node n \<longrightarrow> Flink s' n = Flink s n \<and> Blink s' n = Blink s n"
    "Flink s' (WaitEntry b) = hd (map WaitEntry ys @ [WaitHead o'])"
    unfolding W' T' by blast
  have B: "Blocks s' = Blocks s" using s'(6) by (rule same_kernelD)
  have "\<exists>cs. waiter s' (without s {t} W) (wb_Thread (Blocks s' c)) cs \<and> c \<in> set cs" if c: "c \<in> set (without s {t} W q)" for c q
  proof -
    have c': "c \<in> set (W q)" "wb_Thread (Blocks s c) \<noteq> t" using c by (auto simp: without_def)
    obtain cs where cs: "waiter s W (wb_Thread (Blocks s c)) cs" "c \<in> set cs" using dispatcherD(4) [OF d c'(1)] by blast
    have "waiter s' (without s {t} W) (wb_Thread (Blocks s c)) cs"
      using cs(1) by (rule waiter_cong) (use c' cs(1) in \<open>auto simp: s'(4) B without_def waiter_def\<close>)
    with cs(2) show ?thesis by (auto simp: B)
  qed
  moreover have "WaitType (Blocks s' c) = WaitAny" if "c \<in> set (without s {t} W q)" for c q
    using dispatcherD(3) [OF d] that by (auto simp: B without_def)
  ultimately have "dispatcher s' (without s {t} W) (untimed {t} T)" using s'(2,3) by (simp add: dispatcher_def)
  moreover have "without s {t} W o' = xs @ ys"
  proof -
    have "filter (\<lambda>c. c \<notin> set bs) (W o') = filter (\<lambda>c. c \<noteq> b) (W o')" using inj w(2) by (intro filter_cong) auto
    also have "\<dots> = xs @ ys" using wait_listsD(4) [OF wl, of o'] by (simp add: b filter_neq_id)
    finally show ?thesis using fun_cong [OF W', of o'] by simp
  qed
  moreover have "State (Threads s t) = Waiting" using w(1) by (simp add: waiter_def)
  ultimately show ?thesis using s' by (intro exI [of _ s']) simp
qed

section \<open>The wait test\<close>

lemma dispatcher_cong:
  assumes "dispatcher s W T" and "Flink s' = Flink s" and "Blink s' = Blink s" and "Blocks s' = Blocks s"
    and "Threads s' = Threads s" and "TableTime s' = TableTime s"
    and "\<And>u. DueTime (Objs s' u) = DueTime (Objs s u) \<and> hdr_Inserted (Objs s' u) = hdr_Inserted (Objs s u)"
  shows "dispatcher s' W T"
proof -
  have "wait_lists s' W" using dispatcherD(1) [OF assms(1)] by (rule wait_lists_cong) (simp_all add: assms)
  moreover have "timer_table s' T" using dispatcherD(2) [OF assms(1)] by (rule timer_table_cong) (use assms in auto)
  ultimately show ?thesis using assms(1,4,5) by (simp add: dispatcher_def waiter_def)
qed

definition satisfied :: "u8 \<Rightarrow> u32 \<Rightarrow> u32" where
  "satisfied ty v = (if ty AND 7 = EventSynchronizationObject then 0 else if ty = SemaphoreObject then v - 1 else v)"

fun wakes :: "u8 \<Rightarrow> u32 \<Rightarrow> nat \<Rightarrow> nat" where
  "wakes ty v 0 = 0"
| "wakes ty v (Suc n) = (if 0 <s v then Suc (wakes ty (satisfied ty v) n) else 0)"

fun left_over :: "u8 \<Rightarrow> u32 \<Rightarrow> nat \<Rightarrow> u32" where
  "left_over ty v 0 = v"
| "left_over ty v (Suc n) = (if 0 <s v then left_over ty (satisfied ty v) n else v)"

lemma wakes_le: "wakes ty v n \<le> n"
  by (induction ty v n rule: wakes.induct) auto

lemma KiWaitSatisfyAny_run:
  assumes "hdr_Type (Objs s o') \<noteq> MutantObject"
  shows "KiWaitSatisfyAny o' t s = Inr ((), s\<lparr>Objs := (Objs s)(o' := (Objs s o')\<lparr>SignalState := satisfied (hdr_Type (Objs s o')) (SignalState (Objs s o'))\<rparr>)\<rparr>)"
  using assms by (auto simp: KiWaitSatisfyAny_def run_simps get_obj_def set_obj_def satisfied_def fun_upd_idem)

definition woken :: "'a ke_scheme \<Rightarrow> 'a ke_scheme \<Rightarrow> block list \<Rightarrow> obj \<Rightarrow> u32 \<Rightarrow> bool" where
  "woken s s' ks o' v \<longleftrightarrow> same_kernel s s'
     \<and> (\<forall>b\<in>set ks. Threads s' (wb_Thread (Blocks s b)) = ready (ucast (WaitKey (Blocks s b))) (Threads s (wb_Thread (Blocks s b))))
     \<and> (\<forall>t. t \<notin> (\<lambda>b. wb_Thread (Blocks s b)) ` set ks \<longrightarrow> Threads s' t = Threads s t)
     \<and> (\<forall>u. Objs s' u = (Objs s u)\<lparr>hdr_Inserted := hdr_Inserted (Objs s u) \<and> u \<notin> ThreadTimer ` (\<lambda>b. wb_Thread (Blocks s b)) ` set ks,
          SignalState := if u = o' then v else SignalState (Objs s u)\<rparr>)"

abbreviation threads_of :: "'a ke_scheme \<Rightarrow> block list \<Rightarrow> nat set" where
  "threads_of s ks \<equiv> (\<lambda>b. wb_Thread (Blocks s b)) ` set ks"

lemma wait_test_loop_ok:
  assumes "dispatcher s W T" and "hdr_Type (Objs s o') \<noteq> MutantObject"
  defines "k \<equiv> wakes (hdr_Type (Objs s o')) (SignalState (Objs s o')) (length (W o'))"
  shows "\<exists>s'. wait_test_loop o' (hd (map WaitEntry (W o') @ [WaitHead o'])) s = Some (Inr ((), s'))
    \<and> dispatcher s' (without s (threads_of s (take k (W o'))) W) (untimed (threads_of s (take k (W o'))) T)
    \<and> without s (threads_of s (take k (W o'))) W o' = drop k (W o')
    \<and> woken s s' (take k (W o')) o' (left_over (hdr_Type (Objs s o')) (SignalState (Objs s o')) (length (W o')))
    \<and> (\<forall>n. outside W n \<and> \<not> timer_node n \<longrightarrow> Flink s' n = Flink s n \<and> Blink s' n = Blink s n)"
  using assms(1,2) unfolding k_def
proof (induction "W o'" arbitrary: s W T)
  case Nil
  have [simp]: "without s {} W = W" "untimed {} T = T" by (simp_all add: without_def untimed_def fun_eq_iff)
  have "Objs s u = (Objs s u)\<lparr>hdr_Inserted := hdr_Inserted (Objs s u), SignalState := SignalState (Objs s u)\<rparr>" for u by simp
  with Nil show ?case
    by (subst wait_test_loop.simps) (auto simp: get_obj_def woken_def)
next
  case (Cons b bs)
  let ?ty = "hdr_Type (Objs s o')" and ?v = "SignalState (Objs s o')"
  have Wo: "W o' = [] @ b # bs" using Cons(2) by simp
  show ?case
  proof (cases "0 <s ?v")
    case False
    have [simp]: "without s {} W = W" "untimed {} T = T" by (simp_all add: without_def untimed_def fun_eq_iff)
    have "Objs s u = (Objs s u)\<lparr>hdr_Inserted := hdr_Inserted (Objs s u), SignalState := SignalState (Objs s u)\<rparr>" for u by simp
    with False Cons(3) show ?thesis
      by (subst wait_test_loop.simps) (auto simp: get_obj_def woken_def Wo)
  next
    case True
    define t where "t = wb_Thread (Blocks s b)"
    define s1 where "s1 = s\<lparr>Objs := (Objs s)(o' := (Objs s o')\<lparr>SignalState := satisfied ?ty ?v\<rparr>)\<rparr>"
    have B1: "Blocks s1 = Blocks s" "Threads s1 = Threads s" "Flink s1 = Flink s" "Blink s1 = Blink s" by (simp_all add: s1_def)
    have d1: "dispatcher s1 W T" using Cons(3) by (rule dispatcher_cong) (simp_all add: s1_def)
    obtain s2 where s2: "KiUnwaitThread t (ucast (WaitKey (Blocks s b))) s1 = Some (Inr ((), s2))"
      "dispatcher s2 (without s {t} W) (untimed {t} T)" "without s {t} W o' = bs"
      "Threads s2 = (Threads s)(t := ready (ucast (WaitKey (Blocks s b))) (Threads s t))"
      "Objs s2 = (Objs s1)(ThreadTimer t := (Objs s1 (ThreadTimer t))\<lparr>hdr_Inserted := False\<rparr>)" "same_kernel s1 s2"
      "\<forall>n. outside W n \<and> \<not> timer_node n \<longrightarrow> Flink s2 n = Flink s1 n \<and> Blink s2 n = Blink s1 n"
      "Flink s2 (WaitEntry b) = hd (map WaitEntry bs @ [WaitHead o'])"
      using KiUnwaitThread_dispatcher [OF d1 Wo, of "ucast (WaitKey (Blocks s b))"] unfolding B1 t_def [symmetric] without_def
      by auto
    have B2: "Blocks s2 = Blocks s" using same_kernelD(1) [OF s2(6)] B1 by simp
    have o2: "Objs s2 u = (Objs s u)\<lparr>hdr_Inserted := hdr_Inserted (Objs s u) \<and> u \<noteq> ThreadTimer t,
        SignalState := if u = o' then satisfied ?ty ?v else SignalState (Objs s u)\<rparr>" for u
      by (auto simp: s2(5) s1_def)
    have wt: "WaitType (Blocks s b) = WaitAny" "b \<noteq> NoBlock"
      using dispatcherD(3) [OF Cons(3), of b o'] wait_listsD(3) [OF dispatcherD(1) [OF Cons(3)], of b o'] by (simp_all add: Wo)
    have step: "wait_test_loop o' (WaitEntry b) s = wait_test_loop o' (hd (map WaitEntry bs @ [WaitHead o'])) s2"
      using True KiWaitSatisfyAny_run [OF Cons(4), of t] s2(1,8) wt
      by (subst wait_test_loop.simps) (simp add: get_obj_def block_of_def get_block_def obnd_def lift_def release_waiter_def
          t_def [symmetric] s1_def [symmetric] B1 get_Flink_def)
    have ty: "hdr_Type (Objs s2 o') = ?ty" "SignalState (Objs s2 o') = satisfied ?ty ?v" by (simp_all add: o2)
    let ?k = "wakes ?ty (satisfied ?ty ?v) (length bs)"
    from Cons(1) [OF s2(3) [symmetric] s2(2)] Cons(4) obtain s' where
      s': "wait_test_loop o' (hd (map WaitEntry bs @ [WaitHead o'])) s2 = Some (Inr ((), s'))"
      "dispatcher s' (without s (threads_of s (take ?k bs)) (without s {t} W)) (untimed (threads_of s (take ?k bs)) (untimed {t} T))"
      "without s (threads_of s (take ?k bs)) (without s {t} W) o' = drop ?k bs"
      "woken s2 s' (take ?k bs) o' (left_over ?ty (satisfied ?ty ?v) (length bs))"
      "\<forall>n. outside (without s {t} W) n \<and> \<not> timer_node n \<longrightarrow> Flink s' n = Flink s2 n \<and> Blink s' n = Blink s2 n"
      unfolding s2(3) ty without_blocks [OF B2] B2 by auto
    let ?ks = "take (wakes ?ty ?v (length (W o'))) (W o')"
    have ks: "?ks = b # take ?k bs" using True by (simp add: Wo)
    have th: "threads_of s ?ks = insert t (threads_of s (take ?k bs))" by (simp add: ks t_def)
    have w2: "without s (threads_of s (take ?k bs)) (without s {t} W) = without s (threads_of s ?ks) W"
      unfolding th by (rule ext) (auto simp: without_def intro: filter_cong)
    have t2: "untimed (threads_of s (take ?k bs)) (untimed {t} T) = untimed (threads_of s ?ks) T"
      unfolding th by (rule ext) (auto simp: untimed_def intro: filter_cong)
    have out: "outside (without s {t} W) n" if "outside W n" for n using that by (auto simp: outside_def without_def)
    have fresh: "t \<notin> threads_of s (take ?k bs)" using s2(3) by (auto simp: without_def dest!: in_set_takeD)
    have w: "woken s s' ?ks o' (left_over ?ty ?v (length (W o')))"
      unfolding woken_def
    proof (intro conjI ballI allI impI)
      show "same_kernel s s'" using s'(4) s2(6) same_kernel_trans [of s s1] same_kernel_trans [of s1 s2]
        by (simp add: woken_def same_kernel_def s1_def)
      show "Threads s' (wb_Thread (Blocks s c)) = ready (ucast (WaitKey (Blocks s c))) (Threads s (wb_Thread (Blocks s c)))"
        if "c \<in> set ?ks" for c
      proof (cases "c = b")
        case True
        with fresh s'(4) show ?thesis by (simp add: woken_def B2 s2(4) t_def [symmetric])
      next
        case False
        with that have c: "c \<in> set (take ?k bs)" unfolding ks by simp
        with fresh have "wb_Thread (Blocks s c) \<noteq> t" by auto
        with c s'(4) show ?thesis by (simp add: woken_def B2 s2(4))
      qed
      show "Threads s' q = Threads s q" if "q \<notin> threads_of s ?ks" for q
        using that s'(4) unfolding th by (simp add: woken_def B2 s2(4))
      show "Objs s' u = (Objs s u)\<lparr>hdr_Inserted := hdr_Inserted (Objs s u) \<and> u \<notin> ThreadTimer ` threads_of s ?ks,
          SignalState := if u = o' then left_over ?ty ?v (length (W o')) else SignalState (Objs s u)\<rparr>" for u
        using s'(4) True unfolding th by (auto simp: woken_def B2 o2 Wo)
    qed
    have "without s (threads_of s ?ks) W o' = drop (wakes ?ty ?v (length (W o'))) (W o')"
      using s'(3) True unfolding w2 by (simp add: Wo)
    then show ?thesis using step s'(1,2,5) w s2(7) out unfolding w2 t2
      by (intro exI [of _ s']) (simp add: Wo B1)
  qed
qed

end
