(* ===== verification/Ke_Signal.thy ===== *)
theory Ke_Signal
  imports Ke_WaitFacts
begin

text \<open>
  What signalling a dispatcher object does to its waiters: events and semaphores.
\<close>

lemma wakes_semaphore: "wakes SemaphoreObject v n = min n (nat (sint v))"
proof (induction n arbitrary: v)
  case (Suc n)
  have "sint (v - 1) = sint v - 1" if "0 <s v"
  proof -
    have "0 < sint v" "sint v < 2 ^ 31" using that sint_lt [of v] by (simp_all add: word_sless_alt)
    then show ?thesis by (simp add: sint_word_ariths signed_take_bit_int_eq_self)
  qed
  then show ?case using Suc [of "v - 1"] by (auto simp: satisfied_def object_types word_sless_alt)
qed simp

lemma left_over_semaphore: "left_over SemaphoreObject v n = v - of_nat (wakes SemaphoreObject v n)"
  by (induction n arbitrary: v) (auto simp: satisfied_def object_types)

lemma wakes_notification:
  "ty AND 7 \<noteq> EventSynchronizationObject \<Longrightarrow> ty \<noteq> SemaphoreObject \<Longrightarrow> wakes ty v n = (if 0 <s v then n else 0)"
  by (induction n) (auto simp: satisfied_def)

lemma left_over_notification:
  "ty AND 7 \<noteq> EventSynchronizationObject \<Longrightarrow> ty \<noteq> SemaphoreObject \<Longrightarrow> left_over ty v n = v"
  by (induction n) (auto simp: satisfied_def)

lemma KiWaitTest_ok:
  assumes "dispatcher s W T" and "hdr_Type (Objs s o') \<noteq> MutantObject"
  defines "ks \<equiv> take (wakes (hdr_Type (Objs s o')) (SignalState (Objs s o')) (length (W o'))) (W o')"
  shows "\<exists>s'. KiWaitTest o' s = Some (Inr ((), s')) \<and> dispatcher s' (without s (threads_of s ks) W) (untimed (threads_of s ks) T)
    \<and> without s (threads_of s ks) W o' = drop (length ks) (W o')
    \<and> woken s s' ks o' (left_over (hdr_Type (Objs s o')) (SignalState (Objs s o')) (length (W o')))
    \<and> (\<forall>n. outside W n \<and> \<not> timer_node n \<longrightarrow> Flink s' n = Flink s n \<and> Blink s' n = Blink s n)"
proof -
  note r = wait_listsD(1) [OF dispatcherD(1) [OF assms(1)], of o']
  have "Flink s (WaitHead o') = hd (map WaitEntry (W o') @ [WaitHead o'])" using ring_Flink_head [OF r] by (cases "W o'") auto
  then have "KiWaitTest o' s = wait_test_loop o' (hd (map WaitEntry (W o') @ [WaitHead o'])) s"
    by (simp add: KiWaitTest_def obnd_def lift_def get_Flink_def)
  moreover have "length ks = wakes (hdr_Type (Objs s o')) (SignalState (Objs s o')) (length (W o'))"
    using wakes_le by (simp add: ks_def)
  ultimately show ?thesis using wait_test_loop_ok [OF assms(1,2)] unfolding ks_def by auto
qed

text \<open>
  The state after a signal: the threads of the blocks \<open>ks\<close> were released, the object is left with
  \<open>v\<close>, and everything else about the dispatcher is as it was.
\<close>

definition signalled :: "'a ke_scheme \<Rightarrow> (obj \<Rightarrow> block list) \<Rightarrow> (nat \<Rightarrow> obj list) \<Rightarrow> 'a ke_scheme \<Rightarrow> block list \<Rightarrow> obj \<Rightarrow> u32 \<Rightarrow> bool" where
  "signalled s W T s' ks o' v \<longleftrightarrow> dispatcher s' (without s (threads_of s ks) W) (untimed (threads_of s ks) T)
     \<and> (\<forall>b\<in>set ks. State (Threads s' (wb_Thread (Blocks s b))) = Ready
          \<and> WaitStatus (Threads s' (wb_Thread (Blocks s b))) = WaitStatus (Threads s (wb_Thread (Blocks s b))) OR ucast (WaitKey (Blocks s b)))
     \<and> (\<forall>t. t \<notin> threads_of s ks \<longrightarrow> Threads s' t = Threads s t)
     \<and> SignalState (Objs s' o') = v \<and> (\<forall>u. u \<noteq> o' \<longrightarrow> SignalState (Objs s' u) = SignalState (Objs s u))"

lemma signalled_of_woken:
  "dispatcher s' (without s (threads_of s ks) W) (untimed (threads_of s ks) T) \<Longrightarrow> woken s s' ks o' v \<Longrightarrow> signalled s W T s' ks o' v"
  by (simp add: signalled_def woken_def ready_def)

lemma signalled_none:
  assumes "dispatcher s W T"
  shows "signalled s W T (s\<lparr>Objs := (Objs s)(o' := (Objs s o')\<lparr>SignalState := v\<rparr>)\<rparr>) [] o' v"
proof -
  have [simp]: "without s {} W = W" "untimed {} T = T" by (simp_all add: without_def untimed_def fun_eq_iff)
  have "dispatcher (s\<lparr>Objs := (Objs s)(o' := (Objs s o')\<lparr>SignalState := v\<rparr>)\<rparr>) W T"
    using assms by (rule dispatcher_cong) simp_all
  then show ?thesis by (simp add: signalled_def)
qed

text \<open>Setting the signal and then testing, as events and semaphores do.\<close>

lemma signal_test:
  fixes v :: u32
  assumes "dispatcher s W T" and "hdr_Type (Objs s o') \<noteq> MutantObject"
  defines "ks \<equiv> take (wakes (hdr_Type (Objs s o')) v (length (W o'))) (W o')"
    and "s1 \<equiv> s\<lparr>Objs := (Objs s)(o' := (Objs s o')\<lparr>SignalState := v\<rparr>)\<rparr>"
  shows "\<exists>s'. KiWaitTest o' s1 = Some (Inr ((), s')) \<and> signalled s W T s' ks o' (left_over (hdr_Type (Objs s o')) v (length (W o')))
    \<and> without s (threads_of s ks) W o' = drop (length ks) (W o')"
proof -
  have d1: "dispatcher s1 W T" using assms(1) by (rule dispatcher_cong) (simp_all add: s1_def)
  have o1: "hdr_Type (Objs s1 o') = hdr_Type (Objs s o')" "SignalState (Objs s1 o') = v" "Blocks s1 = Blocks s" by (simp_all add: s1_def)
  from KiWaitTest_ok [OF d1, of o'] assms(2) obtain s' where s': "KiWaitTest o' s1 = Some (Inr ((), s'))"
    "dispatcher s' (without s (threads_of s ks) W) (untimed (threads_of s ks) T)"
    "without s (threads_of s ks) W o' = drop (length ks) (W o')"
    "woken s1 s' ks o' (left_over (hdr_Type (Objs s o')) v (length (W o')))"
    unfolding o1 without_blocks [OF o1(3)] ks_def by blast
  have "signalled s W T s' ks o' (left_over (hdr_Type (Objs s o')) v (length (W o')))"
    using s'(2,4) by (auto simp: signalled_def woken_def ready_def s1_def)
  with s' show ?thesis by blast
qed

lemma IsListEmpty_waiters: "dispatcher s W T \<Longrightarrow> IsListEmpty (WaitHead o') s = Inr (W o' = [], s)"
  using IsListEmpty_ring [OF wait_listsD(1) [OF dispatcherD(1)]] by simp

lemma KeReleaseSemaphore_ok:
  fixes m :: obj
  assumes "dispatcher s W T" and "hdr_Type (Objs s m) = SemaphoreObject"
  defines "v \<equiv> SignalState (Objs s m)" and "lim \<equiv> Limit (Objs s m)"
  shows "((lim <s v + adj \<or> v + adj <s v) \<longrightarrow>
        KeReleaseSemaphore cur m adj False s = Some (Inl (Raised X_STATUS_SEMAPHORE_LIMIT_EXCEEDED)))
    \<and> (\<not> (lim <s v + adj \<or> v + adj <s v) \<and> v = 0 \<longrightarrow> (\<exists>s'. KeReleaseSemaphore cur m adj False s = Some (Inr (0, s'))
        \<and> (let k = min (length (W m)) (nat (sint adj)) in
           signalled s W T s' (take k (W m)) m (adj - of_nat k) \<and> without s (threads_of s (take k (W m))) W m = drop k (W m))))
    \<and> (\<not> (lim <s v + adj \<or> v + adj <s v) \<and> v \<noteq> 0 \<longrightarrow> (\<exists>s'. KeReleaseSemaphore cur m adj False s = Some (Inr (v, s'))
        \<and> signalled s W T s' [] m (v + adj)))"
proof (intro conjI impI)
  show "KeReleaseSemaphore cur m adj False s = Some (Inl (Raised X_STATUS_SEMAPHORE_LIMIT_EXCEEDED))"
    if "lim <s v + adj \<or> v + adj <s v" using that by (auto simp: KeReleaseSemaphore_def get_obj_def v_def lim_def Let_def)
next
  assume *: "\<not> (lim <s v + adj \<or> v + adj <s v) \<and> v = 0"
  let ?k = "min (length (W m)) (nat (sint adj))"
  have ne: "hdr_Type (Objs s m) \<noteq> MutantObject" using assms(2) by (simp add: object_types)
  obtain s' where s': "KiWaitTest m (s\<lparr>Objs := (Objs s)(m := (Objs s m)\<lparr>SignalState := adj\<rparr>)\<rparr>) = Some (Inr ((), s'))"
    "signalled s W T s' (take ?k (W m)) m (adj - of_nat ?k)" "without s (threads_of s (take ?k (W m))) W m = drop ?k (W m)"
    using signal_test [OF assms(1) ne, of adj] unfolding assms(2) wakes_semaphore left_over_semaphore by auto
  have d1: "dispatcher (s\<lparr>Objs := (Objs s)(m := (Objs s m)\<lparr>SignalState := adj\<rparr>)\<rparr>) W T"
    using assms(1) by (rule dispatcher_cong) simp_all
  show "\<exists>s'. KeReleaseSemaphore cur m adj False s = Some (Inr (0, s'))
        \<and> (let k = min (length (W m)) (nat (sint adj)) in
           signalled s W T s' (take k (W m)) m (adj - of_nat k) \<and> without s (threads_of s (take k (W m))) W m = drop k (W m))"
  proof (cases "W m = []")
    case True
    with * signalled_none [OF assms(1), of m adj] show ?thesis
      by (auto simp: KeReleaseSemaphore_def get_obj_def v_def lim_def set_obj_def wait_next_def
          obnd_lift_step [of "IsListEmpty _", OF IsListEmpty_waiters [OF d1]] without_def)
  next
    case False
    with * s' show ?thesis
      by (auto simp: KeReleaseSemaphore_def get_obj_def v_def lim_def set_obj_def wait_next_def
          obnd_lift_step [of "IsListEmpty _", OF IsListEmpty_waiters [OF d1]] obnd_step Let_def)
  qed
next
  assume *: "\<not> (lim <s v + adj \<or> v + adj <s v) \<and> v \<noteq> 0"
  have d1: "dispatcher (s\<lparr>Objs := (Objs s)(m := (Objs s m)\<lparr>SignalState := v + adj\<rparr>)\<rparr>) W T"
    using assms(1) by (rule dispatcher_cong) simp_all
  show "\<exists>s'. KeReleaseSemaphore cur m adj False s = Some (Inr (v, s')) \<and> signalled s W T s' [] m (v + adj)"
    using * signalled_none [OF assms(1), of m "v + adj"]
    by (auto simp: obnd_lift_step [of "IsListEmpty _", OF IsListEmpty_waiters [OF d1]] KeReleaseSemaphore_def get_obj_def v_def [symmetric] lim_def [symmetric] set_obj_def wait_next_def Let_def)
qed


lemma KeSetEvent_ok:
  fixes e :: obj
  assumes "dispatcher s W T"
  defines "v \<equiv> SignalState (Objs s e)" and "ty \<equiv> hdr_Type (Objs s e)"
  shows "\<exists>s'. KeSetEvent cur e False s = Some (Inr (v, s'))
    \<and> (W e = [] \<longrightarrow> signalled s W T s' [] e 1)
    \<and> (W e \<noteq> [] \<and> ty = EventSynchronizationObject \<longrightarrow> signalled s W T s' [hd (W e)] e v
         \<and> without s (threads_of s [hd (W e)]) W e = tl (W e))
    \<and> (W e \<noteq> [] \<and> ty = EventNotificationObject \<and> v = 0 \<longrightarrow> signalled s W T s' (W e) e 1
         \<and> without s (threads_of s (W e)) W e = [])"
proof -
  have nb: "hd (W e) \<noteq> NoBlock" "WaitType (Blocks s (hd (W e))) = WaitAny" if "W e \<noteq> []"
    using that dispatcherD(3) [OF assms(1), of "hd (W e)" e] wait_listsD(3) [OF dispatcherD(1) [OF assms(1)], of "hd (W e)" e] by simp_all
  have fl: "get_Flink (WaitHead e) s = Inr (WaitEntry (hd (W e)), s)" if "W e \<noteq> []"
    using ring_Flink_head [OF wait_listsD(1) [OF dispatcherD(1) [OF assms(1)], of e]] that by (cases "W e") (simp_all add: get_Flink_def)
  note em = IsListEmpty_waiters [OF assms(1), of e]
  show ?thesis
  proof (cases "W e = []")
    case True
    with signalled_none [OF assms(1), of e 1] em show ?thesis
      by (auto simp: KeSetEvent_def get_obj_def v_def set_obj_def wait_next_def obnd_def lift_def)
  next
    case False
    have run: "KeSetEvent cur e False s = obnd (if ty = EventNotificationObject then
         if v = 0 then obnd (lift (set_obj e (\<lambda>k. k\<lparr>SignalState := 1\<rparr>))) (\<lambda>_. KiWaitTest e) else oret ()
       else release_waiter (hd (W e)) (Blocks s (hd (W e)))) (\<lambda>_. obnd (lift (ret ())) (\<lambda>_. oret v)) s"
      using False em fl nb
      by (simp add: KeSetEvent_def get_obj_def obnd_lift_step block_of_def get_block_def v_def ty_def wait_next_def obnd_def lift_def)
    show ?thesis
    proof (cases "ty = EventNotificationObject")
      case True
      have ne: "hdr_Type (Objs s e) \<noteq> MutantObject" and ty: "ty AND 7 \<noteq> EventSynchronizationObject" "ty \<noteq> SemaphoreObject"
        using True by (simp_all add: ty_def object_types)
      obtain s' where "KiWaitTest e (s\<lparr>Objs := (Objs s)(e := (Objs s e)\<lparr>SignalState := 1\<rparr>)\<rparr>) = Some (Inr ((), s'))"
        "signalled s W T s' (W e) e 1" "without s (threads_of s (W e)) W e = []"
        using signal_test [OF assms(1) ne, of 1] unfolding ty_def [symmetric] wakes_notification [OF ty] left_over_notification [OF ty]
        by (auto simp: word_sless_alt)
      with run True False show ?thesis by (cases "v = 0") (auto simp: obnd_def lift_def set_obj_def object_types)
    next
      case False
      obtain ys where We: "W e = [] @ hd (W e) # ys" "tl (W e) = ys" using \<open>W e \<noteq> []\<close> by (cases "W e") auto
      let ?b = "hd (W e)"
      obtain s' where s': "KiUnwaitThread (wb_Thread (Blocks s ?b)) (ucast (WaitKey (Blocks s ?b))) s = Some (Inr ((), s'))"
        "dispatcher s' (without s {wb_Thread (Blocks s ?b)} W) (untimed {wb_Thread (Blocks s ?b)} T)"
        "without s {wb_Thread (Blocks s ?b)} W e = tl (W e)"
        "Threads s' = (Threads s)(wb_Thread (Blocks s ?b) := ready (ucast (WaitKey (Blocks s ?b))) (Threads s (wb_Thread (Blocks s ?b))))"
        "Objs s' = (Objs s)(ThreadTimer (wb_Thread (Blocks s ?b)) := (Objs s (ThreadTimer (wb_Thread (Blocks s ?b))))\<lparr>hdr_Inserted := False\<rparr>)"
        using KiUnwaitThread_dispatcher [OF assms(1) We(1)] We(2) by (metis append_Nil)
      have "signalled s W T s' [?b] e v" using s' by (simp add: signalled_def ready_def v_def)
      with run False s'(1,3) \<open>W e \<noteq> []\<close> show ?thesis by (auto simp: obnd_def release_waiter_def)
    qed
  qed
qed


section \<open>A concrete dispatcher\<close>

text \<open>Threads 5 and 6 wait, without a time limit, for object 7 of the given type.\<close>

definition ke_example :: "u8 \<Rightarrow> ke" where
  "ke_example ty = \<lparr>
     Flink = (\<lambda>n. n)(WaitHead (Object 7) := WaitEntry (StackBlock 5), WaitEntry (StackBlock 5) := WaitEntry (StackBlock 6),
       WaitEntry (StackBlock 6) := WaitHead (Object 7)),
     Blink = (\<lambda>n. n)(WaitHead (Object 7) := WaitEntry (StackBlock 6), WaitEntry (StackBlock 6) := WaitEntry (StackBlock 5),
       WaitEntry (StackBlock 5) := WaitHead (Object 7)),
     Dpcs = (\<lambda>d. \<lparr>dpc_Type = 0x13, dpc_Inserted = False, DeferredRoutine = 0x1000, DeferredContext = 0, SystemArgument1 = 0, SystemArgument2 = 0\<rparr>),
     IsDpcPending = False, IsDpcActive = False, HalInterruptRequestRegister = 0,
     Objs = (\<lambda>u. \<lparr>hdr_Type = (if u = Object 7 then ty else 0), Absolute = False, hdr_Inserted = False, SignalState = 0, DueTime = 0,
       tmr_Dpc = None, Period = 0, Limit = 5, OwnerThread = None, Abandoned = False\<rparr>),
     Blocks = (\<lambda>b. \<lparr>wb_Thread = (case b of StackBlock t \<Rightarrow> t | TimerBlock t \<Rightarrow> t | _ \<Rightarrow> 0), wb_Object = Object 7, NextWaitBlock = b, WaitKey = 0, WaitType = WaitAny\<rparr>),
     Threads = (\<lambda>t. \<lparr>State = (if t = 5 \<or> t = 6 then Waiting else Running), WaitStatus = 0, WaitBlockList = StackBlock t, Alertable = False,
       WaitMode = False, WaitTime = 0, WaitNext = False, Alerted = (False, False), UserApcs = False, UserApcPending = False\<rparr>),
     TableTime = (\<lambda>_. 0xFFFFFFFF00000000), KeInterruptTime = 0, KeSystemTime = 0, KeTickCount = 0, LostUs = 0\<rparr>"

definition ke_example_waits :: "obj \<Rightarrow> block list" where
  "ke_example_waits = (\<lambda>_. [])(Object 7 := [StackBlock 5, StackBlock 6])"

lemma ke_example_dispatcher: "dispatcher (ke_example ty) ke_example_waits (\<lambda>_. [])"
proof -
  have "wait_lists (ke_example ty) ke_example_waits"
    by (auto simp: wait_lists_def ring_def ke_example_def ke_example_waits_def)
  moreover have "timer_table (ke_example ty) (\<lambda>_. [])"
    by (simp add: timer_table_def timers_ok_def ring_def ke_example_def)
  moreover have "waiter (ke_example ty) ke_example_waits t [StackBlock t]" if "t = 5 \<or> t = 6" for t
    using that by (auto simp: waiter_def ke_example_def ke_example_waits_def)
  then have "\<exists>bs. waiter (ke_example ty) ke_example_waits (wb_Thread (Blocks (ke_example ty) b)) bs \<and> b \<in> set bs"
    if "b \<in> set (ke_example_waits o')" for b o'
    using that by (intro exI [of _ "[b]"]) (auto simp: ke_example_waits_def ke_example_def split: if_splits)
  moreover have "WaitType (Blocks (ke_example ty) b) = WaitAny" for b by (simp add: ke_example_def)
  ultimately show ?thesis by (simp add: dispatcher_def)
qed

lemma ke_example_simps:
  "hdr_Type (Objs (ke_example ty) (Object 7)) = ty" "SignalState (Objs (ke_example ty) (Object 7)) = 0"
  "Limit (Objs (ke_example ty) (Object 7)) = 5" "ke_example_waits (Object 7) = [StackBlock 5, StackBlock 6]"
  "wb_Thread (Blocks (ke_example ty) (StackBlock t)) = t" "State (Threads (ke_example ty) 6) = Waiting"
  by (simp_all add: ke_example_def ke_example_waits_def)



end
