(* ===== verification/Ke_WaitOps.thy ===== *)
theory Ke_WaitOps
  imports Ke_Signal
begin

text \<open>
  \<open>KeWaitForSingleObject\<close> and \<open>KeWaitForMultipleObjects\<close> (\<open>EmuKrnlKe.cpp\<close>) and \<open>AddWaitObject\<close>
  (\<open>EmuKrnl.cpp\<close>).

  The calls are modelled for a thread with no kernel APC pending, up to the poll of \<open>WaitApc\<close>: they
  return a status, or \<open>Blocked\<close> with the thread \<open>Waiting\<close>. \<open>KeWaitForSingleObject\<close> is two steps,
  because other threads can run between the state change and the insertion of the block.
\<close>

section \<open>Configuration and shared parts\<close>

record beta_config =
  wait_list_toctou_recheck :: bool
  notification_event_wait_recheck :: bool
  llong_min_timeout_fix :: bool
  timer_try_lock :: bool
  timer_exp_pointer_guard :: bool
  timer_exp_max_expired :: u32
  timer_exp_max_ticks :: u32

datatype wait_result = Done u32 | Blocked

text \<open>\<open>WaitMode\<close> is true for user mode; \<open>Alerted\<close> holds the kernel-mode and the user-mode flag.\<close>

definition TestForAlertPending :: "nat \<Rightarrow> bool \<Rightarrow> bool \<Rightarrow> (u32 option, 'a ke_scheme) run" where
  "TestForAlertPending t alertable mode = bnd (get (\<lambda>s. Threads s t)) (\<lambda>r.
     if alertable then
       if (if mode then snd (Alerted r) else fst (Alerted r)) then
         bnd (set_thread t (\<lambda>r. r\<lparr>Alerted := (if mode then (fst (Alerted r), False) else (False, snd (Alerted r)))\<rparr>)) (\<lambda>_. ret (Some X_STATUS_ALERTED))
       else if mode \<and> UserApcs r then
         bnd (set_thread t (\<lambda>r. r\<lparr>UserApcPending := True\<rparr>)) (\<lambda>_. ret (Some X_STATUS_USER_APC))
       else if fst (Alerted r) then
         bnd (set_thread t (\<lambda>r. r\<lparr>Alerted := (False, snd (Alerted r))\<rparr>)) (\<lambda>_. ret (Some X_STATUS_ALERTED))
       else ret None
     else if mode \<and> UserApcPending r then ret (Some X_STATUS_USER_APC) else ret None)"

definition no_wait :: "nat \<Rightarrow> u32 \<Rightarrow> (wait_result, 'a ke_scheme) run" where
  "no_wait t st = bnd (set_thread t (\<lambda>r. r\<lparr>State := Running\<rparr>)) (\<lambda>_. ret (Done st))"

text \<open>The thread's timer, with its block as the only waiter, joins the chain after \<open>b\<close>.\<close>

definition link_timer :: "nat \<Rightarrow> block \<Rightarrow> (unit, 'a ke_scheme) run" where
  "link_timer t b = bnd (set_block b (\<lambda>w. w\<lparr>NextWaitBlock := TimerBlock t\<rparr>)) (\<lambda>_.
     bnd (set_Flink (WaitHead (ThreadTimer t)) (WaitEntry (TimerBlock t))) (\<lambda>_.
     bnd (set_Blink (WaitHead (ThreadTimer t)) (WaitEntry (TimerBlock t))) (\<lambda>_.
     set_block (TimerBlock t) (\<lambda>w. w\<lparr>NextWaitBlock := b\<rparr>))))"

definition start_waiting :: "nat \<Rightarrow> bool \<Rightarrow> bool \<Rightarrow> (wait_result, 'a ke_scheme) run" where
  "start_waiting t alertable mode = bnd (get KeTickCount) (\<lambda>now.
     bnd (set_thread t (\<lambda>r. r\<lparr>Alertable := alertable, WaitMode := mode, WaitTime := now, State := Waiting\<rparr>)) (\<lambda>_. ret Blocked))"

definition init_timer_block :: "nat \<Rightarrow> (unit, 'a ke_scheme) run" where
  "init_timer_block t = bnd (KeInitializeTimerEx (ThreadTimer t) 0) (\<lambda>_.
     bnd (set_block (TimerBlock t) (\<lambda>w. w\<lparr>wb_Object := ThreadTimer t, WaitKey := ucast X_STATUS_TIMEOUT, WaitType := WaitAny,
        wb_Thread := t, NextWaitBlock := NoBlock\<rparr>)) (\<lambda>_.
     bnd (set_Flink (WaitEntry (TimerBlock t)) (WaitHead (ThreadTimer t))) (\<lambda>_.
     set_Blink (WaitEntry (TimerBlock t)) (WaitHead (ThreadTimer t)))))"

definition AddWaitObject :: "beta_config \<Rightarrow> nat \<Rightarrow> u64 option \<Rightarrow> (bool, 'a ke_scheme) orun" where
  "AddWaitObject cfg t timeout =
     obnd (lift (set_thread t (\<lambda>r. r\<lparr>WaitBlockList := TimerBlock t\<rparr>))) (\<lambda>_.
     obnd (lift (set_block (TimerBlock t) (\<lambda>w. w\<lparr>NextWaitBlock := TimerBlock t\<rparr>))) (\<lambda>_.
     obnd (lift (set_Flink (WaitHead (ThreadTimer t)) (WaitEntry (TimerBlock t)))) (\<lambda>_.
     obnd (lift (set_Blink (WaitHead (ThreadTimer t)) (WaitEntry (TimerBlock t)))) (\<lambda>_.
     let park = obnd (lift (set_thread t (\<lambda>r. r\<lparr>State := Waiting\<rparr>))) (\<lambda>_. oret True) in
     case timeout of None \<Rightarrow> park
     | Some v \<Rightarrow> if v = 0 \<or> llong_min_timeout_fix cfg \<and> v = 0x8000000000000000 then park
         else obnd (KiInsertTreeTimer (ThreadTimer t) v) (\<lambda>ok.
           if ok then park
           else obnd (lift (set_thread t (\<lambda>r. r\<lparr>WaitBlockList := NoBlock\<rparr>))) (\<lambda>_. oret False))))))"

section \<open>Waiting for one object\<close>

definition set_time_limit :: "nat \<Rightarrow> block \<Rightarrow> u64 option \<Rightarrow> (bool, 'a ke_scheme) orun" where
  "set_time_limit t b timeout = (case timeout of
     None \<Rightarrow> obnd (lift (set_block b (\<lambda>w. w\<lparr>NextWaitBlock := b\<rparr>))) (\<lambda>_. oret True)
   | Some v \<Rightarrow> if v = 0 then oret False
       else obnd (lift (link_timer t b)) (\<lambda>_. KiInsertTreeTimer (ThreadTimer t) v))"

definition wait_prepare :: "nat \<Rightarrow> obj \<Rightarrow> bool \<Rightarrow> bool \<Rightarrow> u64 option \<Rightarrow> (wait_result, 'a ke_scheme) orun" where
  "wait_prepare t o' alertable mode timeout =
     obnd (lift (set_thread t (\<lambda>r. r\<lparr>WaitNext := False, WaitStatus := 0\<rparr>))) (\<lambda>_.
     obnd (lift (get_obj o')) (\<lambda>k.
     if hdr_Type k = MutantObject \<and> (0 <s SignalState k \<or> OwnerThread k = Some t) then
       if SignalState k \<noteq> MINLONG then
         obnd (lift (KiWaitSatisfyMutant o' t)) (\<lambda>_.
         obnd (lift (get (\<lambda>s. WaitStatus (Threads s t)))) (\<lambda>st. lift (no_wait t st)))
       else ofail (Raised X_STATUS_MUTANT_LIMIT_EXCEEDED)
     else if hdr_Type k \<noteq> MutantObject \<and> 0 <s SignalState k then
       obnd (lift (KiWaitSatisfyOther o')) (\<lambda>_. lift (no_wait t 0))
     else
       obnd (lift (set_thread t (\<lambda>r. r\<lparr>WaitBlockList := StackBlock t\<rparr>))) (\<lambda>_.
       obnd (lift (set_block (StackBlock t) (\<lambda>w. w\<lparr>wb_Object := o', WaitKey := 0, WaitType := WaitAny, wb_Thread := t\<rparr>))) (\<lambda>_.
       obnd (lift (TestForAlertPending t alertable mode)) (\<lambda>alert.
       case alert of Some st \<Rightarrow> lift (no_wait t st)
       | None \<Rightarrow> obnd (set_time_limit t (StackBlock t) timeout) (\<lambda>armed.
           if armed then lift (start_waiting t alertable mode) else lift (no_wait t X_STATUS_TIMEOUT)))))))"

definition wait_enqueue :: "beta_config \<Rightarrow> nat \<Rightarrow> obj \<Rightarrow> (wait_result, 'a ke_scheme) orun" where
  "wait_enqueue cfg t o' = obnd (lift (get_obj o')) (\<lambda>k.
     obnd (lift (InsertTailList (WaitHead o') (WaitEntry (StackBlock t)))) (\<lambda>_.
     if wait_list_toctou_recheck cfg \<or> notification_event_wait_recheck cfg \<and> hdr_Type k = EventNotificationObject then
       if hdr_Type k = MutantObject then
         if 0 <s SignalState k \<or> OwnerThread k = Some t then
           obnd (lift (KiWaitSatisfyMutant o' t)) (\<lambda>_.
           obnd (lift (get (\<lambda>s. WaitStatus (Threads s t)))) (\<lambda>st.
           obnd (KiUnwaitThread t st) (\<lambda>_.
           obnd (lift (get (\<lambda>s. WaitStatus (Threads s t)))) (\<lambda>st. lift (no_wait t st)))))
         else oret Blocked
       else if 0 <s SignalState k then
         obnd (lift (KiWaitSatisfyOther o')) (\<lambda>_. obnd (KiUnwaitThread t 0) (\<lambda>_. lift (no_wait t 0)))
       else oret Blocked
     else oret Blocked))"

definition KeWaitForSingleObject ::
  "beta_config \<Rightarrow> nat \<Rightarrow> obj \<Rightarrow> bool \<Rightarrow> bool \<Rightarrow> u64 option \<Rightarrow> (wait_result, 'a ke_scheme) orun" where
  "KeWaitForSingleObject cfg t o' alertable mode timeout = obnd (wait_prepare t o' alertable mode timeout) (\<lambda>r.
     case r of Done st \<Rightarrow> oret (Done st) | Blocked \<Rightarrow> wait_enqueue cfg t o')"

definition wait_poll :: "nat \<Rightarrow> (wait_result, 'a ke_scheme) run" where
  "wait_poll t = bnd (get (\<lambda>s. Threads s t)) (\<lambda>r. if State r = Ready then no_wait t (WaitStatus r) else ret Blocked)"

section \<open>Waiting for several objects\<close>

datatype scan = Satisfied_by u32 | Not_yet bool

text \<open>The scan of the objects from \<open>Index\<close> on; \<open>Not_yet\<close> carries whether all of them were signalled.\<close>

fun scan_objects :: "nat \<Rightarrow> wait_type \<Rightarrow> nat \<Rightarrow> obj list \<Rightarrow> bool \<Rightarrow> (scan, 'a ke_scheme) run" where
  "scan_objects t ty i [] ok = ret (Not_yet ok)"
| "scan_objects t ty i (o' # os) ok = bnd (get_obj o') (\<lambda>k.
     let rest = (\<lambda>ok. bnd (set_block (ArrayBlock t i) (\<lambda>w. w\<lparr>wb_Object := o', WaitKey := of_nat i, WaitType := ty, wb_Thread := t,
           NextWaitBlock := ArrayBlock t (Suc i)\<rparr>)) (\<lambda>_. scan_objects t ty (Suc i) os ok)) in
     if ty = WaitAny then
       if hdr_Type k = MutantObject then
         if 0 <s SignalState k \<or> OwnerThread k = Some t then
           if SignalState k \<noteq> MINLONG then
             bnd (KiWaitSatisfyMutant o' t) (\<lambda>_.
             bnd (get (\<lambda>s. WaitStatus (Threads s t))) (\<lambda>st. ret (Satisfied_by (of_nat i OR st))))
           else fail (Raised X_STATUS_MUTANT_LIMIT_EXCEEDED)
         else rest ok
       else if SignalState k \<noteq> 0 then bnd (KiWaitSatisfyOther o') (\<lambda>_. ret (Satisfied_by (of_nat i)))
       else rest ok
     else if hdr_Type k = MutantObject then
       if OwnerThread k = Some t \<and> SignalState k = MINLONG then fail (Raised X_STATUS_MUTANT_LIMIT_EXCEEDED)
       else rest (ok \<and> \<not> (SignalState k \<le>s 0 \<and> OwnerThread k \<noteq> Some t))
     else rest (ok \<and> \<not> SignalState k \<le>s 0))"

partial_function (option) insert_chain ::
  "block \<Rightarrow> block \<Rightarrow> 'a ke_scheme \<Rightarrow> (fault + unit \<times> 'a ke_scheme) option" where
  "insert_chain first b s = obnd (lift (get_block b)) (\<lambda>w.
     obnd (lift (InsertTailList (WaitHead (wb_Object w)) (block_node b))) (\<lambda>_.
     if NextWaitBlock w = first then oret () else (\<lambda>u. insert_chain first (NextWaitBlock w) u))) s"

fun recheck_any :: "nat \<Rightarrow> nat \<Rightarrow> obj list \<Rightarrow> (u32 option, 'a ke_scheme) orun" where
  "recheck_any t i [] = oret None"
| "recheck_any t i (o' # os) = obnd (lift (get_obj o')) (\<lambda>k.
     if hdr_Type k = MutantObject then
       if 0 <s SignalState k \<or> OwnerThread k = Some t then
         obnd (lift (KiWaitSatisfyMutant o' t)) (\<lambda>_.
         obnd (lift (get (\<lambda>s. WaitStatus (Threads s t)))) (\<lambda>st.
         obnd (KiUnwaitThread t (of_nat i OR st)) (\<lambda>_.
         obnd (lift (get (\<lambda>s. WaitStatus (Threads s t)))) (\<lambda>st'. oret (Some st')))))
       else recheck_any t (Suc i) os
     else if 0 <s SignalState k then
       obnd (lift (KiWaitSatisfyOther o')) (\<lambda>_. obnd (KiUnwaitThread t (of_nat i)) (\<lambda>_. oret (Some (of_nat i))))
     else recheck_any t (Suc i) os)"

definition all_signalled :: "nat \<Rightarrow> obj list \<Rightarrow> 'a ke_scheme \<Rightarrow> bool" where
  "all_signalled t os s = list_all (\<lambda>o'. let k = Objs s o' in
     if hdr_Type k = MutantObject then \<not> (SignalState k \<le>s 0 \<and> OwnerThread k \<noteq> Some t) else \<not> SignalState k \<le>s 0) os"

definition recheck_all :: "nat \<Rightarrow> obj list \<Rightarrow> (u32 option, 'a ke_scheme) orun" where
  "recheck_all t os = obnd (lift (get (all_signalled t os))) (\<lambda>all.
     if all then
       obnd (KiWaitSatisfyAll (ArrayBlock t 0)) (\<lambda>_.
       obnd (lift (get (\<lambda>s. WaitStatus (Threads s t)))) (\<lambda>st.
       obnd (KiUnwaitThread t st) (\<lambda>_.
       obnd (lift (get (\<lambda>s. WaitStatus (Threads s t)))) (\<lambda>st'. oret (Some st')))))
     else oret None)"

text \<open>The last block's link is set once more after the time limit, back to the first block.\<close>

definition wait_many_enqueue :: "beta_config \<Rightarrow> nat \<Rightarrow> obj list \<Rightarrow> wait_type \<Rightarrow> (u32 option, 'a ke_scheme) orun" where
  "wait_many_enqueue cfg t os ty =
     obnd (lift (set_block (ArrayBlock t (length os - 1)) (\<lambda>w. w\<lparr>NextWaitBlock := ArrayBlock t 0\<rparr>))) (\<lambda>_.
     obnd (insert_chain (ArrayBlock t 0) (ArrayBlock t 0)) (\<lambda>_.
     if wait_list_toctou_recheck cfg then (if ty = WaitAny then recheck_any t 0 os else recheck_all t os) else oret None))"

definition KeWaitForMultipleObjects ::
  "beta_config \<Rightarrow> nat \<Rightarrow> obj list \<Rightarrow> wait_type \<Rightarrow> bool \<Rightarrow> bool \<Rightarrow> u64 option \<Rightarrow> (wait_result, 'a ke_scheme) orun" where
  "KeWaitForMultipleObjects cfg t os ty alertable mode timeout =
     obnd (lift (set_thread t (\<lambda>r. r\<lparr>WaitNext := False, WaitBlockList := ArrayBlock t 0, WaitStatus := 0\<rparr>))) (\<lambda>_.
     obnd (lift (scan_objects t ty 0 os True)) (\<lambda>sc.
     case sc of Satisfied_by st \<Rightarrow> lift (no_wait t st)
     | Not_yet ok \<Rightarrow>
       let last = (if os = [] then NoBlock else ArrayBlock t (length os - 1)) in
       if ty = WaitAll \<and> ok then
         obnd (lift (set_block last (\<lambda>w. w\<lparr>NextWaitBlock := ArrayBlock t 0\<rparr>))) (\<lambda>_.
         obnd (KiWaitSatisfyAll last) (\<lambda>_.
         obnd (lift (get (\<lambda>s. WaitStatus (Threads s t)))) (\<lambda>st. lift (no_wait t st))))
       else obnd (lift (TestForAlertPending t alertable mode)) (\<lambda>alert.
         case alert of Some st \<Rightarrow> lift (no_wait t st)
         | None \<Rightarrow> obnd (set_time_limit t last timeout) (\<lambda>armed.
             if armed then
               obnd (wait_many_enqueue cfg t os ty) (\<lambda>found.
               case found of Some st \<Rightarrow> lift (no_wait t st) | None \<Rightarrow> lift (start_waiting t alertable mode))
             else lift (no_wait t X_STATUS_TIMEOUT)))))"

section \<open>A wait and the signal that races with it\<close>

text \<open>The thread \<open>t\<close> is waiting with its stack block, which is not linked yet.\<close>

definition prepared :: "'a ke_scheme \<Rightarrow> (obj \<Rightarrow> block list) \<Rightarrow> nat \<Rightarrow> obj \<Rightarrow> bool" where
  "prepared s W t e \<longleftrightarrow> State (Threads s t) = Waiting \<and> WaitStatus (Threads s t) = 0 \<and> WaitBlockList (Threads s t) = StackBlock t
     \<and> wb_Thread (Blocks s (StackBlock t)) = t \<and> wb_Object (Blocks s (StackBlock t)) = e
     \<and> NextWaitBlock (Blocks s (StackBlock t)) = StackBlock t \<and> WaitKey (Blocks s (StackBlock t)) = 0
     \<and> WaitType (Blocks s (StackBlock t)) = WaitAny
     \<and> (\<forall>o'. StackBlock t \<notin> set (W o') \<and> (\<forall>b\<in>set (W o'). wb_Thread (Blocks s b) \<noteq> t))"

lemma dispatcher_own_thread:
  assumes d: "dispatcher s W T" and "Flink s' = Flink s" and "Blink s' = Blink s" and "Objs s' = Objs s" and "TableTime s' = TableTime s"
    and own: "\<And>o'. StackBlock t \<notin> set (W o')" "\<And>o' b. b \<in> set (W o') \<Longrightarrow> wb_Thread (Blocks s b) \<noteq> t"
    and B: "\<And>b. b \<noteq> StackBlock t \<Longrightarrow> Blocks s' b = Blocks s b" and Th: "\<And>u. u \<noteq> t \<Longrightarrow> Threads s' u = Threads s u"
  shows "dispatcher s' W T"
proof -
  have b: "Blocks s' b = Blocks s b" if "b \<in> set (W o')" for b o' using B own(1) that by metis
  have "ring s' (WaitHead o') (map WaitEntry (W o'))" for o'
    using wait_listsD(1) [OF dispatcherD(1) [OF d]] assms(2,3) by (simp add: ring_def)
  then have "wait_lists s' W" using dispatcherD(1) [OF d] b by (auto simp: wait_lists_def)
  moreover have "timer_table s' T" using dispatcherD(2) [OF d] by (rule timer_table_cong) (use assms in auto)
  moreover have "WaitType (Blocks s' b) = WaitAny \<and> (\<exists>bs. waiter s' W (wb_Thread (Blocks s' b)) bs \<and> b \<in> set bs)" if bW: "b \<in> set (W o')" for b o'
  proof -
    obtain bs where bs: "waiter s W (wb_Thread (Blocks s b)) bs" "b \<in> set bs" using dispatcherD(4) [OF d bW] by blast
    have "c \<in> set (W (wb_Object (Blocks s c)))" if "c \<in> set bs" for c using bs(1) that by (simp add: waiter_def)
    then have e: "Blocks s' c = Blocks s c" if "c \<in> set bs" for c using that b by blast
    have nx: "nexts (\<lambda>b. NextWaitBlock (Blocks s' b)) bs z = nexts (\<lambda>b. NextWaitBlock (Blocks s b)) bs z" for z
      using e by (induction "\<lambda>b. NextWaitBlock (Blocks s b)" bs z rule: nexts.induct) auto
    have inj: "inj_on (\<lambda>b. wb_Object (Blocks s' b)) (set bs)" using bs(1) e by (simp add: waiter_def inj_on_def)
    have "Threads s' (wb_Thread (Blocks s b)) = Threads s (wb_Thread (Blocks s b))" using Th own(2) [OF bW] by blast
    then have "waiter s' W (wb_Thread (Blocks s b)) bs" using bs(1) nx inj e by (auto simp: waiter_def)
    with bs(2) b [OF bW] dispatcherD(3) [OF d bW] show ?thesis by auto
  qed
  ultimately show ?thesis by (simp add: dispatcher_def)
qed

lemma enqueue_dispatcher:
  assumes d: "dispatcher s W T" and p: "prepared s W t e"
  shows "\<exists>s'. InsertTailList (WaitHead e) (WaitEntry (StackBlock t)) s = Inr ((), s') \<and> only_links s s'
    \<and> dispatcher s' (W(e := W e @ [StackBlock t])) T"
proof -
  let ?b = "StackBlock t" and ?W = "W(e := W e @ [StackBlock t])"
  note r = wait_listsD(1) [OF dispatcherD(1) [OF d]]
  have new: "WaitEntry ?b \<notin> set (WaitHead o' # map WaitEntry (W o'))" for o' using p by (auto simp: prepared_def)
  define q where "q = last (WaitHead e # map WaitEntry (W e))"
  define s' where "s' = link_between q (WaitEntry ?b) (WaitHead e) s"
  have i: "InsertTailList (WaitHead e) (WaitEntry ?b) s = Inr ((), s')"
    using InsertTail_ring [OF r new] unfolding s'_def q_def by simp
  have re: "ring s' (WaitHead e) (map WaitEntry (W e @ [?b]))"
    using ring_link [of s "WaitHead e" "map WaitEntry (W e)" "[]" "WaitEntry ?b"] r new unfolding s'_def q_def by simp
  have q: "q \<in> set (WaitHead e # map WaitEntry (W e))" unfolding q_def last_wait by simp
  have ro: "ring s' (WaitHead o') (map WaitEntry (W o'))" if "o' \<noteq> e" for o'
  proof -
    have "c \<notin> set (W o')" if "c \<in> set (W e)" for c using wait_listsD(2) [OF dispatcherD(1) [OF d]] that \<open>o' \<noteq> e\<close> by metis
    then have "q \<notin> set (WaitHead o' # map WaitEntry (W o'))" "WaitHead e \<notin> set (WaitHead o' # map WaitEntry (W o'))"
      using q that by auto
    then show ?thesis unfolding s'_def using r new by (intro link_other)
  qed
  have ol: "only_links s s'" by (simp add: s'_def)
  note only = only_linksD [OF ol]
  have "ring s' (WaitHead o') (map WaitEntry (?W o'))" for o' using re ro by (cases "o' = e") simp_all
  moreover have "b \<noteq> NoBlock \<and> wb_Object (Blocks s' b) = o'" if "b \<in> set (?W o')" for b o'
  proof (cases "b = ?b")
    case True
    with that p show ?thesis by (cases "o' = e") (auto simp: only prepared_def)
  next
    case False
    then have "b \<in> set (W o')" using that by (cases "o' = e") auto
    then show ?thesis using wait_listsD(2,3) [OF dispatcherD(1) [OF d]] by (simp add: only)
  qed
  ultimately have "wait_lists s' ?W" by (simp add: wait_lists_def)
  moreover have "\<not> timer_node q" unfolding q_def last_wait by simp
  then have tn: "Flink s' n = Flink s n \<and> Blink s' n = Blink s n" if "timer_node n" for n
    using that by (cases n) (auto simp: s'_def link_between_def)
  have "timer_table s' T" using dispatcherD(2) [OF d] tn by (rule timer_table_cong) (simp_all add: only)
  moreover have "WaitType (Blocks s' b) = WaitAny \<and> (\<exists>bs. waiter s' ?W (wb_Thread (Blocks s' b)) bs \<and> b \<in> set bs)"
    if bW: "b \<in> set (?W o')" for b o'
  proof (cases "b = ?b")
    case True
    have "waiter s' ?W t [?b]" using p by (simp add: waiter_def prepared_def only)
    with True p show ?thesis by (auto simp: only prepared_def)
  next
    case False
    then have b: "b \<in> set (W o')" using bW by (auto split: if_splits)
    obtain bs where bs: "waiter s W (wb_Thread (Blocks s b)) bs" "b \<in> set bs" using dispatcherD(4) [OF d b] by blast
    have "waiter s' ?W (wb_Thread (Blocks s b)) bs"
      using bs(1) by (rule waiter_cong) (use bs(1) in \<open>auto simp: only waiter_def\<close>)
    with bs(2) dispatcherD(3) [OF d b] show ?thesis by (auto simp: only)
  qed
  ultimately have "dispatcher s' ?W T" by (simp add: dispatcher_def)
  with i ol show ?thesis by blast
qed

lemma wait_prepare_event:
  assumes d: "dispatcher s W T" and "State (Threads s t) \<noteq> Waiting" and "\<And>o'. StackBlock t \<notin> set (W o')"
    and ty: "hdr_Type (Objs s e) \<in> {EventNotificationObject, EventSynchronizationObject}" and v: "\<not> 0 <s SignalState (Objs s e)"
  shows "\<exists>s'. wait_prepare t e False False None s = Some (Inr (Blocked, s')) \<and> dispatcher s' W T \<and> prepared s' W t e \<and> Objs s' = Objs s"
proof -
  have own: "wb_Thread (Blocks s b) \<noteq> t" if "b \<in> set (W o')" for b o'
    using dispatcherD(4) [OF d that] assms(2) by (auto simp: waiter_def)
  define s' where "s' = s\<lparr>Blocks := (Blocks s)(StackBlock t := (Blocks s (StackBlock t))\<lparr>wb_Object := e, WaitKey := 0, WaitType := WaitAny,
      wb_Thread := t, NextWaitBlock := StackBlock t\<rparr>),
    Threads := (Threads s)(t := (Threads s t)\<lparr>WaitNext := False, WaitStatus := 0, WaitBlockList := StackBlock t, Alertable := False,
      WaitMode := False, WaitTime := KeTickCount s, State := Waiting\<rparr>)\<rparr>"
  have "wait_prepare t e False False None s = Some (Inr (Blocked, s'))"
    using ty v by (auto simp: wait_prepare_def set_thread_def get_obj_def object_types set_block_def TestForAlertPending_def
        set_time_limit_def start_waiting_def lift_def obnd_def run_simps s'_def)
  moreover have "dispatcher s' W T"
    by (rule dispatcher_own_thread [OF d, where t = t]) (use assms(3) own in \<open>simp_all add: s'_def\<close>)
  moreover have "prepared s' W t e" using assms(3) own by (auto simp: prepared_def s'_def)
  ultimately show ?thesis by (auto simp: s'_def)
qed

abbreviation rechecks :: "beta_config \<Rightarrow> u8 \<Rightarrow> bool" where
  "rechecks cfg ty \<equiv> wait_list_toctou_recheck cfg \<or> notification_event_wait_recheck cfg \<and> ty = EventNotificationObject"

lemma wait_enqueue_blocks:
  assumes d: "dispatcher s W T" and p: "prepared s W t e" and ty: "hdr_Type (Objs s e) \<noteq> MutantObject"
    and "\<not> rechecks cfg (hdr_Type (Objs s e)) \<or> \<not> 0 <s SignalState (Objs s e)"
  shows "\<exists>s'. wait_enqueue cfg t e s = Some (Inr (Blocked, s')) \<and> only_links s s' \<and> dispatcher s' (W(e := W e @ [StackBlock t])) T"
proof -
  obtain s' where s': "InsertTailList (WaitHead e) (WaitEntry (StackBlock t)) s = Inr ((), s')" "only_links s s'"
    "dispatcher s' (W(e := W e @ [StackBlock t])) T" using enqueue_dispatcher [OF d p] by blast
  then show ?thesis using assms(3,4) by (auto simp: wait_enqueue_def get_obj_def obnd_def lift_def)
qed

lemma wait_enqueue_satisfied:
  assumes d: "dispatcher s W T" and p: "prepared s W t e" and ty: "hdr_Type (Objs s e) \<noteq> MutantObject"
    and "rechecks cfg (hdr_Type (Objs s e))" and v: "0 <s SignalState (Objs s e)"
  shows "\<exists>s'. wait_enqueue cfg t e s = Some (Inr (Done 0, s')) \<and> State (Threads s' t) = Running \<and> dispatcher s' W (untimed {t} T)"
proof -
  let ?W = "W(e := W e @ [StackBlock t])"
  obtain s1 where s1: "InsertTailList (WaitHead e) (WaitEntry (StackBlock t)) s = Inr ((), s1)" "only_links s s1"
    "dispatcher s1 ?W T" using enqueue_dispatcher [OF d p] by blast
  note only = only_linksD [OF s1(2)]
  define s2 where "s2 = s1\<lparr>Objs := (Objs s)(e := (Objs s e)\<lparr>SignalState := satisfied (hdr_Type (Objs s e)) (SignalState (Objs s e))\<rparr>)\<rparr>"
  have sat: "KiWaitSatisfyOther e s1 = Inr ((), s2)"
    by (auto simp: KiWaitSatisfyOther_def run_simps get_obj_def set_obj_def satisfied_def fun_upd_idem only s2_def)
  have d2: "dispatcher s2 ?W T" using s1(3) by (rule dispatcher_cong) (simp_all add: s2_def only)
  have b: "?W e = W e @ StackBlock t # []" by simp
  have thr: "wb_Thread (Blocks s2 (StackBlock t)) = t" using p by (simp add: s2_def only prepared_def)
  obtain s3 where s3: "KiUnwaitThread t 0 s2 = Some (Inr ((), s3))" "dispatcher s3 (without s2 {t} ?W) (untimed {t} T)"
    using KiUnwaitThread_dispatcher [OF d2 b, of 0] unfolding thr by blast
  have "without s2 {t} ?W = W"
  proof
    fix o'
    have "filter (\<lambda>c. wb_Thread (Blocks s2 c) \<notin> {t}) (W q) = W q" for q
      using p by (intro filter_True) (auto simp: prepared_def s2_def only)
    then show "without s2 {t} ?W o' = W o'" using thr by (simp add: without_def)
  qed
  with s3(2) have d3: "dispatcher s3 W (untimed {t} T)" by simp
  define s4 where "s4 = s3\<lparr>Threads := (Threads s3)(t := (Threads s3 t)\<lparr>State := Running\<rparr>)\<rparr>"
  have "dispatcher s4 W (untimed {t} T)"
  proof (rule dispatcher_own_thread [OF d3, where t = t])
    have "Blocks s3 = Blocks s" using s3(1) KiUnwaitThread_dispatcher [OF d2 b, of 0]
      unfolding thr by (auto dest!: same_kernelD(1) simp: s2_def only)
    then show "wb_Thread (Blocks s3 b) \<noteq> t" if "b \<in> set (W o')" for o' b using that p by (auto simp: prepared_def)
  qed (use p in \<open>simp_all add: prepared_def s4_def\<close>)
  moreover have "wait_enqueue cfg t e s = Some (Inr (Done 0, s4))"
    using s1(1) sat s3(1) assms(3,4,5) by (auto simp: wait_enqueue_def get_obj_def obnd_def lift_def no_wait_def set_thread_def s4_def run_simps)
  ultimately show ?thesis by (auto simp: s4_def)
qed



end
