(* ===== verification/Ke_Expire.thy ===== *)
theory Ke_Expire
  imports Ke_WaitOps
begin

text \<open>
  Setting timers and their expiration (\<open>EmuKrnlKi.cpp\<close>, \<open>EmuKrnlKe.cpp\<close>): the clock interrupt that
  looks for a due bucket, the DPC that expires the timers, and the change of the system time.

  DPC routines are the parameter \<open>call\<close>, which gets an entry (the DPC with the routine and the context it had when its timer expired) and the system time. The DPC that the clock
  interrupt queues is \<open>expire_dpc\<close>, the parameter for \<open>KiTimerExpireDpc\<close>.
\<close>

section \<open>Signalling a timer\<close>

definition wake_waiters :: "obj \<Rightarrow> (unit, 'a ke_scheme) orun" where
  "wake_waiters t = obnd (lift (IsListEmpty (WaitHead t))) (\<lambda>e. if e then oret () else KiWaitTest t)"

text \<open>A periodic timer is armed again until that succeeds. The period is read as unsigned.\<close>

partial_function (option) rearm_loop ::
  "obj \<Rightarrow> u64 \<Rightarrow> 'a ke_scheme \<Rightarrow> (fault + unit \<times> 'a ke_scheme) option" where
  "rearm_loop t due s = obnd (KiInsertTreeTimer t due) (\<lambda>ok. if ok then oret () else (\<lambda>u. rearm_loop t due u)) s"

definition rearm :: "obj \<Rightarrow> u32 \<Rightarrow> (unit, 'a ke_scheme) orun" where
  "rearm t p = (if p \<noteq> 0 then rearm_loop t (ucast p * - 10000) else oret ())"

definition KiSignalTimer :: "obj \<Rightarrow> (bool, 'a ke_scheme) orun" where
  "KiSignalTimer t = obnd (lift (get_obj t)) (\<lambda>k.
     obnd (lift (set_obj t (\<lambda>k. k\<lparr>hdr_Inserted := False, SignalState := 1\<rparr>))) (\<lambda>_.
     obnd (wake_waiters t) (\<lambda>_.
     obnd (rearm t (Period k)) (\<lambda>_.
     case tmr_Dpc k of None \<Rightarrow> oret False
     | Some d \<Rightarrow> obnd (lift KeQuerySystemTime) (\<lambda>now.
         obnd (lift (KeInsertQueueDpc d (ucast now) (ucast (drop_bit 32 now)))) (\<lambda>_. oret True))))))"

text \<open>The timer leaves its bucket and is the only entry of a list on the stack while it is signalled.\<close>

definition KiCompleteTimer :: "obj \<Rightarrow> nat \<Rightarrow> (unit, 'a ke_scheme) orun" where
  "KiCompleteTimer t h = obnd (lift (KiRemoveEntryTimer t h)) (\<lambda>_.
     obnd (lift (bnd (set_Flink (TempHead 0) (TimerEntry t)) (\<lambda>_. bnd (set_Blink (TempHead 0) (TimerEntry t)) (\<lambda>_.
       bnd (set_Flink (TimerEntry t) (TempHead 0)) (\<lambda>_. set_Blink (TimerEntry t) (TempHead 0)))))) (\<lambda>_.
     obnd (lift (IsListEmpty (TempHead 0))) (\<lambda>e.
     obnd (if e then oret False else KiSignalTimer t) (\<lambda>req.
     lift (if req then request_interrupt 2 else ret ())))))"

definition KxInsertTimer :: "obj \<Rightarrow> nat \<Rightarrow> (unit, 'a ke_scheme) orun" where
  "KxInsertTimer t h = obnd (KiInsertTimerTable t h) (\<lambda>expired. if expired then KiCompleteTimer t h else oret ())"

definition KeSetTimerEx :: "obj \<Rightarrow> u64 \<Rightarrow> u32 \<Rightarrow> nat option \<Rightarrow> (bool, 'a ke_scheme) orun" where
  "KeSetTimerEx t due p dpc = obnd (lift (get_obj t)) (\<lambda>k.
     obnd (lift (check (hdr_Type k = TimerNotificationObject \<or> hdr_Type k = TimerSynchronizationObject))) (\<lambda>_.
     obnd (lift (if hdr_Inserted k then KxRemoveTreeTimer t else ret ())) (\<lambda>_.
     obnd (lift (set_obj t (\<lambda>k. k\<lparr>tmr_Dpc := dpc, Period := p\<rparr>))) (\<lambda>_.
     obnd (lift (KiComputeDueTime t due)) (\<lambda>(ok, h).
     obnd (if ok then obnd (lift (set_obj t (\<lambda>k. k\<lparr>SignalState := 0\<rparr>))) (\<lambda>_. KxInsertTimer t h)
       else obnd (KiSignalTimer t) (\<lambda>req. lift (if req then request_interrupt 2 else ret ()))) (\<lambda>_.
     oret (hdr_Inserted k)))))))"

definition KeSetTimer :: "obj \<Rightarrow> u64 \<Rightarrow> nat option \<Rightarrow> (bool, 'a ke_scheme) orun" where
  "KeSetTimer t due dpc = KeSetTimerEx t due 0 dpc"

section \<open>Expiration\<close>

definition hand_of :: "u32 \<Rightarrow> nat" where
  "hand_of i = unat (i AND 31)"

type_synonym dpc_entry = "nat \<times> u32 \<times> u32"

record expiry =
  Timers :: u32
  ActiveTimers :: u32
  totalExpired :: u32
  DpcEntries :: "dpc_entry list"

definition expiry_reset :: "expiry \<Rightarrow> expiry" where
  "expiry_reset x = x\<lparr>Timers := 24, ActiveTimers := 4, DpcEntries := []\<rparr>"

fun call_dpcs :: "(dpc_entry \<Rightarrow> u64 \<Rightarrow> (unit, 'a ke_scheme) orun) \<Rightarrow> u64 \<Rightarrow> dpc_entry list \<Rightarrow> (unit, 'a ke_scheme) orun" where
  "call_dpcs call now [] = oret ()"
| "call_dpcs call now (d # ds) = obnd (call d now) (\<lambda>_. call_dpcs call now ds)"

definition dpc_entry :: "nat \<Rightarrow> (dpc_entry, 'a ke_scheme) run" where
  "dpc_entry d = get (\<lambda>s. (d, DeferredRoutine (Dpcs s d), DeferredContext (Dpcs s d)))"

definition MAX_TIMER_DPCS :: nat where "MAX_TIMER_DPCS = 16"

text \<open>A due timer: taken out, signalled, armed again when periodic, its DPC noted.\<close>

definition expire_timer :: "nat \<Rightarrow> obj \<Rightarrow> expiry \<Rightarrow> (expiry, 'a ke_scheme) orun" where
  "expire_timer h t x = obnd (lift (KiRemoveEntryTimer t h)) (\<lambda>_.
     obnd (lift (set_obj t (\<lambda>k. k\<lparr>hdr_Inserted := False, SignalState := 1\<rparr>))) (\<lambda>_.
     obnd (lift (get_obj t)) (\<lambda>k.
     obnd (wake_waiters t) (\<lambda>_.
     obnd (rearm t (Period k)) (\<lambda>_.
     let y = x\<lparr>ActiveTimers := ActiveTimers x - 1, totalExpired := totalExpired x + 1\<rparr> in
     case tmr_Dpc k of None \<Rightarrow> oret y
     | Some d \<Rightarrow> obnd (lift (check (length (DpcEntries x) + 1 < MAX_TIMER_DPCS))) (\<lambda>_.
         obnd (lift (dpc_entry d)) (\<lambda>e. oret (y\<lparr>DpcEntries := DpcEntries x @ [e]\<rparr>))))))))"

definition flush_dpcs :: "(dpc_entry \<Rightarrow> u64 \<Rightarrow> (unit, 'a ke_scheme) orun) \<Rightarrow> u64 \<Rightarrow> expiry \<Rightarrow> (expiry, 'a ke_scheme) orun" where
  "flush_dpcs call sys x = obnd (call_dpcs call sys (DpcEntries x)) (\<lambda>_. oret (expiry_reset x))"

definition counted :: "expiry \<Rightarrow> expiry" where
  "counted x = x\<lparr>Timers := Timers x - 1\<rparr>"

partial_function (option) expire_bucket ::
  "beta_config \<Rightarrow> (dpc_entry \<Rightarrow> u64 \<Rightarrow> (unit, 'a ke_scheme) orun) \<Rightarrow> u64 \<Rightarrow> u64 \<Rightarrow> nat \<Rightarrow> expiry \<Rightarrow> 'a ke_scheme
     \<Rightarrow> (fault + expiry \<times> 'a ke_scheme) option" where
  "expire_bucket cfg call sys now h x s = obnd (lift (get_Flink (TimerHead h))) (\<lambda>n.
     if n = TimerHead h then oret x else
     obnd (lift (if timer_exp_pointer_guard cfg \<and> n \<noteq> Null then get_Blink n else ret n)) (\<lambda>b.
     if timer_exp_pointer_guard cfg \<and> (n = Null \<or> b = Null) then oret x
     else if timer_exp_max_expired cfg \<noteq> 0 \<and> timer_exp_max_expired cfg \<le> totalExpired x then oret x
     else obnd (lift (timer_of n)) (\<lambda>t. obnd (lift (get_obj t)) (\<lambda>k.
       if DueTime k \<le> now then
         obnd (expire_timer h t (counted x)) (\<lambda>z.
         if ActiveTimers z = 0 \<or> Timers z = 0 then obnd (flush_dpcs call sys z) (\<lambda>z' u. expire_bucket cfg call sys now h z' u)
         else (\<lambda>u. expire_bucket cfg call sys now h z u))
       else
         obnd (lift (get (\<lambda>u. TableTime u h))) (\<lambda>v.
         obnd (lift (check (v \<le> DueTime k))) (\<lambda>_.
         obnd (lift (set_TableTime h (DueTime k))) (\<lambda>_.
         if Timers (counted x) = 0 then flush_dpcs call sys (counted x) else oret (counted x)))))))) s"

text \<open>The loop over the ticks. It is a \<open>for\<close> on unsigned counters.\<close>

partial_function (option) expire_ticks ::
  "beta_config \<Rightarrow> (dpc_entry \<Rightarrow> u64 \<Rightarrow> (unit, 'a ke_scheme) orun) \<Rightarrow> u64 \<Rightarrow> u64 \<Rightarrow> u32 \<Rightarrow> u32 \<Rightarrow> expiry \<Rightarrow> 'a ke_scheme
     \<Rightarrow> (fault + expiry \<times> 'a ke_scheme) option" where
  "expire_ticks cfg call sys now i fin x s = (if i < fin then
     obnd (expire_bucket cfg call sys now (hand_of i) x) (\<lambda>y.
       if timer_exp_max_expired cfg \<noteq> 0 \<and> timer_exp_max_expired cfg \<le> totalExpired y then oret y
       else (\<lambda>u. expire_ticks cfg call sys now (i + 1) fin y u)) s
     else Some (Inr (x, s)))"

definition KiTimerExpiration ::
  "beta_config \<Rightarrow> (dpc_entry \<Rightarrow> u64 \<Rightarrow> (unit, 'a ke_scheme) orun) \<Rightarrow> u32 \<Rightarrow> u32 \<Rightarrow> (unit, 'a ke_scheme) orun" where
  "KiTimerExpiration cfg call old fin = obnd (lift KeQuerySystemTime) (\<lambda>sys. obnd (lift KeQueryInterruptTime) (\<lambda>now.
     let cap = timer_exp_max_ticks cfg;
         stop = (if 0 <s cap \<and> cap < fin - old then old + cap else fin) in
     obnd (expire_ticks cfg call sys now old stop \<lparr>Timers = 24, ActiveTimers = 4, totalExpired = 0, DpcEntries = []\<rparr>) (\<lambda>x.
     call_dpcs call sys (DpcEntries x))))"

section \<open>Changing the system time\<close>

partial_function (option) expire_list ::
  "node \<Rightarrow> dpc_entry list \<Rightarrow> 'a ke_scheme \<Rightarrow> (fault + dpc_entry list \<times> 'a ke_scheme) option" where
  "expire_list tmp ds s = obnd (lift (get_Flink tmp)) (\<lambda>n.
     if n = tmp then oret ds else
     obnd (lift (timer_of n)) (\<lambda>t.
     obnd (lift (RemoveEntryList n)) (\<lambda>_.
     obnd (lift (set_obj t (\<lambda>k. k\<lparr>hdr_Inserted := False, SignalState := 1\<rparr>))) (\<lambda>_.
     obnd (lift (get_obj t)) (\<lambda>k.
     obnd (wake_waiters t) (\<lambda>_.
     obnd (rearm t (Period k)) (\<lambda>_.
     obnd (lift (check (tmr_Dpc k \<noteq> None \<longrightarrow> length ds + 1 < MAX_TIMER_DPCS))) (\<lambda>_.
     obnd (lift (case tmr_Dpc k of None \<Rightarrow> ret [] | Some d \<Rightarrow> bnd (dpc_entry d) (\<lambda>e. ret [e]))) (\<lambda>es u.
     expire_list tmp (ds @ es) u))))))))) s"

definition KiTimerListExpire :: "(dpc_entry \<Rightarrow> u64 \<Rightarrow> (unit, 'a ke_scheme) orun) \<Rightarrow> node \<Rightarrow> (unit, 'a ke_scheme) orun" where
  "KiTimerListExpire call tmp = obnd (lift KeQuerySystemTime) (\<lambda>sys. obnd (expire_list tmp []) (call_dpcs call sys))"

partial_function (option) collect_absolute ::
  "node \<Rightarrow> nat \<Rightarrow> node \<Rightarrow> 'a ke_scheme \<Rightarrow> (fault + unit \<times> 'a ke_scheme) option" where
  "collect_absolute tmp h n s = (if n = TimerHead h then Some (Inr ((), s)) else
     obnd (lift (timer_of n)) (\<lambda>t. obnd (lift (get_Flink n)) (\<lambda>next. obnd (lift (get_obj t)) (\<lambda>k.
     obnd (lift (if Absolute k then bnd (KiRemoveEntryTimer t h) (\<lambda>_. InsertTailList tmp (TimerEntry t)) else ret ())) (\<lambda>_ u.
     collect_absolute tmp h next u)))) s)"

fun collect_buckets :: "node \<Rightarrow> nat list \<Rightarrow> (unit, 'a ke_scheme) orun" where
  "collect_buckets tmp [] = oret ()"
| "collect_buckets tmp (h # hs) = obnd (lift (get_Flink (TimerHead h))) (\<lambda>n.
     obnd (collect_absolute tmp h n) (\<lambda>_. collect_buckets tmp hs))"

partial_function (option) reinsert_absolute ::
  "node \<Rightarrow> node \<Rightarrow> u64 \<Rightarrow> 'a ke_scheme \<Rightarrow> (fault + unit \<times> 'a ke_scheme) option" where
  "reinsert_absolute tmp tmp2 delta s = obnd (lift (get_Flink tmp)) (\<lambda>n.
     if n = tmp then oret () else
     obnd (lift (timer_of n)) (\<lambda>t.
     obnd (lift (RemoveEntryList n)) (\<lambda>_.
     obnd (lift (set_obj t (\<lambda>k. k\<lparr>DueTime := DueTime k - delta\<rparr>))) (\<lambda>_.
     obnd (lift (get_obj t)) (\<lambda>k. obnd (lift (ret (KiComputeTimerTableIndex (DueTime k)))) (\<lambda>h.
     obnd (KiInsertTimerTable t h) (\<lambda>expired.
     obnd (lift (if expired then bnd (KiRemoveEntryTimer t h) (\<lambda>_. InsertTailList tmp2 (TimerEntry t)) else ret ())) (\<lambda>_ u.
     reinsert_absolute tmp tmp2 delta u)))))))) s"

text \<open>The result is the old time. The system time itself is not written.\<close>

definition KeSetSystemTime :: "(dpc_entry \<Rightarrow> u64 \<Rightarrow> (unit, 'a ke_scheme) orun) \<Rightarrow> u64 \<Rightarrow> (u64, 'a ke_scheme) orun" where
  "KeSetSystemTime call new = obnd (lift (check (drop_bit 60 new = 0))) (\<lambda>_.
     obnd (lift KeQuerySystemTime) (\<lambda>old.
     obnd (lift (InitializeListHead (TempHead 1))) (\<lambda>_.
     obnd (collect_buckets (TempHead 1) [0..<32]) (\<lambda>_.
     obnd (lift (InitializeListHead (TempHead 2))) (\<lambda>_.
     obnd (reinsert_absolute (TempHead 1) (TempHead 2) (new - old)) (\<lambda>_.
     obnd (KiTimerListExpire call (TempHead 2)) (\<lambda>_. oret old)))))))"

section \<open>The clock interrupt\<close>

definition bucket_due :: "nat \<Rightarrow> u64 \<Rightarrow> (bool, 'a ke_scheme) run" where
  "bucket_due h now = bnd (get_Flink (TimerHead h)) (\<lambda>f. bnd (get (\<lambda>s. TableTime s h)) (\<lambda>v.
     ret (f \<noteq> TimerHead h \<and> v \<le> now)))"

text \<open>The loop over the buckets of the elapsed ticks; the fuel is the most it can run, 32 turns.\<close>

fun clock_scan :: "nat \<Rightarrow> nat \<Rightarrow> u32 \<Rightarrow> u32 \<Rightarrow> u32 \<Rightarrow> u64 \<Rightarrow> (unit, 'a ke_scheme) run" where
  "clock_scan 0 expire_dpc old i fin now = ret ()"
| "clock_scan (Suc n) expire_dpc old i fin now = (if i < fin then
     bnd (bucket_due (hand_of i) now) (\<lambda>due.
       if due then bnd (KeInsertQueueDpc expire_dpc old fin) (\<lambda>_. ret ())
       else clock_scan n expire_dpc old (i + 1) fin now)
     else ret ())"

definition end_tick :: "u32 \<Rightarrow> u32 \<Rightarrow> u32" where
  "end_tick old now = (if 32 \<le> now - old then old + 32 else now)"

text \<open>
  The counters, in the order of the code. \<open>changed\<close> is the host's time when the system time was
  changed behind the emulator, and \<open>free\<close> tells whether the timer lock was free (\<open>timer_try_lock\<close>).
\<close>

definition advance_interrupt :: "u64 \<Rightarrow> 'a ke_scheme \<Rightarrow> 'a ke_scheme" where
  "advance_interrupt ms s = s\<lparr>KeInterruptTime := KeInterruptTime s + CLOCK_TIME_INCREMENT * ms\<rparr>"

definition elapsed_ms :: "u64 \<Rightarrow> (u64, 'a ke_scheme) run" where
  "elapsed_ms us s = (let lost = LostUs s + (us - us div 1000 * 1000) in
     Inr (us div 1000 + lost div 1000, s\<lparr>LostUs := lost - lost div 1000 * 1000\<rparr>))"

definition KiClockIsr ::
  "beta_config \<Rightarrow> (dpc_entry \<Rightarrow> u64 \<Rightarrow> (unit, 'a ke_scheme) orun) \<Rightarrow> nat \<Rightarrow> u64 option \<Rightarrow> bool \<Rightarrow> u64 \<Rightarrow> (unit, 'a ke_scheme) orun" where
  "KiClockIsr cfg call expire_dpc changed free us = obnd (lift (elapsed_ms us)) (\<lambda>ms.
     obnd (lift (modify (advance_interrupt ms))) (\<lambda>_. obnd (lift (get KeInterruptTime)) (\<lambda>now.
     obnd (case changed of
         Some host \<Rightarrow> obnd (lift (modify (KeSystemTime_update (\<lambda>_. host)))) (\<lambda>_. obnd (KeSetSystemTime call host) (\<lambda>_. oret ()))
       | None \<Rightarrow> lift (modify (\<lambda>s. s\<lparr>KeSystemTime := KeSystemTime s + CLOCK_TIME_INCREMENT * ms\<rparr>))) (\<lambda>_.
     obnd (lift (get KeTickCount)) (\<lambda>old.
     obnd (lift (modify (\<lambda>s. s\<lparr>KeTickCount := KeTickCount s + ucast ms\<rparr>))) (\<lambda>_.
     obnd (lift (get KeTickCount)) (\<lambda>new.
     lift (if free \<or> \<not> timer_try_lock cfg then clock_scan 32 expire_dpc old old (end_tick old new) now else ret ()))))))))"

end
