(* ===== verification/Ke_ExpireFacts.thy ===== *)
theory Ke_ExpireFacts
  imports Ke_Expire
begin

text \<open>
  The clock interrupt and the expiration together: no armed timer is missed.
\<close>

section \<open>Arming again\<close>

lemma dispatcher_timer:
  assumes "dispatcher s W T" and "timer_frame s s'" and "timer_table s' T'"
  shows "dispatcher s' W T'"
proof -
  note fr = timer_frameD [OF assms(2)]
  have "wait_lists s' W" using dispatcherD(1) [OF assms(1)] by (rule wait_lists_cong) (use fr in auto)
  then show ?thesis using assms(1,3) by (simp add: dispatcher_def waiter_def fr)
qed

lemma period_due:
  fixes p :: u32 and now :: u64
  assumes "p \<noteq> 0" and "unat now < 2 ^ 63"
  shows "due_time sys now (ucast p * - 10000) = Some (now + ucast p * 10000)" and "now < now + ucast p * 10000"
proof -
  define d :: u64 where "d = ucast p * 10000"
  have p: "unat p < 2 ^ 32" "0 < unat p" using unsigned_less [of p] assms(1) by (simp_all add: unat_gt_0)
  have "unat (ucast p :: u64) = unat p" using p(1) by (simp add: unsigned_ucast_eq take_bit_nat_eq_self)
  moreover have "unat (10000 :: u64) = 10000" by simp
  moreover have "unat p * 10000 < 2 ^ LENGTH(64)" using p(1) by simp
  ultimately have "unat d = unat p * 10000" unfolding d_def using unat_mult_lem [of "ucast p :: u64" "10000"] by metis
  moreover have "unat p * 10000 < 70368744177664" using p(1) by simp
  ultimately have d: "0 < unat d" "unat d < 70368744177664" using p(2) by linarith+
  have "sint (- d) < 0"
  proof -
    define x where "x = int (unat d)"
    have x: "0 < x" "x < 70368744177664" using d by (simp_all only: x_def of_nat_0_less_iff of_nat_less_numeral_iff)
    have "- d = word_of_int (- x)" by (simp add: x_def)
    then have "sint (- d) = signed_take_bit 63 (- x)" by (simp only: signed_of_int) simp
    also have "\<dots> = - x" using x by (intro signed_take_bit_int_eq_self) simp_all
    finally show ?thesis using x by simp
  qed
  then have "\<not> 0 \<le>s - d" by (simp add: word_sle_eq)
  then show "due_time sys now (ucast p * - 10000) = Some (now + ucast p * 10000)"
    by (simp add: due_time_def d_def)
  have "unat (now + d) = unat now + unat d" using assms(2) d(2) by (subst unat_add_lem [THEN iffD1]) simp_all
  then show "now < now + ucast p * 10000" using d(1) by (simp add: word_less_nat_alt d_def)
qed

definition keeps_due :: "u64 \<Rightarrow> 'a ke_scheme \<Rightarrow> (nat \<Rightarrow> obj list) \<Rightarrow> 'a ke_scheme \<Rightarrow> (nat \<Rightarrow> obj list) \<Rightarrow> bool" where
  "keeps_due now s T s' T' \<longleftrightarrow> (\<forall>g<32. \<forall>u\<in>set (T' g). DueTime (Objs s' u) \<le> now \<longrightarrow> u \<in> set (T g) \<and> DueTime (Objs s' u) = DueTime (Objs s u))"

lemma rearm_ok:
  assumes d: "dispatcher s W T" and new: "\<not> hdr_Inserted (Objs s t)" and now: "unat (KeInterruptTime s) < 2 ^ 63"
  shows "\<exists>s' T'. rearm t p s = Some (Inr ((), s')) \<and> dispatcher s' W T' \<and> timer_frame s s'
    \<and> (\<forall>u. u \<noteq> t \<longrightarrow> Objs s' u = Objs s u) \<and> hdr_Type (Objs s' t) = hdr_Type (Objs s t)
    \<and> keeps_due (KeInterruptTime s) s T s' T'"
proof (cases "p = 0")
  case True
  with d show ?thesis by (intro exI [of _ s] exI [of _ T]) (simp add: rearm_def keeps_due_def)
next
  case False
  note per = period_due [OF False now]
  obtain r s' T' where s': "KiInsertTreeTimer t (ucast p * - 10000) s = Some (Inr (r, s'))" "timer_table s' T'" "timer_frame s s'"
    "\<forall>u. u \<noteq> t \<longrightarrow> Objs s' u = Objs s u" "hdr_Type (Objs s' t) = hdr_Type (Objs s t)"
    "DueTime (Objs s' t) = KeInterruptTime s + ucast p * 10000"
    "if r then (\<exists>xs ys. T (bucket s' t) = xs @ ys \<and> T' = T(bucket s' t := xs @ t # ys)) else DueTime (Objs s' t) \<le> KeInterruptTime s"
    using KiInsertTreeTimer_ok [OF dispatcherD(2) [OF d] new, of "ucast p * - 10000"]
    unfolding per(1) option.case by (metis (mono_tags, lifting))
  have lt: "KeInterruptTime s < DueTime (Objs s' t)" unfolding s'(6) by (rule per(2))
  then have r: r using s'(7) by (auto simp: not_le [symmetric] split: if_splits)
  then obtain xs ys where T': "T (bucket s' t) = xs @ ys" "T' = T(bucket s' t := xs @ t # ys)" using s'(7) by auto
  have "keeps_due (KeInterruptTime s) s T s' T'"
    unfolding keeps_due_def
  proof (intro allI impI ballI)
    fix g u assume g: "g < 32" "u \<in> set (T' g)" "DueTime (Objs s' u) \<le> KeInterruptTime s"
    with lt have "u \<noteq> t" by auto
    with g(2) T' s'(4) show "u \<in> set (T g) \<and> DueTime (Objs s' u) = DueTime (Objs s u)" by (auto split: if_splits)
  qed
  moreover have "rearm t p s = Some (Inr ((), s'))"
    using False r s'(1) by (simp add: rearm_def) (subst rearm_loop.simps, simp add: obnd_step)
  ultimately show ?thesis using dispatcher_timer [OF d s'(3,2)] s'(3-5) by blast
qed

lemma wake_waiters_ok:
  assumes d: "dispatcher s W T" and ty: "hdr_Type (Objs s t) \<noteq> MutantObject"
  shows "\<exists>s' W' T'. wake_waiters t s = Some (Inr ((), s')) \<and> dispatcher s' W' T' \<and> same_kernel s s'
    \<and> (\<forall>u. DueTime (Objs s' u) = DueTime (Objs s u) \<and> hdr_Type (Objs s' u) = hdr_Type (Objs s u)
         \<and> (hdr_Inserted (Objs s' u) \<longrightarrow> hdr_Inserted (Objs s u)))
    \<and> (\<forall>g. set (T' g) \<subseteq> set (T g))"
proof (cases "W t = []")
  case True
  with d show ?thesis
    by (intro exI [of _ s] exI [of _ W] exI [of _ T]) (simp add: wake_waiters_def obnd_lift_step [OF IsListEmpty_waiters])
next
  case False
  have "wake_waiters t s = KiWaitTest t s" using IsListEmpty_waiters [OF d] False
    by (simp add: wake_waiters_def obnd_def lift_def)
  moreover define ks where "ks = take (wakes (hdr_Type (Objs s t)) (SignalState (Objs s t)) (length (W t))) (W t)"
  ultimately show ?thesis using KiWaitTest_ok [OF d ty, folded ks_def]
    by (elim exE, intro exI) (auto simp: woken_def untimed_def)
qed

section \<open>One timer\<close>

definition expiring :: "u64 \<Rightarrow> 'a ke_scheme \<Rightarrow> (nat \<Rightarrow> obj list) \<Rightarrow> 'a ke_scheme \<Rightarrow> (nat \<Rightarrow> obj list) \<Rightarrow> bool" where
  "expiring now s T s' T' \<longleftrightarrow> keeps_due now s T s' T' \<and> KeInterruptTime s' = KeInterruptTime s
     \<and> (\<forall>u. hdr_Type (Objs s' u) = hdr_Type (Objs s u)) \<and> (\<forall>u. hdr_Inserted (Objs s' u) \<longrightarrow> hdr_Inserted (Objs s u))"

lemma expiring_refl [simp]: "expiring now s T s T"
  by (simp add: expiring_def keeps_due_def)

lemma expiring_trans: "expiring now s T t U \<Longrightarrow> expiring now t U u V \<Longrightarrow> expiring now s T u V"
  by (auto simp: expiring_def keeps_due_def)

lemma expire_timer_ok:
  assumes d: "dispatcher s W T" and h: "h < 32" "T h = t # ts" and now: "unat (KeInterruptTime s) < 2 ^ 63"
    and ty: "hdr_Type (Objs s t) \<noteq> MutantObject" and len: "length (DpcEntries x) + 1 < MAX_TIMER_DPCS"
  shows "\<exists>y s' W' T'. expire_timer h t x s = Some (Inr (y, s')) \<and> dispatcher s' W' T' \<and> expiring (KeInterruptTime s) s T s' T'
    \<and> (\<forall>g<32. t \<in> set (T' g) \<longrightarrow> KeInterruptTime s < DueTime (Objs s' t))
    \<and> Timers y = Timers x \<and> ActiveTimers y = ActiveTimers x - 1 \<and> length (DpcEntries y) \<le> length (DpcEntries x) + 1"
proof -
  let ?now = "KeInterruptTime s"
  have tab: "timer_table s T" using d by (rule dispatcherD)
  then have ok: "timers_ok s T" by (simp add: timer_table_def)
  have "T h = [] @ t # ts" using h(2) by simp
  from KiRemoveEntryTimer_ok [OF ok h(1) this] obtain s1 where s1: "KiRemoveEntryTimer t h s = Inr ((), s1)" "timers_ok s1 (T(h := ts))"
    "timer_frame s s1" "Objs s1 = Objs s" by auto
  define s2 where "s2 = s1\<lparr>Objs := (Objs s)(t := (Objs s t)\<lparr>hdr_Inserted := False, SignalState := 1\<rparr>)\<rparr>"
  have k: "Objs s2 t = (Objs s t)\<lparr>hdr_Inserted := False, SignalState := 1\<rparr>" by (simp add: s2_def)
  have b: "bucket s t = h" "hdr_Inserted (Objs s t)" using timer_tableD [OF tab h(1), of t] h(2) by simp_all
  have "timers_ok s2 (T(h := ts))" using s1(2) by (rule timers_ok_cong) (auto simp: s2_def s1(4))
  moreover have "hdr_Inserted (Objs s2 u) \<longleftrightarrow> u \<in> set ((T(h := ts)) (bucket s2 u))" for u
  proof (cases "u = t")
    case True
    have "distinct (t # ts)" using timers_okD(1) [OF ok h(1)] h(2) by (auto simp: ring_def distinct_map)
    with True b(1) show ?thesis by (simp add: s2_def bucket_def)
  next
    case False
    then show ?thesis using tab h(2) by (auto simp: timer_table_def s2_def bucket_def)
  qed
  ultimately have tab2: "timer_table s2 (T(h := ts))" by (simp add: timer_table_def)
  have fr2: "timer_frame s s2" using s1(3) by (simp add: timer_frame_def same_kernel_def s2_def)
  have d2: "dispatcher s2 W (T(h := ts))" by (rule dispatcher_timer [OF d fr2 tab2])
  have "hdr_Type (Objs s2 t) \<noteq> MutantObject" using ty by (simp add: k)
  from wake_waiters_ok [OF d2 this] obtain s3 W3 T3 where s3: "wake_waiters t s2 = Some (Inr ((), s3))" "dispatcher s3 W3 T3" "same_kernel s2 s3"
    "\<forall>u. DueTime (Objs s3 u) = DueTime (Objs s2 u) \<and> hdr_Type (Objs s3 u) = hdr_Type (Objs s2 u)
         \<and> (hdr_Inserted (Objs s3 u) \<longrightarrow> hdr_Inserted (Objs s2 u))" "\<forall>g. set (T3 g) \<subseteq> set ((T(h := ts)) g)" by blast
  have now3: "KeInterruptTime s3 = ?now" using same_kernelD(2) [OF s3(3)] timer_frameD(4) [OF fr2] by (simp add: same_kernel_def)
  have new: "\<not> hdr_Inserted (Objs s3 t)" using s3(4) by (auto simp: k)
  from rearm_ok [OF s3(2) new, of "Period (Objs s t)"] now obtain s4 T4 where s4: "rearm t (Period (Objs s t)) s3 = Some (Inr ((), s4))"
    "dispatcher s4 W3 T4" "timer_frame s3 s4" "\<forall>u. u \<noteq> t \<longrightarrow> Objs s4 u = Objs s3 u" "hdr_Type (Objs s4 t) = hdr_Type (Objs s3 t)"
    "keeps_due ?now s3 T3 s4 T4" unfolding now3 by blast
  have due3: "DueTime (Objs s3 u) = DueTime (Objs s u)" for u using s3(4) by (simp add: s2_def)
  have t3: "t \<notin> set (T3 g)" if "g < 32" for g using timer_tableD(1) [OF dispatcherD(2) [OF s3(2)] that] new by blast
  have "keeps_due ?now s T s4 T4"
    unfolding keeps_due_def
  proof (intro allI impI ballI)
    fix g u assume g: "g < 32" "u \<in> set (T4 g)" "DueTime (Objs s4 u) \<le> ?now"
    then have "u \<in> set (T3 g)" "DueTime (Objs s4 u) = DueTime (Objs s3 u)" using s4(6) by (auto simp: keeps_due_def)
    moreover have "set ((T(h := ts)) g) \<subseteq> set (T g)" using h(2) by auto
    ultimately show "u \<in> set (T g) \<and> DueTime (Objs s4 u) = DueTime (Objs s u)" using s3(5) due3 by fastforce
  qed
  moreover have "hdr_Inserted (Objs s4 u) \<longrightarrow> hdr_Inserted (Objs s u)" for u
    using s4(4) s3(4) b(2) by (cases "u = t") (auto simp: s2_def)
  moreover have "hdr_Type (Objs s4 u) = hdr_Type (Objs s u)" for u
    using s4(4,5) s3(4) by (cases "u = t") (auto simp: s2_def)
  moreover have "KeInterruptTime s4 = ?now" using timer_frameD(4) [OF s4(3)] now3 by (simp add: same_kernel_def)
  ultimately have "expiring ?now s T s4 T4" by (simp add: expiring_def)
  moreover have "?now < DueTime (Objs s4 t)" if "g < 32" "t \<in> set (T4 g)" for g
    using s4(6) that t3 [OF that(1)] by (auto simp: keeps_due_def not_le [symmetric])
  moreover have "\<exists>y. expire_timer h t x s = Some (Inr (y, s4)) \<and> Timers y = Timers x \<and> ActiveTimers y = ActiveTimers x - 1
      \<and> length (DpcEntries y) \<le> length (DpcEntries x) + 1"
    using s1(1,4) s3(1) s4(1) len
    by (auto simp: expire_timer_def obnd_lift_step [of "KiRemoveEntryTimer t h", OF s1(1)] set_obj_def get_obj_def s2_def [symmetric] k obnd_step [of "wake_waiters t", OF s3(1)]
        obnd_step [of "rearm t _", OF s4(1)] Let_def check_apply dpc_entry_def obnd_def lift_def split: option.splits)
  ultimately show ?thesis using s4(2) by blast
qed

end
