(* ===== verification/Nv_Fifo.thy ===== *)
theory Nv_Fifo
  imports Cxbx_Loops
begin

text \<open>
  The command FIFO of the graphics chip (\<open>src/devices/video/EmuNV2A_PFIFO.cpp\<close>): the pusher, which
  decodes the push buffer in guest memory into the 128 entries of CACHE1, the puller, which hands
  them to PGRAPH, and the hash table of objects (RAMHT) it looks them up in.

  The registers are a function from byte offsets, guest memory and the instance memory are byte
  memories. PGRAPH is outside: what the puller calls is recorded in \<open>pg_calls\<close>. Both threads hold
  \<open>pfifo_lock\<close> except while PGRAPH works, so a run of the pusher and a turn of the puller are steps;
  condition variables are left out.
\<close>

section \<open>Registers\<close>

abbreviation NV_PFIFO_RAMHT :: u32 where "NV_PFIFO_RAMHT \<equiv> 0x210"
abbreviation NV_PFIFO_MODE :: u32 where "NV_PFIFO_MODE \<equiv> 0x504"
abbreviation CACHE1_PUSH0 :: u32 where "CACHE1_PUSH0 \<equiv> 0x1200"
abbreviation CACHE1_PUSH1 :: u32 where "CACHE1_PUSH1 \<equiv> 0x1204"
abbreviation CACHE1_PUT :: u32 where "CACHE1_PUT \<equiv> 0x1210"
abbreviation CACHE1_STATUS :: u32 where "CACHE1_STATUS \<equiv> 0x1214"
abbreviation CACHE1_DMA_PUSH :: u32 where "CACHE1_DMA_PUSH \<equiv> 0x1220"
abbreviation CACHE1_DMA_STATE :: u32 where "CACHE1_DMA_STATE \<equiv> 0x1228"
abbreviation CACHE1_DMA_INSTANCE :: u32 where "CACHE1_DMA_INSTANCE \<equiv> 0x122C"
abbreviation CACHE1_DMA_PUT :: u32 where "CACHE1_DMA_PUT \<equiv> 0x1240"
abbreviation CACHE1_DMA_GET :: u32 where "CACHE1_DMA_GET \<equiv> 0x1244"
abbreviation CACHE1_REF :: u32 where "CACHE1_REF \<equiv> 0x1248"
abbreviation CACHE1_DMA_SUBROUTINE :: u32 where "CACHE1_DMA_SUBROUTINE \<equiv> 0x124C"
abbreviation CACHE1_PULL0 :: u32 where "CACHE1_PULL0 \<equiv> 0x1250"
abbreviation CACHE1_PULL1 :: u32 where "CACHE1_PULL1 \<equiv> 0x1254"
abbreviation CACHE1_GET :: u32 where "CACHE1_GET \<equiv> 0x1270"
abbreviation CACHE1_ENGINE :: u32 where "CACHE1_ENGINE \<equiv> 0x1280"
abbreviation CACHE1_DMA_DCOUNT :: u32 where "CACHE1_DMA_DCOUNT \<equiv> 0x12A0"
abbreviation CACHE1_DMA_GET_JMP_SHADOW :: u32 where "CACHE1_DMA_GET_JMP_SHADOW \<equiv> 0x12A4"
abbreviation CACHE1_DMA_RSVD_SHADOW :: u32 where "CACHE1_DMA_RSVD_SHADOW \<equiv> 0x12A8"
abbreviation CACHE1_DMA_DATA_SHADOW :: u32 where "CACHE1_DMA_DATA_SHADOW \<equiv> 0x12AC"
abbreviation CACHE1_METHOD :: u32 where "CACHE1_METHOD \<equiv> 0x1800"
abbreviation CACHE1_DATA :: u32 where "CACHE1_DATA \<equiv> 0x1804"

abbreviation STATUS_LOW_MARK :: u32 where "STATUS_LOW_MARK \<equiv> 0x10"
abbreviation STATUS_HIGH_MARK :: u32 where "STATUS_HIGH_MARK \<equiv> 0x100"

text \<open>Fields of \<open>DMA_STATE\<close>; a cache entry has the first three in the same places.\<close>

abbreviation (input) METHOD_TYPE :: u32 where "METHOD_TYPE \<equiv> 1"
abbreviation METHOD :: u32 where "METHOD \<equiv> 0x1FFC"
abbreviation SUBCHANNEL :: u32 where "SUBCHANNEL \<equiv> 0xE000"
abbreviation METHOD_COUNT :: u32 where "METHOD_COUNT \<equiv> 0x1FFC0000"
abbreviation DMA_ERROR :: u32 where "DMA_ERROR \<equiv> 0xE0000000"

abbreviation (input) SUBROUTINE_STATE :: u32 where "SUBROUTINE_STATE \<equiv> 1"

definition ffs :: "u32 \<Rightarrow> nat" where
  "ffs m = (if m = 0 then 0 else Suc (hd (filter (bit m) [0..<32])))"

definition GET_MASK :: "u32 \<Rightarrow> u32 \<Rightarrow> u32" where
  "GET_MASK v m = drop_bit (ffs m - 1) (v AND m)"

definition SET_MASK :: "u32 \<Rightarrow> u32 \<Rightarrow> u32 \<Rightarrow> u32" where
  "SET_MASK v m x = (v AND NOT m) OR (push_bit (ffs m - 1) x AND m)"

section \<open>State\<close>

datatype pg_call = Switch_context u32 | Handle_method u32 u32 u32

record fifo =
  fregs :: "u32 \<Rightarrow> u32"
  fifo_pending :: u32
  fifo_enabled :: u32
  ramin :: mem
  vram :: mem
  vram_size :: nat
  dmaConstLoadShadow :: u32
  pg_calls :: "pg_call list"

definition reg :: "u32 \<Rightarrow> (u32, 'a fifo_scheme) run" where
  "reg a = get (\<lambda>s. fregs s a)"

definition set_reg :: "u32 \<Rightarrow> u32 \<Rightarrow> (unit, 'a fifo_scheme) run" where
  "set_reg a v = modify (\<lambda>s. s\<lparr>fregs := (fregs s)(a := v)\<rparr>)"

definition call :: "pg_call \<Rightarrow> (unit, 'a fifo_scheme) run" where
  "call c = modify (\<lambda>s. s\<lparr>pg_calls := pg_calls s @ [c]\<rparr>)"

section \<open>DMA objects and the object table\<close>

record dma_object =
  dma_class :: u32
  dma_target :: u32
  dma_address :: u32
  dma_limit :: u32

definition nv_dma_load :: "u32 \<Rightarrow> (dma_object, 'a fifo_scheme) run" where
  "nv_dma_load a = bnd (check (a < 0x100000)) (\<lambda>_. get (\<lambda>s.
     let flags = rd32 (ramin s) a; limit = rd32 (ramin s) (a + 4); frame = rd32 (ramin s) (a + 8) in
     \<lparr>dma_class = GET_MASK flags 0xFFF, dma_target = GET_MASK flags 0x30000,
      dma_address = (frame AND 0xFFFFF000) OR GET_MASK flags 0xFFF00000, dma_limit = limit\<rparr>))"

text \<open>The address in guest memory and the length.\<close>

definition nv_dma_map :: "u32 \<Rightarrow> (u32 \<times> u32, 'a fifo_scheme) run" where
  "nv_dma_map a = bnd (nv_dma_load a) (\<lambda>d. ret (dma_address d AND 0x07FFFFFF, dma_limit d))"

record ramht_entry =
  rh_handle :: u32
  rh_instance :: u32
  rh_engine :: u32
  rh_channel :: u32
  rh_valid :: bool

definition ramht_size :: "'a fifo_scheme \<Rightarrow> u32" where
  "ramht_size s = push_bit (unat (GET_MASK (fregs s NV_PFIFO_RAMHT) 0x30000) + 12) 1"

text \<open>The number of bits is never zero, so 32 turns take every bit of the handle.\<close>

fun hash_handle :: "nat \<Rightarrow> nat \<Rightarrow> u32 \<Rightarrow> u32 \<Rightarrow> u32" where
  "hash_handle 0 bits handle h = h"
| "hash_handle (Suc n) bits handle h =
     (if handle = 0 then h else hash_handle n bits (drop_bit bits handle) (h XOR (handle AND (push_bit bits 1 - 1))))"

definition ramht_hash :: "u32 \<Rightarrow> 'a fifo_scheme \<Rightarrow> u32" where
  "ramht_hash handle s = (let bits = ffs (ramht_size s) - 2 in
     hash_handle 32 bits handle 0 XOR push_bit (bits - 4) (GET_MASK (fregs s CACHE1_PUSH1) 0x1F))"

definition ramht_entry_at :: "'a fifo_scheme \<Rightarrow> u32 \<Rightarrow> ramht_entry" where
  "ramht_entry_at s h = (let a = push_bit 12 (GET_MASK (fregs s NV_PFIFO_RAMHT) 0x1F0) + h * 8; c = rd32 (ramin s) (a + 4) in
     \<lparr>rh_handle = rd32 (ramin s) a, rh_instance = push_bit 4 (c AND 0xFFFF), rh_engine = drop_bit 16 (c AND 0x30000),
      rh_channel = drop_bit 24 (c AND 0x1F000000), rh_valid = (c AND 0x80000000 \<noteq> 0)\<rparr>)"

definition ramht_lookup :: "u32 \<Rightarrow> (ramht_entry, 'a fifo_scheme) run" where
  "ramht_lookup handle = bnd (get (ramht_hash handle)) (\<lambda>h. bnd (get ramht_size) (\<lambda>n.
     bnd (check (h * 8 < n)) (\<lambda>_. get (\<lambda>s. ramht_entry_at s h))))"

section \<open>The pusher\<close>

definition method_entry :: "u32 \<Rightarrow> u32" where
  "method_entry st = SET_MASK (SET_MASK (SET_MASK 0 METHOD (GET_MASK st METHOD)) METHOD_TYPE (GET_MASK st METHOD_TYPE))
     SUBCHANNEL (GET_MASK st SUBCHANNEL)"

abbreviation NV097_SET_TRANSFORM_CONSTANT :: u32 where "NV097_SET_TRANSFORM_CONSTANT \<equiv> 0xB80"
abbreviation NV097_SET_TRANSFORM_CONSTANT_LOAD :: u32 where "NV097_SET_TRANSFORM_CONSTANT_LOAD \<equiv> 0x1EA4"
abbreviation NV2A_VERTEXSHADER_CONSTANTS :: u32 where "NV2A_VERTEXSHADER_CONSTANTS \<equiv> 192"

definition constant_slot :: "u32 \<Rightarrow> u32 option" where
  "constant_slot m = (if NV097_SET_TRANSFORM_CONSTANT \<le> m \<and> m < NV097_SET_TRANSFORM_CONSTANT + 32 * 4
     then Some ((m - NV097_SET_TRANSFORM_CONSTANT) div 4) else None)"

definition note_constant :: "u32 \<Rightarrow> u32 \<Rightarrow> u32 \<Rightarrow> u32" where
  "note_constant m word sh = (if m = NV097_SET_TRANSFORM_CONSTANT_LOAD then word
     else case constant_slot m of None \<Rightarrow> sh
     | Some slot \<Rightarrow> if slot mod 4 = 3 \<and> sh < NV2A_VERTEXSHADER_CONSTANTS then sh + 1 else sh)"

text \<open>The next method and one word less to come.\<close>

definition next_state :: "u32 \<Rightarrow> u32" where
  "next_state st = (let m = push_bit 2 (GET_MASK st METHOD);
     st' = (if GET_MASK st METHOD_TYPE = 0 then SET_MASK st METHOD (drop_bit 2 (m + 4)) else st) in
     SET_MASK st' METHOD_COUNT (GET_MASK st METHOD_COUNT - 1))"

definition update_reg :: "u32 \<Rightarrow> (u32 \<Rightarrow> u32) \<Rightarrow> (unit, 'a fifo_scheme) run" where
  "update_reg a f = bnd (reg a) (\<lambda>v. set_reg a (f v))"

definition push_data :: "u32 \<Rightarrow> (unit, 'a fifo_scheme) run" where
  "push_data word = bnd (reg CACHE1_DMA_STATE) (\<lambda>st.
     bnd (set_reg CACHE1_DMA_DATA_SHADOW word) (\<lambda>_.
     bnd (reg CACHE1_PUT) (\<lambda>put. bnd (reg CACHE1_GET) (\<lambda>g.
     bnd (check (put < 512 \<and> put mod 4 = 0)) (\<lambda>_.
     bnd (set_reg (CACHE1_METHOD + put * 2) (method_entry st)) (\<lambda>_.
     bnd (set_reg (CACHE1_DATA + put * 2) word) (\<lambda>_.
     bnd (modify (\<lambda>s. s\<lparr>dmaConstLoadShadow := note_constant (push_bit 2 (GET_MASK st METHOD)) word (dmaConstLoadShadow s)\<rparr>)) (\<lambda>_.
     let new_put = (put + 4) AND 0x1FC in
     bnd (set_reg CACHE1_PUT new_put) (\<lambda>_.
     bnd (update_reg CACHE1_STATUS (\<lambda>v. if new_put = g then v OR STATUS_HIGH_MARK else v)) (\<lambda>_.
     bnd (update_reg CACHE1_STATUS (\<lambda>v. v AND NOT STATUS_LOW_MARK)) (\<lambda>_.
     bnd (set_reg CACHE1_DMA_STATE (next_state st)) (\<lambda>_.
     update_reg CACHE1_DMA_DCOUNT (\<lambda>v. v + 1)))))))))))))"

text \<open>The header of a group of methods.\<close>

definition method_header :: "u32 \<Rightarrow> u32 \<Rightarrow> u32 \<Rightarrow> u32" where
  "method_header ty word st = SET_MASK (SET_MASK (SET_MASK (SET_MASK st METHOD (drop_bit 2 (word AND 0x1FFF)))
     SUBCHANNEL (drop_bit 13 word AND 7)) METHOD_COUNT (drop_bit 18 word AND 0x7FF)) METHOD_TYPE ty"

text \<open>A command word, with the address after it; the result is the next address, or \<open>None\<close> for an error that ends the run.\<close>

definition push_command :: "u32 \<Rightarrow> u32 \<Rightarrow> (u32 option, 'a fifo_scheme) run" where
  "push_command word g = bnd (reg CACHE1_DMA_SUBROUTINE) (\<lambda>sub.
     if word AND 0xE0000003 = 0x20000000 then
       bnd (set_reg CACHE1_DMA_GET_JMP_SHADOW g) (\<lambda>_. ret (Some (word AND 0x1FFFFFFF)))
     else if word AND 3 = 1 then
       bnd (set_reg CACHE1_DMA_GET_JMP_SHADOW g) (\<lambda>_. ret (Some (word AND 0xFFFFFFFC)))
     else if word AND 3 = 2 then
       if GET_MASK sub SUBROUTINE_STATE \<noteq> 0 then
         bnd (update_reg CACHE1_DMA_STATE (\<lambda>st. SET_MASK st DMA_ERROR 1)) (\<lambda>_. ret None)
       else bnd (set_reg CACHE1_DMA_SUBROUTINE (SET_MASK g SUBROUTINE_STATE 1)) (\<lambda>_. ret (Some (word AND 0xFFFFFFFC)))
     else if word = 0x20000 then
       if GET_MASK sub SUBROUTINE_STATE = 0 then
         bnd (update_reg CACHE1_DMA_STATE (\<lambda>st. SET_MASK st DMA_ERROR 3)) (\<lambda>_. ret (Some g))
       else bnd (set_reg CACHE1_DMA_SUBROUTINE (SET_MASK sub SUBROUTINE_STATE 0)) (\<lambda>_. ret (Some (sub AND 0xFFFFFFFC)))
     else if word AND 0xE0030003 = 0 then
       bnd (update_reg CACHE1_DMA_STATE (method_header 0 word)) (\<lambda>_. bnd (set_reg CACHE1_DMA_DCOUNT 0) (\<lambda>_. ret (Some g)))
     else if word AND 0xE0030003 = 0x40000000 then
       bnd (update_reg CACHE1_DMA_STATE (method_header 1 word)) (\<lambda>_. bnd (set_reg CACHE1_DMA_DCOUNT 0) (\<lambda>_. ret (Some g)))
     else fail AssertFailed)"

datatype turn = Full | Stop | Again

definition finish_turn :: "u32 \<Rightarrow> (turn, 'a fifo_scheme) run" where
  "finish_turn g = bnd (set_reg CACHE1_DMA_GET g) (\<lambda>_. bnd (reg CACHE1_DMA_STATE) (\<lambda>st.
     ret (if GET_MASK st DMA_ERROR \<noteq> 0 then Stop else Again)))"

text \<open>A word of the push buffer, which starts at \<open>b\<close>.\<close>

definition dma_word :: "u32 \<Rightarrow> u32 \<Rightarrow> (u32, 'a fifo_scheme) run" where
  "dma_word b g = bnd (get (\<lambda>s. unat b + unat g + 4 \<le> vram_size s)) (\<lambda>ok.
     if ok then get (\<lambda>s. rd32 (vram s) (b + g)) else fail OutOfBounds)"

definition pusher_turn :: "u32 \<Rightarrow> u32 \<Rightarrow> (turn, 'a fifo_scheme) run" where
  "pusher_turn b len = bnd (reg CACHE1_DMA_GET) (\<lambda>g. bnd (reg CACHE1_DMA_PUT) (\<lambda>p.
     if g = p then ret Stop
     else bnd (check (g < len)) (\<lambda>_. bnd (dma_word b g) (\<lambda>word. bnd (reg CACHE1_DMA_STATE) (\<lambda>st.
       if GET_MASK st METHOD_COUNT \<noteq> 0 then
         bnd (reg CACHE1_STATUS) (\<lambda>v. if v AND STATUS_HIGH_MARK \<noteq> 0 then ret Full
           else bnd (push_data word) (\<lambda>_. finish_turn (g + 4)))
       else bnd (set_reg CACHE1_DMA_RSVD_SHADOW word) (\<lambda>_. bnd (push_command word (g + 4)) (\<lambda>r.
         case r of None \<Rightarrow> ret Stop | Some g' \<Rightarrow> finish_turn g')))))))"

text \<open>The loop does not end on a push buffer that jumps in a circle. The result tells whether the cache was full.\<close>

partial_function (option) push_loop ::
  "u32 \<Rightarrow> u32 \<Rightarrow> 'a fifo_scheme \<Rightarrow> (fault + bool \<times> 'a fifo_scheme) option" where
  "push_loop b len s = obnd (lift (pusher_turn b len)) (\<lambda>r.
     if r = Full then oret True else if r = Stop then oret False else (\<lambda>t. push_loop b len t)) s"

definition pusher_guard :: "'a fifo_scheme \<Rightarrow> bool" where
  "pusher_guard s \<longleftrightarrow> GET_MASK (fregs s CACHE1_PUSH0) 1 \<noteq> 0 \<and> GET_MASK (fregs s CACHE1_DMA_PUSH) 1 \<noteq> 0
     \<and> GET_MASK (fregs s CACHE1_DMA_PUSH) 0x1000 = 0"

definition pfifo_run_pusher :: "(unit, 'a fifo_scheme) orun" where
  "pfifo_run_pusher = obnd (lift (get pusher_guard)) (\<lambda>run.
     if \<not> run then oret () else
     obnd (lift (reg CACHE1_PUSH1)) (\<lambda>push1. obnd (lift (reg NV_PFIFO_MODE)) (\<lambda>modes.
     obnd (lift (check (modes AND push_bit (unat (GET_MASK push1 0x1F)) 1 \<noteq> 0))) (\<lambda>_.
     obnd (lift (check (GET_MASK push1 0x100 = 1))) (\<lambda>_.
     obnd (lift (reg CACHE1_DMA_STATE)) (\<lambda>st. obnd (lift (check (GET_MASK st DMA_ERROR = 0))) (\<lambda>_.
     obnd (lift (reg CACHE1_DMA_INSTANCE)) (\<lambda>i.
     obnd (lift (nv_dma_map (push_bit 4 (GET_MASK i 0xFFFF)))) (\<lambda>(b, len).
     obnd (push_loop b len) (\<lambda>full. if full then oret () else
     obnd (lift (reg CACHE1_DMA_STATE)) (\<lambda>st. lift (check (GET_MASK st DMA_ERROR = 0)))))))))))))"

section \<open>The puller\<close>

abbreviation (input) ENGINE_GRAPHICS :: u32 where "ENGINE_GRAPHICS \<equiv> 1"

definition engine_mask :: "u32 \<Rightarrow> u32" where
  "engine_mask sub = push_bit (4 * unat sub) 3"

text \<open>Method 0 binds an object to the subchannel, the methods from 0x180 to 0x1FF take a handle.\<close>

definition pull_method :: "u32 \<Rightarrow> u32 \<Rightarrow> u32 \<Rightarrow> (unit, 'a fifo_scheme) run" where
  "pull_method sub method parameter =
     (if method = 0 then bnd (ramht_lookup parameter) (\<lambda>e.
        bnd (check (rh_valid e)) (\<lambda>_. bnd (check (rh_engine e = ENGINE_GRAPHICS)) (\<lambda>_. bnd (check (sub < 8)) (\<lambda>_.
        bnd (update_reg CACHE1_ENGINE (\<lambda>v. SET_MASK v (engine_mask sub) (rh_engine e))) (\<lambda>_.
        bnd (update_reg CACHE1_PULL1 (\<lambda>v. SET_MASK v 3 (rh_engine e))) (\<lambda>_.
        bnd (call (Switch_context (rh_channel e))) (\<lambda>_. call (Handle_method sub 0 (rh_instance e)))))))))
      else if 0x100 \<le> method then
        bnd (if 0x180 \<le> method \<and> method < 0x200 then
               bnd (ramht_lookup parameter) (\<lambda>e. bnd (check (rh_valid e)) (\<lambda>_. ret (rh_instance e)))
             else ret parameter) (\<lambda>parameter.
        bnd (reg CACHE1_ENGINE) (\<lambda>v. let engine = GET_MASK v (engine_mask sub) in
        bnd (check (engine = ENGINE_GRAPHICS)) (\<lambda>_.
        bnd (update_reg CACHE1_PULL1 (\<lambda>v. SET_MASK v 3 engine)) (\<lambda>_.
        call (Handle_method sub method parameter)))))
      else fail AssertFailed)"

text \<open>A turn of the puller; the result tells whether there was an entry.\<close>

definition pull_turn :: "(bool, 'a fifo_scheme) run" where
  "pull_turn = bnd (reg CACHE1_PULL0) (\<lambda>pull0. bnd (reg CACHE1_STATUS) (\<lambda>v.
     if GET_MASK pull0 1 = 0 \<or> v AND STATUS_LOW_MARK \<noteq> 0 then ret False else
     bnd (reg CACHE1_GET) (\<lambda>g. bnd (reg CACHE1_PUT) (\<lambda>put.
     bnd (check (g < 512 \<and> g mod 4 = 0)) (\<lambda>_.
     bnd (reg (CACHE1_METHOD + g * 2)) (\<lambda>entry. bnd (reg (CACHE1_DATA + g * 2)) (\<lambda>parameter.
     let new_get = (g + 4) AND 0x1FC in
     bnd (set_reg CACHE1_GET new_get) (\<lambda>_.
     bnd (update_reg CACHE1_STATUS (\<lambda>v. if new_get = put then v OR STATUS_LOW_MARK else v)) (\<lambda>_.
     bnd (update_reg CACHE1_STATUS (\<lambda>v. v AND NOT STATUS_HIGH_MARK)) (\<lambda>_.
     bnd (pull_method (GET_MASK entry SUBCHANNEL) (entry AND METHOD) parameter) (\<lambda>_. ret True)))))))))))"

partial_function (option) pfifo_run_puller :: "'a fifo_scheme \<Rightarrow> (fault + unit \<times> 'a fifo_scheme) option" where
  "pfifo_run_puller s = obnd (lift pull_turn) (\<lambda>more. if more then (\<lambda>t. pfifo_run_puller t) else oret ()) s"

end
