(* ===== verification/Nv_FifoFacts.thy ===== *)
theory Nv_FifoFacts
  imports Nv_Fifo
begin

text \<open>
  The command FIFO as a queue between two machines. \<open>decode\<close> is the language of the push buffer over
  unpacked state, \<open>cache\<close> relates the registers of CACHE1 to the list of pending methods; a turn of
  the pusher is a step of \<open>decode\<close> that appends to the queue, a turn of the puller takes its head.
\<close>

section \<open>Fields\<close>

lemma ffs_field: "0 < w \<Longrightarrow> k + w \<le> 32 \<Longrightarrow> ffs (push_bit k (mask w)) = Suc k"
proof -
  assume w: "0 < w" "k + w \<le> 32"
  have u: "[0..<32] = [0..<k] @ k # [Suc k..<32]" using w upt_add_eq_append [of 0 k "32 - k"] by (simp add: upt_conv_Cons)
  have e: "filter (bit (push_bit k (mask w) :: u32)) [0..<k] = []" by (auto simp: filter_empty_conv bit_simps)
  have b: "bit (push_bit k (mask w) :: u32) k" using w by (simp add: bit_simps)
  then have "push_bit k (mask w) \<noteq> (0 :: u32)" by (metis bit_0_eq bot_apply bot_bool_def)
  then show ?thesis unfolding ffs_def by (simp add: u e b)
qed

lemma GET_field: "0 < w \<Longrightarrow> k + w \<le> 32 \<Longrightarrow> GET_MASK v (push_bit k (mask w)) = take_bit w (drop_bit k v)"
  by (rule bit_word_eqI) (auto simp: GET_MASK_def ffs_field bit_simps)

lemma bit_SET_field:
  "0 < w \<Longrightarrow> k + w \<le> 32 \<Longrightarrow> n < 32 \<Longrightarrow>
     bit (SET_MASK v (push_bit k (mask w)) x) n = (if k \<le> n \<and> n < k + w then bit x (n - k) else bit v n)"
  by (auto simp: SET_MASK_def ffs_field bit_simps)

lemma GET_MASK_fields:
  "GET_MASK v METHOD_TYPE = take_bit 1 v" "GET_MASK v METHOD = take_bit 11 (drop_bit 2 v)"
  "GET_MASK v SUBCHANNEL = take_bit 3 (drop_bit 13 v)" "GET_MASK v METHOD_COUNT = take_bit 11 (drop_bit 18 v)"
  "GET_MASK v DMA_ERROR = take_bit 3 (drop_bit 29 v)"
  using GET_field [of 1 0 v] GET_field [of 11 2 v] GET_field [of 3 13 v] GET_field [of 11 18 v] GET_field [of 3 29 v]
  by (simp_all add: mask_eq_exp_minus_1 push_bit_eq_mult)

lemma bit_SET_MASK:
  assumes "n < 32"
  shows "bit (SET_MASK v METHOD_TYPE x) n = (if n < 1 then bit x n else bit v n)"
    "bit (SET_MASK v METHOD x) n = (if 2 \<le> n \<and> n < 13 then bit x (n - 2) else bit v n)"
    "bit (SET_MASK v SUBCHANNEL x) n = (if 13 \<le> n \<and> n < 16 then bit x (n - 13) else bit v n)"
    "bit (SET_MASK v METHOD_COUNT x) n = (if 18 \<le> n \<and> n < 29 then bit x (n - 18) else bit v n)"
    "bit (SET_MASK v DMA_ERROR x) n = (if 29 \<le> n \<and> n < 32 then bit x (n - 29) else bit v n)"
  using bit_SET_field [of 1 0 n v x] bit_SET_field [of 11 2 n v x] bit_SET_field [of 3 13 n v x]
    bit_SET_field [of 11 18 n v x] bit_SET_field [of 3 29 n v x] assms
  by (simp_all add: mask_eq_exp_minus_1 push_bit_eq_mult)

lemma odd_SET_MASK [simp]:
  "odd (SET_MASK v METHOD_TYPE x) = odd x" "odd (SET_MASK v METHOD x) = odd v" "odd (SET_MASK v SUBCHANNEL x) = odd v"
  "odd (SET_MASK v METHOD_COUNT x) = odd v" "odd (SET_MASK v DMA_ERROR x) = odd v"
  using bit_SET_MASK [of 0 v x] by (simp_all add: bit_0)

lemma GET_SET_MASK [simp]:
  "GET_MASK (SET_MASK v METHOD_TYPE x) METHOD_TYPE = take_bit 1 x" "GET_MASK (SET_MASK v METHOD_TYPE x) METHOD = GET_MASK v METHOD"
  "GET_MASK (SET_MASK v METHOD_TYPE x) SUBCHANNEL = GET_MASK v SUBCHANNEL" "GET_MASK (SET_MASK v METHOD_TYPE x) METHOD_COUNT = GET_MASK v METHOD_COUNT"
  "GET_MASK (SET_MASK v METHOD_TYPE x) DMA_ERROR = GET_MASK v DMA_ERROR"
  "GET_MASK (SET_MASK v METHOD x) METHOD_TYPE = GET_MASK v METHOD_TYPE" "GET_MASK (SET_MASK v METHOD x) METHOD = take_bit 11 x"
  "GET_MASK (SET_MASK v METHOD x) SUBCHANNEL = GET_MASK v SUBCHANNEL" "GET_MASK (SET_MASK v METHOD x) METHOD_COUNT = GET_MASK v METHOD_COUNT"
  "GET_MASK (SET_MASK v METHOD x) DMA_ERROR = GET_MASK v DMA_ERROR"
  "GET_MASK (SET_MASK v SUBCHANNEL x) METHOD_TYPE = GET_MASK v METHOD_TYPE" "GET_MASK (SET_MASK v SUBCHANNEL x) METHOD = GET_MASK v METHOD"
  "GET_MASK (SET_MASK v SUBCHANNEL x) SUBCHANNEL = take_bit 3 x" "GET_MASK (SET_MASK v SUBCHANNEL x) METHOD_COUNT = GET_MASK v METHOD_COUNT"
  "GET_MASK (SET_MASK v SUBCHANNEL x) DMA_ERROR = GET_MASK v DMA_ERROR"
  "GET_MASK (SET_MASK v METHOD_COUNT x) METHOD_TYPE = GET_MASK v METHOD_TYPE" "GET_MASK (SET_MASK v METHOD_COUNT x) METHOD = GET_MASK v METHOD"
  "GET_MASK (SET_MASK v METHOD_COUNT x) SUBCHANNEL = GET_MASK v SUBCHANNEL" "GET_MASK (SET_MASK v METHOD_COUNT x) METHOD_COUNT = take_bit 11 x"
  "GET_MASK (SET_MASK v METHOD_COUNT x) DMA_ERROR = GET_MASK v DMA_ERROR"
  unfolding GET_MASK_fields
  by (simp_all add: mod_2_eq_odd) (rule bit_word_eqI, auto simp: bit_simps bit_SET_MASK)+

lemma Suc_Suc_diff [simp]: "2 \<le> n \<Longrightarrow> Suc (Suc (n - 2)) = n"
  by simp

lemma AND_fields:
  "v AND METHOD = push_bit 2 (GET_MASK v METHOD)" "push_bit 2 (take_bit 11 (drop_bit 2 v)) = v AND METHOD"
  "v AND 0xFFFFFFFC = push_bit 2 (drop_bit 2 (v :: u32))"
proof -
  have m: "METHOD = push_bit 2 (mask 11)" "(0xFFFFFFFC :: u32) = push_bit 2 (mask 30)"
    by (simp_all add: mask_eq_exp_minus_1 push_bit_eq_mult)
  show "v AND METHOD = push_bit 2 (GET_MASK v METHOD)" "push_bit 2 (take_bit 11 (drop_bit 2 v)) = v AND METHOD"
    unfolding GET_MASK_fields unfolding m by (rule bit_word_eqI, auto simp: bit_simps)+
  show "v AND 0xFFFFFFFC = push_bit 2 (drop_bit 2 v)" unfolding m by (rule bit_word_eqI) (auto simp: bit_simps)
qed

lemma GET_MASK_less:
  "GET_MASK v METHOD_COUNT < 2048" "GET_MASK v SUBCHANNEL < 8"
  unfolding GET_MASK_fields by (simp_all add: word_less_nat_alt unsigned_take_bit_eq take_bit_eq_mod [where 'a = nat])

lemma take_bit_small: "x < 2 ^ n \<Longrightarrow> n < 32 \<Longrightarrow> take_bit n x = (x :: u32)"
  by (simp add: word_unat_eq_iff unsigned_take_bit_eq take_bit_nat_eq_self word_less_nat_alt unat_pow2)

lemma method_header_fields:
  "GET_MASK (method_header ty w st) METHOD = take_bit 11 (drop_bit 2 w)"
  "GET_MASK (method_header ty w st) SUBCHANNEL = take_bit 3 (drop_bit 13 w)"
  "GET_MASK (method_header ty w st) METHOD_COUNT = take_bit 11 (drop_bit 18 w)"
  "GET_MASK (method_header ty w st) METHOD_TYPE = take_bit 1 ty"
  "GET_MASK (method_header ty w st) DMA_ERROR = GET_MASK st DMA_ERROR"
proof -
  have m: "(0x1FFF :: u32) = mask 13" "(7 :: u32) = mask 3" "(0x7FF :: u32) = mask 11" by (simp_all add: mask_eq_exp_minus_1)
  show "GET_MASK (method_header ty w st) METHOD = take_bit 11 (drop_bit 2 w)"
    "GET_MASK (method_header ty w st) SUBCHANNEL = take_bit 3 (drop_bit 13 w)"
    "GET_MASK (method_header ty w st) METHOD_COUNT = take_bit 11 (drop_bit 18 w)"
    unfolding method_header_def GET_SET_MASK m by (rule bit_word_eqI, auto simp: bit_simps)+
  show "GET_MASK (method_header ty w st) METHOD_TYPE = take_bit 1 ty"
    "GET_MASK (method_header ty w st) DMA_ERROR = GET_MASK st DMA_ERROR" by (simp_all add: method_header_def)
qed

lemma next_state_fields:
  assumes "GET_MASK st METHOD_COUNT \<noteq> 0"
  shows "push_bit 2 (GET_MASK (next_state st) METHOD) = (if GET_MASK st METHOD_TYPE = 0
      then (push_bit 2 (GET_MASK st METHOD) + 4) AND METHOD else push_bit 2 (GET_MASK st METHOD))"
    and "GET_MASK (next_state st) METHOD_COUNT = GET_MASK st METHOD_COUNT - 1"
    and "GET_MASK (next_state st) SUBCHANNEL = GET_MASK st SUBCHANNEL"
    and "GET_MASK (next_state st) METHOD_TYPE = GET_MASK st METHOD_TYPE"
    and "GET_MASK (next_state st) DMA_ERROR = GET_MASK st DMA_ERROR"
proof -
  have "GET_MASK st METHOD_COUNT - 1 < 2 ^ 11"
    using assms GET_MASK_less(1) [of st] by (simp add: word_less_nat_alt unat_minus_one)
  then have c: "take_bit 11 (GET_MASK st METHOD_COUNT - 1) = GET_MASK st METHOD_COUNT - 1" by (rule take_bit_small) simp
  show "push_bit 2 (GET_MASK (next_state st) METHOD) = (if GET_MASK st METHOD_TYPE = 0
      then (push_bit 2 (GET_MASK st METHOD) + 4) AND METHOD else push_bit 2 (GET_MASK st METHOD))"
    by (simp add: next_state_def Let_def AND_fields(2) del: push_bit_of_0)
  show "GET_MASK (next_state st) METHOD_COUNT = GET_MASK st METHOD_COUNT - 1"
    by (simp add: next_state_def Let_def c)
  show "GET_MASK (next_state st) SUBCHANNEL = GET_MASK st SUBCHANNEL" "GET_MASK (next_state st) METHOD_TYPE = GET_MASK st METHOD_TYPE"
    "GET_MASK (next_state st) DMA_ERROR = GET_MASK st DMA_ERROR" by (simp_all add: next_state_def Let_def)
qed

lemma method_entry_fields:
  "GET_MASK (method_entry st) SUBCHANNEL = GET_MASK st SUBCHANNEL"
  "method_entry st AND METHOD = push_bit 2 (GET_MASK st METHOD)"
  unfolding AND_fields(1) by (simp_all add: method_entry_def) (simp_all add: GET_MASK_fields)

section \<open>The language of the push buffer\<close>

record pstate =
  pos :: u32
  meth :: u32
  cnt :: u32
  incr :: bool
  subch :: u32
  ret_to :: "u32 option"

text \<open>A word, the state after it and the method it submits; \<open>None\<close> is an error.\<close>

definition decode :: "u32 \<Rightarrow> pstate \<Rightarrow> (pstate \<times> (u32 \<times> u32 \<times> u32) list) option" where
  "decode w p = (let p' = p\<lparr>pos := pos p + 4\<rparr> in
     if cnt p \<noteq> 0 then
       Some (p'\<lparr>meth := (if incr p then (meth p + 4) AND METHOD else meth p), cnt := cnt p - 1\<rparr>, [(subch p, meth p, w)])
     else if w AND 0xE0000003 = 0x20000000 then Some (p\<lparr>pos := w AND 0x1FFFFFFF\<rparr>, [])
     else if w AND 3 = 1 then Some (p\<lparr>pos := w AND 0xFFFFFFFC\<rparr>, [])
     else if w AND 3 = 2 then
       if ret_to p = None then Some (p\<lparr>pos := w AND 0xFFFFFFFC, ret_to := Some ((pos p + 4) AND 0xFFFFFFFC)\<rparr>, []) else None
     else if w = 0x20000 then (case ret_to p of None \<Rightarrow> None | Some r \<Rightarrow> Some (p\<lparr>pos := r, ret_to := None\<rparr>, []))
     else if w AND 0xE0030003 = 0 \<or> w AND 0xE0030003 = 0x40000000 then
       Some (p'\<lparr>meth := w AND METHOD, cnt := take_bit 11 (drop_bit 18 w), incr := (w AND 0xE0030003 = 0),
         subch := take_bit 3 (drop_bit 13 w)\<rparr>, [])
     else None)"

definition unpack :: "u32 \<Rightarrow> u32 \<Rightarrow> u32 \<Rightarrow> pstate" where
  "unpack st sub g = \<lparr>pos = g, meth = push_bit 2 (GET_MASK st METHOD), cnt = GET_MASK st METHOD_COUNT,
     incr = (GET_MASK st METHOD_TYPE = 0), subch = GET_MASK st SUBCHANNEL,
     ret_to = (if GET_MASK sub SUBROUTINE_STATE = 0 then None else Some (sub AND 0xFFFFFFFC))\<rparr>"

definition pusher_state :: "'a fifo_scheme \<Rightarrow> pstate" where
  "pusher_state s = unpack (fregs s CACHE1_DMA_STATE) (fregs s CACHE1_DMA_SUBROUTINE) (fregs s CACHE1_DMA_GET)"

section \<open>The cache as a queue\<close>

definition slot :: "'a fifo_scheme \<Rightarrow> nat \<Rightarrow> u32 \<times> u32 \<times> u32" where
  "slot s i = (let e = fregs s (CACHE1_METHOD + of_nat (8 * i)) in
     (GET_MASK e SUBCHANNEL, e AND METHOD, fregs s (CACHE1_DATA + of_nat (8 * i))))"

definition cache :: "'a fifo_scheme \<Rightarrow> (u32 \<times> u32 \<times> u32) list \<Rightarrow> bool" where
  "cache s es \<longleftrightarrow> length es \<le> 128
     \<and> (\<exists>g<128. fregs s CACHE1_GET = of_nat (4 * g) \<and> fregs s CACHE1_PUT = of_nat (4 * ((g + length es) mod 128))
         \<and> (\<forall>k<length es. slot s ((g + k) mod 128) = es ! k))
     \<and> (fregs s CACHE1_STATUS AND STATUS_LOW_MARK \<noteq> 0 \<longleftrightarrow> es = [])
     \<and> (fregs s CACHE1_STATUS AND STATUS_HIGH_MARK \<noteq> 0 \<longleftrightarrow> length es = 128)"

lemma unat_of_nat_len: "n < 2 ^ 32 \<Longrightarrow> unat (of_nat n :: u32) = n"
  by (simp add: unsigned_of_nat take_bit_nat_eq_self)

lemma slot_addr:
  assumes "i < 128"
  shows "unat (CACHE1_METHOD + of_nat (8 * i)) = 0x1800 + 8 * i" "unat (CACHE1_DATA + of_nat (8 * i)) = 0x1804 + 8 * i"
proof -
  have "unat (of_nat (8 * i) :: u32) = 8 * i" using assms by (intro unat_of_nat_len) simp
  then show "unat (CACHE1_METHOD + of_nat (8 * i)) = 0x1800 + 8 * i" "unat (CACHE1_DATA + of_nat (8 * i)) = 0x1804 + 8 * i"
    using assms by (simp_all add: unat_word_ariths)
qed

lemma slot_addr_other:
  assumes "i < 128" and "unat a < 0x1800"
  shows "CACHE1_METHOD + of_nat (8 * i) \<noteq> a" "CACHE1_DATA + of_nat (8 * i) \<noteq> a"
  using slot_addr [OF assms(1)] assms(2) by auto

lemma slot_addr_eq:
  assumes "i < 128" and "j < 128"
  shows "CACHE1_METHOD + of_nat (8 * i) = CACHE1_METHOD + of_nat (8 * j) \<longleftrightarrow> i = j"
    "CACHE1_DATA + of_nat (8 * i) = CACHE1_DATA + of_nat (8 * j) \<longleftrightarrow> i = j"
    "CACHE1_METHOD + of_nat (8 * i) \<noteq> CACHE1_DATA + of_nat (8 * j)"
proof -
  have "0x1800 + 8 * i \<noteq> 0x1804 + 8 * j" by presburger
  then show "CACHE1_METHOD + of_nat (8 * i) \<noteq> CACHE1_DATA + of_nat (8 * j)"
    by (metis slot_addr assms)
qed (use slot_addr [OF assms(1)] slot_addr [OF assms(2)] in \<open>auto simp: word_unat_eq_iff simp del: of_nat_mult\<close>)

lemma next_index:
  assumes "i < 128"
  shows "(of_nat (4 * i) + 4) AND (0x1FC :: u32) = of_nat (4 * (Suc i mod 128))"
proof (cases "i = 127")
  case False
  have m: "(0x1FC :: u32) = push_bit 2 (mask 7)" by (simp add: mask_eq_exp_minus_1 push_bit_eq_mult)
  have e: "(of_nat (4 * j) :: u32) = push_bit 2 (of_nat j)" for j by (simp add: push_bit_eq_mult mult.commute)
  have t: "take_bit 7 (of_nat (Suc i) :: u32) = of_nat (Suc i)"
    using assms False by (intro take_bit_small) (auto simp: word_less_nat_alt unat_of_nat_len simp del: of_nat_Suc)
  have "(of_nat (4 * i) + 4 :: u32) = of_nat (4 * Suc i)" by simp
  also have "\<dots> AND 0x1FC = push_bit 2 (take_bit 7 (of_nat (Suc i)))"
    unfolding e m by (rule bit_word_eqI) (auto simp: bit_simps simp del: of_nat_Suc)
  also have "\<dots> = of_nat (4 * Suc i)" unfolding t e ..
  finally show ?thesis using assms False by simp
qed simp

lemma index_inj: "i < 128 \<Longrightarrow> j < 128 \<Longrightarrow> (of_nat (4 * i) :: u32) = of_nat (4 * j) \<longleftrightarrow> i = j"
  using unat_of_nat_len [of "4 * i"] unat_of_nat_len [of "4 * j"]
  by (auto simp: word_unat_eq_iff simp del: of_nat_mult)

lemma index_ok: "i < 128 \<Longrightarrow> (of_nat (4 * i) :: u32) < 512 \<and> of_nat (4 * i) mod (4 :: u32) = 0"
  using unat_of_nat_len [of "4 * i"]
  by (auto simp: word_less_nat_alt word_unat_eq_iff unat_mod simp del: of_nat_mult)

lemma status_bits:
  fixes v :: u32
  shows "v AND STATUS_LOW_MARK \<noteq> 0 \<longleftrightarrow> bit v 4" "v AND STATUS_HIGH_MARK \<noteq> 0 \<longleftrightarrow> bit v 8"
  using bit_iff_and_push_bit_not_eq_0 [of v 4] bit_iff_and_push_bit_not_eq_0 [of v 8] by simp_all

lemma status_updates:
  fixes v :: u32
  shows "bit (v OR STATUS_HIGH_MARK) 8" "bit (v OR STATUS_HIGH_MARK) 4 = bit v 4" "bit (v OR STATUS_LOW_MARK) 4"
    "bit (v OR STATUS_LOW_MARK) 8 = bit v 8" "\<not> bit (v AND NOT STATUS_LOW_MARK) 4" "bit (v AND NOT STATUS_LOW_MARK) 8 = bit v 8"
    "\<not> bit (v AND NOT STATUS_HIGH_MARK) 8" "bit (v AND NOT STATUS_HIGH_MARK) 4 = bit v 4"
  by (simp_all add: bit_simps)

section \<open>A turn of the pusher\<close>

definition pusher_frame :: "'a fifo_scheme \<Rightarrow> 'a fifo_scheme \<Rightarrow> bool" where
  "pusher_frame s t \<longleftrightarrow> vram t = vram s \<and> vram_size t = vram_size s \<and> ramin t = ramin s \<and> pg_calls t = pg_calls s
     \<and> fifo.more t = fifo.more s
     \<and> (\<forall>a\<in>{NV_PFIFO_RAMHT, NV_PFIFO_MODE, CACHE1_PUSH0, CACHE1_PUSH1, CACHE1_DMA_PUSH, CACHE1_DMA_INSTANCE, CACHE1_DMA_PUT,
          CACHE1_PULL0, CACHE1_PULL1, CACHE1_GET, CACHE1_ENGINE}. fregs t a = fregs s a)"

lemma pusher_frame_refl [simp]: "pusher_frame s s"
  by (simp add: pusher_frame_def)

lemma pusher_frame_trans: "pusher_frame s t \<Longrightarrow> pusher_frame t u \<Longrightarrow> pusher_frame s u"
  by (simp add: pusher_frame_def)

lemmas reg_run = reg_def set_reg_def update_reg_def call_def

definition note_constants :: "(u32 \<times> u32 \<times> u32) list \<Rightarrow> u32 \<Rightarrow> u32" where
  "note_constants es sh = fold (\<lambda>(_, m, w). note_constant m w) es sh"

text \<open>The registers after a data word, with the entry in slot \<open>i\<close>.\<close>

definition pushed :: "u32 \<Rightarrow> nat \<Rightarrow> 'a fifo_scheme \<Rightarrow> 'a fifo_scheme" where
  "pushed word i s = (let st = fregs s CACHE1_DMA_STATE; v = fregs s CACHE1_STATUS; p = of_nat (4 * (Suc i mod 128)) in
     s\<lparr>fregs := (fregs s)(CACHE1_DMA_DATA_SHADOW := word, CACHE1_METHOD + of_nat (8 * i) := method_entry st,
         CACHE1_DATA + of_nat (8 * i) := word, CACHE1_PUT := p,
         CACHE1_STATUS := (if p = fregs s CACHE1_GET then v OR STATUS_HIGH_MARK else v) AND NOT STATUS_LOW_MARK,
         CACHE1_DMA_STATE := next_state st, CACHE1_DMA_DCOUNT := fregs s CACHE1_DMA_DCOUNT + 1),
       dmaConstLoadShadow := note_constant (push_bit 2 (GET_MASK st METHOD)) word (dmaConstLoadShadow s)\<rparr>)"

lemma push_data_run:
  assumes i: "i < 128" and p: "fregs s CACHE1_PUT = of_nat (4 * i)"
  shows "push_data word s = Inr ((), pushed word i s)"
proof -
  have e: "of_nat (4 * i) * 2 = (of_nat (8 * i) :: u32)" by simp
  have a: "CACHE1_METHOD + of_nat (8 * i) \<noteq> a" "CACHE1_DATA + of_nat (8 * i) \<noteq> a" if "unat a < 0x1800" for a
    using slot_addr_other [OF i that] by auto
  have d: "CACHE1_METHOD + of_nat (8 * i) \<noteq> CACHE1_DATA + of_nat (8 * i)" using slot_addr_eq [OF i i] by simp
  show ?thesis
    unfolding push_data_def pushed_def
    by (simp add: reg_run run_simps p index_ok [OF i, THEN conjunct1] index_ok [OF i, THEN conjunct2] next_index [OF i] e Let_def
        a a [symmetric] d d [symmetric] del: of_nat_mult)
qed

lemma fregs_pushed:
  assumes i: "i < 128" and a: "unat a < 0x1800"
  shows "fregs (pushed w i s) a = (if a = CACHE1_DMA_DATA_SHADOW then w else if a = CACHE1_PUT then of_nat (4 * (Suc i mod 128))
    else if a = CACHE1_STATUS then (if (of_nat (4 * (Suc i mod 128)) :: u32) = fregs s CACHE1_GET then fregs s a OR STATUS_HIGH_MARK else fregs s a)
      AND NOT STATUS_LOW_MARK
    else if a = CACHE1_DMA_STATE then next_state (fregs s a) else if a = CACHE1_DMA_DCOUNT then fregs s a + 1 else fregs s a)"
proof -
  have e: "fregs (pushed w i s) = (fregs s)(CACHE1_DMA_DATA_SHADOW := w, CACHE1_METHOD + of_nat (8 * i) := method_entry (fregs s CACHE1_DMA_STATE),
      CACHE1_DATA + of_nat (8 * i) := w, CACHE1_PUT := of_nat (4 * (Suc i mod 128)),
      CACHE1_STATUS := (if of_nat (4 * (Suc i mod 128)) = fregs s CACHE1_GET then fregs s CACHE1_STATUS OR STATUS_HIGH_MARK else fregs s CACHE1_STATUS)
        AND NOT STATUS_LOW_MARK,
      CACHE1_DMA_STATE := next_state (fregs s CACHE1_DMA_STATE), CACHE1_DMA_DCOUNT := fregs s CACHE1_DMA_DCOUNT + 1)"
    unfolding pushed_def Let_def by simp
  show ?thesis using slot_addr_other [OF i a, symmetric] by (simp only: e fun_upd_apply if_False) auto
qed

lemma slot_pushed:
  assumes i: "i < 128" and j: "j < 128"
  shows "slot (pushed w i s) j = (if j = i
    then (GET_MASK (fregs s CACHE1_DMA_STATE) SUBCHANNEL, push_bit 2 (GET_MASK (fregs s CACHE1_DMA_STATE) METHOD), w) else slot s j)"
proof -
  have o: "CACHE1_METHOD + of_nat (8 * j) \<noteq> a" "CACHE1_DATA + of_nat (8 * j) \<noteq> a" if "unat a < 0x1800" for a
    using slot_addr_other [OF j that] by auto
  have e: "(of_nat (8 * j) :: u32) = of_nat (8 * i) \<longleftrightarrow> j = i" using slot_addr_eq(1) [OF j i] by simp
  show ?thesis
    unfolding slot_def pushed_def Let_def
    by (simp add: o [symmetric] o e slot_addr_eq(3) [OF j i] slot_addr_eq(3) [OF i j, symmetric] method_entry_fields
        del: of_nat_mult of_nat_Suc)
qed

lemma ring_index:
  fixes g n k :: nat
  shows "n < 128 \<Longrightarrow> k < n \<Longrightarrow> (g + k) mod 128 \<noteq> (g + n) mod 128"
    and "g < 128 \<Longrightarrow> n < 128 \<Longrightarrow> Suc ((g + n) mod 128) mod 128 = g \<longleftrightarrow> n = 127"
    and "Suc ((g + n) mod 128) mod 128 = (g + Suc n) mod 128"
proof -
  show "Suc ((g + n) mod 128) mod 128 = (g + Suc n) mod 128" by (simp add: mod_Suc_eq)
next
  assume a: "n < 128" "k < n"
  then show "(g + k) mod 128 \<noteq> (g + n) mod 128"
    using mod_eq_dvd_iff_nat [of "g + k" "g + n" 128] by (auto dest: dvd_imp_le)
next
  assume a: "g < 128" "n < 128"
  show "Suc ((g + n) mod 128) mod 128 = g \<longleftrightarrow> n = 127"
  proof (cases "g + n < 128")
    case False
    then have "(g + n) mod 128 = g + n - 128" using a by (simp add: mod_if)
    then show ?thesis using a False by auto
  qed (use a in \<open>auto simp: mod_Suc\<close>)
qed

lemma cache_pushed:
  assumes c: "cache s es" and l: "length es < 128"
  obtains i where "i < 128" and "fregs s CACHE1_PUT = of_nat (4 * i)"
    and "cache (pushed w i s)
      (es @ [(GET_MASK (fregs s CACHE1_DMA_STATE) SUBCHANNEL, push_bit 2 (GET_MASK (fregs s CACHE1_DMA_STATE) METHOD), w)])"
proof -
  from c obtain g where g: "g < 128" "fregs s CACHE1_GET = of_nat (4 * g)" "fregs s CACHE1_PUT = of_nat (4 * ((g + length es) mod 128))"
    "\<forall>k<length es. slot s ((g + k) mod 128) = es ! k" "\<not> bit (fregs s CACHE1_STATUS) 8"
    unfolding cache_def status_bits using l by auto
  define i where "i = (g + length es) mod 128"
  have i: "i < 128" by (simp add: i_def)
  have f: "fregs (pushed w i s) CACHE1_GET = of_nat (4 * g)" "fregs (pushed w i s) CACHE1_PUT = of_nat (4 * ((g + Suc (length es)) mod 128))"
    using fregs_pushed [OF i, of CACHE1_GET w s] fregs_pushed [OF i, of CACHE1_PUT w s] ring_index(3) [of g "length es"] g(2)
    unfolding i_def by (simp_all del: of_nat_mult)
  have n: "(of_nat (4 * (Suc i mod 128)) :: u32) = of_nat (4 * g) \<longleftrightarrow> length es = 127"
    using index_inj [of "Suc i mod 128" g] ring_index(2) [OF g(1) l] g(1) by (simp add: i_def del: of_nat_mult)
  have v: "fregs (pushed w i s) CACHE1_STATUS = (if length es = 127 then fregs s CACHE1_STATUS OR STATUS_HIGH_MARK else fregs s CACHE1_STATUS)
      AND NOT STATUS_LOW_MARK"
    using fregs_pushed [OF i, of CACHE1_STATUS w s] n by (simp add: g(2) del: of_nat_mult of_nat_Suc)
  have "cache (pushed w i s)
      (es @ [(GET_MASK (fregs s CACHE1_DMA_STATE) SUBCHANNEL, push_bit 2 (GET_MASK (fregs s CACHE1_DMA_STATE) METHOD), w)])"
    unfolding cache_def status_bits v
  proof (intro conjI exI [of _ g] allI impI)
    fix k assume "k < length (es @ [(GET_MASK (fregs s CACHE1_DMA_STATE) SUBCHANNEL, push_bit 2 (GET_MASK (fregs s CACHE1_DMA_STATE) METHOD), w)])"
    then consider "k < length es" | "k = length es" by fastforce
    then show "slot (pushed w i s) ((g + k) mod 128)
        = (es @ [(GET_MASK (fregs s CACHE1_DMA_STATE) SUBCHANNEL, push_bit 2 (GET_MASK (fregs s CACHE1_DMA_STATE) METHOD), w)]) ! k"
    proof cases
      case 1
      then show ?thesis using slot_pushed [OF i, of "(g + k) mod 128" w s] ring_index(1) [OF l 1, of g] g(4) by (simp add: i_def nth_append)
    next
      case 2
      then show ?thesis using slot_pushed [OF i i, of w s] by (simp add: i_def)
    qed
  qed (use f g l status_updates in \<open>auto simp: bit_simps simp del: of_nat_mult\<close>)
  from that [OF i _ this] g(3) show ?thesis by (simp add: i_def)
qed

text \<open>What the commands change is outside the queue.\<close>

lemma slot_upd: "i < 128 \<Longrightarrow> unat a < 0x1800 \<Longrightarrow> slot (s\<lparr>fregs := f(a := v)\<rparr>) i = slot (s\<lparr>fregs := f\<rparr>) i"
  using slot_addr_other [of i a] unfolding slot_def Let_def by (simp del: of_nat_mult)

lemma cache_upd:
  assumes "unat a < 0x1800" and "a \<noteq> CACHE1_GET" and "a \<noteq> CACHE1_PUT" and "a \<noteq> CACHE1_STATUS"
  shows "cache (s\<lparr>fregs := f(a := v)\<rparr>) es = cache (s\<lparr>fregs := f\<rparr>) es"
  using assms unfolding cache_def by (simp add: slot_upd del: of_nat_mult)

lemma fregs_same [simp]: "s\<lparr>fregs := fregs s\<rparr> = s"
  by simp

lemma cache_of_fregs: "fregs t = fregs s \<Longrightarrow> cache t es = cache s es"
  by (simp add: cache_def slot_def)

lemma frame_upd:
  assumes "a \<in> {CACHE1_DMA_STATE, CACHE1_DMA_SUBROUTINE, CACHE1_DMA_GET, CACHE1_DMA_GET_JMP_SHADOW, CACHE1_DMA_RSVD_SHADOW, CACHE1_DMA_DCOUNT}"
  shows "pusher_frame s (t\<lparr>fregs := f(a := v)\<rparr>) = pusher_frame s (t\<lparr>fregs := f\<rparr>)"
  using assms unfolding pusher_frame_def by auto

lemma frame_pushed: "i < 128 \<Longrightarrow> pusher_frame s (pushed w i s)"
  unfolding pusher_frame_def by (simp add: fregs_pushed) (simp add: pushed_def Let_def)

lemma subroutine_fields [simp]:
  "GET_MASK (SET_MASK g SUBROUTINE_STATE x) SUBROUTINE_STATE = take_bit 1 x"
  "SET_MASK g SUBROUTINE_STATE x AND 0xFFFFFFFC = g AND (0xFFFFFFFC :: u32)"
  by (simp, simp add: AND_fields(3), rule bit_word_eqI, auto simp: bit_simps bit_SET_MASK)

lemma pushed_shadow: "dmaConstLoadShadow (pushed w i s)
    = note_constants [(GET_MASK (fregs s CACHE1_DMA_STATE) SUBCHANNEL, push_bit 2 (GET_MASK (fregs s CACHE1_DMA_STATE) METHOD), w)]
        (dmaConstLoadShadow s)"
  by (simp add: pushed_def Let_def note_constants_def)

definition clean :: "'a fifo_scheme \<Rightarrow> (u32 \<times> u32 \<times> u32) list \<Rightarrow> bool" where
  "clean s es \<longleftrightarrow> cache s es \<and> GET_MASK (fregs s CACHE1_DMA_STATE) DMA_ERROR = 0"

definition submits :: "'a fifo_scheme \<Rightarrow> (u32 \<times> u32 \<times> u32) list \<Rightarrow> pstate \<Rightarrow> (u32 \<times> u32 \<times> u32) list \<Rightarrow> 'a fifo_scheme \<Rightarrow> bool" where
  "submits s es p out t \<longleftrightarrow> pusher_state t = p \<and> clean t (es @ out) \<and> pusher_frame s t
     \<and> dmaConstLoadShadow t = note_constants out (dmaConstLoadShadow s)"

definition fetch :: "u32 \<Rightarrow> u32 \<Rightarrow> 'a fifo_scheme \<Rightarrow> bool" where
  "fetch b len s \<longleftrightarrow> fregs s CACHE1_DMA_GET \<noteq> fregs s CACHE1_DMA_PUT \<and> fregs s CACHE1_DMA_GET < len
     \<and> unat b + unat (fregs s CACHE1_DMA_GET) + 4 \<le> vram_size s"

lemma pusher_turn_fetch:
  assumes "fetch b len s"
  shows "pusher_turn b len s = (let g = fregs s CACHE1_DMA_GET; word = rd32 (vram s) (b + g) in
     if GET_MASK (fregs s CACHE1_DMA_STATE) METHOD_COUNT \<noteq> 0 then
       if fregs s CACHE1_STATUS AND STATUS_HIGH_MARK \<noteq> 0 then Inr (Full, s) else bnd (push_data word) (\<lambda>_. finish_turn (g + 4)) s
     else bnd (set_reg CACHE1_DMA_RSVD_SHADOW word) (\<lambda>_. bnd (push_command word (g + 4)) (\<lambda>r.
         case r of None \<Rightarrow> ret Stop | Some g' \<Rightarrow> finish_turn g')) s)"
  using assms unfolding fetch_def pusher_turn_def dma_word_def
  by (simp add: reg_def run_simps Let_def)

lemma decode_command:
  assumes "GET_MASK (fregs s CACHE1_DMA_STATE) METHOD_COUNT = 0"
  shows "decode w (pusher_state s) = (let p = pusher_state s; g = fregs s CACHE1_DMA_GET + 4 in
     if w AND 0xE0000003 = 0x20000000 then Some (p\<lparr>pos := w AND 0x1FFFFFFF\<rparr>, [])
     else if w AND 3 = 1 then Some (p\<lparr>pos := w AND 0xFFFFFFFC\<rparr>, [])
     else if w AND 3 = 2 then
       if ret_to p = None then Some (p\<lparr>pos := w AND 0xFFFFFFFC, ret_to := Some (g AND 0xFFFFFFFC)\<rparr>, []) else None
     else if w = 0x20000 then (case ret_to p of None \<Rightarrow> None | Some r \<Rightarrow> Some (p\<lparr>pos := r, ret_to := None\<rparr>, []))
     else if w AND 0xE0030003 = 0 \<or> w AND 0xE0030003 = 0x40000000 then
       Some (p\<lparr>pos := g, meth := w AND METHOD, cnt := take_bit 11 (drop_bit 18 w), incr := (w AND 0xE0030003 = 0),
         subch := take_bit 3 (drop_bit 13 w)\<rparr>, [])
     else None)"
  using assms unfolding decode_def Let_def by (simp add: pusher_state_def unpack_def)

lemma pusher_turn_command:
  assumes f: "fetch b len s" and r: "clean s es" and c: "GET_MASK (fregs s CACHE1_DMA_STATE) METHOD_COUNT = 0"
    and d: "decode (rd32 (vram s) (b + fregs s CACHE1_DMA_GET)) (pusher_state s) = Some (p, out)"
  shows "\<exists>t. pusher_turn b len s = Inr (Again, t) \<and> submits s es p out t"
proof -
  define w where "w = rd32 (vram s) (b + fregs s CACHE1_DMA_GET)"
  have r': "cache s es" "GET_MASK (fregs s CACHE1_DMA_STATE) DMA_ERROR = 0" using r by (simp_all add: clean_def)
  have t: "take_bit 1 (0 :: u32) = 0" "take_bit 1 (1 :: u32) = 1" by simp_all
  have pt: "pusher_turn b len s = bnd (set_reg CACHE1_DMA_RSVD_SHADOW w) (\<lambda>_. bnd (push_command w (fregs s CACHE1_DMA_GET + 4)) (\<lambda>r.
         case r of None \<Rightarrow> ret Stop | Some g' \<Rightarrow> finish_turn g')) s"
    by (simp add: pusher_turn_fetch [OF f] c Let_def w_def)
  note turn = pt reg_run run_simps push_command_def finish_turn_def c r' method_header_fields Let_def
  note fin = submits_def clean_def cache_upd frame_upd pusher_state_def unpack_def note_constants_def AND_fields(2) method_header_fields c r' t
  note d' = d [folded w_def, unfolded decode_command [OF c]]
  consider (jump) "w AND 0xE0000003 = 0x20000000" | (jump2) "w AND 0xE0000003 \<noteq> 0x20000000" "w AND 3 = 1"
    | (call) "w AND 0xE0000003 \<noteq> 0x20000000" "w AND 3 = 2"
    | (return) "w AND 0xE0000003 \<noteq> 0x20000000" "w AND 3 \<noteq> 1" "w AND 3 \<noteq> 2" "w = 0x20000"
    | (header) "w AND 0xE0000003 \<noteq> 0x20000000" "w AND 3 \<noteq> 1" "w AND 3 \<noteq> 2" "w \<noteq> 0x20000" by auto
  then show ?thesis
  proof cases
    case jump
    have "pusher_turn b len s = Inr (Again, s\<lparr>fregs := (fregs s)(CACHE1_DMA_RSVD_SHADOW := w,
        CACHE1_DMA_GET_JMP_SHADOW := fregs s CACHE1_DMA_GET + 4, CACHE1_DMA_GET := w AND 0x1FFFFFFF)\<rparr>)"
      by (simp add: turn jump)
    moreover have "p = (pusher_state s)\<lparr>pos := w AND 0x1FFFFFFF\<rparr>" "out = []" using d' jump by (simp_all add: Let_def)
    ultimately show ?thesis by (simp add: fin)
  next
    case jump2
    have "pusher_turn b len s = Inr (Again, s\<lparr>fregs := (fregs s)(CACHE1_DMA_RSVD_SHADOW := w,
        CACHE1_DMA_GET_JMP_SHADOW := fregs s CACHE1_DMA_GET + 4, CACHE1_DMA_GET := w AND 0xFFFFFFFC)\<rparr>)"
      by (simp add: turn jump2)
    moreover have "p = (pusher_state s)\<lparr>pos := w AND 0xFFFFFFFC\<rparr>" "out = []" using d' jump2 by (simp_all add: Let_def)
    ultimately show ?thesis by (simp add: fin)
  next
    case call
    have n: "ret_to (pusher_state s) = None" using d' call by (auto simp: Let_def split: if_splits)
    then have "GET_MASK (fregs s CACHE1_DMA_SUBROUTINE) SUBROUTINE_STATE = 0" by (simp add: pusher_state_def unpack_def split: if_splits)
    then have "pusher_turn b len s = Inr (Again, s\<lparr>fregs := (fregs s)(CACHE1_DMA_RSVD_SHADOW := w,
        CACHE1_DMA_SUBROUTINE := SET_MASK (fregs s CACHE1_DMA_GET + 4) SUBROUTINE_STATE 1, CACHE1_DMA_GET := w AND 0xFFFFFFFC)\<rparr>)"
      by (simp add: turn call)
    moreover have "p = (pusher_state s)\<lparr>pos := w AND 0xFFFFFFFC, ret_to := Some ((fregs s CACHE1_DMA_GET + 4) AND 0xFFFFFFFC)\<rparr>" "out = []"
      using d' call n by (simp_all add: Let_def)
    ultimately show ?thesis by (simp add: fin)
  next
    case return
    obtain q where q: "ret_to (pusher_state s) = Some q" using d' return by (auto simp: Let_def split: option.splits)
    then have "GET_MASK (fregs s CACHE1_DMA_SUBROUTINE) SUBROUTINE_STATE \<noteq> 0" and "q = fregs s CACHE1_DMA_SUBROUTINE AND 0xFFFFFFFC"
      by (simp_all add: pusher_state_def unpack_def split: if_splits)
    moreover from this have "pusher_turn b len s = Inr (Again, s\<lparr>fregs := (fregs s)(CACHE1_DMA_RSVD_SHADOW := w,
        CACHE1_DMA_SUBROUTINE := SET_MASK (fregs s CACHE1_DMA_SUBROUTINE) SUBROUTINE_STATE 0, CACHE1_DMA_GET := q)\<rparr>)"
      by (simp add: turn return)
    moreover have "p = (pusher_state s)\<lparr>pos := q, ret_to := None\<rparr>" "out = []" using d' return q by (simp_all add: Let_def)
    ultimately show ?thesis by (simp add: fin)
  next
    case header
    define ty :: u32 where "ty = (if w AND 0xE0030003 = 0 then 0 else 1)"
    have h: "w AND 0xE0030003 = 0 \<or> w AND 0xE0030003 = 0x40000000" using d' header by (auto simp: Let_def split: if_splits)
    then have "pusher_turn b len s = Inr (Again, s\<lparr>fregs := (fregs s)(CACHE1_DMA_RSVD_SHADOW := w,
        CACHE1_DMA_STATE := method_header ty w (fregs s CACHE1_DMA_STATE), CACHE1_DMA_DCOUNT := 0, CACHE1_DMA_GET := fregs s CACHE1_DMA_GET + 4)\<rparr>)"
      using header by (auto simp: turn ty_def)
    moreover have "p = (pusher_state s)\<lparr>pos := fregs s CACHE1_DMA_GET + 4, meth := w AND METHOD, cnt := take_bit 11 (drop_bit 18 w),
        incr := (w AND 0xE0030003 = 0), subch := take_bit 3 (drop_bit 13 w)\<rparr>" "out = []"
      using d' header h by (simp_all add: Let_def)
    ultimately show ?thesis by (simp add: fin) (simp add: ty_def)
  qed
qed

lemma unpack_next:
  assumes "GET_MASK st METHOD_COUNT \<noteq> 0"
  shows "unpack (next_state st) sub (g + 4) = (let p = unpack st sub g in
    p\<lparr>pos := g + 4, meth := (if incr p then (meth p + 4) AND METHOD else meth p), cnt := cnt p - 1\<rparr>)"
  unfolding unpack_def Let_def next_state_fields [OF assms] by simp

lemma decode_data:
  assumes "GET_MASK (fregs s CACHE1_DMA_STATE) METHOD_COUNT \<noteq> 0"
  shows "decode w (pusher_state s) = Some (unpack (next_state (fregs s CACHE1_DMA_STATE)) (fregs s CACHE1_DMA_SUBROUTINE) (fregs s CACHE1_DMA_GET + 4),
    [(GET_MASK (fregs s CACHE1_DMA_STATE) SUBCHANNEL, push_bit 2 (GET_MASK (fregs s CACHE1_DMA_STATE) METHOD), w)])"
  unfolding decode_def unpack_next [OF assms] pusher_state_def Let_def using assms by (simp add: unpack_def)

lemma pusher_turn_data:
  assumes f: "fetch b len s" and r: "clean s es" and c: "GET_MASK (fregs s CACHE1_DMA_STATE) METHOD_COUNT \<noteq> 0"
    and d: "decode (rd32 (vram s) (b + fregs s CACHE1_DMA_GET)) (pusher_state s) = Some (p, out)" and l: "length es < 128"
  shows "\<exists>t. pusher_turn b len s = Inr (Again, t) \<and> submits s es p out t"
proof -
  define w where "w = rd32 (vram s) (b + fregs s CACHE1_DMA_GET)"
  define st where "st = fregs s CACHE1_DMA_STATE"
  have r': "cache s es" "GET_MASK st DMA_ERROR = 0" using r by (simp_all add: clean_def st_def)
  have o: "out = [(GET_MASK st SUBCHANNEL, push_bit 2 (GET_MASK st METHOD), w)]"
    and p: "p = unpack (next_state st) (fregs s CACHE1_DMA_SUBROUTINE) (fregs s CACHE1_DMA_GET + 4)"
    using d unfolding w_def [symmetric] decode_data [OF c] st_def by simp_all
  from cache_pushed [OF r'(1) l, of w] obtain i where i: "i < 128" "fregs s CACHE1_PUT = of_nat (4 * i)" "cache (pushed w i s) (es @ out)"
    unfolding o st_def by auto
  define u where "u = pushed w i s"
  have u: "fregs u CACHE1_DMA_STATE = next_state st" "fregs u CACHE1_DMA_SUBROUTINE = fregs s CACHE1_DMA_SUBROUTINE"
    unfolding u_def st_def by (simp_all add: fregs_pushed [OF i(1)])
  have "fregs s CACHE1_STATUS AND STATUS_HIGH_MARK = 0" using r'(1) l by (auto simp: cache_def)
  then have "pusher_turn b len s = bnd (push_data w) (\<lambda>_. finish_turn (fregs s CACHE1_DMA_GET + 4)) s"
    using c by (simp add: pusher_turn_fetch [OF f] Let_def w_def)
  also have "\<dots> = finish_turn (fregs s CACHE1_DMA_GET + 4) u" by (simp add: bnd_def push_data_run [OF i(1,2)] u_def)
  also have "\<dots> = Inr (Again, u\<lparr>fregs := (fregs u)(CACHE1_DMA_GET := fregs s CACHE1_DMA_GET + 4)\<rparr>)"
    using r'(2) c by (simp add: finish_turn_def reg_run run_simps u st_def next_state_fields)
  finally have "pusher_turn b len s = Inr (Again, u\<lparr>fregs := (fregs u)(CACHE1_DMA_GET := fregs s CACHE1_DMA_GET + 4)\<rparr>)" .
  moreover have "submits s es p out (u\<lparr>fregs := (fregs u)(CACHE1_DMA_GET := fregs s CACHE1_DMA_GET + 4)\<rparr>)"
    using i(3) r'(2) c frame_pushed [OF i(1), of s w] unfolding submits_def clean_def
    by (simp add: pusher_state_def u p cache_upd frame_upd pushed_shadow [of w i s, folded st_def u_def] u_def [symmetric] o next_state_fields st_def [symmetric])
  ultimately show ?thesis by blast
qed

lemma decode_length: "decode w p = Some (q, out) \<Longrightarrow> length out = (if cnt p = 0 then 0 else 1)"
  by (auto simp: decode_def Let_def split: if_splits option.splits)

lemma pusher_turn_ok:
  assumes f: "fetch b len s" and r: "clean s es" and d: "decode (rd32 (vram s) (b + fregs s CACHE1_DMA_GET)) (pusher_state s) = Some (p, out)"
    and l: "length es + length out \<le> 128"
  shows "\<exists>t. pusher_turn b len s = Inr (Again, t) \<and> submits s es p out t"
proof (cases "GET_MASK (fregs s CACHE1_DMA_STATE) METHOD_COUNT = 0")
  case False
  then have "length out = 1" using decode_length [OF d] by (simp add: pusher_state_def unpack_def)
  then show ?thesis using pusher_turn_data [OF f r False d] l by simp
qed (use pusher_turn_command [OF f r _ d] in blast)

lemma DMA_ERROR_set [simp]: "GET_MASK (SET_MASK v DMA_ERROR x) DMA_ERROR = take_bit 3 x"
  unfolding GET_MASK_fields by (rule bit_word_eqI) (auto simp: bit_simps bit_SET_MASK)

text \<open>A word that is an error either stops the emulator or leaves the error in \<open>DMA_STATE\<close>.\<close>

lemma pusher_turn_error:
  assumes f: "fetch b len s" and n: "decode (rd32 (vram s) (b + fregs s CACHE1_DMA_GET)) (pusher_state s) = None"
    and t: "pusher_turn b len s = Inr (r, t)"
  shows "r = Stop \<and> GET_MASK (fregs t CACHE1_DMA_STATE) DMA_ERROR \<noteq> 0"
proof -
  define w where "w = rd32 (vram s) (b + fregs s CACHE1_DMA_GET)"
  have c: "GET_MASK (fregs s CACHE1_DMA_STATE) METHOD_COUNT = 0" using n decode_data [of s] by fastforce
  have pt: "pusher_turn b len s = bnd (set_reg CACHE1_DMA_RSVD_SHADOW w) (\<lambda>_. bnd (push_command w (fregs s CACHE1_DMA_GET + 4)) (\<lambda>r.
         case r of None \<Rightarrow> ret Stop | Some g' \<Rightarrow> finish_turn g')) s"
    by (simp add: pusher_turn_fetch [OF f] c Let_def w_def)
  have k: "take_bit 3 (1 :: u32) \<noteq> 0" "take_bit 3 (3 :: u32) \<noteq> 0" by simp_all
  note turn = t [unfolded pt] reg_run run_simps push_command_def finish_turn_def k
  note n' = n [folded w_def, unfolded decode_command [OF c]]
  have a: "w AND 0xE0000003 \<noteq> 0x20000000" "w AND 3 \<noteq> 1" using n' by (auto simp: Let_def split: if_splits)
  consider (call) "w AND 3 = 2" "GET_MASK (fregs s CACHE1_DMA_SUBROUTINE) SUBROUTINE_STATE \<noteq> 0"
    | (return) "w AND 3 \<noteq> 2" "w = 0x20000" "GET_MASK (fregs s CACHE1_DMA_SUBROUTINE) SUBROUTINE_STATE = 0"
    | (reserved) "w AND 3 \<noteq> 2" "w \<noteq> 0x20000" "w AND 0xE0030003 \<noteq> 0" "w AND 0xE0030003 \<noteq> 0x40000000"
    using n' a by (auto simp: Let_def pusher_state_def unpack_def split: if_splits option.splits)
  then show ?thesis
  proof cases
    case call
    then show ?thesis using t a unfolding pt by (auto simp: turn)
  next
    case return
    then show ?thesis using t unfolding pt by (auto simp: turn)
  next
    case reserved
    then show ?thesis using t a unfolding pt by (simp add: turn)
  qed
qed

lemma pusher_turn_cases:
  assumes r: "clean s es" and t: "pusher_turn b len s = Inr (r, t)"
  obtains (submit) p out where "r = Again" and "fetch b len s" and "submits s es p out t"
      and "decode (rd32 (vram s) (b + fregs s CACHE1_DMA_GET)) (pusher_state s) = Some (p, out)"
    | (full) "r = Full" and "t = s" and "length es = 128" | (idle) "r = Stop" and "t = s" and "fregs s CACHE1_DMA_GET = fregs s CACHE1_DMA_PUT"
    | (error) "r = Stop" and "GET_MASK (fregs t CACHE1_DMA_STATE) DMA_ERROR \<noteq> 0"
proof -
  consider "fregs s CACHE1_DMA_GET = fregs s CACHE1_DMA_PUT" | "fetch b len s"
    using t unfolding pusher_turn_def fetch_def dma_word_def by (auto simp: reg_def run_simps split: if_splits)
  then show thesis
  proof cases
    case 1
    then have "pusher_turn b len s = Inr (Stop, s)" unfolding pusher_turn_def by (simp add: reg_def run_simps)
    with idle t 1 show thesis by simp
  next
    case 2
    let ?d = "decode (rd32 (vram s) (b + fregs s CACHE1_DMA_GET)) (pusher_state s)"
    consider "?d = None" | p out where "?d = Some (p, out)" "length es + length out \<le> 128"
      | p out where "?d = Some (p, out)" "\<not> length es + length out \<le> 128" by (cases ?d) auto
    then show thesis
    proof cases
      case 1
      then show thesis using pusher_turn_error [OF 2 1 t] error by blast
    next
      case 2
      then show thesis using pusher_turn_ok [OF \<open>fetch b len s\<close> r] t submit [OF _ \<open>fetch b len s\<close>] by (metis Inr_inject prod.inject)
    next
      case 3
      then have "cnt (pusher_state s) \<noteq> 0" and l: "length es = 128"
        using r decode_length [OF 3(1)] by (auto simp: clean_def cache_def split: if_splits)
      then have "GET_MASK (fregs s CACHE1_DMA_STATE) METHOD_COUNT \<noteq> 0" "fregs s CACHE1_STATUS AND STATUS_HIGH_MARK \<noteq> 0"
        using r by (simp_all add: pusher_state_def unpack_def clean_def cache_def)
      then have "pusher_turn b len s = Inr (Full, s)" by (simp add: pusher_turn_fetch [OF 2] Let_def)
      then show thesis using full t l by simp
    qed
  qed
qed

end
