(* ===== verification/Nv_FifoRun.thy ===== *)
theory Nv_FifoRun
  imports Nv_FifoFacts Cxbx_Queue
begin

text \<open>
  The pusher and the puller together: the loop of the pusher, the methods the puller delivers to PGRAPH,
  and every interleaving of the two with the guest's writes of \<open>DMA_PUT\<close>.
\<close>

section \<open>A turn of the puller\<close>

text \<open>The calls of PGRAPH that an entry of the cache leads to.\<close>

definition pg_of :: "'a fifo_scheme \<Rightarrow> u32 \<times> u32 \<times> u32 \<Rightarrow> pg_call list" where
  "pg_of s = (\<lambda>(sub, m, w). let e = ramht_entry_at s (ramht_hash w s) in
     if m = 0 then [Switch_context (rh_channel e), Handle_method sub 0 (rh_instance e)]
     else [Handle_method sub m (if 0x180 \<le> m \<and> m < 0x200 then rh_instance e else w)])"

definition pg_calls_of :: "'a fifo_scheme \<Rightarrow> (u32 \<times> u32 \<times> u32) list \<Rightarrow> pg_call list" where
  "pg_calls_of s es = concat (map (pg_of s) es)"

lemma pg_calls_of_simps [simp]:
  "pg_calls_of s [] = []" "pg_calls_of s (e # es) = pg_of s e @ pg_calls_of s es" "pg_calls_of s (es @ fs) = pg_calls_of s es @ pg_calls_of s fs"
  by (simp_all add: pg_calls_of_def)

text \<open>What neither of the two machines nor a new \<open>DMA_PUT\<close> changes.\<close>

definition steady :: "'a fifo_scheme \<Rightarrow> 'a fifo_scheme \<Rightarrow> bool" where
  "steady s t \<longleftrightarrow> vram t = vram s \<and> vram_size t = vram_size s \<and> ramin t = ramin s \<and> fifo.more t = fifo.more s
     \<and> (\<forall>a\<in>{NV_PFIFO_RAMHT, NV_PFIFO_MODE, CACHE1_PUSH0, CACHE1_PUSH1, CACHE1_DMA_PUSH, CACHE1_DMA_INSTANCE, CACHE1_PULL0}. fregs t a = fregs s a)"

lemma steady_refl [simp]: "steady s s"
  by (simp add: steady_def)

lemma steady_trans: "steady s t \<Longrightarrow> steady t u \<Longrightarrow> steady s u"
  by (simp add: steady_def)

lemma frame_steady: "pusher_frame s t \<Longrightarrow> steady s t"
  by (simp add: steady_def pusher_frame_def)

lemma steady_reg:
  assumes "steady s t"
  shows "fregs t NV_PFIFO_RAMHT = fregs s NV_PFIFO_RAMHT" "fregs t CACHE1_PUSH1 = fregs s CACHE1_PUSH1" "ramin t = ramin s"
    "fregs t CACHE1_DMA_INSTANCE = fregs s CACHE1_DMA_INSTANCE" "fregs t CACHE1_PULL0 = fregs s CACHE1_PULL0"
  using assms by (simp_all add: steady_def)

lemma ramht_steady:
  assumes "steady s t"
  shows "ramht_size t = ramht_size s" "ramht_hash w t = ramht_hash w s" "ramht_entry_at t h = ramht_entry_at s h"
  by (simp_all add: ramht_size_def ramht_hash_def ramht_entry_at_def Let_def steady_reg [OF assms])

lemma pg_of_steady: "steady s t \<Longrightarrow> pg_of t = pg_of s"
  by (simp add: pg_of_def ramht_steady)

lemma pg_calls_of_steady: "steady s t \<Longrightarrow> pg_calls_of t = pg_calls_of s"
  by (simp add: fun_eq_iff pg_calls_of_def pg_of_steady)

text \<open>The register changes of \<open>pull_method\<close>: \<open>PULL1\<close>, and \<open>ENGINE\<close> when an object is bound.\<close>

definition handled :: "u32 \<Rightarrow> u32 \<Rightarrow> u32 \<Rightarrow> 'a fifo_scheme \<Rightarrow> 'a fifo_scheme" where
  "handled sub m w s = s\<lparr>fregs := (fregs s)(CACHE1_ENGINE := (if m = 0 then SET_MASK (fregs s CACHE1_ENGINE) (engine_mask sub) 1
      else fregs s CACHE1_ENGINE), CACHE1_PULL1 := SET_MASK (fregs s CACHE1_PULL1) 3 1), pg_calls := pg_calls s @ pg_of s (sub, m, w)\<rparr>"

text \<open>The conditions the code asserts.\<close>

definition accepts :: "'a fifo_scheme \<Rightarrow> u32 \<times> u32 \<times> u32 \<Rightarrow> bool" where
  "accepts s = (\<lambda>(sub, m, w). let e = ramht_entry_at s (ramht_hash w s) in
     (m = 0 \<or> 0x180 \<le> m \<and> m < 0x200 \<longrightarrow> ramht_hash w s * 8 < ramht_size s \<and> rh_valid e)
     \<and> (if m = 0 then rh_engine e = ENGINE_GRAPHICS \<and> sub < 8 else 0x100 \<le> m \<and> GET_MASK (fregs s CACHE1_ENGINE) (engine_mask sub) = ENGINE_GRAPHICS))"

lemma ramht_lookup_run:
  "ramht_lookup w s = (if ramht_hash w s * 8 < ramht_size s then Inr (ramht_entry_at s (ramht_hash w s), s) else Inl AssertFailed)"
  by (simp add: ramht_lookup_def run_simps)

lemma pull_method_run: "pull_method sub m w s = (if accepts s (sub, m, w) then Inr ((), handled sub m w s) else Inl AssertFailed)"
proof (cases "m = 0")
  case True
  then show ?thesis
    by (simp add: pull_method_def accepts_def handled_def pg_of_def Let_def ramht_lookup_run reg_run run_simps fun_upd_twist)
next
  case False
  then show ?thesis
    by (cases "0x180 \<le> m \<and> m < 0x200") (auto simp: pull_method_def accepts_def handled_def pg_of_def Let_def ramht_lookup_run reg_run run_simps)
qed

lemma handled_steady: "steady s (handled sub m w s)"
  by (simp add: steady_def handled_def)

lemma handled_cache [simp]: "cache (handled sub m w s) es = cache s es"
proof -
  have "cache (handled sub m w s) es = cache (s\<lparr>fregs := fregs (handled sub m w s)\<rparr>) es" by (rule cache_of_fregs) simp
  also have "\<dots> = cache s es" by (simp add: handled_def cache_upd)
  finally show ?thesis .
qed

definition popped :: "nat \<Rightarrow> 'a fifo_scheme \<Rightarrow> 'a fifo_scheme" where
  "popped g s = (let n = of_nat (4 * (Suc g mod 128)); v = fregs s CACHE1_STATUS in
     s\<lparr>fregs := (fregs s)(CACHE1_GET := n,
        CACHE1_STATUS := (if n = fregs s CACHE1_PUT then v OR STATUS_LOW_MARK else v) AND NOT STATUS_HIGH_MARK)\<rparr>)"

definition puller_frame :: "'a fifo_scheme \<Rightarrow> 'a fifo_scheme \<Rightarrow> bool" where
  "puller_frame s t \<longleftrightarrow> steady s t \<and> dmaConstLoadShadow t = dmaConstLoadShadow s
     \<and> (\<forall>a. a \<notin> {CACHE1_GET, CACHE1_STATUS, CACHE1_ENGINE, CACHE1_PULL1} \<longrightarrow> fregs t a = fregs s a)"

lemma puller_frame_trans: "puller_frame s t \<Longrightarrow> puller_frame t u \<Longrightarrow> puller_frame s u"
  using steady_trans [of s t u] by (simp add: puller_frame_def)

lemma handled_frame: "puller_frame s (handled sub m w s)"
  by (simp add: puller_frame_def handled_steady) (simp add: handled_def)

lemma popped_frame: "puller_frame s (popped g s)" "pg_calls (popped g s) = pg_calls s" "fregs (popped g s) CACHE1_ENGINE = fregs s CACHE1_ENGINE"
  by (simp_all add: puller_frame_def popped_def steady_def Let_def)

lemma puller_frame_state: "puller_frame s t \<Longrightarrow> pusher_state t = pusher_state s \<and> fregs t CACHE1_DMA_STATE = fregs s CACHE1_DMA_STATE"
  by (simp add: puller_frame_def pusher_state_def)

lemma slot_popped: "i < 128 \<Longrightarrow> slot (popped g s) i = slot s i"
  by (simp add: popped_def Let_def slot_upd)

lemma cache_popped:
  assumes c: "cache s (e # es)"
  obtains g where "g < 128" and "fregs s CACHE1_GET = of_nat (4 * g)" and "slot s g = e" and "cache (popped g s) es"
proof -
  from c obtain g where g: "g < 128" "fregs s CACHE1_GET = of_nat (4 * g)" "fregs s CACHE1_PUT = of_nat (4 * ((g + Suc (length es)) mod 128))"
      "\<forall>k<Suc (length es). slot s ((g + k) mod 128) = (e # es) ! k" "\<not> bit (fregs s CACHE1_STATUS) 4" "Suc (length es) \<le> 128"
    unfolding cache_def status_bits by (auto simp del: of_nat_mult)
  define h where "h = Suc g mod 128"
  have h: "h < 128" "(g + Suc k) mod 128 = (h + k) mod 128" for k unfolding h_def by (simp_all add: mod_simps)
  have n: "(of_nat (4 * h) :: u32) = of_nat (4 * ((g + Suc (length es)) mod 128)) \<longleftrightarrow> es = []"
  proof (cases "es = []")
    case False
    then have "h \<noteq> (g + Suc (length es)) mod 128"
      using ring_index(1) [of "length es" 0 h] g(6) h(1) unfolding h(2) by simp
    then show ?thesis using index_inj [OF h(1), of "(g + Suc (length es)) mod 128"] False by simp
  qed (simp add: h(2), simp add: h_def)
  have v: "fregs (popped g s) CACHE1_STATUS = (if es = [] then fregs s CACHE1_STATUS OR STATUS_LOW_MARK else fregs s CACHE1_STATUS) AND NOT STATUS_HIGH_MARK"
    using n by (simp add: popped_def Let_def g(3) h_def del: of_nat_mult)
  have "cache (popped g s) es"
    unfolding cache_def status_bits v
  proof (intro conjI exI [of _ h] allI impI)
    fix k assume "k < length es"
    then show "slot (popped g s) ((h + k) mod 128) = es ! k"
      using g(4) [rule_format, of "Suc k"] by (simp add: slot_popped h(2) [symmetric])
  qed (use g h(1) h(2) [of "length es", unfolded h_def] status_updates in \<open>auto simp: bit_simps popped_def Let_def h_def simp del: of_nat_mult\<close>)
  moreover have "slot s g = e" using g(4) [rule_format, of 0] g(1) by simp
  ultimately show ?thesis using that g(1,2) by blast
qed

lemma pull_turn_run:
  assumes c: "cache s ((sub, m, w) # es)" and on: "GET_MASK (fregs s CACHE1_PULL0) 1 \<noteq> 0"
  obtains u where "pull_turn s = (if accepts s (sub, m, w) then Inr (True, handled sub m w u) else Inl AssertFailed)"
    and "cache u es" and "puller_frame s u" and "pg_calls u = pg_calls s" and "fregs u CACHE1_ENGINE = fregs s CACHE1_ENGINE"
proof -
  from cache_popped [OF c] obtain g where g: "g < 128" "fregs s CACHE1_GET = of_nat (4 * g)" "slot s g = (sub, m, w)" "cache (popped g s) es" by blast
  have l: "fregs s CACHE1_STATUS AND STATUS_LOW_MARK = 0" using c by (simp add: cache_def)
  have e: "of_nat (4 * g) * 2 = (of_nat (8 * g) :: u32)" by simp
  have a: "accepts (popped g s) (sub, m, w) = accepts s (sub, m, w)"
    using popped_frame(1) [of s g] by (simp add: accepts_def popped_frame ramht_steady [OF popped_frame(1) [unfolded puller_frame_def, THEN conjunct1]])
  have x: "GET_MASK (fregs s (CACHE1_METHOD + of_nat (8 * g))) SUBCHANNEL = sub" "fregs s (CACHE1_METHOD + of_nat (8 * g)) AND METHOD = m"
    "fregs s (CACHE1_DATA + of_nat (8 * g)) = w" using g(3) by (simp_all add: slot_def Let_def)
  have "pull_turn s = bnd (pull_method sub m w) (\<lambda>_. ret True) (popped g s)"
    unfolding pull_turn_def popped_def
    by (simp add: reg_run run_simps on l g(2) index_ok [OF g(1)] e x next_index [OF g(1)] Let_def del: of_nat_mult)
  then have "pull_turn s = (if accepts s (sub, m, w) then Inr (True, handled sub m w (popped g s)) else Inl AssertFailed)"
    by (simp add: pull_method_run bnd_def a)
  from that [OF this g(4) popped_frame] show ?thesis .
qed

section \<open>Runs\<close>

text \<open>What the pusher does from one position of the push buffer at \<open>b\<close> to another.\<close>

inductive runs_to :: "mem \<Rightarrow> u32 \<Rightarrow> pstate \<Rightarrow> (u32 \<times> u32 \<times> u32) list \<Rightarrow> pstate \<Rightarrow> bool" for mm b where
  runs_refl: "runs_to mm b p [] p"
| runs_step: "decode (rd32 mm (b + pos p)) p = Some (q, out) \<Longrightarrow> runs_to mm b q outs r \<Longrightarrow> runs_to mm b p (out @ outs) r"

lemma runs_to_trans: "runs_to mm b p out q \<Longrightarrow> runs_to mm b q outs r \<Longrightarrow> runs_to mm b p (out @ outs) r"
  by (induction rule: runs_to.induct) (auto intro: runs_to.intros)

lemma runs_to_one: "decode (rd32 mm (b + pos p)) p = Some (q, out) \<Longrightarrow> runs_to mm b p out q"
  using runs_step [OF _ runs_refl] by simp

lemma pos_pusher_state [simp]: "pos (pusher_state s) = fregs s CACHE1_DMA_GET"
  by (simp add: pusher_state_def unpack_def)

lemma note_constants_append [simp]: "note_constants (es @ fs) sh = note_constants fs (note_constants es sh)"
  "note_constants [] sh = sh"
  by (simp_all add: note_constants_def)

definition run_result :: "u32 \<Rightarrow> 'a fifo_scheme \<Rightarrow> (u32 \<times> u32 \<times> u32) list \<Rightarrow> (u32 \<times> u32 \<times> u32) list \<Rightarrow> 'a fifo_scheme \<Rightarrow> bool" where
  "run_result b s es out t \<longleftrightarrow> runs_to (vram s) b (pusher_state s) out (pusher_state t) \<and> clean t (es @ out) \<and> pusher_frame s t
     \<and> dmaConstLoadShadow t = note_constants out (dmaConstLoadShadow s)"

lemma run_result_refl: "clean s es \<Longrightarrow> run_result b s es [] s"
  by (simp add: run_result_def runs_refl)

lemma run_result_step:
  assumes "decode (rd32 (vram s) (b + fregs s CACHE1_DMA_GET)) (pusher_state s) = Some (p, out)" and "submits s es p out t"
    and "run_result b t (es @ out) outs u"
  shows "run_result b s es (out @ outs) u"
proof -
  have "vram t = vram s" using assms(2) by (simp add: submits_def pusher_frame_def)
  then show ?thesis
    using assms runs_step [of "vram s" b "pusher_state s" p out outs "pusher_state u"] pusher_frame_trans [of s t u]
    by (simp add: run_result_def submits_def)
qed

lemma push_loop_result:
  assumes "push_loop b len s = Some y" and "y = Inr (full, t)" and "clean s es"
  shows "GET_MASK (fregs t CACHE1_DMA_STATE) DMA_ERROR \<noteq> 0 \<and> \<not> full \<or> (\<exists>out. run_result b s es out t
    \<and> (if full then length es + length out = 128 else fregs t CACHE1_DMA_GET = fregs t CACHE1_DMA_PUT))"
  using assms
proof (induction arbitrary: es full t rule: push_loop.raw_induct [rotated, consumes 1])
  case (1 loop b len s y)
  from 1(2) [unfolded 1(3)] obtain r u where p: "pusher_turn b len s = Inr (r, u)"
    and n: "(if r = Full then oret True else if r = Stop then oret False else loop b len) u = Some (Inr (full, t))"
    by (auto simp: lift_apply elim!: obnd_eq_SomeE)
  from 1(4) p show ?case
  proof (cases rule: pusher_turn_cases)
    case (submit q out)
    then have "loop b len u = Some (Inr (full, t))" and "clean u (es @ out)" using n by (simp_all add: submits_def)
    from 1(1) [OF this(1) refl this(2)] show ?thesis
      using run_result_step [OF submit(4,3)] by (auto simp: add.assoc) (metis append_assoc length_append add.assoc)+
  next
    case full
    then show ?thesis using n run_result_refl [OF 1(4), of b] by auto
  next
    case idle
    then show ?thesis using n run_result_refl [OF 1(4), of b] by auto
  next
    case error
    then show ?thesis using n by simp
  qed
qed

abbreviation push_buffer :: "(u32 \<times> u32, 'a fifo_scheme) run" where
  "push_buffer s \<equiv> nv_dma_map (push_bit 4 (GET_MASK (fregs s CACHE1_DMA_INSTANCE) 0xFFFF)) s"

lemma nv_dma_map_run: "nv_dma_map a s = (if a < 0x100000
    then Inr (((rd32 (ramin s) (a + 8) AND 0xFFFFF000 OR GET_MASK (rd32 (ramin s) a) 0xFFF00000) AND 0x07FFFFFF, rd32 (ramin s) (a + 4)), s)
    else Inl AssertFailed)"
  by (simp add: nv_dma_map_def nv_dma_load_def run_simps Let_def)

lemma push_buffer_steady: "steady s t \<Longrightarrow> push_buffer s = Inr (bl, s) \<Longrightarrow> push_buffer t = Inr (bl, t)"
  by (auto simp: nv_dma_map_run steady_reg split: if_splits)

definition pusher_ok :: "'a fifo_scheme \<Rightarrow> bool" where
  "pusher_ok s \<longleftrightarrow> fregs s NV_PFIFO_MODE AND push_bit (unat (GET_MASK (fregs s CACHE1_PUSH1) 0x1F)) 1 \<noteq> 0
     \<and> GET_MASK (fregs s CACHE1_PUSH1) 0x100 = 1 \<and> GET_MASK (fregs s CACHE1_DMA_STATE) DMA_ERROR = 0"

lemma obnd_check: "obnd (lift (check c)) k s = (if c then k () s else Some (Inl AssertFailed))"
  by (simp add: obnd_def lift_def check_apply)

lemma obnd_reg: "obnd (lift (reg a)) k s = k (fregs s a) s"
  by (simp add: reg_def)

lemma pfifo_run_pusher_run:
  assumes "push_buffer s = Inr ((b, len), s)"
  shows "pfifo_run_pusher s = (if \<not> pusher_guard s then oret () s else if pusher_ok s then obnd (push_loop b len) (\<lambda>full. if full then oret () else
     obnd (lift (reg CACHE1_DMA_STATE)) (\<lambda>st. lift (check (GET_MASK st DMA_ERROR = 0)))) s else Some (Inl AssertFailed))"
  unfolding pfifo_run_pusher_def pusher_ok_def
  by (simp add: obnd_check obnd_reg
      obnd_lift_step [of "nv_dma_map (push_bit 4 (GET_MASK (fregs s CACHE1_DMA_INSTANCE) 0xFFFF))", OF assms])

lemma pfifo_run_pusher_result:
  assumes p: "pfifo_run_pusher s = Some (Inr ((), t))" and r: "clean s es" and m: "push_buffer s = Inr ((b, len), s)"
  shows "\<exists>out. run_result b s es out t"
proof (cases "pusher_guard s")
  case True
  with p have "obnd (push_loop b len) (\<lambda>full. if full then oret () else
     obnd (lift (reg CACHE1_DMA_STATE)) (\<lambda>st. lift (check (GET_MASK st DMA_ERROR = 0)))) s = Some (Inr ((), t))"
    unfolding pfifo_run_pusher_run [OF m] by (simp split: if_splits)
  then obtain full u where l: "push_loop b len s = Some (Inr (full, u))"
    and u: "(if full then oret () else obnd (lift (reg CACHE1_DMA_STATE)) (\<lambda>st. lift (check (GET_MASK st DMA_ERROR = 0)))) u = Some (Inr ((), t))"
    by (elim obnd_eq_SomeE)
  have "u = t \<and> (full \<or> GET_MASK (fregs u CACHE1_DMA_STATE) DMA_ERROR = 0)"
    using u by (auto simp: reg_def check_apply lift_apply split: if_splits)
  then show ?thesis using push_loop_result [OF l refl r] by auto
next
  case False
  then have "t = s" using p by (simp add: pfifo_run_pusher_def)
  then show ?thesis using run_result_refl [OF r] by blast
qed

text \<open>Runs of the pusher, turns of the puller and writes of \<open>DMA_PUT\<close> by the guest, in any order.\<close>

inductive fifo_step :: "'a fifo_scheme \<Rightarrow> 'a fifo_scheme \<Rightarrow> bool" where
  pusher: "pfifo_run_pusher s = Some (Inr ((), t)) \<Longrightarrow> fifo_step s t"
| puller: "pull_turn s = Inr (got, t) \<Longrightarrow> fifo_step s t"
| put: "fifo_step s (s\<lparr>fregs := (fregs s)(CACHE1_DMA_PUT := v)\<rparr>)"

definition in_step :: "'a fifo_scheme \<Rightarrow> (u32 \<times> u32 \<times> u32) list \<Rightarrow> u32 \<Rightarrow> 'a fifo_scheme \<Rightarrow> (u32 \<times> u32 \<times> u32) list \<Rightarrow> (u32 \<times> u32 \<times> u32) list \<Rightarrow> bool" where
  "in_step s es b t pend out \<longleftrightarrow> steady s t \<and> clean t pend \<and> runs_to (vram s) b (pusher_state s) out (pusher_state t)
     \<and> pg_calls t @ pg_calls_of s pend = pg_calls s @ pg_calls_of s (es @ out)
     \<and> dmaConstLoadShadow t = note_constants out (dmaConstLoadShadow s)"

lemma pull_turn_result:
  assumes p: "pull_turn s = Inr (got, t)" and r: "clean s es"
  shows "\<exists>pend. puller_frame s t \<and> clean t pend \<and> pg_calls t @ pg_calls_of s pend = pg_calls s @ pg_calls_of s es"
proof (cases "GET_MASK (fregs s CACHE1_PULL0) 1 = 0 \<or> es = []")
  case True
  then have "t = s" using p r unfolding pull_turn_def by (auto simp: reg_def run_simps clean_def cache_def)
  then show ?thesis using r by (auto simp: puller_frame_def)
next
  case False
  then obtain sub m w fs where es: "es = (sub, m, w) # fs" by (cases es) auto
  have c: "cache s ((sub, m, w) # fs)" using r es by (simp add: clean_def)
  from False have on: "GET_MASK (fregs s CACHE1_PULL0) 1 \<noteq> 0" by simp
  from pull_turn_run [OF c on] obtain u where u: "pull_turn s = (if accepts s (sub, m, w) then Inr (True, handled sub m w u) else Inl AssertFailed)"
    "cache u fs" "puller_frame s u" "pg_calls u = pg_calls s" by blast
  then have t: "t = handled sub m w u" using p by (simp split: if_splits)
  have f: "puller_frame s t" unfolding t using puller_frame_trans [OF u(3) handled_frame] .
  have "pg_calls t = pg_calls s @ pg_of s (sub, m, w)"
    using u(3,4) pg_of_steady [of s u] by (simp add: t handled_def puller_frame_def)
  moreover have "clean t fs" using u(2) puller_frame_state [OF f] r by (simp add: clean_def t)
  ultimately show ?thesis using f es by auto
qed

lemma in_step_step:
  assumes i: "in_step s es b t pend out" and m: "push_buffer s = Inr ((b, len), s)" and st: "fifo_step t u"
  shows "\<exists>pend' out'. in_step s es b u pend' out'"
  using st
proof cases
  case pusher
  have "push_buffer t = Inr ((b, len), t)" and v: "vram t = vram s"
    using push_buffer_steady [OF _ m] i by (simp_all add: in_step_def steady_def)
  from pfifo_run_pusher_result [OF pusher _ this(1)] i obtain o2 where o: "run_result b t pend o2 u" by (auto simp: in_step_def)
  then have "in_step s es b u (pend @ o2) (out @ o2)"
    using i frame_steady [of t u] steady_trans [of s t u] runs_to_trans [of "vram s" b "pusher_state s" out "pusher_state t" o2 "pusher_state u"]
    by (auto simp: in_step_def run_result_def v pusher_frame_def simp flip: append_assoc)
  then show ?thesis by blast
next
  case (puller got)
  from pull_turn_result [OF puller] i obtain pend' where p: "puller_frame t u" "clean u pend'"
    "pg_calls u @ pg_calls_of t pend' = pg_calls t @ pg_calls_of t pend" by (auto simp: in_step_def)
  then have "in_step s es b u pend' out"
    using i steady_trans [of s t u] puller_frame_state [OF p(1)] pg_calls_of_steady [of s t] by (simp add: in_step_def puller_frame_def)
  then show ?thesis by blast
next
  case (put v)
  have "pusher_state u = pusher_state t" "clean u pend" "steady t u"
    using i unfolding put by (simp_all add: pusher_state_def in_step_def clean_def cache_upd steady_def)
  then have "in_step s es b u pend out" using i steady_trans [of s t u] unfolding in_step_def by (simp add: put)
  then show ?thesis by blast
qed

section \<open>A push buffer that ends\<close>

text \<open>The pusher gets to the word at \<open>put\<close> without an error and inside the DMA object and guest memory.\<close>

inductive reaches_put :: "mem \<Rightarrow> u32 \<Rightarrow> u32 \<Rightarrow> nat \<Rightarrow> u32 \<Rightarrow> pstate \<Rightarrow> (u32 \<times> u32 \<times> u32) list \<Rightarrow> pstate \<Rightarrow> bool" for mm b len n put where
  reaches_end: "pos p = put \<Longrightarrow> reaches_put mm b len n put p [] p"
| reaches_step: "pos p \<noteq> put \<Longrightarrow> pos p < len \<Longrightarrow> unat b + unat (pos p) + 4 \<le> n \<Longrightarrow> decode (rd32 mm (b + pos p)) p = Some (q, out)
    \<Longrightarrow> reaches_put mm b len n put q outs r \<Longrightarrow> reaches_put mm b len n put p (out @ outs) r"

lemma push_loop_total:
  assumes "reaches_put mm b len n put p out q" and "clean s es" and "length es + length out \<le> 128"
    and "p = pusher_state s" and "mm = vram s" and "n = vram_size s" and "put = fregs s CACHE1_DMA_PUT"
  shows "\<exists>t. push_loop b len s = Some (Inr (False, t)) \<and> run_result b s es out t \<and> pusher_state t = q"
  using assms
proof (induction arbitrary: s es rule: reaches_put.induct)
  case (reaches_end p)
  then have "pusher_turn b len s = Inr (Stop, s)" by (simp add: pusher_turn_def reg_run run_simps)
  then show ?case using reaches_end run_result_refl [of s es b] by (simp add: push_loop.simps [of b len s] obnd_lift_step)
next
  case (reaches_step p q out outs r)
  have d: "decode (rd32 (vram s) (b + fregs s CACHE1_DMA_GET)) (pusher_state s) = Some (q, out)" using reaches_step by simp
  have f: "fetch b len s" using reaches_step by (simp add: fetch_def)
  obtain t where t: "pusher_turn b len s = Inr (Again, t)" "submits s es q out t"
    using pusher_turn_ok [OF f reaches_step.prems(1) d] reaches_step.prems(2) by auto
  have "\<exists>u. push_loop b len t = Some (Inr (False, u)) \<and> run_result b t (es @ out) outs u \<and> pusher_state u = r"
    using t(2) reaches_step.prems by (intro reaches_step.IH) (simp_all add: submits_def pusher_frame_def)
  then obtain u where u: "push_loop b len t = Some (Inr (False, u))" "run_result b t (es @ out) outs u" "pusher_state u = r" by blast
  have "push_loop b len s = Some (Inr (False, u))" using t(1) u(1) by (simp add: push_loop.simps [of b len s] obnd_lift_step)
  then show ?case using run_result_step [OF d t(2) u(2)] u(3) by blast
qed

definition bound :: "'a fifo_scheme \<Rightarrow> u32 set" where
  "bound s = {sub. sub < 8 \<and> GET_MASK (fregs s CACHE1_ENGINE) (engine_mask sub) = ENGINE_GRAPHICS}"

text \<open>Every method is to a subchannel that has been bound, and every handle is in the table.\<close>

fun deliverable :: "'a fifo_scheme \<Rightarrow> u32 set \<Rightarrow> (u32 \<times> u32 \<times> u32) list \<Rightarrow> bool" where
  "deliverable s B [] = True"
| "deliverable s B ((sub, m, w) # es) \<longleftrightarrow>
     (m = 0 \<or> 0x180 \<le> m \<and> m < 0x200 \<longrightarrow> ramht_hash w s * 8 < ramht_size s \<and> rh_valid (ramht_entry_at s (ramht_hash w s)))
     \<and> (if m = 0 then rh_engine (ramht_entry_at s (ramht_hash w s)) = ENGINE_GRAPHICS \<and> sub < 8 \<and> deliverable s (insert sub B) es
        else 0x100 \<le> m \<and> sub \<in> B \<and> deliverable s B es)"

lemma deliverable_steady: "steady s t \<Longrightarrow> deliverable t B es = deliverable s B es"
  by (induction s B es rule: deliverable.induct) (simp_all add: ramht_steady)

lemma deliverable_mono: "deliverable s B es \<Longrightarrow> B \<subseteq> B' \<Longrightarrow> deliverable s B' es"
  by (induction s B es arbitrary: B' rule: deliverable.induct) (auto split: if_splits, blast+)

lemma engine_mask_field: "engine_mask sub = push_bit (4 * unat sub) (mask 2)"
  by (simp add: engine_mask_def mask_eq_exp_minus_1)

lemma engine_bind:
  assumes "sub < 8" and "sub' < 8"
  shows "GET_MASK (SET_MASK v (engine_mask sub) 1) (engine_mask sub') = (if sub' = sub then 1 else GET_MASK v (engine_mask sub'))"
proof -
  have u: "unat sub < 8" "unat sub' < 8" using assms by (simp_all add: word_less_nat_alt)
  then have k: "4 * unat sub + 2 \<le> 32" "4 * unat sub' + 2 \<le> 32" by simp_all
  have t: "take_bit 2 (1 :: u32) = 1" by simp
  show ?thesis
  proof (cases "sub' = sub")
    case True
    have "take_bit 2 (drop_bit (4 * unat sub) (SET_MASK v (push_bit (4 * unat sub) (mask 2)) 1)) = take_bit 2 (1 :: u32)"
      using k by (intro bit_word_eqI) (auto simp: bit_simps bit_SET_field)
    then show ?thesis unfolding engine_mask_field using True k by (simp add: GET_field)
  next
    case False
    then have "unat sub' \<noteq> unat sub" by (simp add: word_unat_eq_iff)
    then have "4 * unat sub' + 2 \<le> 4 * unat sub \<or> 4 * unat sub + 4 \<le> 4 * unat sub'" by linarith
    then have "take_bit 2 (drop_bit (4 * unat sub') (SET_MASK v (push_bit (4 * unat sub) (mask 2)) 1)) = take_bit 2 (drop_bit (4 * unat sub') v)"
      using k by (intro bit_word_eqI) (auto simp: bit_simps bit_SET_field)
    then show ?thesis unfolding engine_mask_field using False k by (simp add: GET_field)
  qed
qed

lemma bound_handled: "accepts s (sub, m, w) \<Longrightarrow> (if m = 0 then insert sub (bound s) else bound s) \<subseteq> bound (handled sub m w u)"
  if "fregs u CACHE1_ENGINE = fregs s CACHE1_ENGINE"
  using that by (auto simp: bound_def handled_def accepts_def Let_def engine_bind)

lemma deliverable_accepts: "deliverable s (bound s) ((sub, m, w) # es) \<Longrightarrow> accepts s (sub, m, w)"
  by (auto simp: accepts_def bound_def Let_def split: if_splits)

lemma deliverable_rest: "deliverable s B ((sub, m, w) # es) \<Longrightarrow> deliverable s (if m = 0 then insert sub B else B) es"
  by (simp split: if_splits)

lemma pull_turn_empty: "cache s [] \<Longrightarrow> pull_turn s = Inr (False, s)"
  by (simp add: pull_turn_def cache_def reg_def run_simps)

lemma pull_turn_deliver:
  assumes "cache s ((sub, m, w) # es)" and "GET_MASK (fregs s CACHE1_PULL0) 1 \<noteq> 0" and "deliverable s (bound s) ((sub, m, w) # es)"
  obtains t where "pull_turn s = Inr (True, t)" and "cache t es" and "puller_frame s t" and "deliverable t (bound t) es"
    and "pg_calls t = pg_calls s @ pg_of s (sub, m, w)" and "GET_MASK (fregs t CACHE1_PULL0) 1 \<noteq> 0"
proof -
  have a: "accepts s (sub, m, w)" using deliverable_accepts assms(3) by blast
  obtain u where u: "pull_turn s = Inr (True, handled sub m w u)" "cache u es" "puller_frame s u" "pg_calls u = pg_calls s"
      "fregs u CACHE1_ENGINE = fregs s CACHE1_ENGINE"
    using pull_turn_run [OF assms(1,2)] a by (metis (full_types))
  define t where "t = handled sub m w u"
  have f: "puller_frame s t" unfolding t_def using puller_frame_trans [OF u(3) handled_frame] .
  then have st: "steady s t" by (simp add: puller_frame_def)
  have "deliverable t (bound t) es"
    unfolding deliverable_steady [OF st]
    using deliverable_mono [OF deliverable_rest [OF assms(3)] bound_handled [OF u(5) a]] by (simp add: t_def)
  moreover have "pg_calls t = pg_calls s @ pg_of s (sub, m, w)"
    using u(3,4) pg_of_steady [of s u] by (simp add: t_def handled_def puller_frame_def)
  ultimately show ?thesis
    using that [of t] u(1,2) f assms(2) steady_reg [OF st] by (simp add: t_def)
qed

lemma pfifo_run_puller_total:
  assumes "cache s es" and "GET_MASK (fregs s CACHE1_PULL0) 1 \<noteq> 0" and "deliverable s (bound s) es"
  shows "\<exists>t. pfifo_run_puller s = Some (Inr ((), t)) \<and> cache t [] \<and> puller_frame s t \<and> pg_calls t = pg_calls s @ pg_calls_of s es"
  using assms
proof (induction es arbitrary: s)
  case Nil
  then show ?case
    using pull_turn_empty [of s] by (simp add: pfifo_run_puller.simps [of s] obnd_lift_step puller_frame_def)
next
  case (Cons e es)
  obtain sub m w where e: "e = (sub, m, w)" by (cases e) auto
  from pull_turn_deliver [OF Cons.prems [unfolded e]] obtain t where t: "pull_turn s = Inr (True, t)" "cache t es" "puller_frame s t"
    "deliverable t (bound t) es" "pg_calls t = pg_calls s @ pg_of s e" "GET_MASK (fregs t CACHE1_PULL0) 1 \<noteq> 0"
    unfolding e by metis
  have st: "steady s t" using t(3) by (simp add: puller_frame_def)
  from Cons.IH [OF t(2,6,4)] show ?case
    using t(1,5) puller_frame_trans [OF t(3)] pg_calls_of_steady [OF st] by (auto simp: pfifo_run_puller.simps [of s] obnd_lift_step)
qed

section \<open>CACHE1 as a queue\<close>

definition cache_put :: "'a fifo_scheme \<Rightarrow> u32 \<times> u32 \<times> u32 \<Rightarrow> 'a fifo_scheme \<Rightarrow> bool" where
  "cache_put s e t \<longleftrightarrow> fregs s CACHE1_STATUS AND STATUS_HIGH_MARK = 0 \<and> (\<exists>w. push_data w s = Inr ((), t)
     \<and> e = (GET_MASK (fregs s CACHE1_DMA_STATE) SUBCHANNEL, push_bit 2 (GET_MASK (fregs s CACHE1_DMA_STATE) METHOD), w))"

definition cache_take :: "'a fifo_scheme \<Rightarrow> u32 \<times> u32 \<times> u32 \<Rightarrow> 'a fifo_scheme \<Rightarrow> bool" where
  "cache_take s e t \<longleftrightarrow> pull_turn s = Inr (True, t) \<and> slot s (unat (fregs s CACHE1_GET) div 4) = e"

lemma cache_head: "cache s (e # es) \<Longrightarrow> slot s (unat (fregs s CACHE1_GET) div 4) = e"
  by (elim cache_popped) (simp add: unat_of_nat_len del: of_nat_mult)

interpretation cache1: live_queue cache cache_put cache_take "Some 128"
  "\<lambda>s es. GET_MASK (fregs s CACHE1_PULL0) 1 \<noteq> 0 \<and> deliverable s (bound s) es"
proof unfold_locales
  fix s :: "'a fifo_scheme" and q e t
  assume c: "cache s q" and "cache_put s e t"
  then obtain w where w: "fregs s CACHE1_STATUS AND STATUS_HIGH_MARK = 0" "push_data w s = Inr ((), t)"
    "e = (GET_MASK (fregs s CACHE1_DMA_STATE) SUBCHANNEL, push_bit 2 (GET_MASK (fregs s CACHE1_DMA_STATE) METHOD), w)"
    by (auto simp: cache_put_def)
  have "length q < 128" using c w(1) by (auto simp: cache_def)
  from cache_pushed [OF c this, of w] push_data_run [of _ s w] w(2,3) show "cache t (q @ [e])" by (metis Inr_inject prod.inject)
next
  fix s :: "'a fifo_scheme" and q e t
  assume c: "cache s q" and t: "cache_take s e t"
  have on: "GET_MASK (fregs s CACHE1_PULL0) 1 \<noteq> 0" using t by (auto simp: cache_take_def pull_turn_def reg_def run_simps)
  obtain sub m w es where q: "q = (sub, m, w) # es" using pull_turn_empty [of s] c t by (cases q) (auto simp: cache_take_def)
  from pull_turn_run [OF c [unfolded q] on] obtain u where
    "pull_turn s = (if accepts s (sub, m, w) then Inr (True, handled sub m w u) else Inl AssertFailed)" "cache u es" by blast
  then show "\<exists>q'. q = e # q' \<and> cache t q'"
    using t cache_head [OF c [unfolded q]] by (auto simp: cache_take_def q split: if_splits)
next
  fix s :: "'a fifo_scheme" and q
  assume "cache s q"
  then show "case Some 128 of None \<Rightarrow> True | Some n \<Rightarrow> length q \<le> n" by (simp add: cache_def)
next
  fix s :: "'a fifo_scheme" and e es
  assume w: "GET_MASK (fregs s CACHE1_PULL0) 1 \<noteq> 0 \<and> deliverable s (bound s) (e # es)" and c: "cache s (e # es)"
  obtain sub m v where e: "e = (sub, m, v)" by (cases e) auto
  from pull_turn_deliver [OF c [unfolded e]] w e cache_head [OF c]
  show "\<exists>t. cache_take s e t \<and> GET_MASK (fregs t CACHE1_PULL0) 1 \<noteq> 0 \<and> deliverable t (bound t) es"
    unfolding cache_take_def by metis
qed

lemma cache_interleaved:
  assumes "cache s es" and "queue_run cache_put cache_take s ops t"
  shows "\<exists>es'. cache t es' \<and> es @ puts ops = takes ops @ es'" and "length es + length (puts ops) \<le> length (takes ops) + 128"
  using cache1.run_order [OF assms(2,1)] cache1.run_bounded [OF assms(2,1)] by auto

section \<open>Properties\<close>

text \<open>C1: However runs of the pusher, turns of the puller and new values of \<open>DMA_PUT\<close> are interleaved, the calls of PGRAPH followed by those of
  the entries in CACHE1 are the methods that the language of the push buffer gives, in order, none lost and none twice; the cache never holds
  more than 128; the pusher's state is that of the decoder, and the shadow of the constant pointer is that of the methods pushed.\<close>

theorem nv_fifo_order:
  assumes "fifo_step\<^sup>*\<^sup>* s t" and "clean s es" and "push_buffer s = Inr ((b, len), s)"
  shows "\<exists>pend out. cache t pend \<and> length pend \<le> 128 \<and> runs_to (vram s) b (pusher_state s) out (pusher_state t)
     \<and> pg_calls t @ pg_calls_of s pend = pg_calls s @ pg_calls_of s (es @ out)
     \<and> dmaConstLoadShadow t = note_constants out (dmaConstLoadShadow s)"
proof -
  from assms(1) have "\<exists>pend out. in_step s es b t pend out"
  proof induction
    case base
    have "in_step s es b s es []" using assms(2) by (simp add: in_step_def runs_refl)
    then show ?case by blast
  qed (use in_step_step [OF _ assms(3)] in blast)
  then show ?thesis unfolding in_step_def clean_def cache_def by blast
qed

text \<open>C4: A push buffer that gets to \<open>DMA_PUT\<close> without an error and submits at most 128 methods, each to a bound subchannel, is delivered:
  the pusher returns with \<open>DMA_GET\<close> there, the puller returns with the cache empty, and PGRAPH has been called for each method in order.\<close>

theorem nv_fifo_delivers:
  assumes "clean s []" and "push_buffer s = Inr ((b, len), s)" and "pusher_guard s" and "pusher_ok s"
    and "reaches_put (vram s) b len (vram_size s) (fregs s CACHE1_DMA_PUT) (pusher_state s) out q" and "length out \<le> 128"
    and "GET_MASK (fregs s CACHE1_PULL0) 1 \<noteq> 0" and "deliverable s (bound s) out"
  shows "\<exists>t u. pfifo_run_pusher s = Some (Inr ((), t)) \<and> pfifo_run_puller t = Some (Inr ((), u)) \<and> cache u [] \<and> pusher_state u = q
     \<and> pg_calls u = pg_calls s @ pg_calls_of s out"
proof -
  obtain t where t: "push_loop b len s = Some (Inr (False, t))" "run_result b s [] out t" "pusher_state t = q"
    using push_loop_total [OF assms(5,1)] assms(6) by auto
  have f: "pusher_frame s t" "cache t out" "GET_MASK (fregs t CACHE1_DMA_STATE) DMA_ERROR = 0" using t(2) by (simp_all add: run_result_def clean_def)
  have e: "bound t = bound s" "pg_calls t = pg_calls s" using f(1) by (simp_all add: pusher_frame_def bound_def)
  note st = frame_steady [OF f(1)]
  have "pfifo_run_pusher s = Some (Inr ((), t))"
    using f(3) assms(3,4) by (simp add: pfifo_run_pusher_run [OF assms(2)] obnd_step [of "push_loop b len", OF t(1)] obnd_reg lift_apply check_apply)
  moreover obtain u where "pfifo_run_puller t = Some (Inr ((), u))" "cache u []" "puller_frame t u" "pg_calls u = pg_calls t @ pg_calls_of t out"
    using pfifo_run_puller_total [OF f(2)] assms(7,8) steady_reg [OF st] deliverable_steady [OF st] e by auto
  ultimately show ?thesis using puller_frame_state [of t u] t(3) e pg_calls_of_steady [OF st] by auto
qed

text \<open>A jump, a bind and two methods.\<close>

definition fifo_example :: fifo where
  "fifo_example = \<lparr>fregs = (\<lambda>_. 0)(CACHE1_PUSH0 := 1, CACHE1_PUSH1 := 0x100, CACHE1_DMA_PUSH := 1, NV_PFIFO_MODE := 1, CACHE1_DMA_PUT := 0x114,
       CACHE1_PULL0 := 1, CACHE1_STATUS := STATUS_LOW_MARK, CACHE1_DMA_INSTANCE := 0x10),
     fifo_pending = 0, fifo_enabled = 0,
     ramin = wr32 0x108 0x2000 (wr32 0x104 0x1000 (wr32 0x3C 0x80011234 (\<lambda>_. 0))),
     vram = wr32 0x2000 0x101 (wr32 0x2100 0x40000 (wr32 0x2104 7 (wr32 0x2108 0x80100 (wr32 0x210C 11 (wr32 0x2110 22 (\<lambda>_. 0)))))),
     vram_size = 0x4000, dmaConstLoadShadow = 0, pg_calls = []\<rparr>"

lemma ffs_values: "ffs 1 = 1" "ffs 0x100 = 9" "ffs 0xFFFF = 1" "ffs 0x1000 = 13"
  using ffs_field [of 1 0] ffs_field [of 1 8] ffs_field [of 16 0] ffs_field [of 1 12]
  by (simp_all add: mask_eq_exp_minus_1 push_bit_eq_mult)

lemma fifo_example_words:
  "rd32 (vram fifo_example) 0x2000 = 0x101" "rd32 (vram fifo_example) 0x2100 = 0x40000" "rd32 (vram fifo_example) 0x2104 = 7"
  "rd32 (vram fifo_example) 0x2108 = 0x80100" "rd32 (vram fifo_example) 0x210C = 11" "rd32 (vram fifo_example) 0x2110 = 22"
  "rd32 (ramin fifo_example) 0x100 = 0" "rd32 (ramin fifo_example) 0x104 = 0x1000" "rd32 (ramin fifo_example) 0x108 = 0x2000"
  "rd32 (ramin fifo_example) 0x38 = 0" "rd32 (ramin fifo_example) 0x3C = 0x80011234"
  by (simp_all add: fifo_example_def rd32_def wr32_def)

lemma fifo_example_clean:
  "clean fifo_example []" "push_buffer fifo_example = Inr ((0x2000, 0x1000), fifo_example)" "pusher_guard fifo_example" "pusher_ok fifo_example"
proof -
  show "clean fifo_example []"
    by (auto simp: clean_def cache_def fifo_example_def GET_MASK_def intro: exI [of _ 0])
  have "push_bit 4 (GET_MASK (fregs fifo_example CACHE1_DMA_INSTANCE) 0xFFFF) = 0x100"
    by (simp add: fifo_example_def GET_MASK_def ffs_values)
  then show "push_buffer fifo_example = Inr ((0x2000, 0x1000), fifo_example)"
    by (simp add: nv_dma_map_run fifo_example_words) (simp add: GET_MASK_def)
  show "pusher_guard fifo_example" "pusher_ok fifo_example"
    by (simp_all add: pusher_guard_def pusher_ok_def fifo_example_def GET_MASK_def ffs_values)
qed

abbreviation example_at :: "u32 \<Rightarrow> u32 \<Rightarrow> u32 \<Rightarrow> pstate" where
  "example_at p m c \<equiv> \<lparr>pos = p, meth = m, cnt = c, incr = True, subch = 0, ret_to = None\<rparr>"

lemma fifo_example_reaches:
  "reaches_put (vram fifo_example) 0x2000 0x1000 (vram_size fifo_example) (fregs fifo_example CACHE1_DMA_PUT) (pusher_state fifo_example)
     [(0, 0, 7), (0, 0x100, 11), (0, 0x104, 22)] (example_at 0x114 0x108 0)"
proof -
  let ?d = "\<lambda>p. decode (rd32 (vram fifo_example) (0x2000 + pos p)) p"
  have c: "pusher_state fifo_example = example_at 0 0 0" "vram_size fifo_example = 0x4000" "fregs fifo_example CACHE1_DMA_PUT = 0x114"
    by (simp_all add: pusher_state_def unpack_def fifo_example_def GET_MASK_def)
  have d: "?d (example_at 0 0 0) = Some (example_at 0x100 0 0, [])" "?d (example_at 0x100 0 0) = Some (example_at 0x104 0 1, [])"
    "?d (example_at 0x104 0 1) = Some (example_at 0x108 4 0, [(0, 0, 7)])" "?d (example_at 0x108 4 0) = Some (example_at 0x10C 0x100 2, [])"
    "?d (example_at 0x10C 0x100 2) = Some (example_at 0x110 0x104 1, [(0, 0x100, 11)])"
    "?d (example_at 0x110 0x104 1) = Some (example_at 0x114 0x108 0, [(0, 0x104, 22)])"
    by (simp_all add: decode_def Let_def fifo_example_words)
  note step = reaches_step [of _ "0x114 :: u32" "0x1000 :: u32" "0x2000 :: u32" "0x4000 :: nat" "vram fifo_example"]
  have "reaches_put (vram fifo_example) 0x2000 0x1000 0x4000 0x114 (example_at 0 0 0)
      ([] @ [] @ [(0, 0, 7)] @ [] @ [(0, 0x100, 11)] @ [(0, 0x104, 22)] @ []) (example_at 0x114 0x108 0)"
    by (rule reaches_step, simp, simp, simp, rule d(1), rule reaches_step, simp, simp, simp, rule d(2), rule reaches_step, simp, simp, simp, rule d(3),
        rule reaches_step, simp, simp, simp, rule d(4), rule reaches_step, simp, simp, simp, rule d(5), rule reaches_step, simp, simp, simp, rule d(6),
        rule reaches_end, simp)
  then show ?thesis unfolding c by simp
qed

lemma fifo_example_deliverable: "deliverable fifo_example (bound fifo_example) [(0, 0, 7), (0, 0x100, 11), (0, 0x104, 22)]"
  and fifo_example_calls: "pg_calls_of fifo_example [(0, 0, 7), (0, 0x100, 11), (0, 0x104, 22)]
    = [Switch_context 0, Handle_method 0 0 0x12340, Handle_method 0 0x100 11, Handle_method 0 0x104 22]"
proof -
  have r: "fregs fifo_example NV_PFIFO_RAMHT = 0" "fregs fifo_example CACHE1_PUSH1 = 0x100" by (simp_all add: fifo_example_def)
  have y: "ramht_size fifo_example = 0x1000" by (simp add: ramht_size_def r GET_MASK_def)
  have "hash_handle 32 11 7 0 = 7" 
    using hash_handle.simps(2) [of 31 11 7 0] hash_handle.simps(2) [of 30 11 0 7] by simp
  then have x: "ramht_hash 7 fifo_example = 7" by (simp add: ramht_hash_def y r ffs_values Let_def GET_MASK_def)
  have h: "ramht_hash 7 fifo_example * 8 < ramht_size fifo_example" "rh_valid (ramht_entry_at fifo_example (ramht_hash 7 fifo_example))"
    "rh_engine (ramht_entry_at fifo_example (ramht_hash 7 fifo_example)) = 1"
    "rh_channel (ramht_entry_at fifo_example (ramht_hash 7 fifo_example)) = 0" "rh_instance (ramht_entry_at fifo_example (ramht_hash 7 fifo_example)) = 0x12340"
    unfolding x y ramht_entry_at_def Let_def r by (simp_all add: GET_MASK_def fifo_example_words)
  show "deliverable fifo_example (bound fifo_example) [(0, 0, 7), (0, 0x100, 11), (0, 0x104, 22)]" by (simp add: h)
  show "pg_calls_of fifo_example [(0, 0, 7), (0, 0x100, 11), (0, 0x104, 22)]
    = [Switch_context 0, Handle_method 0 0 0x12340, Handle_method 0 0x100 11, Handle_method 0 0x104 22]"
    by (simp add: pg_of_def Let_def h)
qed

theorem nv_fifo_delivers_witness:
  "\<exists>t u. pfifo_run_pusher fifo_example = Some (Inr ((), t)) \<and> pfifo_run_puller t = Some (Inr ((), u)) \<and> cache u [] \<and> pusher_state u = example_at 0x114 0x108 0
     \<and> pg_calls u = [Switch_context 0, Handle_method 0 0 0x12340, Handle_method 0 0x100 11, Handle_method 0 0x104 22]"
proof -
  have "pg_calls fifo_example = []" "GET_MASK (fregs fifo_example CACHE1_PULL0) 1 \<noteq> 0"
    by (simp_all add: fifo_example_def GET_MASK_def ffs_values)
  then show ?thesis
    using nv_fifo_delivers [OF fifo_example_clean fifo_example_reaches _ _ fifo_example_deliverable, unfolded fifo_example_calls] by simp
qed

theorem nv_fifo_order_witness:
  "\<exists>pend out. cache (fifo_example\<lparr>fregs := (fregs fifo_example)(CACHE1_DMA_PUT := 0x108)\<rparr>) pend \<and> length pend \<le> 128
     \<and> runs_to (vram fifo_example) 0x2000 (pusher_state fifo_example) out (pusher_state (fifo_example\<lparr>fregs := (fregs fifo_example)(CACHE1_DMA_PUT := 0x108)\<rparr>))"
  using nv_fifo_order [OF r_into_rtranclp [where r = fifo_step, OF fifo_step.put] fifo_example_clean(1,2)] by blast

end
