(* ===== verification/Nv_Methods.thy ===== *)
theory Nv_Methods
  imports Nv_Fifo
begin

text \<open>
  The methods of the 3D class by what they mean to the draw path that renders on the host
  (\<open>src/devices/video/EmuNV2A_PFIFO.cpp\<close>): which ones begin a draw, and which ones a scan of the push buffer
  may pass over because their effect is mirrored by the patched Direct3D functions.
\<close>

section \<open>Method numbers\<close>

abbreviation (input) NV097_ARRAY_ELEMENT16 :: u32 where "NV097_ARRAY_ELEMENT16 \<equiv> 0x1800"
abbreviation (input) NV097_ARRAY_ELEMENT32 :: u32 where "NV097_ARRAY_ELEMENT32 \<equiv> 0x1808"
abbreviation (input) NV097_BACK_END_WRITE_SEMAPHORE_RELEASE :: u32 where "NV097_BACK_END_WRITE_SEMAPHORE_RELEASE \<equiv> 0x1D70"
abbreviation (input) NV097_DRAW_ARRAYS :: u32 where "NV097_DRAW_ARRAYS \<equiv> 0x1810"
abbreviation (input) NV097_INLINE_ARRAY :: u32 where "NV097_INLINE_ARRAY \<equiv> 0x1818"
abbreviation (input) NV097_NO_OPERATION :: u32 where "NV097_NO_OPERATION \<equiv> 0x100"
abbreviation (input) NV097_SET_ALPHA_FUNC :: u32 where "NV097_SET_ALPHA_FUNC \<equiv> 0x33C"
abbreviation (input) NV097_SET_ALPHA_REF :: u32 where "NV097_SET_ALPHA_REF \<equiv> 0x340"
abbreviation (input) NV097_SET_ALPHA_TEST_ENABLE :: u32 where "NV097_SET_ALPHA_TEST_ENABLE \<equiv> 0x300"
abbreviation (input) NV097_SET_BEGIN_END :: u32 where "NV097_SET_BEGIN_END \<equiv> 0x17FC"
abbreviation (input) NV097_SET_BLEND_ENABLE :: u32 where "NV097_SET_BLEND_ENABLE \<equiv> 0x304"
abbreviation (input) NV097_SET_BLEND_FUNC_DFACTOR :: u32 where "NV097_SET_BLEND_FUNC_DFACTOR \<equiv> 0x348"
abbreviation (input) NV097_SET_BLEND_FUNC_SFACTOR :: u32 where "NV097_SET_BLEND_FUNC_SFACTOR \<equiv> 0x344"
abbreviation (input) NV097_SET_CLIP_MAX :: u32 where "NV097_SET_CLIP_MAX \<equiv> 0x398"
abbreviation (input) NV097_SET_CLIP_MIN :: u32 where "NV097_SET_CLIP_MIN \<equiv> 0x394"
abbreviation (input) NV097_SET_COLOR_CLEAR_VALUE :: u32 where "NV097_SET_COLOR_CLEAR_VALUE \<equiv> 0x1D90"
abbreviation (input) NV097_SET_COMBINER_ALPHA_ICW :: u32 where "NV097_SET_COMBINER_ALPHA_ICW \<equiv> 0x260"
abbreviation (input) NV097_SET_COMBINER_ALPHA_OCW :: u32 where "NV097_SET_COMBINER_ALPHA_OCW \<equiv> 0xAA0"
abbreviation (input) NV097_SET_COMBINER_COLOR_ICW :: u32 where "NV097_SET_COMBINER_COLOR_ICW \<equiv> 0xAC0"
abbreviation (input) NV097_SET_COMBINER_COLOR_OCW :: u32 where "NV097_SET_COMBINER_COLOR_OCW \<equiv> 0x1E40"
abbreviation (input) NV097_SET_COMBINER_CONTROL :: u32 where "NV097_SET_COMBINER_CONTROL \<equiv> 0x1E60"
abbreviation (input) NV097_SET_COMBINER_FACTOR0 :: u32 where "NV097_SET_COMBINER_FACTOR0 \<equiv> 0xA60"
abbreviation (input) NV097_SET_COMBINER_FACTOR1 :: u32 where "NV097_SET_COMBINER_FACTOR1 \<equiv> 0xA80"
abbreviation (input) NV097_SET_COMBINER_SPECULAR_FOG_CW0 :: u32 where "NV097_SET_COMBINER_SPECULAR_FOG_CW0 \<equiv> 0x288"
abbreviation (input) NV097_SET_COMBINER_SPECULAR_FOG_CW1 :: u32 where "NV097_SET_COMBINER_SPECULAR_FOG_CW1 \<equiv> 0x28C"
abbreviation (input) NV097_SET_COMPRESS_ZBUFFER_EN :: u32 where "NV097_SET_COMPRESS_ZBUFFER_EN \<equiv> 0x1D80"
abbreviation (input) NV097_SET_CONTROL0 :: u32 where "NV097_SET_CONTROL0 \<equiv> 0x290"
abbreviation (input) NV097_SET_CULL_FACE :: u32 where "NV097_SET_CULL_FACE \<equiv> 0x39C"
abbreviation (input) NV097_SET_CULL_FACE_ENABLE :: u32 where "NV097_SET_CULL_FACE_ENABLE \<equiv> 0x308"
abbreviation (input) NV097_SET_DEPTH_FUNC :: u32 where "NV097_SET_DEPTH_FUNC \<equiv> 0x354"
abbreviation (input) NV097_SET_DEPTH_MASK :: u32 where "NV097_SET_DEPTH_MASK \<equiv> 0x35C"
abbreviation (input) NV097_SET_DEPTH_TEST_ENABLE :: u32 where "NV097_SET_DEPTH_TEST_ENABLE \<equiv> 0x30C"
abbreviation (input) NV097_SET_EYE_VECTOR :: u32 where "NV097_SET_EYE_VECTOR \<equiv> 0x181C"
abbreviation (input) NV097_SET_FOG_COLOR :: u32 where "NV097_SET_FOG_COLOR \<equiv> 0x2A8"
abbreviation (input) NV097_SET_SEMAPHORE_OFFSET :: u32 where "NV097_SET_SEMAPHORE_OFFSET \<equiv> 0x1D6C"
abbreviation (input) NV097_SET_SHADER_CLIP_PLANE_MODE :: u32 where "NV097_SET_SHADER_CLIP_PLANE_MODE \<equiv> 0x17F8"
abbreviation (input) NV097_SET_SHADER_OTHER_STAGE_INPUT :: u32 where "NV097_SET_SHADER_OTHER_STAGE_INPUT \<equiv> 0x1E78"
abbreviation (input) NV097_SET_SPECULAR_FOG_FACTOR :: u32 where "NV097_SET_SPECULAR_FOG_FACTOR \<equiv> 0x1E20"
abbreviation (input) NV097_SET_STENCIL_FUNC :: u32 where "NV097_SET_STENCIL_FUNC \<equiv> 0x364"
abbreviation (input) NV097_SET_STENCIL_FUNC_MASK :: u32 where "NV097_SET_STENCIL_FUNC_MASK \<equiv> 0x36C"
abbreviation (input) NV097_SET_STENCIL_FUNC_REF :: u32 where "NV097_SET_STENCIL_FUNC_REF \<equiv> 0x368"
abbreviation (input) NV097_SET_STENCIL_OP_FAIL :: u32 where "NV097_SET_STENCIL_OP_FAIL \<equiv> 0x370"
abbreviation (input) NV097_SET_STENCIL_OP_ZFAIL :: u32 where "NV097_SET_STENCIL_OP_ZFAIL \<equiv> 0x374"
abbreviation (input) NV097_SET_STENCIL_OP_ZPASS :: u32 where "NV097_SET_STENCIL_OP_ZPASS \<equiv> 0x378"
abbreviation (input) NV097_SET_STENCIL_TEST_ENABLE :: u32 where "NV097_SET_STENCIL_TEST_ENABLE \<equiv> 0x32C"
abbreviation (input) NV097_SET_SURFACE_CLIP_HORIZONTAL :: u32 where "NV097_SET_SURFACE_CLIP_HORIZONTAL \<equiv> 0x200"
abbreviation (input) NV097_SET_SURFACE_CLIP_VERTICAL :: u32 where "NV097_SET_SURFACE_CLIP_VERTICAL \<equiv> 0x204"
abbreviation (input) NV097_SET_SURFACE_COLOR_OFFSET :: u32 where "NV097_SET_SURFACE_COLOR_OFFSET \<equiv> 0x210"
abbreviation (input) NV097_SET_SURFACE_FORMAT :: u32 where "NV097_SET_SURFACE_FORMAT \<equiv> 0x208"
abbreviation (input) NV097_SET_SURFACE_PITCH :: u32 where "NV097_SET_SURFACE_PITCH \<equiv> 0x20C"
abbreviation (input) NV097_SET_SURFACE_ZETA_OFFSET :: u32 where "NV097_SET_SURFACE_ZETA_OFFSET \<equiv> 0x214"
abbreviation (input) NV097_SET_TEXGEN_Q :: u32 where "NV097_SET_TEXGEN_Q \<equiv> 0x3CC"
abbreviation (input) NV097_SET_TEXGEN_R :: u32 where "NV097_SET_TEXGEN_R \<equiv> 0x3C8"
abbreviation (input) NV097_SET_TEXGEN_S :: u32 where "NV097_SET_TEXGEN_S \<equiv> 0x3C0"
abbreviation (input) NV097_SET_TEXGEN_T :: u32 where "NV097_SET_TEXGEN_T \<equiv> 0x3C4"
abbreviation (input) NV097_SET_TEXTURE_CONTROL0 :: u32 where "NV097_SET_TEXTURE_CONTROL0 \<equiv> 0x1B0C"
abbreviation (input) NV097_SET_TEXTURE_CONTROL1 :: u32 where "NV097_SET_TEXTURE_CONTROL1 \<equiv> 0x1B10"
abbreviation (input) NV097_SET_TEXTURE_FILTER :: u32 where "NV097_SET_TEXTURE_FILTER \<equiv> 0x1B14"
abbreviation (input) NV097_SET_TEXTURE_IMAGE_RECT :: u32 where "NV097_SET_TEXTURE_IMAGE_RECT \<equiv> 0x1B1C"
abbreviation (input) NV097_SET_TEXTURE_OFFSET :: u32 where "NV097_SET_TEXTURE_OFFSET \<equiv> 0x1B00"
abbreviation (input) NV097_SET_TEXTURE_SET_BUMP_ENV_MAT :: u32 where "NV097_SET_TEXTURE_SET_BUMP_ENV_MAT \<equiv> 0x1B28"
abbreviation (input) NV097_SET_TEXTURE_SET_BUMP_ENV_OFFSET :: u32 where "NV097_SET_TEXTURE_SET_BUMP_ENV_OFFSET \<equiv> 0x1B3C"
abbreviation (input) NV097_SET_TEXTURE_SET_BUMP_ENV_SCALE :: u32 where "NV097_SET_TEXTURE_SET_BUMP_ENV_SCALE \<equiv> 0x1B38"
abbreviation (input) NV097_SET_TRANSFORM_EXECUTION_MODE :: u32 where "NV097_SET_TRANSFORM_EXECUTION_MODE \<equiv> 0x1E94"
abbreviation (input) NV097_SET_TRANSFORM_PROGRAM :: u32 where "NV097_SET_TRANSFORM_PROGRAM \<equiv> 0xB00"
abbreviation (input) NV097_SET_TRANSFORM_PROGRAM_CXT_WRITE_EN :: u32 where "NV097_SET_TRANSFORM_PROGRAM_CXT_WRITE_EN \<equiv> 0x1E98"
abbreviation (input) NV097_SET_TRANSFORM_PROGRAM_LOAD :: u32 where "NV097_SET_TRANSFORM_PROGRAM_LOAD \<equiv> 0x1E9C"
abbreviation (input) NV097_SET_TRANSFORM_PROGRAM_START :: u32 where "NV097_SET_TRANSFORM_PROGRAM_START \<equiv> 0x1EA0"
abbreviation (input) NV097_SET_VERTEX_DATA2F_M :: u32 where "NV097_SET_VERTEX_DATA2F_M \<equiv> 0x1880"
abbreviation (input) NV097_SET_VIEWPORT_OFFSET :: u32 where "NV097_SET_VIEWPORT_OFFSET \<equiv> 0xA20"
abbreviation (input) NV097_SET_VIEWPORT_SCALE :: u32 where "NV097_SET_VIEWPORT_SCALE \<equiv> 0xAF0"
abbreviation (input) NV097_SET_WINDOW_CLIP_HORIZONTAL :: u32 where "NV097_SET_WINDOW_CLIP_HORIZONTAL \<equiv> 0x2C0"
abbreviation (input) NV097_SET_WINDOW_CLIP_TYPE :: u32 where "NV097_SET_WINDOW_CLIP_TYPE \<equiv> 0x2B4"
abbreviation (input) NV097_SET_WINDOW_CLIP_VERTICAL :: u32 where "NV097_SET_WINDOW_CLIP_VERTICAL \<equiv> 0x2E0"
abbreviation (input) NV097_SET_ZMIN_MAX_CONTROL :: u32 where "NV097_SET_ZMIN_MAX_CONTROL \<equiv> 0x1D78"
abbreviation (input) NV097_WAIT_FOR_IDLE :: u32 where "NV097_WAIT_FOR_IDLE \<equiv> 0x110"

section \<open>Classes of methods\<close>

text \<open>\<open>n\<close> methods of four bytes from \<open>base\<close>, and \<open>n\<close> methods \<open>step\<close> bytes apart.\<close>

definition method_range :: "u32 \<Rightarrow> u32 \<Rightarrow> u32 \<Rightarrow> bool" where
  "method_range m base n \<longleftrightarrow> base \<le> m \<and> m < base + n * 4"

definition method_stride :: "u32 \<Rightarrow> u32 \<Rightarrow> u32 \<Rightarrow> u32 \<Rightarrow> bool" where
  "method_stride m base sz step \<longleftrightarrow> base \<le> m \<and> m - base < sz \<and> (m - base) mod step = 0"

definition texture_switch_method :: "u32 \<Rightarrow> bool" where
  "texture_switch_method m \<longleftrightarrow> (\<exists>stage\<in>set [0, 1, 2, 3]. let b = NV097_SET_TEXTURE_OFFSET + stage * 0x40 in m = b \<or> m = b + 4)"

definition texture_state_method :: "u32 \<Rightarrow> bool" where
  "texture_state_method m \<longleftrightarrow> list_ex (\<lambda>base. method_stride m base (4 * 0x40) 0x40)
       [NV097_SET_TEXTURE_CONTROL0, NV097_SET_TEXTURE_CONTROL1, NV097_SET_TEXTURE_FILTER, NV097_SET_TEXTURE_IMAGE_RECT,
        NV097_SET_TEXTURE_SET_BUMP_ENV_SCALE, NV097_SET_TEXTURE_SET_BUMP_ENV_OFFSET]
     \<or> (let delta = m - NV097_SET_TEXTURE_SET_BUMP_ENV_MAT in
          NV097_SET_TEXTURE_SET_BUMP_ENV_MAT \<le> m \<and> delta < 4 * 0x40 \<and> delta mod 0x40 < 0x10 \<and> delta mod 4 = 0)"

definition viewport_method :: "u32 \<Rightarrow> bool" where
  "viewport_method m \<longleftrightarrow> method_range m NV097_SET_VIEWPORT_OFFSET 4 \<or> method_range m NV097_SET_VIEWPORT_SCALE 4
     \<or> m = NV097_SET_CLIP_MIN \<or> m = NV097_SET_CLIP_MAX"

definition window_clip_method :: "u32 \<Rightarrow> bool" where
  "window_clip_method m \<longleftrightarrow> m = NV097_SET_WINDOW_CLIP_TYPE
     \<or> list_ex (\<lambda>base. method_stride m base (8 * 4) 4) [NV097_SET_WINDOW_CLIP_HORIZONTAL, NV097_SET_WINDOW_CLIP_VERTICAL]"

definition eye_vector_method :: "u32 \<Rightarrow> bool" where
  "eye_vector_method m \<longleftrightarrow> method_stride m NV097_SET_EYE_VECTOR (3 * 4) 4"

definition texgen_method :: "u32 \<Rightarrow> bool" where
  "texgen_method m \<longleftrightarrow> list_ex (\<lambda>base. method_stride m base 0x40 0x10)
     [NV097_SET_TEXGEN_S, NV097_SET_TEXGEN_T, NV097_SET_TEXGEN_R, NV097_SET_TEXGEN_Q]"

definition mirrored_method :: "u32 \<Rightarrow> bool" where
  "mirrored_method m \<longleftrightarrow> viewport_method m \<or> texgen_method m
     \<or> m \<in> set [NV097_SET_SHADER_CLIP_PLANE_MODE, NV097_SET_SHADER_OTHER_STAGE_INPUT, 0x1E74]
     \<or> m \<in> set [
         NV097_SET_ALPHA_TEST_ENABLE, NV097_SET_ALPHA_FUNC, NV097_SET_BLEND_ENABLE, NV097_WAIT_FOR_IDLE, NV097_SET_CULL_FACE_ENABLE,
         NV097_SET_CULL_FACE, NV097_SET_ALPHA_REF, NV097_SET_BLEND_FUNC_SFACTOR, NV097_SET_BLEND_FUNC_DFACTOR, NV097_SET_DEPTH_FUNC,
         NV097_SET_DEPTH_MASK, NV097_SET_STENCIL_TEST_ENABLE, NV097_SET_STENCIL_FUNC, NV097_SET_STENCIL_FUNC_REF, NV097_SET_STENCIL_FUNC_MASK,
         NV097_SET_STENCIL_OP_FAIL, NV097_SET_STENCIL_OP_ZFAIL, NV097_SET_STENCIL_OP_ZPASS, NV097_SET_FOG_COLOR, NV097_SET_TRANSFORM_EXECUTION_MODE,
         NV097_SET_TRANSFORM_PROGRAM_START, NV097_SET_SURFACE_PITCH, NV097_BACK_END_WRITE_SEMAPHORE_RELEASE, NV097_SET_ZMIN_MAX_CONTROL, 0x1D7C,
         NV097_SET_COMPRESS_ZBUFFER_EN, NV097_SET_COMPRESS_ZBUFFER_EN + 4, NV097_SET_COLOR_CLEAR_VALUE, NV097_SET_SURFACE_COLOR_OFFSET,
         NV097_SET_SURFACE_ZETA_OFFSET, NV097_SET_CONTROL0, NV097_SET_DEPTH_TEST_ENABLE, NV097_SET_SURFACE_FORMAT, NV097_SET_SURFACE_CLIP_HORIZONTAL,
         NV097_SET_SURFACE_CLIP_VERTICAL]
     \<or> window_clip_method m \<or> eye_vector_method m \<or> texture_switch_method m \<or> texture_state_method m"

definition inline_vertex_method :: "u32 \<Rightarrow> bool" where
  "inline_vertex_method m \<longleftrightarrow> NV097_SET_VERTEX_DATA2F_M \<le> m \<and> m < NV097_SET_TEXTURE_OFFSET"

definition combiner_method :: "u32 \<Rightarrow> bool" where
  "combiner_method m \<longleftrightarrow> list_ex (\<lambda>(base, n). method_range m base n)
       [(NV097_SET_SPECULAR_FOG_FACTOR, 2), (NV097_SET_COMBINER_ALPHA_ICW, 8), (NV097_SET_COMBINER_COLOR_ICW, 8),
        (NV097_SET_COMBINER_ALPHA_OCW, 8), (NV097_SET_COMBINER_COLOR_OCW, 8), (NV097_SET_COMBINER_FACTOR0, 8), (NV097_SET_COMBINER_FACTOR1, 8)]
     \<or> m \<in> set [NV097_SET_COMBINER_SPECULAR_FOG_CW0, NV097_SET_COMBINER_SPECULAR_FOG_CW1, NV097_SET_COMBINER_CONTROL]"

definition transform_program_method :: "u32 \<Rightarrow> bool" where
  "transform_program_method m \<longleftrightarrow> m = NV097_SET_TRANSFORM_PROGRAM_CXT_WRITE_EN \<or> m = NV097_SET_TRANSFORM_PROGRAM_LOAD
     \<or> method_range m NV097_SET_TRANSFORM_PROGRAM 32"

definition non_blocking_method :: "u32 \<Rightarrow> bool" where
  "non_blocking_method m \<longleftrightarrow> m = NV097_NO_OPERATION \<or> inline_vertex_method m \<or> transform_program_method m
     \<or> combiner_method m \<or> mirrored_method m"

definition draw_method :: "u32 \<Rightarrow> bool" where
  "draw_method m \<longleftrightarrow> m = NV097_SET_BEGIN_END \<or> m = NV097_DRAW_ARRAYS \<or> m = NV097_ARRAY_ELEMENT16 \<or> m = NV097_ARRAY_ELEMENT32
     \<or> m = NV097_INLINE_ARRAY"

end
