(* ===== verification/Nv_Kicks.thy ===== *)
theory Nv_Kicks
  imports Nv_Methods
begin

text \<open>
  The scan of the push buffer ahead of the command FIFO (\<open>src/devices/video/EmuNV2A_PFIFO.cpp\<close>,
  \<open>EmuNV2A_USER.cpp\<close>): every advance of \<open>DMA_PUT\<close> is queued in a ring of ranges, and before a draw the
  pending ranges are parsed for vertex shader constants, which are laid over a copy of the constants
  PGRAPH holds (\<open>EmuNV2A_PGRAPH.cpp\<close>).

  The ring is a list of 4096 ranges with read and write indices. Logging and the counters of the
  diagnostic log are left out; interlocked operations are plain assignments.
\<close>

section \<open>State\<close>

record kick_range =
  rg_start :: u32
  rg_end :: u32
  rg_dma_get :: u32
  rg_dma_state :: u32
  rg_dma_subroutine :: u32
  rg_const_load :: u32

record kicks = fifo +
  kick_ranges :: "kick_range list"
  kick_read :: nat
  kick_write :: nat
  high_water :: nat
  overflow_count :: nat
  parsedConstants :: "nat \<Rightarrow> nat \<Rightarrow> u32"
  parsedSlotDirty :: "nat \<Rightarrow> bool"
  vsh_dirty_any :: bool
  submission_pending :: bool

abbreviation MAX_RANGES :: nat where "MAX_RANGES \<equiv> 4096"

section \<open>The ring\<close>

definition pending_depth :: "nat \<Rightarrow> nat \<Rightarrow> nat" where
  "pending_depth read write = (if read \<le> write then write - read else write + MAX_RANGES - read)"

definition note_pending_depth :: "nat \<Rightarrow> nat \<Rightarrow> 'a kicks_scheme \<Rightarrow> 'a kicks_scheme" where
  "note_pending_depth read write s = s\<lparr>high_water := max (high_water s) (pending_depth read write)\<rparr>"

definition notify_dma_put_write :: "u32 \<Rightarrow> u32 \<Rightarrow> u32 \<Rightarrow> u32 \<Rightarrow> u32 \<Rightarrow> 'a kicks_scheme \<Rightarrow> 'a kicks_scheme" where
  "notify_dma_put_write oldValue newValue dmaGet dmaState dmaSubroutine s =
     (if oldValue = newValue then s else
      let write = kick_write s; read = kick_read s; nxt = (write + 1) mod MAX_RANGES in
      if nxt = read then
        let last = (write + MAX_RANGES - 1) mod MAX_RANGES in
        s\<lparr>overflow_count := overflow_count s + 1, high_water := MAX_RANGES - 1,
          kick_ranges := (kick_ranges s)[last := (kick_ranges s ! last)\<lparr>rg_end := newValue\<rparr>]\<rparr>
      else
        let start = (if oldValue < dmaGet \<and> dmaGet \<le> newValue then dmaGet else oldValue) in
        note_pending_depth read nxt (s\<lparr>
          kick_ranges := (kick_ranges s)[write := \<lparr>rg_start = start, rg_end = newValue, rg_dma_get = dmaGet, rg_dma_state = dmaState,
            rg_dma_subroutine = dmaSubroutine, rg_const_load = dmaConstLoadShadow s\<rparr>],
          kick_write := nxt\<rparr>))"

section \<open>The register window of the guest\<close>

abbreviation (input) NV_USER_DMA_PUT :: u32 where "NV_USER_DMA_PUT \<equiv> 0x40"
abbreviation (input) NV_USER_DMA_GET :: u32 where "NV_USER_DMA_GET \<equiv> 0x44"
abbreviation (input) NV_USER_REF :: u32 where "NV_USER_REF \<equiv> 0x48"

text \<open>The checks both operations begin with.\<close>

definition user_channel :: "u32 \<Rightarrow> (unit, 'a fifo_scheme) run" where
  "user_channel addr = (let ch = drop_bit 16 addr in bnd (check (ch < 32)) (\<lambda>_.
     bnd (reg NV_PFIFO_MODE) (\<lambda>modes. bnd (check (modes AND push_bit (unat ch) 1 \<noteq> 0)) (\<lambda>_.
     bnd (reg CACHE1_PUSH1) (\<lambda>p. check (ch = GET_MASK p 0x1F))))))"

definition USER_read :: "u32 \<Rightarrow> (u32, 'a fifo_scheme) run" where
  "USER_read addr = bnd (user_channel addr) (\<lambda>_. let a = addr AND 0xFFFF in
     if a = NV_USER_DMA_PUT then reg CACHE1_DMA_PUT
     else if a = NV_USER_DMA_GET then reg CACHE1_DMA_GET
     else if a = NV_USER_REF then reg CACHE1_REF
     else ret 0)"

definition USER_write :: "u32 \<Rightarrow> u32 \<Rightarrow> (unit, 'a kicks_scheme) run" where
  "USER_write addr v = bnd (user_channel addr) (\<lambda>_. let a = addr AND 0xFFFF in
     if a = NV_USER_DMA_PUT then
       bnd (modify (\<lambda>s. let old = fregs s CACHE1_DMA_PUT in if old = v then s else
         notify_dma_put_write old v (fregs s CACHE1_DMA_GET) (fregs s CACHE1_DMA_STATE) (fregs s CACHE1_DMA_SUBROUTINE)
           (s\<lparr>submission_pending := True\<rparr>))) (\<lambda>_.
       set_reg CACHE1_DMA_PUT v)
     else if a = NV_USER_DMA_GET then set_reg CACHE1_DMA_GET v
     else if a = NV_USER_REF then set_reg CACHE1_REF v
     else fail AssertFailed)"

section \<open>The parser\<close>

record parse =
  p_pos :: u32
  p_type :: u32
  p_method :: u32
  p_count :: u32
  const_load :: int
  p_ret :: u32
  p_sub :: bool
  p_found :: bool
  p_boundary :: bool
  p_other :: bool
  p_first_other :: u32
  p_consts :: "nat \<Rightarrow> nat \<Rightarrow> u32"
  p_dirty :: "nat \<Rightarrow> bool"

text \<open>A word of a method, the address having been advanced.\<close>

definition parse_constant :: "u32 \<Rightarrow> parse \<Rightarrow> parse" where
  "parse_constant word st = (let m = p_method st; c = const_load st in
     if m = NV097_SET_TRANSFORM_CONSTANT_LOAD then st\<lparr>const_load := sint word\<rparr>
     else case constant_slot m of
       Some slot \<Rightarrow>
         if 0 \<le> c \<and> c < 192 then
           st\<lparr>p_consts := (p_consts st)(nat c := (p_consts st (nat c))(unat (slot mod 4) := word)), p_dirty := (p_dirty st)(nat c := True),
             p_found := True, const_load := (if slot mod 4 = 3 then c + 1 else c)\<rparr>
         else if non_blocking_method m then st
         else st\<lparr>p_other := True, p_first_other := (if p_first_other st = 0xFFFFFFFF then m else p_first_other st)\<rparr>
     | None \<Rightarrow>
         if non_blocking_method m then st
         else st\<lparr>p_other := True, p_first_other := (if p_first_other st = 0xFFFFFFFF then m else p_first_other st)\<rparr>)"

definition parse_data :: "u32 \<Rightarrow> parse \<Rightarrow> parse" where
  "parse_data word st = (let st' = parse_constant word st in
     st'\<lparr>p_method := (if p_type st = 0 then p_method st + 4 else p_method st), p_count := p_count st - 1,
       p_boundary := (p_boundary st \<or> draw_method (p_method st))\<rparr>)"

definition parse_command :: "u32 \<Rightarrow> parse \<Rightarrow> parse" where
  "parse_command word st =
     (if word AND 0xE0000003 = 0x20000000 then st\<lparr>p_pos := word AND 0x1FFFFFFF\<rparr>
      else if word AND 3 = 1 then st\<lparr>p_pos := word AND 0xFFFFFFFC\<rparr>
      else if word AND 3 = 2 then
        if p_sub st then st else st\<lparr>p_ret := p_pos st, p_sub := True, p_pos := word AND 0xFFFFFFFC\<rparr>
      else if word = 0x20000 then if p_sub st then st\<lparr>p_pos := p_ret st, p_sub := False\<rparr> else st
      else if word AND 0xE0030003 = 0 then st\<lparr>p_method := word AND 0x1FFC, p_count := drop_bit 18 word AND 0x7FF, p_type := 0\<rparr>
      else if word AND 0xE0030003 = 0x40000000 then st\<lparr>p_method := word AND 0x1FFC, p_count := drop_bit 18 word AND 0x7FF, p_type := 1\<rparr>
      else st)"

text \<open>The words up to \<open>e\<close> of the push buffer at \<open>b\<close>; the budget bounds a buffer that jumps in a circle.\<close>

fun parse_loop :: "nat \<Rightarrow> mem \<Rightarrow> nat \<Rightarrow> u32 \<Rightarrow> u32 \<Rightarrow> u32 \<Rightarrow> parse \<Rightarrow> fault + parse" where
  "parse_loop 0 mm n b len e st = Inr st"
| "parse_loop (Suc k) mm n b len e st =
     (if p_pos st = e \<or> len \<le> p_pos st then Inr st
      else if n < unat b + unat (p_pos st) + 4 then Inl OutOfBounds
      else let word = rd32 mm (b + p_pos st); st1 = st\<lparr>p_pos := p_pos st + 4\<rparr> in
        if p_count st \<noteq> 0 then
          let st2 = parse_data word st1 in if draw_method (p_method st) then Inr st2 else parse_loop k mm n b len e st2
        else parse_loop k mm n b len e (parse_command word st1))"

abbreviation PARSE_BUDGET :: nat where "PARSE_BUDGET \<equiv> 65536"

definition parse_start :: "u32 \<Rightarrow> u32 \<Rightarrow> u32 \<Rightarrow> u32 \<Rightarrow> 'a kicks_scheme \<Rightarrow> parse" where
  "parse_start start dmaState dmaSubroutine dmaConstLoad s =
     \<lparr>p_pos = start, p_type = GET_MASK dmaState METHOD_TYPE, p_method = push_bit 2 (GET_MASK dmaState METHOD),
      p_count = GET_MASK dmaState METHOD_COUNT,
      const_load = (if dmaConstLoad < NV2A_VERTEXSHADER_CONSTANTS then uint dmaConstLoad else - 1),
      p_ret = dmaSubroutine AND 0xFFFFFFFC, p_sub = (GET_MASK dmaSubroutine SUBROUTINE_STATE \<noteq> 0),
      p_found = False, p_boundary = False, p_other = False, p_first_other = 0xFFFFFFFF,
      p_consts = parsedConstants s, p_dirty = parsedSlotDirty s\<rparr>"

definition parse_dma_state :: "u32 \<Rightarrow> parse \<Rightarrow> u32" where
  "parse_dma_state dmaState st = SET_MASK (SET_MASK (SET_MASK dmaState METHOD_TYPE (p_type st)) METHOD (drop_bit 2 (p_method st)))
     METHOD_COUNT (p_count st)"

definition parse_dma_subroutine :: "parse \<Rightarrow> u32" where
  "parse_dma_subroutine st = SET_MASK (p_ret st AND 0xFFFFFFFC) SUBROUTINE_STATE (if p_sub st then 1 else 0)"

definition parse_const_load :: "parse \<Rightarrow> u32" where
  "parse_const_load st = (if 0 \<le> const_load st then word_of_int (const_load st) else NV2A_VERTEXSHADER_CONSTANTS)"

record parsed =
  ps_found :: bool
  ps_state :: u32
  ps_subroutine :: u32
  ps_const_load :: u32
  ps_boundary :: bool
  ps_other :: bool
  ps_first_other :: u32
  ps_end :: u32

definition extract_constants_inline_range :: "u32 \<Rightarrow> u32 \<Rightarrow> u32 \<Rightarrow> u32 \<Rightarrow> u32 \<Rightarrow> (parsed, 'a kicks_scheme) run" where
  "extract_constants_inline_range start e dmaState dmaSubroutine dmaConstLoad =
     bnd (reg CACHE1_DMA_INSTANCE) (\<lambda>i. bnd (nv_dma_map (push_bit 4 (GET_MASK i 0xFFFF))) (\<lambda>(b, len).
     if start = e then
       ret \<lparr>ps_found = False, ps_state = dmaState, ps_subroutine = dmaSubroutine, ps_const_load = dmaConstLoad,
         ps_boundary = False, ps_other = False, ps_first_other = 0xFFFFFFFF, ps_end = start\<rparr>
     else
       bnd (\<lambda>s. case parse_loop PARSE_BUDGET (vram s) (vram_size s) b len e (parse_start start dmaState dmaSubroutine dmaConstLoad s) of
           Inl f \<Rightarrow> Inl f
         | Inr st \<Rightarrow> Inr (st, s\<lparr>parsedConstants := p_consts st, parsedSlotDirty := p_dirty st, vsh_dirty_any := (vsh_dirty_any s \<or> p_found st)\<rparr>)) (\<lambda>st.
       ret \<lparr>ps_found = p_found st, ps_state = parse_dma_state dmaState st, ps_subroutine = parse_dma_subroutine st,
         ps_const_load = parse_const_load st, ps_boundary = p_boundary st, ps_other = p_other st, ps_first_other = p_first_other st,
         ps_end = p_pos st\<rparr>)))"

section \<open>Consuming the pending ranges\<close>

definition can_reseed_parse_state :: "u32 \<Rightarrow> u32 \<Rightarrow> u32 \<Rightarrow> u32 \<Rightarrow> bool" where
  "can_reseed_parse_state start dmaGet dmaState dmaSubroutine \<longleftrightarrow> start = dmaGet
     \<or> GET_MASK dmaState DMA_ERROR = 0 \<and> GET_MASK dmaState METHOD_COUNT = 0 \<and> GET_MASK dmaSubroutine SUBROUTINE_STATE = 0"

record consume =
  c_read :: nat
  c_found :: bool
  c_boundary :: bool
  c_other :: bool
  c_reliable :: bool
  c_first_other :: u32
  c_state :: "(u32 \<times> u32 \<times> u32 \<times> u32) option"

text \<open>The local parse state is the DMA state, the subroutine, the constant pointer and the position expected next. A turn; the result tells
  whether the loop goes on.\<close>

definition consume_seed :: "kick_range \<Rightarrow> consume \<Rightarrow> (u32 \<times> u32 \<times> u32) option" where
  "consume_seed r c = (case c_state c of
       Some (st, sub, cl, expected) \<Rightarrow> if rg_start r = expected then Some (st, sub, cl)
         else if can_reseed_parse_state (rg_start r) (rg_dma_get r) (rg_dma_state r) (rg_dma_subroutine r)
         then Some (rg_dma_state r, rg_dma_subroutine r, rg_const_load r) else None
     | None \<Rightarrow> if can_reseed_parse_state (rg_start r) (rg_dma_get r) (rg_dma_state r) (rg_dma_subroutine r)
         then Some (rg_dma_state r, rg_dma_subroutine r, rg_const_load r) else None)"

definition consume_turn :: "consume \<Rightarrow> (bool \<times> consume, 'a kicks_scheme) run" where
  "consume_turn c = bnd (get (\<lambda>s. kick_ranges s ! c_read c)) (\<lambda>r.
     case consume_seed r c of None \<Rightarrow> ret (False, c\<lparr>c_reliable := False\<rparr>)
     | Some (st, sub, cl) \<Rightarrow>
         bnd (extract_constants_inline_range (rg_start r) (rg_end r) st sub cl) (\<lambda>p.
         let c1 = c\<lparr>c_found := (c_found c \<or> ps_found p), c_other := (c_other c \<or> ps_other p),
             c_first_other := (if c_first_other c = 0xFFFFFFFF \<and> ps_first_other p \<noteq> 0xFFFFFFFF then ps_first_other p else c_first_other c),
             c_state := Some (ps_state p, ps_subroutine p, ps_const_load p, ps_end p)\<rparr> in
         if ps_end p < rg_end r then
           bnd (modify (\<lambda>s. s\<lparr>kick_ranges := (kick_ranges s)[c_read c := \<lparr>rg_start = ps_end p, rg_end = rg_end r, rg_dma_get = ps_end p,
             rg_dma_state = ps_state p, rg_dma_subroutine = ps_subroutine p, rg_const_load = ps_const_load p\<rparr>]\<rparr>)) (\<lambda>_.
           ret (False, c1\<lparr>c_boundary := ps_boundary p\<rparr>))
         else ret (\<not> ps_boundary p, c1\<lparr>c_read := (c_read c + 1) mod MAX_RANGES, c_boundary := (c_boundary c \<or> ps_boundary p)\<rparr>)))"

text \<open>Every turn but the last moves \<open>read\<close> by one towards \<open>write\<close>, so 4096 turns are enough.\<close>

fun consume_loop :: "nat \<Rightarrow> nat \<Rightarrow> consume \<Rightarrow> (consume, 'a kicks_scheme) run" where
  "consume_loop 0 write c = ret c"
| "consume_loop (Suc k) write c = (if c_read c = write then ret c else
     bnd (consume_turn c) (\<lambda>(more, c'). if more then consume_loop k write c' else ret c'))"

text \<open>The result and what the out parameters get: more pending, draw boundary, other methods, reliable, first other method.\<close>

definition consume_pending_kicks :: "(bool \<times> bool \<times> bool \<times> bool \<times> bool \<times> u32, 'a kicks_scheme) run" where
  "consume_pending_kicks = bnd (modify (\<lambda>s. s\<lparr>parsedSlotDirty := \<lambda>_. False\<rparr>)) (\<lambda>_. bnd (get kick_write) (\<lambda>write. bnd (get kick_read) (\<lambda>read.
     if read = write then ret (False, False, False, False, True, 0xFFFFFFFF)
     else bnd (consume_loop MAX_RANGES write \<lparr>c_read = read, c_found = False, c_boundary = False, c_other = False, c_reliable = True,
         c_first_other = 0xFFFFFFFF, c_state = None\<rparr>) (\<lambda>c.
       bnd (modify (\<lambda>s. s\<lparr>kick_read := c_read c\<rparr>)) (\<lambda>_.
       ret (c_found c, c_read c \<noteq> write, c_boundary c, c_other c, c_reliable c, c_first_other c))))))"

section \<open>The copy for the host\<close>

definition overlay_parsed_constants :: "(nat \<Rightarrow> nat \<Rightarrow> u32) \<Rightarrow> 'a kicks_scheme \<Rightarrow> nat \<Rightarrow> nat \<Rightarrow> u32" where
  "overlay_parsed_constants local s i j = (if i < 192 \<and> j < 4 \<and> parsedSlotDirty s i then parsedConstants s i j else local i j)"

section \<open>The constants of PGRAPH\<close>

text \<open>The load pointer (a field of \<open>CHEOPS_OFFSET\<close>) and the constants.\<close>

abbreviation CONST_LD_PTR :: u32 where "CONST_LD_PTR \<equiv> 0xFF00"

definition pgraph_constant :: "u32 \<Rightarrow> u32 \<Rightarrow> u32 \<times> (nat \<Rightarrow> nat \<Rightarrow> u32) \<Rightarrow> (u32 \<times> (nat \<Rightarrow> nat \<Rightarrow> u32)) option" where
  "pgraph_constant m v = (\<lambda>(cheops, consts).
     if m = NV097_SET_TRANSFORM_CONSTANT_LOAD then
       if v < NV2A_VERTEXSHADER_CONSTANTS then Some (SET_MASK cheops CONST_LD_PTR v, consts) else None
     else case constant_slot m of
       Some slot \<Rightarrow> let c = GET_MASK cheops CONST_LD_PTR in
         if c < NV2A_VERTEXSHADER_CONSTANTS then
           Some (if slot mod 4 = 3 then SET_MASK cheops CONST_LD_PTR (c + 1) else cheops,
             consts(unat c := (consts (unat c))(unat (slot mod 4) := v)))
         else None
     | None \<Rightarrow> Some (cheops, consts))"

end
