(* ===== verification/Nv_KicksFacts.thy ===== *)
theory Nv_KicksFacts
  imports Nv_Kicks Nv_FifoRun
begin

text \<open>
  The scan of the push buffer reads the same language as the pusher: \<open>tracks\<close> relates the parser to the
  decoder, \<open>side\<close> its constants to those of PGRAPH. The two are kept by every word, hence by a range and
  by all the pending ranges; the ring of ranges is a bounded queue.
\<close>

section \<open>The parser and the decoder\<close>

lemma aligned_unat: "take_bit 2 x = 0 \<longleftrightarrow> 4 dvd unat (x :: u32)"
  by (simp add: word_unat_eq_iff unsigned_take_bit_eq take_bit_eq_mod dvd_eq_mod_eq_0 unat_mod)

lemma aligned_add4: "take_bit 2 x = 0 \<Longrightarrow> take_bit 2 (x + 4 :: u32) = 0"
  unfolding aligned_unat by (auto simp: unat_word_ariths intro: dvd_mod)

lemma aligned_mask: "take_bit 2 x = 0 \<Longrightarrow> x AND 0xFFFFFFFC = (x :: u32)"
  using bits_ident [of 2 x] by (simp add: AND_fields(3))

lemma aligned_AND [simp]: "take_bit 2 (x AND 0xFFFFFFFC :: u32) = 0" "take_bit 2 (x AND METHOD) = 0"
  by (simp_all add: AND_fields(1,3)) (rule bit_word_eqI, auto simp: bit_simps)+

lemma aligned_old_jump: "w AND 0xE0000003 = 0x20000000 \<Longrightarrow> take_bit 2 (w AND 0x1FFFFFFF :: u32) = 0"
proof -
  assume a: "w AND 0xE0000003 = 0x20000000"
  have "take_bit 2 (w AND 0x1FFFFFFF :: u32) = (w AND 0xE0000003) AND 3"
    by (simp add: take_bit_eq_mask mask_eq_exp_minus_1 ac_simps and.assoc)
  then show ?thesis using a by simp
qed

lemma method_mask:
  assumes "take_bit 2 x = 0" and "unat x < 0x2000"
  shows "x AND METHOD = (x :: u32)"
proof -
  have e: "push_bit 2 (drop_bit 2 x) = x" using bits_ident [of 2 x] assms(1) by simp
  have "unat (drop_bit 2 x) = unat x div 4" by (simp add: drop_bit_eq_div unat_div)
  then have "drop_bit 2 x < 2 ^ 11" using assms(2) by (simp add: word_less_nat_alt)
  then have "take_bit 11 (drop_bit 2 x) = drop_bit 2 x" by (intro take_bit_small) simp_all
  then show ?thesis unfolding AND_fields(2) [symmetric] using e by simp
qed

text \<open>A group of methods with increasing addresses stays below the end of the method space.\<close>

definition fits :: "pstate \<Rightarrow> bool" where
  "fits p \<longleftrightarrow> (cnt p \<noteq> 0 \<and> incr p \<longrightarrow> unat (meth p) + 4 * unat (cnt p) \<le> 0x2000)"

definition tracks :: "parse \<Rightarrow> pstate \<Rightarrow> bool" where
  "tracks st p \<longleftrightarrow> p_pos st = pos p \<and> take_bit 2 (pos p) = 0 \<and> p_count st = cnt p \<and> cnt p < 2048
     \<and> p_method st AND METHOD = meth p \<and> (cnt p \<noteq> 0 \<longrightarrow> p_method st = meth p) \<and> p_type st = (if incr p then 0 else 1)
     \<and> p_sub st = (ret_to p \<noteq> None) \<and> (\<forall>r. ret_to p = Some r \<longrightarrow> p_ret st = r \<and> take_bit 2 r = 0)"

lemma parse_constant_frame [simp]:
  "p_pos (parse_constant w st) = p_pos st" "p_count (parse_constant w st) = p_count st" "p_method (parse_constant w st) = p_method st"
  "p_type (parse_constant w st) = p_type st" "p_sub (parse_constant w st) = p_sub st" "p_ret (parse_constant w st) = p_ret st"
  "p_boundary (parse_constant w st) = p_boundary st"
  by (simp_all add: parse_constant_def Let_def split: option.splits)

lemma tracks_data:
  assumes t: "tracks st p" and f: "fits p" and c: "cnt p \<noteq> 0" and d: "decode w p = Some (q, out)"
  shows "tracks (parse_data w (st\<lparr>p_pos := p_pos st + 4\<rparr>)) q" and "fits q" and "out = [(subch p, p_method st, w)]"
proof -
  have q: "q = p\<lparr>pos := pos p + 4, meth := (if incr p then (meth p + 4) AND METHOD else meth p), cnt := cnt p - 1\<rparr>"
    and o: "out = [(subch p, meth p, w)]" using d c by (simp_all add: decode_def Let_def)
  have m: "p_method st = meth p" "take_bit 2 (meth p) = 0" using t c aligned_AND(2) [of "p_method st"] unfolding tracks_def by metis+
  show "out = [(subch p, p_method st, w)]" using o m by simp
  have n: "unat (cnt p - 1) = unat (cnt p) - 1" using c by (simp add: unat_minus_one)
  have "unat (cnt p) < 2048" using t by (simp add: tracks_def word_less_nat_alt)
  then have k: "cnt p - 1 < 2048" using n unfolding word_less_nat_alt by simp
  have i: "(meth p + 4) AND METHOD = meth p + 4 \<and> unat (meth p + 4) = unat (meth p) + 4" if "incr p" "cnt p \<noteq> 1"
  proof -
    have "unat (cnt p) \<noteq> 0" "unat (cnt p) \<noteq> 1" using c that(2) by (simp_all add: word_unat_eq_iff)
    then have "unat (meth p) + 8 \<le> 0x2000" using f c that(1) by (simp add: fits_def)
    then have u: "unat (meth p + 4) = unat (meth p) + 4" "unat (meth p) + 4 < 0x2000" by (simp_all add: unat_word_ariths)
    then show ?thesis using method_mask [of "meth p + 4"] aligned_add4 [OF m(2)] by simp
  qed
  have z: "cnt p - 1 = 0 \<longleftrightarrow> cnt p = 1" by simp
  have "p_method (parse_data w (st\<lparr>p_pos := p_pos st + 4\<rparr>)) = (if incr p then meth p + 4 else meth p)"
    using t m by (auto simp: parse_data_def Let_def tracks_def)
  moreover have "take_bit 2 (pos p + 4) = 0" using aligned_add4 t by (simp add: tracks_def)
  moreover have "meth p AND METHOD = meth p" using t m by (simp add: tracks_def)
  ultimately show "tracks (parse_data w (st\<lparr>p_pos := p_pos st + 4\<rparr>)) q"
    using t k i unfolding q by (auto simp: tracks_def parse_data_def Let_def z)
  have "0 < unat (cnt p)" using c by (simp add: unat_gt_0)
  then show "fits q" unfolding q fits_def using f c i n z by (auto simp: fits_def)
qed

lemma tracks_command:
  assumes t: "tracks st p" and c: "cnt p = 0" and d: "decode w p = Some (q, out)"
  shows "tracks (parse_command w (st\<lparr>p_pos := p_pos st + 4\<rparr>)) q" and "out = []"
proof -
  have k: "take_bit 2 (pos p + 4) = 0" using aligned_add4 t by (simp add: tracks_def)
  have h: "drop_bit 18 w AND 0x7FF = take_bit 11 (drop_bit 18 w)" by (simp add: take_bit_eq_mask mask_eq_exp_minus_1)
  have l: "take_bit 11 (drop_bit 18 w) < 2048" using GET_MASK_less(1) [of w] by (simp add: GET_MASK_fields)
  have i: "w AND METHOD AND METHOD = w AND METHOD" by (simp add: and.assoc)
  show "out = []" using d c by (auto simp: decode_def Let_def split: if_splits option.splits)
  have t': "p_pos st = pos p" "p_count st = 0" "p_method st AND METHOD = meth p" "p_type st = (if incr p then 0 else 1)"
    "p_sub st = (ret_to p \<noteq> None)" "\<And>r. ret_to p = Some r \<Longrightarrow> p_ret st = r \<and> take_bit 2 r = 0"
    using t c by (simp_all add: tracks_def)
  consider (jump) "w AND 0xE0000003 = 0x20000000" | (jump2) "w AND 0xE0000003 \<noteq> 0x20000000" "w AND 3 = 1"
    | (call) "w AND 0xE0000003 \<noteq> 0x20000000" "w AND 3 = 2"
    | (return) "w AND 0xE0000003 \<noteq> 0x20000000" "w AND 3 \<noteq> 1" "w AND 3 \<noteq> 2" "w = 0x20000"
    | (header) "w AND 0xE0000003 \<noteq> 0x20000000" "w AND 3 \<noteq> 1" "w AND 3 \<noteq> 2" "w \<noteq> 0x20000" by auto
  then show "tracks (parse_command w (st\<lparr>p_pos := p_pos st + 4\<rparr>)) q"
  proof cases
    case jump
    then have "q = p\<lparr>pos := w AND 0x1FFFFFFF\<rparr>" using d c by (simp add: decode_def)
    then show ?thesis using t aligned_old_jump [OF jump] jump by (simp add: tracks_def parse_command_def)
  next
    case jump2
    then have "q = p\<lparr>pos := w AND 0xFFFFFFFC\<rparr>" using d c by (simp add: decode_def)
    then show ?thesis using t jump2 by (simp add: tracks_def parse_command_def)
  next
    case call
    then have "ret_to p = None" "q = p\<lparr>pos := w AND 0xFFFFFFFC, ret_to := Some ((pos p + 4) AND 0xFFFFFFFC)\<rparr>"
      using d c by (simp_all add: decode_def split: if_splits)
    then show ?thesis using t call aligned_mask [OF k] k by (simp add: tracks_def parse_command_def)
  next
    case return
    then obtain r where "ret_to p = Some r" "q = p\<lparr>pos := r, ret_to := None\<rparr>"
      using d c by (auto simp: decode_def split: option.splits)
    then show ?thesis using t return by (simp add: tracks_def parse_command_def)
  next
    case header
    then have v: "w AND 0xE0030003 = 0 \<or> w AND 0xE0030003 = 0x40000000" using d c by (auto simp: decode_def Let_def split: if_splits)
    then have "q = p\<lparr>pos := pos p + 4, meth := w AND METHOD, cnt := take_bit 11 (drop_bit 18 w), incr := (w AND 0xE0030003 = 0),
        subch := take_bit 3 (drop_bit 13 w)\<rparr>" using d c header by (simp add: decode_def Let_def)
    then show ?thesis using t header v k l i by (auto simp: tracks_def parse_command_def h)
  qed
qed

section \<open>The constants\<close>

abbreviation LD :: "u32 \<Rightarrow> u32" where "LD v \<equiv> GET_MASK v CONST_LD_PTR"

lemma LD_set: "v \<le> 192 \<Longrightarrow> LD (SET_MASK x CONST_LD_PTR v) = v"
proof -
  assume "v \<le> 192"
  then have t: "take_bit 8 v = v" by (intro take_bit_small) (simp_all add: word_less_nat_alt word_le_nat_alt)
  have m: "CONST_LD_PTR = push_bit 8 (mask 8)" by (simp add: mask_eq_exp_minus_1 push_bit_eq_mult)
  have "GET_MASK (SET_MASK x (push_bit 8 (mask 8)) v) (push_bit 8 (mask 8)) = take_bit 8 v"
    by (simp add: GET_field) (rule bit_word_eqI, auto simp: bit_simps bit_SET_field)
  then show ?thesis using t m by simp
qed

text \<open>What the methods write, and the constants after them.\<close>

fun pgraph_constants :: "(u32 \<times> u32 \<times> u32) list \<Rightarrow> u32 \<times> (nat \<Rightarrow> nat \<Rightarrow> u32) \<Rightarrow> (u32 \<times> (nat \<Rightarrow> nat \<Rightarrow> u32)) option" where
  "pgraph_constants [] x = Some x"
| "pgraph_constants ((sub, m, v) # es) x = (case pgraph_constant m v x of None \<Rightarrow> None | Some y \<Rightarrow> pgraph_constants es y)"

definition constant_write :: "u32 \<Rightarrow> u32 \<Rightarrow> (nat \<times> nat) set" where
  "constant_write m cheops = (case constant_slot m of None \<Rightarrow> {} | Some k \<Rightarrow> {(unat (LD cheops), unat (k mod 4))})"

fun constant_writes :: "(u32 \<times> u32 \<times> u32) list \<Rightarrow> u32 \<times> (nat \<Rightarrow> nat \<Rightarrow> u32) \<Rightarrow> (nat \<times> nat) set" where
  "constant_writes [] x = {}"
| "constant_writes ((sub, m, v) # es) x = constant_write m (fst x)
     \<union> (case pgraph_constant m v x of None \<Rightarrow> {} | Some y \<Rightarrow> constant_writes es y)"

lemma pgraph_constants_append:
  "pgraph_constants (es @ fs) x = (case pgraph_constants es x of None \<Rightarrow> None | Some y \<Rightarrow> pgraph_constants fs y)"
  by (induction es x rule: pgraph_constants.induct) (auto split: option.splits)

lemma constant_writes_append:
  "pgraph_constants es x = Some y \<Longrightarrow> constant_writes (es @ fs) x = constant_writes es x \<union> constant_writes fs y"
  by (induction es x rule: pgraph_constants.induct) (auto split: option.splits)

text \<open>The side buffer after the writes in \<open>W\<close>, with the constants of PGRAPH.\<close>

definition side :: "(nat \<Rightarrow> nat \<Rightarrow> u32) \<Rightarrow> (nat \<Rightarrow> nat \<Rightarrow> u32) \<Rightarrow> (nat \<times> nat) set \<Rightarrow> parse \<Rightarrow> u32 \<times> (nat \<Rightarrow> nat \<Rightarrow> u32) \<Rightarrow> bool" where
  "side consts0 vsh0 W st = (\<lambda>(cheops, vsh). (if LD cheops < 192 then const_load st = uint (LD cheops) else const_load st < 0 \<or> const_load st = 192)
     \<and> (\<forall>i j. if (i, j) \<in> W then p_consts st i j = vsh i j else p_consts st i j = consts0 i j \<and> vsh i j = vsh0 i j)
     \<and> (\<forall>i. p_dirty st i \<longleftrightarrow> (\<exists>j. (i, j) \<in> W)))"

lemma side_pointer: "side consts0 vsh0 W st (cheops, vsh) \<Longrightarrow> LD cheops < 192 \<Longrightarrow> const_load st = uint (LD cheops)"
  by (simp add: side_def)

lemma side_constant:
  assumes s: "side consts0 vsh0 W st x" and p: "pgraph_constant (p_method st) w x = Some y"
  shows "side consts0 vsh0 (W \<union> constant_write (p_method st) (fst x)) (parse_constant w st) y"
proof -
  obtain cheops vsh where x: "x = (cheops, vsh)" by (cases x)
  have c0: "constant_slot NV097_SET_TRANSFORM_CONSTANT_LOAD = None" by (simp add: constant_slot_def)
  consider (load) "p_method st = NV097_SET_TRANSFORM_CONSTANT_LOAD"
    | (other) "p_method st \<noteq> NV097_SET_TRANSFORM_CONSTANT_LOAD" "constant_slot (p_method st) = None"
    | (slot) k where "p_method st \<noteq> NV097_SET_TRANSFORM_CONSTANT_LOAD" "constant_slot (p_method st) = Some k" by (cases "constant_slot (p_method st)") auto
  then show ?thesis
  proof cases
    case load
    then have w: "w < 192" "y = (SET_MASK cheops CONST_LD_PTR w, vsh)" using p x by (simp_all add: pgraph_constant_def split: if_splits)
    have "- (2 ^ 31) \<le> uint w" by (rule order_trans [of _ 0]) simp_all
    moreover have "uint w < 2 ^ 31" using w by (simp add: word_less_def)
    ultimately have "sint w = uint w" by (simp add: sint_uint signed_take_bit_int_eq_self)
    moreover have "LD (SET_MASK cheops CONST_LD_PTR w) = w" using w by (simp add: LD_set)
    ultimately show ?thesis using s load w x c0 by (simp add: side_def parse_constant_def constant_write_def)
  next
    case other
    then have "y = x" using p x by (simp add: pgraph_constant_def)
    then show ?thesis using s other x by (auto simp: side_def parse_constant_def constant_write_def Let_def)
  next
    case slot
    define c where "c = LD cheops"
    have c: "c < 192" and y: "y = (if k mod 4 = 3 then SET_MASK cheops CONST_LD_PTR (c + 1) else cheops,
        vsh(unat c := (vsh (unat c))(unat (k mod 4) := w)))"
      using p x slot by (simp_all add: pgraph_constant_def c_def Let_def split: if_splits)
    have l: "const_load st = uint c" "0 \<le> const_load st" "const_load st < 192" "nat (const_load st) = unat c"
      using side_pointer [OF s [unfolded x]] c by (simp_all add: c_def [symmetric] word_less_def)
    have u: "uint (c + 1) = uint c + 1" "c + 1 \<le> 192" using c by (simp_all add: word_less_def word_le_def uint_word_ariths)
    have "parse_constant w st = st\<lparr>p_consts := (p_consts st)(unat c := (p_consts st (unat c))(unat (k mod 4) := w)),
        p_dirty := (p_dirty st)(unat c := True), p_found := True, const_load := (if k mod 4 = 3 then uint c + 1 else uint c)\<rparr>"
      using slot l by (simp add: parse_constant_def Let_def)
    moreover have "constant_write (p_method st) cheops = {(unat c, unat (k mod 4))}" using slot by (simp add: constant_write_def c_def)
    moreover have "if LD (fst y) < 192 then (if k mod 4 = 3 then uint c + 1 else uint c) = uint (LD (fst y))
        else (if k mod 4 = 3 then uint c + 1 else uint c) < 0 \<or> (if k mod 4 = 3 then uint c + 1 else uint c) = 192"
      using y u c LD_set [OF u(2), of cheops] by (auto simp: c_def [symmetric] word_less_def)
    ultimately show ?thesis using s x y by (auto simp: side_def)
  qed
qed

section \<open>Ranges\<close>

text \<open>\<open>k\<close> words of the push buffer at \<open>b\<close> lead from one state to another, with no error, no draw and no group that leaves the method space.\<close>

inductive scan_words :: "mem \<Rightarrow> u32 \<Rightarrow> u32 \<Rightarrow> nat \<Rightarrow> u32 \<Rightarrow> nat \<Rightarrow> pstate \<Rightarrow> (u32 \<times> u32 \<times> u32) list \<Rightarrow> pstate \<Rightarrow> bool" for mm b len n e where
  scan_end: "pos p = e \<Longrightarrow> scan_words mm b len n e 0 p [] p"
| scan_word: "pos p \<noteq> e \<Longrightarrow> pos p < len \<Longrightarrow> unat b + unat (pos p) + 4 \<le> n \<Longrightarrow> decode (rd32 mm (b + pos p)) p = Some (q, out)
    \<Longrightarrow> fits q \<Longrightarrow> list_all (\<lambda>(_, m, _). \<not> draw_method m) out \<Longrightarrow> scan_words mm b len n e k q outs r
    \<Longrightarrow> scan_words mm b len n e (Suc k) p (out @ outs) r"

lemma side_cong: "const_load t = const_load st \<Longrightarrow> p_consts t = p_consts st \<Longrightarrow> p_dirty t = p_dirty st
    \<Longrightarrow> side consts0 vsh0 W t x = side consts0 vsh0 W st x"
  by (simp add: side_def)

lemma parse_command_side [simp]:
  "const_load (parse_command w st) = const_load st" "p_consts (parse_command w st) = p_consts st" "p_dirty (parse_command w st) = p_dirty st"
  "p_boundary (parse_command w st) = p_boundary st"
  by (simp_all add: parse_command_def)

lemma parse_constant_pos: "parse_constant w (st\<lparr>p_pos := g\<rparr>) = (parse_constant w st)\<lparr>p_pos := g\<rparr>"
  by (simp add: parse_constant_def Let_def split: option.splits)

lemma parse_data_side [simp]:
  "const_load (parse_data w st) = const_load (parse_constant w st)" "p_consts (parse_data w st) = p_consts (parse_constant w st)"
  "p_dirty (parse_data w st) = p_dirty (parse_constant w st)" "p_boundary (parse_data w st) = (p_boundary st \<or> draw_method (p_method st))"
  by (simp_all add: parse_data_def Let_def)

lemma parse_loop_scan:
  assumes "scan_words mm b len n e k p out q" and "tracks st p" and "fits p" and "side consts0 vsh0 W st x"
    and "pgraph_constants out x = Some y" and "k \<le> budget"
  shows "\<exists>st'. parse_loop budget mm n b len e st = Inr st' \<and> tracks st' q \<and> fits q \<and> side consts0 vsh0 (W \<union> constant_writes out x) st' y
     \<and> p_boundary st' = p_boundary st \<and> pos q = e"
  using assms
proof (induction arbitrary: st W x budget rule: scan_words.induct)
  case (scan_end p)
  then show ?case by (cases budget) (simp_all add: tracks_def)
next
  case (scan_word p q out k outs r)
  from scan_word.prems(5) obtain m where m: "budget = Suc m" "k \<le> m" by (cases budget) auto
  define w where "w = rd32 mm (b + pos p)"
  have d: "decode w p = Some (q, out)" using scan_word.hyps(4) by (simp add: w_def)
  have st: "p_pos st = pos p" "p_count st = cnt p" using scan_word.prems(1) by (simp_all add: tracks_def)
  have nl: "\<not> len \<le> pos p" "\<not> n < unat b + unat (pos p) + 4" using scan_word.hyps(2,3) by simp_all
  note run = scan_word.hyps(1) nl st m(1) w_def [symmetric]
  show ?case
  proof (cases "cnt p = 0")
    case True
    note t = tracks_command [OF scan_word.prems(1) True d]
    have "side consts0 vsh0 W (parse_command w (st\<lparr>p_pos := p_pos st + 4\<rparr>)) x"
      using scan_word.prems(3) by (subst side_cong [of _ st]) simp_all
    from scan_word.IH [OF t(1) scan_word.hyps(5) this _ m(2)] scan_word.prems(4) t(2) show ?thesis
      using run True by (simp add: Let_def)
  next
    case False
    note t = tracks_data [OF scan_word.prems(1,2) False d]
    from scan_word.prems(4) t(3) obtain z where z: "pgraph_constant (p_method st) w x = Some z" "pgraph_constants outs z = Some y"
      by (auto split: option.splits)
    have nd: "\<not> draw_method (p_method st)" using scan_word.hyps(6) t(3) by simp
    have "side consts0 vsh0 (W \<union> constant_write (p_method st) (fst x)) (parse_data w (st\<lparr>p_pos := p_pos st + 4\<rparr>)) z"
      using side_constant [OF scan_word.prems(3) z(1)] by (subst side_cong [of _ "parse_constant w st"]) (simp_all add: parse_constant_pos)
    from scan_word.IH [OF t(1) scan_word.hyps(5) this z(2) m(2)] show ?thesis
      using run False t(3) z nd by (simp add: Let_def Un_assoc)
  qed
qed

text \<open>The state a range starts from, up to the subchannel, which the scan does not follow.\<close>

definition seeds :: "u32 \<Rightarrow> u32 \<Rightarrow> u32 \<Rightarrow> pstate \<Rightarrow> bool" where
  "seeds st sub g p \<longleftrightarrow> (unpack st sub g)\<lparr>subch := 0\<rparr> = p\<lparr>subch := 0\<rparr> \<and> take_bit 2 g = 0"

definition pointer :: "u32 \<Rightarrow> u32 \<Rightarrow> bool" where
  "pointer cl cheops \<longleftrightarrow> (if LD cheops < 192 then cl = LD cheops else \<not> cl < 192)"

lemma tracks_start: "seeds st sub g p \<Longrightarrow> tracks (parse_start g st sub cl s) p"
  using GET_MASK_less(1) [of st]
  by (cases p) (auto simp: seeds_def tracks_def parse_start_def unpack_def GET_MASK_fields AND_fields(2) and.assoc split: if_splits)

lemma seeds_end:
  assumes "tracks t q"
  shows "seeds (parse_dma_state dm t) (parse_dma_subroutine t) (p_pos t) q"
proof -
  have "take_bit 11 (cnt q) = cnt q" using assms by (intro take_bit_small) (simp_all add: tracks_def)
  then show ?thesis
    using assms aligned_mask
    by (cases q) (auto simp: seeds_def tracks_def unpack_def parse_dma_state_def parse_dma_subroutine_def AND_fields(2) and.assoc)
qed

end
