(* ===== verification/Nv_Scan.thy ===== *)
theory Nv_Scan
  imports Nv_KicksFacts
begin

text \<open>
  The pending ranges as a queue, and what a scan of them gives: the constants PGRAPH will hold.
\<close>

section \<open>One range\<close>

definition side_ok :: "(nat \<Rightarrow> nat \<Rightarrow> u32) \<Rightarrow> (nat \<Rightarrow> nat \<Rightarrow> u32) \<Rightarrow> (nat \<times> nat) set \<Rightarrow> 'a kicks_scheme \<Rightarrow> (nat \<Rightarrow> nat \<Rightarrow> u32) \<Rightarrow> bool" where
  "side_ok consts0 vsh0 W s vsh \<longleftrightarrow>
     (\<forall>i j. if (i, j) \<in> W then parsedConstants s i j = vsh i j else parsedConstants s i j = consts0 i j \<and> vsh i j = vsh0 i j)
     \<and> (\<forall>i. parsedSlotDirty s i \<longleftrightarrow> (\<exists>j. (i, j) \<in> W))"

lemma side_start:
  assumes "side_ok consts0 vsh0 W s vsh" and "pointer cl cheops"
  shows "side consts0 vsh0 W (parse_start g st sub cl s) (cheops, vsh)"
  using assms by (simp add: side_def side_ok_def pointer_def parse_start_def)

lemma side_pointer_end: "side consts0 vsh0 W t (cheops, vsh) \<Longrightarrow> pointer (parse_const_load t) cheops"
  by (auto simp: side_def pointer_def parse_const_load_def split: if_splits)

text \<open>What a scan leaves alone.\<close>

definition scan_frame :: "'a kicks_scheme \<Rightarrow> 'a kicks_scheme \<Rightarrow> bool" where
  "scan_frame s t \<longleftrightarrow> vram t = vram s \<and> vram_size t = vram_size s \<and> ramin t = ramin s \<and> fregs t = fregs s
     \<and> kick_write t = kick_write s \<and> pg_calls t = pg_calls s"

lemma extract_scan:
  assumes m: "push_buffer s = Inr ((b, len), s)" and sc: "scan_words (vram s) b len (vram_size s) e k p out q" and "k \<le> PARSE_BUDGET"
    and "seeds st sub g p" and "fits p" and "pointer cl cheops" and "side_ok consts0 vsh0 W s vsh"
    and "pgraph_constants out (cheops, vsh) = Some (cheops', vsh')" and g: "g = pos p"
  shows "\<exists>ps t. extract_constants_inline_range g e st sub cl s = Inr (ps, t) \<and> seeds (ps_state ps) (ps_subroutine ps) (ps_end ps) q \<and> fits q
     \<and> pointer (ps_const_load ps) cheops' \<and> side_ok consts0 vsh0 (W \<union> constant_writes out (cheops, vsh)) t vsh'
     \<and> scan_frame s t \<and> kick_ranges t = kick_ranges s \<and> kick_read t = kick_read s \<and> \<not> ps_boundary ps \<and> ps_end ps = e"
proof (cases "g = e")
  case True
  then have "out = []" "q = p" using sc g by (auto elim: scan_words.cases)
  then show ?thesis
    using assms True unfolding extract_constants_inline_range_def scan_frame_def
    by (simp add: reg_run run_simps m [unfolded bnd_def] del: push_bit_of_0)
next
  case False
  obtain t where t: "parse_loop PARSE_BUDGET (vram s) (vram_size s) b len e (parse_start g st sub cl s) = Inr t" "tracks t q" "fits q"
    "side consts0 vsh0 (W \<union> constant_writes out (cheops, vsh)) t (cheops', vsh')" "\<not> p_boundary t" "pos q = e"
    using parse_loop_scan [OF sc tracks_start [OF assms(4)] assms(5) side_start [OF assms(7,6)] assms(8,3)]
    by (auto simp: parse_start_def)
  have "p_pos t = e" using t(2,6) by (simp add: tracks_def)
  then show ?thesis
    using False t seeds_end [OF t(2), of st] side_pointer_end [OF t(4)] unfolding extract_constants_inline_range_def scan_frame_def side_ok_def
    by (simp add: reg_run run_simps m [unfolded bnd_def]) (simp add: side_def)
qed

section \<open>The ring as a queue\<close>

definition ring_ok :: "'a kicks_scheme \<Rightarrow> bool" where
  "ring_ok s \<longleftrightarrow> length (kick_ranges s) = MAX_RANGES \<and> kick_read s < MAX_RANGES \<and> kick_write s < MAX_RANGES"

definition segment :: "kick_range list \<Rightarrow> nat \<Rightarrow> nat \<Rightarrow> kick_range list" where
  "segment rs i n = map (\<lambda>k. rs ! ((i + k) mod MAX_RANGES)) [0..<n]"

definition pending :: "'a kicks_scheme \<Rightarrow> kick_range list" where
  "pending s = segment (kick_ranges s) (kick_read s) (pending_depth (kick_read s) (kick_write s))"

lemma depth_zero: "i < MAX_RANGES \<Longrightarrow> w < MAX_RANGES \<Longrightarrow> pending_depth i w = 0 \<longleftrightarrow> i = w"
  by (auto simp: pending_depth_def)

lemma depth_less: "i < MAX_RANGES \<Longrightarrow> w < MAX_RANGES \<Longrightarrow> pending_depth i w < MAX_RANGES"
  by (auto simp: pending_depth_def)

lemma Suc_mod_ring: "i < MAX_RANGES \<Longrightarrow> Suc i mod MAX_RANGES = (if i = MAX_RANGES - 1 then 0 else Suc i)"
  by (simp add: mod_Suc)

lemma depth_next: "i < MAX_RANGES \<Longrightarrow> w < MAX_RANGES \<Longrightarrow> i \<noteq> w \<Longrightarrow> pending_depth i w = Suc (pending_depth (Suc i mod MAX_RANGES) w)"
  by (auto simp: pending_depth_def Suc_mod_ring)

lemma depth_push: "i < MAX_RANGES \<Longrightarrow> w < MAX_RANGES \<Longrightarrow> Suc w mod MAX_RANGES \<noteq> i
    \<Longrightarrow> pending_depth i (Suc w mod MAX_RANGES) = Suc (pending_depth i w)"
  by (auto simp: pending_depth_def Suc_mod_ring split: if_splits)

lemma depth_full: "i < MAX_RANGES \<Longrightarrow> w < MAX_RANGES \<Longrightarrow> pending_depth i w = MAX_RANGES - 1 \<longleftrightarrow> Suc w mod MAX_RANGES = i"
  by (auto simp: pending_depth_def Suc_mod_ring split: if_splits)

lemma depth_index: "i < MAX_RANGES \<Longrightarrow> w < MAX_RANGES \<Longrightarrow> (i + pending_depth i w) mod MAX_RANGES = w"
  by (auto simp: pending_depth_def)

lemma segment_Suc: "segment rs i (Suc n) = rs ! (i mod MAX_RANGES) # segment rs (Suc i mod MAX_RANGES) n"
  by (simp add: segment_def upt_conv_Cons map_Suc_upt [symmetric] mod_simps del: upt_Suc map_Suc_upt)

lemma segment_snoc: "segment rs i (Suc n) = segment rs i n @ [rs ! ((i + n) mod MAX_RANGES)]"
  by (simp add: segment_def)

lemma length_pending: "length (pending s) = pending_depth (kick_read s) (kick_write s)"
  by (simp add: pending_def segment_def)

lemma segment_update:
  assumes "n < MAX_RANGES"
  shows "segment (rs[(i + n) mod MAX_RANGES := x]) i n = segment rs i n"
proof -
  have "(i + n) mod MAX_RANGES \<noteq> (i + k) mod MAX_RANGES" if "k < n" for k
    using mod_eq_dvd_iff_nat [of "i + k" "i + n" MAX_RANGES] that assms by (auto dest: dvd_imp_le)
  then show ?thesis by (auto simp: segment_def)
qed

lemma notify_pending:
  assumes r: "ring_ok s" and n: "old \<noteq> new"
  shows "ring_ok (notify_dma_put_write old new dg st sub s)"
    and "pending (notify_dma_put_write old new dg st sub s) = (if length (pending s) < MAX_RANGES - 1
      then pending s @ [\<lparr>rg_start = (if old < dg \<and> dg \<le> new then dg else old), rg_end = new, rg_dma_get = dg, rg_dma_state = st,
        rg_dma_subroutine = sub, rg_const_load = dmaConstLoadShadow s\<rparr>]
      else butlast (pending s) @ [(last (pending s))\<lparr>rg_end := new\<rparr>])"
proof -
  define i w where "i = kick_read s" and "w = kick_write s"
  have b: "i < MAX_RANGES" "w < MAX_RANGES" "length (kick_ranges s) = MAX_RANGES" using r by (simp_all add: ring_ok_def i_def w_def)
  show "ring_ok (notify_dma_put_write old new dg st sub s)"
    using r n by (simp add: ring_ok_def notify_dma_put_write_def Let_def note_pending_depth_def)
  show "pending (notify_dma_put_write old new dg st sub s) = (if length (pending s) < MAX_RANGES - 1
      then pending s @ [\<lparr>rg_start = (if old < dg \<and> dg \<le> new then dg else old), rg_end = new, rg_dma_get = dg, rg_dma_state = st,
        rg_dma_subroutine = sub, rg_const_load = dmaConstLoadShadow s\<rparr>]
      else butlast (pending s) @ [(last (pending s))\<lparr>rg_end := new\<rparr>])"
  proof (cases "Suc w mod MAX_RANGES = i")
    case True
    then have d: "pending_depth i w = Suc (MAX_RANGES - 2)" using depth_full [OF b(1,2)] by simp
    have l: "(i + (MAX_RANGES - 2)) mod MAX_RANGES = (w + MAX_RANGES - 1) mod MAX_RANGES"
      using True b by (auto simp: Suc_mod_ring mod_if split: if_splits)
    have "pending (notify_dma_put_write old new dg st sub s)
        = segment ((kick_ranges s)[(i + (MAX_RANGES - 2)) mod MAX_RANGES := (kick_ranges s ! ((i + (MAX_RANGES - 2)) mod MAX_RANGES))\<lparr>rg_end := new\<rparr>]) i (Suc (MAX_RANGES - 2))"
      using n True d unfolding l by (simp add: notify_dma_put_write_def Let_def i_def [symmetric] w_def [symmetric] pending_def)
    also have "\<dots> = segment (kick_ranges s) i (MAX_RANGES - 2) @ [(kick_ranges s ! ((i + (MAX_RANGES - 2)) mod MAX_RANGES))\<lparr>rg_end := new\<rparr>]"
      unfolding segment_snoc by (subst segment_update) (simp_all add: b)
    finally show ?thesis
      using d segment_snoc [of "kick_ranges s" i 4094]
      by (simp only: length_pending i_def [symmetric] w_def [symmetric]) (simp add: pending_def i_def [symmetric] w_def [symmetric])
  next
    case False
    then have d: "pending_depth i w < MAX_RANGES - 1" using depth_full [OF b(1,2)] depth_less [OF b(1,2)] by simp
    then show ?thesis
      using n False depth_push [OF b(1,2) False] segment_update [of "pending_depth i w" "kick_ranges s" i] depth_index [OF b(1,2)] b
      by (simp only: length_pending i_def [symmetric] w_def [symmetric])
        (simp add: notify_dma_put_write_def note_pending_depth_def Let_def i_def [symmetric] w_def [symmetric] pending_def segment_snoc)
  qed
qed

section \<open>All the pending ranges\<close>

inductive scan_ranges :: "mem \<Rightarrow> u32 \<Rightarrow> u32 \<Rightarrow> nat \<Rightarrow> kick_range list \<Rightarrow> pstate \<Rightarrow> (u32 \<times> u32 \<times> u32) list \<Rightarrow> pstate \<Rightarrow> bool" for mm b len n where
  scan_none: "scan_ranges mm b len n [] p [] p"
| scan_range: "rg_start r = pos p \<Longrightarrow> scan_words mm b len n (rg_end r) k p out q \<Longrightarrow> k \<le> PARSE_BUDGET \<Longrightarrow> scan_ranges mm b len n rs q outs u
    \<Longrightarrow> scan_ranges mm b len n (r # rs) p (out @ outs) u"

lemma scan_frame_refl [simp]: "scan_frame s s"
  by (simp add: scan_frame_def)

lemma scan_frame_trans: "scan_frame s t \<Longrightarrow> scan_frame t u \<Longrightarrow> scan_frame s u"
  by (simp add: scan_frame_def)

lemma push_buffer_frame: "scan_frame s t \<Longrightarrow> push_buffer s = Inr (bl, s) \<Longrightarrow> push_buffer t = Inr (bl, t)"
  by (auto simp: nv_dma_map_run scan_frame_def split: if_splits)

lemma consume_turn_scan:
  assumes m: "push_buffer s = Inr ((b, len), s)" and sc: "scan_words (vram s) b len (vram_size s) (rg_end r) k p out q" and "k \<le> PARSE_BUDGET"
    and "seeds st sub (rg_start r) p" and "fits p" and "pointer cl cheops" and "side_ok consts0 vsh0 W s vsh"
    and "pgraph_constants out (cheops, vsh) = Some (cheops', vsh')" and "rg_start r = pos p"
    and r: "kick_ranges s ! c_read c = r" and sd: "consume_seed r c = Some (st, sub, cl)"
  shows "\<exists>c' t st' sub' cl'. consume_turn c s = Inr ((True, c'), t) \<and> c_read c' = (c_read c + 1) mod MAX_RANGES
     \<and> c_state c' = Some (st', sub', cl', rg_end r) \<and> seeds st' sub' (rg_end r) q \<and> fits q \<and> pointer cl' cheops'
     \<and> side_ok consts0 vsh0 (W \<union> constant_writes out (cheops, vsh)) t vsh' \<and> scan_frame s t \<and> kick_ranges t = kick_ranges s \<and> kick_read t = kick_read s
     \<and> c_boundary c' = c_boundary c \<and> c_reliable c' = c_reliable c"
proof -
  from extract_scan [OF assms(1-9)] obtain ps t where x: "extract_constants_inline_range (rg_start r) (rg_end r) st sub cl s = Inr (ps, t)"
    and y: "seeds (ps_state ps) (ps_subroutine ps) (ps_end ps) q" "fits q" "pointer (ps_const_load ps) cheops'"
    "side_ok consts0 vsh0 (W \<union> constant_writes out (cheops, vsh)) t vsh'" "scan_frame s t" "kick_ranges t = kick_ranges s" "kick_read t = kick_read s"
    "\<not> ps_boundary ps" "ps_end ps = rg_end r" by blast
  show ?thesis
    using y unfolding consume_turn_def by (simp add: run_simps r sd x Let_def)
qed

lemma consume_loop_scan:
  assumes "scan_ranges mm b len n rs p out q"
    and "mm = vram s" and "n = vram_size s" and "push_buffer s = Inr ((b, len), s)" and "ring_ok s" and "c_read c < MAX_RANGES"
    and "rs = segment (kick_ranges s) (c_read c) (pending_depth (c_read c) (kick_write s))" and "length rs \<le> fuel"
    and "rs \<noteq> [] \<Longrightarrow> consume_seed (hd rs) c = Some (st, sub, cl)" and "seeds st sub (pos p) p" and "fits p" and "pointer cl cheops"
    and "side_ok consts0 vsh0 W s vsh" and "pgraph_constants out (cheops, vsh) = Some (cheops', vsh')"
  shows "\<exists>c' t. consume_loop fuel (kick_write s) c s = Inr (c', t) \<and> c_read c' = kick_write s \<and> c_boundary c' = c_boundary c \<and> c_reliable c' = c_reliable c
     \<and> side_ok consts0 vsh0 (W \<union> constant_writes out (cheops, vsh)) t vsh' \<and> scan_frame s t \<and> kick_ranges t = kick_ranges s \<and> kick_read t = kick_read s"
  using assms
proof (induction arbitrary: s c fuel st sub cl cheops vsh W rule: scan_ranges.induct)
  case (scan_none p)
  then have "c_read c = kick_write s" using depth_zero [of "c_read c" "kick_write s"] by (simp add: segment_def ring_ok_def)
  then show ?case using scan_none by (cases fuel) (simp_all add: scan_frame_def)
next
  case (scan_range r p k out q rs outs u)
  have w: "kick_write s < MAX_RANGES" "c_read c < MAX_RANGES" using scan_range.prems by (simp_all add: ring_ok_def)
  have ne: "c_read c \<noteq> kick_write s"
    using scan_range.prems(6) depth_zero [OF w(2,1)] by (auto simp: segment_def)
  note dn = depth_next [OF w(2,1) ne]
  have rs: "r = kick_ranges s ! c_read c"
    "rs = segment (kick_ranges s) (Suc (c_read c) mod MAX_RANGES) (pending_depth (Suc (c_read c) mod MAX_RANGES) (kick_write s))"
    using scan_range.prems(6) w(2) unfolding dn segment_Suc by simp_all
  from scan_range.prems(7) obtain f where f: "fuel = Suc f" "length rs \<le> f" by (cases fuel) auto
  obtain cheops1 vsh1 where p1: "pgraph_constants out (cheops, vsh) = Some (cheops1, vsh1)" "pgraph_constants outs (cheops1, vsh1) = Some (cheops', vsh')"
    using scan_range.prems(13) by (auto simp: pgraph_constants_append split: option.splits)
  have sc: "scan_words (vram s) b len (vram_size s) (rg_end r) k p out q" using scan_range.hyps(2) scan_range.prems(1,2) by simp
  have sd: "consume_seed r c = Some (st, sub, cl)" "seeds st sub (rg_start r) p" using scan_range.prems(8,9) scan_range.hyps(1) by simp_all
  from consume_turn_scan [OF scan_range.prems(3) sc scan_range.hyps(3) sd(2) scan_range.prems(10,11,12) p1(1) scan_range.hyps(1) rs(1) [symmetric] sd(1)]
  obtain c1 t st1 sub1 cl1 where t: "consume_turn c s = Inr ((True, c1), t)" "c_read c1 = (c_read c + 1) mod MAX_RANGES"
    "c_state c1 = Some (st1, sub1, cl1, rg_end r)" "seeds st1 sub1 (rg_end r) q" "fits q" "pointer cl1 cheops1"
    "side_ok consts0 vsh0 (W \<union> constant_writes out (cheops, vsh)) t vsh1" "scan_frame s t" "kick_ranges t = kick_ranges s" "kick_read t = kick_read s"
    "c_boundary c1 = c_boundary c" "c_reliable c1 = c_reliable c" by blast
  have q: "pos q = rg_end r" using t(4) by (cases q) (simp add: seeds_def unpack_def)
  have fr: "vram t = vram s" "vram_size t = vram_size s" "kick_write t = kick_write s" using t(8) by (simp_all add: scan_frame_def)
  have "\<exists>c' v. consume_loop f (kick_write t) c1 t = Inr (c', v) \<and> c_read c' = kick_write t \<and> c_boundary c' = c_boundary c1 \<and> c_reliable c' = c_reliable c1
     \<and> side_ok consts0 vsh0 (W \<union> constant_writes out (cheops, vsh) \<union> constant_writes outs (cheops1, vsh1)) v vsh'
     \<and> scan_frame t v \<and> kick_ranges v = kick_ranges t \<and> kick_read v = kick_read t"
  proof (rule scan_range.IH [OF _ _ push_buffer_frame [OF t(8) scan_range.prems(3)] _ _ _ f(2) _ _ t(5,6,7) p1(2)])
    show "ring_ok t" using scan_range.prems(4) t(9,10) fr(3) by (simp add: ring_ok_def)
    show "consume_seed (hd rs) c1 = Some (st1, sub1, cl1)" if "rs \<noteq> []"
    proof -
      from scan_range.hyps(4) that have "rg_start (hd rs) = pos q" by (cases rule: scan_ranges.cases) auto
      then show ?thesis by (simp add: consume_seed_def t(3) q)
    qed
  qed (use t rs fr q scan_range.prems(1,2) in auto)
  then obtain c' v where v: "consume_loop f (kick_write s) c1 t = Inr (c', v)" "c_read c' = kick_write s" "c_boundary c' = c_boundary c"
    "c_reliable c' = c_reliable c" "side_ok consts0 vsh0 (W \<union> constant_writes (out @ outs) (cheops, vsh)) v vsh'" "scan_frame t v"
    "kick_ranges v = kick_ranges s" "kick_read v = kick_read s"
    using t fr(3) constant_writes_append [OF p1(1), of outs] by (auto simp: Un_assoc)
  have "consume_loop fuel (kick_write s) c s = Inr (c', v)" using f(1) ne t(1) v(1) by (simp add: bnd_def)
  then show ?case using v scan_frame_trans [OF t(8) v(6)] by blast
qed

section \<open>Properties\<close>

text \<open>C8: A write of \<open>DMA_PUT\<close> in the window of the current channel sets the register and, when the value is new, adds to the queue the range
  from the old value (or from \<open>DMA_GET\<close> when that lies in between) to the new one, with the state of the pusher at that moment; a queue of 4095
  ranges is full, and then the last one is extended. The ring stays consistent.\<close>

theorem nv_kick_queue:
  assumes "ring_ok s" and "user_channel addr s = Inr ((), s)" and "addr AND 0xFFFF = NV_USER_DMA_PUT"
  shows "\<exists>t. USER_write addr v s = Inr ((), t) \<and> ring_ok t \<and> fregs t = (fregs s)(CACHE1_DMA_PUT := v) \<and> length (pending t) \<le> 4095
     \<and> pending t = (let old = fregs s CACHE1_DMA_PUT; dg = fregs s CACHE1_DMA_GET in
         if v = old then pending s
         else if length (pending s) < 4095 then
           pending s @ [\<lparr>rg_start = (if old < dg \<and> dg \<le> v then dg else old), rg_end = v, rg_dma_get = dg, rg_dma_state = fregs s CACHE1_DMA_STATE,
             rg_dma_subroutine = fregs s CACHE1_DMA_SUBROUTINE, rg_const_load = dmaConstLoadShadow s\<rparr>]
         else butlast (pending s) @ [(last (pending s))\<lparr>rg_end := v\<rparr>])"
proof -
  define s1 where "s1 = s\<lparr>submission_pending := True\<rparr>"
  define u where "u = (if fregs s CACHE1_DMA_PUT = v then s else notify_dma_put_write (fregs s CACHE1_DMA_PUT) v (fregs s CACHE1_DMA_GET)
      (fregs s CACHE1_DMA_STATE) (fregs s CACHE1_DMA_SUBROUTINE) s1)"
  have s1: "ring_ok s1" "pending s1 = pending s" "fregs s1 = fregs s" using assms(1) by (simp_all add: s1_def ring_ok_def pending_def)
  have u: "ring_ok u" "fregs u = fregs s"
    using notify_pending(1) [OF s1(1)] assms(1) s1(3) by (auto simp: u_def notify_dma_put_write_def Let_def note_pending_depth_def)
  have w: "USER_write addr v s = Inr ((), u\<lparr>fregs := (fregs u)(CACHE1_DMA_PUT := v)\<rparr>)"
    using assms(2,3) by (simp add: USER_write_def run_simps set_reg_def u_def s1_def Let_def)
  have p: "pending (u\<lparr>fregs := (fregs u)(CACHE1_DMA_PUT := v)\<rparr>) = pending u" "ring_ok (u\<lparr>fregs := (fregs u)(CACHE1_DMA_PUT := v)\<rparr>)"
    using u(1) by (simp_all add: pending_def ring_ok_def)
  have "length (pending u) \<le> 4095" using u(1) depth_less [of "kick_read u" "kick_write u"] by (simp add: length_pending ring_ok_def)
  moreover have "pending u = (let old = fregs s CACHE1_DMA_PUT; dg = fregs s CACHE1_DMA_GET in
         if v = old then pending s
         else if length (pending s) < 4095 then
           pending s @ [\<lparr>rg_start = (if old < dg \<and> dg \<le> v then dg else old), rg_end = v, rg_dma_get = dg, rg_dma_state = fregs s CACHE1_DMA_STATE,
             rg_dma_subroutine = fregs s CACHE1_DMA_SUBROUTINE, rg_const_load = dmaConstLoadShadow s\<rparr>]
         else butlast (pending s) @ [(last (pending s))\<lparr>rg_end := v\<rparr>])"
    using notify_pending(2) [OF s1(1), of "fregs s CACHE1_DMA_PUT" v] s1(2) by (auto simp: u_def Let_def s1_def)
  ultimately show ?thesis using w p u(2) by simp
qed


text \<open>Two ranges: a load of the constant pointer, and one constant.\<close>

definition example_range :: "u32 \<Rightarrow> u32 \<Rightarrow> kick_range" where
  "example_range a e = \<lparr>rg_start = a, rg_end = e, rg_dma_get = 0, rg_dma_state = 0, rg_dma_subroutine = 0, rg_const_load = 0\<rparr>"

definition kicks_example :: kicks where
  "kicks_example = \<lparr>fregs = (\<lambda>_. 0)(NV_PFIFO_MODE := 1, CACHE1_PUSH1 := 0x100, CACHE1_DMA_INSTANCE := 0x10, CACHE1_DMA_PUT := 28),
     fifo_pending = 0, fifo_enabled = 0, ramin = wr32 0x108 0x2000 (wr32 0x104 0x1000 (\<lambda>_. 0)),
     vram = wr32 0x2000 0x41EA4 (wr32 0x2004 5 (wr32 0x2008 0x100B80 (wr32 0x200C 1 (wr32 0x2010 2 (wr32 0x2014 3 (wr32 0x2018 4 (\<lambda>_. 0))))))),
     vram_size = 0x4000, dmaConstLoadShadow = 0, pg_calls = [],
     kick_ranges = (replicate 4096 (example_range 0 0))[0 := example_range 0 8, 1 := example_range 8 28],
     kick_read = 0, kick_write = 2, high_water = 2, overflow_count = 0, parsedConstants = (\<lambda>_ _. 0), parsedSlotDirty = (\<lambda>_. False),
     vsh_dirty_any = False, submission_pending = False\<rparr>"

abbreviation scan_at :: "u32 \<Rightarrow> u32 \<Rightarrow> u32 \<Rightarrow> pstate" where
  "scan_at p m c \<equiv> \<lparr>pos = p, meth = m, cnt = c, incr = True, subch = 0, ret_to = None\<rparr>"

abbreviation example_methods :: "(u32 \<times> u32 \<times> u32) list" where
  "example_methods \<equiv> [(0, 0x1EA4, 5), (0, 0xB80, 1), (0, 0xB84, 2), (0, 0xB88, 3), (0, 0xB8C, 4)]"

lemma kicks_example_words:
  "rd32 (vram kicks_example) 0x2000 = 0x41EA4" "rd32 (vram kicks_example) 0x2004 = 5" "rd32 (vram kicks_example) 0x2008 = 0x100B80"
  "rd32 (vram kicks_example) 0x200C = 1" "rd32 (vram kicks_example) 0x2010 = 2" "rd32 (vram kicks_example) 0x2014 = 3"
  "rd32 (vram kicks_example) 0x2018 = 4" "rd32 (ramin kicks_example) 0x100 = 0" "rd32 (ramin kicks_example) 0x104 = 0x1000"
  "rd32 (ramin kicks_example) 0x108 = 0x2000" "vram_size kicks_example = 0x4000"
  by (simp_all add: kicks_example_def rd32_def wr32_def)

lemma kicks_example_ring: "ring_ok kicks_example" "pending kicks_example = [example_range 0 8, example_range 8 28]"
  "push_buffer kicks_example = Inr ((0x2000, 0x1000), kicks_example)" "parsedConstants kicks_example i j = 0"
proof -
  show "ring_ok kicks_example" by (simp add: ring_ok_def kicks_example_def)
  have "pending_depth 0 2 = Suc (Suc 0)" by (simp add: pending_depth_def)
  then show "pending kicks_example = [example_range 0 8, example_range 8 28]"
    by (simp add: pending_def kicks_example_def segment_def)
  have "push_bit 4 (GET_MASK (fregs kicks_example CACHE1_DMA_INSTANCE) 0xFFFF) = 0x100"
    by (simp add: kicks_example_def GET_MASK_def ffs_values)
  then show "push_buffer kicks_example = Inr ((0x2000, 0x1000), kicks_example)"
    by (simp add: nv_dma_map_run kicks_example_words) (simp add: GET_MASK_def)
  show "parsedConstants kicks_example i j = 0" by (simp add: kicks_example_def)
qed

lemma kicks_example_scan:
  "scan_ranges (vram kicks_example) 0x2000 0x1000 (vram_size kicks_example) (pending kicks_example) (scan_at 0 0 0) example_methods (scan_at 28 0xB90 0)"
proof -
  let ?d = "\<lambda>p. decode (rd32 (vram kicks_example) (0x2000 + pos p)) p"
  have d: "?d (scan_at 0 0 0) = Some (scan_at 4 0x1EA4 1, [])" "?d (scan_at 4 0x1EA4 1) = Some (scan_at 8 0x1EA8 0, [(0, 0x1EA4, 5)])"
    "?d (scan_at 8 0x1EA8 0) = Some (scan_at 12 0xB80 4, [])" "?d (scan_at 12 0xB80 4) = Some (scan_at 16 0xB84 3, [(0, 0xB80, 1)])"
    "?d (scan_at 16 0xB84 3) = Some (scan_at 20 0xB88 2, [(0, 0xB84, 2)])" "?d (scan_at 20 0xB88 2) = Some (scan_at 24 0xB8C 1, [(0, 0xB88, 3)])"
    "?d (scan_at 24 0xB8C 1) = Some (scan_at 28 0xB90 0, [(0, 0xB8C, 4)])"
    by (simp_all add: decode_def Let_def kicks_example_words)
  have s1: "scan_words (vram kicks_example) 0x2000 0x1000 0x4000 8 (Suc (Suc 0)) (scan_at 0 0 0) ([] @ [(0, 0x1EA4, 5)] @ []) (scan_at 8 0x1EA8 0)"
    by (rule scan_word, simp, simp, simp, rule d(1), simp add: fits_def, simp, rule scan_word, simp, simp, simp, rule d(2), simp add: fits_def,
        simp add: draw_method_def, rule scan_end, simp)
  have s2: "scan_words (vram kicks_example) 0x2000 0x1000 0x4000 28 (Suc (Suc (Suc (Suc (Suc 0))))) (scan_at 8 0x1EA8 0)
      ([] @ [(0, 0xB80, 1)] @ [(0, 0xB84, 2)] @ [(0, 0xB88, 3)] @ [(0, 0xB8C, 4)] @ []) (scan_at 28 0xB90 0)"
    by (rule scan_word, simp, simp, simp, rule d(3), simp add: fits_def, simp, rule scan_word, simp, simp, simp, rule d(4), simp add: fits_def,
        simp add: draw_method_def, rule scan_word, simp, simp, simp, rule d(5), simp add: fits_def, simp add: draw_method_def,
        rule scan_word, simp, simp, simp, rule d(6), simp add: fits_def, simp add: draw_method_def,
        rule scan_word, simp, simp, simp, rule d(7), simp add: fits_def, simp add: draw_method_def, rule scan_end, simp)
  have e: "rg_start (example_range 0 8) = pos (scan_at 0 0 0)" "rg_end (example_range 0 8) = 8"
    "rg_start (example_range 8 28) = pos (scan_at 8 0x1EA8 0)" "rg_end (example_range 8 28) = 28" by (simp_all add: example_range_def)
  have k: "Suc (Suc 0) \<le> PARSE_BUDGET" "Suc (Suc (Suc (Suc (Suc 0)))) \<le> PARSE_BUDGET" by simp_all
  have "scan_ranges (vram kicks_example) 0x2000 0x1000 0x4000 [example_range 0 8, example_range 8 28] (scan_at 0 0 0)
      (([] @ [(0, 0x1EA4, 5)] @ []) @ ([] @ [(0, 0xB80, 1)] @ [(0, 0xB84, 2)] @ [(0, 0xB88, 3)] @ [(0, 0xB8C, 4)] @ []) @ []) (scan_at 28 0xB90 0)"
    using scan_range [where r = "example_range 8 28", unfolded e(4), OF e(3) s2 k(2) scan_none]
    by (rule scan_range [where r = "example_range 0 8", unfolded e(2), OF e(1) s1 k(1)])
  then show ?thesis by (simp add: kicks_example_ring(2) kicks_example_words)
qed


theorem nv_kick_queue_witness:
  "\<exists>t. USER_write 0x40 40 kicks_example = Inr ((), t) \<and> map rg_end (pending t) = [8, 28, 40] \<and> fregs t CACHE1_DMA_PUT = 40"
proof -
  have "user_channel 0x40 kicks_example = Inr ((), kicks_example)"
    using ffs_field [of 5 0] by (simp add: user_channel_def Let_def run_simps reg_def kicks_example_def GET_MASK_def mask_eq_exp_minus_1)
  moreover have "fregs kicks_example CACHE1_DMA_PUT = 28" by (simp add: kicks_example_def)
  ultimately show ?thesis
    using nv_kick_queue [OF kicks_example_ring(1), of "0x40" "40"] by (auto simp: Let_def kicks_example_ring(2) example_range_def)
qed

end
