(* ===== verification/Nv_Regs.thy ===== *)
theory Nv_Regs
  imports Nv_Kicks
begin

text \<open>
  The register blocks of the graphics chip and its interrupt (\<open>src/devices/video/nv2a.cpp\<close> and the
  \<open>EmuNV2A_*.cpp\<close> of the blocks): PMC, PBUS, PFIFO, PVIDEO, PTIMER, PFB, PGRAPH, PCRTC, PRMCIO, PRAMDAC,
  PRAMIN and USER behind the block table, the vertical blank and the alarm, and the line of the
  interrupt controller (\<open>EmuKrnl.h\<close>). Locks, condition variables, logging and the host display are left
  out. The time is an argument. A division by zero of the host is \<open>Raised\<close> with its exception code.
\<close>

section \<open>State\<close>

record hal_irq =
  irq_asserted :: bool
  irq_pending :: bool
  irq_level_sensitive :: bool

record nv2a = kicks +
  pmc_pending :: u32
  pmc_enabled :: u32
  pcrtc_pending :: u32
  pcrtc_enabled :: u32
  pcrtc_start :: u32
  pcrtc_regs :: "u32 \<Rightarrow> u32"
  raster_stage :: nat
  pgraph_pending :: u32
  pgraph_enabled :: u32
  pgraph_regs :: "u32 \<Rightarrow> u32"
  vsh_constants :: "nat \<Rightarrow> nat \<Rightarrow> u32"
  dma_semaphore :: u32
  pvideo_pending :: u32
  pvideo_enabled :: u32
  pvideo_regs :: "u32 \<Rightarrow> u32"
  enable_overlay :: bool
  ptimer_pending :: u32
  ptimer_enabled :: u32
  numerator :: u32
  denominator :: u32
  alarm_time :: u32
  ptimer_last :: "u64"
  ptimer_period :: "u64"
  ptimer_active :: bool
  core_clock_coeff :: u32
  core_clock_freq :: "u64"
  memory_clock_coeff :: u32
  video_clock_coeff :: u32
  pramdac_regs :: "u32 \<Rightarrow> u32"
  cr_index :: u8
  cr :: "u8 \<Rightarrow> u8"
  pfb_regs :: "u32 \<Rightarrow> u32"
  vblank_last :: "u64"
  nv_exiting :: bool
  irq_line :: hal_irq
  irq_connected :: bool
  irq_services :: nat

definition divide_error :: fault where
  "divide_error = Raised 0xC0000094"

section \<open>The interrupt\<close>

definition hal_Assert :: "bool \<Rightarrow> hal_irq \<Rightarrow> hal_irq" where
  "hal_Assert state h = h\<lparr>irq_pending := (irq_pending h \<or> \<not> irq_asserted h \<and> state), irq_asserted := state\<rparr>"

definition hal_IsPending :: "hal_irq \<Rightarrow> bool" where
  "hal_IsPending h \<longleftrightarrow> irq_asserted h \<and> irq_pending h"

definition hal_Trigger :: "hal_irq \<Rightarrow> hal_irq" where
  "hal_Trigger h = h\<lparr>irq_pending := (irq_pending h \<and> \<not> irq_level_sensitive h)\<rparr>"

abbreviation (input) INTR_0_PFIFO :: u32 where "INTR_0_PFIFO \<equiv> 0x100"
abbreviation (input) INTR_0_PGRAPH :: u32 where "INTR_0_PGRAPH \<equiv> 0x1000"
abbreviation (input) INTR_0_PVIDEO :: u32 where "INTR_0_PVIDEO \<equiv> 0x10000"
abbreviation (input) INTR_0_PTIMER :: u32 where "INTR_0_PTIMER \<equiv> 0x100000"
abbreviation (input) INTR_0_PCRTC :: u32 where "INTR_0_PCRTC \<equiv> 0x1000000"

definition unit_irq :: "u32 \<Rightarrow> u32 \<Rightarrow> u32 \<Rightarrow> u32 \<Rightarrow> u32" where
  "unit_irq m pend en v = (if pend AND en \<noteq> 0 then v OR m else v AND NOT m)"

definition update_irq :: "'a nv2a_scheme \<Rightarrow> 'a nv2a_scheme" where
  "update_irq s = (let v = unit_irq INTR_0_PTIMER (ptimer_pending s) (ptimer_enabled s)
       (unit_irq INTR_0_PVIDEO (pvideo_pending s) (pvideo_enabled s)
       (unit_irq INTR_0_PGRAPH (pgraph_pending s) (pgraph_enabled s)
       (unit_irq INTR_0_PCRTC (pcrtc_pending s) (pcrtc_enabled s)
       (unit_irq INTR_0_PFIFO (fifo_pending s) (fifo_enabled s) (pmc_pending s))))) in
     s\<lparr>pmc_pending := v, irq_line := hal_Assert (v \<noteq> 0 \<and> pmc_enabled s \<noteq> 0) (irq_line s)\<rparr>)"

text \<open>The service routine of the guest is called when the line is pending and a routine is connected.\<close>

definition trigger_irq :: "'a nv2a_scheme \<Rightarrow> 'a nv2a_scheme" where
  "trigger_irq s = (if irq_connected s \<and> hal_IsPending (irq_line s)
     then s\<lparr>irq_line := hal_Trigger (irq_line s), irq_services := irq_services s + 1\<rparr> else s)"

section \<open>The blocks\<close>

definition PMC_Read32 :: "u32 \<Rightarrow> (u32, 'a nv2a_scheme) run" where
  "PMC_Read32 a = (if a = 0 then ret 0x02A000A2 else if a = 4 then ret 0
     else if a = 0x100 then get pmc_pending else if a = 0x140 then get pmc_enabled else ret 0)"

definition PMC_Write32 :: "u32 \<Rightarrow> u32 \<Rightarrow> (unit, 'a nv2a_scheme) run" where
  "PMC_Write32 a v = (if a = 0x100 then modify (\<lambda>s. update_irq (s\<lparr>pmc_pending := pmc_pending s AND NOT v\<rparr>))
     else if a = 0x140 then modify (\<lambda>s. update_irq (s\<lparr>pmc_enabled := v\<rparr>)) else ret ())"

definition PBUS_Read32 :: "u32 \<Rightarrow> (u32, 'a nv2a_scheme) run" where
  "PBUS_Read32 a = ret (if a = 0x800 then 0x10DE else if a = 0x804 then 1 else if a = 0x808 then 0x020000A1 else 0)"

definition PFIFO_Read32 :: "u32 \<Rightarrow> (u32, 'a fifo_scheme) run" where
  "PFIFO_Read32 a = (if a = 0x210 then ret 0x03000100 else if a = 0x214 then ret 0x00890110
     else if a = 0x100 then get fifo_pending else if a = 0x140 then get fifo_enabled
     else if a = 0x400 then ret 0x10 else bnd (check (a < 0x2000)) (\<lambda>_. reg a))"

definition PFIFO_Write32 :: "u32 \<Rightarrow> u32 \<Rightarrow> (unit, 'a nv2a_scheme) run" where
  "PFIFO_Write32 a v = (if a = 0x100 then modify (\<lambda>s. update_irq (s\<lparr>fifo_pending := fifo_pending s AND NOT v\<rparr>))
     else if a = 0x140 then modify (\<lambda>s. update_irq (s\<lparr>fifo_enabled := v\<rparr>))
     else bnd (check (a < 0x2000)) (\<lambda>_. set_reg a v))"

definition PVIDEO_Read32 :: "u32 \<Rightarrow> (u32, 'a nv2a_scheme) run" where
  "PVIDEO_Read32 a = (if a = 0x100 then get pvideo_pending else if a = 0x140 then get pvideo_enabled
     else if a = 0x704 then ret 0 else get (\<lambda>s. pvideo_regs s a))"

definition PVIDEO_Write32 :: "u32 \<Rightarrow> u32 \<Rightarrow> (unit, 'a nv2a_scheme) run" where
  "PVIDEO_Write32 a v = (if a = 0x100 then modify (\<lambda>s. update_irq (s\<lparr>pvideo_pending := pvideo_pending s AND NOT v\<rparr>))
     else if a = 0x140 then modify (\<lambda>s. update_irq (s\<lparr>pvideo_enabled := v\<rparr>))
     else if a = 0x700 then modify (\<lambda>s. s\<lparr>pvideo_regs := (pvideo_regs s)(0x700 := v), enable_overlay := (v \<noteq> 0)\<rparr>)
     else if a = 0x704 then modify (\<lambda>s. s\<lparr>pvideo_regs := (pvideo_regs s)(0x700 := 0), enable_overlay := False\<rparr>)
     else modify (\<lambda>s. s\<lparr>pvideo_regs := (pvideo_regs s)(a := v)\<rparr>))"

text \<open>\<open>Muldiv64\<close> with its 96-bit intermediate product; the high word of the quotient is cut to 32 bits.\<close>

definition Muldiv64 :: "u64 \<Rightarrow> u32 \<Rightarrow> u32 \<Rightarrow> fault + u64" where
  "Muldiv64 a b c = (if c = 0 then Inl divide_error else
     let rl = take_bit 32 a * ucast b; rh = drop_bit 32 a * ucast b + drop_bit 32 rl;
       high = take_bit 32 (rh div ucast c);
       low = take_bit 32 ((push_bit 32 (rh mod ucast c) + take_bit 32 rl) div ucast c) in
     Inr (push_bit 32 high OR low))"

definition ptimer_get_clock :: "u64 \<Rightarrow> (u64, 'a nv2a_scheme) run" where
  "ptimer_get_clock now s = (case Muldiv64 now (ucast (core_clock_freq s)) 1000000 of Inl e \<Rightarrow> Inl e
     | Inr x \<Rightarrow> (case Muldiv64 x (denominator s) (numerator s) of Inl e \<Rightarrow> Inl e | Inr y \<Rightarrow> Inr (y, s)))"

definition PTIMER_Read32 :: "u64 \<Rightarrow> u32 \<Rightarrow> (u32, 'a nv2a_scheme) run" where
  "PTIMER_Read32 now a = (if a = 0x100 then get ptimer_pending else if a = 0x140 then get ptimer_enabled
     else if a = 0x200 then get numerator else if a = 0x210 then get denominator
     else if a = 0x400 then bnd (ptimer_get_clock now) (\<lambda>t. ret (ucast (push_bit 5 (t AND 0x7FFFFFF))))
     else if a = 0x410 then bnd (ptimer_get_clock now) (\<lambda>t. ret (ucast (drop_bit 27 t AND 0x1FFFFFFF)))
     else ret 0)"

definition set_period :: "(unit, 'a nv2a_scheme) run" where
  "set_period s = (if core_clock_freq s = 0 then Inl divide_error
     else Inr ((), s\<lparr>ptimer_period := (ucast (drop_bit 5 (alarm_time s)) * 1000000) div core_clock_freq s\<rparr>))"

definition PTIMER_Write32 :: "u64 \<Rightarrow> u32 \<Rightarrow> u32 \<Rightarrow> (unit, 'a nv2a_scheme) run" where
  "PTIMER_Write32 now a v = (if a = 0x100 then modify (\<lambda>s. update_irq (s\<lparr>ptimer_pending := ptimer_pending s AND NOT v\<rparr>))
     else if a = 0x140 then modify (\<lambda>s. update_irq (if v AND 1 \<noteq> 0
       then s\<lparr>ptimer_enabled := v, ptimer_last := now, ptimer_active := True\<rparr> else s\<lparr>ptimer_enabled := v, ptimer_active := False\<rparr>))
     else if a = 0x210 then modify (\<lambda>s. s\<lparr>denominator := v\<rparr>)
     else if a = 0x200 then modify (\<lambda>s. s\<lparr>numerator := v\<rparr>)
     else if a = 0x420 then bnd (modify (\<lambda>s. s\<lparr>alarm_time := v\<rparr>)) (\<lambda>_. set_period)
     else ret ())"

definition PFB_Read32 :: "u32 \<Rightarrow> (u32, 'a nv2a_scheme) run" where
  "PFB_Read32 a = (if a = 0x200 then ret 3 else if a = 0x20C then get (\<lambda>s. of_nat (vram_size s))
     else if a = 0x410 then ret 0 else get (\<lambda>s. pfb_regs s a))"

definition PFB_Write32 :: "u32 \<Rightarrow> u32 \<Rightarrow> (unit, 'a nv2a_scheme) run" where
  "PFB_Write32 a v = modify (\<lambda>s. s\<lparr>pfb_regs := (pfb_regs s)(a := v)\<rparr>)"

text \<open>The vertical size of the frame.\<close>

definition GetFrameHeight :: "'a nv2a_scheme \<Rightarrow> u32" where
  "GetFrameHeight s = (let x = \<lambda>i. ucast (cr s i) :: u32 in x 0x12 OR push_bit 8 (drop_bit 1 (x 7 AND 2))
     OR push_bit 9 (drop_bit 6 (x 7 AND 0x40)) OR push_bit 10 (drop_bit 1 (x 0x25 AND 2)))"

definition PCRTC_Read32 :: "u32 \<Rightarrow> (u32, 'a nv2a_scheme) run" where
  "PCRTC_Read32 a = (if a = 0x100 then get pcrtc_pending else if a = 0x140 then get pcrtc_enabled
     else if a = 0x800 then get pcrtc_start
     else if a = 0x808 then bnd (get (\<lambda>s. if raster_stage s = 0 then 0 else if raster_stage s = 1 then GetFrameHeight s div 2
         else if raster_stage s = 2 then GetFrameHeight s + 1 else 0)) (\<lambda>r.
       bnd (modify (\<lambda>s. s\<lparr>raster_stage := (if 2 < raster_stage s + 1 then 0 else raster_stage s + 1)\<rparr>)) (\<lambda>_. ret r))
     else ret 0)"

definition PCRTC_Write32 :: "u32 \<Rightarrow> u32 \<Rightarrow> (unit, 'a nv2a_scheme) run" where
  "PCRTC_Write32 a v = (if a = 0x100 then modify (\<lambda>s. update_irq (s\<lparr>pcrtc_pending := pcrtc_pending s AND NOT v\<rparr>))
     else if a = 0x140 then modify (\<lambda>s. update_irq (s\<lparr>pcrtc_enabled := v\<rparr>))
     else if a = 0x800 then modify (\<lambda>s. s\<lparr>pcrtc_start := v AND 0x07FFFFFF\<rparr>)
     else modify (\<lambda>s. s\<lparr>pcrtc_regs := (pcrtc_regs s)(a := v)\<rparr>))"

definition PRMCIO_Read32 :: "u32 \<Rightarrow> (u32, 'a nv2a_scheme) run" where
  "PRMCIO_Read32 a = (if a = 0x3B4 \<or> a = 0x3D4 then get (\<lambda>s. ucast (cr_index s))
     else if a = 0x3B5 \<or> a = 0x3D5 then get (\<lambda>s. ucast (cr s (cr_index s))) else ret 0)"

text \<open>The lock bit of CR11 protects CR0 to CR7, but for bit 4 of CR7.\<close>

definition PRMCIO_Write32 :: "u32 \<Rightarrow> u32 \<Rightarrow> (unit, 'a nv2a_scheme) run" where
  "PRMCIO_Write32 a v = (if a = 0x3B4 \<or> a = 0x3D4 then modify (\<lambda>s. s\<lparr>cr_index := ucast v\<rparr>)
     else if a = 0x3B5 \<or> a = 0x3D5 then
       modify (\<lambda>s. if cr s 0x11 AND 0x80 \<noteq> 0 \<and> cr_index s \<le> 7 then
           if cr_index s = 7 then s\<lparr>cr := (cr s)(7 := (cr s 7 AND NOT 0x10) OR ucast (v AND 0x10))\<rparr> else s
         else s\<lparr>cr := (cr s)(cr_index s := ucast v)\<rparr>)
     else ret ())"

definition PRAMDAC_Read32 :: "u32 \<Rightarrow> (u32, 'a nv2a_scheme) run" where
  "PRAMDAC_Read32 a = (if a = 0x500 then get core_clock_coeff else if a = 0x504 then get memory_clock_coeff
     else if a = 0x508 then get video_clock_coeff else if a = 0x514 then ret 0xE8000000 else ret 0)"

abbreviation NV2A_CRYSTAL_FREQ :: u32 where "NV2A_CRYSTAL_FREQ \<equiv> 16666666"

definition PRAMDAC_Write32 :: "u32 \<Rightarrow> u32 \<Rightarrow> (unit, 'a nv2a_scheme) run" where
  "PRAMDAC_Write32 a v = (if a = 0x500 then
       (let m = v AND 0xFF; n = drop_bit 8 (v AND 0xFF00); p = drop_bit 16 (v AND 0x70000) in
        bnd (modify (\<lambda>s. s\<lparr>core_clock_coeff := v\<rparr>)) (\<lambda>_.
        if m = 0 then modify (\<lambda>s. s\<lparr>core_clock_freq := 0\<rparr>)
        else bnd (modify (\<lambda>s. s\<lparr>core_clock_freq := ucast (NV2A_CRYSTAL_FREQ * n div push_bit (unat p) 1 div m)\<rparr>)) (\<lambda>_. set_period)))
     else if a = 0x504 then modify (\<lambda>s. s\<lparr>memory_clock_coeff := v\<rparr>)
     else if a = 0x508 then modify (\<lambda>s. s\<lparr>video_clock_coeff := v\<rparr>)
     else modify (\<lambda>s. s\<lparr>pramdac_regs := (pramdac_regs s)(a := v)\<rparr>))"

definition PRAMIN_Read32 :: "u32 \<Rightarrow> (u32, 'a fifo_scheme) run" where
  "PRAMIN_Read32 a = get (\<lambda>s. rd32 (ramin s) a)"

definition PRAMIN_Write32 :: "u32 \<Rightarrow> u32 \<Rightarrow> (unit, 'a fifo_scheme) run" where
  "PRAMIN_Write32 a v = modify (\<lambda>s. s\<lparr>ramin := wr32 a v (ramin s)\<rparr>)"

section \<open>The registers of PGRAPH\<close>

definition rdi_index :: "'a nv2a_scheme \<Rightarrow> u32 \<times> u32" where
  "rdi_index s = (GET_MASK (pgraph_regs s 0x750) 0x01FF0000, GET_MASK (pgraph_regs s 0x750) 0x1FFC)"

definition pgraph_rdi_read :: "u32 \<Rightarrow> u32 \<Rightarrow> (u32, 'a nv2a_scheme) run" where
  "pgraph_rdi_read sel address = bnd (check (sel = 0x17 \<or> sel = 0xCC)) (\<lambda>_. bnd (check (address div 4 < NV2A_VERTEXSHADER_CONSTANTS)) (\<lambda>_.
     get (\<lambda>s. vsh_constants s (unat (address div 4)) (3 - unat (address mod 4)))))"

text \<open>A write of the constants fails the assertion that marks it as untested, other selections are ignored.\<close>

definition pgraph_rdi_write :: "u32 \<Rightarrow> u32 \<Rightarrow> u32 \<Rightarrow> (unit, 'a nv2a_scheme) run" where
  "pgraph_rdi_write sel address v = check (\<not> (sel = 0x17 \<or> sel = 0xCC))"

definition rdi_advance :: "u32 \<Rightarrow> (unit, 'a nv2a_scheme) run" where
  "rdi_advance address = bnd (check (address < 0x7FF)) (\<lambda>_.
     modify (\<lambda>s. s\<lparr>pgraph_regs := (pgraph_regs s)(0x750 := SET_MASK (pgraph_regs s 0x750) 0x1FFC (address + 1))\<rparr>))"

definition PGRAPH_Read32 :: "u32 \<Rightarrow> (u32, 'a nv2a_scheme) run" where
  "PGRAPH_Read32 a = (if a = 0x100 then get pgraph_pending else if a = 0x140 then get pgraph_enabled
     else if a = 0x754 then bnd (get rdi_index) (\<lambda>(sel, address).
       bnd (pgraph_rdi_read sel address) (\<lambda>r. bnd (rdi_advance address) (\<lambda>_. ret r)))
     else get (\<lambda>s. pgraph_regs s a))"

text \<open>The flip counter: the surface that is read next.\<close>

definition increment_read_3d :: "u32 \<Rightarrow> (unit, 'a nv2a_scheme) run" where
  "increment_read_3d v s = (if v AND 2 = 0 then Inr ((), s) else
     let r = pgraph_regs s 0x710; n = GET_MASK r 0x70000000 in
     if n = 0 then Inl divide_error
     else Inr ((), s\<lparr>pgraph_regs := (pgraph_regs s)(0x710 := SET_MASK r 0x07000000 ((GET_MASK r 0x07000000 + 1) mod n))\<rparr>))"

definition PGRAPH_Write32 :: "u32 \<Rightarrow> u32 \<Rightarrow> (unit, 'a nv2a_scheme) run" where
  "PGRAPH_Write32 a v = (if a = 0x100 then modify (\<lambda>s. s\<lparr>pgraph_pending := pgraph_pending s AND NOT v\<rparr>)
     else if a = 0x140 then modify (\<lambda>s. s\<lparr>pgraph_enabled := v\<rparr>)
     else if a = 0x71C then increment_read_3d v
     else if a = 0x754 then bnd (get rdi_index) (\<lambda>(sel, address). bnd (pgraph_rdi_write sel address v) (\<lambda>_. rdi_advance address))
     else if a = 0x788 then
       (if v AND 1 = 0 then ret ()
        else modify (\<lambda>s. s\<lparr>pgraph_regs := (pgraph_regs s)(0x148 := rd32 (ramin s) (push_bit 4 (GET_MASK (pgraph_regs s 0x784) 0xFFFF)))\<rparr>))
     else modify (\<lambda>s. s\<lparr>pgraph_regs := (pgraph_regs s)(a := v)\<rparr>))"

section \<open>The block table\<close>

datatype nv_block = PMC | PBUS | PFIFO | PRMA | PVIDEO | PTIMER | PCOUNTER | PVPE | PTV | PRMFB | PRMVIO | PFB | PSTRAPS | PGRAPH | PCRTC
  | PRMCIO | PRAMDAC | PRMDIO | PRAMIN | USER | UREMAP

definition nv_regions :: "(u32 \<times> u32 \<times> nv_block) list" where
  "nv_regions = [(0x000000, 0x001000, PMC), (0x001000, 0x001000, PBUS), (0x002000, 0x002000, PFIFO), (0x007000, 0x001000, PRMA),
     (0x008000, 0x001000, PVIDEO), (0x009000, 0x001000, PTIMER), (0x00A000, 0x001000, PCOUNTER), (0x00B000, 0x001000, PVPE),
     (0x00D000, 0x001000, PTV), (0x0A0000, 0x020000, PRMFB), (0x0C0000, 0x008000, PRMVIO), (0x100000, 0x001000, PFB),
     (0x101000, 0x001000, PSTRAPS), (0x400000, 0x002000, PGRAPH), (0x600000, 0x001000, PCRTC), (0x601000, 0x001000, PRMCIO),
     (0x680000, 0x001000, PRAMDAC), (0x681000, 0x001000, PRMDIO), (0x700000, 0x100000, PRAMIN), (0x800000, 0x400000, USER),
     (0xC00000, 0x400000, UREMAP)]"

definition EmuNV2A_Block :: "u32 \<Rightarrow> (u32 \<times> u32 \<times> nv_block) option" where
  "EmuNV2A_Block a = find (\<lambda>(off, sz, _). off \<le> a \<and> a < off + sz) nv_regions"

text \<open>Blocks without registers read zero and ignore writes.\<close>

definition block_read :: "u64 \<Rightarrow> nv_block \<Rightarrow> u32 \<Rightarrow> (u32, 'a nv2a_scheme) run" where
  "block_read now b a = (case b of PMC \<Rightarrow> PMC_Read32 a | PBUS \<Rightarrow> PBUS_Read32 a | PFIFO \<Rightarrow> PFIFO_Read32 a | PVIDEO \<Rightarrow> PVIDEO_Read32 a
     | PTIMER \<Rightarrow> PTIMER_Read32 now a | PFB \<Rightarrow> PFB_Read32 a | PGRAPH \<Rightarrow> PGRAPH_Read32 a | PCRTC \<Rightarrow> PCRTC_Read32 a
     | PRMCIO \<Rightarrow> PRMCIO_Read32 a | PRAMDAC \<Rightarrow> PRAMDAC_Read32 a | PRAMIN \<Rightarrow> PRAMIN_Read32 a | USER \<Rightarrow> USER_read a | UREMAP \<Rightarrow> USER_read a
     | _ \<Rightarrow> ret 0)"

definition block_write :: "u64 \<Rightarrow> nv_block \<Rightarrow> u32 \<Rightarrow> u32 \<Rightarrow> (unit, 'a nv2a_scheme) run" where
  "block_write now b a v = (case b of PMC \<Rightarrow> PMC_Write32 a v | PFIFO \<Rightarrow> PFIFO_Write32 a v | PVIDEO \<Rightarrow> PVIDEO_Write32 a v
     | PTIMER \<Rightarrow> PTIMER_Write32 now a v | PFB \<Rightarrow> PFB_Write32 a v | PGRAPH \<Rightarrow> PGRAPH_Write32 a v | PCRTC \<Rightarrow> PCRTC_Write32 a v
     | PRMCIO \<Rightarrow> PRMCIO_Write32 a v | PRAMDAC \<Rightarrow> PRAMDAC_Write32 a v | PRAMIN \<Rightarrow> PRAMIN_Write32 a v | USER \<Rightarrow> USER_write a v | UREMAP \<Rightarrow> USER_write a v
     | _ \<Rightarrow> ret ())"

definition nv_MMIORead :: "u64 \<Rightarrow> nat \<Rightarrow> u32 \<Rightarrow> nat \<Rightarrow> (u32, 'a nv2a_scheme) run" where
  "nv_MMIORead now bar a sz = (if bar \<noteq> 0 then ret 0 else case EmuNV2A_Block a of None \<Rightarrow> ret 0
     | Some (off, _, b) \<Rightarrow>
         if sz = 1 then bnd (block_read now b (a - off)) (\<lambda>r. ret (r AND 0xFF))
         else if sz = 2 then bnd (check (a AND 1 = 0)) (\<lambda>_. bnd (block_read now b (a - off)) (\<lambda>r. ret (r AND 0xFFFF)))
         else if sz = 4 then bnd (check (a AND 3 = 0)) (\<lambda>_. block_read now b (a - off))
         else fail AssertFailed)"

text \<open>A 16-bit write reads, merges and writes a word; the shift by 32 for the upper half is the shift by 0 of the host's processor.\<close>

definition nv_MMIOWrite :: "u64 \<Rightarrow> nat \<Rightarrow> u32 \<Rightarrow> u32 \<Rightarrow> nat \<Rightarrow> (unit, 'a nv2a_scheme) run" where
  "nv_MMIOWrite now bar a v sz = (if bar \<noteq> 0 then ret () else case EmuNV2A_Block a of None \<Rightarrow> ret ()
     | Some (off, _, b) \<Rightarrow>
         if sz = 1 then block_write now b (a - off) v
         else if sz = 2 then bnd (check (a AND 1 = 0)) (\<lambda>_. let w = (a AND NOT 3) - off; sh = (unat (a AND 2) * 16) mod 32 in
           bnd (block_read now b w) (\<lambda>r. block_write now b w ((r AND NOT (push_bit sh 0xFFFF)) OR push_bit sh v)))
         else if sz = 4 then bnd (check (a AND 3 = 0)) (\<lambda>_. block_write now b (a - off) v)
         else ret ())"

section \<open>The vertical blank and the alarm\<close>

definition nv2a_vblank_interrupt :: "'a nv2a_scheme \<Rightarrow> 'a nv2a_scheme" where
  "nv2a_vblank_interrupt s = (if nv_exiting s then s else trigger_irq (update_irq (s\<lparr>pcrtc_pending := pcrtc_pending s OR 1\<rparr>)))"

abbreviation VBLANK_PERIOD :: u64 where "VBLANK_PERIOD \<equiv> 16666"

text \<open>The result is the time until the next call.\<close>

definition vblank_next :: "u64 \<Rightarrow> (u64, 'a nv2a_scheme) run" where
  "vblank_next now s = (let nxt = vblank_last s + VBLANK_PERIOD in
     if nxt \<le> now then Inr (VBLANK_PERIOD, (nv2a_vblank_interrupt s)\<lparr>vblank_last := nxt\<rparr>) else Inr (nxt - now, s))"

definition ptimer_next :: "u64 \<Rightarrow> (u64, 'a nv2a_scheme) run" where
  "ptimer_next now s = (if \<not> ptimer_active s then Inr (- 1, s) else
     let period = ptimer_period s; nxt = ptimer_last s + period in
     if nxt \<le> now then
       Inr (period, (if nv_exiting s then s else trigger_irq (update_irq (s\<lparr>ptimer_pending := ptimer_pending s OR 1\<rparr>)))\<lparr>ptimer_last := nxt\<rparr>)
     else Inr (nxt - now, s))"

definition nv_Init :: "u64 \<Rightarrow> nat \<Rightarrow> 'a nv2a_scheme \<Rightarrow> 'a nv2a_scheme" where
  "nv_Init now sz s = s\<lparr>pcrtc_start := 0, vram_size := sz, pmc_pending := 0, pmc_enabled := 1, pcrtc_pending := 0, pcrtc_enabled := 1,
     core_clock_coeff := 0x00011C01, core_clock_freq := 233333324, memory_clock_coeff := 0, video_clock_coeff := 0x0003C20D,
     vblank_last := now, fregs := (fregs s)(CACHE1_STATUS := fregs s CACHE1_STATUS OR STATUS_LOW_MARK)\<rparr>"

section \<open>Discarding the pending ranges\<close>

text \<open>When a draw does not need the constants, the pending ranges are only scanned for semaphore releases, which titles wait for.\<close>

abbreviation (input) SEMAPHOREOFFSET :: u32 where "SEMAPHOREOFFSET \<equiv> 0x19A0"

definition vram_write :: "u32 \<Rightarrow> u32 \<Rightarrow> u32 \<Rightarrow> (unit, 'a fifo_scheme) run" where
  "vram_write b off v s = (if unat b + unat off + 4 \<le> vram_size s then Inr ((), s\<lparr>vram := wr32 (b + off) v (vram s)\<rparr>) else Inl OutOfBounds)"

definition discard_data :: "u32 \<Rightarrow> u32 \<Rightarrow> (unit, 'a nv2a_scheme) run" where
  "discard_data m word = (if m = NV097_SET_SEMAPHORE_OFFSET then modify (\<lambda>s. s\<lparr>pgraph_regs := (pgraph_regs s)(SEMAPHOREOFFSET := word)\<rparr>)
     else if m = NV097_BACK_END_WRITE_SEMAPHORE_RELEASE then
       bnd (get (\<lambda>s. pgraph_regs s SEMAPHOREOFFSET)) (\<lambda>off. bnd (get dma_semaphore) (\<lambda>sem. bnd (nv_dma_map sem) (\<lambda>(b, len).
         if off < len then vram_write b off word else ret ())))
     else ret ())"

fun discard_loop :: "nat \<Rightarrow> u32 \<Rightarrow> u32 \<Rightarrow> u32 \<Rightarrow> parse \<Rightarrow> (unit, 'a nv2a_scheme) run" where
  "discard_loop 0 b len e st = ret ()"
| "discard_loop (Suc k) b len e st = (if p_pos st = e \<or> len \<le> p_pos st then ret () else
     bnd (dma_word b (p_pos st)) (\<lambda>word. let st1 = st\<lparr>p_pos := p_pos st + 4\<rparr> in
       if p_count st \<noteq> 0 then
         bnd (discard_data (p_method st) word) (\<lambda>_. discard_loop k b len e (st1\<lparr>p_method := (if p_type st = 0 then p_method st + 4 else p_method st),
           p_count := p_count st - 1\<rparr>))
       else discard_loop k b len e (parse_command word st1)))"

fun discard_ranges :: "nat \<Rightarrow> u32 \<Rightarrow> u32 \<Rightarrow> nat \<Rightarrow> nat \<Rightarrow> (unit, 'a nv2a_scheme) run" where
  "discard_ranges 0 b len read write = ret ()"
| "discard_ranges (Suc k) b len read write = (if read = write then ret () else
     bnd (get (\<lambda>s. let r = kick_ranges s ! read in (rg_end r, parse_start (rg_start r) (rg_dma_state r) (rg_dma_subroutine r) 192 s))) (\<lambda>(e, st).
     bnd (discard_loop PARSE_BUDGET b len e st) (\<lambda>_. discard_ranges k b len ((read + 1) mod MAX_RANGES) write)))"

definition discard_pending_kicks :: "(unit, 'a nv2a_scheme) run" where
  "discard_pending_kicks = bnd (modify (\<lambda>s. s\<lparr>parsedSlotDirty := \<lambda>_. False\<rparr>)) (\<lambda>_. bnd (get kick_read) (\<lambda>read. bnd (get kick_write) (\<lambda>write.
     bnd (if read = write then ret () else
       bnd (reg CACHE1_DMA_INSTANCE) (\<lambda>i. bnd (nv_dma_map (push_bit 4 (GET_MASK i 0xFFFF))) (\<lambda>(b, len). discard_ranges MAX_RANGES b len read write))) (\<lambda>_.
     modify (\<lambda>s. s\<lparr>kick_read := kick_write s\<rparr>)))))"

end
