(* ===== verification/Nv_RegsFacts.thy ===== *)
theory Nv_RegsFacts
  imports Nv_Regs
begin

text \<open>
  The interrupt of the graphics chip: the pending bits of PMC and the line follow the units under every access
  and tick. \<open>Muldiv64\<close> is a division of the full product.
\<close>

section \<open>Multiplication and division\<close>

lemma unat_bound: "unat (v :: u32) < 2 ^ 32" "unat (w :: u64) < 2 ^ 64"
  by (rule order_less_le_trans [OF unsigned_less], simp)+

lemma unat64 [simp]: "unat (ucast (b :: u32) :: u64) = unat b"
  using unat_bound(1) [of b] by (simp add: unsigned_ucast_eq take_bit_nat_eq_self)

lemma Muldiv64_nat:
  fixes a b c :: nat
  assumes c: "0 < c"
  defines "rl \<equiv> a mod 2 ^ 32 * b" and "rh \<equiv> a div 2 ^ 32 * b + a mod 2 ^ 32 * b div 2 ^ 32"
  shows "a * b div c = rh div c * 2 ^ 32 + (rh mod c * 2 ^ 32 + rl mod 2 ^ 32) div c"
proof -
  have "a * b = (a div 2 ^ 32 * 2 ^ 32 + a mod 2 ^ 32) * b" by simp
  also have "\<dots> = a div 2 ^ 32 * b * 2 ^ 32 + rl" by (simp only: rl_def distrib_right mult.assoc mult.commute [of "2 ^ 32" b])
  also have "\<dots> = a div 2 ^ 32 * b * 2 ^ 32 + (rl div 2 ^ 32 * 2 ^ 32 + rl mod 2 ^ 32)" by simp
  also have "\<dots> = rh * 2 ^ 32 + rl mod 2 ^ 32" by (simp only: rh_def rl_def distrib_right add.assoc)
  also have "\<dots> = (rh div c * c + rh mod c) * 2 ^ 32 + rl mod 2 ^ 32" by simp
  also have "\<dots> = rh div c * 2 ^ 32 * c + (rh mod c * 2 ^ 32 + rl mod 2 ^ 32)"
    by (simp only: distrib_right mult.assoc mult.commute [of c "2 ^ 32"] add.assoc)
  finally have "a * b = rh div c * 2 ^ 32 * c + (rh mod c * 2 ^ 32 + rl mod 2 ^ 32)" by simp
  then show ?thesis using c by simp
qed

lemma Muldiv64_eq:
  assumes c: "c \<noteq> 0"
  shows "Muldiv64 a b c = Inr (of_nat (unat a * unat b div unat c))"
proof -
  define rl rh where "rl = unat a mod 2 ^ 32 * unat b" and "rh = unat a div 2 ^ 32 * unat b + unat a mod 2 ^ 32 * unat b div 2 ^ 32"
  have b: "unat b < 2 ^ 32" "unat c < 2 ^ 32" "0 < unat c" using unat_bound(1) [of b] unat_bound(1) [of c] c by (simp_all add: unat_gt_0)
  have ah: "unat a div 2 ^ 32 < 2 ^ 32" using unat_bound(2) [of a] by (simp add: div_less_iff_less_mult)
  have rl: "rl < 2 ^ 64"
    using mult_strict_mono [of "unat a mod 2 ^ 32" "2 ^ 32" "unat b" "2 ^ 32"] b(1) unfolding rl_def by simp
  have rhb: "unat a div 2 ^ 32 * unat b \<le> (2 ^ 32 - 1) * (2 ^ 32 - 1)" using ah b(1) by (intro mult_le_mono) simp_all
  have rh: "rh < 2 ^ 64" using rhb rl unfolding rh_def rl_def [symmetric] by (simp add: div_less_iff_less_mult)
  define x where "x = rh mod unat c * 2 ^ 32 + rl mod 2 ^ 32"
  have x: "x < unat c * 2 ^ 32"
  proof -
    have "rh mod unat c \<le> unat c - 1" using mod_less_divisor [OF b(3), of rh] by simp
    then have "rh mod unat c * 2 ^ 32 \<le> (unat c - 1) * 2 ^ 32" by (rule mult_le_mono1)
    moreover have "rl mod 2 ^ 32 < 2 ^ 32" by simp
    ultimately have "x < (unat c - 1) * 2 ^ 32 + 2 ^ 32" unfolding x_def by linarith
    also have "\<dots> = unat c * 2 ^ 32" using b(3) by (simp add: algebra_simps)
    finally show ?thesis .
  qed
  have xd: "x div unat c < 2 ^ 32" using x b(3) by (simp add: div_less_iff_less_mult mult.commute)
  have x64: "x < 2 ^ 64" using x b(2) mult_strict_right_mono [of "unat c" "2 ^ 32" "2 ^ 32 :: nat"] by simp
  let ?rl = "take_bit 32 a * ucast b :: u64"
  let ?rh = "drop_bit 32 a * ucast b + drop_bit 32 ?rl :: u64"
  have t: "unat (take_bit 32 a) = unat a mod 2 ^ 32" "unat (drop_bit 32 a) = unat a div 2 ^ 32"
    by (simp_all add: take_bit_eq_mod drop_bit_eq_div unat_div unat_mod)
  have wl: "unat ?rl = rl" using rl unfolding rl_def by (subst unat_mult_lem [THEN iffD1]) (simp_all add: t)
  have m: "unat (drop_bit 32 a * ucast b :: u64) = unat a div 2 ^ 32 * unat b"
    using rhb by (subst unat_mult_lem [THEN iffD1]) (simp_all add: t)
  have d: "unat (drop_bit 32 ?rl) = rl div 2 ^ 32" by (simp add: drop_bit_eq_div unat_div wl)
  have wh: "unat ?rh = rh"
    using rh unfolding rh_def rl_def [symmetric] d [symmetric] m [symmetric] by (intro unat_add_lem [THEN iffD1]) simp
  have q: "unat (?rh mod ucast c) = rh mod unat c" by (simp add: unat_mod wh)
  have p: "unat (push_bit 32 (?rh mod ucast c)) = rh mod unat c * 2 ^ 32"
    using x64 unfolding x_def push_bit_eq_mult by (subst unat_mult_lem [THEN iffD1]) (simp_all add: q)
  have l: "unat (take_bit 32 ?rl) = rl mod 2 ^ 32"
    unfolding unsigned_take_bit_eq wl by (simp add: take_bit_eq_mod)
  have w: "unat (push_bit 32 (?rh mod ucast c) + take_bit 32 ?rl) = x"
    using x64 unfolding x_def p [symmetric] l [symmetric] by (intro unat_add_lem [THEN iffD1]) simp
  define lo where "lo = (push_bit 32 (?rh mod ucast c) + take_bit 32 ?rl) div ucast c"
  have lo: "unat lo = x div unat c" by (simp add: lo_def unat_div w)
  then have lt: "take_bit 32 lo = lo" using xd by (simp add: word_unat_eq_iff unsigned_take_bit_eq take_bit_nat_eq_self)
  have "rh div unat c < 2 ^ 64" using order.strict_trans1 [OF div_le_dividend rh] .
  then have "unat (of_nat (rh div unat c) :: u64) = rh div unat c" by (simp add: unsigned_of_nat take_bit_nat_eq_self)
  then have hi: "?rh div ucast c = of_nat (rh div unat c)" by (simp add: word_unat_eq_iff unat_div wh)
  have "push_bit 32 (take_bit 32 (?rh div ucast c)) OR lo = push_bit 32 (?rh div ucast c) + lo"
  proof -
    have "push_bit 32 (take_bit 32 (?rh div ucast c)) OR take_bit 32 lo = push_bit 32 (?rh div ucast c) OR take_bit 32 lo"
      by (rule bit_word_eqI) (auto simp: bit_simps)
    also have "\<dots> = push_bit 32 (?rh div ucast c) + take_bit 32 lo"
      by (rule disjunctive_add [symmetric]) (auto simp: bit_simps)
    finally show ?thesis by (simp only: lt)
  qed
  also have "\<dots> = of_nat (rh div unat c * 2 ^ 32 + x div unat c)"
    using arg_cong [OF lo, of "of_nat :: nat \<Rightarrow> u64"] unfolding hi push_bit_eq_mult by simp
  also have "\<dots> = of_nat (unat a * unat b div unat c)"
    using Muldiv64_nat [OF b(3), of "unat a" "unat b"] by (simp only: rl_def rh_def x_def)
  finally show ?thesis using c lt by (simp add: Muldiv64_def Let_def lo_def)
qed

section \<open>The interrupt\<close>

text \<open>The pending bits of PMC, but for PGRAPH, are those of the units, and the line is up when some bit is pending and some unit enabled.\<close>

definition unit_ok :: "u32 \<Rightarrow> u32 \<Rightarrow> u32 \<Rightarrow> 'a nv2a_scheme \<Rightarrow> bool" where
  "unit_ok m pend en s \<longleftrightarrow> (pmc_pending s AND m \<noteq> 0 \<longleftrightarrow> pend AND en \<noteq> 0)"

definition irq_ok :: "'a nv2a_scheme \<Rightarrow> bool" where
  "irq_ok s \<longleftrightarrow> unit_ok INTR_0_PFIFO (fifo_pending s) (fifo_enabled s) s \<and> unit_ok INTR_0_PCRTC (pcrtc_pending s) (pcrtc_enabled s) s
     \<and> unit_ok INTR_0_PVIDEO (pvideo_pending s) (pvideo_enabled s) s \<and> unit_ok INTR_0_PTIMER (ptimer_pending s) (ptimer_enabled s) s
     \<and> (irq_asserted (irq_line s) \<longleftrightarrow> pmc_pending s \<noteq> 0 \<and> pmc_enabled s \<noteq> 0)"

lemma irq_bits:
  fixes v :: u32
  shows "v AND INTR_0_PFIFO \<noteq> 0 \<longleftrightarrow> bit v 8" "v AND INTR_0_PGRAPH \<noteq> 0 \<longleftrightarrow> bit v 12" "v AND INTR_0_PVIDEO \<noteq> 0 \<longleftrightarrow> bit v 16"
    "v AND INTR_0_PTIMER \<noteq> 0 \<longleftrightarrow> bit v 20" "v AND INTR_0_PCRTC \<noteq> 0 \<longleftrightarrow> bit v 24"
  using bit_iff_and_push_bit_not_eq_0 [of v 8] bit_iff_and_push_bit_not_eq_0 [of v 12] bit_iff_and_push_bit_not_eq_0 [of v 16]
    bit_iff_and_push_bit_not_eq_0 [of v 20] bit_iff_and_push_bit_not_eq_0 [of v 24] by simp_all

lemma bit_unit_irq:
  assumes "m = push_bit k 1" and "n < 32"
  shows "bit (unit_irq m p e v) n = (if n = k then p AND e \<noteq> 0 else bit v n)"
  using assms by (auto simp: unit_irq_def bit_simps)

lemma bit_unit_irqs:
  assumes "n < 32"
  shows "bit (unit_irq INTR_0_PFIFO p e v) n = (if n = 8 then p AND e \<noteq> 0 else bit v n)"
    "bit (unit_irq INTR_0_PGRAPH p e v) n = (if n = 12 then p AND e \<noteq> 0 else bit v n)"
    "bit (unit_irq INTR_0_PVIDEO p e v) n = (if n = 16 then p AND e \<noteq> 0 else bit v n)"
    "bit (unit_irq INTR_0_PTIMER p e v) n = (if n = 20 then p AND e \<noteq> 0 else bit v n)"
    "bit (unit_irq INTR_0_PCRTC p e v) n = (if n = 24 then p AND e \<noteq> 0 else bit v n)"
  by (rule bit_unit_irq [OF _ assms], simp)+

lemma update_irq_ok: "irq_ok (update_irq s)"
  "bit (pmc_pending (update_irq s)) 12 \<longleftrightarrow> pgraph_pending (update_irq s) AND pgraph_enabled (update_irq s) \<noteq> 0"
  unfolding irq_ok_def unit_ok_def irq_bits by (simp_all add: update_irq_def Let_def bit_unit_irqs hal_Assert_def)

definition irq_same :: "'a nv2a_scheme \<Rightarrow> 'a nv2a_scheme \<Rightarrow> bool" where
  "irq_same s t \<longleftrightarrow> pmc_pending t = pmc_pending s \<and> pmc_enabled t = pmc_enabled s \<and> fifo_pending t = fifo_pending s \<and> fifo_enabled t = fifo_enabled s
     \<and> pcrtc_pending t = pcrtc_pending s \<and> pcrtc_enabled t = pcrtc_enabled s \<and> pvideo_pending t = pvideo_pending s \<and> pvideo_enabled t = pvideo_enabled s
     \<and> ptimer_pending t = ptimer_pending s \<and> ptimer_enabled t = ptimer_enabled s \<and> irq_asserted (irq_line t) = irq_asserted (irq_line s)"

lemma irq_same_ok: "irq_same s t \<Longrightarrow> irq_ok s \<Longrightarrow> irq_ok t"
  by (simp add: irq_same_def irq_ok_def unit_ok_def)

text \<open>An operation either ends with \<open>update_irq\<close> or does not touch the interrupt state.\<close>

definition irq_step :: "'a nv2a_scheme \<Rightarrow> 'a nv2a_scheme \<Rightarrow> bool" where
  "irq_step s t \<longleftrightarrow> irq_same s t \<or> (\<exists>u. irq_same (update_irq u) t)"

lemma irq_step_ok: "irq_step s t \<Longrightarrow> irq_ok s \<Longrightarrow> irq_ok t"
  using irq_same_ok update_irq_ok(1) by (auto simp: irq_step_def)

lemma irq_same_refl [simp]: "irq_same s s"
  by (simp add: irq_same_def)

lemma irq_step_update [simp]: "irq_step s (update_irq u)"
  unfolding irq_step_def using irq_same_refl by blast

lemma irq_same_step: "irq_same s t \<Longrightarrow> irq_step s t"
  by (simp add: irq_step_def)

lemma trigger_same: "irq_same u (trigger_irq u)"
  by (simp add: irq_same_def trigger_irq_def hal_Trigger_def)

lemmas block_defs = PMC_Write32_def PFIFO_Write32_def PVIDEO_Write32_def PTIMER_Write32_def PFB_Write32_def PGRAPH_Write32_def PCRTC_Write32_def
  PRMCIO_Write32_def PRAMDAC_Write32_def PRAMIN_Write32_def USER_write_def set_period_def set_reg_def reg_def rdi_index_def rdi_advance_def
  pgraph_rdi_write_def increment_read_3d_def user_channel_def notify_dma_put_write_def note_pending_depth_def

lemma block_write_step:
  assumes "block_write now b a v s = Inr (r, t)"
  shows "irq_step s t"
  using assms
  by (cases b) (auto simp: block_write_def block_defs run_simps Let_def irq_same_step irq_same_def split: if_splits)

lemma block_read_step:
  assumes "block_read now b a s = Inr (r, t)"
  shows "irq_same s t"
  using assms
  by (cases b) (auto simp: block_read_def PMC_Read32_def PBUS_Read32_def PFIFO_Read32_def PVIDEO_Read32_def PTIMER_Read32_def ptimer_get_clock_def PFB_Read32_def
      PGRAPH_Read32_def pgraph_rdi_read_def rdi_advance_def PCRTC_Read32_def PRMCIO_Read32_def PRAMDAC_Read32_def PRAMIN_Read32_def USER_read_def
      user_channel_def reg_def run_simps rdi_index_def Let_def irq_same_def split: if_splits sum.splits)

lemma irq_step_trans: "irq_same s t \<Longrightarrow> irq_step t u \<Longrightarrow> irq_step s u"
  by (auto simp: irq_step_def irq_same_def)

lemma MMIOWrite_step: "nv_MMIOWrite now bar a v sz s = Inr (r, t) \<Longrightarrow> irq_step s t"
  using block_write_step block_read_step irq_step_trans
  by (fastforce simp: nv_MMIOWrite_def run_simps Let_def irq_same_step split: if_splits option.splits sum.splits)

lemma MMIORead_step: "nv_MMIORead now bar a sz s = Inr (r, t) \<Longrightarrow> irq_same s t"
  using block_read_step by (fastforce simp: nv_MMIORead_def run_simps split: if_splits option.splits sum.splits)

lemma trigger_step: "irq_step s (trigger_irq (update_irq u))"
  using trigger_same [of "update_irq u"] by (auto simp: irq_step_def)

lemma vblank_step: "vblank_next now s = Inr (r, t) \<Longrightarrow> irq_step s t"
  using trigger_step [of s "s\<lparr>pcrtc_pending := pcrtc_pending s OR 1\<rparr>"]
  by (auto simp: vblank_next_def nv2a_vblank_interrupt_def Let_def irq_step_def irq_same_def split: if_splits)

lemma ptimer_step: "ptimer_next now s = Inr (r, t) \<Longrightarrow> irq_step s t"
  using trigger_step [of s "s\<lparr>ptimer_pending := ptimer_pending s OR 1\<rparr>"]
  by (auto simp: ptimer_next_def Let_def irq_step_def irq_same_def split: if_splits)

inductive nv_step :: "'a nv2a_scheme \<Rightarrow> 'a nv2a_scheme \<Rightarrow> bool" where
  nv_read: "nv_MMIORead now bar a sz s = Inr (r, t) \<Longrightarrow> nv_step s t"
| nv_write: "nv_MMIOWrite now bar a v sz s = Inr (r, t) \<Longrightarrow> nv_step s t"
| nv_vblank: "vblank_next now s = Inr (r, t) \<Longrightarrow> nv_step s t"
| nv_alarm: "ptimer_next now s = Inr (r, t) \<Longrightarrow> nv_step s t"

lemma nv_step_ok: "nv_step s t \<Longrightarrow> irq_ok s \<Longrightarrow> irq_ok t"
  by (induction rule: nv_step.induct) (blast intro: irq_step_ok irq_same_step MMIORead_step MMIOWrite_step vblank_step ptimer_step)+

text \<open>A write of PGRAPH's own interrupt register does not reach PMC: its pending bit and the line stay as they were.\<close>

lemma pgraph_irq_stale: "PGRAPH_Write32 0x100 v s = Inr ((), t) \<Longrightarrow> pmc_pending t = pmc_pending s \<and> irq_line t = irq_line s \<and> pgraph_pending t = pgraph_pending s AND NOT v"
  by (auto simp: PGRAPH_Write32_def)

section \<open>Properties\<close>


text \<open>C9: The timer of PTIMER counts the elapsed microseconds at the core clock, divided by a million and scaled by the denominator over the
  numerator: the 96-bit arithmetic loses nothing before the final cut to 64 bits of each step. A numerator of zero is a division by zero.\<close>

theorem nv_ptimer_clock:
  "ptimer_get_clock now s = (if numerator s = 0 then Inl divide_error
     else Inr (of_nat (unat (of_nat (unat now * unat (ucast (core_clock_freq s) :: u32) div 1000000) :: u64) * unat (denominator s) div unat (numerator s)), s))"
proof -
  have m: "Muldiv64 now (ucast (core_clock_freq s)) 1000000 = Inr (of_nat (unat now * unat (ucast (core_clock_freq s) :: u32) div 1000000))"
    by (subst Muldiv64_eq) simp_all
  show ?thesis
  proof (cases "numerator s = 0")
    case False
    then show ?thesis by (simp add: ptimer_get_clock_def m Muldiv64_eq)
  qed (simp add: ptimer_get_clock_def m, simp add: Muldiv64_def)
qed

text \<open>The state of a chip before its initialisation, with a routine connected to the interrupt.\<close>

definition nv_example :: nv2a where
  "nv_example = \<lparr>fregs = (\<lambda>_. 0), fifo_pending = 0, fifo_enabled = 0, ramin = (\<lambda>_. 0), vram = (\<lambda>_. 0), vram_size = 0, dmaConstLoadShadow = 0,
     pg_calls = [], kick_ranges = [], kick_read = 0, kick_write = 0, high_water = 0, overflow_count = 0, parsedConstants = (\<lambda>_ _. 0),
     parsedSlotDirty = (\<lambda>_. False), vsh_dirty_any = False, submission_pending = False, pmc_pending = 0, pmc_enabled = 0, pcrtc_pending = 0,
     pcrtc_enabled = 0, pcrtc_start = 0, pcrtc_regs = (\<lambda>_. 0), raster_stage = 0, pgraph_pending = 0, pgraph_enabled = 0, pgraph_regs = (\<lambda>_. 0),
     vsh_constants = (\<lambda>_ _. 0), dma_semaphore = 0, pvideo_pending = 0, pvideo_enabled = 0, pvideo_regs = (\<lambda>_. 0), enable_overlay = False,
     ptimer_pending = 0, ptimer_enabled = 0, numerator = 0, denominator = 0, alarm_time = 0, ptimer_last = 0, ptimer_period = 0, ptimer_active = False,
     core_clock_coeff = 0, core_clock_freq = 0, memory_clock_coeff = 0, video_clock_coeff = 0, pramdac_regs = (\<lambda>_. 0), cr_index = 0, cr = (\<lambda>_. 0),
     pfb_regs = (\<lambda>_. 0), vblank_last = 0, nv_exiting = False,
     irq_line = \<lparr>irq_asserted = False, irq_pending = False, irq_level_sensitive = True\<rparr>, irq_connected = True, irq_services = 0\<rparr>"


text \<open>Discarding empties the queue.\<close>

lemma discard_empties: "discard_pending_kicks s = Inr ((), t) \<Longrightarrow> kick_read t = kick_write t"
  by (auto simp: discard_pending_kicks_def run_simps split: sum.splits)

end
