(* ===== verification/Spec2Isabelle.thy ===== *)
theory Spec2Isabelle
  imports Cxbx_Prelude Pci_Device Pci_Bus Sm_Devices Sm_Bus Hal_Smbus X86_Cpu X86_Io X86_Operand
    X86_Alu X86_Opcode X86_Decode X86_Facts X86_Properties X86_Strings X86_Quirks Nv_Net Nv_Facts Xbox_Hw Jvs_Board Jvs_Base Jvs_Facts Vid_Swizzle Aud_Adpcm Rtl_Arith Rtl_Time Rtl_Text Rtl_CritSec
    Mm_Pages Mm_Free Mm_Perms Mm_Areas Mm_AreaFacts Mm_AreaOps Mm_Map Mm_Alloc
    Cxbx_Queue Xc_Rc4 Xc_Sha Xc_Des Xc_DesKey Xc_Rsa Xc_Kernel Cxbx_Loops Ke_List Ke_Dpc Ke_Device Ke_Timer Ke_TimerFacts Ke_Wait Ke_WaitFacts Ke_Signal Ke_WaitOps Ke_Expire Ke_ExpireFacts
    Nv_Fifo Nv_FifoFacts Nv_FifoRun Nv_Methods Nv_Kicks Nv_KicksFacts Nv_Scan Nv_Regs Nv_RegsFacts
begin

text \<open>
  Verification library of Cxbx-Reloaded, an emulator that runs Xbox titles on Windows.

  \<^bold>\<open>The program.\<close> A title's x86 code runs natively on the host with its memory mapped at the
  console's addresses. What the code cannot do by itself is emulated: kernel exports
  (\<open>src/core/kernel/exports\<close>) are ordinary functions; an access to a device address or an I/O port
  faults and reaches the instruction emulator (\<open>src/devices/x86\<close>), which decodes one instruction,
  performs its access on the PCI bus (\<open>src/devices/PCIBus.cpp\<close>) and continues behind it; the bus
  hands the access to a device model (\<open>src/devices\<close>). The graphics chip reads commands that the title
  leaves in memory; the kernel's dispatcher makes the title's threads wait and wakes them.

  \<^bold>\<open>Shared parts.\<close> \<open>Cxbx_Prelude\<close>: machine integers as \<open>w word\<close>, the faults (asserts, aborts, wild
  pointers, host exceptions), operations as functions of type \<open>run\<close> from a state to a fault or a result
  with a next state, byte memory, and the ordered association lists that stand for \<open>std::map\<close>.
  \<open>Cxbx_Loops\<close>: the same for code with loops that need not end, \<open>None\<close> meaning that the call never
  returns. \<open>Cxbx_Queue\<close>: the contract of a first-in first-out queue as a locale, interpreted on the
  queues of the model.

  \<^bold>\<open>PCI.\<close> \<open>Pci_Device\<close> (\<open>PCIDevice.cpp\<close>: base address registers, decoding, configuration space),
  \<open>Pci_Bus\<close> (\<open>PCIBus.cpp\<close>: device map, configuration latch, routing over a vtable; the locale
  \<open>pci_devices\<close> is the contract of the bus with its devices), \<open>Xbox_Hw\<close> (\<open>Xbox.cpp\<close>: hardware
  revisions and the devices of the console, on which the locale is interpreted). Shown: routing is
  stable under every access, and configuration writes reach only the device addressed.

  \<^bold>\<open>System management bus.\<close> \<open>Sm_Devices\<close> (microcontroller, EEPROM, temperature monitor), \<open>Sm_Bus\<close>
  (\<open>SMBus.cpp\<close>), \<open>Hal_Smbus\<close> (the two exports of \<open>EmuKrnlHal.cpp\<close>). Shown: no sequence of guest
  accesses leaves the block buffer, and the EEPROM keeps what the exports write.

  \<^bold>\<open>Instruction emulator.\<close> \<open>X86_Cpu\<close>, \<open>X86_Io\<close>, \<open>X86_Operand\<close>, \<open>X86_Alu\<close>, \<open>X86_Opcode\<close>,
  \<open>X86_Decode\<close> (\<open>EmuX86.cpp\<close>: registers, memory and port handlers, operands, flags, every opcode
  handler, the dispatcher); \<open>X86_Facts\<close>, \<open>X86_Properties\<close>, \<open>X86_Strings\<close>, \<open>X86_Quirks\<close>. Shown: the
  instruction pointer moves by the length, moves change one place, comparisons decide jumps as the
  processor does, REP STOS is its loop of bus writes, and where the emulation differs.

  \<^bold>\<open>Network.\<close> \<open>Nv_Net\<close>, \<open>Nv_Facts\<close> (\<open>NVNetDevice.cpp\<close>). Shown: a kick sends exactly the packets
  of the descriptors that the device owns.

  \<^bold>\<open>Chihiro.\<close> \<open>Jvs_Board\<close> (\<open>JvsIo.cpp\<close>), \<open>Jvs_Base\<close> (\<open>JVS.cpp\<close>), \<open>Jvs_Facts\<close>. Shown: when the
  command loop ends, that packets survive the escape coding, address assignment, the exchange between
  the two boards.

  \<^bold>\<open>Media.\<close> \<open>Vid_Swizzle\<close> (\<open>swizzle.cpp\<close>), \<open>Aud_Adpcm\<close> (\<open>XADPCM.h\<close>). Shown: round trip of a
  rectangle, bounds of the decoder, channels decode independently.

  \<^bold>\<open>Run-time library.\<close> \<open>Rtl_Arith\<close>, \<open>Rtl_Time\<close>, \<open>Rtl_Text\<close>, \<open>Rtl_CritSec\<close> (\<open>EmuKrnlRtl.cpp\<close>).
  Shown: the reverse-engineered division and the reciprocals divide, the calendar conversion agrees with
  a calendar and is invertible, numbers survive printing, critical sections refine a recursive lock.

  \<^bold>\<open>Memory manager.\<close> \<open>Mm_Pages\<close>, \<open>Mm_Free\<close>, \<open>Mm_Perms\<close> (\<open>PhysicalMemory.cpp\<close>), \<open>Mm_Areas\<close>,
  \<open>Mm_AreaFacts\<close>, \<open>Mm_AreaOps\<close>, \<open>Mm_Map\<close>, \<open>Mm_Alloc\<close> (\<open>VMManager.cpp\<close>). The free list is a set of pages, the
  area map a function from addresses; allocation and release change exactly their range.

  \<^bold>\<open>Kernel dispatcher.\<close> \<open>Ke_List\<close> (intrusive lists as pointer functions, related to lists by \<open>ring\<close>),
  \<open>Ke_Dpc\<close>, \<open>Ke_Device\<close>, \<open>Ke_Timer\<close> and \<open>Ke_TimerFacts\<close>, \<open>Ke_Wait\<close> and \<open>Ke_WaitFacts\<close>, \<open>Ke_Signal\<close>,
  \<open>Ke_WaitOps\<close>, \<open>Ke_Expire\<close> and \<open>Ke_ExpireFacts\<close> (\<open>EmuKrnlKe.cpp\<close>, \<open>EmuKrnlKi.cpp\<close>, \<open>EmuKrnl.cpp\<close>).
  Shown: deferred calls run in order, device requests are served by the elevator rule, timers stay
  sorted, signalling wakes exactly whom it should, no wake-up is lost between the two steps of a wait.

  \<^bold>\<open>Graphics commands.\<close> \<open>Nv_Fifo\<close> (\<open>EmuNV2A_PFIFO.cpp\<close>: the pusher that decodes the push buffer, the
  128-entry cache, the puller and the object table), \<open>Nv_FifoFacts\<close>, \<open>Nv_FifoRun\<close>; \<open>Nv_Methods\<close>,
  \<open>Nv_Kicks\<close>, \<open>Nv_KicksFacts\<close>, \<open>Nv_Scan\<close> (the pending DMA_PUT ranges that are scanned for transform
  constants ahead of the pusher); \<open>Nv_Regs\<close>, \<open>Nv_RegsFacts\<close> (\<open>nv2a.cpp\<close> and the register blocks).
  Shown: what the puller hands to the engines is what the words of the buffer denote, in order and
  completely; the scan finds the constants the engine will hold; the interrupt line follows the units.

  \<^bold>\<open>Cryptography.\<close> \<open>Xc_Rc4\<close> (\<open>LibRc4.cpp\<close>), \<open>Xc_Sha\<close> (\<open>EmuSha.cpp\<close> and the keyed hash), \<open>Xc_Des\<close> and
  \<open>Xc_DesKey\<close> (\<open>EmuDes.cpp\<close>), \<open>Xc_Rsa\<close> (\<open>EmuRsa.cpp\<close> without the number library), \<open>Xc_Kernel\<close>
  (\<open>EmuKrnlXc.cpp\<close>). Shown: decryption undoes encryption however the message is cut, the streamed digest
  is the standard's, the parity of a key does not matter to its schedule, which signatures are accepted.

  \<^bold>\<open>Reading the model.\<close> A C++ object is a \<open>record\<close>, an enumeration a \<open>datatype\<close>, an operation a
  definition with the name of its function. Globals that a group of functions shares are one record of
  the group. Invariants are predicates with \<open>_ok\<close> in their name; step relations of a component
  (\<open>smb_step\<close>, \<open>fifo_step\<close>, \<open>nv_step\<close>, the calls of the critical section) list what the guest and the clocks can do,
  in any order.

  \<^bold>\<open>Bounds and fuel.\<close> \<open>map_host_loop\<close> has 65536 turns, the number of 64 KiB steps in the address space;
  the parser and the discarding of ranges count the source's own budget of 65536; \<open>consume_loop\<close> and
  \<open>discard_ranges\<close> have 4096 turns, the size of the ring, of which every turn consumes a slot;
  \<open>unmap_loop\<close> has one turn more than there are areas; the clock scan has 32 turns, the number of
  buckets, and the hash of a handle 32, its bits. Loops with no such bound (pusher, puller, linked
  lists, the JVS command loop, the swizzle masks) are partial functions into \<open>option\<close>, and that they
  return is part of the theorems about them.

  \<^bold>\<open>What comes from outside.\<close> The instruction decoder distorm, the capture library, \<open>VirtualAlloc\<close>,
  the shared input page, clocks, guest routines (deferred and interrupt routines, the engine behind
  PGRAPH) are parameters or recorded calls.

  \<^bold>\<open>Not modelled.\<close> Locks and the interrupt request level (operations run under them, interleaving is
  modelled where the code releases them); APCs; objects that are host handles and go to NtDll; logging;
  the host display and sound: the shaders and methods of PGRAPH, the high-level emulation of Direct3D and
  DirectSound; file, object and process services, which wrap host handles; page tables in mapped host
  memory; USB, input devices, the user interface, settings, the loader; title patches; vendored code.
\<close>

end
